(* ===== verification/Prelude.thy ===== *)
theory Prelude
  imports Main "HOL-Library.Word"
begin

unbundle bit_operations_syntax

text \<open>
  Shared vocabulary of the development: the machine integer types of the C code, the error
  codes of \<^verbatim>\<open>include/rederrno.h\<close>, the state-and-error computations every driver function
  is written in, their proof rules, and the list lemmas several components use.

  A C function that returns \<^verbatim>\<open>REDSTATUS\<close> and fills out-parameters is a function from the
  driver state to a pair: \<open>Inr x\<close> with the out-parameter \<open>x\<close> where C returns 0, \<open>Inl e\<close>
  where C returns \<open>-e\<close>, together with the state afterwards. The state is returned on
  failure too, since the C code does not undo its effects.
\<close>

type_synonym u8 = "8 word"
type_synonym u16 = "16 word"
type_synonym u32 = "32 word"
type_synonym u64 = "64 word"
type_synonym bytes = "u8 list"

text \<open>\<^verbatim>\<open>RED_EFUBAR\<close> is the same number as \<^verbatim>\<open>RED_EINVAL\<close> in the C code.\<close>

datatype red_err =
    RED_EPERM | RED_ENOENT | RED_EIO | RED_EBADF | RED_ENOMEM | RED_EBUSY | RED_EEXIST
  | RED_EXDEV | RED_ENOTDIR | RED_EISDIR | RED_EINVAL | RED_ENFILE | RED_EMFILE | RED_EFBIG
  | RED_ENOSPC | RED_EROFS | RED_EMLINK | RED_ERANGE | RED_ENAMETOOLONG | RED_ENOSYS
  | RED_ENOTEMPTY | RED_ENODATA | RED_EUSERS

abbreviation RED_EFUBAR :: red_err where
  "RED_EFUBAR \<equiv> RED_EINVAL"

section \<open>State-and-error computations\<close>

type_synonym ('s, 'a) red = "'s \<Rightarrow> (red_err + 'a) \<times> 's"

definition retR :: "'a \<Rightarrow> ('s, 'a) red" where
  "retR x = (\<lambda>s. (Inr x, s))"

definition failR :: "red_err \<Rightarrow> ('s, 'a) red" where
  "failR e = (\<lambda>s. (Inl e, s))"

definition bindR :: "('s, 'a) red \<Rightarrow> ('a \<Rightarrow> ('s, 'b) red) \<Rightarrow> ('s, 'b) red" where
  "bindR m f = (\<lambda>s. case m s of (Inl e, s') \<Rightarrow> (Inl e, s') | (Inr x, s') \<Rightarrow> f x s')"

definition getR :: "('s \<Rightarrow> ('s, 'a) red) \<Rightarrow> ('s, 'a) red" where
  "getR f = (\<lambda>s. f s s)"

definition modR :: "('s \<Rightarrow> 's) \<Rightarrow> ('s, unit) red" where
  "modR f = (\<lambda>s. (Inr (), f s))"

definition skipR :: "('s, unit) red" where
  "skipR = retR ()"

text \<open>Run \<open>c\<close> whatever \<open>m\<close> returned, and return what \<open>m\<close> returned.\<close>

definition finR :: "('s, 'a) red \<Rightarrow> ('s \<Rightarrow> 's) \<Rightarrow> ('s, 'a) red" where
  "finR m c = (\<lambda>s. case m s of (r, s') \<Rightarrow> (r, c s'))"

text \<open>Run \<open>m\<close> and hand its status to \<open>f\<close>, error or not.\<close>

definition tryR :: "('s, 'a) red \<Rightarrow> (red_err + 'a \<Rightarrow> ('s, 'b) red) \<Rightarrow> ('s, 'b) red" where
  "tryR m f = (\<lambda>s. case m s of (r, s') \<Rightarrow> f r s')"

named_theorems red_simps \<open>unfolding of the computation combinators\<close>

lemma retR_run [red_simps]: "retR x s = (Inr x, s)"
  by (simp add: retR_def)

lemma failR_run [red_simps]: "failR e s = (Inl e, s)"
  by (simp add: failR_def)

lemma getR_run [red_simps]: "getR f s = f s s"
  by (simp add: getR_def)

lemma modR_run [red_simps]: "modR f s = (Inr (), f s)"
  by (simp add: modR_def)

lemma skipR_run [red_simps]: "skipR s = (Inr (), s)"
  by (simp add: skipR_def retR_def)

lemma bindR_run [red_simps]:
  "bindR m f s = (case m s of (Inl e, s') \<Rightarrow> (Inl e, s') | (Inr x, s') \<Rightarrow> f x s')"
  by (simp add: bindR_def)

lemma finR_run [red_simps]: "finR m c s = (case m s of (r, s') \<Rightarrow> (r, c s'))"
  by (simp add: finR_def)

lemma tryR_run [red_simps]: "tryR m f s = (case m s of (r, s') \<Rightarrow> f r s')"
  by (simp add: tryR_def)

lemma if_run [red_simps]: "(if b then m else n) s = (if b then m s else n s)"
  by simp

section \<open>Proof rules\<close>

text \<open>
  \<open>validR P m Q\<close>: from a state with \<open>P\<close>, the computation ends with a status and a state
  related by \<open>Q\<close>. Every computation of the model is a total function, so this is total
  correctness. \<open>presR I m\<close> is the special case of an invariant.
\<close>

definition validR :: "('s \<Rightarrow> bool) \<Rightarrow> ('s, 'a) red \<Rightarrow> (red_err + 'a \<Rightarrow> 's \<Rightarrow> bool) \<Rightarrow> bool" where
  "validR P m Q \<longleftrightarrow> (\<forall>s. P s \<longrightarrow> (case m s of (r, s') \<Rightarrow> Q r s'))"

definition presR :: "('s \<Rightarrow> bool) \<Rightarrow> ('s, 'a) red \<Rightarrow> bool" where
  "presR I m \<longleftrightarrow> (\<forall>s. I s \<longrightarrow> I (snd (m s)))"

named_theorems pres \<open>rules for invariant preservation\<close>

lemma validR_I: "(\<And>s r s'. P s \<Longrightarrow> m s = (r, s') \<Longrightarrow> Q r s') \<Longrightarrow> validR P m Q"
  by (auto simp: validR_def split: prod.splits)

lemma validR_D: "validR P m Q \<Longrightarrow> P s \<Longrightarrow> m s = (r, s') \<Longrightarrow> Q r s'"
  by (fastforce simp: validR_def)

lemma validR_bind:
  assumes "validR P m (\<lambda>r s. case r of Inl e \<Rightarrow> Q (Inl e) s | Inr x \<Rightarrow> R x s)"
    and "\<And>x. validR (R x) (f x) Q"
  shows "validR P (bindR m f) Q"
  using assms by (fastforce simp: validR_def bindR_def split: prod.splits sum.splits)

lemma validR_weaken:
  "validR P' m Q' \<Longrightarrow> (\<And>s. P s \<Longrightarrow> P' s) \<Longrightarrow> (\<And>r s. Q' r s \<Longrightarrow> Q r s) \<Longrightarrow> validR P m Q"
  by (fastforce simp: validR_def split: prod.splits)

lemma presR_I: "(\<And>s. I s \<Longrightarrow> I (snd (m s))) \<Longrightarrow> presR I m"
  by (simp add: presR_def)

lemma presR_D: "presR I m \<Longrightarrow> I s \<Longrightarrow> m s = (r, s') \<Longrightarrow> I s'"
  by (metis presR_def snd_conv)

lemma presR_snd: "presR I m \<Longrightarrow> I s \<Longrightarrow> I (snd (m s))"
  by (simp add: presR_def)

lemma presR_ret [pres]: "presR I (retR x)"
  by (simp add: presR_def red_simps)

lemma presR_fail [pres]: "presR I (failR e)"
  by (simp add: presR_def red_simps)

lemma presR_skip [pres]: "presR I skipR"
  by (simp add: presR_def red_simps)

lemma presR_bind [pres]: "presR I m \<Longrightarrow> (\<And>x. presR I (f x)) \<Longrightarrow> presR I (bindR m f)"
  by (fastforce simp: presR_def bindR_def split: prod.splits sum.splits)

lemma presR_if [pres]: "(b \<Longrightarrow> presR I m) \<Longrightarrow> (\<not> b \<Longrightarrow> presR I n) \<Longrightarrow> presR I (if b then m else n)"
  by simp

lemma presR_get [pres]: "(\<And>s. presR I (f s)) \<Longrightarrow> presR I (getR f)"
  by (simp add: presR_def getR_def)

lemma presR_fin [pres]: "presR I m \<Longrightarrow> (\<And>s. I s \<Longrightarrow> I (c s)) \<Longrightarrow> presR I (finR m c)"
  by (simp add: presR_def finR_def split: prod.splits) (metis snd_conv)

lemma presR_try [pres]: "presR I m \<Longrightarrow> (\<And>x. presR I (f x)) \<Longrightarrow> presR I (tryR m f)"
  by (fastforce simp: presR_def tryR_def split: prod.splits)

lemma presR_mod: "(\<And>s. I s \<Longrightarrow> I (f s)) \<Longrightarrow> presR I (modR f)"
  by (simp add: presR_def modR_def)

lemma presR_option [pres]:
  "(x = None \<Longrightarrow> presR I m) \<Longrightarrow> (\<And>y. x = Some y \<Longrightarrow> presR I (f y)) \<Longrightarrow>
   presR I (case x of None \<Rightarrow> m | Some y \<Rightarrow> f y)"
  by (cases x) auto

lemma presR_sum [pres]:
  "(\<And>e. x = Inl e \<Longrightarrow> presR I (g e)) \<Longrightarrow> (\<And>y. x = Inr y \<Longrightarrow> presR I (f y)) \<Longrightarrow>
   presR I (case x of Inl e \<Rightarrow> g e | Inr y \<Rightarrow> f y)"
  by (cases x) auto

lemma presR_prod [pres]:
  "(\<And>a b. x = (a, b) \<Longrightarrow> presR I (f a b)) \<Longrightarrow> presR I (case x of (a, b) \<Rightarrow> f a b)"
  by (cases x) auto

lemma presR_Let [pres]: "(\<And>x. x = e \<Longrightarrow> presR I (f x)) \<Longrightarrow> presR I (Let e f)"
  by simp

section \<open>Lists used as C arrays\<close>

lemma nth_update_eq [simp]: "i < length xs \<Longrightarrow> xs[i := x] ! j = (if j = i then x else xs ! j)"
  by (simp add: nth_list_update)

text \<open>How often a predicate holds in an array, and what one store does to the count.\<close>

definition count_if :: "('a \<Rightarrow> bool) \<Rightarrow> 'a list \<Rightarrow> nat" where
  "count_if P xs = length (filter P xs)"

lemma count_if_simps [simp]:
  "count_if P [] = 0"
  "count_if P (x # xs) = (if P x then Suc (count_if P xs) else count_if P xs)"
  by (simp_all add: count_if_def)

lemma count_if_update:
  "i < length xs \<Longrightarrow>
   count_if P (xs[i := x]) + (if P (xs ! i) then 1 else 0) = count_if P xs + (if P x then 1 else 0)"
proof (induction xs arbitrary: i)
  case Nil
  then show ?case by simp
next
  case (Cons y ys)
  then show ?case
  proof (cases i)
    case 0
    then show ?thesis by simp
  next
    case (Suc j)
    with Cons.prems have "j < length ys" by simp
    from Cons.IH [OF this] Suc show ?thesis by (cases "P y") simp_all
  qed
qed

lemma count_if_le_length: "count_if P xs \<le> length xs"
  by (simp add: count_if_def)

lemma count_if_pos: "i < length xs \<Longrightarrow> P (xs ! i) \<Longrightarrow> 0 < count_if P xs"
  by (auto simp: count_if_def filter_empty_conv)

lemma count_if_full:
  "count_if P xs = length xs \<longleftrightarrow> (\<forall>i < length xs. P (xs ! i))"
proof -
  have "count_if P xs = length xs \<longleftrightarrow> (\<forall>x \<in> set xs. P x)"
    by (metis count_if_def filter_id_conv filter_True length_filter_less nless_le)
  then show ?thesis by (auto simp: all_set_conv_all_nth)
qed

end
