(* ===== verification/MemStr.thy ===== *)
theory MemStr
  imports Prelude
begin

text \<open>
  Memory and string utilities: \<^verbatim>\<open>util/memory.c\<close>, \<^verbatim>\<open>util/string.c\<close>, \<^verbatim>\<open>util/namelen.c\<close>.

  A pointer argument is \<open>None\<close> for \<^verbatim>\<open>NULL\<close> and \<open>Some xs\<close> for the memory from the pointer
  on. \<open>RedMemMove\<close> works inside one array, since the overlap of source and destination is
  what it is about: source and destination are offsets into it. A string is the memory from its first character; a scan that
  runs off the end of the memory without meeting a null byte is \<open>None\<close>. The length of a
  string is counted in \<open>nat\<close>: no string reaches \<open>2 ^ 32\<close> bytes. The counter-driven loops
  are folds over the range of the counter, in the order the C code counts.
\<close>

section \<open>memory.c\<close>

definition RedMemCpyUnchecked :: "'a list \<Rightarrow> 'a list \<Rightarrow> nat \<Rightarrow> 'a list" where
  "RedMemCpyUnchecked pbDest pbSrc ulLen =
     fold (\<lambda>ulIdx d. d[ulIdx := pbSrc ! ulIdx]) [0..<ulLen] pbDest"

definition RedMemCpy :: "'a list option \<Rightarrow> 'a list option \<Rightarrow> nat \<Rightarrow> 'a list option" where
  "RedMemCpy pDest pSrc ulLen =
     (case (pDest, pSrc) of
        (Some d, Some s) \<Rightarrow> Some (RedMemCpyUnchecked d s ulLen)
      | _ \<Rightarrow> pDest)"

definition RedMemMoveUnchecked :: "nat \<Rightarrow> nat \<Rightarrow> nat \<Rightarrow> 'a list \<Rightarrow> 'a list" where
  "RedMemMoveUnchecked dest src ulLen mem =
     (if dest < src
      then fold (\<lambda>ulIdx m. m[dest + ulIdx := m ! (src + ulIdx)]) [0..<ulLen] mem
      else fold (\<lambda>ulIdx m. m[dest + ulIdx := m ! (src + ulIdx)]) (rev [0..<ulLen]) mem)"

definition RedMemMove :: "nat option \<Rightarrow> nat option \<Rightarrow> nat \<Rightarrow> 'a list \<Rightarrow> 'a list" where
  "RedMemMove pDest pSrc ulLen mem =
     (case (pDest, pSrc) of
        (Some d, Some s) \<Rightarrow> RedMemMoveUnchecked d s ulLen mem
      | _ \<Rightarrow> mem)"

definition RedMemSetUnchecked :: "'a list \<Rightarrow> 'a \<Rightarrow> nat \<Rightarrow> 'a list" where
  "RedMemSetUnchecked pbDest bVal ulLen = fold (\<lambda>ulIdx d. d[ulIdx := bVal]) [0..<ulLen] pbDest"

definition RedMemSet :: "'a list option \<Rightarrow> 'a \<Rightarrow> nat \<Rightarrow> 'a list option" where
  "RedMemSet pDest bVal ulLen = map_option (\<lambda>d. RedMemSetUnchecked d bVal ulLen) pDest"

function memcmp_scan :: "bytes \<Rightarrow> bytes \<Rightarrow> nat \<Rightarrow> nat \<Rightarrow> nat" where
  "memcmp_scan m1 m2 ulLen ulIdx =
     (if ulIdx < ulLen \<and> m1 ! ulIdx = m2 ! ulIdx then memcmp_scan m1 m2 ulLen (Suc ulIdx) else ulIdx)"
  by pat_completeness auto
termination
  by (relation "measure (\<lambda>(m1, m2, n, i). n - i)") auto

declare memcmp_scan.simps [simp del]

definition RedMemCmpUnchecked :: "bytes \<Rightarrow> bytes \<Rightarrow> nat \<Rightarrow> int" where
  "RedMemCmpUnchecked m1 m2 ulLen =
     (let ulIdx = memcmp_scan m1 m2 ulLen 0 in
      if ulIdx = ulLen then 0
      else if m1 ! ulIdx > m2 ! ulIdx then 1
      else - 1)"

definition RedMemCmp :: "bytes option \<Rightarrow> bytes option \<Rightarrow> nat \<Rightarrow> int" where
  "RedMemCmp p1 p2 ulLen =
     (case (p1, p2) of (Some m1, Some m2) \<Rightarrow> RedMemCmpUnchecked m1 m2 ulLen | _ \<Rightarrow> 0)"

section \<open>string.c and namelen.c\<close>

fun RedStrLenUnchecked :: "bytes \<Rightarrow> nat option" where
  "RedStrLenUnchecked [] = None"
| "RedStrLenUnchecked (c # cs) = (if c \<noteq> 0 then map_option Suc (RedStrLenUnchecked cs) else Some 0)"

definition RedStrLen :: "bytes option \<Rightarrow> nat option" where
  "RedStrLen pszStr = (case pszStr of None \<Rightarrow> Some 0 | Some s \<Rightarrow> RedStrLenUnchecked s)"

fun RedStrCmpUnchecked :: "bytes \<Rightarrow> bytes \<Rightarrow> int option" where
  "RedStrCmpUnchecked (c1 # s1) (c2 # s2) =
     (if c1 = c2 \<and> c1 \<noteq> 0 then RedStrCmpUnchecked s1 s2
      else if c1 > c2 then Some 1
      else if c1 < c2 then Some (- 1)
      else Some 0)"
| "RedStrCmpUnchecked _ _ = None"

definition RedStrCmp :: "bytes option \<Rightarrow> bytes option \<Rightarrow> int option" where
  "RedStrCmp p1 p2 =
     (case (p1, p2) of (Some s1, Some s2) \<Rightarrow> RedStrCmpUnchecked s1 s2 | _ \<Rightarrow> Some 0)"

fun RedStrNCmpUnchecked :: "bytes \<Rightarrow> bytes \<Rightarrow> nat \<Rightarrow> int option" where
  "RedStrNCmpUnchecked s1 s2 0 = Some 0"
| "RedStrNCmpUnchecked (c1 # s1) (c2 # s2) (Suc ulLen) =
     (if c1 \<noteq> c2 then (if c1 > c2 then Some 1 else Some (- 1))
      else if c1 = 0 then Some 0
      else RedStrNCmpUnchecked s1 s2 ulLen)"
| "RedStrNCmpUnchecked _ _ _ = None"

definition RedStrNCmp :: "bytes option \<Rightarrow> bytes option \<Rightarrow> nat \<Rightarrow> int option" where
  "RedStrNCmp p1 p2 ulLen =
     (case (p1, p2) of (Some s1, Some s2) \<Rightarrow> RedStrNCmpUnchecked s1 s2 ulLen | _ \<Rightarrow> Some 0)"

text \<open>
  The first loop copies until the null byte or the length, the second pads with null bytes;
  \<open>None\<close> is a read past the end of the source memory.
\<close>

fun strncpy_copy :: "bytes \<Rightarrow> bytes \<Rightarrow> nat \<Rightarrow> nat \<Rightarrow> (bytes \<times> nat) option" where
  "strncpy_copy dst src ulIdx 0 = Some (dst, ulIdx)"
| "strncpy_copy dst [] ulIdx (Suc n) = None"
| "strncpy_copy dst (c # cs) ulIdx (Suc n) =
     (if c \<noteq> 0 then strncpy_copy (dst[ulIdx := c]) cs (Suc ulIdx) n else Some (dst, ulIdx))"

definition RedStrNCpyUnchecked :: "bytes \<Rightarrow> bytes \<Rightarrow> nat \<Rightarrow> bytes option" where
  "RedStrNCpyUnchecked pszDst pszSrc ulLen =
     (case strncpy_copy pszDst pszSrc 0 ulLen of
        None \<Rightarrow> None
      | Some (d, ulIdx) \<Rightarrow> Some (fold (\<lambda>i d. d[i := 0]) [ulIdx..<ulLen] d))"

definition RedStrNCpy :: "bytes option \<Rightarrow> bytes option \<Rightarrow> nat \<Rightarrow> bytes option" where
  "RedStrNCpy pszDst pszSrc ulLen =
     (case (pszDst, pszSrc) of
        (Some d, Some s) \<Rightarrow> RedStrNCpyUnchecked d s ulLen
      | _ \<Rightarrow> pszDst)"

text \<open>\<open>sep\<close> is \<^verbatim>\<open>REDCONF_PATH_SEPARATOR\<close>.\<close>

fun namelen_scan :: "u8 \<Rightarrow> bytes \<Rightarrow> nat option" where
  "namelen_scan sep [] = None"
| "namelen_scan sep (c # cs) =
     (if c \<noteq> 0 \<and> c \<noteq> sep then map_option Suc (namelen_scan sep cs) else Some 0)"

definition RedNameLen :: "u8 \<Rightarrow> bytes option \<Rightarrow> nat option" where
  "RedNameLen sep pszName = (case pszName of None \<Rightarrow> Some 0 | Some s \<Rightarrow> namelen_scan sep s)"

section \<open>What the memory functions do\<close>

named_theorems mem_simps \<open>effect of the memory functions on arrays\<close>

lemma fold_update_nth:
  "length (fold (\<lambda>i d. d[i := f i]) is d) = length d"
  "j < length d \<Longrightarrow> fold (\<lambda>i d. d[i := f i]) is d ! j = (if j \<in> set is then f j else d ! j)"
  by (induction "is" arbitrary: d) (auto simp: nth_list_update)

lemma RedMemCpyUnchecked_eq [mem_simps]:
  "n \<le> length d \<Longrightarrow> n \<le> length s \<Longrightarrow> RedMemCpyUnchecked d s n = take n s @ drop n d"
  by (rule nth_equalityI)
     (auto simp: RedMemCpyUnchecked_def fold_update_nth nth_append)

lemma RedMemSetUnchecked_eq [mem_simps]:
  "n \<le> length d \<Longrightarrow> RedMemSetUnchecked d v n = replicate n v @ drop n d"
  by (rule nth_equalityI)
     (auto simp: RedMemSetUnchecked_def fold_update_nth nth_append)

lemma move_fold_length [simp]:
  "length (fold (\<lambda>i m. m[dest + i := m ! (src + i)]) is mem) = length mem"
  by (induction "is" arbitrary: mem) auto

lemma RedMemMoveUnchecked_length [simp]: "length (RedMemMoveUnchecked d s n m) = length m"
  by (simp add: RedMemMoveUnchecked_def)

text \<open>
  Copying upwards is right when the destination is below the source: the slots already
  written are never read again; copying downwards when it is not below.
\<close>

lemma move_forward_nth:
  assumes "dest < src"
  shows "src + n \<le> length mem \<Longrightarrow> j < length mem \<Longrightarrow>
    fold (\<lambda>i m. m[dest + i := m ! (src + i)]) [0..<n] mem ! j =
    (if dest \<le> j \<and> j < dest + n then mem ! (src + (j - dest)) else mem ! j)"
proof (induction n arbitrary: j)
  case 0
  then show ?case by auto
next
  case (Suc n)
  let ?m = "fold (\<lambda>i m. m[dest + i := m ! (src + i)]) [0..<n] mem"
  have "?m ! (src + n) = mem ! (src + n)"
    using Suc.prems(1) assms by (subst Suc.IH) auto
  moreover have "?m ! j =
      (if dest \<le> j \<and> j < dest + n then mem ! (src + (j - dest)) else mem ! j)"
    using Suc.prems by (intro Suc.IH) auto
  ultimately show ?case
    using Suc.prems assms by (auto simp: nth_list_update)
qed

lemma move_backward_nth:
  assumes "src \<le> dest"
  shows "dest + n \<le> length mem \<Longrightarrow> j < length mem \<Longrightarrow>
    fold (\<lambda>i m. m[dest + i := m ! (src + i)]) (rev [0..<n]) mem ! j =
    (if dest \<le> j \<and> j < dest + n then mem ! (src + (j - dest)) else mem ! j)"
proof (induction n arbitrary: mem)
  case 0
  then show ?case by auto
next
  case (Suc n)
  let ?m = "mem[dest + n := mem ! (src + n)]"
  have "fold (\<lambda>i m. m[dest + i := m ! (src + i)]) (rev [0..<n]) ?m ! j =
      (if dest \<le> j \<and> j < dest + n then ?m ! (src + (j - dest)) else ?m ! j)"
    using Suc.prems by (intro Suc.IH) auto
  moreover have "j = dest + n" if "j < Suc (dest + n)" and "\<not> j < dest + n"
    using that by simp
  ultimately show ?case
    using Suc.prems assms by (auto simp: nth_list_update)
qed

lemma RedMemMoveUnchecked_nth:
  assumes "dest + n \<le> length mem" and "src + n \<le> length mem" and "j < length mem"
  shows "RedMemMoveUnchecked dest src n mem ! j =
    (if dest \<le> j \<and> j < dest + n then mem ! (src + (j - dest)) else mem ! j)"
  using assms by (simp add: RedMemMoveUnchecked_def move_forward_nth move_backward_nth)

lemma RedMemMove_eq:
  assumes "dest + n \<le> length mem" and "src + n \<le> length mem"
  shows "RedMemMove (Some dest) (Some src) n mem
    = take dest mem @ take n (drop src mem) @ drop (dest + n) mem"
proof (rule nth_equalityI)
  have l: "length (take n (drop src mem)) = n" "length (take dest mem) = dest"
    using assms by auto
  show "length (RedMemMove (Some dest) (Some src) n mem)
      = length (take dest mem @ take n (drop src mem) @ drop (dest + n) mem)"
    using assms by (simp only: length_append l) (simp add: RedMemMove_def)
  fix i assume "i < length (RedMemMove (Some dest) (Some src) n mem)"
  then have i: "i < length mem" by (simp add: RedMemMove_def)
  consider "i < dest" | "dest \<le> i" "i < dest + n" "i - dest < n"
    | "dest + n \<le> i" "\<not> i - dest < n" "\<not> i < dest" by linarith
  then show "RedMemMove (Some dest) (Some src) n mem ! i
      = (take dest mem @ take n (drop src mem) @ drop (dest + n) mem) ! i"
    using assms i by cases (simp_all add: RedMemMove_def RedMemMoveUnchecked_nth nth_append l)
qed

lemma memcmp_scan_spec:
  assumes "i \<le> n"
  shows "i \<le> memcmp_scan m1 m2 n i \<and> memcmp_scan m1 m2 n i \<le> n
    \<and> (\<forall>k. i \<le> k \<and> k < memcmp_scan m1 m2 n i \<longrightarrow> m1 ! k = m2 ! k)
    \<and> (memcmp_scan m1 m2 n i < n \<longrightarrow>
         m1 ! memcmp_scan m1 m2 n i \<noteq> m2 ! memcmp_scan m1 m2 n i)"
  using assms
proof (induction m1 m2 n i rule: memcmp_scan.induct)
  case (1 m1 m2 n i)
  show ?case
  proof (cases "i < n \<and> m1 ! i = m2 ! i")
    case True
    with "1.IH" have "Suc i \<le> memcmp_scan m1 m2 n (Suc i) \<and> memcmp_scan m1 m2 n (Suc i) \<le> n
      \<and> (\<forall>k. Suc i \<le> k \<and> k < memcmp_scan m1 m2 n (Suc i) \<longrightarrow> m1 ! k = m2 ! k)
      \<and> (memcmp_scan m1 m2 n (Suc i) < n \<longrightarrow>
           m1 ! memcmp_scan m1 m2 n (Suc i) \<noteq> m2 ! memcmp_scan m1 m2 n (Suc i))"
      by simp
    moreover have "memcmp_scan m1 m2 n i = memcmp_scan m1 m2 n (Suc i)"
      using True by (simp add: memcmp_scan.simps [of m1 m2 n i])
    moreover have "k = i \<or> Suc i \<le> k" if "i \<le> k" for k
      using that by arith
    ultimately show ?thesis
      using True by (auto dest: Suc_leD)
  next
    case False
    with "1.prems" show ?thesis by (auto simp: memcmp_scan.simps [of m1 m2 n i])
  qed
qed

lemma RedMemCmpUnchecked_zero_iff:
  assumes "n \<le> length m1" and "n \<le> length m2"
  shows "RedMemCmpUnchecked m1 m2 n = 0 \<longleftrightarrow> take n m1 = take n m2"
proof -
  let ?i = "memcmp_scan m1 m2 n 0"
  have *: "?i \<le> n" "\<forall>k < ?i. m1 ! k = m2 ! k" "?i < n \<longrightarrow> m1 ! ?i \<noteq> m2 ! ?i"
    using memcmp_scan_spec [of 0 n m1 m2] by auto
  have "take n m1 = take n m2 \<longleftrightarrow> (\<forall>k < n. m1 ! k = m2 ! k)"
    using assms by (auto simp: list_eq_iff_nth_eq)
  also have "\<dots> \<longleftrightarrow> ?i = n"
    using * by (metis le_neq_implies_less)
  finally show ?thesis
    using * by (auto simp: RedMemCmpUnchecked_def Let_def)
qed

section \<open>What the string functions do\<close>

text \<open>\<open>cstr a\<close> is the text \<open>a\<close> as C stores it; \<open>text_ok a\<close> says that it has no null byte.\<close>

definition cstr :: "bytes \<Rightarrow> bytes" where
  "cstr a = a @ [0]"

definition text_ok :: "bytes \<Rightarrow> bool" where
  "text_ok a \<longleftrightarrow> 0 \<notin> set a"

lemma RedStrLenUnchecked_cstr:
  "text_ok a \<Longrightarrow> RedStrLenUnchecked (cstr a @ rest) = Some (length a)"
  by (induction a) (auto simp: text_ok_def cstr_def)

lemma namelen_scan_cstr:
  "text_ok a \<Longrightarrow> sep \<notin> set a \<Longrightarrow> c = 0 \<or> c = sep \<Longrightarrow>
   namelen_scan sep (a @ c # rest) = Some (length a)"
  by (induction a) (auto simp: text_ok_def)

text \<open>The sign of a comparison of two texts, byte by byte, a proper prefix being smaller.\<close>

fun text_cmp :: "bytes \<Rightarrow> bytes \<Rightarrow> int" where
  "text_cmp [] [] = 0"
| "text_cmp [] (_ # _) = - 1"
| "text_cmp (_ # _) [] = 1"
| "text_cmp (a # as) (b # bs) = (if a = b then text_cmp as bs else if a > b then 1 else - 1)"

lemma text_cmp_zero_iff: "text_cmp a b = 0 \<longleftrightarrow> a = b"
  by (induction a b rule: text_cmp.induct) auto

lemma text_cmp_sym: "text_cmp b a = - text_cmp a b"
  by (induction a b rule: text_cmp.induct) auto

lemma RedStrCmpUnchecked_cstr:
  "text_ok a \<Longrightarrow> text_ok b \<Longrightarrow>
   RedStrCmpUnchecked (cstr a @ x) (cstr b @ y) = Some (text_cmp a b)"
  by (induction a b rule: text_cmp.induct)
     (auto simp: text_ok_def cstr_def word_gt_0 intro: order.not_eq_order_implies_strict)

lemma RedStrNCmpUnchecked_cstr:
  "text_ok a \<Longrightarrow> text_ok b \<Longrightarrow>
   RedStrNCmpUnchecked (cstr a @ x) (cstr b @ y) n = Some (text_cmp (take n a) (take n b))"
proof (induction a b arbitrary: n rule: text_cmp.induct)
  case 1
  then show ?case by (cases n) (auto simp: cstr_def)
next
  case (2 b bs)
  then show ?case by (cases n) (auto simp: cstr_def text_ok_def word_gt_0)
next
  case (3 a as)
  then show ?case by (cases n) (auto simp: cstr_def text_ok_def word_gt_0)
next
  case (4 a as b bs)
  then show ?case by (cases n) (auto simp: cstr_def text_ok_def)
qed

lemma strncpy_copy_cstr:
  "text_ok a \<Longrightarrow> i + n \<le> length d \<Longrightarrow>
   strncpy_copy d (cstr a @ rest) i n =
     Some (take i d @ take n a @ drop (i + min n (length a)) d, i + min n (length a))"
proof (induction a arbitrary: d i n)
  case Nil
  then show ?case by (cases n) (auto simp: cstr_def)
next
  case (Cons c a)
  show ?case
  proof (cases n)
    case 0
    then show ?thesis by (simp add: cstr_def)
  next
    case (Suc m)
    have "strncpy_copy (d[i := c]) (cstr a @ rest) (Suc i) m =
      Some (take (Suc i) (d[i := c]) @ take m a @ drop (Suc i + min m (length a)) (d[i := c]),
            Suc i + min m (length a))"
      using Cons.prems Suc by (intro Cons.IH) (auto simp: text_ok_def)
    moreover have "take (Suc i) (d[i := c]) = take i d @ [c]"
      using Cons.prems Suc by (simp add: take_Suc_conv_app_nth)
    moreover have "drop (Suc i + min m (length a)) (d[i := c]) = drop (Suc i + min m (length a)) d"
      by simp
    ultimately show ?thesis
      using Cons.prems Suc by (simp add: cstr_def text_ok_def)
  qed
qed

lemma fold_zero_tail:
  assumes "i \<le> n" and "n \<le> length d"
  shows "fold (\<lambda>k d. d[k := 0]) [i..<n] d = take i d @ replicate (n - i) 0 @ drop n d"
  using assms
  by (intro nth_equalityI) (auto simp: fold_update_nth nth_append)

lemma RedStrNCpyUnchecked_cstr:
  assumes "text_ok a" and "n \<le> length d"
  shows "RedStrNCpyUnchecked d (cstr a @ rest) n =
    Some (take n a @ replicate (n - length a) 0 @ drop n d)"
proof -
  have "strncpy_copy d (cstr a @ rest) 0 n =
      Some (take n a @ drop (min n (length a)) d, min n (length a))"
    using strncpy_copy_cstr [of a 0 n d rest] assms by simp
  moreover have "fold (\<lambda>k d. d[k := 0]) [min n (length a)..<n] (take n a @ drop (min n (length a)) d)
     = take n a @ replicate (n - length a) 0 @ drop n d"
    using assms by (subst fold_zero_tail) (auto simp: min_def)
  ultimately show ?thesis by (simp add: RedStrNCpyUnchecked_def)
qed

end
