(* ===== verification/Bits.thy ===== *)
theory Bits
  imports Prelude
begin

text \<open>
  Bitmaps (\<^verbatim>\<open>util/bitmap.c\<close>) and byte-order reversal (\<^verbatim>\<open>util/endian.c\<close>).

  A bitmap is its byte array, bit 0 being the most significant bit of the first byte; every
  caller passes an array member of a structure, so the \<^verbatim>\<open>NULL\<close> check of the C functions has
  no counterpart. The interface \<open>bitmap\<close> states what the imap code relies on; it is
  interpreted by the three functions at the end of the theory.
\<close>

section \<open>bitmap.c\<close>

definition bit_mask :: "u32 \<Rightarrow> u8" where
  "bit_mask ulBit = drop_bit (unat (ulBit AND 7)) 0x80"

definition RedBitGet :: "bytes \<Rightarrow> u32 \<Rightarrow> bool" where
  "RedBitGet pbBitmap ulBit \<longleftrightarrow> (pbBitmap ! unat (drop_bit 3 ulBit)) AND bit_mask ulBit \<noteq> 0"

definition RedBitSet :: "bytes \<Rightarrow> u32 \<Rightarrow> bytes" where
  "RedBitSet pbBitmap ulBit =
     pbBitmap[unat (drop_bit 3 ulBit) := (pbBitmap ! unat (drop_bit 3 ulBit)) OR bit_mask ulBit]"

definition RedBitClear :: "bytes \<Rightarrow> u32 \<Rightarrow> bytes" where
  "RedBitClear pbBitmap ulBit =
     pbBitmap[unat (drop_bit 3 ulBit) := (pbBitmap ! unat (drop_bit 3 ulBit)) AND NOT (bit_mask ulBit)]"

section \<open>endian.c\<close>

definition RedRev64 :: "u64 \<Rightarrow> u64" where
  "RedRev64 ullToRev =
     (let a = push_bit 32 (ullToRev AND 0x00000000FFFFFFFF) OR drop_bit 32 (ullToRev AND 0xFFFFFFFF00000000);
          b = push_bit 16 (a AND 0x0000FFFF0000FFFF) OR drop_bit 16 (a AND 0xFFFF0000FFFF0000)
      in push_bit 8 (b AND 0x00FF00FF00FF00FF) OR drop_bit 8 (b AND 0xFF00FF00FF00FF00))"

definition RedRev32 :: "u32 \<Rightarrow> u32" where
  "RedRev32 ulToRev =
     push_bit 24 (ulToRev AND 0x000000FF) OR push_bit 8 (ulToRev AND 0x0000FF00)
     OR drop_bit 8 (ulToRev AND 0x00FF0000) OR drop_bit 24 (ulToRev AND 0xFF000000)"

definition RedRev16 :: "u16 \<Rightarrow> u16" where
  "RedRev16 uToRev = drop_bit 8 (uToRev AND 0xFF00) OR push_bit 8 (uToRev AND 0x00FF)"

section \<open>The bitmap interface\<close>

locale bitmap =
  fixes get :: "'bm \<Rightarrow> u32 \<Rightarrow> bool"
    and set1 :: "'bm \<Rightarrow> u32 \<Rightarrow> 'bm"
    and clear1 :: "'bm \<Rightarrow> u32 \<Rightarrow> 'bm"
    and covers :: "'bm \<Rightarrow> u32 \<Rightarrow> bool"
  assumes get_set: "covers bm b \<Longrightarrow> get (set1 bm b) c \<longleftrightarrow> c = b \<or> get bm c"
    and get_clear: "covers bm b \<Longrightarrow> get (clear1 bm b) c \<longleftrightarrow> c \<noteq> b \<and> get bm c"
    and covers_set: "covers (set1 bm b) c = covers bm c"
    and covers_clear: "covers (clear1 bm b) c = covers bm c"
begin

lemma toggle_other:
  "covers bm b \<Longrightarrow> c \<noteq> b \<Longrightarrow> get (if get bm b then clear1 bm b else set1 bm b) c = get bm c"
  by (simp add: get_set get_clear)

lemma toggle_same:
  "covers bm b \<Longrightarrow> get (if get bm b then clear1 bm b else set1 bm b) b \<longleftrightarrow> \<not> get bm b"
  by (simp add: get_set get_clear)

lemma set_all:
  "(\<forall>b \<in> set bs. covers bm b) \<Longrightarrow> get (fold (\<lambda>b m. set1 m b) bs bm) c \<longleftrightarrow> c \<in> set bs \<or> get bm c"
  by (induction bs arbitrary: bm) (auto simp: get_set covers_set)

end

lemma unat_drop3: "unat (drop_bit 3 (b :: u32)) = unat b div 8"
  by (simp add: drop_bit_eq_div unat_div)

lemma unat_and7: "unat ((b :: u32) AND 7) = unat b mod 8"
proof -
  have "(7 :: u32) = mask 3" by (simp add: mask_eq_exp_minus_1)
  then have "b AND 7 = take_bit 3 b" by (simp add: take_bit_eq_mask)
  then show ?thesis by (simp add: take_bit_eq_mod unat_mod)
qed

lemma bit_bit_mask: "bit (bit_mask b) j \<longleftrightarrow> j = 7 - unat b mod 8"
proof -
  have "k < 8 \<Longrightarrow> bit (drop_bit k (0x80 :: u8)) j \<longleftrightarrow> j = 7 - k" for k
  proof -
    have p: "bit (0x80 :: u8) i \<longleftrightarrow> i = 7" for i
    proof -
      have "(0x80 :: u8) = push_bit 7 1" by (simp add: push_bit_eq_mult)
      then show ?thesis by (simp only: bit_push_bit_iff bit_1_iff) auto
    qed
    assume "k < 8"
    then show ?thesis unfolding bit_drop_bit_eq comp_def p by auto
  qed
  then show ?thesis by (simp add: bit_mask_def unat_and7)
qed

lemma and_mask_nz:
  fixes x m :: u8
  assumes "\<And>i. bit m i \<longleftrightarrow> i = j"
  shows "x AND m \<noteq> 0 \<longleftrightarrow> bit x j"
proof
  assume "x AND m \<noteq> 0"
  then obtain i where "bit (x AND m) i" by (metis bit_word_eqI bit_0_eq bot_apply bot_bool_def)
  with assms show "bit x j" by (auto simp: bit_and_iff)
next
  assume "bit x j"
  with assms have "bit (x AND m) j" by (simp add: bit_and_iff)
  then show "x AND m \<noteq> 0" by auto
qed

lemma RedBitGet_bit: "RedBitGet bm b \<longleftrightarrow> bit (bm ! (unat b div 8)) (7 - unat b mod 8)"
  unfolding RedBitGet_def unat_drop3
  by (rule and_mask_nz) (auto simp: bit_bit_mask)

lemma same_bit_iff: "(b :: u32) = c \<longleftrightarrow> unat b div 8 = unat c div 8 \<and> unat b mod 8 = unat c mod 8"
  by (metis div_mult_mod_eq word_unat_eq_iff)

lemma RedBitSet_get:
  assumes "unat b div 8 < length bm"
  shows "RedBitGet (RedBitSet bm b) c \<longleftrightarrow> c = b \<or> RedBitGet bm c"
proof -
  have "unat c mod 8 < 8" "unat b mod 8 < 8" by simp_all
  then show ?thesis
    using assms
    by (auto simp: RedBitGet_bit RedBitSet_def unat_drop3 bit_or_iff bit_bit_mask same_bit_iff)
qed

lemma RedBitClear_get:
  assumes "unat b div 8 < length bm"
  shows "RedBitGet (RedBitClear bm b) c \<longleftrightarrow> c \<noteq> b \<and> RedBitGet bm c"
proof -
  have "unat c mod 8 < 8" "unat b mod 8 < 8" by simp_all
  then show ?thesis
    using assms
    by (auto simp: RedBitGet_bit RedBitClear_def unat_drop3 bit_and_iff bit_not_iff bit_bit_mask
        same_bit_iff)
qed

lemma RedBitSet_length [simp]: "length (RedBitSet bm b) = length bm"
  by (simp add: RedBitSet_def)

lemma RedBitClear_length [simp]: "length (RedBitClear bm b) = length bm"
  by (simp add: RedBitClear_def)

interpretation redbits: bitmap RedBitGet RedBitSet RedBitClear
  "\<lambda>bm b. unat b div 8 < length bm"
  by unfold_locales (simp_all add: RedBitSet_get RedBitClear_get)

section \<open>Byte reversal\<close>

text \<open>The masks of the reversals as runs of ones, so that single bits can be followed.\<close>

lemma rev_masks:
  "(0x000000FF :: u32) = mask 8" "(0x0000FF00 :: u32) = push_bit 8 (mask 8)"
  "(0x00FF0000 :: u32) = push_bit 16 (mask 8)" "(0xFF000000 :: u32) = push_bit 24 (mask 8)"
  "(0x00FF :: u16) = mask 8" "(0xFF00 :: u16) = push_bit 8 (mask 8)"
  "(0x00000000FFFFFFFF :: u64) = mask 32" "(0xFFFFFFFF00000000 :: u64) = push_bit 32 (mask 32)"
  "(0x0000FFFF0000FFFF :: u64) = mask 16 OR push_bit 32 (mask 16)"
  "(0xFFFF0000FFFF0000 :: u64) = push_bit 16 (mask 16) OR push_bit 48 (mask 16)"
  "(0x00FF00FF00FF00FF :: u64) =
     mask 8 OR push_bit 16 (mask 8) OR push_bit 32 (mask 8) OR push_bit 48 (mask 8)"
  "(0xFF00FF00FF00FF00 :: u64) =
     push_bit 8 (mask 8) OR push_bit 24 (mask 8) OR push_bit 40 (mask 8) OR push_bit 56 (mask 8)"
  by (simp_all add: mask_eq_exp_minus_1 push_bit_eq_mult)

text \<open>A bit index as byte number and position in the byte, so that the shifts are sums.\<close>

lemma byte_cases:
  assumes "(n :: nat) < 64"
  obtains m where "m < 8" and "n = m" | m where "m < 8" and "n = 8 + m"
    | m where "m < 8" and "n = 16 + m" | m where "m < 8" and "n = 24 + m"
    | m where "m < 8" and "n = 32 + m" | m where "m < 8" and "n = 40 + m"
    | m where "m < 8" and "n = 48 + m" | m where "m < 8" and "n = 56 + m"
proof -
  consider "0 \<le> n" "n < 8"
    | "8 \<le> n" "n < 16"
    | "16 \<le> n" "n < 24"
    | "24 \<le> n" "n < 32"
    | "32 \<le> n" "n < 40"
    | "40 \<le> n" "n < 48"
    | "48 \<le> n" "n < 56"
    | "56 \<le> n" "n < 64"
    using assms by linarith
  then show ?thesis
  proof cases
    case 1
    then show ?thesis using that(1) [of "n - 0"] by simp
  next
    case 2
    then show ?thesis using that(2) [of "n - 8"] by simp
  next
    case 3
    then show ?thesis using that(3) [of "n - 16"] by simp
  next
    case 4
    then show ?thesis using that(4) [of "n - 24"] by simp
  next
    case 5
    then show ?thesis using that(5) [of "n - 32"] by simp
  next
    case 6
    then show ?thesis using that(6) [of "n - 40"] by simp
  next
    case 7
    then show ?thesis using that(7) [of "n - 48"] by simp
  next
    case 8
    then show ?thesis using that(8) [of "n - 56"] by simp
  qed
qed

lemma RedRev16_bytes:
  assumes "m < 8"
  shows "bit (RedRev16 x) m = bit x (8 + m)" "bit (RedRev16 x) (8 + m) = bit x m"
  unfolding RedRev16_def rev_masks using assms by (simp_all add: bit_simps)

lemma RedRev32_bytes:
  assumes "m < 8"
  shows "bit (RedRev32 x) m = bit x (24 + m)" "bit (RedRev32 x) (8 + m) = bit x (16 + m)"
    "bit (RedRev32 x) (16 + m) = bit x (8 + m)" "bit (RedRev32 x) (24 + m) = bit x m"
  unfolding RedRev32_def rev_masks using assms by (simp_all add: bit_simps)

lemma RedRev64_bytes:
  assumes "m < 8"
  shows "bit (RedRev64 x) m = bit x (56 + m)" "bit (RedRev64 x) (8 + m) = bit x (48 + m)"
    "bit (RedRev64 x) (16 + m) = bit x (40 + m)" "bit (RedRev64 x) (24 + m) = bit x (32 + m)"
    "bit (RedRev64 x) (32 + m) = bit x (24 + m)" "bit (RedRev64 x) (40 + m) = bit x (16 + m)"
    "bit (RedRev64 x) (48 + m) = bit x (8 + m)" "bit (RedRev64 x) (56 + m) = bit x m"
  unfolding RedRev64_def rev_masks Let_def using assms by (simp_all add: bit_simps)

lemma RedRev16_involution [simp]: "RedRev16 (RedRev16 x) = x"
proof (rule bit_word_eqI)
  fix n assume "n < LENGTH(16)"
  then have "n < 64" by simp
  then show "bit (RedRev16 (RedRev16 x)) n \<longleftrightarrow> bit x n"
    using \<open>n < LENGTH(16)\<close> by (cases n rule: byte_cases) (simp_all add: RedRev16_bytes)
qed

lemma RedRev32_involution [simp]: "RedRev32 (RedRev32 x) = x"
proof (rule bit_word_eqI)
  fix n assume "n < LENGTH(32)"
  then have "n < 64" by simp
  then show "bit (RedRev32 (RedRev32 x)) n \<longleftrightarrow> bit x n"
    using \<open>n < LENGTH(32)\<close> by (cases n rule: byte_cases) (simp_all add: RedRev32_bytes)
qed

lemma RedRev64_involution [simp]: "RedRev64 (RedRev64 x) = x"
proof (rule bit_word_eqI)
  fix n assume "n < LENGTH(64)"
  then have "n < 64" by simp
  then show "bit (RedRev64 (RedRev64 x)) n \<longleftrightarrow> bit x n"
    by (cases n rule: byte_cases) (simp_all add: RedRev64_bytes)
qed

end
