(* ===== verification/Crc.thy ===== *)
theory Crc
  imports Prelude
begin

text \<open>
  CRC-32 (\<^verbatim>\<open>util/crc.c\<close>): the three algorithms a configuration can choose between with
  \<^verbatim>\<open>REDCONF_CRC_ALGORITHM\<close>, on the memory from \<open>pBuffer\<close> on (\<open>None\<close> for \<^verbatim>\<open>NULL\<close>), and
  \<open>RedCrcNode\<close>. The tables are the source's, entry by entry. The lemmas show that the CRC
  register is linear over exclusive or, that the tables are the ones the polynomial gives,
  and that the three algorithms compute the same function.
\<close>

section \<open>CRC_BITWISE\<close>

definition SUSPICIOUS_CRC_VALUE :: u32 where
  "SUSPICIOUS_CRC_VALUE = 0xBAADC0DE"

definition CCITT_32_POLYNOMIAL :: u32 where
  "CCITT_32_POLYNOMIAL = 0xEDB88320"

text \<open>The inner loop's body and the outer loop's body.\<close>

definition crc_bit :: "u32 \<Rightarrow> u32" where
  "crc_bit ulCrc32 = ((ulCrc32 AND 1) * CCITT_32_POLYNOMIAL) XOR drop_bit 1 ulCrc32"

definition crc_bits8 :: "u32 \<Rightarrow> u32" where
  "crc_bits8 ulCrc32 = (crc_bit ^^ 8) ulCrc32"

definition crc_byte :: "u32 \<Rightarrow> u8 \<Rightarrow> u32" where
  "crc_byte ulCrc32 b = crc_bits8 (ulCrc32 XOR ucast b)"

definition RedCrc32Update_bitwise :: "u32 \<Rightarrow> bytes option \<Rightarrow> nat \<Rightarrow> u32" where
  "RedCrc32Update_bitwise ulInitCrc32 pBuffer ulLength =
     (case pBuffer of
        None \<Rightarrow> SUSPICIOUS_CRC_VALUE
      | Some pb \<Rightarrow> NOT (fold (\<lambda>ulIdx c. crc_byte c (pb ! ulIdx)) [0..<ulLength] (NOT ulInitCrc32)))"

section \<open>CRC_SARWATE\<close>

definition aulCrc32Table_sarwate :: "u32 list" where
  "aulCrc32Table_sarwate =
   [0x00000000, 0x77073096, 0xEE0E612C, 0x990951BA, 0x076DC419, 0x706AF48F, 0xE963A535, 0x9E6495A3,
    0x0EDB8832, 0x79DCB8A4, 0xE0D5E91E, 0x97D2D988, 0x09B64C2B, 0x7EB17CBD, 0xE7B82D07, 0x90BF1D91,
    0x1DB71064, 0x6AB020F2, 0xF3B97148, 0x84BE41DE, 0x1ADAD47D, 0x6DDDE4EB, 0xF4D4B551, 0x83D385C7,
    0x136C9856, 0x646BA8C0, 0xFD62F97A, 0x8A65C9EC, 0x14015C4F, 0x63066CD9, 0xFA0F3D63, 0x8D080DF5,
    0x3B6E20C8, 0x4C69105E, 0xD56041E4, 0xA2677172, 0x3C03E4D1, 0x4B04D447, 0xD20D85FD, 0xA50AB56B,
    0x35B5A8FA, 0x42B2986C, 0xDBBBC9D6, 0xACBCF940, 0x32D86CE3, 0x45DF5C75, 0xDCD60DCF, 0xABD13D59,
    0x26D930AC, 0x51DE003A, 0xC8D75180, 0xBFD06116, 0x21B4F4B5, 0x56B3C423, 0xCFBA9599, 0xB8BDA50F,
    0x2802B89E, 0x5F058808, 0xC60CD9B2, 0xB10BE924, 0x2F6F7C87, 0x58684C11, 0xC1611DAB, 0xB6662D3D,
    0x76DC4190, 0x01DB7106, 0x98D220BC, 0xEFD5102A, 0x71B18589, 0x06B6B51F, 0x9FBFE4A5, 0xE8B8D433,
    0x7807C9A2, 0x0F00F934, 0x9609A88E, 0xE10E9818, 0x7F6A0DBB, 0x086D3D2D, 0x91646C97, 0xE6635C01,
    0x6B6B51F4, 0x1C6C6162, 0x856530D8, 0xF262004E, 0x6C0695ED, 0x1B01A57B, 0x8208F4C1, 0xF50FC457,
    0x65B0D9C6, 0x12B7E950, 0x8BBEB8EA, 0xFCB9887C, 0x62DD1DDF, 0x15DA2D49, 0x8CD37CF3, 0xFBD44C65,
    0x4DB26158, 0x3AB551CE, 0xA3BC0074, 0xD4BB30E2, 0x4ADFA541, 0x3DD895D7, 0xA4D1C46D, 0xD3D6F4FB,
    0x4369E96A, 0x346ED9FC, 0xAD678846, 0xDA60B8D0, 0x44042D73, 0x33031DE5, 0xAA0A4C5F, 0xDD0D7CC9,
    0x5005713C, 0x270241AA, 0xBE0B1010, 0xC90C2086, 0x5768B525, 0x206F85B3, 0xB966D409, 0xCE61E49F,
    0x5EDEF90E, 0x29D9C998, 0xB0D09822, 0xC7D7A8B4, 0x59B33D17, 0x2EB40D81, 0xB7BD5C3B, 0xC0BA6CAD,
    0xEDB88320, 0x9ABFB3B6, 0x03B6E20C, 0x74B1D29A, 0xEAD54739, 0x9DD277AF, 0x04DB2615, 0x73DC1683,
    0xE3630B12, 0x94643B84, 0x0D6D6A3E, 0x7A6A5AA8, 0xE40ECF0B, 0x9309FF9D, 0x0A00AE27, 0x7D079EB1,
    0xF00F9344, 0x8708A3D2, 0x1E01F268, 0x6906C2FE, 0xF762575D, 0x806567CB, 0x196C3671, 0x6E6B06E7,
    0xFED41B76, 0x89D32BE0, 0x10DA7A5A, 0x67DD4ACC, 0xF9B9DF6F, 0x8EBEEFF9, 0x17B7BE43, 0x60B08ED5,
    0xD6D6A3E8, 0xA1D1937E, 0x38D8C2C4, 0x4FDFF252, 0xD1BB67F1, 0xA6BC5767, 0x3FB506DD, 0x48B2364B,
    0xD80D2BDA, 0xAF0A1B4C, 0x36034AF6, 0x41047A60, 0xDF60EFC3, 0xA867DF55, 0x316E8EEF, 0x4669BE79,
    0xCB61B38C, 0xBC66831A, 0x256FD2A0, 0x5268E236, 0xCC0C7795, 0xBB0B4703, 0x220216B9, 0x5505262F,
    0xC5BA3BBE, 0xB2BD0B28, 0x2BB45A92, 0x5CB36A04, 0xC2D7FFA7, 0xB5D0CF31, 0x2CD99E8B, 0x5BDEAE1D,
    0x9B64C2B0, 0xEC63F226, 0x756AA39C, 0x026D930A, 0x9C0906A9, 0xEB0E363F, 0x72076785, 0x05005713,
    0x95BF4A82, 0xE2B87A14, 0x7BB12BAE, 0x0CB61B38, 0x92D28E9B, 0xE5D5BE0D, 0x7CDCEFB7, 0x0BDBDF21,
    0x86D3D2D4, 0xF1D4E242, 0x68DDB3F8, 0x1FDA836E, 0x81BE16CD, 0xF6B9265B, 0x6FB077E1, 0x18B74777,
    0x88085AE6, 0xFF0F6A70, 0x66063BCA, 0x11010B5C, 0x8F659EFF, 0xF862AE69, 0x616BFFD3, 0x166CCF45,
    0xA00AE278, 0xD70DD2EE, 0x4E048354, 0x3903B3C2, 0xA7672661, 0xD06016F7, 0x4969474D, 0x3E6E77DB,
    0xAED16A4A, 0xD9D65ADC, 0x40DF0B66, 0x37D83BF0, 0xA9BCAE53, 0xDEBB9EC5, 0x47B2CF7F, 0x30B5FFE9,
    0xBDBDF21C, 0xCABAC28A, 0x53B39330, 0x24B4A3A6, 0xBAD03605, 0xCDD70693, 0x54DE5729, 0x23D967BF,
    0xB3667A2E, 0xC4614AB8, 0x5D681B02, 0x2A6F2B94, 0xB40BBE37, 0xC30C8EA1, 0x5A05DF1B, 0x2D02EF8D]"

definition sarwate_byte :: "u32 \<Rightarrow> u8 \<Rightarrow> u32" where
  "sarwate_byte ulCrc32 b =
     drop_bit 8 ulCrc32 XOR aulCrc32Table_sarwate ! unat ((ulCrc32 XOR ucast b) AND 0xFF)"

definition RedCrc32Update_sarwate :: "u32 \<Rightarrow> bytes option \<Rightarrow> nat \<Rightarrow> u32" where
  "RedCrc32Update_sarwate ulInitCrc32 pBuffer ulLength =
     (case pBuffer of
        None \<Rightarrow> SUSPICIOUS_CRC_VALUE
      | Some pb \<Rightarrow> NOT (fold (\<lambda>ulIdx c. sarwate_byte c (pb ! ulIdx)) [0..<ulLength] (NOT ulInitCrc32)))"

section \<open>CRC_SLICEBY8\<close>

definition aulCrc32Table_slice8 :: "u32 list" where
  "aulCrc32Table_slice8 =
   [0x00000000, 0x00000000, 0x00000000, 0x00000000, 0x00000000, 0x00000000, 0x00000000, 0x00000000,
    0x77073096, 0x191B3141, 0x01C26A37, 0xB8BC6765, 0x3D6029B0, 0xCB5CD3A5, 0xA6770BB4, 0xCCAA009E,
    0xEE0E612C, 0x32366282, 0x0384D46E, 0xAA09C88B, 0x7AC05360, 0x4DC8A10B, 0x979F1129, 0x4225077D,
    0x990951BA, 0x2B2D53C3, 0x0246BE59, 0x12B5AFEE, 0x47A07AD0, 0x869472AE, 0x31E81A9D, 0x8E8F07E3,
    0x076DC419, 0x646CC504, 0x0709A8DC, 0x8F629757, 0xF580A6C0, 0x9B914216, 0xF44F2413, 0x844A0EFA,
    0x706AF48F, 0x7D77F445, 0x06CBC2EB, 0x37DEF032, 0xC8E08F70, 0x50CD91B3, 0x52382FA7, 0x48E00E64,
    0xE963A535, 0x565AA786, 0x048D7CB2, 0x256B5FDC, 0x8F40F5A0, 0xD659E31D, 0x63D0353A, 0xC66F0987,
    0x9E6495A3, 0x4F4196C7, 0x054F1685, 0x9DD738B9, 0xB220DC10, 0x1D0530B8, 0xC5A73E8E, 0x0AC50919,
    0x0EDB8832, 0xC8D98A08, 0x0E1351B8, 0xC5B428EF, 0x30704BC1, 0xEC53826D, 0x33EF4E67, 0xD3E51BB5,
    0x79DCB8A4, 0xD1C2BB49, 0x0FD13B8F, 0x7D084F8A, 0x0D106271, 0x270F51C8, 0x959845D3, 0x1F4F1B2B,
    0xE0D5E91E, 0xFAEFE88A, 0x0D9785D6, 0x6FBDE064, 0x4AB018A1, 0xA19B2366, 0xA4705F4E, 0x91C01CC8,
    0x97D2D988, 0xE3F4D9CB, 0x0C55EFE1, 0xD7018701, 0x77D03111, 0x6AC7F0C3, 0x020754FA, 0x5D6A1C56,
    0x09B64C2B, 0xACB54F0C, 0x091AF964, 0x4AD6BFB8, 0xC5F0ED01, 0x77C2C07B, 0xC7A06A74, 0x57AF154F,
    0x7EB17CBD, 0xB5AE7E4D, 0x08D89353, 0xF26AD8DD, 0xF890C4B1, 0xBC9E13DE, 0x61D761C0, 0x9B0515D1,
    0xE7B82D07, 0x9E832D8E, 0x0A9E2D0A, 0xE0DF7733, 0xBF30BE61, 0x3A0A6170, 0x503F7B5D, 0x158A1232,
    0x90BF1D91, 0x87981CCF, 0x0B5C473D, 0x58631056, 0x825097D1, 0xF156B2D5, 0xF64870E9, 0xD92012AC,
    0x1DB71064, 0x4AC21251, 0x1C26A370, 0x5019579F, 0x60E09782, 0x03D6029B, 0x67DE9CCE, 0x7CBB312B,
    0x6AB020F2, 0x53D92310, 0x1DE4C947, 0xE8A530FA, 0x5D80BE32, 0xC88AD13E, 0xC1A9977A, 0xB01131B5,
    0xF3B97148, 0x78F470D3, 0x1FA2771E, 0xFA109F14, 0x1A20C4E2, 0x4E1EA390, 0xF0418DE7, 0x3E9E3656,
    0x84BE41DE, 0x61EF4192, 0x1E601D29, 0x42ACF871, 0x2740ED52, 0x85427035, 0x56368653, 0xF23436C8,
    0x1ADAD47D, 0x2EAED755, 0x1B2F0BAC, 0xDF7BC0C8, 0x95603142, 0x9847408D, 0x9391B8DD, 0xF8F13FD1,
    0x6DDDE4EB, 0x37B5E614, 0x1AED619B, 0x67C7A7AD, 0xA80018F2, 0x531B9328, 0x35E6B369, 0x345B3F4F,
    0xF4D4B551, 0x1C98B5D7, 0x18ABDFC2, 0x75720843, 0xEFA06222, 0xD58FE186, 0x040EA9F4, 0xBAD438AC,
    0x83D385C7, 0x05838496, 0x1969B5F5, 0xCDCE6F26, 0xD2C04B92, 0x1ED33223, 0xA279A240, 0x767E3832,
    0x136C9856, 0x821B9859, 0x1235F2C8, 0x95AD7F70, 0x5090DC43, 0xEF8580F6, 0x5431D2A9, 0xAF5E2A9E,
    0x646BA8C0, 0x9B00A918, 0x13F798FF, 0x2D111815, 0x6DF0F5F3, 0x24D95353, 0xF246D91D, 0x63F42A00,
    0xFD62F97A, 0xB02DFADB, 0x11B126A6, 0x3FA4B7FB, 0x2A508F23, 0xA24D21FD, 0xC3AEC380, 0xED7B2DE3,
    0x8A65C9EC, 0xA936CB9A, 0x10734C91, 0x8718D09E, 0x1730A693, 0x6911F258, 0x65D9C834, 0x21D12D7D,
    0x14015C4F, 0xE6775D5D, 0x153C5A14, 0x1ACFE827, 0xA5107A83, 0x7414C2E0, 0xA07EF6BA, 0x2B142464,
    0x63066CD9, 0xFF6C6C1C, 0x14FE3023, 0xA2738F42, 0x98705333, 0xBF481145, 0x0609FD0E, 0xE7BE24FA,
    0xFA0F3D63, 0xD4413FDF, 0x16B88E7A, 0xB0C620AC, 0xDFD029E3, 0x39DC63EB, 0x37E1E793, 0x69312319,
    0x8D080DF5, 0xCD5A0E9E, 0x177AE44D, 0x087A47C9, 0xE2B00053, 0xF280B04E, 0x9196EC27, 0xA59B2387,
    0x3B6E20C8, 0x958424A2, 0x384D46E0, 0xA032AF3E, 0xC1C12F04, 0x07AC0536, 0xCFBD399C, 0xF9766256,
    0x4C69105E, 0x8C9F15E3, 0x398F2CD7, 0x188EC85B, 0xFCA106B4, 0xCCF0D693, 0x69CA3228, 0x35DC62C8,
    0xD56041E4, 0xA7B24620, 0x3BC9928E, 0x0A3B67B5, 0xBB017C64, 0x4A64A43D, 0x582228B5, 0xBB53652B,
    0xA2677172, 0xBEA97761, 0x3A0BF8B9, 0xB28700D0, 0x866155D4, 0x81387798, 0xFE552301, 0x77F965B5,
    0x3C03E4D1, 0xF1E8E1A6, 0x3F44EE3C, 0x2F503869, 0x344189C4, 0x9C3D4720, 0x3BF21D8F, 0x7D3C6CAC,
    0x4B04D447, 0xE8F3D0E7, 0x3E86840B, 0x97EC5F0C, 0x0921A074, 0x57619485, 0x9D85163B, 0xB1966C32,
    0xD20D85FD, 0xC3DE8324, 0x3CC03A52, 0x8559F0E2, 0x4E81DAA4, 0xD1F5E62B, 0xAC6D0CA6, 0x3F196BD1,
    0xA50AB56B, 0xDAC5B265, 0x3D025065, 0x3DE59787, 0x73E1F314, 0x1AA9358E, 0x0A1A0712, 0xF3B36B4F,
    0x35B5A8FA, 0x5D5DAEAA, 0x365E1758, 0x658687D1, 0xF1B164C5, 0xEBFF875B, 0xFC5277FB, 0x2A9379E3,
    0x42B2986C, 0x44469FEB, 0x379C7D6F, 0xDD3AE0B4, 0xCCD14D75, 0x20A354FE, 0x5A257C4F, 0xE639797D,
    0xDBBBC9D6, 0x6F6BCC28, 0x35DAC336, 0xCF8F4F5A, 0x8B7137A5, 0xA6372650, 0x6BCD66D2, 0x68B67E9E,
    0xACBCF940, 0x7670FD69, 0x3418A901, 0x7733283F, 0xB6111E15, 0x6D6BF5F5, 0xCDBA6D66, 0xA41C7E00,
    0x32D86CE3, 0x39316BAE, 0x3157BF84, 0xEAE41086, 0x0431C205, 0x706EC54D, 0x081D53E8, 0xAED97719,
    0x45DF5C75, 0x202A5AEF, 0x3095D5B3, 0x525877E3, 0x3951EBB5, 0xBB3216E8, 0xAE6A585C, 0x62737787,
    0xDCD60DCF, 0x0B07092C, 0x32D36BEA, 0x40EDD80D, 0x7EF19165, 0x3DA66446, 0x9F8242C1, 0xECFC7064,
    0xABD13D59, 0x121C386D, 0x331101DD, 0xF851BF68, 0x4391B8D5, 0xF6FAB7E3, 0x39F54975, 0x205670FA,
    0x26D930AC, 0xDF4636F3, 0x246BE590, 0xF02BF8A1, 0xA121B886, 0x047A07AD, 0xA863A552, 0x85CD537D,
    0x51DE003A, 0xC65D07B2, 0x25A98FA7, 0x48979FC4, 0x9C419136, 0xCF26D408, 0x0E14AEE6, 0x496753E3,
    0xC8D75180, 0xED705471, 0x27EF31FE, 0x5A22302A, 0xDBE1EBE6, 0x49B2A6A6, 0x3FFCB47B, 0xC7E85400,
    0xBFD06116, 0xF46B6530, 0x262D5BC9, 0xE29E574F, 0xE681C256, 0x82EE7503, 0x998BBFCF, 0x0B42549E,
    0x21B4F4B5, 0xBB2AF3F7, 0x23624D4C, 0x7F496FF6, 0x54A11E46, 0x9FEB45BB, 0x5C2C8141, 0x01875D87,
    0x56B3C423, 0xA231C2B6, 0x22A0277B, 0xC7F50893, 0x69C137F6, 0x54B7961E, 0xFA5B8AF5, 0xCD2D5D19,
    0xCFBA9599, 0x891C9175, 0x20E69922, 0xD540A77D, 0x2E614D26, 0xD223E4B0, 0xCBB39068, 0x43A25AFA,
    0xB8BDA50F, 0x9007A034, 0x2124F315, 0x6DFCC018, 0x13016496, 0x197F3715, 0x6DC49BDC, 0x8F085A64,
    0x2802B89E, 0x179FBCFB, 0x2A78B428, 0x359FD04E, 0x9151F347, 0xE82985C0, 0x9B8CEB35, 0x562848C8,
    0x5F058808, 0x0E848DBA, 0x2BBADE1F, 0x8D23B72B, 0xAC31DAF7, 0x23755665, 0x3DFBE081, 0x9A824856,
    0xC60CD9B2, 0x25A9DE79, 0x29FC6046, 0x9F9618C5, 0xEB91A027, 0xA5E124CB, 0x0C13FA1C, 0x140D4FB5,
    0xB10BE924, 0x3CB2EF38, 0x283E0A71, 0x272A7FA0, 0xD6F18997, 0x6EBDF76E, 0xAA64F1A8, 0xD8A74F2B,
    0x2F6F7C87, 0x73F379FF, 0x2D711CF4, 0xBAFD4719, 0x64D15587, 0x73B8C7D6, 0x6FC3CF26, 0xD2624632,
    0x58684C11, 0x6AE848BE, 0x2CB376C3, 0x0241207C, 0x59B17C37, 0xB8E41473, 0xC9B4C492, 0x1EC846AC,
    0xC1611DAB, 0x41C51B7D, 0x2EF5C89A, 0x10F48F92, 0x1E1106E7, 0x3E7066DD, 0xF85CDE0F, 0x9047414F,
    0xB6662D3D, 0x58DE2A3C, 0x2F37A2AD, 0xA848E8F7, 0x23712F57, 0xF52CB578, 0x5E2BD5BB, 0x5CED41D1,
    0x76DC4190, 0xF0794F05, 0x709A8DC0, 0x9B14583D, 0x58F35849, 0x0F580A6C, 0x440B7579, 0x299DC2ED,
    0x01DB7106, 0xE9627E44, 0x7158E7F7, 0x23A83F58, 0x659371F9, 0xC404D9C9, 0xE27C7ECD, 0xE537C273,
    0x98D220BC, 0xC24F2D87, 0x731E59AE, 0x311D90B6, 0x22330B29, 0x4290AB67, 0xD3946450, 0x6BB8C590,
    0xEFD5102A, 0xDB541CC6, 0x72DC3399, 0x89A1F7D3, 0x1F532299, 0x89CC78C2, 0x75E36FE4, 0xA712C50E,
    0x71B18589, 0x94158A01, 0x7793251C, 0x1476CF6A, 0xAD73FE89, 0x94C9487A, 0xB044516A, 0xADD7CC17,
    0x06B6B51F, 0x8D0EBB40, 0x76514F2B, 0xACCAA80F, 0x9013D739, 0x5F959BDF, 0x16335ADE, 0x617DCC89,
    0x9FBFE4A5, 0xA623E883, 0x7417F172, 0xBE7F07E1, 0xD7B3ADE9, 0xD901E971, 0x27DB4043, 0xEFF2CB6A,
    0xE8B8D433, 0xBF38D9C2, 0x75D59B45, 0x06C36084, 0xEAD38459, 0x125D3AD4, 0x81AC4BF7, 0x2358CBF4,
    0x7807C9A2, 0x38A0C50D, 0x7E89DC78, 0x5EA070D2, 0x68831388, 0xE30B8801, 0x77E43B1E, 0xFA78D958,
    0x0F00F934, 0x21BBF44C, 0x7F4BB64F, 0xE61C17B7, 0x55E33A38, 0x28575BA4, 0xD19330AA, 0x36D2D9C6,
    0x9609A88E, 0x0A96A78F, 0x7D0D0816, 0xF4A9B859, 0x124340E8, 0xAEC3290A, 0xE07B2A37, 0xB85DDE25,
    0xE10E9818, 0x138D96CE, 0x7CCF6221, 0x4C15DF3C, 0x2F236958, 0x659FFAAF, 0x460C2183, 0x74F7DEBB,
    0x7F6A0DBB, 0x5CCC0009, 0x798074A4, 0xD1C2E785, 0x9D03B548, 0x789ACA17, 0x83AB1F0D, 0x7E32D7A2,
    0x086D3D2D, 0x45D73148, 0x78421E93, 0x697E80E0, 0xA0639CF8, 0xB3C619B2, 0x25DC14B9, 0xB298D73C,
    0x91646C97, 0x6EFA628B, 0x7A04A0CA, 0x7BCB2F0E, 0xE7C3E628, 0x35526B1C, 0x14340E24, 0x3C17D0DF,
    0xE6635C01, 0x77E153CA, 0x7BC6CAFD, 0xC377486B, 0xDAA3CF98, 0xFE0EB8B9, 0xB2430590, 0xF0BDD041,
    0x6B6B51F4, 0xBABB5D54, 0x6CBC2EB0, 0xCB0D0FA2, 0x3813CFCB, 0x0C8E08F7, 0x23D5E9B7, 0x5526F3C6,
    0x1C6C6162, 0xA3A06C15, 0x6D7E4487, 0x73B168C7, 0x0573E67B, 0xC7D2DB52, 0x85A2E203, 0x998CF358,
    0x856530D8, 0x888D3FD6, 0x6F38FADE, 0x6104C729, 0x42D39CAB, 0x4146A9FC, 0xB44AF89E, 0x1703F4BB,
    0xF262004E, 0x91960E97, 0x6EFA90E9, 0xD9B8A04C, 0x7FB3B51B, 0x8A1A7A59, 0x123DF32A, 0xDBA9F425,
    0x6C0695ED, 0xDED79850, 0x6BB5866C, 0x446F98F5, 0xCD93690B, 0x971F4AE1, 0xD79ACDA4, 0xD16CFD3C,
    0x1B01A57B, 0xC7CCA911, 0x6A77EC5B, 0xFCD3FF90, 0xF0F340BB, 0x5C439944, 0x71EDC610, 0x1DC6FDA2,
    0x8208F4C1, 0xECE1FAD2, 0x68315202, 0xEE66507E, 0xB7533A6B, 0xDAD7EBEA, 0x4005DC8D, 0x9349FA41,
    0xF50FC457, 0xF5FACB93, 0x69F33835, 0x56DA371B, 0x8A3313DB, 0x118B384F, 0xE672D739, 0x5FE3FADF,
    0x65B0D9C6, 0x7262D75C, 0x62AF7F08, 0x0EB9274D, 0x0863840A, 0xE0DD8A9A, 0x103AA7D0, 0x86C3E873,
    0x12B7E950, 0x6B79E61D, 0x636D153F, 0xB6054028, 0x3503ADBA, 0x2B81593F, 0xB64DAC64, 0x4A69E8ED,
    0x8BBEB8EA, 0x4054B5DE, 0x612BAB66, 0xA4B0EFC6, 0x72A3D76A, 0xAD152B91, 0x87A5B6F9, 0xC4E6EF0E,
    0xFCB9887C, 0x594F849F, 0x60E9C151, 0x1C0C88A3, 0x4FC3FEDA, 0x6649F834, 0x21D2BD4D, 0x084CEF90,
    0x62DD1DDF, 0x160E1258, 0x65A6D7D4, 0x81DBB01A, 0xFDE322CA, 0x7B4CC88C, 0xE47583C3, 0x0289E689,
    0x15DA2D49, 0x0F152319, 0x6464BDE3, 0x3967D77F, 0xC0830B7A, 0xB0101B29, 0x42028877, 0xCE23E617,
    0x8CD37CF3, 0x243870DA, 0x662203BA, 0x2BD27891, 0x872371AA, 0x36846987, 0x73EA92EA, 0x40ACE1F4,
    0xFBD44C65, 0x3D23419B, 0x67E0698D, 0x936E1FF4, 0xBA43581A, 0xFDD8BA22, 0xD59D995E, 0x8C06E16A,
    0x4DB26158, 0x65FD6BA7, 0x48D7CB20, 0x3B26F703, 0x9932774D, 0x08F40F5A, 0x8BB64CE5, 0xD0EBA0BB,
    0x3AB551CE, 0x7CE65AE6, 0x4915A117, 0x839A9066, 0xA4525EFD, 0xC3A8DCFF, 0x2DC14751, 0x1C41A025,
    0xA3BC0074, 0x57CB0925, 0x4B531F4E, 0x912F3F88, 0xE3F2242D, 0x453CAE51, 0x1C295DCC, 0x92CEA7C6,
    0xD4BB30E2, 0x4ED03864, 0x4A917579, 0x299358ED, 0xDE920D9D, 0x8E607DF4, 0xBA5E5678, 0x5E64A758,
    0x4ADFA541, 0x0191AEA3, 0x4FDE63FC, 0xB4446054, 0x6CB2D18D, 0x93654D4C, 0x7FF968F6, 0x54A1AE41,
    0x3DD895D7, 0x188A9FE2, 0x4E1C09CB, 0x0CF80731, 0x51D2F83D, 0x58399EE9, 0xD98E6342, 0x980BAEDF,
    0xA4D1C46D, 0x33A7CC21, 0x4C5AB792, 0x1E4DA8DF, 0x167282ED, 0xDEADEC47, 0xE86679DF, 0x1684A93C,
    0xD3D6F4FB, 0x2ABCFD60, 0x4D98DDA5, 0xA6F1CFBA, 0x2B12AB5D, 0x15F13FE2, 0x4E11726B, 0xDA2EA9A2,
    0x4369E96A, 0xAD24E1AF, 0x46C49A98, 0xFE92DFEC, 0xA9423C8C, 0xE4A78D37, 0xB8590282, 0x030EBB0E,
    0x346ED9FC, 0xB43FD0EE, 0x4706F0AF, 0x462EB889, 0x9422153C, 0x2FFB5E92, 0x1E2E0936, 0xCFA4BB90,
    0xAD678846, 0x9F12832D, 0x45404EF6, 0x549B1767, 0xD3826FEC, 0xA96F2C3C, 0x2FC613AB, 0x412BBC73,
    0xDA60B8D0, 0x8609B26C, 0x448224C1, 0xEC277002, 0xEEE2465C, 0x6233FF99, 0x89B1181F, 0x8D81BCED,
    0x44042D73, 0xC94824AB, 0x41CD3244, 0x71F048BB, 0x5CC29A4C, 0x7F36CF21, 0x4C162691, 0x8744B5F4,
    0x33031DE5, 0xD05315EA, 0x400F5873, 0xC94C2FDE, 0x61A2B3FC, 0xB46A1C84, 0xEA612D25, 0x4BEEB56A,
    0xAA0A4C5F, 0xFB7E4629, 0x4249E62A, 0xDBF98030, 0x2602C92C, 0x32FE6E2A, 0xDB8937B8, 0xC561B289,
    0xDD0D7CC9, 0xE2657768, 0x438B8C1D, 0x6345E755, 0x1B62E09C, 0xF9A2BD8F, 0x7DFE3C0C, 0x09CBB217,
    0x5005713C, 0x2F3F79F6, 0x54F16850, 0x6B3FA09C, 0xF9D2E0CF, 0x0B220DC1, 0xEC68D02B, 0xAC509190,
    0x270241AA, 0x362448B7, 0x55330267, 0xD383C7F9, 0xC4B2C97F, 0xC07EDE64, 0x4A1FDB9F, 0x60FA910E,
    0xBE0B1010, 0x1D091B74, 0x5775BC3E, 0xC1366817, 0x8312B3AF, 0x46EAACCA, 0x7BF7C102, 0xEE7596ED,
    0xC90C2086, 0x04122A35, 0x56B7D609, 0x798A0F72, 0xBE729A1F, 0x8DB67F6F, 0xDD80CAB6, 0x22DF9673,
    0x5768B525, 0x4B53BCF2, 0x53F8C08C, 0xE45D37CB, 0x0C52460F, 0x90B34FD7, 0x1827F438, 0x281A9F6A,
    0x206F85B3, 0x52488DB3, 0x523AAABB, 0x5CE150AE, 0x31326FBF, 0x5BEF9C72, 0xBE50FF8C, 0xE4B09FF4,
    0xB966D409, 0x7965DE70, 0x507C14E2, 0x4E54FF40, 0x7692156F, 0xDD7BEEDC, 0x8FB8E511, 0x6A3F9817,
    0xCE61E49F, 0x607EEF31, 0x51BE7ED5, 0xF6E89825, 0x4BF23CDF, 0x16273D79, 0x29CFEEA5, 0xA6959889,
    0x5EDEF90E, 0xE7E6F3FE, 0x5AE239E8, 0xAE8B8873, 0xC9A2AB0E, 0xE7718FAC, 0xDF879E4C, 0x7FB58A25,
    0x29D9C998, 0xFEFDC2BF, 0x5B2053DF, 0x1637EF16, 0xF4C282BE, 0x2C2D5C09, 0x79F095F8, 0xB31F8ABB,
    0xB0D09822, 0xD5D0917C, 0x5966ED86, 0x048240F8, 0xB362F86E, 0xAAB92EA7, 0x48188F65, 0x3D908D58,
    0xC7D7A8B4, 0xCCCBA03D, 0x58A487B1, 0xBC3E279D, 0x8E02D1DE, 0x61E5FD02, 0xEE6F84D1, 0xF13A8DC6,
    0x59B33D17, 0x838A36FA, 0x5DEB9134, 0x21E91F24, 0x3C220DCE, 0x7CE0CDBA, 0x2BC8BA5F, 0xFBFF84DF,
    0x2EB40D81, 0x9A9107BB, 0x5C29FB03, 0x99557841, 0x0142247E, 0xB7BC1E1F, 0x8DBFB1EB, 0x37558441,
    0xB7BD5C3B, 0xB1BC5478, 0x5E6F455A, 0x8BE0D7AF, 0x46E25EAE, 0x31286CB1, 0xBC57AB76, 0xB9DA83A2,
    0xC0BA6CAD, 0xA8A76539, 0x5FAD2F6D, 0x335CB0CA, 0x7B82771E, 0xFA74BF14, 0x1A20A0C2, 0x7570833C,
    0xEDB88320, 0x3B83984B, 0xE1351B80, 0xED59B63B, 0xB1E6B092, 0x1EB014D8, 0x8816EAF2, 0x533B85DA,
    0x9ABFB3B6, 0x2298A90A, 0xE0F771B7, 0x55E5D15E, 0x8C869922, 0xD5ECC77D, 0x2E61E146, 0x9F918544,
    0x03B6E20C, 0x09B5FAC9, 0xE2B1CFEE, 0x47507EB0, 0xCB26E3F2, 0x5378B5D3, 0x1F89FBDB, 0x111E82A7,
    0x74B1D29A, 0x10AECB88, 0xE373A5D9, 0xFFEC19D5, 0xF646CA42, 0x98246676, 0xB9FEF06F, 0xDDB48239,
    0xEAD54739, 0x5FEF5D4F, 0xE63CB35C, 0x623B216C, 0x44661652, 0x852156CE, 0x7C59CEE1, 0xD7718B20,
    0x9DD277AF, 0x46F46C0E, 0xE7FED96B, 0xDA874609, 0x79063FE2, 0x4E7D856B, 0xDA2EC555, 0x1BDB8BBE,
    0x04DB2615, 0x6DD93FCD, 0xE5B86732, 0xC832E9E7, 0x3EA64532, 0xC8E9F7C5, 0xEBC6DFC8, 0x95548C5D,
    0x73DC1683, 0x74C20E8C, 0xE47A0D05, 0x708E8E82, 0x03C66C82, 0x03B52460, 0x4DB1D47C, 0x59FE8CC3,
    0xE3630B12, 0xF35A1243, 0xEF264A38, 0x28ED9ED4, 0x8196FB53, 0xF2E396B5, 0xBBF9A495, 0x80DE9E6F,
    0x94643B84, 0xEA412302, 0xEEE4200F, 0x9051F9B1, 0xBCF6D2E3, 0x39BF4510, 0x1D8EAF21, 0x4C749EF1,
    0x0D6D6A3E, 0xC16C70C1, 0xECA29E56, 0x82E4565F, 0xFB56A833, 0xBF2B37BE, 0x2C66B5BC, 0xC2FB9912,
    0x7A6A5AA8, 0xD8774180, 0xED60F461, 0x3A58313A, 0xC6368183, 0x7477E41B, 0x8A11BE08, 0x0E51998C,
    0xE40ECF0B, 0x9736D747, 0xE82FE2E4, 0xA78F0983, 0x74165D93, 0x6972D4A3, 0x4FB68086, 0x04949095,
    0x9309FF9D, 0x8E2DE606, 0xE9ED88D3, 0x1F336EE6, 0x49767423, 0xA22E0706, 0xE9C18B32, 0xC83E900B,
    0x0A00AE27, 0xA500B5C5, 0xEBAB368A, 0x0D86C108, 0x0ED60EF3, 0x24BA75A8, 0xD82991AF, 0x46B197E8,
    0x7D079EB1, 0xBC1B8484, 0xEA695CBD, 0xB53AA66D, 0x33B62743, 0xEFE6A60D, 0x7E5E9A1B, 0x8A1B9776,
    0xF00F9344, 0x71418A1A, 0xFD13B8F0, 0xBD40E1A4, 0xD1062710, 0x1D661643, 0xEFC8763C, 0x2F80B4F1,
    0x8708A3D2, 0x685ABB5B, 0xFCD1D2C7, 0x05FC86C1, 0xEC660EA0, 0xD63AC5E6, 0x49BF7D88, 0xE32AB46F,
    0x1E01F268, 0x4377E898, 0xFE976C9E, 0x1749292F, 0xABC67470, 0x50AEB748, 0x78576715, 0x6DA5B38C,
    0x6906C2FE, 0x5A6CD9D9, 0xFF5506A9, 0xAFF54E4A, 0x96A65DC0, 0x9BF264ED, 0xDE206CA1, 0xA10FB312,
    0xF762575D, 0x152D4F1E, 0xFA1A102C, 0x322276F3, 0x248681D0, 0x86F75455, 0x1B87522F, 0xABCABA0B,
    0x806567CB, 0x0C367E5F, 0xFBD87A1B, 0x8A9E1196, 0x19E6A860, 0x4DAB87F0, 0xBDF0599B, 0x6760BA95,
    0x196C3671, 0x271B2D9C, 0xF99EC442, 0x982BBE78, 0x5E46D2B0, 0xCB3FF55E, 0x8C184306, 0xE9EFBD76,
    0x6E6B06E7, 0x3E001CDD, 0xF85CAE75, 0x2097D91D, 0x6326FB00, 0x006326FB, 0x2A6F48B2, 0x2545BDE8,
    0xFED41B76, 0xB9980012, 0xF300E948, 0x78F4C94B, 0xE1766CD1, 0xF135942E, 0xDC27385B, 0xFC65AF44,
    0x89D32BE0, 0xA0833153, 0xF2C2837F, 0xC048AE2E, 0xDC164561, 0x3A69478B, 0x7A5033EF, 0x30CFAFDA,
    0x10DA7A5A, 0x8BAE6290, 0xF0843D26, 0xD2FD01C0, 0x9BB63FB1, 0xBCFD3525, 0x4BB82972, 0xBE40A839,
    0x67DD4ACC, 0x92B553D1, 0xF1465711, 0x6A4166A5, 0xA6D61601, 0x77A1E680, 0xEDCF22C6, 0x72EAA8A7,
    0xF9B9DF6F, 0xDDF4C516, 0xF4094194, 0xF7965E1C, 0x14F6CA11, 0x6AA4D638, 0x28681C48, 0x782FA1BE,
    0x8EBEEFF9, 0xC4EFF457, 0xF5CB2BA3, 0x4F2A3979, 0x2996E3A1, 0xA1F8059D, 0x8E1F17FC, 0xB485A120,
    0x17B7BE43, 0xEFC2A794, 0xF78D95FA, 0x5D9F9697, 0x6E369971, 0x276C7733, 0xBFF70D61, 0x3A0AA6C3,
    0x60B08ED5, 0xF6D996D5, 0xF64FFFCD, 0xE523F1F2, 0x5356B0C1, 0xEC30A496, 0x198006D5, 0xF6A0A65D,
    0xD6D6A3E8, 0xAE07BCE9, 0xD9785D60, 0x4D6B1905, 0x70279F96, 0x191C11EE, 0x47ABD36E, 0xAA4DE78C,
    0xA1D1937E, 0xB71C8DA8, 0xD8BA3757, 0xF5D77E60, 0x4D47B626, 0xD240C24B, 0xE1DCD8DA, 0x66E7E712,
    0x38D8C2C4, 0x9C31DE6B, 0xDAFC890E, 0xE762D18E, 0x0AE7CCF6, 0x54D4B0E5, 0xD034C247, 0xE868E0F1,
    0x4FDFF252, 0x852AEF2A, 0xDB3EE339, 0x5FDEB6EB, 0x3787E546, 0x9F886340, 0x7643C9F3, 0x24C2E06F,
    0xD1BB67F1, 0xCA6B79ED, 0xDE71F5BC, 0xC2098E52, 0x85A73956, 0x828D53F8, 0xB3E4F77D, 0x2E07E976,
    0xA6BC5767, 0xD37048AC, 0xDFB39F8B, 0x7AB5E937, 0xB8C710E6, 0x49D1805D, 0x1593FCC9, 0xE2ADE9E8,
    0x3FB506DD, 0xF85D1B6F, 0xDDF521D2, 0x680046D9, 0xFF676A36, 0xCF45F2F3, 0x247BE654, 0x6C22EE0B,
    0x48B2364B, 0xE1462A2E, 0xDC374BE5, 0xD0BC21BC, 0xC2074386, 0x04192156, 0x820CEDE0, 0xA088EE95,
    0xD80D2BDA, 0x66DE36E1, 0xD76B0CD8, 0x88DF31EA, 0x4057D457, 0xF54F9383, 0x74449D09, 0x79A8FC39,
    0xAF0A1B4C, 0x7FC507A0, 0xD6A966EF, 0x3063568F, 0x7D37FDE7, 0x3E134026, 0xD23396BD, 0xB502FCA7,
    0x36034AF6, 0x54E85463, 0xD4EFD8B6, 0x22D6F961, 0x3A978737, 0xB8873288, 0xE3DB8C20, 0x3B8DFB44,
    0x41047A60, 0x4DF36522, 0xD52DB281, 0x9A6A9E04, 0x07F7AE87, 0x73DBE12D, 0x45AC8794, 0xF727FBDA,
    0xDF60EFC3, 0x02B2F3E5, 0xD062A404, 0x07BDA6BD, 0xB5D77297, 0x6EDED195, 0x800BB91A, 0xFDE2F2C3,
    0xA867DF55, 0x1BA9C2A4, 0xD1A0CE33, 0xBF01C1D8, 0x88B75B27, 0xA5820230, 0x267CB2AE, 0x3148F25D,
    0x316E8EEF, 0x30849167, 0xD3E6706A, 0xADB46E36, 0xCF1721F7, 0x2316709E, 0x1794A833, 0xBFC7F5BE,
    0x4669BE79, 0x299FA026, 0xD2241A5D, 0x15080953, 0xF2770847, 0xE84AA33B, 0xB1E3A387, 0x736DF520,
    0xCB61B38C, 0xE4C5AEB8, 0xC55EFE10, 0x1D724E9A, 0x10C70814, 0x1ACA1375, 0x20754FA0, 0xD6F6D6A7,
    0xBC66831A, 0xFDDE9FF9, 0xC49C9427, 0xA5CE29FF, 0x2DA721A4, 0xD196C0D0, 0x86024414, 0x1A5CD639,
    0x256FD2A0, 0xD6F3CC3A, 0xC6DA2A7E, 0xB77B8611, 0x6A075B74, 0x5702B27E, 0xB7EA5E89, 0x94D3D1DA,
    0x5268E236, 0xCFE8FD7B, 0xC7184049, 0x0FC7E174, 0x576772C4, 0x9C5E61DB, 0x119D553D, 0x5879D144,
    0xCC0C7795, 0x80A96BBC, 0xC25756CC, 0x9210D9CD, 0xE547AED4, 0x815B5163, 0xD43A6BB3, 0x52BCD85D,
    0xBB0B4703, 0x99B25AFD, 0xC3953CFB, 0x2AACBEA8, 0xD8278764, 0x4A0782C6, 0x724D6007, 0x9E16D8C3,
    0x220216B9, 0xB29F093E, 0xC1D382A2, 0x38191146, 0x9F87FDB4, 0xCC93F068, 0x43A57A9A, 0x1099DF20,
    0x5505262F, 0xAB84387F, 0xC011E895, 0x80A57623, 0xA2E7D404, 0x07CF23CD, 0xE5D2712E, 0xDC33DFBE,
    0xC5BA3BBE, 0x2C1C24B0, 0xCB4DAFA8, 0xD8C66675, 0x20B743D5, 0xF6999118, 0x139A01C7, 0x0513CD12,
    0xB2BD0B28, 0x350715F1, 0xCA8FC59F, 0x607A0110, 0x1DD76A65, 0x3DC542BD, 0xB5ED0A73, 0xC9B9CD8C,
    0x2BB45A92, 0x1E2A4632, 0xC8C97BC6, 0x72CFAEFE, 0x5A7710B5, 0xBB513013, 0x840510EE, 0x4736CA6F,
    0x5CB36A04, 0x07317773, 0xC90B11F1, 0xCA73C99B, 0x67173905, 0x700DE3B6, 0x22721B5A, 0x8B9CCAF1,
    0xC2D7FFA7, 0x4870E1B4, 0xCC440774, 0x57A4F122, 0xD537E515, 0x6D08D30E, 0xE7D525D4, 0x8159C3E8,
    0xB5D0CF31, 0x516BD0F5, 0xCD866D43, 0xEF189647, 0xE857CCA5, 0xA65400AB, 0x41A22E60, 0x4DF3C376,
    0x2CD99E8B, 0x7A468336, 0xCFC0D31A, 0xFDAD39A9, 0xAFF7B675, 0x20C07205, 0x704A34FD, 0xC37CC495,
    0x5BDEAE1D, 0x635DB277, 0xCE02B92D, 0x45115ECC, 0x92979FC5, 0xEB9CA1A0, 0xD63D3F49, 0x0FD6C40B,
    0x9B64C2B0, 0xCBFAD74E, 0x91AF9640, 0x764DEE06, 0xE915E8DB, 0x11E81EB4, 0xCC1D9F8B, 0x7AA64737,
    0xEC63F226, 0xD2E1E60F, 0x906DFC77, 0xCEF18963, 0xD475C16B, 0xDAB4CD11, 0x6A6A943F, 0xB60C47A9,
    0x756AA39C, 0xF9CCB5CC, 0x922B422E, 0xDC44268D, 0x93D5BBBB, 0x5C20BFBF, 0x5B828EA2, 0x3883404A,
    0x026D930A, 0xE0D7848D, 0x93E92819, 0x64F841E8, 0xAEB5920B, 0x977C6C1A, 0xFDF58516, 0xF42940D4,
    0x9C0906A9, 0xAF96124A, 0x96A63E9C, 0xF92F7951, 0x1C954E1B, 0x8A795CA2, 0x3852BB98, 0xFEEC49CD,
    0xEB0E363F, 0xB68D230B, 0x976454AB, 0x41931E34, 0x21F567AB, 0x41258F07, 0x9E25B02C, 0x32464953,
    0x72076785, 0x9DA070C8, 0x9522EAF2, 0x5326B1DA, 0x66551D7B, 0xC7B1FDA9, 0xAFCDAAB1, 0xBCC94EB0,
    0x05005713, 0x84BB4189, 0x94E080C5, 0xEB9AD6BF, 0x5B3534CB, 0x0CED2E0C, 0x09BAA105, 0x70634E2E,
    0x95BF4A82, 0x03235D46, 0x9FBCC7F8, 0xB3F9C6E9, 0xD965A31A, 0xFDBB9CD9, 0xFFF2D1EC, 0xA9435C82,
    0xE2B87A14, 0x1A386C07, 0x9E7EADCF, 0x0B45A18C, 0xE4058AAA, 0x36E74F7C, 0x5985DA58, 0x65E95C1C,
    0x7BB12BAE, 0x31153FC4, 0x9C381396, 0x19F00E62, 0xA3A5F07A, 0xB0733DD2, 0x686DC0C5, 0xEB665BFF,
    0x0CB61B38, 0x280E0E85, 0x9DFA79A1, 0xA14C6907, 0x9EC5D9CA, 0x7B2FEE77, 0xCE1ACB71, 0x27CC5B61,
    0x92D28E9B, 0x674F9842, 0x98B56F24, 0x3C9B51BE, 0x2CE505DA, 0x662ADECF, 0x0BBDF5FF, 0x2D095278,
    0xE5D5BE0D, 0x7E54A903, 0x99770513, 0x842736DB, 0x11852C6A, 0xAD760D6A, 0xADCAFE4B, 0xE1A352E6,
    0x7CDCEFB7, 0x5579FAC0, 0x9B31BB4A, 0x96929935, 0x562556BA, 0x2BE27FC4, 0x9C22E4D6, 0x6F2C5505,
    0x0BDBDF21, 0x4C62CB81, 0x9AF3D17D, 0x2E2EFE50, 0x6B457F0A, 0xE0BEAC61, 0x3A55EF62, 0xA386559B,
    0x86D3D2D4, 0x8138C51F, 0x8D893530, 0x2654B999, 0x89F57F59, 0x123E1C2F, 0xABC30345, 0x061D761C,
    0xF1D4E242, 0x9823F45E, 0x8C4B5F07, 0x9EE8DEFC, 0xB49556E9, 0xD962CF8A, 0x0DB408F1, 0xCAB77682,
    0x68DDB3F8, 0xB30EA79D, 0x8E0DE15E, 0x8C5D7112, 0xF3352C39, 0x5FF6BD24, 0x3C5C126C, 0x44387161,
    0x1FDA836E, 0xAA1596DC, 0x8FCF8B69, 0x34E11677, 0xCE550589, 0x94AA6E81, 0x9A2B19D8, 0x889271FF,
    0x81BE16CD, 0xE554001B, 0x8A809DEC, 0xA9362ECE, 0x7C75D999, 0x89AF5E39, 0x5F8C2756, 0x825778E6,
    0xF6B9265B, 0xFC4F315A, 0x8B42F7DB, 0x118A49AB, 0x4115F029, 0x42F38D9C, 0xF9FB2CE2, 0x4EFD7878,
    0x6FB077E1, 0xD7626299, 0x89044982, 0x033FE645, 0x06B58AF9, 0xC467FF32, 0xC813367F, 0xC0727F9B,
    0x18B74777, 0xCE7953D8, 0x88C623B5, 0xBB838120, 0x3BD5A349, 0x0F3B2C97, 0x6E643DCB, 0x0CD87F05,
    0x88085AE6, 0x49E14F17, 0x839A6488, 0xE3E09176, 0xB9853498, 0xFE6D9E42, 0x982C4D22, 0xD5F86DA9,
    0xFF0F6A70, 0x50FA7E56, 0x82580EBF, 0x5B5CF613, 0x84E51D28, 0x35314DE7, 0x3E5B4696, 0x19526D37,
    0x66063BCA, 0x7BD72D95, 0x801EB0E6, 0x49E959FD, 0xC34567F8, 0xB3A53F49, 0x0FB35C0B, 0x97DD6AD4,
    0x11010B5C, 0x62CC1CD4, 0x81DCDAD1, 0xF1553E98, 0xFE254E48, 0x78F9ECEC, 0xA9C457BF, 0x5B776A4A,
    0x8F659EFF, 0x2D8D8A13, 0x8493CC54, 0x6C820621, 0x4C059258, 0x65FCDC54, 0x6C636931, 0x51B26353,
    0xF862AE69, 0x3496BB52, 0x8551A663, 0xD43E6144, 0x7165BBE8, 0xAEA00FF1, 0xCA146285, 0x9D1863CD,
    0x616BFFD3, 0x1FBBE891, 0x8717183A, 0xC68BCEAA, 0x36C5C138, 0x28347D5F, 0xFBFC7818, 0x1397642E,
    0x166CCF45, 0x06A0D9D0, 0x86D5720D, 0x7E37A9CF, 0x0BA5E888, 0xE368AEFA, 0x5D8B73AC, 0xDF3D64B0,
    0xA00AE278, 0x5E7EF3EC, 0xA9E2D0A0, 0xD67F4138, 0x28D4C7DF, 0x16441B82, 0x03A0A617, 0x83D02561,
    0xD70DD2EE, 0x4765C2AD, 0xA820BA97, 0x6EC3265D, 0x15B4EE6F, 0xDD18C827, 0xA5D7ADA3, 0x4F7A25FF,
    0x4E048354, 0x6C48916E, 0xAA6604CE, 0x7C7689B3, 0x521494BF, 0x5B8CBA89, 0x943FB73E, 0xC1F5221C,
    0x3903B3C2, 0x7553A02F, 0xABA46EF9, 0xC4CAEED6, 0x6F74BD0F, 0x90D0692C, 0x3248BC8A, 0x0D5F2282,
    0xA7672661, 0x3A1236E8, 0xAEEB787C, 0x591DD66F, 0xDD54611F, 0x8DD55994, 0xF7EF8204, 0x079A2B9B,
    0xD06016F7, 0x230907A9, 0xAF29124B, 0xE1A1B10A, 0xE03448AF, 0x46898A31, 0x519889B0, 0xCB302B05,
    0x4969474D, 0x0824546A, 0xAD6FAC12, 0xF3141EE4, 0xA794327F, 0xC01DF89F, 0x6070932D, 0x45BF2CE6,
    0x3E6E77DB, 0x113F652B, 0xACADC625, 0x4BA87981, 0x9AF41BCF, 0x0B412B3A, 0xC6079899, 0x89152C78,
    0xAED16A4A, 0x96A779E4, 0xA7F18118, 0x13CB69D7, 0x18A48C1E, 0xFA1799EF, 0x304FE870, 0x50353ED4,
    0xD9D65ADC, 0x8FBC48A5, 0xA633EB2F, 0xAB770EB2, 0x25C4A5AE, 0x314B4A4A, 0x9638E3C4, 0x9C9F3E4A,
    0x40DF0B66, 0xA4911B66, 0xA4755576, 0xB9C2A15C, 0x6264DF7E, 0xB7DF38E4, 0xA7D0F959, 0x121039A9,
    0x37D83BF0, 0xBD8A2A27, 0xA5B73F41, 0x017EC639, 0x5F04F6CE, 0x7C83EB41, 0x01A7F2ED, 0xDEBA3937,
    0xA9BCAE53, 0xF2CBBCE0, 0xA0F829C4, 0x9CA9FE80, 0xED242ADE, 0x6186DBF9, 0xC400CC63, 0xD47F302E,
    0xDEBB9EC5, 0xEBD08DA1, 0xA13A43F3, 0x241599E5, 0xD044036E, 0xAADA085C, 0x6277C7D7, 0x18D530B0,
    0x47B2CF7F, 0xC0FDDE62, 0xA37CFDAA, 0x36A0360B, 0x97E479BE, 0x2C4E7AF2, 0x539FDD4A, 0x965A3753,
    0x30B5FFE9, 0xD9E6EF23, 0xA2BE979D, 0x8E1C516E, 0xAA84500E, 0xE712A957, 0xF5E8D6FE, 0x5AF037CD,
    0xBDBDF21C, 0x14BCE1BD, 0xB5C473D0, 0x866616A7, 0x4834505D, 0x15921919, 0x647E3AD9, 0xFF6B144A,
    0xCABAC28A, 0x0DA7D0FC, 0xB40619E7, 0x3EDA71C2, 0x755479ED, 0xDECECABC, 0xC209316D, 0x33C114D4,
    0x53B39330, 0x268A833F, 0xB640A7BE, 0x2C6FDE2C, 0x32F4033D, 0x585AB812, 0xF3E12BF0, 0xBD4E1337,
    0x24B4A3A6, 0x3F91B27E, 0xB782CD89, 0x94D3B949, 0x0F942A8D, 0x93066BB7, 0x55962044, 0x71E413A9,
    0xBAD03605, 0x70D024B9, 0xB2CDDB0C, 0x090481F0, 0xBDB4F69D, 0x8E035B0F, 0x90311ECA, 0x7B211AB0,
    0xCDD70693, 0x69CB15F8, 0xB30FB13B, 0xB1B8E695, 0x80D4DF2D, 0x455F88AA, 0x3646157E, 0xB78B1A2E,
    0x54DE5729, 0x42E6463B, 0xB1490F62, 0xA30D497B, 0xC774A5FD, 0xC3CBFA04, 0x07AE0FE3, 0x39041DCD,
    0x23D967BF, 0x5BFD777A, 0xB08B6555, 0x1BB12E1E, 0xFA148C4D, 0x089729A1, 0xA1D90457, 0xF5AE1D53,
    0xB3667A2E, 0xDC656BB5, 0xBBD72268, 0x43D23E48, 0x78441B9C, 0xF9C19B74, 0x579174BE, 0x2C8E0FFF,
    0xC4614AB8, 0xC57E5AF4, 0xBA15485F, 0xFB6E592D, 0x4524322C, 0x329D48D1, 0xF1E67F0A, 0xE0240F61,
    0x5D681B02, 0xEE530937, 0xB853F606, 0xE9DBF6C3, 0x028448FC, 0xB4093A7F, 0xC00E6597, 0x6EAB0882,
    0x2A6F2B94, 0xF7483876, 0xB9919C31, 0x516791A6, 0x3FE4614C, 0x7F55E9DA, 0x66796E23, 0xA201081C,
    0xB40BBE37, 0xB809AEB1, 0xBCDE8AB4, 0xCCB0A91F, 0x8DC4BD5C, 0x6250D962, 0xA3DE50AD, 0xA8C40105,
    0xC30C8EA1, 0xA1129FF0, 0xBD1CE083, 0x740CCE7A, 0xB0A494EC, 0xA90C0AC7, 0x05A95B19, 0x646E019B,
    0x5A05DF1B, 0x8A3FCC33, 0xBF5A5EDA, 0x66B96194, 0xF704EE3C, 0x2F987869, 0x34414184, 0xEAE10678,
    0x2D02EF8D, 0x9324FD72, 0xBE9834ED, 0xDE0506F1, 0xCA64C78C, 0xE4C4ABCC, 0x92364A30, 0x264B06E6]"

text \<open>
  The table is stored with the eight values of one index next to each other; \<open>xorcrc k\<close> and
  \<open>xordata k\<close> are the source's offset pointers into it, \<open>i\<close> the byte that selects the row.
  The 32-bit load of the little-endian variant is the same number as the byte-wise load of
  the big-endian one.
\<close>

definition slice8_at :: "nat \<Rightarrow> nat \<Rightarrow> u32" where
  "slice8_at column i = aulCrc32Table_slice8 ! (column + i * 8)"

definition slice8_one :: "u32 \<Rightarrow> u8 \<Rightarrow> u32" where
  "slice8_one ulCrc32 b =
     drop_bit 8 ulCrc32 XOR slice8_at 0 (unat ((ulCrc32 XOR ucast b) AND 0xFF))"

definition slice8_word :: "bytes \<Rightarrow> nat \<Rightarrow> u32" where
  "slice8_word pb i =
     ucast (pb ! i) OR push_bit 8 (ucast (pb ! (i + 1)))
     OR push_bit 16 (ucast (pb ! (i + 2))) OR push_bit 24 (ucast (pb ! (i + 3)))"

definition slice8_step :: "bytes \<Rightarrow> nat \<Rightarrow> u32 \<Rightarrow> u32" where
  "slice8_step pb i c =
     (let x = c XOR slice8_word pb i in
      slice8_at 4 (unat (drop_bit 24 x AND 0xFF)) XOR slice8_at 5 (unat (drop_bit 16 x AND 0xFF))
      XOR slice8_at 6 (unat (drop_bit 8 x AND 0xFF)) XOR slice8_at 7 (unat (x AND 0xFF))
      XOR slice8_at 0 (unat (pb ! (i + 7))) XOR slice8_at 1 (unat (pb ! (i + 6)))
      XOR slice8_at 2 (unat (pb ! (i + 5))) XOR slice8_at 3 (unat (pb ! (i + 4))))"

text \<open>
  The three loops. \<open>addr\<close> is the address of the buffer and \<open>align\<close> is
  \<^verbatim>\<open>REDCONF_ALIGNMENT_SIZE\<close>: the first loop runs until the next byte is aligned.
\<close>

function slice8_align :: "nat \<Rightarrow> nat \<Rightarrow> bytes \<Rightarrow> nat \<Rightarrow> nat \<Rightarrow> u32 \<Rightarrow> nat \<times> u32" where
  "slice8_align addr align pb ulLength ulIdx c =
     (if ulIdx < ulLength \<and> (addr + ulIdx) mod align \<noteq> 0
      then slice8_align addr align pb ulLength (Suc ulIdx) (slice8_one c (pb ! ulIdx))
      else (ulIdx, c))"
  by pat_completeness auto
termination
  by (relation "measure (\<lambda>(addr, align, pb, n, i, c). n - i)") auto

function slice8_slices :: "bytes \<Rightarrow> nat \<Rightarrow> nat \<Rightarrow> u32 \<Rightarrow> nat \<times> u32" where
  "slice8_slices pb ulSliceLen ulIdx c =
     (if ulIdx < ulSliceLen
      then slice8_slices pb ulSliceLen (ulIdx + 8) (slice8_step pb ulIdx c)
      else (ulIdx, c))"
  by pat_completeness auto
termination
  by (relation "measure (\<lambda>(pb, n, i, c). n - i)") auto

definition RedCrc32Update_slice8 :: "nat \<Rightarrow> nat \<Rightarrow> u32 \<Rightarrow> bytes option \<Rightarrow> nat \<Rightarrow> u32" where
  "RedCrc32Update_slice8 addr align ulInitCrc32 pBuffer ulLength =
     (case pBuffer of
        None \<Rightarrow> SUSPICIOUS_CRC_VALUE
      | Some pb \<Rightarrow>
          (let (i, c) = slice8_align addr align pb ulLength 0 (NOT ulInitCrc32);
               ulSliceLen = ((ulLength - i) div 8) * 8 + i;
               (i2, c2) = slice8_slices pb ulSliceLen i c
           in NOT (fold (\<lambda>ulIdx c. slice8_one c (pb ! ulIdx)) [i2..<ulLength] c2)))"

declare slice8_align.simps [simp del] slice8_slices.simps [simp del]

section \<open>The configured algorithm and RedCrcNode\<close>

datatype crc_algorithm = CRC_BITWISE | CRC_SARWATE | CRC_SLICEBY8

definition RedCrc32Update :: "crc_algorithm \<Rightarrow> u32 \<Rightarrow> bytes option \<Rightarrow> nat \<Rightarrow> u32" where
  "RedCrc32Update alg ulInitCrc32 pBuffer ulLength =
     (case alg of
        CRC_BITWISE \<Rightarrow> RedCrc32Update_bitwise ulInitCrc32 pBuffer ulLength
      | CRC_SARWATE \<Rightarrow> RedCrc32Update_sarwate ulInitCrc32 pBuffer ulLength
      | CRC_SLICEBY8 \<Rightarrow> RedCrc32Update_slice8 0 8 ulInitCrc32 pBuffer ulLength)"

text \<open>\<open>blocksize\<close> is \<^verbatim>\<open>REDCONF_BLOCK_SIZE\<close>; the CRC skips the signature and the CRC itself.\<close>

definition RedCrcNode :: "crc_algorithm \<Rightarrow> nat \<Rightarrow> bytes option \<Rightarrow> u32" where
  "RedCrcNode alg blocksize pBuffer =
     (case pBuffer of
        None \<Rightarrow> SUSPICIOUS_CRC_VALUE
      | Some pb \<Rightarrow> RedCrc32Update alg 0 (Some (drop 8 pb)) (blocksize - 8))"

section \<open>The CRC register is linear\<close>

lemma crc_bit_alt:
  "crc_bit c = (if bit c 0 then CCITT_32_POLYNOMIAL else 0) XOR drop_bit 1 c"
  by (simp add: crc_bit_def and_one_eq bit_0 mod_2_eq_odd)

lemma crc_bit_xor: "crc_bit (a XOR b) = crc_bit a XOR crc_bit b"
  by (rule bit_word_eqI) (auto simp: crc_bit_alt bit_xor_iff bit_drop_bit_eq)

lemma crc_bits8_xor: "crc_bits8 (a XOR b) = crc_bits8 a XOR crc_bits8 b"
proof -
  have "(crc_bit ^^ n) (a XOR b) = (crc_bit ^^ n) a XOR (crc_bit ^^ n) b" for n
    by (induction n) (simp_all add: crc_bit_xor)
  then show ?thesis by (simp add: crc_bits8_def)
qed

lemma crc_bits8_0 [simp]: "crc_bits8 0 = 0"
  by (simp add: crc_bits8_def numeral_eq_Suc crc_bit_def)

lemma crc_bits8_high:
  assumes "\<And>i. i < 8 \<Longrightarrow> \<not> bit x i"
  shows "crc_bits8 x = drop_bit 8 x"
proof -
  have "n \<le> 8 \<Longrightarrow> (crc_bit ^^ n) x = drop_bit n x" for n
    using assms by (induction n) (simp_all add: crc_bit_alt bit_drop_bit_eq)
  then show ?thesis by (simp add: crc_bits8_def)
qed

lemma mask8: "(0xFF :: u32) = mask 8"
  by (simp add: mask_eq_exp_minus_1)

lemma crc_bits8_split: "crc_bits8 x = drop_bit 8 x XOR crc_bits8 (x AND 0xFF)"
proof -
  have "x = (x AND NOT 0xFF) XOR (x AND 0xFF)"
    unfolding mask8 by (rule bit_word_eqI) (auto simp: bit_xor_iff bit_and_iff bit_not_iff)
  then have "crc_bits8 x = crc_bits8 (x AND NOT 0xFF) XOR crc_bits8 (x AND 0xFF)"
    by (metis crc_bits8_xor)
  moreover have "crc_bits8 (x AND NOT 0xFF) = drop_bit 8 (x AND NOT 0xFF)"
    unfolding mask8 by (rule crc_bits8_high) (simp add: bit_and_iff bit_not_iff bit_mask_iff)
  moreover have "drop_bit 8 (x AND NOT 0xFF) = drop_bit 8 x"
    unfolding mask8 by (rule bit_word_eqI) (auto simp: bit_simps dest: bit_imp_le_length)
  ultimately show ?thesis by simp
qed

lemma unat_and_FF: "unat ((x :: u32) AND 0xFF) < 256"
proof -
  have "x AND 0xFF = take_bit 8 x" unfolding mask8 by (simp add: take_bit_eq_mask)
  then show ?thesis by (simp add: take_bit_eq_mod unat_mod)
qed

section \<open>The tables are spanned by eight rows\<close>

text \<open>
  All exclusive-or combinations of a list of rows, the row of the highest index bit first.
  A table whose row of index \<open>i\<close> is linear in \<open>i\<close> is spanned by its rows of index
  \<open>128, 64, \<dots>, 1\<close>.
\<close>

fun span :: "nat \<Rightarrow> u32 list list \<Rightarrow> u32 list list" where
  "span k [] = [replicate k 0]"
| "span k (v # vs) = (let s = span k vs in s @ map (map2 (XOR) v) s)"

lemma length_span: "length (span k vs) = 2 ^ length vs"
  by (induction vs) (simp_all add: Let_def)

lemma span_nth:
  fixes g :: "u32 \<Rightarrow> u32 list"
  assumes lin: "\<And>a b. g (a XOR b) = map2 (XOR) (g a) (g b)"
    and zero: "g 0 = replicate k 0"
  shows "length vs < 32 \<Longrightarrow> (\<forall>j < length vs. rev vs ! j = g (2 ^ j)) \<Longrightarrow> i < 2 ^ length vs \<Longrightarrow>
    span k vs ! i = g (of_nat i)"
proof (induction vs arbitrary: i)
  case Nil
  then show ?case by (simp add: zero)
next
  case (Cons v vs)
  let ?n = "length vs"
  have v: "v = g (2 ^ ?n)"
    using Cons.prems(2) by (force simp: nth_append)
  have IH: "m < 2 ^ ?n \<Longrightarrow> span k vs ! m = g (of_nat m)" for m
    using Cons.prems by (intro Cons.IH) (auto simp: nth_append split: if_splits)
  show ?case
  proof (cases "i < 2 ^ ?n")
    case True
    then show ?thesis by (simp add: Let_def nth_append length_span IH)
  next
    case False
    define m where "m = i - 2 ^ ?n"
    have m: "m < 2 ^ ?n" "i = 2 ^ ?n + m"
      using False Cons.prems(3) by (auto simp: m_def)
    have "(of_nat i :: u32) = 2 ^ ?n XOR of_nat m"
    proof -
      have "bit (of_nat m :: u32) j \<Longrightarrow> j < ?n" for j
        using m(1) bit_of_nat_iff [of m j] by (metis bit_of_nat_iff bit_take_bit_iff take_bit_nat_eq_self)
      then have "(2 ^ ?n :: u32) AND of_nat m = 0"
        by (intro bit_word_eqI) (auto simp: bit_and_iff bit_exp_iff)
      then show ?thesis
        using m(2) by (simp add: disjunctive_xor_eq_or disjunctive_add_eq_or)
    qed
    then show ?thesis
      using False m by (simp add: Let_def nth_append length_span IH lin v)
  qed
qed

lemma nth_concat_uniform:
  "(\<forall>r \<in> set rs. length r = k) \<Longrightarrow> i < length rs \<Longrightarrow> j < k \<Longrightarrow> concat rs ! (i * k + j) = rs ! i ! j"
proof (induction rs arbitrary: i)
  case Nil
  then show ?case by simp
next
  case (Cons r rs)
  show ?case
  proof (cases i)
    case 0
    with Cons.prems show ?thesis by (simp add: nth_append)
  next
    case (Suc m)
    with Cons show ?thesis by (simp add: nth_append)
  qed
qed

definition crc_row :: "nat \<Rightarrow> u32 \<Rightarrow> u32 list" where
  "crc_row k c = map (\<lambda>m. (crc_bits8 ^^ Suc m) c) [0..<k]"

lemma crc_pow_xor: "(crc_bits8 ^^ n) (a XOR b) = (crc_bits8 ^^ n) a XOR (crc_bits8 ^^ n) b"
  by (induction n) (simp_all add: crc_bits8_xor)

lemma crc_pow_0 [simp]: "(crc_bits8 ^^ n) 0 = 0"
  by (induction n) simp_all

lemma crc_row_xor: "crc_row k (a XOR b) = map2 (XOR) (crc_row k a) (crc_row k b)"
  by (rule nth_equalityI) (simp_all add: crc_row_def crc_pow_xor crc_bits8_xor)

lemma crc_row_0: "crc_row k 0 = replicate k 0"
  by (rule nth_equalityI) (simp_all add: crc_row_def)

lemma crc_row_span:
  assumes "span k vs = rows" and "length vs = 8" and "\<forall>j < 8. rev vs ! j = crc_row k (2 ^ j)"
    and "i < 256" and "m < k"
  shows "concat rows ! (i * k + m) = (crc_bits8 ^^ Suc m) (of_nat i)"
proof -
  have "\<forall>v \<in> set (rev vs). length v = k"
    using assms(2,3) by (simp only: all_set_conv_all_nth length_rev) (simp add: crc_row_def)
  then have len: "\<forall>v \<in> set vs. length v = k"
    by simp
  have "\<forall>r \<in> set (span k vs). length r = k"
    using len by (induction vs) (auto simp: Let_def)
  moreover have "length (span k vs) = 256"
    by (simp add: length_span assms(2))
  moreover have "span k vs ! i = crc_row k (of_nat i)"
    using assms(2,3,4) by (intro span_nth crc_row_xor crc_row_0) auto
  ultimately show ?thesis
    unfolding assms(1) [symmetric] using assms(4,5)
    by (simp add: nth_concat_uniform crc_row_def)
qed

lemma crc_bits8_unroll:
  "crc_bits8 c = crc_bit (crc_bit (crc_bit (crc_bit (crc_bit (crc_bit (crc_bit (crc_bit c)))))))"
  by (simp add: crc_bits8_def numeral_eq_Suc)

lemma crc_bits8_pow2:
    "crc_bits8 128 = 0xEDB88320" "crc_bits8 0xEDB88320 = 0x3B83984B"
    "crc_bits8 0x3B83984B = 0xE1351B80" "crc_bits8 0xE1351B80 = 0xED59B63B"
    "crc_bits8 0xED59B63B = 0xB1E6B092" "crc_bits8 0xB1E6B092 = 0x1EB014D8"
    "crc_bits8 0x1EB014D8 = 0x8816EAF2" "crc_bits8 0x8816EAF2 = 0x533B85DA"
    "crc_bits8 64 = 0x76DC4190" "crc_bits8 0x76DC4190 = 0xF0794F05"
    "crc_bits8 0xF0794F05 = 0x709A8DC0" "crc_bits8 0x709A8DC0 = 0x9B14583D"
    "crc_bits8 0x9B14583D = 0x58F35849" "crc_bits8 0x58F35849 = 0x0F580A6C"
    "crc_bits8 0x0F580A6C = 0x440B7579" "crc_bits8 0x440B7579 = 0x299DC2ED"
    "crc_bits8 32 = 0x3B6E20C8" "crc_bits8 0x3B6E20C8 = 0x958424A2"
    "crc_bits8 0x958424A2 = 0x384D46E0" "crc_bits8 0x384D46E0 = 0xA032AF3E"
    "crc_bits8 0xA032AF3E = 0xC1C12F04" "crc_bits8 0xC1C12F04 = 0x07AC0536"
    "crc_bits8 0x07AC0536 = 0xCFBD399C" "crc_bits8 0xCFBD399C = 0xF9766256"
    "crc_bits8 16 = 0x1DB71064" "crc_bits8 0x1DB71064 = 0x4AC21251"
    "crc_bits8 0x4AC21251 = 0x1C26A370" "crc_bits8 0x1C26A370 = 0x5019579F"
    "crc_bits8 0x5019579F = 0x60E09782" "crc_bits8 0x60E09782 = 0x03D6029B"
    "crc_bits8 0x03D6029B = 0x67DE9CCE" "crc_bits8 0x67DE9CCE = 0x7CBB312B"
    "crc_bits8 8 = 0x0EDB8832" "crc_bits8 0x0EDB8832 = 0xC8D98A08"
    "crc_bits8 0xC8D98A08 = 0x0E1351B8" "crc_bits8 0x0E1351B8 = 0xC5B428EF"
    "crc_bits8 0xC5B428EF = 0x30704BC1" "crc_bits8 0x30704BC1 = 0xEC53826D"
    "crc_bits8 0xEC53826D = 0x33EF4E67" "crc_bits8 0x33EF4E67 = 0xD3E51BB5"
    "crc_bits8 4 = 0x076DC419" "crc_bits8 0x076DC419 = 0x646CC504"
    "crc_bits8 0x646CC504 = 0x0709A8DC" "crc_bits8 0x0709A8DC = 0x8F629757"
    "crc_bits8 0x8F629757 = 0xF580A6C0" "crc_bits8 0xF580A6C0 = 0x9B914216"
    "crc_bits8 0x9B914216 = 0xF44F2413" "crc_bits8 0xF44F2413 = 0x844A0EFA"
    "crc_bits8 2 = 0xEE0E612C" "crc_bits8 0xEE0E612C = 0x32366282"
    "crc_bits8 0x32366282 = 0x0384D46E" "crc_bits8 0x0384D46E = 0xAA09C88B"
    "crc_bits8 0xAA09C88B = 0x7AC05360" "crc_bits8 0x7AC05360 = 0x4DC8A10B"
    "crc_bits8 0x4DC8A10B = 0x979F1129" "crc_bits8 0x979F1129 = 0x4225077D"
    "crc_bits8 1 = 0x77073096" "crc_bits8 0x77073096 = 0x191B3141"
    "crc_bits8 0x191B3141 = 0x01C26A37" "crc_bits8 0x01C26A37 = 0xB8BC6765"
    "crc_bits8 0xB8BC6765 = 0x3D6029B0" "crc_bits8 0x3D6029B0 = 0xCB5CD3A5"
    "crc_bits8 0xCB5CD3A5 = 0xA6770BB4" "crc_bits8 0xA6770BB4 = 0xCCAA009E"
  by (simp_all add: crc_bits8_unroll crc_bit_def CCITT_32_POLYNOMIAL_def)

definition sarwate_rows :: "u32 list list" where
  "sarwate_rows =
    [[0xEDB88320],
     [0x76DC4190],
     [0x3B6E20C8],
     [0x1DB71064],
     [0x0EDB8832],
     [0x076DC419],
     [0xEE0E612C],
     [0x77073096]]"

definition slice8_rows :: "u32 list list" where
  "slice8_rows =
    [[0xEDB88320, 0x3B83984B, 0xE1351B80, 0xED59B63B, 0xB1E6B092, 0x1EB014D8, 0x8816EAF2, 0x533B85DA],
     [0x76DC4190, 0xF0794F05, 0x709A8DC0, 0x9B14583D, 0x58F35849, 0x0F580A6C, 0x440B7579, 0x299DC2ED],
     [0x3B6E20C8, 0x958424A2, 0x384D46E0, 0xA032AF3E, 0xC1C12F04, 0x07AC0536, 0xCFBD399C, 0xF9766256],
     [0x1DB71064, 0x4AC21251, 0x1C26A370, 0x5019579F, 0x60E09782, 0x03D6029B, 0x67DE9CCE, 0x7CBB312B],
     [0x0EDB8832, 0xC8D98A08, 0x0E1351B8, 0xC5B428EF, 0x30704BC1, 0xEC53826D, 0x33EF4E67, 0xD3E51BB5],
     [0x076DC419, 0x646CC504, 0x0709A8DC, 0x8F629757, 0xF580A6C0, 0x9B914216, 0xF44F2413, 0x844A0EFA],
     [0xEE0E612C, 0x32366282, 0x0384D46E, 0xAA09C88B, 0x7AC05360, 0x4DC8A10B, 0x979F1129, 0x4225077D],
     [0x77073096, 0x191B3141, 0x01C26A37, 0xB8BC6765, 0x3D6029B0, 0xCB5CD3A5, 0xA6770BB4, 0xCCAA009E]]"

lemma all_less_8: "(\<forall>j < 8. P j) \<longleftrightarrow> P 0 \<and> P 1 \<and> P 2 \<and> P 3 \<and> P 4 \<and> P 5 \<and> P 6 \<and> P (7 :: nat)"
proof
  assume *: "P 0 \<and> P 1 \<and> P 2 \<and> P 3 \<and> P 4 \<and> P 5 \<and> P 6 \<and> P (7 :: nat)"
  show "\<forall>j < 8. P j"
  proof (intro allI impI)
    fix j :: nat
    assume "j < 8"
    then have "j = 0 \<or> j = 1 \<or> j = 2 \<or> j = 3 \<or> j = 4 \<or> j = 5 \<or> j = 6 \<or> j = 7" by linarith
    with * show "P j" by auto
  qed
qed auto

lemma rows_are_powers:
  "length sarwate_rows = 8" "\<forall>j < 8. rev sarwate_rows ! j = crc_row 1 (2 ^ j)"
  "length slice8_rows = 8" "\<forall>j < 8. rev slice8_rows ! j = crc_row 8 (2 ^ j)"
  unfolding all_less_8
  by (simp_all add: sarwate_rows_def slice8_rows_def crc_row_def crc_bits8_pow2 upt_rec)

lemma sarwate_table_span: "aulCrc32Table_sarwate = concat (span 1 sarwate_rows)"
  by (simp add: aulCrc32Table_sarwate_def sarwate_rows_def)

lemma slice8_table_span: "aulCrc32Table_slice8 = concat (span 8 slice8_rows)"
  by (simp add: aulCrc32Table_slice8_def slice8_rows_def Let_def numeral_eq_Suc)

lemma sarwate_table_nth: "i < 256 \<Longrightarrow> aulCrc32Table_sarwate ! i = crc_bits8 (of_nat i)"
  using crc_row_span [OF refl rows_are_powers(1,2), of i 0] by (simp add: sarwate_table_span)

lemma slice8_at_eq: "k < 8 \<Longrightarrow> i < 256 \<Longrightarrow> slice8_at k i = (crc_bits8 ^^ Suc k) (of_nat i)"
  using crc_row_span [OF refl rows_are_powers(3,4), of i k]
  by (simp add: slice8_table_span slice8_at_def add.commute)

section \<open>The algorithms agree\<close>

lemma drop8_byte: "drop_bit 8 (ucast (b :: u8) :: u32) = 0"
  by (rule bit_word_eqI) (auto simp: bit_simps dest: bit_imp_le_length)

lemma sarwate_byte_eq: "sarwate_byte c b = crc_byte c b"
  by (simp add: sarwate_byte_def crc_byte_def crc_bits8_split [of "c XOR ucast b"] drop_bit_xor drop8_byte
      sarwate_table_nth unat_and_FF)

lemma slice8_one_eq: "slice8_one c b = crc_byte c b"
  by (simp add: slice8_one_def crc_byte_def crc_bits8_split [of "c XOR ucast b"] drop_bit_xor drop8_byte
      slice8_at_eq unat_and_FF)

text \<open>Four bytes through the register at once.\<close>

lemma crc_pow4_split:
  "(crc_bits8 ^^ 4) x = (crc_bits8 ^^ 4) (x AND 0xFF) XOR (crc_bits8 ^^ 3) (drop_bit 8 x AND 0xFF)
     XOR (crc_bits8 ^^ 2) (drop_bit 16 x AND 0xFF) XOR crc_bits8 (drop_bit 24 x AND 0xFF)"
proof -
  have s: "crc_bits8 (crc_bits8 y) = crc_bits8 (drop_bit 8 y) XOR crc_bits8 (crc_bits8 (y AND 0xFF))" for y
    by (subst (2) crc_bits8_split) (simp add: crc_bits8_xor)
  have "drop_bit 32 x = 0"
    by (rule bit_word_eqI) (auto simp: bit_simps dest: bit_imp_le_length)
  then have "crc_bits8 (drop_bit 24 x) = crc_bits8 (drop_bit 24 x AND 0xFF)"
    by (subst crc_bits8_split) (simp add: drop_bit_drop_bit)
  moreover have "crc_bits8 (crc_bits8 (drop_bit 16 x)) =
      crc_bits8 (drop_bit 24 x) XOR crc_bits8 (crc_bits8 (drop_bit 16 x AND 0xFF))"
    by (subst s) (simp add: drop_bit_drop_bit)
  moreover have "crc_bits8 (crc_bits8 (crc_bits8 (drop_bit 8 x))) =
      crc_bits8 (crc_bits8 (drop_bit 16 x)) XOR crc_bits8 (crc_bits8 (crc_bits8 (drop_bit 8 x AND 0xFF)))"
    by (subst s) (simp add: drop_bit_drop_bit crc_bits8_xor)
  moreover have "crc_bits8 (crc_bits8 (crc_bits8 (crc_bits8 x))) =
      crc_bits8 (crc_bits8 (crc_bits8 (drop_bit 8 x)))
      XOR crc_bits8 (crc_bits8 (crc_bits8 (crc_bits8 (x AND 0xFF))))"
    by (subst s) (simp add: crc_bits8_xor)
  ultimately show ?thesis
    by (simp add: numeral_eq_Suc ac_simps)
qed

lemma crc_pow_push:
  fixes b :: u8
  assumes "k \<le> 3"
  shows "(crc_bits8 ^^ k) (push_bit (8 * k) (ucast b)) = ucast b"
  using assms
proof (induction k)
  case 0
  then show ?case by simp
next
  case (Suc k)
  have "crc_bits8 (push_bit (8 * Suc k) (ucast b)) = drop_bit 8 (push_bit (8 * Suc k) (ucast b) :: u32)"
    by (rule crc_bits8_high) (simp add: bit_push_bit_iff)
  also have "\<dots> = push_bit (8 * k) (ucast b)"
    using Suc.prems by (intro bit_word_eqI) (auto simp: bit_simps dest: bit_imp_le_length)
  finally have "crc_bits8 (push_bit (8 * Suc k) (ucast b)) = push_bit (8 * k) (ucast b :: u32)" .
  then show ?case
    using Suc by (simp add: funpow_swap1 del: push_bit_push_bit mult_Suc_right)
qed

definition le_word :: "u8 \<Rightarrow> u8 \<Rightarrow> u8 \<Rightarrow> u8 \<Rightarrow> u32" where
  "le_word b0 b1 b2 b3 =
     ucast b0 XOR push_bit 8 (ucast b1) XOR push_bit 16 (ucast b2) XOR push_bit 24 (ucast b3)"

lemma slice8_word_eq:
  "slice8_word pb i = le_word (pb ! i) (pb ! (i + 1)) (pb ! (i + 2)) (pb ! (i + 3))"
  unfolding slice8_word_def le_word_def
  by (rule bit_word_eqI) (auto simp: bit_simps dest: bit_imp_le_length)

lemma crc_pow4_le_word:
  "crc_byte (crc_byte (crc_byte (crc_byte c b0) b1) b2) b3 = (crc_bits8 ^^ 4) (c XOR le_word b0 b1 b2 b3)"
proof -
  have "(crc_bits8 ^^ 4) (push_bit 8 (ucast b1)) = (crc_bits8 ^^ 3) (ucast b1)"
    using crc_pow_push [of 1 b1] by (simp add: numeral_eq_Suc)
  moreover have "(crc_bits8 ^^ 4) (push_bit 16 (ucast b2)) = (crc_bits8 ^^ 2) (ucast b2)"
    using crc_pow_push [of 2 b2] by (simp add: numeral_eq_Suc)
  moreover have "(crc_bits8 ^^ 4) (push_bit 24 (ucast b3)) = crc_bits8 (ucast b3)"
    using crc_pow_push [of 3 b3] by (simp add: numeral_eq_Suc)
  ultimately show ?thesis
    unfolding le_word_def crc_pow_xor
    by (simp add: crc_byte_def crc_bits8_xor numeral_eq_Suc ac_simps)
qed

lemma slice8_step_eq:
  "slice8_step pb i c = fold (\<lambda>j c. crc_byte c (pb ! j)) [i..<i + 8] c"
proof -
  let ?F = "\<lambda>n. crc_bits8 ^^ n"
  let ?x = "c XOR slice8_word pb i"
  let ?d = "(?F 4) (?F 4 ?x)"
  have up: "[i..<i + 8] = [i, i + 1, i + 2, i + 3, i + 4, i + 5, i + 6, i + 7]"
    by (simp add: upt_rec numeral_eq_Suc)
  have "fold (\<lambda>j c. crc_byte c (pb ! j)) [i..<i + 8] c =
    (?F 4) ((?F 4) ?x XOR le_word (pb ! (i + 4)) (pb ! (i + 5)) (pb ! (i + 6)) (pb ! (i + 7)))"
    unfolding up by (simp add: crc_pow4_le_word slice8_word_eq)
  also have "\<dots> = ?d XOR (?F 4) (le_word (pb ! (i + 4)) (pb ! (i + 5)) (pb ! (i + 6)) (pb ! (i + 7)))"
    by (simp add: crc_pow_xor)
  also have "(?F 4) (le_word (pb ! (i + 4)) (pb ! (i + 5)) (pb ! (i + 6)) (pb ! (i + 7))) =
      crc_byte (crc_byte (crc_byte (crc_byte 0 (pb ! (i + 4))) (pb ! (i + 5))) (pb ! (i + 6))) (pb ! (i + 7))"
    by (simp add: crc_pow4_le_word)
  also have "\<dots> = (?F 4) (ucast (pb ! (i + 4))) XOR (?F 3) (ucast (pb ! (i + 5)))
      XOR (?F 2) (ucast (pb ! (i + 6))) XOR crc_bits8 (ucast (pb ! (i + 7)))"
    by (simp add: crc_byte_def crc_bits8_xor numeral_eq_Suc ac_simps)
  finally have rhs: "fold (\<lambda>j c. crc_byte c (pb ! j)) [i..<i + 8] c = ?d XOR
      ((?F 4) (ucast (pb ! (i + 4))) XOR (?F 3) (ucast (pb ! (i + 5)))
      XOR (?F 2) (ucast (pb ! (i + 6))) XOR crc_bits8 (ucast (pb ! (i + 7))))" .
  have d: "?d = (?F 8) (?x AND 0xFF) XOR (?F 7) (drop_bit 8 ?x AND 0xFF)
      XOR (?F 6) (drop_bit 16 ?x AND 0xFF) XOR (?F 5) (drop_bit 24 ?x AND 0xFF)"
    by (subst crc_pow4_split [of ?x]) (simp add: crc_pow_xor crc_bits8_xor numeral_eq_Suc)
  have b: "unat (y :: u8) < 256" for y
    using unsigned_less [of y] by simp
  have at: "slice8_at k (unat (y AND 0xFF)) = (?F (Suc k)) (y AND 0xFF)" if "k < 8" for k y
    using that by (simp add: slice8_at_eq unat_and_FF)
  have atb: "slice8_at k (unat (y :: u8)) = (?F (Suc k)) (ucast y)" if "k < 8" for k y
    using that b by (simp add: slice8_at_eq unsigned_ucast_eq)
  have cols: "slice8_at 4 (unat (y AND 0xFF)) = (?F 5) (y AND 0xFF)"
    "slice8_at 5 (unat (y AND 0xFF)) = (?F 6) (y AND 0xFF)"
    "slice8_at 6 (unat (y AND 0xFF)) = (?F 7) (y AND 0xFF)"
    "slice8_at 7 (unat (y AND 0xFF)) = (?F 8) (y AND 0xFF)" for y
    by (simp_all add: at del: funpow.simps)
  have colsb: "slice8_at 0 (unat (y :: u8)) = crc_bits8 (ucast y)"
    "slice8_at 1 (unat (y :: u8)) = (?F 2) (ucast y)"
    "slice8_at 2 (unat (y :: u8)) = (?F 3) (ucast y)"
    "slice8_at 3 (unat (y :: u8)) = (?F 4) (ucast y)" for y
    using atb [of 0 y] atb [of 1 y] atb [of 2 y] atb [of 3 y] by (simp_all add: numeral_eq_Suc)
  show ?thesis
    unfolding rhs d slice8_step_def Let_def cols colsb by (simp only: ac_simps)
qed

lemma fold_slice8_one [simp]:
  "fold (\<lambda>j c. slice8_one c (pb ! j)) js c = fold (\<lambda>j c. crc_byte c (pb ! j)) js c"
  by (induction js arbitrary: c) (simp_all add: slice8_one_eq)

lemma slice8_align_eq:
  "i \<le> n \<Longrightarrow> slice8_align addr al pb n i c = (i', c') \<Longrightarrow>
   i \<le> i' \<and> i' \<le> n \<and> c' = fold (\<lambda>j c. crc_byte c (pb ! j)) [i..<i'] c"
proof (induction addr al pb n i c arbitrary: i' c' rule: slice8_align.induct)
  case (1 addr al pb n i c)
  show ?case
  proof (cases "i < n \<and> (addr + i) mod al \<noteq> 0")
    case True
    with "1.prems" have "slice8_align addr al pb n (Suc i) (slice8_one c (pb ! i)) = (i', c')"
      by (simp add: slice8_align.simps [of addr al pb n i c])
    with True "1.IH" [OF True] show ?thesis
      by (simp add: slice8_one_eq upt_conv_Cons)
  next
    case False
    with "1.prems" show ?thesis by (auto simp: slice8_align.simps [of addr al pb n i c])
  qed
qed

lemma slice8_slices_eq:
  "i \<le> s \<Longrightarrow> 8 dvd s - i \<Longrightarrow>
   slice8_slices pb s i c = (s, fold (\<lambda>j c. crc_byte c (pb ! j)) [i..<s] c)"
proof (induction pb s i c rule: slice8_slices.induct)
  case (1 pb s i c)
  show ?case
  proof (cases "i < s")
    case True
    with "1.prems" obtain k where k: "s - i = 8 * k" "0 < k"
      by (auto elim!: dvdE)
    then have le: "i + 8 \<le> s" by linarith
    have "s - (i + 8) = 8 * (k - 1)" using k by (simp add: diff_mult_distrib2)
    then have "8 dvd s - (i + 8)" by simp
    with True le "1.IH" have "slice8_slices pb s (i + 8) (slice8_step pb i c) =
        (s, fold (\<lambda>j c. crc_byte c (pb ! j)) [i + 8..<s] (slice8_step pb i c))"
      by simp
    moreover have "[i..<s] = [i..<i + 8] @ [i + 8..<s]"
      using upt_add_eq_append [of i "i + 8" "s - (i + 8)"] le by simp
    ultimately show ?thesis
      using True by (simp add: slice8_slices.simps [of pb s i c] slice8_step_eq)
  next
    case False
    with "1.prems" have "s = i" by simp
    then show ?thesis by (simp add: slice8_slices.simps [of pb i i c])
  qed
qed

lemma sarwate_eq_bitwise: "RedCrc32Update_sarwate init p n = RedCrc32Update_bitwise init p n"
  by (simp add: RedCrc32Update_sarwate_def RedCrc32Update_bitwise_def sarwate_byte_eq split: option.split)

lemma slice8_eq_bitwise: "RedCrc32Update_slice8 addr al init p n = RedCrc32Update_bitwise init p n"
proof (cases p)
  case None
  then show ?thesis by (simp add: RedCrc32Update_slice8_def RedCrc32Update_bitwise_def)
next
  case (Some pb)
  obtain i c where ic: "slice8_align addr al pb n 0 (NOT init) = (i, c)" by force
  then have i: "i \<le> n" and c: "c = fold (\<lambda>j c. crc_byte c (pb ! j)) [0..<i] (NOT init)"
    using slice8_align_eq [of 0 n] by auto
  let ?s = "((n - i) div 8) * 8 + i"
  have s: "i \<le> ?s" "8 dvd ?s - i" "?s \<le> n"
    using i by (auto simp: div_times_less_eq_dividend)
  have "slice8_slices pb ?s i c = (?s, fold (\<lambda>j c. crc_byte c (pb ! j)) [i..<?s] c)"
    using s by (intro slice8_slices_eq)
  moreover have "[0..<n] = [0..<i] @ [i..<?s] @ [?s..<n]"
    using upt_add_eq_append [of 0 i "n - i"] upt_add_eq_append [of i ?s "n - ?s"] i s by simp
  ultimately show ?thesis
    using Some ic c by (simp add: RedCrc32Update_slice8_def RedCrc32Update_bitwise_def Let_def)
qed

lemma RedCrc32Update_eq: "RedCrc32Update alg init p n = RedCrc32Update_bitwise init p n"
  by (cases alg) (simp_all add: RedCrc32Update_def sarwate_eq_bitwise slice8_eq_bitwise)

section \<open>Streaming and detection\<close>

lemma RedCrc32Update_append:
  "RedCrc32Update alg (RedCrc32Update alg init (Some a) (length a)) (Some b) (length b)
   = RedCrc32Update alg init (Some (a @ b)) (length (a @ b))"
proof -
  have "fold (\<lambda>j c. crc_byte c ((a @ b) ! j)) [length a..<length a + length b] c =
      fold (\<lambda>j c. crc_byte c (b ! j)) [0..<length b] c" for c
  proof -
    have "[length a..<length a + length b] = map (\<lambda>j. j + length a) [0..<length b]"
      by (simp add: map_add_upt add.commute)
    then show ?thesis by (simp add: fold_map comp_def nth_append)
  qed
  moreover have "fold (\<lambda>j c. crc_byte c ((a @ b) ! j)) [0..<length a] c =
      fold (\<lambda>j c. crc_byte c (a ! j)) [0..<length a] c" for c
    by (intro fold_cong) (simp_all add: nth_append)
  moreover have "[0..<length (a @ b)] = [0..<length a] @ [length a..<length a + length b]"
    using upt_add_eq_append [of 0 "length a" "length b"] by simp
  ultimately show ?thesis
    by (simp add: RedCrc32Update_eq RedCrc32Update_bitwise_def)
qed

lemma fold_crc_list: "fold (\<lambda>j c. crc_byte c (pb ! j)) [0..<length pb] c = fold (\<lambda>b c. crc_byte c b) pb c"
proof (induction pb arbitrary: c)
  case Nil
  then show ?case by simp
next
  case (Cons b pb)
  have "[0..<length (b # pb)] = 0 # map Suc [0..<length pb]"
    by (simp add: upt_conv_Cons map_Suc_upt del: upt_Suc)
  then show ?case using Cons by (simp add: fold_map comp_def)
qed

lemma RedCrc32Update_list:
  "RedCrc32Update alg init (Some pb) (length pb) = NOT (fold (\<lambda>b c. crc_byte c b) pb (NOT init))"
  by (simp add: RedCrc32Update_eq RedCrc32Update_bitwise_def fold_crc_list)

lemma xor_right_cancel: "(a :: u32) XOR u = b XOR u \<longleftrightarrow> a = b"
proof
  assume "a XOR u = b XOR u"
  then have "(a XOR u) XOR u = (b XOR u) XOR u" by simp
  then show "a = b" by (simp only: xor.assoc xor_self_eq xor.right_neutral)
qed simp

lemma xor_left_cancel: "(u :: u32) XOR a = u XOR b \<longleftrightarrow> a = b"
  using xor_right_cancel [of a u b] by (simp only: xor.commute)

lemma crc_bit_inj: "crc_bit a = crc_bit b \<Longrightarrow> a = b"
proof -
  have p: "bit CCITT_32_POLYNOMIAL 31"
  proof -
    have "drop_bit 31 CCITT_32_POLYNOMIAL = 1" by (simp add: CCITT_32_POLYNOMIAL_def)
    then have "bit (drop_bit 31 CCITT_32_POLYNOMIAL) 0" by simp
    then show ?thesis by (simp only: bit_drop_bit_eq comp_def add.right_neutral)
  qed
  have b0: "bit (crc_bit c) 31 = bit c 0" for c
    using p by (auto simp: crc_bit_alt bit_xor_iff bit_drop_bit_eq dest: bit_imp_le_length)
  assume eq: "crc_bit a = crc_bit b"
  then have "bit a 0 = bit b 0" by (metis b0)
  with eq have "drop_bit 1 a = drop_bit 1 b"
    by (simp only: crc_bit_alt xor_left_cancel)
  then have "bit (drop_bit 1 a) n = bit (drop_bit 1 b) n" for n by simp
  then have s: "bit a (Suc n) = bit b (Suc n)" for n
    by (simp add: bit_drop_bit_eq)
  show "a = b"
  proof (rule bit_word_eqI)
    fix n
    show "bit a n = bit b n" using \<open>bit a 0 = bit b 0\<close> s by (cases n) simp_all
  qed
qed

lemma crc_bits8_inj: "crc_bits8 a = crc_bits8 b \<Longrightarrow> a = b"
  unfolding crc_bits8_unroll by (drule crc_bit_inj)+

lemma crc_byte_inj: "crc_byte a x = crc_byte b x \<Longrightarrow> a = b"
  unfolding crc_byte_def by (drule crc_bits8_inj) (simp only: xor_right_cancel)

lemma fold_crc_inj: "fold (\<lambda>b c. crc_byte c b) s a = fold (\<lambda>b c. crc_byte c b) s b \<Longrightarrow> a = b"
  by (induction s arbitrary: a b) (auto dest: crc_byte_inj)

lemma le_word_inj:
  assumes "le_word a0 a1 a2 a3 = le_word b0 b1 b2 b3"
  shows "a0 = b0 \<and> a1 = b1 \<and> a2 = b2 \<and> a3 = b3"
proof -
  have w: "bit (le_word c0 c1 c2 c3) n = bit c0 n" "bit (le_word c0 c1 c2 c3) (8 + n) = bit c1 n"
    "bit (le_word c0 c1 c2 c3) (16 + n) = bit c2 n" "bit (le_word c0 c1 c2 c3) (24 + n) = bit c3 n"
    if "n < 8" for n c0 c1 c2 c3
    using that unfolding le_word_def by (auto simp: bit_simps dest: bit_imp_le_length)
  have "bit a0 n = bit b0 n \<and> bit a1 n = bit b1 n \<and> bit a2 n = bit b2 n \<and> bit a3 n = bit b3 n"
    if "n < 8" for n
    using w [OF that, of a0 a1 a2 a3] w [OF that, of b0 b1 b2 b3] assms by simp
  then show ?thesis by (auto intro!: bit_word_eqI)
qed

lemma crc_pow_inj: "(crc_bits8 ^^ n) a = (crc_bits8 ^^ n) b \<Longrightarrow> a = b"
  by (induction n) (auto dest: crc_bits8_inj)

lemma fold_crc_burst4:
  assumes "length a = 4" and "length b = 4"
    and "fold (\<lambda>b c. crc_byte c b) a r = fold (\<lambda>b c. crc_byte c b) b r"
  shows "a = b"
proof -
  from assms(1) obtain a0 a1 a2 a3 where a: "a = [a0, a1, a2, a3]"
    by (auto simp: length_Suc_conv numeral_eq_Suc)
  from assms(2) obtain b0 b1 b2 b3 where b: "b = [b0, b1, b2, b3]"
    by (auto simp: length_Suc_conv numeral_eq_Suc)
  have "(crc_bits8 ^^ 4) (r XOR le_word a0 a1 a2 a3) = (crc_bits8 ^^ 4) (r XOR le_word b0 b1 b2 b3)"
    using assms(3) a b by (simp add: crc_pow4_le_word)
  then have "r XOR le_word a0 a1 a2 a3 = r XOR le_word b0 b1 b2 b3"
    by (rule crc_pow_inj)
  then have "le_word a0 a1 a2 a3 = le_word b0 b1 b2 b3"
    by (simp only: xor_left_cancel)
  from le_word_inj [OF this] show ?thesis using a b by simp
qed

text \<open>Shorter bursts are padded to four bytes, at the same register on both sides.\<close>

lemma fold_crc_burst:
  assumes "length a = length b" and "length a \<le> 4"
    and "fold (\<lambda>b c. crc_byte c b) a r = fold (\<lambda>b c. crc_byte c b) b r"
  shows "a = b"
proof -
  let ?z = "replicate (4 - length a) (0 :: u8)"
  have "a @ ?z = b @ ?z"
    using assms by (intro fold_crc_burst4 [where r = r]) auto
  then show ?thesis by simp
qed

lemma crc_detects_burst:
  assumes "length a = length b" and "length a \<le> 4" and "a \<noteq> b"
  shows "RedCrc32Update alg init (Some (p @ a @ s)) (length (p @ a @ s))
    \<noteq> RedCrc32Update alg init (Some (p @ b @ s)) (length (p @ b @ s))"
proof
  assume "RedCrc32Update alg init (Some (p @ a @ s)) (length (p @ a @ s))
    = RedCrc32Update alg init (Some (p @ b @ s)) (length (p @ b @ s))"
  then have "fold (\<lambda>b c. crc_byte c b) s (fold (\<lambda>b c. crc_byte c b) a
        (fold (\<lambda>b c. crc_byte c b) p (NOT init))) =
      fold (\<lambda>b c. crc_byte c b) s (fold (\<lambda>b c. crc_byte c b) b
        (fold (\<lambda>b c. crc_byte c b) p (NOT init)))"
    by (simp add: RedCrc32Update_list del: length_append)
  then show False using fold_crc_inj fold_crc_burst assms by blast
qed

end
