(* ===== verification/Layout.thy ===== *)
theory Layout
  imports Bits
begin

text \<open>
  Integers in memory. The driver reads and writes its on-disk nodes through C structures laid
  over byte buffers, with every member naturally aligned, so a member is an integer at a fixed
  offset in the byte order of the host: \<open>be\<close> is \<^verbatim>\<open>REDCONF_ENDIAN_BIG\<close>. \<open>ld\<close> and \<open>st\<close> are the
  member read and the member write; the lemmas are the laws of a store (read after write at
  the same and at a disjoint member, lengths), and that the reversals of \<^verbatim>\<open>util/endian.c\<close>
  convert between the two byte orders.
\<close>

section \<open>Encoding an integer\<close>

definition le_enc :: "nat \<Rightarrow> 'a::len word \<Rightarrow> bytes" where
  "le_enc n w = map (\<lambda>i. ucast (drop_bit (8 * i) w)) [0..<n]"

fun le_dec :: "bytes \<Rightarrow> 'a::len word" where
  "le_dec [] = 0"
| "le_dec (b # bs) = ucast b OR push_bit 8 (le_dec bs)"

definition enc :: "bool \<Rightarrow> nat \<Rightarrow> 'a::len word \<Rightarrow> bytes" where
  "enc be n w = (if be then rev (le_enc n w) else le_enc n w)"

definition dec :: "bool \<Rightarrow> bytes \<Rightarrow> 'a::len word" where
  "dec be bs = le_dec (if be then rev bs else bs)"

definition ld :: "bool \<Rightarrow> nat \<Rightarrow> bytes \<Rightarrow> nat \<Rightarrow> 'a::len word" where
  "ld be n bs off = dec be (take n (drop off bs))"

definition st :: "bool \<Rightarrow> nat \<Rightarrow> bytes \<Rightarrow> nat \<Rightarrow> 'a::len word \<Rightarrow> bytes" where
  "st be n bs off w = take off bs @ enc be n w @ drop (off + n) bs"

abbreviation ld16 :: "bool \<Rightarrow> bytes \<Rightarrow> nat \<Rightarrow> u16" where "ld16 be \<equiv> ld be 2"
abbreviation ld32 :: "bool \<Rightarrow> bytes \<Rightarrow> nat \<Rightarrow> u32" where "ld32 be \<equiv> ld be 4"
abbreviation ld64 :: "bool \<Rightarrow> bytes \<Rightarrow> nat \<Rightarrow> u64" where "ld64 be \<equiv> ld be 8"
abbreviation st16 :: "bool \<Rightarrow> bytes \<Rightarrow> nat \<Rightarrow> u16 \<Rightarrow> bytes" where "st16 be \<equiv> st be 2"
abbreviation st32 :: "bool \<Rightarrow> bytes \<Rightarrow> nat \<Rightarrow> u32 \<Rightarrow> bytes" where "st32 be \<equiv> st be 4"
abbreviation st64 :: "bool \<Rightarrow> bytes \<Rightarrow> nat \<Rightarrow> u64 \<Rightarrow> bytes" where "st64 be \<equiv> st be 8"

section \<open>Round trips\<close>

lemma length_le_enc [simp]: "length (le_enc n w) = n"
  by (simp add: le_enc_def)

lemma length_enc [simp]: "length (enc be n w) = n"
  by (simp add: enc_def)

lemma le_enc_Suc: "le_enc (Suc n) w = ucast w # le_enc n (drop_bit 8 w)"
proof -
  have "[0..<Suc n] = 0 # map Suc [0..<n]" by (simp add: upt_conv_Cons map_Suc_upt del: upt_Suc)
  then show ?thesis by (simp add: le_enc_def drop_bit_drop_bit add.commute del: upt_Suc)
qed

lemma bit_le_dec:
  "bit (le_dec bs :: 'a::len word) i \<longleftrightarrow> i < LENGTH('a) \<and> i div 8 < length bs \<and> bit (bs ! (i div 8)) (i mod 8)"
proof (induction bs arbitrary: i)
  case Nil
  then show ?case by simp
next
  case (Cons b bs)
  have step: "bit (le_dec (b # bs) :: 'a word) i \<longleftrightarrow>
      i < LENGTH('a) \<and> (bit b i \<or> 8 \<le> i \<and> bit (le_dec bs :: 'a word) (i - 8))"
    by (auto simp: bit_or_iff bit_push_bit_iff bit_ucast_iff dest: bit_imp_le_length)
  show ?case
  proof (cases "i < 8")
    case True
    then show ?thesis unfolding step by simp
  next
    case False
    then obtain j where j: "i = 8 + j" by (metis le_add_diff_inverse not_less)
    have "\<not> bit b i" using False by (auto dest: bit_imp_le_length)
    moreover have "i div 8 = Suc (j div 8)" "i mod 8 = j mod 8" using j by simp_all
    ultimately show ?thesis unfolding step using j False by (auto simp: Cons.IH)
  qed
qed

lemma le_dec_enc: "LENGTH('a) \<le> 8 * n \<Longrightarrow> le_dec (le_enc n (w :: 'a::len word)) = w"
proof (rule bit_word_eqI)
  fix i assume "LENGTH('a) \<le> 8 * n" and i: "i < LENGTH('a)"
  then have "i div 8 < n" by linarith
  moreover have "8 * (i div 8) + i mod 8 = i" by simp
  ultimately show "bit (le_dec (le_enc n w) :: 'a word) i = bit w i"
    using i by (simp add: bit_le_dec le_enc_def bit_ucast_iff bit_drop_bit_eq)
qed

lemma le_enc_dec: "8 * length bs \<le> LENGTH('a) \<Longrightarrow> le_enc (length bs) (le_dec bs :: 'a::len word) = bs"
proof (rule nth_equalityI)
  fix i assume le: "8 * length bs \<le> LENGTH('a)" and "i < length (le_enc (length bs) (le_dec bs :: 'a word))"
  then have i: "i < length bs" by simp
  show "le_enc (length bs) (le_dec bs :: 'a word) ! i = bs ! i"
  proof (rule bit_word_eqI)
    fix j assume "j < LENGTH(8)"
    then have j: "j < 8" by simp
    then have "(8 * i + j) div 8 = i" "(8 * i + j) mod 8 = j" by simp_all
    moreover have "8 * i + j < LENGTH('a)" using i j le by linarith
    ultimately show "bit (le_enc (length bs) (le_dec bs :: 'a word) ! i) j = bit (bs ! i) j"
      using i j by (simp add: le_enc_def bit_ucast_iff bit_drop_bit_eq bit_le_dec)
  qed
qed simp

lemma dec_enc [simp]: "LENGTH('a) \<le> 8 * n \<Longrightarrow> dec be (enc be n (w :: 'a::len word)) = w"
  by (simp add: dec_def enc_def le_dec_enc)

lemma enc_dec: "8 * length bs \<le> LENGTH('a) \<Longrightarrow> enc be (length bs) (dec be bs :: 'a::len word) = bs"
  using le_enc_dec [of "rev bs", where 'a = 'a] by (simp add: dec_def enc_def le_enc_dec)

section \<open>The laws of member access\<close>

lemma length_st [simp]: "off + n \<le> length bs \<Longrightarrow> length (st be n bs off w) = length bs"
  by (simp add: st_def)

lemma ld_st_same [simp]:
  "off + n \<le> length bs \<Longrightarrow> LENGTH('a) \<le> 8 * n \<Longrightarrow> ld be n (st be n bs off w) off = (w :: 'a::len word)"
  by (simp add: ld_def st_def)

lemma take_drop_st_other:
  assumes "off + n \<le> length bs" and "off2 + k \<le> off \<or> off + n \<le> off2"
  shows "take k (drop off2 (st be n bs off w)) = take k (drop off2 bs)"
proof (rule nth_equalityI)
  show "length (take k (drop off2 (st be n bs off w))) = length (take k (drop off2 bs))"
    using assms(1) by simp
next
  fix i assume "i < length (take k (drop off2 (st be n bs off w)))"
  then have "i < k" "off2 + i < length bs" using assms(1) by auto
  then show "take k (drop off2 (st be n bs off w)) ! i = take k (drop off2 bs) ! i"
    using assms by (auto simp: st_def nth_append)
qed

lemma ld_st_other [simp]:
  "off + n \<le> length bs \<Longrightarrow> off2 + k \<le> off \<or> off + n \<le> off2 \<Longrightarrow>
   ld be2 k (st be n bs off w) off2 = ld be2 k bs off2"
  by (simp add: ld_def take_drop_st_other)

lemma nth_st_other [simp]:
  "off + n \<le> length bs \<Longrightarrow> i < off \<or> off + n \<le> i \<Longrightarrow> st be n bs off w ! i = bs ! i"
  by (auto simp: st_def nth_append)

lemma st_ld [simp]:
  "off + n \<le> length bs \<Longrightarrow> 8 * n \<le> LENGTH('a) \<Longrightarrow>
   st be n bs off (ld be n bs off :: 'a::len word) = bs"
proof -
  assume a1: "off + n \<le> length bs" and a2: "8 * n \<le> LENGTH('a)"
  have len: "length (take n (drop off bs)) = n" using a1 by simp
  have "enc be n (dec be (take n (drop off bs)) :: 'a word) = take n (drop off bs)"
    using enc_dec [of "take n (drop off bs)" be, where 'a = 'a] a2 unfolding len by simp
  moreover have "bs = take off bs @ take n (drop off bs) @ drop (off + n) bs"
    by (metis add.commute append_take_drop_id drop_drop)
  ultimately show ?thesis by (simp add: st_def ld_def)
qed

lemma drop_st [simp]: "off + n \<le> length bs \<Longrightarrow> off + n \<le> k \<Longrightarrow> drop k (st be n bs off w) = drop k bs"
  by (simp add: st_def)

section \<open>Byte order\<close>

lemma nth_le_enc: "i < n \<Longrightarrow> le_enc n w ! i = ucast (drop_bit (8 * i) w)"
  by (simp add: le_enc_def)

lemma le_enc_rev16: "le_enc 2 (RedRev16 x) = rev (le_enc 2 x)"
  by (simp add: le_enc_def upt_rec)
     (auto intro!: bit_word_eqI simp: bit_ucast_iff bit_drop_bit_eq RedRev16_bytes)

lemma le_enc_rev32: "le_enc 4 (RedRev32 x) = rev (le_enc 4 x)"
  by (simp add: le_enc_def upt_rec)
     (auto intro!: bit_word_eqI simp: bit_ucast_iff bit_drop_bit_eq RedRev32_bytes)

lemma le_enc_rev64: "le_enc 8 (RedRev64 x) = rev (le_enc 8 x)"
  by (simp add: le_enc_def upt_rec)
     (auto intro!: bit_word_eqI simp: bit_ucast_iff bit_drop_bit_eq RedRev64_bytes)

lemma enc_rev16: "enc be 2 (RedRev16 x) = enc (\<not> be) 2 x"
  by (simp add: enc_def le_enc_rev16)

lemma enc_rev32: "enc be 4 (RedRev32 x) = enc (\<not> be) 4 x"
  by (simp add: enc_def le_enc_rev32)

lemma enc_rev64: "enc be 8 (RedRev64 x) = enc (\<not> be) 8 x"
  by (simp add: enc_def le_enc_rev64)

end
