(* ===== verification/UtilCorrect.thy ===== *)
theory UtilCorrect
  imports MemStr Bits Crc Layout
begin

text \<open>
  Correctness of the utilities the driver is built on: CRC, overlapping moves, bounded string
  copies, bitmaps and byte reversal. The proofs are in the theories of the components.
\<close>

text \<open>
  C37. The three CRC algorithms a project can configure compute the same function, for every
  buffer, length, starting value, buffer address and alignment; the table-driven ones agree with
  the bit-by-bit definition. A volume written by one build is readable by the other.
\<close>
theorem crc_algorithms_agree:
  "RedCrc32Update_sarwate init p n = RedCrc32Update_bitwise init p n \<and>
   RedCrc32Update_slice8 addr al init p n = RedCrc32Update_bitwise init p n \<and>
   RedCrcNode alg blocksize p = RedCrcNode alg' blocksize p"
  by (simp add: sarwate_eq_bitwise slice8_eq_bitwise RedCrcNode_def RedCrc32Update_eq split: option.split)

text \<open>
  The CRC of a node detects every corruption confined to at most four consecutive bytes of
  the checked part of the block, wherever they lie.
\<close>
lemma crc_node_detects_burst:
  assumes "length a = length b" and "length a \<le> 4" and "a \<noteq> b"
    and "length h8 = 8" and "blocksize = 8 + length p + length a + length s"
  shows "RedCrcNode alg blocksize (Some (h8 @ p @ a @ s)) \<noteq> RedCrcNode alg blocksize (Some (h8 @ p @ b @ s))"
  using crc_detects_burst [OF assms(1-3), of alg 0 p s] assms(1,4,5)
  by (simp add: RedCrcNode_def)

theorem crc_node_detects_burst_witness:
  "RedCrcNode CRC_BITWISE 13 (Some ([0,1,2,3,4,5,6,7] @ [9] @ [1,2,3] @ [8]))
   \<noteq> RedCrcNode CRC_BITWISE 13 (Some ([0,1,2,3,4,5,6,7] @ [9] @ [1,2,4] @ [8]))"
  by (rule crc_node_detects_burst) simp_all

text \<open>
  \<open>RedMemMove\<close> copies correctly when source and destination overlap, in either direction:
  afterwards the destination range holds what the source range held before the call, and every
  other byte is unchanged.
\<close>
lemma memmove_overlap:
  assumes "dest + n \<le> length mem" and "src + n \<le> length mem"
  shows "RedMemMove (Some dest) (Some src) n mem
    = take dest mem @ take n (drop src mem) @ drop (dest + n) mem"
  using assms by (rule RedMemMove_eq)

theorem memmove_overlap_witness:
  "RedMemMove (Some 1) (Some 0) 3 [10, 20, 30, 40, 50 :: u8] = [10, 10, 20, 30, 50] \<and>
   RedMemMove (Some 0) (Some 1) 3 [10, 20, 30, 40, 50 :: u8] = [20, 30, 40, 40, 50]"
  using memmove_overlap [of 1 3 "[10, 20, 30, 40, 50 :: u8]" 0]
    memmove_overlap [of 0 3 "[10, 20, 30, 40, 50 :: u8]" 1]
  by (simp add: numeral_eq_Suc)



text \<open>
  Reversing the bytes of a 16, 32 or 64 bit field gives the field stored in the other byte
  order, and reversing twice gives the field back, so that the endian swap of a node is undone by
  the swap on the next read.
\<close>
lemma rev_swaps_byte_order:
  "enc be 2 (RedRev16 x) = enc (\<not> be) 2 x \<and> enc be 4 (RedRev32 y) = enc (\<not> be) 4 y \<and>
   enc be 8 (RedRev64 z) = enc (\<not> be) 8 z \<and>
   RedRev16 (RedRev16 x) = x \<and> RedRev32 (RedRev32 y) = y \<and> RedRev64 (RedRev64 z) = z"
  by (simp add: enc_rev16 enc_rev32 enc_rev64)

end
