(* ===== verification/Redfs.thy ===== *)
theory Redfs
  imports Crc Layout
begin

text \<open>
  Configuration and state of the driver: what \<^verbatim>\<open>redconf.h\<close> and \<^verbatim>\<open>redconf.c\<close> configure
  (\<open>redconf\<close>), the structures of \<^verbatim>\<open>include/redvolume.h\<close>, \<^verbatim>\<open>core/include/redcorevol.h\<close>,
  \<^verbatim>\<open>core/include/rednodes.h\<close> and \<^verbatim>\<open>core/driver/buffer.c\<close>, and the global state of the driver
  (\<open>redstate\<close>) with its current-volume pointers.

  The two configuration files belong to the project that uses the driver and are not part of
  the repository, so the configuration is a parameter \<open>cf\<close> of every definition. It holds the
  operations of the block device too (\<open>DiskOpen\<close> and the others, the static functions
  \<^verbatim>\<open>osbdev.c\<close> selects at compile time), on a device state of type \<open>'d\<close>. The driver is modelled
  with \<^verbatim>\<open>REDCONF_READ_ONLY == 0\<close>. The global pointers \<^verbatim>\<open>gpRedVolume\<close>, \<^verbatim>\<open>gpRedVolConf\<close>,
  \<^verbatim>\<open>gpRedCoreVol\<close> and \<^verbatim>\<open>gpRedMR\<close> always point at the entry of the current volume, and at its
  current metaroot, so they are functions of the state.

  \<^verbatim>\<open>REDASSERT\<close> and \<^verbatim>\<open>REDERROR\<close> halt a build with \<^verbatim>\<open>REDCONF_ASSERTS == 1\<close> and vanish
  otherwise. The model continues and records the event in \<open>asserted\<close>: a run that ends with
  \<open>\<not> asserted\<close> is the same in both builds.
\<close>

section \<open>Configuration\<close>

record VOLCONF =
  ulSectorSize :: u32
  ullSectorCount :: u64
  fAtomicSectorWrite :: bool
  ulInodeCount :: u32
  bBlockIoRetries :: u8
  pszPathPrefix :: "bytes option"

datatype BDEVOPENMODE = BDEV_O_RDONLY | BDEV_O_WRONLY | BDEV_O_RDWR

record 'd redconf =
  REDCONF_BLOCK_SIZE :: nat
  REDCONF_BUFFER_COUNT :: nat
  REDCONF_VOLUME_COUNT :: nat
  REDCONF_NAME_MAX :: nat
  REDCONF_DIRECT_POINTERS :: nat
  REDCONF_INDIRECT_POINTERS :: nat
  REDCONF_API_POSIX :: bool
  REDCONF_API_POSIX_LINK :: bool
  REDCONF_API_POSIX_UNLINK :: bool
  REDCONF_API_POSIX_RMDIR :: bool
  REDCONF_API_POSIX_MKDIR :: bool
  REDCONF_API_POSIX_RENAME :: bool
  REDCONF_API_POSIX_FTRUNCATE :: bool
  REDCONF_API_FSE_TRUNCATE :: bool
  REDCONF_INODE_BLOCKS :: bool
  REDCONF_INODE_TIMESTAMPS :: bool
  REDCONF_ATIME :: bool
  REDCONF_ENDIAN_BIG :: bool
  REDCONF_ENDIAN_SWAP :: bool
  REDCONF_IMAP_INLINE :: bool
  REDCONF_IMAP_EXTERNAL :: bool
  REDCONF_CRC_ALGORITHM :: crc_algorithm
  REDCONF_TRANSACT_DEFAULT :: u32
  REDCONF_RENAME_ATOMIC :: bool
  REDCONF_PATH_SEPARATOR :: u8
  REDCONF_HANDLE_COUNT :: nat
  REDCONF_TASK_COUNT :: nat
  gaRedVolConf :: "u8 \<Rightarrow> VOLCONF"
  DiskOpen :: "u8 \<Rightarrow> BDEVOPENMODE \<Rightarrow> 'd \<Rightarrow> red_err option \<times> 'd"
  DiskClose :: "u8 \<Rightarrow> 'd \<Rightarrow> red_err option \<times> 'd"
  DiskRead :: "u8 \<Rightarrow> u64 \<Rightarrow> u32 \<Rightarrow> 'd \<Rightarrow> (red_err option \<times> bytes) \<times> 'd"
  DiskWrite :: "u8 \<Rightarrow> u64 \<Rightarrow> u32 \<Rightarrow> bytes \<Rightarrow> 'd \<Rightarrow> red_err option \<times> 'd"
  DiskFlush :: "u8 \<Rightarrow> 'd \<Rightarrow> red_err option \<times> 'd"
  RedOsClockGetTime :: "'d \<Rightarrow> u32"
  RedOsMutexInit :: "red_err option"

text \<open>Sizes derived from the configuration (\<^verbatim>\<open>redmacs.h\<close>, \<^verbatim>\<open>rednodes.h\<close>, \<^verbatim>\<open>redcoremacs.h\<close>).\<close>

definition BLOCK_SIZE_P2 :: "'d redconf \<Rightarrow> u8" where
  "BLOCK_SIZE_P2 cf =
     (let n = REDCONF_BLOCK_SIZE cf in
      if n = 256 then 8 else if n = 512 then 9 else if n = 1024 then 10 else if n = 2048 then 11
      else if n = 4096 then 12 else if n = 8192 then 13 else if n = 16384 then 14
      else if n = 32768 then 15 else 16)"

definition NODEHEADER_SIZE :: nat where "NODEHEADER_SIZE = 16"
definition NODEHEADER_OFFSET_SIG :: nat where "NODEHEADER_OFFSET_SIG = 0"
definition NODEHEADER_OFFSET_CRC :: nat where "NODEHEADER_OFFSET_CRC = 4"
definition NODEHEADER_OFFSET_SEQ :: nat where "NODEHEADER_OFFSET_SEQ = 8"

definition METAROOT_HEADER_SIZE :: "'d redconf \<Rightarrow> nat" where
  "METAROOT_HEADER_SIZE cf = NODEHEADER_SIZE + (if REDCONF_API_POSIX cf then 16 else 12)"

definition METAROOT_ENTRY_BYTES :: "'d redconf \<Rightarrow> nat" where
  "METAROOT_ENTRY_BYTES cf = REDCONF_BLOCK_SIZE cf - METAROOT_HEADER_SIZE cf"

definition METAROOT_ENTRIES :: "'d redconf \<Rightarrow> nat" where
  "METAROOT_ENTRIES cf = METAROOT_ENTRY_BYTES cf * 8"

definition IMAPNODE_ENTRY_BYTES :: "'d redconf \<Rightarrow> nat" where
  "IMAPNODE_ENTRY_BYTES cf = REDCONF_BLOCK_SIZE cf - NODEHEADER_SIZE"

definition IMAPNODE_ENTRIES :: "'d redconf \<Rightarrow> nat" where
  "IMAPNODE_ENTRIES cf = IMAPNODE_ENTRY_BYTES cf * 8"

definition INODE_HEADER_SIZE :: "'d redconf \<Rightarrow> nat" where
  "INODE_HEADER_SIZE cf =
     NODEHEADER_SIZE + 8 + (if REDCONF_INODE_BLOCKS cf then 4 else 0)
     + (if REDCONF_INODE_TIMESTAMPS cf then 12 else 0) + 4 + (if REDCONF_API_POSIX cf then 4 else 0)"

definition INODE_ENTRIES :: "'d redconf \<Rightarrow> nat" where
  "INODE_ENTRIES cf = (REDCONF_BLOCK_SIZE cf - INODE_HEADER_SIZE cf) div 4"

definition INDIR_HEADER_SIZE :: nat where "INDIR_HEADER_SIZE = NODEHEADER_SIZE + 4"

definition INDIR_ENTRIES :: "'d redconf \<Rightarrow> nat" where
  "INDIR_ENTRIES cf = (REDCONF_BLOCK_SIZE cf - INDIR_HEADER_SIZE) div 4"

definition DINDIR_POINTERS :: "'d redconf \<Rightarrow> nat" where
  "DINDIR_POINTERS cf = (INODE_ENTRIES cf - REDCONF_DIRECT_POINTERS cf) - REDCONF_INDIRECT_POINTERS cf"

definition DINDIR_DATA_BLOCKS :: "'d redconf \<Rightarrow> nat" where
  "DINDIR_DATA_BLOCKS cf = INDIR_ENTRIES cf * INDIR_ENTRIES cf"

definition INODE_INDIR_BLOCKS :: "'d redconf \<Rightarrow> nat" where
  "INODE_INDIR_BLOCKS cf = REDCONF_INDIRECT_POINTERS cf * INDIR_ENTRIES cf"

definition INODE_DINDIR_BLOCKS :: "'d redconf \<Rightarrow> nat" where
  "INODE_DINDIR_BLOCKS cf = DINDIR_POINTERS cf * DINDIR_DATA_BLOCKS cf"

text \<open>
  The macros are expressions of 32-bit unsigned integers: the number of data blocks wraps. All but
  the products with \<open>DINDIR_POINTERS\<close> are small.
\<close>

definition INODE_DATA_BLOCKS :: "'d redconf \<Rightarrow> u32" where
  "INODE_DATA_BLOCKS cf =
     of_nat (REDCONF_DIRECT_POINTERS cf + INODE_INDIR_BLOCKS cf + INODE_DINDIR_BLOCKS cf)"

definition INODE_SIZE_MAX :: "'d redconf \<Rightarrow> u64" where
  "INODE_SIZE_MAX cf = of_nat (REDCONF_BLOCK_SIZE cf) * ucast (INODE_DATA_BLOCKS cf)"

definition RESERVED_BLOCKS :: "'d redconf \<Rightarrow> u32" where
  "RESERVED_BLOCKS cf =
     (if REDCONF_API_POSIX cf \<and> (REDCONF_API_POSIX_UNLINK cf \<or> REDCONF_API_POSIX_RMDIR cf)
      then (if DINDIR_POINTERS cf > 0 then 3 else if REDCONF_INDIRECT_POINTERS cf > 0 then 2 else 1)
      else if (REDCONF_API_POSIX cf \<and> REDCONF_API_POSIX_FTRUNCATE cf)
           \<or> (\<not> REDCONF_API_POSIX cf \<and> REDCONF_API_FSE_TRUNCATE cf)
      then (if DINDIR_POINTERS cf > 0 then 2 else if REDCONF_INDIRECT_POINTERS cf > 0 then 1 else 0)
      else 0)"

definition BLOCK_NUM_MASTER :: u32 where "BLOCK_NUM_MASTER = 0"
definition BLOCK_NUM_FIRST_METAROOT :: u32 where "BLOCK_NUM_FIRST_METAROOT = 1"
definition BLOCK_SPARSE :: u32 where "BLOCK_SPARSE = 0"
definition INODE_INVALID :: u32 where "INODE_INVALID = 0"
definition INODE_FIRST_VALID :: u32 where "INODE_FIRST_VALID = 2"
definition INODE_ROOTDIR :: u32 where "INODE_ROOTDIR = INODE_FIRST_VALID"

definition INODE_FIRST_FREE :: "'d redconf \<Rightarrow> u32" where
  "INODE_FIRST_FREE cf = (if REDCONF_API_POSIX cf then INODE_FIRST_VALID + 1 else INODE_FIRST_VALID)"

definition BBLK_INVALID :: u32 where "BBLK_INVALID = 0xFFFFFFFF"

text \<open>
  The checks of \<^verbatim>\<open>redconfigchk.h\<close> the development uses, and a bound on the configured number of
  retries.
\<close>

definition conf_ok :: "'d redconf \<Rightarrow> bool" where
  "conf_ok cf \<longleftrightarrow>
     REDCONF_BLOCK_SIZE cf \<in> {256, 512, 1024, 2048, 4096, 8192, 16384, 32768, 65536}
     \<and> REDCONF_BUFFER_COUNT cf \<le> 255
     \<and> 1 \<le> REDCONF_VOLUME_COUNT cf \<and> REDCONF_VOLUME_COUNT cf \<le> 255
     \<and> (\<forall>v. bBlockIoRetries (gaRedVolConf cf v) < 255)"

lemma conf_ok_block_size:
  "conf_ok cf \<Longrightarrow> 256 \<le> REDCONF_BLOCK_SIZE cf \<and> REDCONF_BLOCK_SIZE cf \<le> 65536"
  by (auto simp: conf_ok_def)

section \<open>State\<close>

record VOLUME =
  fMounted :: bool
  fReadOnly :: bool
  ulTransMask :: u32
  bBlockSectorShift :: u8
  ulBlockCount :: u32
  ulBlocksAllocable :: u32
  ullMaxInodeSize :: u64
  ullSequence :: u64

record METAROOT =
  mr_ulSignature :: u32
  mr_ulCRC :: u32
  mr_ullSequence :: u64
  ulSectorCRC :: u32
  ulFreeBlocks :: u32
  ulFreeInodes :: u32
  ulAllocNextBlock :: u32
  abEntries :: bytes

record COREVOLUME =
  fImapInline :: bool
  ulImapStartBN :: u32
  ulImapNodeCount :: u32
  ulInodeTableStartBN :: u32
  ulFirstAllocableBN :: u32
  aMR :: "u8 \<Rightarrow> METAROOT"
  bCurMR :: u8
  fBranched :: bool
  ulAlmostFreeBlocks :: u32
  fUseReservedBlocks :: bool

record BUFFERHEAD =
  ulBlock :: u32
  bVolNum :: u8
  bRefCount :: u8
  uFlags :: u16

record 'd redstate =
  uNumUsed :: u16
  abMRU :: "nat list"
  aHead :: "BUFFERHEAD list"
  aabBuffer :: "bytes list"
  gaRedVolume :: "u8 \<Rightarrow> VOLUME"
  gaCoreVol :: "u8 \<Rightarrow> COREVOLUME"
  gbRedVolNum :: u8
  bdev :: 'd
  asserted :: bool

type_synonym ('d, 'a) redM = "('d redstate, 'a) red"

definition gpRedVolConf :: "'d redconf \<Rightarrow> 'd redstate \<Rightarrow> VOLCONF" where
  "gpRedVolConf cf s = gaRedVolConf cf (gbRedVolNum s)"

definition gpRedVolume :: "'d redstate \<Rightarrow> VOLUME" where
  "gpRedVolume s = gaRedVolume s (gbRedVolNum s)"

definition gpRedCoreVol :: "'d redstate \<Rightarrow> COREVOLUME" where
  "gpRedCoreVol s = gaCoreVol s (gbRedVolNum s)"

definition gpRedMR :: "'d redstate \<Rightarrow> METAROOT" where
  "gpRedMR s = aMR (gpRedCoreVol s) (bCurMR (gpRedCoreVol s))"

definition INODE_IS_VALID :: "'d redconf \<Rightarrow> 'd redstate \<Rightarrow> u32 \<Rightarrow> bool" where
  "INODE_IS_VALID cf s n \<longleftrightarrow> n \<ge> INODE_FIRST_VALID \<and> n < INODE_FIRST_VALID + ulInodeCount (gpRedVolConf cf s)"

definition upd_vol :: "(VOLUME \<Rightarrow> VOLUME) \<Rightarrow> 'd redstate \<Rightarrow> 'd redstate" where
  "upd_vol f s = s\<lparr>gaRedVolume := (gaRedVolume s)(gbRedVolNum s := f (gpRedVolume s))\<rparr>"

definition upd_core :: "(COREVOLUME \<Rightarrow> COREVOLUME) \<Rightarrow> 'd redstate \<Rightarrow> 'd redstate" where
  "upd_core f s = s\<lparr>gaCoreVol := (gaCoreVol s)(gbRedVolNum s := f (gpRedCoreVol s))\<rparr>"

definition upd_mr :: "(METAROOT \<Rightarrow> METAROOT) \<Rightarrow> 'd redstate \<Rightarrow> 'd redstate" where
  "upd_mr f s = upd_core (\<lambda>c. c\<lparr>aMR := (aMR c)(bCurMR c := f (aMR c (bCurMR c)))\<rparr>) s"

section \<open>Assertions and critical errors\<close>

definition REDERROR :: "'d redstate \<Rightarrow> 'd redstate" where
  "REDERROR s = s\<lparr>asserted := True\<rparr>"

definition REDASSERT :: "bool \<Rightarrow> 'd redstate \<Rightarrow> 'd redstate" where
  "REDASSERT c s = (if c then s else REDERROR s)"

definition RedVolCriticalError :: "'d redstate \<Rightarrow> 'd redstate" where
  "RedVolCriticalError s = REDERROR (upd_vol (\<lambda>v. v\<lparr>fReadOnly := True\<rparr>) s)"

definition rederrorR :: "red_err \<Rightarrow> ('d, 'a) redM" where
  "rederrorR e = bindR (modR REDERROR) (\<lambda>_. failR e)"

definition criticalR :: "red_err \<Rightarrow> ('d, 'a) redM" where
  "criticalR e = bindR (modR RedVolCriticalError) (\<lambda>_. failR e)"

text \<open>\<^verbatim>\<open>CRITICAL_ASSERT( ret == 0 )\<close> around a call, whose status is then returned.\<close>

definition critical_assertR :: "('d, 'a) redM \<Rightarrow> ('d, 'a) redM" where
  "critical_assertR m = tryR m (\<lambda>r. case r of Inl e \<Rightarrow> criticalR e | Inr x \<Rightarrow> retR x)"

section \<open>Sequence numbers\<close>

definition RedVolSeqNumIncrement :: "('d, unit) redM" where
  "RedVolSeqNumIncrement = getR (\<lambda>s.
     if ullSequence (gpRedVolume s) = 0xFFFFFFFFFFFFFFFF then criticalR RED_EFUBAR
     else modR (upd_vol (\<lambda>v. v\<lparr>ullSequence := ullSequence v + 1\<rparr>)))"

section \<open>Lemmas on the accessors\<close>

named_theorems st_simps \<open>reading the state after an update\<close>

lemma upd_vol_sel [st_simps]:
  "gpRedVolume (upd_vol f s) = f (gpRedVolume s)"
  "gaRedVolume (upd_vol f s) = (gaRedVolume s)(gbRedVolNum s := f (gpRedVolume s))"
  "gpRedCoreVol (upd_vol f s) = gpRedCoreVol s" "gaCoreVol (upd_vol f s) = gaCoreVol s"
  "gpRedMR (upd_vol f s) = gpRedMR s" "gbRedVolNum (upd_vol f s) = gbRedVolNum s"
  "gpRedVolConf cf (upd_vol f s) = gpRedVolConf cf s"
  "uNumUsed (upd_vol f s) = uNumUsed s" "abMRU (upd_vol f s) = abMRU s" "aHead (upd_vol f s) = aHead s"
  "aabBuffer (upd_vol f s) = aabBuffer s" "bdev (upd_vol f s) = bdev s" "asserted (upd_vol f s) = asserted s"
  by (simp_all add: upd_vol_def gpRedVolume_def gpRedCoreVol_def gpRedMR_def gpRedVolConf_def)

lemma upd_core_sel [st_simps]:
  "gpRedVolume (upd_core g s) = gpRedVolume s" "gaRedVolume (upd_core g s) = gaRedVolume s"
  "gpRedCoreVol (upd_core g s) = g (gpRedCoreVol s)"
  "gaCoreVol (upd_core g s) = (gaCoreVol s)(gbRedVolNum s := g (gpRedCoreVol s))"
  "gpRedMR (upd_core g s) = aMR (g (gpRedCoreVol s)) (bCurMR (g (gpRedCoreVol s)))"
  "gbRedVolNum (upd_core g s) = gbRedVolNum s" "gpRedVolConf cf (upd_core g s) = gpRedVolConf cf s"
  "uNumUsed (upd_core g s) = uNumUsed s" "abMRU (upd_core g s) = abMRU s" "aHead (upd_core g s) = aHead s"
  "aabBuffer (upd_core g s) = aabBuffer s" "bdev (upd_core g s) = bdev s" "asserted (upd_core g s) = asserted s"
  by (simp_all add: upd_core_def gpRedVolume_def gpRedCoreVol_def gpRedMR_def gpRedVolConf_def)

lemma upd_mr_sel [st_simps]:
  "gpRedVolume (upd_mr h s) = gpRedVolume s" "gaRedVolume (upd_mr h s) = gaRedVolume s"
  "gpRedMR (upd_mr h s) = h (gpRedMR s)"
  "gbRedVolNum (upd_mr h s) = gbRedVolNum s" "gpRedVolConf cf (upd_mr h s) = gpRedVolConf cf s"
  "uNumUsed (upd_mr h s) = uNumUsed s" "abMRU (upd_mr h s) = abMRU s" "aHead (upd_mr h s) = aHead s"
  "aabBuffer (upd_mr h s) = aabBuffer s" "bdev (upd_mr h s) = bdev s" "asserted (upd_mr h s) = asserted s"
  "gpRedCoreVol (upd_mr h s) = (gpRedCoreVol s)\<lparr>aMR := (aMR (gpRedCoreVol s))(bCurMR (gpRedCoreVol s) := h (gpRedMR s))\<rparr>"
  by (simp_all add: upd_mr_def st_simps) (simp_all add: gpRedMR_def)

lemma REDERROR_sel [st_simps]:
  "gpRedVolume (REDERROR s) = gpRedVolume s" "gaRedVolume (REDERROR s) = gaRedVolume s"
  "gpRedCoreVol (REDERROR s) = gpRedCoreVol s" "gaCoreVol (REDERROR s) = gaCoreVol s"
  "gpRedMR (REDERROR s) = gpRedMR s" "gbRedVolNum (REDERROR s) = gbRedVolNum s"
  "gpRedVolConf cf (REDERROR s) = gpRedVolConf cf s"
  "uNumUsed (REDERROR s) = uNumUsed s" "abMRU (REDERROR s) = abMRU s" "aHead (REDERROR s) = aHead s"
  "aabBuffer (REDERROR s) = aabBuffer s" "bdev (REDERROR s) = bdev s" "asserted (REDERROR s) = True"
  by (simp_all add: REDERROR_def gpRedVolume_def gpRedCoreVol_def gpRedMR_def gpRedVolConf_def)

lemma RedVolCriticalError_sel [st_simps]:
  "gpRedVolume (RedVolCriticalError s) = (gpRedVolume s)\<lparr>fReadOnly := True\<rparr>"
  "gpRedCoreVol (RedVolCriticalError s) = gpRedCoreVol s" "gaCoreVol (RedVolCriticalError s) = gaCoreVol s"
  "gpRedMR (RedVolCriticalError s) = gpRedMR s" "gbRedVolNum (RedVolCriticalError s) = gbRedVolNum s"
  "gpRedVolConf cf (RedVolCriticalError s) = gpRedVolConf cf s"
  "gaRedVolume (RedVolCriticalError s) = (gaRedVolume s)(gbRedVolNum s := (gpRedVolume s)\<lparr>fReadOnly := True\<rparr>)"
  "uNumUsed (RedVolCriticalError s) = uNumUsed s" "abMRU (RedVolCriticalError s) = abMRU s"
  "aHead (RedVolCriticalError s) = aHead s" "aabBuffer (RedVolCriticalError s) = aabBuffer s"
  "bdev (RedVolCriticalError s) = bdev s" "asserted (RedVolCriticalError s) = True"
  by (simp_all add: RedVolCriticalError_def st_simps)

lemma REDASSERT_sel [st_simps]:
  "gpRedVolume (REDASSERT c s) = gpRedVolume s" "gaRedVolume (REDASSERT c s) = gaRedVolume s"
  "gpRedCoreVol (REDASSERT c s) = gpRedCoreVol s" "gaCoreVol (REDASSERT c s) = gaCoreVol s"
  "gpRedMR (REDASSERT c s) = gpRedMR s" "gbRedVolNum (REDASSERT c s) = gbRedVolNum s"
  "gpRedVolConf cf (REDASSERT c s) = gpRedVolConf cf s"
  "uNumUsed (REDASSERT c s) = uNumUsed s" "abMRU (REDASSERT c s) = abMRU s"
  "aHead (REDASSERT c s) = aHead s" "aabBuffer (REDASSERT c s) = aabBuffer s"
  "bdev (REDASSERT c s) = bdev s" "asserted (REDASSERT c s) \<longleftrightarrow> asserted s \<or> \<not> c"
  by (simp_all add: REDASSERT_def st_simps)

lemma rederrorR_run [red_simps]: "rederrorR e s = (Inl e, REDERROR s)"
  by (simp add: rederrorR_def red_simps)

lemma criticalR_run [red_simps]: "criticalR e s = (Inl e, RedVolCriticalError s)"
  by (simp add: criticalR_def red_simps)

lemma critical_assertR_run [red_simps]:
  "critical_assertR m s =
     (case m s of (Inl e, s') \<Rightarrow> (Inl e, RedVolCriticalError s') | (Inr x, s') \<Rightarrow> (Inr x, s'))"
  by (simp add: critical_assertR_def red_simps split: prod.splits sum.splits)

lemma presR_rederror [pres]: "(\<And>s. I s \<Longrightarrow> I (REDERROR s)) \<Longrightarrow> presR I (rederrorR e)"
  by (simp add: presR_def red_simps)

lemma presR_critical [pres]: "(\<And>s. I s \<Longrightarrow> I (RedVolCriticalError s)) \<Longrightarrow> presR I (criticalR e)"
  by (simp add: presR_def red_simps)

lemma presR_critical_assert [pres]:
  "(\<And>s. I s \<Longrightarrow> I (RedVolCriticalError s)) \<Longrightarrow> presR I m \<Longrightarrow> presR I (critical_assertR m)"
  unfolding critical_assertR_def by (intro pres)

lemma RedVolSeqNumIncrement_run:
  "RedVolSeqNumIncrement s =
     (if ullSequence (gpRedVolume s) = 0xFFFFFFFFFFFFFFFF then (Inl RED_EFUBAR, RedVolCriticalError s)
      else (Inr (), upd_vol (\<lambda>v. v\<lparr>ullSequence := ullSequence v + 1\<rparr>) s))"
  by (simp add: RedVolSeqNumIncrement_def red_simps)

text \<open>A successful increment never wraps: the next number is larger.\<close>

lemma RedVolSeqNumIncrement_less:
  assumes "RedVolSeqNumIncrement s = (Inr (), s')"
  shows "ullSequence (gpRedVolume s) < ullSequence (gpRedVolume s')"
proof -
  have ne: "ullSequence (gpRedVolume s) \<noteq> - 1"
    and s': "s' = upd_vol (\<lambda>v. v\<lparr>ullSequence := ullSequence v + 1\<rparr>) s"
    using assms by (auto simp: RedVolSeqNumIncrement_run split: if_splits)
  have "x < x + 1" if "x \<noteq> - 1" for x :: u64
  proof -
    have "unat x \<noteq> 2 ^ 64 - 1"
    proof
      assume "unat x = 2 ^ 64 - 1"
      then have "x = of_nat (2 ^ 64 - 1)" by (metis of_nat_unat ucast_id)
      then show False using that by simp
    qed
    then have "unat x + 1 < 2 ^ 64"
      using unsigned_less [of x, where ?'a = nat] by simp
    then show ?thesis
      by (simp add: word_less_nat_alt unat_word_ariths)
  qed
  then show ?thesis using ne by (simp add: s' st_simps)
qed

end
