(* ===== verification/BlockDev.thy ===== *)
theory BlockDev
  imports Redfs MemStr
begin

text \<open>
  The block device: the wrappers of \<^verbatim>\<open>os/freertos/services/osbdev.c\<close> around the configured
  device operations, the RAM disk of the same file, and the interface \<open>block_device\<close>, which
  states what the driver relies on when it reads, writes and flushes sectors. A device operation
  returns \<open>None\<close> where C returns 0 and \<open>Some e\<close> where it returns \<open>-e\<close>. \<open>DiskRead\<close> returns the
  bytes it left in the buffer also when it fails. The interface is interpreted on the RAM disk.
\<close>

section \<open>osbdev.c: parameter checks\<close>

definition vol_ok :: "'d redconf \<Rightarrow> u8 \<Rightarrow> bool" where
  "vol_ok cf bVol \<longleftrightarrow> unat bVol < REDCONF_VOLUME_COUNT cf"

definition RedOsBDevOpen :: "'d redconf \<Rightarrow> u8 \<Rightarrow> BDEVOPENMODE \<Rightarrow> 'd \<Rightarrow> red_err option \<times> 'd" where
  "RedOsBDevOpen cf bVol mode d =
     (if \<not> vol_ok cf bVol then (Some RED_EINVAL, d) else DiskOpen cf bVol mode d)"

definition RedOsBDevClose :: "'d redconf \<Rightarrow> u8 \<Rightarrow> 'd \<Rightarrow> red_err option \<times> 'd" where
  "RedOsBDevClose cf bVol d =
     (if \<not> vol_ok cf bVol then (Some RED_EINVAL, d) else DiskClose cf bVol d)"

definition sectors_ok :: "'d redconf \<Rightarrow> u8 \<Rightarrow> u64 \<Rightarrow> u32 \<Rightarrow> bool" where
  "sectors_ok cf bVol ullSectorStart ulSectorCount \<longleftrightarrow>
     vol_ok cf bVol \<and> ullSectorStart < ullSectorCount (gaRedVolConf cf bVol)
     \<and> \<not> ullSectorCount (gaRedVolConf cf bVol) - ullSectorStart < ucast ulSectorCount"

text \<open>\<open>pBuffer\<close> is the memory from the pointer on, before and (second component) after the call.\<close>

definition RedOsBDevRead ::
  "'d redconf \<Rightarrow> u8 \<Rightarrow> u64 \<Rightarrow> u32 \<Rightarrow> bytes \<Rightarrow> 'd \<Rightarrow> (red_err option \<times> bytes) \<times> 'd" where
  "RedOsBDevRead cf bVol ullSectorStart ulSectorCount pBuffer d =
     (if \<not> sectors_ok cf bVol ullSectorStart ulSectorCount then ((Some RED_EINVAL, pBuffer), d)
      else case DiskRead cf bVol ullSectorStart ulSectorCount d of
        ((ret, data), d') \<Rightarrow> ((ret, data @ drop (length data) pBuffer), d'))"

definition RedOsBDevWrite ::
  "'d redconf \<Rightarrow> u8 \<Rightarrow> u64 \<Rightarrow> u32 \<Rightarrow> bytes \<Rightarrow> 'd \<Rightarrow> red_err option \<times> 'd" where
  "RedOsBDevWrite cf bVol ullSectorStart ulSectorCount pBuffer d =
     (if \<not> sectors_ok cf bVol ullSectorStart ulSectorCount then (Some RED_EINVAL, d)
      else DiskWrite cf bVol ullSectorStart ulSectorCount pBuffer d)"

definition RedOsBDevFlush :: "'d redconf \<Rightarrow> u8 \<Rightarrow> 'd \<Rightarrow> red_err option \<times> 'd" where
  "RedOsBDevFlush cf bVol d =
     (if \<not> vol_ok cf bVol then (Some RED_EINVAL, d) else DiskFlush cf bVol d)"

section \<open>osbdev.c: the RAM disk\<close>

text \<open>
  \<open>gapbRamDisk\<close> is the device state. \<open>blocks\<close> stands for \<^verbatim>\<open>gaRedVolume[].ulBlockCount\<close> at the
  time of the open, \<open>alloc\<close> says whether the allocation of that many bytes succeeds.
\<close>

type_synonym ramdisk = "u8 \<Rightarrow> bytes option"

definition RamDiskOpen ::
  "nat \<Rightarrow> (u8 \<Rightarrow> u32) \<Rightarrow> (u8 \<Rightarrow> bool) \<Rightarrow> u8 \<Rightarrow> BDEVOPENMODE \<Rightarrow> ramdisk \<Rightarrow> red_err option \<times> ramdisk" where
  "RamDiskOpen blocksize blocks alloc bVol mode gapbRamDisk =
     (case gapbRamDisk bVol of
        None \<Rightarrow>
          (if alloc bVol
           then (None, gapbRamDisk(bVol \<mapsto> replicate (unat (blocks bVol) * blocksize) 0))
           else (Some RED_EIO, gapbRamDisk))
      | Some _ \<Rightarrow> (None, gapbRamDisk))"

definition RamDiskClose :: "u8 \<Rightarrow> ramdisk \<Rightarrow> red_err option \<times> ramdisk" where
  "RamDiskClose bVol gapbRamDisk =
     (if gapbRamDisk bVol = None then (Some RED_EINVAL, gapbRamDisk) else (None, gapbRamDisk))"

definition RamDiskRead ::
  "(u8 \<Rightarrow> VOLCONF) \<Rightarrow> u8 \<Rightarrow> u64 \<Rightarrow> u32 \<Rightarrow> ramdisk \<Rightarrow> (red_err option \<times> bytes) \<times> ramdisk" where
  "RamDiskRead vc bVol ullSectorStart ulSectorCount gapbRamDisk =
     (case gapbRamDisk bVol of
        None \<Rightarrow> ((Some RED_EINVAL, []), gapbRamDisk)
      | Some mem \<Rightarrow>
          (let ullByteOffset = ullSectorStart * ucast (ulSectorSize (vc bVol));
               ulByteCount = ulSectorCount * ulSectorSize (vc bVol)
           in ((None, RedMemCpyUnchecked (replicate (unat ulByteCount) 0)
                        (drop (unat ullByteOffset) mem) (unat ulByteCount)), gapbRamDisk)))"

definition RamDiskWrite ::
  "(u8 \<Rightarrow> VOLCONF) \<Rightarrow> u8 \<Rightarrow> u64 \<Rightarrow> u32 \<Rightarrow> bytes \<Rightarrow> ramdisk \<Rightarrow> red_err option \<times> ramdisk" where
  "RamDiskWrite vc bVol ullSectorStart ulSectorCount pBuffer gapbRamDisk =
     (case gapbRamDisk bVol of
        None \<Rightarrow> (Some RED_EINVAL, gapbRamDisk)
      | Some mem \<Rightarrow>
          (let ullByteOffset = ullSectorStart * ucast (ulSectorSize (vc bVol));
               ulByteCount = ulSectorCount * ulSectorSize (vc bVol)
           in (None, gapbRamDisk(bVol \<mapsto>
                 take (unat ullByteOffset) mem
                 @ RedMemCpyUnchecked (drop (unat ullByteOffset) mem) pBuffer (unat ulByteCount)))))"

definition RamDiskFlush :: "u8 \<Rightarrow> ramdisk \<Rightarrow> red_err option \<times> ramdisk" where
  "RamDiskFlush bVol gapbRamDisk =
     (if gapbRamDisk bVol = None then (Some RED_EINVAL, gapbRamDisk) else (None, gapbRamDisk))"

section \<open>The device interface\<close>

text \<open>Where a run of sectors lies, in bytes.\<close>

definition sec_bytes :: "'d redconf \<Rightarrow> u8 \<Rightarrow> nat \<Rightarrow> nat" where
  "sec_bytes cf v n = n * unat (ulSectorSize (gaRedVolConf cf v))"

text \<open>
  \<open>dbyte d v k\<close> is byte \<open>k\<close> of the disk of volume \<open>v\<close> and \<open>dsize d v\<close> the number of its bytes
  that can be accessed, 0 while it is closed. A failing write may leave anything in the sectors
  it was asked to write, and changes nothing else.
\<close>

locale block_device =
  fixes cf :: "'d redconf"
    and dbyte :: "'d \<Rightarrow> u8 \<Rightarrow> nat \<Rightarrow> u8"
    and dsize :: "'d \<Rightarrow> u8 \<Rightarrow> nat"
  assumes read_state:
      "\<lbrakk>sec_bytes cf v (unat a + unat n) \<le> dsize d v; sec_bytes cf v (unat n) < 2 ^ 32;
        DiskRead cf v a n d = ((r, b), d')\<rbrakk> \<Longrightarrow>
       length b = sec_bytes cf v (unat n) \<and> dbyte d' = dbyte d \<and> dsize d' = dsize d"
    and read_ok:
      "\<lbrakk>sec_bytes cf v (unat a + unat n) \<le> dsize d v; sec_bytes cf v (unat n) < 2 ^ 32;
        DiskRead cf v a n d = ((None, b), d')\<rbrakk> \<Longrightarrow>
       b = map (dbyte d v) [sec_bytes cf v (unat a)..<sec_bytes cf v (unat a + unat n)]"
    and write_state:
      "\<lbrakk>sec_bytes cf v (unat a + unat n) \<le> dsize d v; sec_bytes cf v (unat n) < 2 ^ 32;
        sec_bytes cf v (unat n) \<le> length b; DiskWrite cf v a n b d = (r, d')\<rbrakk> \<Longrightarrow>
       dsize d' = dsize d \<and>
       (\<forall>w k. w \<noteq> v \<or> k < sec_bytes cf v (unat a) \<or> sec_bytes cf v (unat a + unat n) \<le> k
          \<longrightarrow> dbyte d' w k = dbyte d w k)"
    and write_ok:
      "\<lbrakk>sec_bytes cf v (unat a + unat n) \<le> dsize d v; sec_bytes cf v (unat n) < 2 ^ 32;
        sec_bytes cf v (unat n) \<le> length b; DiskWrite cf v a n b d = (None, d');
        sec_bytes cf v (unat a) \<le> k; k < sec_bytes cf v (unat a + unat n)\<rbrakk> \<Longrightarrow>
       dbyte d' v k = b ! (k - sec_bytes cf v (unat a))"
    and flush_state:
      "DiskFlush cf v d = (r, d') \<Longrightarrow> dbyte d' = dbyte d \<and> dsize d' = dsize d"

section \<open>The RAM disk provides it\<close>

definition ram_byte :: "ramdisk \<Rightarrow> u8 \<Rightarrow> nat \<Rightarrow> u8" where
  "ram_byte d v k = (case d v of None \<Rightarrow> 0 | Some mem \<Rightarrow> mem ! k)"

definition ram_size :: "ramdisk \<Rightarrow> u8 \<Rightarrow> nat" where
  "ram_size d v = (case d v of None \<Rightarrow> 0 | Some mem \<Rightarrow> if length mem < 2 ^ 64 then length mem else 0)"

definition with_ramdisk :: "(u8 \<Rightarrow> u32) \<Rightarrow> (u8 \<Rightarrow> bool) \<Rightarrow> ramdisk redconf \<Rightarrow> ramdisk redconf" where
  "with_ramdisk blocks alloc cf =
     cf\<lparr>DiskOpen := RamDiskOpen (REDCONF_BLOCK_SIZE cf) blocks alloc, DiskClose := RamDiskClose,
        DiskRead := RamDiskRead (gaRedVolConf cf), DiskWrite := RamDiskWrite (gaRedVolConf cf),
        DiskFlush := RamDiskFlush\<rparr>"

lemma unat_mult32: "unat n * unat m < 2 ^ 32 \<Longrightarrow> unat (n * m :: u32) = unat n * unat m"
  by (simp add: unat_word_ariths)

lemma unat_mult64: "unat a * unat m < 2 ^ 64 \<Longrightarrow> unat (a * ucast (m :: u32) :: u64) = unat a * unat m"
proof -
  have "unat (ucast m :: u64) = unat m"
    using unsigned_less [of m, where ?'a = nat] by (simp add: unsigned_ucast_eq take_bit_nat_eq_self)
  then show "unat a * unat m < 2 ^ 64 \<Longrightarrow> ?thesis" by (simp add: unat_word_ariths)
qed

text \<open>Offsets inside the memory of the disk do not wrap.\<close>

lemma ram_offsets:
  assumes "sec_bytes cf v (unat (a :: u64) + unat (n :: u32)) \<le> length (mem :: bytes)"
    and "length mem < 2 ^ 64" and "sec_bytes cf v (unat n) < 2 ^ 32"
  shows "unat (a * ucast (ulSectorSize (gaRedVolConf cf v)) :: u64) = sec_bytes cf v (unat a)"
    and "unat (n * ulSectorSize (gaRedVolConf cf v)) = sec_bytes cf v (unat n)"
    and "sec_bytes cf v (unat a + unat n) = sec_bytes cf v (unat a) + sec_bytes cf v (unat n)"
proof -
  show add: "sec_bytes cf v (unat a + unat n) = sec_bytes cf v (unat a) + sec_bytes cf v (unat n)"
    by (simp add: sec_bytes_def distrib_right)
  then have "sec_bytes cf v (unat a) < 2 ^ 64" using assms by simp
  then show "unat (a * ucast (ulSectorSize (gaRedVolConf cf v)) :: u64) = sec_bytes cf v (unat a)"
    unfolding sec_bytes_def by (rule unat_mult64)
  show "unat (n * ulSectorSize (gaRedVolConf cf v)) = sec_bytes cf v (unat n)"
    using assms(3) unfolding sec_bytes_def by (rule unat_mult32)
qed

lemma with_ramdisk_sel [simp]:
  "DiskRead (with_ramdisk blocks alloc cf) = RamDiskRead (gaRedVolConf cf)"
  "DiskWrite (with_ramdisk blocks alloc cf) = RamDiskWrite (gaRedVolConf cf)"
  "DiskFlush (with_ramdisk blocks alloc cf) = RamDiskFlush"
  "sec_bytes (with_ramdisk blocks alloc cf) = sec_bytes cf"
  by (simp_all add: with_ramdisk_def sec_bytes_def fun_eq_iff)

lemma RamDiskRead_spec:
  assumes "sec_bytes cf v (unat a + unat n) \<le> ram_size d v" and "sec_bytes cf v (unat n) < 2 ^ 32"
    and "RamDiskRead (gaRedVolConf cf) v a n d = ((r, b), d')"
  shows "d' = d \<and> length b = sec_bytes cf v (unat n) \<and>
    (r = None \<longrightarrow> b = map (ram_byte d v) [sec_bytes cf v (unat a)..<sec_bytes cf v (unat a + unat n)])"
proof (cases "d v")
  case None
  then show ?thesis using assms by (auto simp: RamDiskRead_def ram_size_def sec_bytes_def)
next
  case (Some mem)
  show ?thesis
  proof (cases "length mem < 2 ^ 64")
    case False
    then have "sec_bytes cf v (unat a + unat n) = 0" using assms(1) Some by (simp add: ram_size_def)
    then show ?thesis using assms(3) Some
      by (auto simp: RamDiskRead_def sec_bytes_def Let_def RedMemCpyUnchecked_eq unat_word_ariths)
  next
    case True
    have fit: "sec_bytes cf v (unat a + unat n) \<le> length mem" using assms(1) Some True by (simp add: ram_size_def)
    note o = ram_offsets [OF fit True assms(2)]
    have "b = take (sec_bytes cf v (unat n)) (drop (sec_bytes cf v (unat a)) mem)"
      using assms(3) Some fit o by (simp add: RamDiskRead_def Let_def RedMemCpyUnchecked_eq)
    then show ?thesis
      using assms(3) Some fit o
      by (auto simp: RamDiskRead_def Let_def ram_byte_def intro!: nth_equalityI)
  qed
qed

lemma RamDiskWrite_spec:
  assumes "sec_bytes cf v (unat a + unat n) \<le> ram_size d v" and "sec_bytes cf v (unat n) < 2 ^ 32"
    and "sec_bytes cf v (unat n) \<le> length b"
    and "RamDiskWrite (gaRedVolConf cf) v a n b d = (r, d')"
  shows "ram_size d' = ram_size d \<and>
    (r = None \<longrightarrow> (\<forall>w k. ram_byte d' w k =
      (if w = v \<and> sec_bytes cf v (unat a) \<le> k \<and> k < sec_bytes cf v (unat a + unat n)
       then b ! (k - sec_bytes cf v (unat a)) else ram_byte d w k))) \<and> (r \<noteq> None \<longrightarrow> d' = d)"
proof (cases "d v")
  case None
  then show ?thesis using assms(4) by (auto simp: RamDiskWrite_def)
next
  case (Some mem)
  show ?thesis
  proof (cases "length mem < 2 ^ 64")
    case False
    then have z: "sec_bytes cf v (unat a + unat n) = 0" using assms(1) Some by (simp add: ram_size_def)
    then have "unat n * unat (ulSectorSize (gaRedVolConf cf v)) = 0" by (auto simp: sec_bytes_def)
    then have "n * ulSectorSize (gaRedVolConf cf v) = 0"
      by (metis mult_is_0 unat_eq_zero mult_zero_left mult_zero_right)
    then have "d' = d \<and> r = None" using assms(4) Some
      by (auto simp: RamDiskWrite_def Let_def RedMemCpyUnchecked_eq fun_upd_idem)
    then show ?thesis using z by simp
  next
    case True
    have fit: "sec_bytes cf v (unat a + unat n) \<le> length mem" using assms(1) Some True by (simp add: ram_size_def)
    note o = ram_offsets [OF fit True assms(2)]
    let ?A = "sec_bytes cf v (unat a)" and ?N = "sec_bytes cf v (unat n)"
    have d': "d' = d(v \<mapsto> take ?A mem @ take ?N b @ drop ?N (drop ?A mem))" and r: "r = None"
      using assms(3,4) Some fit o
      by (simp_all add: RamDiskWrite_def Let_def RedMemCpyUnchecked_eq del: drop_drop)
    have sz: "ram_size d' = ram_size d"
      using fit o assms(3) Some by (auto simp: d' ram_size_def fun_eq_iff)
    have "ram_byte d' w k = (if w = v \<and> ?A \<le> k \<and> k < ?A + ?N then b ! (k - ?A) else ram_byte d w k)" for w k
    proof (cases "w = v")
      case True
      have l: "length (take ?A mem) = ?A" "length (take ?N b) = ?N" using fit o assms(3) by auto
      consider "k < ?A" | "\<not> k < ?A" "?A \<le> k" "k - ?A < ?N" "k < ?A + ?N"
        | "\<not> k < ?A" "?A \<le> k" "\<not> k - ?A < ?N" "\<not> k < ?A + ?N" by linarith
      then show ?thesis
        using True Some fit o(3) by cases (simp_all add: d' ram_byte_def nth_append l del: length_take)
    next
      case False
      then show ?thesis by (auto simp: d' ram_byte_def)
    qed
    then show ?thesis using sz r o(3) by simp
  qed
qed

interpretation ram: block_device "with_ramdisk blocks alloc cf" ram_byte ram_size for blocks alloc cf
proof unfold_locales
  fix v :: u8 and a :: u64 and n :: u32 and d :: ramdisk and r b d'
  assume "sec_bytes (with_ramdisk blocks alloc cf) v (unat a + unat n) \<le> ram_size d v"
    "sec_bytes (with_ramdisk blocks alloc cf) v (unat n) < 2 ^ 32"
    "DiskRead (with_ramdisk blocks alloc cf) v a n d = ((r, b), d')"
  then show "length b = sec_bytes (with_ramdisk blocks alloc cf) v (unat n) \<and>
      ram_byte d' = ram_byte d \<and> ram_size d' = ram_size d"
    using RamDiskRead_spec by fastforce
next
  fix v :: u8 and a :: u64 and n :: u32 and d :: ramdisk and b d'
  assume "sec_bytes (with_ramdisk blocks alloc cf) v (unat a + unat n) \<le> ram_size d v"
    "sec_bytes (with_ramdisk blocks alloc cf) v (unat n) < 2 ^ 32"
    "DiskRead (with_ramdisk blocks alloc cf) v a n d = ((None, b), d')"
  then show "b = map (ram_byte d v) [sec_bytes (with_ramdisk blocks alloc cf) v (unat a)..<
      sec_bytes (with_ramdisk blocks alloc cf) v (unat a + unat n)]"
    using RamDiskRead_spec by fastforce
next
  fix v :: u8 and a :: u64 and n :: u32 and d :: ramdisk and b r d'
  assume "sec_bytes (with_ramdisk blocks alloc cf) v (unat a + unat n) \<le> ram_size d v"
    "sec_bytes (with_ramdisk blocks alloc cf) v (unat n) < 2 ^ 32"
    "sec_bytes (with_ramdisk blocks alloc cf) v (unat n) \<le> length b"
    "DiskWrite (with_ramdisk blocks alloc cf) v a n b d = (r, d')"
  note w = RamDiskWrite_spec [OF this [unfolded with_ramdisk_sel]]
  then show "ram_size d' = ram_size d \<and>
      (\<forall>w k. w \<noteq> v \<or> k < sec_bytes (with_ramdisk blocks alloc cf) v (unat a)
        \<or> sec_bytes (with_ramdisk blocks alloc cf) v (unat a + unat n) \<le> k
        \<longrightarrow> ram_byte d' w k = ram_byte d w k)"
    by (cases r) (auto split: if_splits)
next
  fix v :: u8 and a :: u64 and n :: u32 and d :: ramdisk and b d' k
  assume "sec_bytes (with_ramdisk blocks alloc cf) v (unat a + unat n) \<le> ram_size d v"
    "sec_bytes (with_ramdisk blocks alloc cf) v (unat n) < 2 ^ 32"
    "sec_bytes (with_ramdisk blocks alloc cf) v (unat n) \<le> length b"
    "DiskWrite (with_ramdisk blocks alloc cf) v a n b d = (None, d')"
  note w = RamDiskWrite_spec [OF this [unfolded with_ramdisk_sel]]
  assume "sec_bytes (with_ramdisk blocks alloc cf) v (unat a) \<le> k"
    "k < sec_bytes (with_ramdisk blocks alloc cf) v (unat a + unat n)"
  then show "ram_byte d' v k = b ! (k - sec_bytes (with_ramdisk blocks alloc cf) v (unat a))"
    using w by simp
next
  fix v :: u8 and d :: ramdisk and r d'
  assume "DiskFlush (with_ramdisk blocks alloc cf) v d = (r, d')"
  then show "ram_byte d' = ram_byte d \<and> ram_size d' = ram_size d"
    by (simp add: RamDiskFlush_def split: if_splits)
qed

end
