(* ===== verification/DiskDrivers.thy ===== *)
theory DiskDrivers
  imports BlockDev
begin

text \<open>
  The other device implementations of \<^verbatim>\<open>os/freertos/services/osbdev.c\<close>, one of which is chosen by
  \<^verbatim>\<open>BDEV_EXAMPLE_IMPLEMENTATION\<close>: a driver written for FreeRTOS+FAT SL (\<open>F_\<close>), one written for FatFs
  (\<open>Fat\<close>), the SD/MMC driver of the Atmel Studio Framework (\<open>Atmel\<close>) and the SDIO driver of STM32
  (\<open>Stm\<close>). The vendors' functions are parameters: the fields of a record, functions of the state \<open>'d\<close>
  of the device. A status is \<open>True\<close> where the code compares it with the vendor's success code.
  A function that reads returns the bytes it stored, also when it fails.
\<close>

datatype bdev_example = BDEV_F_DRIVER | BDEV_FATFS | BDEV_ATMEL_SDMMC | BDEV_STM32_SDIO | BDEV_RAM_DISK

text \<open>
  \<open>buf_put off n data buf\<close> is the buffer, of which \<open>buf\<close> has been written so far, after a vendor's
  function has stored the \<open>n\<close> bytes of some sectors at offset \<open>off\<close>.
\<close>

definition buf_put :: "nat \<Rightarrow> nat \<Rightarrow> bytes \<Rightarrow> bytes \<Rightarrow> bytes" where
  "buf_put off n data buf =
     take off buf @ take n (data @ replicate n 0) @ drop (off + n) buf"

definition upd_at :: "u8 \<Rightarrow> 'a \<Rightarrow> (u8 \<Rightarrow> 'a) \<Rightarrow> u8 \<Rightarrow> 'a" where
  "upd_at v x f = (\<lambda>w. if w = v then x else f w)"

lemma unat_diff_less: "(i :: u32) < n \<Longrightarrow> unat (n - i) = unat n - unat i"
  by (simp add: unat_sub order_less_imp_le)

lemma index_progress:
  assumes "(i :: u32) < n"
  shows "unat (n - (i + 1)) < unat (n - i)"
proof -
  have lt: "unat i < unat n" using assms by (simp add: word_less_nat_alt)
  have "unat n < 2 ^ 32" using unsigned_less [of n, where ?'a = nat] by simp
  then have one: "unat (i + 1) = unat i + 1" using lt by (simp add: unat_word_ariths)
  then have "i + 1 \<le> n" using lt by (simp add: word_le_nat_alt)
  then have "unat (n - (i + 1)) = unat n - (unat i + 1)" using one by (simp add: unat_sub)
  then show ?thesis using lt unat_diff_less [OF assms] by simp
qed

section \<open>The F\_DRIVER implementation\<close>

record F_PHY =
  number_of_sectors :: nat
  bytes_per_sector :: nat

record 'd F_DRIVER =
  getphy :: "'d \<Rightarrow> (bool \<times> F_PHY) \<times> 'd"
  release :: "'d \<Rightarrow> 'd"
  readsector :: "u32 \<Rightarrow> 'd \<Rightarrow> (bool \<times> bytes) \<times> 'd"
  writesector :: "bytes \<Rightarrow> u32 \<Rightarrow> 'd \<Rightarrow> bool \<times> 'd"

record 'd f_state =
  gapFDriver :: "u8 \<Rightarrow> 'd F_DRIVER option"
  f_dev :: "'d"

text \<open>
  \<open>init\<close> is the pointer \<^verbatim>\<open>gpfnRedOsBDevInit\<close>, \<open>None\<close> when it is null; \<^verbatim>\<open>unsigned long\<close> has 32 bits.
\<close>

definition F_DiskOpen ::
  "(u8 \<Rightarrow> 'd \<Rightarrow> 'd F_DRIVER option \<times> 'd) option \<Rightarrow> (u8 \<Rightarrow> VOLCONF) \<Rightarrow> u8 \<Rightarrow> BDEVOPENMODE \<Rightarrow>
   'd f_state \<Rightarrow> red_err option \<times> 'd f_state" where
  "F_DiskOpen init vc bVol mode fs =
     (case init of
        None \<Rightarrow> (Some RED_EINVAL, fs)
      | Some gpfnRedOsBDevInit \<Rightarrow>
          if gapFDriver fs bVol \<noteq> None then (Some RED_EINVAL, fs)
          else case gpfnRedOsBDevInit bVol (f_dev fs) of
            (None, d) \<Rightarrow> (Some RED_EIO, fs\<lparr>f_dev := d\<rparr>)
          | (Some pDriver, d) \<Rightarrow>
              (case getphy pDriver d of
                 ((ok, geom), d') \<Rightarrow>
                   if \<not> ok then (Some RED_EIO, fs\<lparr>f_dev := release pDriver d'\<rparr>)
                   else if bytes_per_sector geom \<noteq> unat (ulSectorSize (vc bVol))
                     \<or> number_of_sectors geom < unat (ullSectorCount (vc bVol))
                   then (Some RED_EINVAL, fs\<lparr>f_dev := release pDriver d'\<rparr>)
                   else (None, fs\<lparr>gapFDriver := upd_at bVol (Some pDriver) (gapFDriver fs), f_dev := d'\<rparr>)))"

definition F_DiskClose :: "u8 \<Rightarrow> 'd f_state \<Rightarrow> red_err option \<times> 'd f_state" where
  "F_DiskClose bVol fs =
     (case gapFDriver fs bVol of
        None \<Rightarrow> (Some RED_EINVAL, fs)
      | Some pDriver \<Rightarrow>
          (None, fs\<lparr>gapFDriver := upd_at bVol None (gapFDriver fs), f_dev := release pDriver (f_dev fs)\<rparr>))"

function f_read_loop ::
  "'d F_DRIVER \<Rightarrow> u32 \<Rightarrow> u64 \<Rightarrow> u32 \<Rightarrow> u32 \<Rightarrow> bytes \<Rightarrow> 'd \<Rightarrow> (red_err option \<times> bytes) \<times> 'd" where
  "f_read_loop pDriver ulSectorSize' ullSectorStart ulSectorCount ulSectorIdx buf d =
     (if ulSectorIdx < ulSectorCount
      then case readsector pDriver (ucast (ullSectorStart + ucast ulSectorIdx)) d of
        ((ok, data), d') \<Rightarrow>
          (let buf' = buf_put (unat (ulSectorIdx * ulSectorSize')) (unat ulSectorSize') data buf
           in if ok
              then f_read_loop pDriver ulSectorSize' ullSectorStart ulSectorCount (ulSectorIdx + 1) buf' d'
              else ((Some RED_EIO, buf'), d'))
      else ((None, buf), d))"
  by pat_completeness auto

termination
  by (relation "measure (\<lambda>(p, z, s, n, i, b, d). unat (n - i))")
     (auto simp: index_progress)

definition F_DiskRead ::
  "(u8 \<Rightarrow> VOLCONF) \<Rightarrow> u8 \<Rightarrow> u64 \<Rightarrow> u32 \<Rightarrow> 'd f_state \<Rightarrow> (red_err option \<times> bytes) \<times> 'd f_state" where
  "F_DiskRead vc bVol ullSectorStart ulSectorCount fs =
     (case gapFDriver fs bVol of
        None \<Rightarrow> ((Some RED_EINVAL, []), fs)
      | Some pDriver \<Rightarrow>
          (case f_read_loop pDriver (ulSectorSize (vc bVol)) ullSectorStart ulSectorCount 0 [] (f_dev fs) of
             (r, d) \<Rightarrow> (r, fs\<lparr>f_dev := d\<rparr>)))"

function f_write_loop ::
  "'d F_DRIVER \<Rightarrow> u32 \<Rightarrow> u64 \<Rightarrow> u32 \<Rightarrow> bytes \<Rightarrow> u32 \<Rightarrow> 'd \<Rightarrow> red_err option \<times> 'd" where
  "f_write_loop pDriver ulSectorSize' ullSectorStart ulSectorCount pbBuffer ulSectorIdx d =
     (if ulSectorIdx < ulSectorCount
      then case writesector pDriver (drop (unat (ulSectorIdx * ulSectorSize')) pbBuffer)
                  (ucast (ullSectorStart + ucast ulSectorIdx)) d of
        (ok, d') \<Rightarrow>
          if ok then f_write_loop pDriver ulSectorSize' ullSectorStart ulSectorCount pbBuffer (ulSectorIdx + 1) d'
          else (Some RED_EIO, d')
      else (None, d))"
  by pat_completeness auto

termination
  by (relation "measure (\<lambda>(p, z, s, n, b, i, d). unat (n - i))")
     (auto simp: index_progress)

definition F_DiskWrite ::
  "(u8 \<Rightarrow> VOLCONF) \<Rightarrow> u8 \<Rightarrow> u64 \<Rightarrow> u32 \<Rightarrow> bytes \<Rightarrow> 'd f_state \<Rightarrow> red_err option \<times> 'd f_state" where
  "F_DiskWrite vc bVol ullSectorStart ulSectorCount pBuffer fs =
     (case gapFDriver fs bVol of
        None \<Rightarrow> (Some RED_EINVAL, fs)
      | Some pDriver \<Rightarrow>
          (case f_write_loop pDriver (ulSectorSize (vc bVol)) ullSectorStart ulSectorCount pBuffer 0 (f_dev fs) of
             (r, d) \<Rightarrow> (r, fs\<lparr>f_dev := d\<rparr>)))"

definition F_DiskFlush :: "u8 \<Rightarrow> 'd f_state \<Rightarrow> red_err option \<times> 'd f_state" where
  "F_DiskFlush bVol fs = (if gapFDriver fs bVol = None then (Some RED_EINVAL, fs) else (None, fs))"

section \<open>The loops over several sectors\<close>

text \<open>
  The FatFs and the Atmel implementations read and write with the same loop; the vendor's functions
  take the number of sectors as a byte or as a 16-bit integer.
\<close>

definition MAX_SECTOR_TRANSFER :: "bdev_example \<Rightarrow> u32" where
  "MAX_SECTOR_TRANSFER b = (if b = BDEV_FATFS then 255 else 65535)"

lemma MAX_SECTOR_TRANSFER_pos: "0 < unat (MAX_SECTOR_TRANSFER b)"
  by (simp add: MAX_SECTOR_TRANSFER_def)

lemma transfer_progress:
  assumes "(i :: u32) < n"
  shows "unat (n - (i + min (n - i) (MAX_SECTOR_TRANSFER b))) < unat (n - i)"
    and "unat (i + min (n - i) (MAX_SECTOR_TRANSFER b)) = unat i + unat (min (n - i) (MAX_SECTOR_TRANSFER b))"
    and "0 < unat (min (n - i) (MAX_SECTOR_TRANSFER b))"
    and "unat i + unat (min (n - i) (MAX_SECTOR_TRANSFER b)) \<le> unat n"
proof -
  let ?t = "min (n - i) (MAX_SECTOR_TRANSFER b)"
  have ni: "unat (n - i) = unat n - unat i" "unat i < unat n"
    using assms by (simp_all add: unat_diff_less word_less_nat_alt)
  have t: "unat ?t \<le> unat n - unat i"
    using ni by (simp add: min_def word_le_nat_alt)
  show pos: "0 < unat ?t"
    using ni MAX_SECTOR_TRANSFER_pos [of b] by (simp add: min_def)
  show le: "unat i + unat ?t \<le> unat n" using t ni by simp
  have "unat n < 2 ^ 32" using unsigned_less [of n, where ?'a = nat] by simp
  then show add: "unat (i + ?t) = unat i + unat ?t"
    using le by (simp add: unat_word_ariths)
  have "i + ?t \<le> n" using add le by (simp add: word_le_nat_alt)
  then have "unat (n - (i + ?t)) = unat n - (unat i + unat ?t)" using add by (simp add: unat_sub)
  then show "unat (n - (i + ?t)) < unat (n - i)" using ni pos le by simp
qed

function multi_read ::
  "bdev_example \<Rightarrow> (u32 \<Rightarrow> u32 \<Rightarrow> 'd \<Rightarrow> (bool \<times> bytes) \<times> 'd) \<Rightarrow> u32 \<Rightarrow> u64 \<Rightarrow> u32 \<Rightarrow> u32 \<Rightarrow> bytes \<Rightarrow> 'd \<Rightarrow>
   (red_err option \<times> bytes) \<times> 'd" where
  "multi_read b rd ulSectorSize' ullSectorStart ulSectorCount ulSectorIdx buf d =
     (if ulSectorIdx < ulSectorCount
      then (let ulTransfer = min (ulSectorCount - ulSectorIdx) (MAX_SECTOR_TRANSFER b) in
        case rd (ucast (ullSectorStart + ucast ulSectorIdx)) ulTransfer d of
          ((ok, data), d') \<Rightarrow>
            (let buf' = buf_put (unat (ulSectorIdx * ulSectorSize'))
                          (unat ulTransfer * unat ulSectorSize') data buf
             in if ok
                then multi_read b rd ulSectorSize' ullSectorStart ulSectorCount
                       (ulSectorIdx + ulTransfer) buf' d'
                else ((Some RED_EIO, buf'), d')))
      else ((None, buf), d))"
  by pat_completeness auto

termination
  by (relation "measure (\<lambda>(b, r, z, s, n, i, c, d). unat (n - i))") (auto simp: transfer_progress(1))

function multi_write ::
  "bdev_example \<Rightarrow> (bytes \<Rightarrow> u32 \<Rightarrow> u32 \<Rightarrow> 'd \<Rightarrow> bool \<times> 'd) \<Rightarrow> u32 \<Rightarrow> u64 \<Rightarrow> u32 \<Rightarrow> bytes \<Rightarrow> u32 \<Rightarrow> 'd \<Rightarrow>
   red_err option \<times> 'd" where
  "multi_write b wr ulSectorSize' ullSectorStart ulSectorCount pbBuffer ulSectorIdx d =
     (if ulSectorIdx < ulSectorCount
      then (let ulTransfer = min (ulSectorCount - ulSectorIdx) (MAX_SECTOR_TRANSFER b) in
        case wr (drop (unat (ulSectorIdx * ulSectorSize')) pbBuffer)
               (ucast (ullSectorStart + ucast ulSectorIdx)) ulTransfer d of
          (ok, d') \<Rightarrow>
            if ok
            then multi_write b wr ulSectorSize' ullSectorStart ulSectorCount pbBuffer
                   (ulSectorIdx + ulTransfer) d'
            else (Some RED_EIO, d'))
      else (None, d))"
  by pat_completeness auto

termination
  by (relation "measure (\<lambda>(b, w, z, s, n, c, i, d). unat (n - i))") (auto simp: transfer_progress(1))

section \<open>The FatFs implementation\<close>

text \<open>
  \<^verbatim>\<open>disk_ioctl\<close> is a field for each command the code gives it; \<^verbatim>\<open>WORD\<close> and \<^verbatim>\<open>DWORD\<close> are 16 and 32 bits.
  \<open>fat_delay\<close> is \<^verbatim>\<open>vTaskDelay\<close> of half a second.
\<close>

record 'd fat_driver =
  disk_initialize :: "u8 \<Rightarrow> 'd \<Rightarrow> bool \<times> 'd"
  disk_read :: "u8 \<Rightarrow> u32 \<Rightarrow> u8 \<Rightarrow> 'd \<Rightarrow> (bool \<times> bytes) \<times> 'd"
  disk_write :: "u8 \<Rightarrow> bytes \<Rightarrow> u32 \<Rightarrow> u8 \<Rightarrow> 'd \<Rightarrow> bool \<times> 'd"
  GET_SECTOR_SIZE :: "u8 \<Rightarrow> 'd \<Rightarrow> (bool \<times> u16) \<times> 'd"
  GET_SECTOR_COUNT :: "u8 \<Rightarrow> 'd \<Rightarrow> (bool \<times> u32) \<times> 'd"
  CTRL_SYNC :: "u8 \<Rightarrow> 'd \<Rightarrow> bool \<times> 'd"
  fat_delay :: "'d \<Rightarrow> 'd"

text \<open>The loop counts the tries that are left; the status is that of the last one.\<close>

fun fat_init_loop :: "'d fat_driver \<Rightarrow> u8 \<Rightarrow> nat \<Rightarrow> bool \<Rightarrow> 'd \<Rightarrow> bool \<times> 'd" where
  "fat_init_loop L bVol 0 status d = (status, d)"
| "fat_init_loop L bVol (Suc left) status d =
     (case disk_initialize L bVol d of
        (True, d') \<Rightarrow> (True, d')
      | (False, d') \<Rightarrow> fat_init_loop L bVol left False (fat_delay L d'))"

definition FatDiskOpen ::
  "'d fat_driver \<Rightarrow> (u8 \<Rightarrow> VOLCONF) \<Rightarrow> u8 \<Rightarrow> BDEVOPENMODE \<Rightarrow> 'd \<Rightarrow> red_err option \<times> 'd" where
  "FatDiskOpen L vc bVol mode d =
     (case fat_init_loop L bVol 20 False d of
        (False, d1) \<Rightarrow> (Some RED_EIO, d1)
      | (True, d1) \<Rightarrow>
          (case GET_SECTOR_SIZE L bVol d1 of
             ((False, wSectorSize), d2) \<Rightarrow> (Some RED_EIO, d2)
           | ((True, wSectorSize), d2) \<Rightarrow>
               (case GET_SECTOR_COUNT L bVol d2 of
                  ((False, dwSectorCount), d3) \<Rightarrow> (Some RED_EIO, d3)
                | ((True, dwSectorCount), d3) \<Rightarrow>
                    if ucast wSectorSize \<noteq> ulSectorSize (vc bVol)
                      \<or> ucast dwSectorCount < ullSectorCount (vc bVol)
                    then (Some RED_EINVAL, d3) else (None, d3))))"

definition FatDiskClose :: "u8 \<Rightarrow> 'd \<Rightarrow> red_err option \<times> 'd" where
  "FatDiskClose bVol d = (None, d)"

definition FatDiskRead ::
  "'d fat_driver \<Rightarrow> (u8 \<Rightarrow> VOLCONF) \<Rightarrow> u8 \<Rightarrow> u64 \<Rightarrow> u32 \<Rightarrow> 'd \<Rightarrow> (red_err option \<times> bytes) \<times> 'd" where
  "FatDiskRead L vc bVol ullSectorStart ulSectorCount d =
     multi_read BDEV_FATFS (\<lambda>sector count. disk_read L bVol sector (ucast count))
       (ulSectorSize (vc bVol)) ullSectorStart ulSectorCount 0 [] d"

definition FatDiskWrite ::
  "'d fat_driver \<Rightarrow> (u8 \<Rightarrow> VOLCONF) \<Rightarrow> u8 \<Rightarrow> u64 \<Rightarrow> u32 \<Rightarrow> bytes \<Rightarrow> 'd \<Rightarrow> red_err option \<times> 'd" where
  "FatDiskWrite L vc bVol ullSectorStart ulSectorCount pBuffer d =
     multi_write BDEV_FATFS (\<lambda>buf sector count. disk_write L bVol buf sector (ucast count))
       (ulSectorSize (vc bVol)) ullSectorStart ulSectorCount pBuffer 0 d"

definition FatDiskFlush :: "'d fat_driver \<Rightarrow> u8 \<Rightarrow> 'd \<Rightarrow> red_err option \<times> 'd" where
  "FatDiskFlush L bVol d = (case CTRL_SYNC L bVol d of (ok, d') \<Rightarrow> (if ok then None else Some RED_EIO, d'))"

section \<open>The Atmel implementation\<close>

datatype Ctrl_status = CTRL_GOOD | CTRL_FAIL | CTRL_NO_PRESENT | CTRL_BUSY

record 'd atmel_driver =
  sd_mmc_test_unit_ready :: "u8 \<Rightarrow> 'd \<Rightarrow> Ctrl_status \<times> 'd"
  sd_mmc_wr_protect :: "u8 \<Rightarrow> 'd \<Rightarrow> bool \<times> 'd"
  sd_mmc_read_capacity :: "u8 \<Rightarrow> 'd \<Rightarrow> u32 \<times> 'd"
  sd_mmc_mem_2_ram_multi :: "u8 \<Rightarrow> u32 \<Rightarrow> u16 \<Rightarrow> 'd \<Rightarrow> (bool \<times> bytes) \<times> 'd"
  sd_mmc_ram_2_mem_multi :: "u8 \<Rightarrow> u32 \<Rightarrow> u16 \<Rightarrow> bytes \<Rightarrow> 'd \<Rightarrow> bool \<times> 'd"
  atmel_delay :: "'d \<Rightarrow> 'd"

fun atmel_ready_loop :: "'d atmel_driver \<Rightarrow> u8 \<Rightarrow> nat \<Rightarrow> Ctrl_status \<Rightarrow> 'd \<Rightarrow> Ctrl_status \<times> 'd" where
  "atmel_ready_loop L bVol 0 cs d = (cs, d)"
| "atmel_ready_loop L bVol (Suc left) cs d =
     (case sd_mmc_test_unit_ready L bVol d of
        (cs', d') \<Rightarrow>
          if cs' \<noteq> CTRL_NO_PRESENT \<and> cs' \<noteq> CTRL_BUSY then (cs', d')
          else atmel_ready_loop L bVol left cs' (atmel_delay L d'))"

text \<open>The status of \<open>sd_mmc_read_capacity\<close> is ignored by the code; only the last sector is used.\<close>

definition AtmelDiskOpen ::
  "'d atmel_driver \<Rightarrow> (u8 \<Rightarrow> VOLCONF) \<Rightarrow> u8 \<Rightarrow> BDEVOPENMODE \<Rightarrow> 'd \<Rightarrow> red_err option \<times> 'd" where
  "AtmelDiskOpen L vc bVol mode d =
     (case atmel_ready_loop L bVol 20 CTRL_FAIL d of
        (cs, d1) \<Rightarrow>
          if cs \<noteq> CTRL_GOOD then (Some RED_EIO, d1)
          else (case (if mode \<noteq> BDEV_O_RDONLY then sd_mmc_wr_protect L bVol d1 else (False, d1)) of
            (True, d2) \<Rightarrow> (Some RED_EROFS, d2)
          | (False, d2) \<Rightarrow>
              (case sd_mmc_read_capacity L bVol d2 of
                 (ulSectorLast, d3) \<Rightarrow>
                   if ulSectorSize (vc bVol) \<noteq> 512
                     \<or> ucast ulSectorLast + 1 < ullSectorCount (vc bVol)
                   then (Some RED_EINVAL, d3) else (None, d3))))"

definition AtmelDiskClose :: "u8 \<Rightarrow> 'd \<Rightarrow> red_err option \<times> 'd" where
  "AtmelDiskClose bVol d = (None, d)"

definition AtmelDiskRead ::
  "'d atmel_driver \<Rightarrow> (u8 \<Rightarrow> VOLCONF) \<Rightarrow> u8 \<Rightarrow> u64 \<Rightarrow> u32 \<Rightarrow> 'd \<Rightarrow> (red_err option \<times> bytes) \<times> 'd" where
  "AtmelDiskRead L vc bVol ullSectorStart ulSectorCount d =
     multi_read BDEV_ATMEL_SDMMC (\<lambda>sector count. sd_mmc_mem_2_ram_multi L bVol sector (ucast count))
       (ulSectorSize (vc bVol)) ullSectorStart ulSectorCount 0 [] d"

definition AtmelDiskWrite ::
  "'d atmel_driver \<Rightarrow> (u8 \<Rightarrow> VOLCONF) \<Rightarrow> u8 \<Rightarrow> u64 \<Rightarrow> u32 \<Rightarrow> bytes \<Rightarrow> 'd \<Rightarrow> red_err option \<times> 'd" where
  "AtmelDiskWrite L vc bVol ullSectorStart ulSectorCount pBuffer d =
     multi_write BDEV_ATMEL_SDMMC
       (\<lambda>buf sector count. sd_mmc_ram_2_mem_multi L bVol sector (ucast count) buf)
       (ulSectorSize (vc bVol)) ullSectorStart ulSectorCount pBuffer 0 d"

definition AtmelDiskFlush :: "'d atmel_driver \<Rightarrow> u8 \<Rightarrow> 'd \<Rightarrow> red_err option \<times> 'd" where
  "AtmelDiskFlush L bVol d =
     (case sd_mmc_test_unit_ready L bVol d of
        (cs, d') \<Rightarrow> (if cs = CTRL_GOOD then None else Some RED_EIO, d'))"

section \<open>The STM32 implementation\<close>

text \<open>
  The functions of the board support package; addresses are in bytes. \<open>aligned\<close> says whether the
  pointer to the buffer is a multiple of 4. The state has the static variables of the file.
\<close>

datatype HAL_SD_TransferState = SD_TRANSFER_OK | SD_TRANSFER_BUSY | SD_TRANSFER_ERROR

record 'd stm_driver =
  BSP_SD_Init :: "'d \<Rightarrow> bool \<times> 'd"
  BSP_SD_IsDetected :: "'d \<Rightarrow> bool \<times> 'd"
  BSP_SD_CardCapacity :: "'d \<Rightarrow> u64 \<times> 'd"
  BSP_SD_ReadBlocks_DMA :: "u64 \<Rightarrow> u32 \<Rightarrow> u32 \<Rightarrow> 'd \<Rightarrow> (bool \<times> bytes) \<times> 'd"
  BSP_SD_WriteBlocks_DMA :: "bytes \<Rightarrow> u64 \<Rightarrow> u32 \<Rightarrow> u32 \<Rightarrow> 'd \<Rightarrow> bool \<times> 'd"
  BSP_SD_GetStatus :: "'d \<Rightarrow> HAL_SD_TransferState \<times> 'd"

record 'd stm_state =
  fSdInitted :: bool
  gaulAlignedBuffer :: bytes
  stm_dev :: "'d"

definition SD_STATUS_TIMEOUT :: u32 where "SD_STATUS_TIMEOUT = 100000"

lemma timeout_progress:
  assumes "0 < t - (1 :: u32)"
  shows "unat (t - 2) < unat (t - 1)"
proof -
  have "t - 1 \<noteq> 0" using assms by (metis word_greater_zero_iff)
  from unat_minus_one [OF this] assms show ?thesis by (simp add: word_less_nat_alt)
qed

text \<open>The body of the \<^verbatim>\<open>do\<close> loop, with the value of \<^verbatim>\<open>ulTimeout\<close> before it.\<close>

function check_status_loop :: "'d stm_driver \<Rightarrow> u32 \<Rightarrow> 'd \<Rightarrow> HAL_SD_TransferState \<times> 'd" where
  "check_status_loop L ulTimeout d =
     (case BSP_SD_GetStatus L d of
        (transferState, d') \<Rightarrow>
          if transferState = SD_TRANSFER_BUSY \<and> 0 < ulTimeout - 1
          then check_status_loop L (ulTimeout - 1) d' else (transferState, d'))"
  by pat_completeness auto

termination
  by (relation "measure (\<lambda>(L, t, d). unat (t - 1))") (auto simp: timeout_progress)

definition CheckStatus :: "'d stm_driver \<Rightarrow> 'd \<Rightarrow> red_err option \<times> 'd" where
  "CheckStatus L d =
     (case check_status_loop L SD_STATUS_TIMEOUT d of
        (transferState, d') \<Rightarrow> (if transferState \<noteq> SD_TRANSFER_OK then Some RED_EIO else None, d'))"

definition StmDiskOpen ::
  "'d stm_driver \<Rightarrow> (u8 \<Rightarrow> VOLCONF) \<Rightarrow> u8 \<Rightarrow> BDEVOPENMODE \<Rightarrow> 'd stm_state \<Rightarrow>
   red_err option \<times> 'd stm_state" where
  "StmDiskOpen L vc bVol mode fs =
     (let fs1 = (if fSdInitted fs then fs
                 else case BSP_SD_Init L (stm_dev fs) of (ok, d) \<Rightarrow> fs\<lparr>fSdInitted := ok, stm_dev := d\<rparr>)
      in if \<not> fSdInitted fs1 then (Some RED_EIO, fs1)
         else case BSP_SD_IsDetected L (stm_dev fs1) of
           (False, d) \<Rightarrow> (Some RED_EIO, fs1\<lparr>stm_dev := d\<rparr>)
         | (True, d) \<Rightarrow>
             (case BSP_SD_CardCapacity L d of
                (CardCapacity, d') \<Rightarrow>
                  (if ulSectorSize (vc bVol) \<noteq> 512
                     \<or> CardCapacity < ullSectorCount (vc bVol) * ucast (ulSectorSize (vc bVol))
                   then Some RED_EINVAL else None, fs1\<lparr>stm_dev := d'\<rparr>)))"

definition StmDiskClose :: "u8 \<Rightarrow> 'd stm_state \<Rightarrow> red_err option \<times> 'd stm_state" where
  "StmDiskClose bVol fs = (None, fs)"

text \<open>A transfer followed by the wait for its end.\<close>

definition stm_checked :: "'d stm_driver \<Rightarrow> bool \<Rightarrow> 'd \<Rightarrow> red_err option \<times> 'd" where
  "stm_checked L ok d = (if ok then CheckStatus L d else (Some RED_EIO, d))"

function stm_read_loop ::
  "'d stm_driver \<Rightarrow> u32 \<Rightarrow> u64 \<Rightarrow> u32 \<Rightarrow> u32 \<Rightarrow> bytes \<Rightarrow> 'd stm_state \<Rightarrow>
   (red_err option \<times> bytes) \<times> 'd stm_state" where
  "stm_read_loop L ulSectorSize' ullSectorStart ulSectorCount ulSectorIdx buf fs =
     (if ulSectorIdx < ulSectorCount
      then case BSP_SD_ReadBlocks_DMA L ((ullSectorStart + ucast ulSectorIdx) * ucast ulSectorSize')
                  ulSectorSize' 1 (stm_dev fs) of
        ((ok, data), d) \<Rightarrow>
          (case stm_checked L ok d of
             (redStat, d') \<Rightarrow>
               (let fs' = fs\<lparr>gaulAlignedBuffer := buf_put 0 (unat ulSectorSize') data (gaulAlignedBuffer fs),
                             stm_dev := d'\<rparr>
                in if redStat = None
                   then stm_read_loop L ulSectorSize' ullSectorStart ulSectorCount (ulSectorIdx + 1)
                          (buf_put (unat (ulSectorIdx * ulSectorSize')) (unat ulSectorSize')
                             (gaulAlignedBuffer fs') buf) fs'
                   else ((redStat, buf), fs')))
      else ((None, buf), fs))"
  by pat_completeness auto

termination
  by (relation "measure (\<lambda>(L, z, s, n, i, b, d). unat (n - i))") (auto simp: index_progress)

definition StmDiskRead ::
  "'d stm_driver \<Rightarrow> (u8 \<Rightarrow> VOLCONF) \<Rightarrow> bool \<Rightarrow> u8 \<Rightarrow> u64 \<Rightarrow> u32 \<Rightarrow> 'd stm_state \<Rightarrow>
   (red_err option \<times> bytes) \<times> 'd stm_state" where
  "StmDiskRead L vc aligned bVol ullSectorStart ulSectorCount fs =
     (let ulSectorSize' = ulSectorSize (vc bVol) in
      if aligned
      then case BSP_SD_ReadBlocks_DMA L (ullSectorStart * ucast ulSectorSize') ulSectorSize' ulSectorCount
                  (stm_dev fs) of
        ((ok, data), d) \<Rightarrow>
          (case stm_checked L ok d of
             (redStat, d') \<Rightarrow>
               ((redStat, buf_put 0 (unat ulSectorCount * unat ulSectorSize') data []), fs\<lparr>stm_dev := d'\<rparr>))
      else stm_read_loop L ulSectorSize' ullSectorStart ulSectorCount 0 [] fs)"

function stm_write_loop ::
  "'d stm_driver \<Rightarrow> u32 \<Rightarrow> u64 \<Rightarrow> u32 \<Rightarrow> bytes \<Rightarrow> u32 \<Rightarrow> 'd stm_state \<Rightarrow> red_err option \<times> 'd stm_state" where
  "stm_write_loop L ulSectorSize' ullSectorStart ulSectorCount pbBuffer ulSectorIdx fs =
     (if ulSectorIdx < ulSectorCount
      then (let aligned' = buf_put 0 (unat ulSectorSize') (drop (unat (ulSectorIdx * ulSectorSize')) pbBuffer)
                             (gaulAlignedBuffer fs)
            in case BSP_SD_WriteBlocks_DMA L aligned'
                      ((ullSectorStart + ucast ulSectorIdx) * ucast ulSectorSize') ulSectorSize' 1 (stm_dev fs) of
              (ok, d) \<Rightarrow>
                (case stm_checked L ok d of
                   (redStat, d') \<Rightarrow>
                     (let fs' = fs\<lparr>gaulAlignedBuffer := aligned', stm_dev := d'\<rparr>
                      in if redStat \<noteq> None then (redStat, fs')
                         else stm_write_loop L ulSectorSize' ullSectorStart ulSectorCount pbBuffer
                                (ulSectorIdx + 1) fs')))
      else (None, fs))"
  by pat_completeness auto

termination
  by (relation "measure (\<lambda>(L, z, s, n, b, i, d). unat (n - i))") (auto simp: index_progress)

definition StmDiskWrite ::
  "'d stm_driver \<Rightarrow> (u8 \<Rightarrow> VOLCONF) \<Rightarrow> bool \<Rightarrow> u8 \<Rightarrow> u64 \<Rightarrow> u32 \<Rightarrow> bytes \<Rightarrow> 'd stm_state \<Rightarrow>
   red_err option \<times> 'd stm_state" where
  "StmDiskWrite L vc aligned bVol ullSectorStart ulSectorCount pBuffer fs =
     (let ulSectorSize' = ulSectorSize (vc bVol) in
      if aligned
      then case BSP_SD_WriteBlocks_DMA L pBuffer (ullSectorStart * ucast ulSectorSize') ulSectorSize'
                  ulSectorCount (stm_dev fs) of
        (ok, d) \<Rightarrow> (case stm_checked L ok d of (redStat, d') \<Rightarrow> (redStat, fs\<lparr>stm_dev := d'\<rparr>))
      else stm_write_loop L ulSectorSize' ullSectorStart ulSectorCount pBuffer 0 fs)"

definition StmDiskFlush :: "u8 \<Rightarrow> 'd stm_state \<Rightarrow> red_err option \<times> 'd stm_state" where
  "StmDiskFlush bVol fs = (None, fs)"

end
