(* ===== verification/BlockIo.thy ===== *)
theory BlockIo
  imports BlockDev
begin

text \<open>
  Block input and output (\<^verbatim>\<open>core/driver/blockio.c\<close>): blocks are turned into sectors and every
  device operation is retried.

  The retry loop counts in \<^verbatim>\<open>uint8_t\<close> up to and including \<^verbatim>\<open>bBlockIoRetries\<close>; for the value 255
  the condition never fails, so the loop (\<open>retry_loop\<close>) is a partial function. A loop that does
  not return sets \<open>asserted\<close>, like every event after which the run is not that of the C code.
\<close>

section \<open>The retry loop\<close>

partial_function (option) retry_loop ::
  "('d \<Rightarrow> red_err option \<times> 'd) \<Rightarrow> u8 \<Rightarrow> u8 \<Rightarrow> red_err option \<Rightarrow> 'd \<Rightarrow> (red_err option \<times> 'd) option"
where
  "retry_loop att retries bRetryIdx ret d =
     (if bRetryIdx \<le> retries
      then (case att d of
              (None, d') \<Rightarrow> Some (None, d')
            | (Some e, d') \<Rightarrow> retry_loop att retries (bRetryIdx + 1) (Some e) d')
      else Some (ret, d))"

declare retry_loop.simps [code]

section \<open>blockio.c\<close>

definition io_range_ok :: "'d redconf \<Rightarrow> 'd redstate \<Rightarrow> u8 \<Rightarrow> u32 \<Rightarrow> u32 \<Rightarrow> bool" where
  "io_range_ok cf s bVol ulBlockStart ulCount \<longleftrightarrow>
     vol_ok cf bVol \<and> ulBlockStart < ulBlockCount (gaRedVolume s bVol)
     \<and> \<not> ulBlockCount (gaRedVolume s bVol) - ulBlockStart < ulCount \<and> ulCount \<noteq> 0"

text \<open>The \<^verbatim>\<open>CRITICAL_ASSERT\<close> and the status at the end of the three functions.\<close>

definition io_finish :: "red_err option \<Rightarrow> 'd redstate \<Rightarrow> 'd redstate" where
  "io_finish ret s = (case ret of None \<Rightarrow> s | Some _ \<Rightarrow> RedVolCriticalError s)"

definition io_retry ::
  "'d redconf \<Rightarrow> ('e \<Rightarrow> red_err option \<times> 'e) \<Rightarrow> 'd redstate \<Rightarrow> 'e \<Rightarrow> (red_err option \<times> 'e) \<times> bool" where
  "io_retry cf att s e =
     (case retry_loop att (bBlockIoRetries (gpRedVolConf cf s)) 0 None e of
        Some r \<Rightarrow> (r, True)
      | None \<Rightarrow> ((Some RED_EIO, e), False))"

text \<open>The result is the status and the contents of the buffer after the call.\<close>

definition RedIoRead ::
  "'d redconf \<Rightarrow> u8 \<Rightarrow> u32 \<Rightarrow> u32 \<Rightarrow> bytes \<Rightarrow> ('d, red_err option \<times> bytes) redM" where
  "RedIoRead cf bVol ulBlockStart ulCount pBuffer = (\<lambda>s.
     if \<not> io_range_ok cf s bVol ulBlockStart ulCount
     then (Inr (Some RED_EINVAL, pBuffer), RedVolCriticalError (REDERROR s))
     else
       let bSectorShift = unat (bBlockSectorShift (gaRedVolume s bVol));
           ullSectorStart = push_bit bSectorShift (ucast ulBlockStart);
           ulSectorCount = push_bit bSectorShift ulCount;
           s1 = REDASSERT (bSectorShift < 32) s;
           s2 = REDASSERT (drop_bit bSectorShift ulSectorCount = ulCount) s1
       in case io_retry cf
            (\<lambda>(d, b). case RedOsBDevRead cf bVol ullSectorStart ulSectorCount b d of
               ((ret, b'), d') \<Rightarrow> (ret, (d', b'))) s2 (bdev s2, pBuffer) of
         ((ret, (d, b)), returns) \<Rightarrow>
           (Inr (ret, b), io_finish ret (REDASSERT returns (s2\<lparr>bdev := d\<rparr>))))"

definition RedIoWrite :: "'d redconf \<Rightarrow> u8 \<Rightarrow> u32 \<Rightarrow> u32 \<Rightarrow> bytes \<Rightarrow> ('d, unit) redM" where
  "RedIoWrite cf bVol ulBlockStart ulCount pBuffer = (\<lambda>s.
     if \<not> io_range_ok cf s bVol ulBlockStart ulCount
     then (Inl RED_EINVAL, RedVolCriticalError (REDERROR s))
     else
       let bSectorShift = unat (bBlockSectorShift (gaRedVolume s bVol));
           ullSectorStart = push_bit bSectorShift (ucast ulBlockStart);
           ulSectorCount = push_bit bSectorShift ulCount;
           s1 = REDASSERT (bSectorShift < 32) s;
           s2 = REDASSERT (drop_bit bSectorShift ulSectorCount = ulCount) s1
       in case io_retry cf (RedOsBDevWrite cf bVol ullSectorStart ulSectorCount pBuffer) s2 (bdev s2) of
         ((ret, d), returns) \<Rightarrow>
           (case ret of None \<Rightarrow> Inr () | Some e \<Rightarrow> Inl e,
            io_finish ret (REDASSERT returns (s2\<lparr>bdev := d\<rparr>))))"

definition RedIoFlush :: "'d redconf \<Rightarrow> u8 \<Rightarrow> ('d, unit) redM" where
  "RedIoFlush cf bVol = (\<lambda>s.
     if \<not> vol_ok cf bVol then (Inl RED_EINVAL, RedVolCriticalError (REDERROR s))
     else case io_retry cf (RedOsBDevFlush cf bVol) s (bdev s) of
       ((ret, d), returns) \<Rightarrow>
         (case ret of None \<Rightarrow> Inr () | Some e \<Rightarrow> Inl e,
          io_finish ret (REDASSERT returns (s\<lparr>bdev := d\<rparr>))))"

section \<open>What the retry loop does\<close>

text \<open>The reference: up to \<open>n\<close> attempts, the last one's status.\<close>

fun attempts :: "('d \<Rightarrow> red_err option \<times> 'd) \<Rightarrow> nat \<Rightarrow> red_err option \<Rightarrow> 'd \<Rightarrow> red_err option \<times> 'd" where
  "attempts att 0 ret d = (ret, d)"
| "attempts att (Suc n) ret d =
     (case att d of (None, d') \<Rightarrow> (None, d') | (Some e, d') \<Rightarrow> attempts att n (Some e) d')"

lemma retry_loop_attempts_from:
  assumes "retries < 255"
  shows "unat i \<le> unat retries + 1 \<Longrightarrow>
    retry_loop att retries i ret d = Some (attempts att (unat retries + 1 - unat i) ret d)"
proof (induction "unat retries + 1 - unat i" arbitrary: i ret d)
  case 0
  then have "\<not> i \<le> retries" by (simp add: word_le_nat_alt)
  then show ?case using 0 by (simp add: retry_loop.simps)
next
  case (Suc n)
  have r: "unat retries < 255" using assms by (simp add: word_less_nat_alt)
  then have le: "i \<le> retries" and i1: "unat (i + 1) = unat i + 1"
    using Suc.hyps(2) by (simp_all add: word_le_nat_alt unat_word_ariths)
  have n: "n = unat retries + 1 - unat (i + 1)" using Suc.hyps(2) i1 by simp
  have m: "unat (i + 1) \<le> unat retries + 1" using le i1 by (simp add: word_le_nat_alt)
  have e: "unat retries + 1 - unat i = Suc n" using Suc.hyps(2) by simp
  have "retry_loop att retries (i + 1) (Some x) d' = Some (attempts att n (Some x) d')" for x d'
    using Suc.hyps(1) [OF n m] n by simp
  then show ?case unfolding e
    by (simp add: retry_loop.simps [of att retries i] le split: prod.splits option.splits)
qed

lemma retry_loop_attempts:
  "retries < 255 \<Longrightarrow> retry_loop att retries 0 ret d = Some (attempts att (Suc (unat retries)) ret d)"
  using retry_loop_attempts_from [of retries 0 att ret d] by simp

lemma attempts_ok_iff:
  "fst (attempts att (Suc n) ret d) = None \<longleftrightarrow>
   (\<exists>k \<le> n. fst (att (((\<lambda>d. snd (att d)) ^^ k) d)) = None)"
proof (induction n arbitrary: ret d)
  case 0
  then show ?case by (simp split: prod.splits option.splits)
next
  case (Suc n)
  have "(\<exists>k \<le> Suc n. P k) \<longleftrightarrow> P 0 \<or> (\<exists>k \<le> n. P (Suc k))" for P
    by (metis le0 Suc_le_mono not0_implies_Suc)
  note * = this [of "\<lambda>k. fst (att (((\<lambda>d. snd (att d)) ^^ k) d)) = None"]
  show ?case
  proof (cases "att d")
    case (Pair r d')
    then show ?thesis
      unfolding * using Suc.IH [of r d']
      by (cases r)
         (simp_all add: funpow_Suc_right attempts.simps(2) [of att "Suc n"]
            del: attempts.simps funpow.simps(2))
  qed
qed

text \<open>An attempt's invariant is one of the loop.\<close>

lemma attempts_induct:
  assumes "\<And>d r d'. J d \<Longrightarrow> att d = (r, d') \<Longrightarrow> J d'"
  shows "J d \<Longrightarrow> attempts att n ret d = (r, d') \<Longrightarrow> J d'"
proof (induction n arbitrary: ret d)
  case 0
  then show ?case by simp
next
  case (Suc n)
  show ?case
  proof (cases "att d")
    case (Pair r1 d1)
    then show ?thesis using Suc.prems Suc.IH [of d1 r1] assms [of d r1 d1] by (cases r1) auto
  qed
qed

lemma attempts_ok:
  assumes "\<And>d r d'. J d \<Longrightarrow> att d = (r, d') \<Longrightarrow> J d'"
    and "\<And>d d'. J d \<Longrightarrow> att d = (None, d') \<Longrightarrow> Q d'"
  shows "J d \<Longrightarrow> attempts att (Suc n) ret d = (None, d') \<Longrightarrow> Q d'"
proof (induction n arbitrary: ret d)
  case 0
  then show ?case using assms(2) [of d d'] by (auto split: prod.splits option.splits)
next
  case (Suc n)
  show ?case
  proof (cases "att d")
    case (Pair r d1)
    then show ?thesis
      using Suc.prems Suc.IH [of d1 r] assms [of d] by (cases r) auto
  qed
qed

lemma io_retry_conf:
  "conf_ok cf \<Longrightarrow>
   io_retry cf att s e = (attempts att (Suc (unat (bBlockIoRetries (gpRedVolConf cf s)))) None e, True)"
  by (simp add: io_retry_def retry_loop_attempts conf_ok_def gpRedVolConf_def del: attempts.simps)

section \<open>Blocks on the device\<close>

text \<open>
  The geometry \<open>RedCoreInit\<close> computes for a volume: a block is \<open>2 ^ bBlockSectorShift\<close> sectors
  and the blocks of the volume are on the disk, which is open.
\<close>

definition vol_geom :: "'d redconf \<Rightarrow> ('d \<Rightarrow> u8 \<Rightarrow> nat) \<Rightarrow> 'd redstate \<Rightarrow> u8 \<Rightarrow> bool" where
  "vol_geom cf dsize s v \<longleftrightarrow>
     vol_ok cf v \<and> bBlockSectorShift (gaRedVolume s v) < 32
     \<and> unat (ulSectorSize (gaRedVolConf cf v)) * 2 ^ unat (bBlockSectorShift (gaRedVolume s v))
         = REDCONF_BLOCK_SIZE cf
     \<and> unat (ulBlockCount (gaRedVolume s v)) * 2 ^ unat (bBlockSectorShift (gaRedVolume s v))
         \<le> unat (ullSectorCount (gaRedVolConf cf v))
     \<and> unat (ulBlockCount (gaRedVolume s v)) * REDCONF_BLOCK_SIZE cf \<le> dsize (bdev s) v"

lemma vol_geom_shift:
  assumes "vol_geom cf dsize s v" and "conf_ok cf"
    and "io_range_ok cf s v b n" and "unat n * REDCONF_BLOCK_SIZE cf < 2 ^ 32"
  defines "sh \<equiv> unat (bBlockSectorShift (gaRedVolume s v))"
  shows "unat (push_bit sh (ucast b :: u64)) = unat b * 2 ^ sh"
    and "unat (push_bit sh n) = unat n * 2 ^ sh"
    and "unat b + unat n \<le> unat (ulBlockCount (gaRedVolume s v))"
    and "drop_bit sh (push_bit sh n) = n"
    and "sectors_ok cf v (push_bit sh (ucast b)) (push_bit sh n)"
    and "sec_bytes cf v (unat (push_bit sh (ucast b :: u64))) = unat b * REDCONF_BLOCK_SIZE cf"
    and "sec_bytes cf v (unat (push_bit sh n)) = unat n * REDCONF_BLOCK_SIZE cf"
    and "sec_bytes cf v (unat (push_bit sh (ucast b :: u64)) + unat (push_bit sh n))
      = (unat b + unat n) * REDCONF_BLOCK_SIZE cf"
    and "(unat b + unat n) * REDCONF_BLOCK_SIZE cf \<le> dsize (bdev s) v"
    and "sh < 32"
proof -
  have g: "unat (ulSectorSize (gaRedVolConf cf v)) * 2 ^ sh = REDCONF_BLOCK_SIZE cf"
    "unat (ulBlockCount (gaRedVolume s v)) * 2 ^ sh \<le> unat (ullSectorCount (gaRedVolConf cf v))"
    "unat (ulBlockCount (gaRedVolume s v)) * REDCONF_BLOCK_SIZE cf \<le> dsize (bdev s) v" "vol_ok cf v"
    using assms(1) by (simp_all add: vol_geom_def sh_def)
  show sh: "sh < 32" using assms(1) by (simp add: vol_geom_def sh_def word_less_nat_alt)
  have rng: "unat b < unat (ulBlockCount (gaRedVolume s v))"
    "unat n \<le> unat (ulBlockCount (gaRedVolume s v)) - unat b" "0 < unat n"
    using assms(3) by (auto simp: io_range_ok_def word_less_nat_alt unat_sub_if' unat_gt_0 split: if_splits)
  then show bn: "unat b + unat n \<le> unat (ulBlockCount (gaRedVolume s v))" by simp
  have pos: "0 < unat (ulSectorSize (gaRedVolConf cf v))"
    using g(1) conf_ok_block_size [OF assms(2)] by (cases "unat (ulSectorSize (gaRedVolConf cf v))") simp_all
  have ub: "unat (ucast b :: u64) = unat b"
    using unsigned_less [of b, where ?'a = nat] by (simp add: unsigned_ucast_eq take_bit_nat_eq_self)
  have "unat b * 2 ^ sh < 2 ^ 32 * 2 ^ 32"
  proof (rule mult_strict_mono)
    show "unat b < 2 ^ 32" using unsigned_less [of b, where ?'a = nat] by simp
    show "(2::nat) ^ sh < 2 ^ 32" using sh by (intro power_strict_increasing) auto
  qed auto
  then show pb: "unat (push_bit sh (ucast b :: u64)) = unat b * 2 ^ sh"
    unfolding unsigned_push_bit_eq ub by (simp add: take_bit_nat_eq_self push_bit_eq_mult)
  have "unat n * 2 ^ sh \<le> unat n * REDCONF_BLOCK_SIZE cf"
    using pos unfolding g(1) [symmetric] by (intro mult_le_mono2) simp
  then have n32: "unat n * 2 ^ sh < 2 ^ 32" using assms(4) by (rule le_less_trans)
  then show pn: "unat (push_bit sh n) = unat n * 2 ^ sh"
    unfolding unsigned_push_bit_eq by (simp add: take_bit_nat_eq_self push_bit_eq_mult)
  have "unat (drop_bit sh (push_bit sh n)) = unat n"
    using n32 unfolding unsigned_drop_bit_eq pn by (simp add: drop_bit_eq_div take_bit_nat_eq_self)
  then show "drop_bit sh (push_bit sh n) = n" by (simp add: word_unat_eq_iff)
  show eb: "sec_bytes cf v (unat (push_bit sh (ucast b :: u64))) = unat b * REDCONF_BLOCK_SIZE cf"
    by (simp add: pb sec_bytes_def g(1) [symmetric])
  show en: "sec_bytes cf v (unat (push_bit sh n)) = unat n * REDCONF_BLOCK_SIZE cf"
    by (simp add: pn sec_bytes_def g(1) [symmetric])
  show "sec_bytes cf v (unat (push_bit sh (ucast b :: u64)) + unat (push_bit sh n))
      = (unat b + unat n) * REDCONF_BLOCK_SIZE cf"
    using eb en by (simp add: sec_bytes_def distrib_right)
  show "(unat b + unat n) * REDCONF_BLOCK_SIZE cf \<le> dsize (bdev s) v"
    using bn g(3) by (meson le_trans mult_le_mono1)
  show "sectors_ok cf v (push_bit sh (ucast b)) (push_bit sh n)"
  proof -
    have un: "unat (ucast (push_bit sh n) :: u64) = unat n * 2 ^ sh"
      using n32 pn by (simp add: unsigned_ucast_eq take_bit_nat_eq_self)
    have le: "(unat b + unat n) * 2 ^ sh \<le> unat (ullSectorCount (gaRedVolConf cf v))"
      using bn g(2) by (meson le_trans mult_le_mono1)
    define p q where "p = unat b * 2 ^ sh" and "q = unat n * 2 ^ sh"
    have "0 < q" using rng(3) by (simp add: q_def)
    then show ?thesis using g(4) le un pb unfolding distrib_right p_def [symmetric] q_def [symmetric]
      by (simp add: sectors_ok_def word_less_nat_alt unat_sub_if')
  qed
qed

text \<open>
  A block as the list of its bytes, and what the three functions do to the disk. The device state
  is only looked at through \<open>dbyte\<close> and \<open>dsize\<close>.
\<close>

definition dblock :: "('d \<Rightarrow> u8 \<Rightarrow> nat \<Rightarrow> u8) \<Rightarrow> nat \<Rightarrow> 'd \<Rightarrow> u8 \<Rightarrow> nat \<Rightarrow> bytes" where
  "dblock dbyte bs d v b = map (dbyte d v) [b * bs..<(b + 1) * bs]"

lemma length_dblock [simp]: "length (dblock dbyte bs d v b) = bs"
  by (simp add: dblock_def)

lemma dblock_cong:
  "(\<And>k. b * bs \<le> k \<Longrightarrow> k < b * bs + bs \<Longrightarrow> dbyte d v k = dbyte d' v k) \<Longrightarrow>
   dblock dbyte bs d v b = dblock dbyte bs d' v b"
  by (auto simp: dblock_def)

context block_device
begin

abbreviation BS :: nat where "BS \<equiv> REDCONF_BLOCK_SIZE cf"

lemma RedIoRead_spec:
  assumes geom: "vol_geom cf dsize s v" and conf: "conf_ok cf" and rng: "io_range_ok cf s v b n"
    and small: "unat n * BS < 2 ^ 32" and len: "unat n * BS \<le> length buf"
    and run: "RedIoRead cf v b n buf s = (r, s')"
  obtains ret data d where "r = Inr (ret, data)" and "s' = io_finish ret (s\<lparr>bdev := d\<rparr>)"
    and "dbyte d = dbyte (bdev s)" and "dsize d = dsize (bdev s)" and "length data = length buf"
    and "ret = None \<Longrightarrow> data = map (dbyte (bdev s) v) [unat b * BS..<(unat b + unat n) * BS]
      @ drop (unat n * BS) buf"
proof -
  define sh where "sh = unat (bBlockSectorShift (gaRedVolume s v))"
  note g = vol_geom_shift [OF geom conf rng small, folded sh_def]
  define att where "att = (\<lambda>(d, b1). case RedOsBDevRead cf v (push_bit sh (ucast b)) (push_bit sh n) b1 d of
      ((ret, b'), d') \<Rightarrow> (ret, (d', b')))"
  define k where "k = unat (bBlockIoRetries (gpRedVolConf cf s))"
  obtain ret d data where a: "attempts att (Suc k) None (bdev s, buf) = (ret, (d, data))"
    by (cases "attempts att (Suc k) None (bdev s, buf)") auto
  define J where "J = (\<lambda>(d, b1). dbyte d = dbyte (bdev s) \<and> dsize d = dsize (bdev s)
      \<and> length (b1 :: bytes) = length buf \<and> drop (unat n * BS) b1 = drop (unat n * BS) buf)"
  define Q where "Q = (\<lambda>(d :: 'd, b1). b1 = map (dbyte (bdev s) v) [unat b * BS..<(unat b + unat n) * BS]
      @ drop (unat n * BS) buf)"
  have step: "J e' \<and> (r = None \<longrightarrow> Q e')" if J: "J e" and at: "att e = (r, e')" for e r e'
  proof -
    obtain d1 b1 where e: "e = (d1, b1)" by (cases e)
    obtain d2 b2 where e': "e' = (d2, b2)" by (cases e')
    from J e have j: "dbyte d1 = dbyte (bdev s)" "dsize d1 = dsize (bdev s)" "length b1 = length buf"
      "drop (unat n * BS) b1 = drop (unat n * BS) buf" by (simp_all add: J_def)
    obtain x where dr: "DiskRead cf v (push_bit sh (ucast b)) (push_bit sh n) d1 = ((r, x), d2)"
      and b2: "b2 = x @ drop (length x) b1"
      using at e e' g(5) by (auto simp: att_def RedOsBDevRead_def split: prod.splits)
    have fit: "sec_bytes cf v (unat (push_bit sh (ucast b :: u64)) + unat (push_bit sh n)) \<le> dsize d1 v"
      "sec_bytes cf v (unat (push_bit sh n)) < 2 ^ 32" using g j small by simp_all
    from read_state [OF fit dr] g(7)
    have "length x = unat n * BS" "dbyte d2 = dbyte d1" "dsize d2 = dsize d1" by simp_all
    then have "J e'" using j b2 len by (simp add: J_def e')
    moreover have "Q e'" if "r = None"
      using read_ok [OF fit dr [unfolded that], unfolded g(6,8)] b2 j \<open>length x = _\<close>
      by (simp add: Q_def e')
    ultimately show ?thesis by blast
  qed
  have J0: "J (bdev s, buf)" by (simp add: J_def)
  have J1: "J (d, data)" using attempts_induct [where J = J, OF _ J0 a] step by blast
  have Q1: "Q (d, data)" if "ret = None"
    using attempts_ok [where J = J and Q = Q, OF _ _ J0 a [unfolded that]] step by blast
  have "RedIoRead cf v b n buf s = (Inr (ret, data), io_finish ret (s\<lparr>bdev := d\<rparr>))"
    using rng g(4,10) a unfolding RedIoRead_def Let_def sh_def [symmetric] att_def k_def
    by (simp add: io_retry_conf [OF conf] REDASSERT_def del: attempts.simps)
  with run have "r = Inr (ret, data)" "s' = io_finish ret (s\<lparr>bdev := d\<rparr>)" by simp_all
  then show thesis using that J1 Q1 by (simp add: J_def Q_def)
qed

lemma RedIoWrite_spec:
  assumes geom: "vol_geom cf dsize s v" and conf: "conf_ok cf" and rng: "io_range_ok cf s v b n"
    and small: "unat n * BS < 2 ^ 32" and len: "unat n * BS \<le> length buf"
    and run: "RedIoWrite cf v b n buf s = (r, s')"
  obtains ret d where "r = (case ret of None \<Rightarrow> Inr () | Some e \<Rightarrow> Inl e)"
    and "s' = io_finish ret (s\<lparr>bdev := d\<rparr>)" and "dsize d = dsize (bdev s)"
    and "\<And>w k. w \<noteq> v \<or> k < unat b * BS \<or> (unat b + unat n) * BS \<le> k \<Longrightarrow> dbyte d w k = dbyte (bdev s) w k"
    and "\<And>k. ret = None \<Longrightarrow> unat b * BS \<le> k \<Longrightarrow> k < (unat b + unat n) * BS \<Longrightarrow>
      dbyte d v k = buf ! (k - unat b * BS)"
proof -
  define sh where "sh = unat (bBlockSectorShift (gaRedVolume s v))"
  note g = vol_geom_shift [OF geom conf rng small, folded sh_def]
  define att where "att = RedOsBDevWrite cf v (push_bit sh (ucast b)) (push_bit sh n) buf"
  define k where "k = unat (bBlockIoRetries (gpRedVolConf cf s))"
  obtain ret d where a: "attempts att (Suc k) None (bdev s) = (ret, d)"
    by (cases "attempts att (Suc k) None (bdev s)") auto
  define J where "J = (\<lambda>d. dsize d = dsize (bdev s) \<and>
      (\<forall>w k. w \<noteq> v \<or> k < unat b * BS \<or> (unat b + unat n) * BS \<le> k \<longrightarrow> dbyte d w k = dbyte (bdev s) w k))"
  define Q where "Q = (\<lambda>d. \<forall>k. unat b * BS \<le> k \<and> k < (unat b + unat n) * BS \<longrightarrow>
      dbyte d v k = buf ! (k - unat b * BS))"
  have step: "J d2 \<and> (r = None \<longrightarrow> Q d2)" if J: "J d1" and at: "att d1 = (r, d2)" for d1 r d2
  proof -
    have wr: "DiskWrite cf v (push_bit sh (ucast b)) (push_bit sh n) buf d1 = (r, d2)"
      using at g(5) by (simp add: att_def RedOsBDevWrite_def)
    have fit: "sec_bytes cf v (unat (push_bit sh (ucast b :: u64)) + unat (push_bit sh n)) \<le> dsize d1 v"
      "sec_bytes cf v (unat (push_bit sh n)) < 2 ^ 32" "sec_bytes cf v (unat (push_bit sh n)) \<le> length buf"
      using g J small len by (simp_all add: J_def)
    have "J d2" using write_state [OF fit wr, unfolded g(6,8)] J by (simp add: J_def)
    moreover have "Q d2" if "r = None"
      using write_ok [OF fit wr [unfolded that], unfolded g(6,8)] by (simp add: Q_def)
    ultimately show ?thesis by blast
  qed
  have J0: "J (bdev s)" by (simp add: J_def)
  have J1: "J d" using attempts_induct [where J = J, OF _ J0 a] step by blast
  have Q1: "Q d" if "ret = None"
    using attempts_ok [where J = J and Q = Q, OF _ _ J0 a [unfolded that]] step by blast
  have "RedIoWrite cf v b n buf s = (case ret of None \<Rightarrow> Inr () | Some e \<Rightarrow> Inl e, io_finish ret (s\<lparr>bdev := d\<rparr>))"
    using rng g(4,10) a unfolding RedIoWrite_def Let_def sh_def [symmetric] att_def k_def
    by (simp add: io_retry_conf [OF conf] REDASSERT_def del: attempts.simps)
  with run have "r = (case ret of None \<Rightarrow> Inr () | Some e \<Rightarrow> Inl e)" "s' = io_finish ret (s\<lparr>bdev := d\<rparr>)"
    by simp_all
  then show thesis using that J1 Q1 by (simp add: J_def Q_def)
qed

lemma RedIoFlush_spec:
  assumes conf: "conf_ok cf" and vol: "vol_ok cf v" and run: "RedIoFlush cf v s = (r, s')"
  obtains ret d where "r = (case ret of None \<Rightarrow> Inr () | Some e \<Rightarrow> Inl e)"
    and "s' = io_finish ret (s\<lparr>bdev := d\<rparr>)" and "dsize d = dsize (bdev s)" and "dbyte d = dbyte (bdev s)"
proof -
  define k where "k = unat (bBlockIoRetries (gpRedVolConf cf s))"
  define J where "J = (\<lambda>d. dsize d = dsize (bdev s) \<and> dbyte d = dbyte (bdev s))"
  obtain ret d where a: "attempts (RedOsBDevFlush cf v) (Suc k) None (bdev s) = (ret, d)"
    by (cases "attempts (RedOsBDevFlush cf v) (Suc k) None (bdev s)") auto
  have step: "J d2" if "J d1" "RedOsBDevFlush cf v d1 = (r, d2)" for d1 r d2
    using that vol flush_state [of v d1 r d2] by (simp add: J_def RedOsBDevFlush_def)
  have "J d" using attempts_induct [where J = J, OF step _ a] by (simp add: J_def)
  moreover have "RedIoFlush cf v s = (case ret of None \<Rightarrow> Inr () | Some e \<Rightarrow> Inl e, io_finish ret (s\<lparr>bdev := d\<rparr>))"
    using vol a unfolding RedIoFlush_def k_def
    by (simp add: io_retry_conf [OF conf] REDASSERT_def del: attempts.simps)
  ultimately show thesis using run that by (simp add: J_def)
qed

end

section \<open>A retry count of 255\<close>

text \<open>With 255 retries a device that keeps failing is asked again for ever.\<close>

lemma retry_loop_returns:
  assumes "retry_loop att retries i ret d = Some x"
  shows "(\<forall>d. fst (att d) \<noteq> None) \<longrightarrow> retries \<noteq> 255"
proof (rule retry_loop.raw_induct
    [where P = "\<lambda>att retries i ret d x. (\<forall>d. fst (att d) \<noteq> None) \<longrightarrow> retries \<noteq> 255", OF _ assms], rule impI)
  fix rl att retries i ret d x
  assume IH: "\<And>att retries i ret d y. rl att retries i ret d = Some y \<Longrightarrow>
      (\<forall>d. fst (att d) \<noteq> None) \<longrightarrow> retries \<noteq> (255 :: u8)"
    and body: "(if i \<le> retries then case att d of (None, d') \<Rightarrow> Some (None, d')
        | (Some e, d') \<Rightarrow> rl att retries (i + 1) (Some e) d' else Some (ret, d)) = Some x"
    and fail: "\<forall>d. fst (att d) \<noteq> None"
  have m: "(j :: u8) \<le> 255" for j
    using unsigned_less [of j, where ?'a = nat] by (simp add: word_le_nat_alt)
  obtain e d' where a: "att d = (Some e, d')" using spec [OF fail, of d] by (cases "att d") auto
  show "retries \<noteq> 255"
  proof
    assume r: "retries = 255"
    then have "rl att retries (i + 1) (Some e) d' = Some x" using body a m by simp
    then show False using IH fail r by blast
  qed
qed

lemma retry_loop_255:
  "(\<And>d. fst (att d) \<noteq> None) \<Longrightarrow> retry_loop att 255 i ret d = None"
  using retry_loop_returns by (metis option.exhaust)

end
