(* ===== verification/Samples.thy ===== *)
theory Samples
  imports BlockIo
begin

text \<open>
  A concrete configuration and state: one volume of 24 blocks of 256 bytes on the RAM disk. The
  theorems of the development are applied to it to show that their hypotheses can hold.
\<close>

definition sample_volconf :: VOLCONF where
  "sample_volconf =
     \<lparr>ulSectorSize = 256, ullSectorCount = 24, fAtomicSectorWrite = True, ulInodeCount = 8,
      bBlockIoRetries = 2, pszPathPrefix = Some [86, 48, 58, 0]\<rparr>"

definition sample_base :: "ramdisk redconf" where
  "sample_base =
     \<lparr>REDCONF_BLOCK_SIZE = 256, REDCONF_BUFFER_COUNT = 12, REDCONF_VOLUME_COUNT = 1, REDCONF_NAME_MAX = 28,
      REDCONF_DIRECT_POINTERS = 4, REDCONF_INDIRECT_POINTERS = 32, REDCONF_API_POSIX = True,
      REDCONF_API_POSIX_LINK = True, REDCONF_API_POSIX_UNLINK = True, REDCONF_API_POSIX_RMDIR = True,
      REDCONF_API_POSIX_MKDIR = True, REDCONF_API_POSIX_RENAME = True,
      REDCONF_API_POSIX_FTRUNCATE = True, REDCONF_API_FSE_TRUNCATE = False, REDCONF_INODE_BLOCKS = True,
      REDCONF_INODE_TIMESTAMPS = True, REDCONF_ATIME = False, REDCONF_ENDIAN_BIG = False,
      REDCONF_ENDIAN_SWAP = False, REDCONF_IMAP_INLINE = True, REDCONF_IMAP_EXTERNAL = False,
      REDCONF_CRC_ALGORITHM = CRC_SLICEBY8, REDCONF_TRANSACT_DEFAULT = 0,
      REDCONF_RENAME_ATOMIC = True, REDCONF_PATH_SEPARATOR = 47, REDCONF_HANDLE_COUNT = 10, REDCONF_TASK_COUNT = 1,
      gaRedVolConf = (\<lambda>_. sample_volconf),
      DiskOpen = (\<lambda>_ _ d. (None, d)), DiskClose = (\<lambda>_ d. (None, d)), DiskRead = (\<lambda>_ _ _ d. ((None, []), d)),
      DiskWrite = (\<lambda>_ _ _ _ d. (None, d)), DiskFlush = (\<lambda>_ d. (None, d)), RedOsClockGetTime = (\<lambda>_. 1),
      RedOsMutexInit = None\<rparr>"

definition sample_cf :: "ramdisk redconf" where
  "sample_cf = with_ramdisk (\<lambda>_. 24) (\<lambda>_. True) sample_base"

definition sample_vol :: VOLUME where
  "sample_vol =
     \<lparr>fMounted = False, fReadOnly = False, ulTransMask = 0, bBlockSectorShift = 0, ulBlockCount = 24,
      ulBlocksAllocable = 5, ullMaxInodeSize = 0xFFFFFFFF, ullSequence = 7\<rparr>"

definition sample_mr :: METAROOT where
  "sample_mr =
     \<lparr>mr_ulSignature = 0, mr_ulCRC = 0, mr_ullSequence = 0, ulSectorCRC = 0, ulFreeBlocks = 5,
      ulFreeInodes = 8, ulAllocNextBlock = 19, abEntries = replicate 224 0\<rparr>"

definition sample_core :: COREVOLUME where
  "sample_core =
     \<lparr>fImapInline = True, ulImapStartBN = 3, ulImapNodeCount = 0, ulInodeTableStartBN = 3,
      ulFirstAllocableBN = 19, aMR = (\<lambda>_. sample_mr), bCurMR = 0, fBranched = True,
      ulAlmostFreeBlocks = 0, fUseReservedBlocks = False\<rparr>"

definition sample_state :: "ramdisk redstate" where
  "sample_state =
     \<lparr>uNumUsed = 0, abMRU = [], aHead = [], aabBuffer = [], gaRedVolume = (\<lambda>_. sample_vol),
      gaCoreVol = (\<lambda>_. sample_core), gbRedVolNum = 0,
      bdev = (\<lambda>v. if v = 0 then Some (replicate 6144 7) else None), asserted = False\<rparr>"

lemmas sample_defs = sample_volconf_def sample_base_def sample_cf_def sample_vol_def sample_mr_def
  sample_core_def sample_state_def with_ramdisk_def

lemma sample_device: "block_device sample_cf ram_byte ram_size"
  unfolding sample_cf_def by (rule ram.block_device_axioms)

lemma sample_conf_ok: "conf_ok sample_cf"
  by (simp add: conf_ok_def sample_defs)

lemma sample_counts [simp]:
  "REDCONF_BUFFER_COUNT sample_cf = 12" "REDCONF_BLOCK_SIZE sample_cf = 256" "\<not> REDCONF_ENDIAN_SWAP sample_cf"
  "\<not> REDCONF_ENDIAN_BIG sample_cf" "REDCONF_VOLUME_COUNT sample_cf = 1" "gaRedVolConf sample_cf v = sample_volconf"
  by (simp_all add: sample_defs)

lemma sample_geom: "vol_geom sample_cf ram_size sample_state 0"
  by (simp add: vol_geom_def vol_ok_def ram_size_def) (simp add: sample_defs)

end
