(* ===== verification/DiskCorrect.thy ===== *)
theory DiskCorrect
  imports DiskDrivers Samples
begin

text \<open>
  Properties of the device implementations of \<^verbatim>\<open>osbdev.c\<close> that split a request into several calls
  of a vendor's driver. What the driver promises is a hypothesis over the function \<open>sector d\<close>, the
  sectors of the disk in the state \<open>d\<close> of the device.
\<close>

declare multi_read.simps [simp del] multi_write.simps [simp del] f_read_loop.simps [simp del]
  f_write_loop.simps [simp del]

section \<open>Buffers and sector numbers\<close>

lemma concat_length_const: "(\<And>x. x \<in> set xs \<Longrightarrow> length (f x) = z) \<Longrightarrow> length (concat (map f xs)) = length xs * z"
  by (induction xs) auto

lemma buf_put_append: "length buf = off \<Longrightarrow> length data = n \<Longrightarrow> buf_put off n data buf = buf @ data"
  by (simp add: buf_put_def)

lemma sector_number:
  assumes "unat (a :: u64) + unat (n :: u32) \<le> 2 ^ 32" and "i < n"
  shows "unat (ucast (a + ucast i) :: u32) = unat a + unat i"
proof -
  have i: "unat (ucast i :: u64) = unat i"
    using unsigned_less [of i, where ?'a = nat] by (simp add: unsigned_ucast_eq take_bit_nat_eq_self)
  have lt: "unat a + unat i < 2 ^ 32" using assms by (simp add: word_less_nat_alt)
  then have "unat (a + ucast i) = unat a + unat i"
    using i by (simp add: unat_word_ariths)
  then show ?thesis using lt by (simp add: unsigned_ucast_eq take_bit_nat_eq_self)
qed

lemma buffer_offset: "unat (n :: u32) * unat z < 2 ^ 32 \<Longrightarrow> i \<le> n \<Longrightarrow> unat (i * z) = unat i * unat z"
proof -
  assume n: "unat (n :: u32) * unat z < 2 ^ 32" and "i \<le> n"
  from \<open>i \<le> n\<close> have "unat i * unat z \<le> unat n * unat z" unfolding word_le_nat_alt by (rule mult_le_mono1)
  then have "unat i * unat z < 2 ^ 32" using n by linarith
  then show "unat (i * z) = unat i * unat z" by (simp add: unat_word_ariths)
qed

section \<open>Reading\<close>

text \<open>\<open>reads_sectors rd lim sector\<close>: a successful transfer of at most \<open>lim\<close> sectors delivers them.\<close>

definition reads_sectors ::
  "(u32 \<Rightarrow> u32 \<Rightarrow> 'd \<Rightarrow> (bool \<times> bytes) \<times> 'd) \<Rightarrow> u32 \<Rightarrow> ('d \<Rightarrow> nat \<Rightarrow> bytes) \<Rightarrow> bool" where
  "reads_sectors rd lim sector \<longleftrightarrow>
     (\<forall>s t d data d'. 0 < t \<and> t \<le> lim \<and> rd s t d = ((True, data), d') \<longrightarrow>
        data = concat (map (sector d) [unat s..<unat s + unat t]) \<and> sector d' = sector d)"

lemma reads_sectorsD:
  assumes "reads_sectors rd lim sector" and "0 < unat t" "t \<le> lim" and "rd s t d = ((True, data), d')"
  shows "data = concat (map (sector d) [unat s..<unat s + unat t])" and "sector d' = sector d"
proof -
  have "0 < t" using assms(2) by (simp add: word_less_nat_alt)
  then have "0 < t \<and> t \<le> lim \<and> rd s t d = ((True, data), d')" using assms(3,4) by simp
  note all = assms(1) [unfolded reads_sectors_def, rule_format, OF this]
  show "data = concat (map (sector d) [unat s..<unat s + unat t])" by (rule conjunct1 [OF all])
  show "sector d' = sector d" by (rule conjunct2 [OF all])
qed

lemma multi_read_contents:
  assumes rd: "reads_sectors rd (MAX_SECTOR_TRANSFER b) sector"
    and bound: "unat (a :: u64) + unat n \<le> 2 ^ 32" "unat n * unat z < 2 ^ 32"
  shows "\<lbrakk>multi_read b rd z a n i buf d = ((None, r), d'); i \<le> n; length buf = unat i * unat z;
      \<forall>k\<in>{unat a..<unat a + unat n}. length (sector d k) = unat z\<rbrakk> \<Longrightarrow>
    r = buf @ concat (map (sector d) [unat a + unat i..<unat a + unat n]) \<and> sector d' = sector d"
proof (induction "unat (n - i)" arbitrary: i buf d rule: less_induct)
  case less
  show ?case
  proof (cases "i < n")
    case False
    then have "i = n" using less.prems(2) by simp
    then show ?thesis using less.prems(1) by (subst (asm) multi_read.simps) simp
  next
    case True
    let ?t = "min (n - i) (MAX_SECTOR_TRANSFER b)"
    note pr = transfer_progress [OF True, of b]
    obtain ok data d1 where
      c: "rd (ucast (a + ucast i)) ?t d = ((ok, data), d1)" by (metis surj_pair)
    have ok: "ok = True" using less.prems(1) True c by (subst (asm) multi_read.simps) (auto simp: Let_def split: if_splits)
    have data: "data = concat (map (sector d) [unat a + unat i..<unat a + unat i + unat ?t])" and sd: "sector d1 = sector d"
      using reads_sectorsD [OF rd pr(3) min.cobounded2 c [unfolded ok]] sector_number [OF bound(1) True]
      by simp_all
    have len: "length data = unat ?t * unat z"
      unfolding data using less.prems(4) pr(4)
      by (subst concat_length_const [where z = "unat z"]) auto
    have put: "buf_put (unat (i * z)) (unat ?t * unat z) data buf = buf @ data"
      using less.prems(2,3) len bound(2) by (simp add: buf_put_append buffer_offset)
    have "multi_read b rd z a n (i + ?t) (buf @ data) d1 = ((None, r), d')"
      using less.prems(1) True c ok put by (subst (asm) multi_read.simps) (simp add: Let_def)
    moreover have "i + ?t \<le> n" using pr(2,4) by (simp add: word_le_nat_alt)
    ultimately have r: "r = (buf @ data) @ concat (map (sector d1) [unat a + unat (i + ?t)..<unat a + unat n])
        \<and> sector d' = sector d1"
    proof (rule less.hyps [OF pr(1)])
      show "length (buf @ data) = unat (i + ?t) * unat z"
        using less.prems(3) len pr(2) by (simp add: distrib_right)
      show "\<forall>k\<in>{unat a..<unat a + unat n}. length (sector d1 k) = unat z" using less.prems(4) sd by simp
    qed
    have "[unat a + unat i..<unat a + unat n] =
        [unat a + unat i..<unat a + unat i + unat ?t] @ [unat a + unat i + unat ?t..<unat a + unat n]"
      using pr(4) upt_add_eq_append [of "unat a + unat i" "unat a + unat i + unat ?t" "unat n - unat i - unat ?t"]
      by simp
    then show ?thesis using r sd data pr(2) by (simp add: add.assoc)
  qed
qed

section \<open>Writing\<close>

definition writes_sectors ::
  "(bytes \<Rightarrow> u32 \<Rightarrow> u32 \<Rightarrow> 'd \<Rightarrow> bool \<times> 'd) \<Rightarrow> u32 \<Rightarrow> nat \<Rightarrow> ('d \<Rightarrow> nat \<Rightarrow> bytes) \<Rightarrow> bool" where
  "writes_sectors wr lim z sector \<longleftrightarrow>
     (\<forall>buf s t d d'. 0 < t \<and> t \<le> lim \<and> wr buf s t d = (True, d') \<longrightarrow>
        sector d' = (\<lambda>k. if unat s \<le> k \<and> k < unat s + unat t
                         then take z (drop ((k - unat s) * z) buf) else sector d k))"

lemma writes_sectorsD:
  assumes "writes_sectors wr lim z sector" and "0 < unat t" "t \<le> lim" and "wr buf s t d = (True, d')"
  shows "sector d' = (\<lambda>k. if unat s \<le> k \<and> k < unat s + unat t
                       then take z (drop ((k - unat s) * z) buf) else sector d k)"
proof -
  have "0 < t" using assms(2) by (simp add: word_less_nat_alt)
  then have "0 < t \<and> t \<le> lim \<and> wr buf s t d = (True, d')" using assms(3,4) by simp
  then show ?thesis by (rule assms(1) [unfolded writes_sectors_def, rule_format])
qed

lemma multi_write_contents:
  assumes wr: "writes_sectors wr (MAX_SECTOR_TRANSFER b) (unat z) sector"
    and bound: "unat (a :: u64) + unat n \<le> 2 ^ 32" "unat n * unat z < 2 ^ 32"
  shows "\<lbrakk>multi_write b wr z a n buf i d = (None, d'); i \<le> n\<rbrakk> \<Longrightarrow>
    sector d' = (\<lambda>k. if unat a + unat i \<le> k \<and> k < unat a + unat n
                     then take (unat z) (drop ((k - unat a) * unat z) buf) else sector d k)"
proof (induction "unat (n - i)" arbitrary: i d rule: less_induct)
  case less
  show ?case
  proof (cases "i < n")
    case False
    then have "i = n" using less.prems(2) by simp
    then show ?thesis using less.prems(1) by (subst (asm) multi_write.simps) (auto simp: fun_eq_iff)
  next
    case True
    let ?t = "min (n - i) (MAX_SECTOR_TRANSFER b)" and ?B = "drop (unat i * unat z) buf"
    note pr = transfer_progress [OF True, of b]
    have off: "unat (i * z) = unat i * unat z" using buffer_offset bound(2) less.prems(2) by blast
    obtain ok d1 where c: "wr ?B (ucast (a + ucast i)) ?t d = (ok, d1)" by (metis surj_pair)
    have ok: "ok = True" using less.prems(1) True c off
      by (subst (asm) multi_write.simps) (auto simp: Let_def split: if_splits)
    have sd: "sector d1 = (\<lambda>k. if unat a + unat i \<le> k \<and> k < unat a + unat i + unat ?t
          then take (unat z) (drop ((k - (unat a + unat i)) * unat z) ?B) else sector d k)"
      using writes_sectorsD [OF wr pr(3) min.cobounded2 c [unfolded ok]]
      unfolding sector_number [OF bound(1) True] .
    have "multi_write b wr z a n buf (i + ?t) d1 = (None, d')"
      using less.prems(1) True c ok off by (subst (asm) multi_write.simps) (simp add: Let_def)
    moreover have "i + ?t \<le> n" using pr(2,4) by (simp add: word_le_nat_alt)
    ultimately have r: "sector d' = (\<lambda>k. if unat a + unat (i + ?t) \<le> k \<and> k < unat a + unat n
          then take (unat z) (drop ((k - unat a) * unat z) buf) else sector d1 k)"
      using less.hyps [OF pr(1)] by blast
    have shift: "(k - (unat a + unat i)) * unat z + unat i * unat z = (k - unat a) * unat z"
      if ge: "unat a + unat i \<le> k" for k
    proof -
      obtain j where "k = unat a + unat i + j" using le_Suc_ex [OF ge] by blast
      then show ?thesis by (simp add: distrib_right)
    qed
    show ?thesis
    proof
      fix k
      consider "k < unat a + unat i" | "unat a + unat i \<le> k" "k < unat a + unat i + unat ?t"
        | "unat a + unat i + unat ?t \<le> k" by linarith
      then show "sector d' k = (if unat a + unat i \<le> k \<and> k < unat a + unat n
          then take (unat z) (drop ((k - unat a) * unat z) buf) else sector d k)"
      proof cases
        case 1
        then show ?thesis unfolding r sd pr(2) by simp
      next
        case 2
        moreover have "drop ((k - (unat a + unat i)) * unat z) ?B = drop ((k - unat a) * unat z) buf"
          by (simp only: drop_drop shift [OF 2(1)])
        moreover have "k < unat a + unat n" using 2 pr(4) by linarith
        ultimately show ?thesis unfolding r sd pr(2) by simp
      next
        case 3
        then show ?thesis unfolding r sd pr(2) by simp
      qed
    qed
  qed
qed

section \<open>FatFs\<close>

text \<open>The documented behaviour of \<^verbatim>\<open>disk_read\<close> and \<^verbatim>\<open>disk_write\<close> of FatFs on drive \<open>v\<close>.\<close>

definition fat_reads :: "'d fat_driver \<Rightarrow> u8 \<Rightarrow> ('d \<Rightarrow> nat \<Rightarrow> bytes) \<Rightarrow> bool" where
  "fat_reads L v sector \<longleftrightarrow>
     (\<forall>s t d data d'. 0 < t \<and> disk_read L v s t d = ((True, data), d') \<longrightarrow>
        data = concat (map (sector d) [unat s..<unat s + unat t]) \<and> sector d' = sector d)"

definition fat_writes :: "'d fat_driver \<Rightarrow> u8 \<Rightarrow> nat \<Rightarrow> ('d \<Rightarrow> nat \<Rightarrow> bytes) \<Rightarrow> bool" where
  "fat_writes L v z sector \<longleftrightarrow>
     (\<forall>buf s t d d'. 0 < t \<and> disk_write L v buf s t d = (True, d') \<longrightarrow>
        sector d' = (\<lambda>k. if unat s \<le> k \<and> k < unat s + unat t
                         then take z (drop ((k - unat s) * z) buf) else sector d k))"

lemma fat_count:
  assumes "0 < (t :: u32)" and "t \<le> MAX_SECTOR_TRANSFER BDEV_FATFS"
  shows "unat (ucast t :: u8) = unat t" and "0 < (ucast t :: u8)"
proof -
  have "unat t \<le> 255" using assms(2) by (simp add: MAX_SECTOR_TRANSFER_def word_le_nat_alt)
  then show u: "unat (ucast t :: u8) = unat t" by (simp add: unsigned_ucast_eq take_bit_nat_eq_self)
  show "0 < (ucast t :: u8)" using assms(1) u by (simp add: word_less_nat_alt)
qed

lemma fat_reads_sectors:
  assumes "fat_reads L v sector"
  shows "reads_sectors (\<lambda>s t. disk_read L v s (ucast t)) (MAX_SECTOR_TRANSFER BDEV_FATFS) sector"
  unfolding reads_sectors_def
proof (intro allI impI, elim conjE)
  fix s t d data d'
  assume "0 < t" "t \<le> MAX_SECTOR_TRANSFER BDEV_FATFS" and r: "disk_read L v s (ucast t) d = ((True, data), d')"
  note c = fat_count [OF this(1,2)]
  from assms [unfolded fat_reads_def, rule_format, OF conjI [OF c(2) r]]
  show "data = concat (map (sector d) [unat s..<unat s + unat t]) \<and> sector d' = sector d"
    unfolding c(1) .
qed

lemma fat_writes_sectors:
  assumes "fat_writes L v z sector"
  shows "writes_sectors (\<lambda>buf s t. disk_write L v buf s (ucast t)) (MAX_SECTOR_TRANSFER BDEV_FATFS) z sector"
  unfolding writes_sectors_def
proof (intro allI impI, elim conjE)
  fix buf s t d d'
  assume "0 < t" "t \<le> MAX_SECTOR_TRANSFER BDEV_FATFS" and w: "disk_write L v buf s (ucast t) d = (True, d')"
  note c = fat_count [OF this(1,2)]
  from assms [unfolded fat_writes_def, rule_format, OF conjI [OF c(2) w]]
  show "sector d' = (\<lambda>k. if unat s \<le> k \<and> k < unat s + unat t
                        then take z (drop ((k - unat s) * z) buf) else sector d k)"
    unfolding c(1) .
qed

lemma concat_slices:
  "m * z \<le> length b \<Longrightarrow>
   concat (map (\<lambda>k. take z (drop ((k - a) * z) b)) [a..<a + m]) = take (m * z) b"
proof (induction m)
  case (Suc m)
  have "take (Suc m * z) b = take (m * z) b @ take z (drop (m * z) b)"
    by (metis add.commute mult_Suc take_add)
  then show ?case using Suc by simp
qed simp

text \<open>
  C12. What the FatFs implementation of the device writes it reads back, however many sectors the
  request has: it is split into transfers whose number of sectors fits into a byte. Sectors outside of
  the request keep their contents. The request lies below sector 2^32, which \<open>FatDiskOpen\<close> ensures.
\<close>

theorem fat_write_read:
  assumes contract: "fat_reads L v sector" "fat_writes L v (unat (ulSectorSize (vc v))) sector"
    and bound: "unat a + unat n \<le> 2 ^ 32" "unat n * unat (ulSectorSize (vc v)) < 2 ^ 32"
      "unat n * unat (ulSectorSize (vc v)) \<le> length buf"
    and wr: "FatDiskWrite L vc v a n buf d = (None, d1)"
    and rd: "FatDiskRead L vc v a n d1 = ((None, r), d2)"
  shows "r = take (unat n * unat (ulSectorSize (vc v))) buf \<and> sector d2 = sector d1 \<and>
    (\<forall>k. k \<notin> {unat a..<unat a + unat n} \<longrightarrow> sector d2 k = sector d k)"
proof -
  let ?z = "unat (ulSectorSize (vc v))" and ?range = "[unat a..<unat a + unat n]"
  let ?slice = "\<lambda>k. take ?z (drop ((k - unat a) * ?z) buf)"
  have s1: "sector d1 = (\<lambda>k. if unat a \<le> k \<and> k < unat a + unat n then ?slice k else sector d k)"
    using multi_write_contents [OF fat_writes_sectors [OF contract(2)] bound(1,2) wr [unfolded FatDiskWrite_def]]
    by simp
  have "(k - unat a) * ?z + ?z \<le> length buf" if "k < unat a + unat n" "unat a \<le> k" for k
  proof -
    have "Suc (k - unat a) * ?z \<le> unat n * ?z" using that by (intro mult_le_mono1) linarith
    then show ?thesis using bound(3) by simp
  qed
  then have "?z \<le> length buf - (k - unat a) * ?z" if "k < unat a + unat n" "unat a \<le> k" for k
    using that by (metis add.commute le_diff_conv2 add_leD1)
  then have "\<forall>k\<in>{unat a..<unat a + unat n}. length (sector d1 k) = ?z"
    by (auto simp: s1 intro!: min.absorb2)
  from multi_read_contents [OF fat_reads_sectors [OF contract(1)] bound(1,2) rd [unfolded FatDiskRead_def] _ _ this]
  have r: "r = concat (map (sector d1) ?range)" and s2: "sector d2 = sector d1" by simp_all
  have "concat (map (sector d1) ?range) = concat (map ?slice ?range)"
    by (rule arg_cong [where f = concat]) (simp add: s1)
  then show ?thesis using r s1 s2 concat_slices [OF bound(3), of "unat a"] by simp
qed

text \<open>A drive without failures, whose state is the function from sector numbers to sectors.\<close>

definition sample_fat :: "(nat \<Rightarrow> bytes) fat_driver" where
  "sample_fat =
     \<lparr>disk_initialize = \<lambda>v d. (True, d),
      disk_read = \<lambda>v s n d. ((True, concat (map d [unat s..<unat s + unat n])), d),
      disk_write = \<lambda>v buf s n d.
        (True, \<lambda>k. if unat s \<le> k \<and> k < unat s + unat n then take 2 (drop ((k - unat s) * 2) buf) else d k),
      GET_SECTOR_SIZE = \<lambda>v d. ((True, 2), d), GET_SECTOR_COUNT = \<lambda>v d. ((True, 2000), d),
      CTRL_SYNC = \<lambda>v d. (True, d), fat_delay = \<lambda>d. d\<rparr>"

definition sample_fat_conf :: "u8 \<Rightarrow> VOLCONF" where
  "sample_fat_conf = (\<lambda>_. sample_volconf\<lparr>ulSectorSize := 2\<rparr>)"

lemma sample_fat_contract: "fat_reads sample_fat 0 (\<lambda>d. d)" "fat_writes sample_fat 0 2 (\<lambda>d. d)"
  by (simp_all add: fat_reads_def fat_writes_def sample_fat_def)

lemma fat_write_read_witness:
  "\<exists>d1 d2. FatDiskWrite sample_fat sample_fat_conf 0 5 300 (replicate 600 7) (\<lambda>_. [0, 0]) = (None, d1)
     \<and> FatDiskRead sample_fat sample_fat_conf 0 5 300 d1 = ((None, replicate 600 7), d2)
     \<and> d2 4 = [0, 0] \<and> d2 305 = [0, 0]"
proof -
  let ?d = "\<lambda>_ :: nat. [0, 0] :: bytes"
  have "fst (FatDiskWrite sample_fat sample_fat_conf 0 5 300 (replicate 600 7) ?d) = None"
    by (simp add: FatDiskWrite_def sample_fat_def multi_write.simps MAX_SECTOR_TRANSFER_def min_def
        sample_fat_conf_def)
  then obtain d1 where w: "FatDiskWrite sample_fat sample_fat_conf 0 5 300 (replicate 600 7) ?d = (None, d1)"
    by (metis prod.collapse)
  have "fst (fst (FatDiskRead sample_fat sample_fat_conf 0 5 300 d1)) = None"
    by (simp add: FatDiskRead_def sample_fat_def multi_read.simps MAX_SECTOR_TRANSFER_def min_def
        sample_fat_conf_def Let_def)
  then obtain r d2 where rd: "FatDiskRead sample_fat sample_fat_conf 0 5 300 d1 = ((None, r), d2)"
    by (metis prod.collapse)
  have z: "unat (ulSectorSize (sample_fat_conf 0)) = 2" by (simp add: sample_fat_conf_def)
  have "r = replicate 600 7 \<and> d2 = d1 \<and> (\<forall>k. k \<notin> {5..<305 :: nat} \<longrightarrow> d2 k = ?d k)"
    using fat_write_read [OF sample_fat_contract [folded z] _ _ _ w rd] by (auto simp: z)
  then have res: "r = replicate 600 7" and out: "\<And>k. k \<notin> {5..<305 :: nat} \<Longrightarrow> d2 k = ?d k" by blast+
  have "d2 4 = [0, 0]" "d2 305 = [0, 0]" by (rule out, simp)+
  then show ?thesis using w rd res by blast
qed

end
