(* ===== verification/Atoi.thy ===== *)
theory Atoi
  imports Prelude
begin

text \<open>
  \<^verbatim>\<open>tests/util/atoi.c\<close>: conversion of strings to numbers. A string argument is the memory from its
  pointer on. Running past the end of memory is a fault. A function that returns a pointer behind the
  number gives the memory from there on, and \<open>None\<close> for \<^verbatim>\<open>NULL\<close>.
\<close>

section \<open>Faults\<close>

text \<open>
  What makes the behaviour of the C code undefined: reading behind the end of a string, writing behind
  the end of the output buffer or of a local array of digits, and an argument list that does not have the
  argument a format asks for.
\<close>

datatype fault = READ_PAST_END | WRITE_PAST_END | DIGITS_PAST_END | BAD_ARGUMENT

type_synonym 'a run = "fault + 'a"

definition bindE :: "'a run \<Rightarrow> ('a \<Rightarrow> 'b run) \<Rightarrow> 'b run" where
  "bindE m f = (case m of Inl e \<Rightarrow> Inl e | Inr x \<Rightarrow> f x)"

lemma bindE_simps [simp]: "bindE (Inl e) f = Inl e" "bindE (Inr x) f = f x"
  by (simp_all add: bindE_def)

lemma bindE_Inr: "bindE m f = Inr y \<longleftrightarrow> (\<exists>x. m = Inr x \<and> f x = Inr y)"
  by (cases m) simp_all

lemma bindE_cong [fundef_cong]:
  "m = m' \<Longrightarrow> (\<And>x. m' = Inr x \<Longrightarrow> f x = f' x) \<Longrightarrow> bindE m f = bindE m' f'"
  by (cases m') simp_all

definition char_at :: "bytes \<Rightarrow> nat \<Rightarrow> u8 run" where
  "char_at s i = (if i < length s then Inr (s ! i) else Inl READ_PAST_END)"

section \<open>Digits\<close>

definition ISDIGIT :: "u8 \<Rightarrow> bool" where
  "ISDIGIT c \<longleftrightarrow> c \<ge> 48 \<and> c \<le> 57"

definition ISHEXDIGITU :: "u8 \<Rightarrow> bool" where
  "ISHEXDIGITU c \<longleftrightarrow> c \<ge> 65 \<and> c \<le> 70"

definition ISHEXDIGITL :: "u8 \<Rightarrow> bool" where
  "ISHEXDIGITL c \<longleftrightarrow> c \<ge> 97 \<and> c \<le> 102"

definition ISHEXDIGIT :: "u8 \<Rightarrow> bool" where
  "ISHEXDIGIT c \<longleftrightarrow> ISHEXDIGITL c \<or> ISHEXDIGITU c"

section \<open>Decimal numbers\<close>

text \<open>
  The loops that read digits, from the memory at \<^verbatim>\<open>ulIdx\<close> on. \<^verbatim>\<open>int32_t\<close> values are words whose
  arithmetic wraps, which C leaves undefined.
\<close>

fun atoi_loop :: "bytes \<Rightarrow> u32 \<Rightarrow> u32 run" where
  "atoi_loop [] lValue = Inl READ_PAST_END"
| "atoi_loop (c # cs) lValue =
     (if ISDIGIT c then atoi_loop cs (lValue * 10 + ucast (c - 48)) else Inr lValue)"

fun skip_digits :: "bytes \<Rightarrow> bytes run" where
  "skip_digits [] = Inl READ_PAST_END"
| "skip_digits (c # cs) = (if ISDIGIT c then skip_digits cs else Inr (c # cs))"

fun ntoull_loop :: "bytes \<Rightarrow> u64 \<Rightarrow> (u64 \<times> bytes) run" where
  "ntoull_loop [] ullTemp = Inl READ_PAST_END"
| "ntoull_loop (c # cs) ullTemp =
     (if ISDIGIT c then ntoull_loop cs (ullTemp * 10 + ucast (c - 48)) else Inr (ullTemp, c # cs))"

definition RedAtoI :: "bytes \<Rightarrow> u32 run" where
  "RedAtoI pszNum =
     bindE (char_at pszNum 0) (\<lambda>c.
       if c = 43 then atoi_loop (drop 1 pszNum) 0
       else if c = 45 then bindE (atoi_loop (drop 1 pszNum) 0) (\<lambda>lValue. Inr (lValue * - 1))
       else atoi_loop pszNum 0)"

section \<open>Hexadecimal numbers\<close>

definition hex_digit :: "u8 \<Rightarrow> u8 option" where
  "hex_digit c =
     (if ISDIGIT c then Some (c - 48)
      else if ISHEXDIGITU c then Some (c - (65 - 10))
      else if ISHEXDIGITL c then Some (c - (97 - 10))
      else None)"

fun htoull_loop :: "bytes \<Rightarrow> u64 \<Rightarrow> bytes option \<Rightarrow> (u64 \<times> bytes) option run" where
  "htoull_loop [] ullValue pszReturn = Inl READ_PAST_END"
| "htoull_loop (c # cs) ullValue pszReturn =
     (case (if c = 0 then None else hex_digit c) of
        None \<Rightarrow> Inr (map_option (Pair ullValue) pszReturn)
      | Some cDigit \<Rightarrow> htoull_loop cs (push_bit 4 ullValue + ucast cDigit) (Some cs))"

definition RedHtoULL :: "bytes \<Rightarrow> (u64 \<times> bytes) option run" where
  "RedHtoULL pszNum = htoull_loop pszNum 0 None"

definition RedHtoUL :: "bytes \<Rightarrow> (u32 \<times> bytes) option run" where
  "RedHtoUL pszNum =
     bindE (RedHtoULL pszNum) (\<lambda>r. case r of
         None \<Rightarrow> Inr None
       | Some (ullValue, pszReturn) \<Rightarrow>
           Inr (if ullValue < 0xFFFFFFFF then Some (ucast ullValue, pszReturn) else None))"

section \<open>Numbers in either base\<close>

definition hex_prefix :: "bytes \<Rightarrow> bool run" where
  "hex_prefix s =
     bindE (char_at s 0) (\<lambda>c.
       if c = 48 then bindE (char_at s 1) (\<lambda>x. Inr (x = 120 \<or> x = 88)) else Inr False)"

definition RedNtoUL :: "bytes \<Rightarrow> (u32 \<times> bytes) option run" where
  "RedNtoUL pszNum =
     bindE (char_at pszNum 0) (\<lambda>c0.
     let fNegative = (c0 = 45); s = (if fNegative then drop 1 pszNum else pszNum)
     in bindE (hex_prefix s) (\<lambda>fHex.
        if fHex
        then bindE (char_at s 2) (\<lambda>c. if ISDIGIT c \<or> ISHEXDIGIT c then RedHtoUL (drop 2 s) else Inr None)
        else bindE (char_at s 0) (\<lambda>c.
          if ISDIGIT c
          then bindE (RedAtoI s) (\<lambda>ulTemp. bindE (skip_digits s) (\<lambda>rest.
            Inr (if fNegative
                 then if ulTemp > 0x7FFFFFFF then None else Some (- ulTemp, rest)
                 else Some (ulTemp, rest))))
          else Inr None)))"

definition RedNtoULL :: "bytes \<Rightarrow> (u64 \<times> bytes) option run" where
  "RedNtoULL pszNum =
     bindE (char_at pszNum 0) (\<lambda>c0.
     let fNegative = (c0 = 45); s = (if fNegative then drop 1 pszNum else pszNum)
     in bindE (hex_prefix s) (\<lambda>fHex.
        if fHex
        then bindE (char_at s 2) (\<lambda>c. if ISDIGIT c \<or> ISHEXDIGIT c then RedHtoULL (drop 2 s) else Inr None)
        else bindE (char_at s 0) (\<lambda>c.
          if ISDIGIT c
          then bindE (ntoull_loop s 0) (\<lambda>(ullTemp, rest).
            Inr (if fNegative
                 then if ullTemp > 0x7FFFFFFFFFFFFFFF then None else Some (- ullTemp, rest)
                 else Some (ullTemp, rest)))
          else Inr None)))"

section \<open>Sizes with a unit\<close>

text \<open>Whether the letter \<open>l\<close> (given in lower case), followed by \<^verbatim>\<open>B\<close> or \<^verbatim>\<open>b\<close>, begins the string.\<close>

definition unit_suffix :: "u8 \<Rightarrow> bytes \<Rightarrow> bool run" where
  "unit_suffix l s =
     bindE (char_at s 0) (\<lambda>c.
       if c = l - 32 \<or> c = l then bindE (char_at s 1) (\<lambda>b. Inr (b = 66 \<or> b = 98)) else Inr False)"

definition RedSizeToUL :: "bytes \<Rightarrow> (u32 \<times> bytes) option run" where
  "RedSizeToUL pszNum =
     bindE (RedNtoUL pszNum) (\<lambda>r. case r of
         None \<Rightarrow> Inr None
       | Some (ulResult, pszSuffix) \<Rightarrow>
           bindE (char_at pszSuffix 0) (\<lambda>c.
           if c = 66 \<or> c = 98 then Inr (Some (ulResult, drop 1 pszSuffix))
           else bindE (unit_suffix 109 pszSuffix) (\<lambda>mb.
             if mb
             then Inr (if ulResult > 0xFFFFFFFF div (1024 * 1024) then None
                       else Some (ulResult * (1024 * 1024), drop 2 pszSuffix))
             else bindE (unit_suffix 107 pszSuffix) (\<lambda>kb.
               let rest = (if kb then drop 2 pszSuffix else pszSuffix)
               in Inr (if ulResult > 0xFFFFFFFF div 1024 then None else Some (ulResult * 1024, rest))))))"

end
