(* ===== verification/RedMath.thy ===== *)
theory RedMath
  imports Prelude
begin

text \<open>
  \<^verbatim>\<open>tests/util/math.c\<close>: division of 64-bit integers without a 64-bit division, multiplication
  followed by division, and \<^verbatim>\<open>tests/util/rand.c\<close>. Out-parameters are results; a caller that passes
  \<^verbatim>\<open>NULL\<close> ignores them. \<^verbatim>\<open>REDERROR\<close> in these functions only reports.
\<close>

section \<open>Dividing a 64-bit by a 32-bit integer\<close>

text \<open>The 64-bit integer with two given halves, as a natural number and as a word.\<close>

lemma unat_ucast_up: "unat (ucast (x :: u32) :: u64) = unat x"
  using unsigned_less [of x, where ?'a = nat] by (simp add: unsigned_ucast_eq take_bit_nat_eq_self)

lemma unat_join:
  "unat (push_bit 32 (ucast (h :: u32)) + ucast (l :: u32) :: u64) = unat h * 2 ^ 32 + unat l"
proof -
  have h: "unat h < 2 ^ 32" and l: "unat l < 2 ^ 32"
    using unsigned_less [of h, where ?'a = nat] unsigned_less [of l, where ?'a = nat] by simp_all
  have "unat h * 2 ^ 32 \<le> (2 ^ 32 - 1) * 2 ^ 32" using h by (intro mult_le_mono1) simp
  then have b: "unat h * 2 ^ 32 + unat l < 2 ^ 64" using l by simp
  then have s: "unat (push_bit 32 (ucast h) :: u64) = unat h * 2 ^ 32"
    by (simp add: push_bit_eq_mult unat_word_ariths unat_ucast_up)
  show ?thesis
    unfolding unat_word_ariths(1) s unat_ucast_up using b by simp
qed

lemma unat_drop: "unat (drop_bit n (x :: 'a :: len word)) = unat x div 2 ^ n"
proof -
  have "take_bit LENGTH('a) (unat x) = unat x"
    using unsigned_less [of x, where ?'a = nat] by (simp add: take_bit_nat_eq_self)
  then show ?thesis unfolding unsigned_drop_bit_eq drop_bit_eq_div [where 'a = nat] by simp
qed

lemma unat_high: "unat (ucast (drop_bit 32 (x :: u64)) :: u32) = unat x div 2 ^ 32"
proof -
  have "unat x < 2 ^ 64" using unsigned_less [of x, where ?'a = nat] by simp
  then have "unat x div 2 ^ 32 < 2 ^ 32" by (simp add: less_mult_imp_div_less)
  then show ?thesis
    unfolding unsigned_ucast_eq unat_drop take_bit_eq_mod by simp
qed

lemma unat_low: "unat (ucast (x :: u64) :: u32) = unat x mod 2 ^ 32"
  unfolding unsigned_ucast_eq take_bit_eq_mod by simp

lemma join_halves: "unat (ucast (drop_bit 32 (x :: u64)) :: u32) * 2 ^ 32 + unat (ucast x :: u32) = unat x"
  unfolding unat_high unat_low [of x] by (rule div_mult_mod_eq)

lemma subtract_progress:
  assumes "(h :: u32) \<noteq> 0"
  shows "unat (push_bit 32 (ucast h) + ucast l - ucast (d :: u32) :: u64) = unat h * 2 ^ 32 + unat (l :: u32) - unat d"
    and "unat d \<le> unat h * 2 ^ 32 + unat l"
proof -
  have "unat d < 2 ^ 32" using unsigned_less [of d, where ?'a = nat] by simp
  moreover have "0 < unat h" using assms by (simp add: unat_gt_0)
  then have "2 ^ 32 \<le> unat h * 2 ^ 32" by simp
  ultimately show le: "unat d \<le> unat h * 2 ^ 32 + unat l" by linarith
  have "ucast d \<le> (push_bit 32 (ucast h) + ucast l :: u64)"
    using le by (simp only: word_le_nat_alt unat_join unat_ucast_up)
  then show "unat (push_bit 32 (ucast h) + ucast l - ucast d :: u64) = unat h * 2 ^ 32 + unat l - unat d"
    by (simp only: unat_sub unat_join unat_ucast_up)
qed

text \<open>
  The loop that subtracts the divisor while the high word of the intermediate value is not 0.
  The caller has excluded the divisor 0, for which it would not end.
\<close>

function divmod_subtract :: "u32 \<Rightarrow> u32 \<Rightarrow> u32 \<Rightarrow> u32 \<Rightarrow> u32 \<times> u32" where
  "divmod_subtract ulDivisor ulInterimHi ulInterimLo ulThisDivision =
     (if ulInterimHi \<noteq> 0 \<and> ulDivisor \<noteq> 0
      then let ullInterim = push_bit 32 (ucast ulInterimHi) + ucast ulInterimLo - ucast ulDivisor :: u64
           in divmod_subtract ulDivisor (ucast (drop_bit 32 ullInterim)) (ucast ullInterim) (ulThisDivision + 1)
      else (ulInterimLo, ulThisDivision))"
  by pat_completeness auto
termination
proof (relation "measure (\<lambda>(d, h, l, t). unat h * 2 ^ 32 + unat l)")
  fix d h l t :: u32 and x :: u64
  assume c: "h \<noteq> 0 \<and> d \<noteq> 0" and x: "x = push_bit 32 (ucast h) + ucast l - ucast d"
  have "0 < unat d" using c by (simp add: unat_gt_0)
  then have "unat x < unat h * 2 ^ 32 + unat l"
    using subtract_progress [OF conjunct1 [OF c], of l d] subtract_progress(2) [OF conjunct1 [OF c], of d l]
    unfolding x by linarith
  then show "((d, ucast (drop_bit 32 x), ucast x, t + 1), (d, h, l, t))
      \<in> measure (\<lambda>(d, h, l, t). unat h * 2 ^ 32 + unat l)"
    by (simp only: in_measure prod.case join_halves)
qed simp

declare divmod_subtract.simps [simp del]

text \<open>The body of the loop over the bytes of the low half; the state is remainder, result and mask.\<close>

definition divmod_byte :: "u32 \<Rightarrow> u32 \<Rightarrow> nat \<Rightarrow> u32 \<times> u32 \<times> u32 \<Rightarrow> u32 \<times> u32 \<times> u32" where
  "divmod_byte ulDivisor ulLowDword bIndex = (\<lambda>(ulRemainder, ulResultLo, ulMask).
     let ucNextValue = ucast (drop_bit ((4 - 1 - bIndex) * 8) (ulLowDword AND ulMask)) :: u8;
         ulInterimHi = drop_bit 24 ulRemainder;
         ulInterimLo = push_bit 8 ulRemainder OR ucast ucNextValue;
         (lo, ulThisDivision) = divmod_subtract ulDivisor ulInterimHi ulInterimLo 0
     in (lo mod ulDivisor, push_bit 8 ulResultLo + (ulThisDivision + lo div ulDivisor), drop_bit 8 ulMask))"

definition RedUint64DivMod32 :: "u64 \<Rightarrow> u32 \<Rightarrow> u64 \<times> u32" where
  "RedUint64DivMod32 ullDividend ulDivisor =
     (if ulDivisor = 0 then (0xFFFFFFFFFFFFFBAD, 0xFFFFFBAD)
      else if ullDividend \<le> 0xFFFFFFFF
      then let ulDividend = ucast ullDividend :: u32
           in (ucast (ulDividend div ulDivisor), ulDividend mod ulDivisor)
      else let ulLowDword = ucast ullDividend :: u32;
               ulHighDword = ucast (drop_bit 32 ullDividend) :: u32;
               ulResultHi = ulHighDword div ulDivisor;
               (ulRemainder, ulResultLo, ulMask) =
                 fold (divmod_byte ulDivisor ulLowDword) [0, 1, 2, 3]
                   (ulHighDword mod ulDivisor, 0, 0xFF000000);
               ullQuotient = push_bit 32 (ucast ulResultHi) + ucast ulResultLo
           in (ullQuotient, ucast (ullDividend - ullQuotient * ucast ulDivisor)))"

section \<open>Dividing 64-bit integers\<close>

definition nlz_step :: "u64 \<Rightarrow> nat \<Rightarrow> u32 \<times> u64 \<Rightarrow> u32 \<times> u64" where
  "nlz_step limit k = (\<lambda>(n, x). if x \<le> limit then (n + of_nat k, push_bit k x) else (n, x))"

definition nlz64 :: "u64 \<Rightarrow> u32" where
  "nlz64 ullValue =
     (if ullValue = 0 then 64
      else let (n, x) = nlz_step 0x3FFFFFFFFFFFFFFF 2 (nlz_step 0x0FFFFFFFFFFFFFFF 4
             (nlz_step 0x00FFFFFFFFFFFFFF 8 (nlz_step 0x0000FFFFFFFFFFFF 16
               (nlz_step 0x00000000FFFFFFFF 32 (0, ullValue)))))
           in if x \<le> 0x7FFFFFFFFFFFFFFF then n + 1 else n)"

definition RedUint64DivMod64 :: "u64 \<Rightarrow> u64 \<Rightarrow> u64 \<times> u64" where
  "RedUint64DivMod64 ullDividend ullDivisor =
     (let ullQuotient =
        (if drop_bit 32 ullDivisor = 0
         then if drop_bit 32 ullDividend < ullDivisor
              then fst (RedUint64DivMod32 ullDividend (ucast ullDivisor))
              else let u1 = drop_bit 32 ullDividend;
                       u0 = ullDividend AND 0xFFFFFFFF;
                       (q1, k) = RedUint64DivMod32 u1 (ucast ullDivisor);
                       q0 = fst (RedUint64DivMod32 (push_bit 32 (ucast k) + u0) (ucast ullDivisor))
                   in push_bit 32 q1 + q0
         else let n = unat (nlz64 ullDivisor);
                  v1 = drop_bit 32 (push_bit n ullDivisor);
                  u1 = drop_bit 1 ullDividend;
                  q1 = fst (RedUint64DivMod32 u1 (ucast v1));
                  q0 = drop_bit 31 (push_bit n q1);
                  q0 = (if q0 \<noteq> 0 then q0 - 1 else q0)
              in if ullDividend - q0 * ullDivisor \<ge> ullDivisor then q0 + 1 else q0)
      in (ullQuotient, ullDividend - ullQuotient * ullDivisor))"

section \<open>Multiplying and dividing\<close>

lemma unat_half: "unat (drop_bit 1 (x :: 'a :: len word)) = unat x div 2"
  by (simp only: unat_drop power_one_right)

text \<open>
  The loop of \<^verbatim>\<open>RedMulDiv64\<close>. The result is \<open>Inl\<close> of the value the function returns from inside the
  loop, or \<open>Inr\<close> of the base, the multiplier and the divisor behind the loop. The loop is entered with
  operands other than 0; it would not end for the multiplier 0.
\<close>

definition muldiv_last :: "u64 \<Rightarrow> u32 \<Rightarrow> u64 \<Rightarrow> u64 \<Rightarrow> u64" where
  "muldiv_last ullBase ulMultiplier ullDivisor ullTemp =
     (let (ullBaseTemp, ullMod) = RedUint64DivMod64 ullBase ullDivisor in
      if ullMod = 0
      then if ullBaseTemp > ullTemp then - 1 else ullBaseTemp * ucast ulMultiplier
      else let (ullWideMultiplier, ullMod) = RedUint64DivMod64 (ucast ulMultiplier) ullDivisor in
        if ullMod = 0
        then let ullTemp = fst (RedUint64DivMod64 (- 1) ullBase) in
          if ullWideMultiplier > ullTemp then - 1
          else ullBase * ucast (ucast ullWideMultiplier :: u32)
        else let (ullBase, ulMultiplier) =
                   (if ullBase < ucast ulMultiplier then (ucast ulMultiplier, ucast ullBase)
                    else (ullBase, ulMultiplier));
                 ullBase = fst (RedUint64DivMod64 ullBase ullDivisor);
                 ullTemp = fst (RedUint64DivMod32 (- 1) ulMultiplier)
             in if ullBase > ullTemp then - 1 else ullBase * ucast ulMultiplier)"

function muldiv_loop :: "u64 \<Rightarrow> u32 \<Rightarrow> u64 \<Rightarrow> u64 \<Rightarrow> u64 + u64 \<times> u32 \<times> u64" where
  "muldiv_loop ullBase ulMultiplier ullDivisor ullTemp =
     (if ullBase > ullTemp
      then if ullDivisor AND 1 = 0 \<and> ullBase AND 1 = 0
        then muldiv_loop (drop_bit 1 ullBase) ulMultiplier (drop_bit 1 ullDivisor) ullTemp
        else if ullDivisor AND 1 = 0 \<and> ulMultiplier AND 1 = 0 \<and> ulMultiplier \<noteq> 0
          \<and> ullTemp AND 0x8000000000000000 = 0
        then muldiv_loop ullBase (drop_bit 1 ulMultiplier) (drop_bit 1 ullDivisor) (push_bit 1 ullTemp)
        else Inl (muldiv_last ullBase ulMultiplier ullDivisor ullTemp)
      else Inr (ullBase, ulMultiplier, ullDivisor))"
  by pat_completeness auto

termination
proof (relation "measure (\<lambda>(b, m, d, t). unat b + unat m)")
  fix b d t :: u64 and m :: u32
  assume "t < b"
  then have "0 < unat b" by (simp add: word_less_nat_alt)
  then show "((drop_bit 1 b, m, drop_bit 1 d, t), b, m, d, t) \<in> measure (\<lambda>(b, m, d, t). unat b + unat m)"
    by (simp add: unat_half flip: One_nat_def)
next
  fix b d t :: u64 and m :: u32
  assume "d AND 1 = 0 \<and> m AND 1 = 0 \<and> m \<noteq> 0 \<and> t AND 0x8000000000000000 = 0"
  then have "0 < unat m" by (simp add: unat_gt_0)
  then show "((b, drop_bit 1 m, drop_bit 1 d, push_bit 1 t), b, m, d, t) \<in> measure (\<lambda>(b, m, d, t). unat b + unat m)"
    by (simp add: unat_half flip: One_nat_def)
qed simp

declare muldiv_loop.simps [simp del]

definition RedMulDiv64 :: "u64 \<Rightarrow> u32 \<Rightarrow> u64 \<Rightarrow> u64" where
  "RedMulDiv64 ullBase ulMultiplier ullDivisor =
     (if ullBase = 0 \<or> ulMultiplier = 0 then 0
      else if ullDivisor = 0 then - 1
      else case muldiv_loop ullBase ulMultiplier ullDivisor (fst (RedUint64DivMod32 (- 1) ulMultiplier)) of
        Inl r \<Rightarrow> r
      | Inr (ullBase, ulMultiplier, ullDivisor) \<Rightarrow>
          fst (RedUint64DivMod64 (ullBase * ucast ulMultiplier) ullDivisor))"

section \<open>Random numbers\<close>

text \<open>
  The static variables of the file: \<open>None\<close> stands for \<^verbatim>\<open>fGlobalSeedInited\<close> being false. The seed
  argument is \<open>None\<close> where C has \<^verbatim>\<open>NULL\<close>; \<open>now\<close> is what \<open>RedOsClockGetTime\<close> returns. The results are
  the number, the seed behind the pointer and the static state afterwards.
\<close>

type_synonym rand_state = "u64 option"

definition RedRandSeed :: "u64 \<Rightarrow> rand_state \<Rightarrow> rand_state" where
  "RedRandSeed ullSeed g = Some ullSeed"

definition rand_temper :: "u64 \<Rightarrow> u64" where
  "rand_temper ullN =
     (let ullT = 4921441182957829599;
          ullN = ullN XOR (drop_bit 21 ullN AND ullT);
          ullN = ullN XOR (drop_bit 43 ullN AND ullT);
          ullN = ullN XOR (push_bit 23 ullN AND NOT ullT);
          ullN = ullN XOR (push_bit 31 ullN AND NOT ullT)
      in ullN)"

definition RedRand64 :: "u32 \<Rightarrow> u64 option \<Rightarrow> rand_state \<Rightarrow> u64 \<times> u64 option \<times> rand_state" where
  "RedRand64 now pullSeed g =
     (case pullSeed of
        Some ullLocalSeed \<Rightarrow>
          (let ullN = ullLocalSeed * 2862933555777941757 + 3037000493
           in (rand_temper ullN, Some ullN, g))
      | None \<Rightarrow>
          (let g1 = (case g of None \<Rightarrow> RedRandSeed (ucast now) g | Some _ \<Rightarrow> g);
               ullN = the g1 * 2862933555777941757 + 3037000493
           in (rand_temper ullN, None, Some ullN)))"

definition RedRand32 :: "u32 \<Rightarrow> u32 option \<Rightarrow> rand_state \<Rightarrow> u32 \<times> u32 option \<times> rand_state" where
  "RedRand32 now pulSeed g =
     (case pulSeed of
        Some s \<Rightarrow>
          (case RedRand64 now (Some (ucast s)) g of
             (ullN, seed, g') \<Rightarrow> (ucast ullN, map_option ucast seed, g'))
      | None \<Rightarrow> (case RedRand64 now None g of (ullN, _, g') \<Rightarrow> (ucast ullN, None, g')))"

end
