(* ===== verification/Printf.thy ===== *)
theory Printf
  imports Atoi MathCorrect MemStr
begin

text \<open>
  \<^verbatim>\<open>tests/util/printf.c\<close>: formatted output, and \<open>RedRatio\<close> of \<^verbatim>\<open>tests/util/math.c\<close>, which uses it.
  The output buffer is a memory block \<open>buf\<close>; a pointer into it is an offset, and its length as the code is
  told is \<open>ulBufferLen\<close>, which may be less than the memory has. Writing behind the memory is a fault.
  Lengths and indices, which stay below \<open>2 ^ 32\<close>, are natural numbers.
\<close>

section \<open>Memory\<close>

definition put_at :: "nat \<Rightarrow> u8 \<Rightarrow> bytes \<Rightarrow> bytes run" where
  "put_at i c buf = (if i < length buf then Inr (buf[i := c]) else Inl WRITE_PAST_END)"

definition copy_at :: "nat \<Rightarrow> nat \<Rightarrow> bytes \<Rightarrow> bytes \<Rightarrow> bytes run" where
  "copy_at i n src buf =
     (if length src < n then Inl READ_PAST_END
      else if length buf < i + n then Inl WRITE_PAST_END
      else Inr (take i buf @ RedMemCpyUnchecked (drop i buf) src n))"

definition str_len :: "bytes \<Rightarrow> nat run" where
  "str_len s = (case RedStrLen (Some s) of None \<Rightarrow> Inl READ_PAST_END | Some n \<Rightarrow> Inr n)"

section \<open>Formats\<close>

datatype PRINTTYPE =
    PRFMT_UNKNOWN | PRFMT_CHAR | PRFMT_ANSISTRING | PRFMT_SIGNED8BIT | PRFMT_UNSIGNED8BIT
  | PRFMT_SIGNED16BIT | PRFMT_UNSIGNED16BIT | PRFMT_SIGNED32BIT | PRFMT_UNSIGNED32BIT
  | PRFMT_SIGNED64BIT | PRFMT_UNSIGNED64BIT | PRFMT_HEX8BIT | PRFMT_HEX16BIT | PRFMT_HEX32BIT
  | PRFMT_HEX64BIT | PRFMT_POINTER | PRFMT_DOUBLEPERCENT

record PRINTFORMAT =
  fmt_type :: PRINTTYPE
  ulSpecifierIdx :: nat
  ulFillLen :: nat
  cFillChar :: u8
  fLeftJustified :: bool
  fHasIllegalType :: bool
  fHasVarWidth :: bool

text \<open>The widths of the compiler's types in bits, which the code tests with \<^verbatim>\<open>#if\<close> and \<^verbatim>\<open>sizeof\<close>.\<close>

record abi =
  short_bits :: nat
  int_bits :: nat
  long_bits :: nat
  pointer_bits :: nat

definition map_signed :: "nat \<Rightarrow> PRINTTYPE" where
  "map_signed bits =
     (if bits = 16 then PRFMT_SIGNED16BIT else if bits = 32 then PRFMT_SIGNED32BIT else PRFMT_SIGNED64BIT)"

definition map_unsigned :: "nat \<Rightarrow> PRINTTYPE" where
  "map_unsigned bits =
     (if bits = 16 then PRFMT_UNSIGNED16BIT else if bits = 32 then PRFMT_UNSIGNED32BIT else PRFMT_UNSIGNED64BIT)"

definition map_hex :: "nat \<Rightarrow> PRINTTYPE" where
  "map_hex bits =
     (if bits = 16 then PRFMT_HEX16BIT else if bits = 32 then PRFMT_HEX32BIT else PRFMT_HEX64BIT)"

text \<open>The letters \<^verbatim>\<open>d\<close>, \<^verbatim>\<open>u\<close> and \<^verbatim>\<open>x\<close> for an integer of some width.\<close>

definition int_letter :: "nat \<Rightarrow> u8 \<Rightarrow> PRINTTYPE" where
  "int_letter bits c =
     (if c = 100 then map_signed bits else if c = 117 then map_unsigned bits
      else if c = 120 then map_hex bits else PRFMT_UNKNOWN)"

definition ParseFormatType :: "abi \<Rightarrow> bytes \<Rightarrow> (PRINTTYPE \<times> nat) run" where
  "ParseFormatType m pszFormat =
     bindE (char_at pszFormat 0) (\<lambda>c.
     bindE (if c = 37 then Inr (PRFMT_DOUBLEPERCENT, 0)
            else if c = 99 then Inr (PRFMT_CHAR, 0)
            else if c = 115 then Inr (PRFMT_ANSISTRING, 0)
            else if c = 112 then Inr (PRFMT_POINTER, 0)
            else if c = 104 then bindE (char_at pszFormat 1) (\<lambda>c1. Inr (int_letter (short_bits m) c1, 1))
            else if c = 108 then bindE (char_at pszFormat 1) (\<lambda>c1.
              if c1 = 108 then bindE (char_at pszFormat 2) (\<lambda>c2.
                Inr (if c2 = 88 then PRFMT_HEX64BIT else int_letter 64 c2, 2))
              else Inr (int_letter (long_bits m) c1, 1))
            else Inr (int_letter (int_bits m) c, 0))
       (\<lambda>(fmtType, ulIdx). Inr (fmtType, if fmtType \<noteq> PRFMT_UNKNOWN then ulIdx + 1 else 0)))"

text \<open>
  What is read behind the percent sign at \<open>spec\<close>: the format, and the index of its type letters.
\<close>

definition parse_flags :: "bytes \<Rightarrow> nat \<Rightarrow> (PRINTFORMAT \<times> nat) run" where
  "parse_flags pszFormat spec =
     bindE (char_at pszFormat (spec + 1)) (\<lambda>c1.
     let left = (c1 = 45); i = (if left then spec + 2 else spec + 1)
     in bindE (char_at pszFormat i) (\<lambda>c2.
     let fill = (if c2 = 48 \<or> c2 = 95 then c2 else 32);
         i' = (if c2 = 48 \<or> c2 = 95 then i + 1 else i)
     in bindE (char_at pszFormat i') (\<lambda>c3.
        let fmt = \<lparr>fmt_type = PRFMT_UNKNOWN, ulSpecifierIdx = spec, ulFillLen = 0, cFillChar = fill,
                   fLeftJustified = left, fHasIllegalType = False, fHasVarWidth = (c3 = 42)\<rparr>
        in if c3 = 42 then Inr (fmt, i' + 1)
           else if ISDIGIT c3
           then bindE (RedAtoI (drop i' pszFormat)) (\<lambda>n. bindE (skip_digits (drop i' pszFormat)) (\<lambda>rest.
                  Inr (fmt\<lparr>ulFillLen := unat n\<rparr>, length pszFormat - length rest)))
           else Inr (fmt, i'))))"

text \<open>
  The result is \<open>None\<close> where the code returns 0, and the length of the specifier with the format
  otherwise. The flag \<^verbatim>\<open>fContainsIllegalSequence\<close> of the code is never set.
\<close>

function parse_specifier :: "abi \<Rightarrow> bytes \<Rightarrow> nat \<Rightarrow> (nat \<times> PRINTFORMAT) option run" where
  "parse_specifier m pszFormat ulIdx =
     (if ulIdx < length pszFormat
      then if pszFormat ! ulIdx = 0 then Inr None
        else if pszFormat ! ulIdx \<noteq> 37 then parse_specifier m pszFormat (ulIdx + 1)
        else bindE (parse_flags pszFormat ulIdx) (\<lambda>(fmt, i).
             bindE (ParseFormatType m (drop i pszFormat)) (\<lambda>(ty, ulTypeLen).
               if ty \<noteq> PRFMT_UNKNOWN
               then Inr (Some ((i - ulIdx) + ulTypeLen, fmt\<lparr>fmt_type := ty\<rparr>))
               else parse_specifier m pszFormat (ulIdx + 1)))
      else Inl READ_PAST_END)"
  by pat_completeness auto

termination
  by (relation "measure (\<lambda>(m, s, i). length s - i)") auto

declare parse_specifier.simps [simp del]

definition ParseFormatSpecifier :: "abi \<Rightarrow> bytes \<Rightarrow> (nat \<times> PRINTFORMAT) option run" where
  "ParseFormatSpecifier m pszFormat = parse_specifier m pszFormat 0"

text \<open>
  The part of the format in front of the next specifier is copied to the buffer at \<open>off\<close>. Results: the
  number of bytes copied, the specifier, and the buffer.
\<close>

definition ProcessFormatSegment ::
  "abi \<Rightarrow> nat \<Rightarrow> nat \<Rightarrow> bytes \<Rightarrow> bytes \<Rightarrow> (nat \<times> (nat \<times> PRINTFORMAT) option \<times> bytes) run" where
  "ProcessFormatSegment m off ulBufferLen pszFormat buf =
     bindE (ParseFormatSpecifier m pszFormat) (\<lambda>spec.
     bindE (case spec of
         None \<Rightarrow> bindE (str_len pszFormat) (\<lambda>n. Inr (min ulBufferLen n, None))
       | Some (len, fmt) \<Rightarrow>
           (let (len, fmt) =
              (if fmt_type fmt = PRFMT_DOUBLEPERCENT
               then (len - 1, fmt\<lparr>ulSpecifierIdx := ulSpecifierIdx fmt + 1\<rparr>) else (len, fmt))
            in Inr (if ulSpecifierIdx fmt \<noteq> 0 then min ulBufferLen (ulSpecifierIdx fmt) else 0, Some (len, fmt))))
       (\<lambda>(ulWidth, spec).
        bindE (copy_at off ulWidth pszFormat buf) (\<lambda>buf.
        bindE (if ulWidth < ulBufferLen then put_at (off + ulWidth) 0 buf else Inr buf) (\<lambda>buf.
          Inr (ulWidth, spec, buf)))))"

section \<open>Numbers\<close>

text \<open>\<open>gacDigits\<close> is the string of the sixteen digits.\<close>

definition gacDigits :: bytes where
  "gacDigits = [48, 49, 50, 51, 52, 53, 54, 55, 56, 57, 65, 66, 67, 68, 69, 70]"

text \<open>Storing a digit in the local array, which has \<open>cap\<close> bytes.\<close>

definition push_digit :: "nat \<Rightarrow> bytes \<Rightarrow> u8 \<Rightarrow> bytes run" where
  "push_digit cap ach c = (if length ach < cap then Inr (ach @ [c]) else Inl DIGITS_PAST_END)"

function ultoa_digits :: "nat \<Rightarrow> bool \<Rightarrow> u32 \<Rightarrow> bytes \<Rightarrow> bytes run" where
  "ultoa_digits cap fHex ulNumericVal ach =
     (let ulRadix = (if fHex then 16 else 10) in
      bindE (push_digit cap ach (gacDigits ! unat (ulNumericVal mod ulRadix))) (\<lambda>ach'.
        if ulNumericVal div ulRadix > 0 then ultoa_digits cap fHex (ulNumericVal div ulRadix) ach'
        else Inr ach'))"
  by pat_completeness auto

termination
proof (relation "measure (\<lambda>(cap, h, n, ach). unat n)")
  fix cap :: nat and fHex and n r :: u32 and ach a :: bytes
  assume r: "r = (if fHex then 16 else 10)" and "0 < n div r"
  then have "n \<noteq> 0" by auto
  then have "0 < unat n" by (simp add: unat_gt_0)
  then show "((cap, fHex, n div r, a), cap, fHex, n, ach) \<in> measure (\<lambda>(cap, h, n, ach). unat n)"
    using r by (simp add: unat_div)
qed simp

function lltoa_digits :: "nat \<Rightarrow> u64 \<Rightarrow> bytes \<Rightarrow> bytes run" where
  "lltoa_digits cap ullNum ach =
     (case RedUint64DivMod32 ullNum 10 of
        (ullQuotient, ulRemainder) \<Rightarrow>
          bindE (push_digit cap ach (gacDigits ! unat ulRemainder)) (\<lambda>ach'.
            if ullQuotient > 0 then lltoa_digits cap ullQuotient ach' else Inr ach'))"
  by pat_completeness auto

termination
proof (relation "measure (\<lambda>(cap, n, ach). unat n)")
  fix cap :: nat and n q :: u64 and r :: u32 and ach a :: bytes
  assume e: "(q, r) = RedUint64DivMod32 n 10" and "0 < q"
  have "q = n div 10" using e divmod32_correct' [of 10 n] by simp
  then have "0 < unat n" using \<open>0 < q\<close> by (cases "n = 0") (auto simp: unat_gt_0)
  then show "((cap, q, a), cap, n, ach) \<in> measure (\<lambda>(cap, n, ach). unat n)"
    using \<open>q = n div 10\<close> by (simp add: unat_div)
qed simp

function ulltoa_hex :: "nat \<Rightarrow> u64 \<Rightarrow> bytes \<Rightarrow> bytes run" where
  "ulltoa_hex cap ullNumericVal ach =
     bindE (push_digit cap ach (gacDigits ! unat (ullNumericVal AND 15))) (\<lambda>ach'.
       if drop_bit 4 ullNumericVal > 0 then ulltoa_hex cap (drop_bit 4 ullNumericVal) ach' else Inr ach')"
  by pat_completeness auto

termination
proof (relation "measure (\<lambda>(cap, n, ach). unat n)")
  fix cap :: nat and n :: u64 and ach a :: bytes
  assume "0 < drop_bit 4 n"
  then have "0 < unat n" by (cases "n = 0") (auto simp: unat_gt_0)
  then show "((cap, drop_bit 4 n, a), cap, n, ach) \<in> measure (\<lambda>(cap, n, ach). unat n)"
    by (simp add: unat_drop)
qed simp

declare ultoa_digits.simps [simp del] lltoa_digits.simps [simp del] ulltoa_hex.simps [simp del]

text \<open>
  \<open>FinishToA\<close> writes fill characters and the digits in reverse order. The loops are recursions on the
  rest to be filled and on the number of digits that are left; they return the index they reach.
\<close>

fun finish_fill :: "nat \<Rightarrow> nat \<Rightarrow> u8 \<Rightarrow> nat \<Rightarrow> nat \<Rightarrow> bytes \<Rightarrow> (nat \<times> bytes) run" where
  "finish_fill off ulBufferLen cFill 0 ulIdx buf = Inr (ulIdx, buf)"
| "finish_fill off ulBufferLen cFill (Suc ulFillRem) ulIdx buf =
     (if ulIdx < ulBufferLen
      then bindE (put_at (off + ulIdx) cFill buf) (finish_fill off ulBufferLen cFill ulFillRem (ulIdx + 1))
      else Inr (ulIdx, buf))"

fun finish_reverse :: "nat \<Rightarrow> nat \<Rightarrow> bytes \<Rightarrow> nat \<Rightarrow> nat \<Rightarrow> bytes \<Rightarrow> (nat \<times> bytes) run" where
  "finish_reverse off ulBufferLen pcDigits 0 ulIdx buf = Inr (ulIdx, buf)"
| "finish_reverse off ulBufferLen pcDigits (Suc ulDigitIdx) ulIdx buf =
     (if ulIdx < ulBufferLen
      then bindE (put_at (off + ulIdx) (pcDigits ! ulDigitIdx) buf)
             (finish_reverse off ulBufferLen pcDigits ulDigitIdx (ulIdx + 1))
      else Inr (ulIdx, buf))"

definition FinishToA :: "bytes \<Rightarrow> nat \<Rightarrow> nat \<Rightarrow> nat \<Rightarrow> u8 \<Rightarrow> bytes \<Rightarrow> (nat \<times> bytes) run" where
  "FinishToA pcDigits off ulBufferLen ulFillLen' cFill buf =
     (let ulDigits = length pcDigits in
      bindE (finish_fill off ulBufferLen cFill (if ulFillLen' > ulDigits then ulFillLen' - ulDigits else 0) 0 buf)
        (\<lambda>(ulIdx, buf). bindE (finish_reverse off ulBufferLen pcDigits ulDigits ulIdx buf) (\<lambda>(ulIdx, buf).
          bindE (if ulIdx < ulBufferLen then put_at (off + ulIdx) 0 buf else Inr buf) (\<lambda>buf. Inr (ulIdx, buf)))))"

text \<open>The numbers of the signed routines are words read as two's complement. The buffer is never null.\<close>

definition LtoA :: "nat \<Rightarrow> nat \<Rightarrow> u32 \<Rightarrow> nat \<Rightarrow> u8 \<Rightarrow> bytes \<Rightarrow> (nat \<times> bytes) run" where
  "LtoA off ulBufferLen lNum ulFillLen' cFill buf =
     (let fSign = sint lNum < 0; ulNum = (if fSign then - lNum else lNum)
      in bindE (ultoa_digits 12 False ulNum []) (\<lambda>ach.
         bindE (if fSign then push_digit 12 ach 45 else Inr ach) (\<lambda>ach.
           FinishToA ach off ulBufferLen ulFillLen' cFill buf)))"

definition LLtoA :: "nat \<Rightarrow> nat \<Rightarrow> u64 \<Rightarrow> nat \<Rightarrow> u8 \<Rightarrow> bytes \<Rightarrow> (nat \<times> bytes) run" where
  "LLtoA off ulBufferLen llNum ulFillLen' cFill buf =
     (let fSign = sint llNum < 0; ullNum = (if fSign then - llNum else llNum)
      in bindE (lltoa_digits 12 ullNum []) (\<lambda>ach.
         bindE (if fSign then push_digit 12 ach 45 else Inr ach) (\<lambda>ach.
           FinishToA ach off ulBufferLen ulFillLen' cFill buf)))"

definition ULtoA :: "nat \<Rightarrow> nat \<Rightarrow> u32 \<Rightarrow> bool \<Rightarrow> nat \<Rightarrow> u8 \<Rightarrow> bytes \<Rightarrow> (nat \<times> bytes) run" where
  "ULtoA off ulBufferLen ulNum fHex ulFillLen' cFill buf =
     bindE (ultoa_digits 11 fHex ulNum []) (\<lambda>ach. FinishToA ach off ulBufferLen ulFillLen' cFill buf)"

definition ULLtoA :: "nat \<Rightarrow> nat \<Rightarrow> u64 \<Rightarrow> bool \<Rightarrow> nat \<Rightarrow> u8 \<Rightarrow> bytes \<Rightarrow> (nat \<times> bytes) run" where
  "ULLtoA off ulBufferLen ullNum fHex ulFillLen' cFill buf =
     bindE (if fHex then ulltoa_hex 21 ullNum [] else lltoa_digits 21 ullNum [])
       (\<lambda>ach. FinishToA ach off ulBufferLen ulFillLen' cFill buf)"

section \<open>Arguments\<close>

text \<open>
  An element of \<^verbatim>\<open>va_list\<close> is a number or a pointer to a string; a number is cut to the width of the type
  it is fetched with. A pointer that is formatted is a number.
\<close>

datatype va = VNum int | VStr "bytes option"

definition num_arg :: "va list \<Rightarrow> (int \<times> va list) run" where
  "num_arg args = (case args of VNum i # rest \<Rightarrow> Inr (i, rest) | _ \<Rightarrow> Inl BAD_ARGUMENT)"

definition str_arg :: "va list \<Rightarrow> (bytes option \<times> va list) run" where
  "str_arg args = (case args of VStr s # rest \<Rightarrow> Inr (s, rest) | _ \<Rightarrow> Inl BAD_ARGUMENT)"

text \<open>
  The loops that write a string argument. \<open>str_pad\<close> writes fill characters as long as the fill length is
  greater than a limit; \<open>str_copy\<close> copies the string. Both return the index, the rest of the fill length
  and the buffer.
\<close>

fun str_pad :: "u8 \<Rightarrow> nat \<Rightarrow> nat \<Rightarrow> nat \<Rightarrow> nat \<Rightarrow> bytes \<Rightarrow> (nat \<times> nat \<times> bytes) run" where
  "str_pad c ulBufferLen limit 0 ulBufIdx buf = Inr (ulBufIdx, 0, buf)"
| "str_pad c ulBufferLen limit (Suc fill) ulBufIdx buf =
     (if ulBufIdx < ulBufferLen \<and> Suc fill > limit
      then bindE (put_at ulBufIdx c buf) (str_pad c ulBufferLen limit fill (ulBufIdx + 1))
      else Inr (ulBufIdx, Suc fill, buf))"

fun str_copy :: "nat \<Rightarrow> bytes \<Rightarrow> nat \<Rightarrow> nat \<Rightarrow> bytes \<Rightarrow> (nat \<times> nat \<times> bytes) run" where
  "str_copy ulBufferLen [] fill ulBufIdx buf =
     (if ulBufIdx < ulBufferLen then Inl READ_PAST_END else Inr (ulBufIdx, fill, buf))"
| "str_copy ulBufferLen (c # cs) fill ulBufIdx buf =
     (if ulBufIdx < ulBufferLen \<and> c \<noteq> 0
      then bindE (put_at ulBufIdx c buf) (str_copy ulBufferLen cs (fill - 1) (ulBufIdx + 1))
      else Inr (ulBufIdx, fill, buf))"

definition print_string :: "PRINTFORMAT \<Rightarrow> bytes option \<Rightarrow> nat \<Rightarrow> nat \<Rightarrow> bytes \<Rightarrow> (nat \<times> bytes) run" where
  "print_string fmt pszArg ulBufferLen ulBufIdx buf =
     (let arg = (case pszArg of None \<Rightarrow> [110, 117, 108, 108, 0] | Some s \<Rightarrow> s) in
      if ulFillLen fmt > 0
      then bindE (if \<not> fLeftJustified fmt
                  then bindE (str_len arg) (\<lambda>ulLen.
                         str_pad (cFillChar fmt) ulBufferLen ulLen (ulFillLen fmt) ulBufIdx buf)
                  else Inr (ulBufIdx, ulFillLen fmt, buf))
           (\<lambda>(ulBufIdx, fill, buf).
            bindE (str_copy ulBufferLen arg fill ulBufIdx buf) (\<lambda>(ulBufIdx, fill, buf).
            bindE (str_pad 32 ulBufferLen 0 fill ulBufIdx buf) (\<lambda>(ulBufIdx, fill, buf). Inr (ulBufIdx, buf))))
      else bindE (str_copy ulBufferLen arg 0 ulBufIdx buf) (\<lambda>(ulBufIdx, fill, buf). Inr (ulBufIdx, buf)))"

text \<open>The conversion of a number; the result is the length of the output.\<close>

definition print_number ::
  "abi \<Rightarrow> PRINTFORMAT \<Rightarrow> int \<Rightarrow> nat \<Rightarrow> nat \<Rightarrow> bytes \<Rightarrow> (nat \<times> bytes) run" where
  "print_number m fmt i ulBufferLen ulBufIdx buf =
     (let len = ulBufferLen - ulBufIdx; n = ulFillLen fmt; c = cFillChar fmt in
      case fmt_type fmt of
        PRFMT_CHAR \<Rightarrow> bindE (put_at ulBufIdx (word_of_int i) buf) (\<lambda>buf. Inr (1, buf))
      | PRFMT_SIGNED8BIT \<Rightarrow> LtoA ulBufIdx len (scast (word_of_int i :: u8)) n c buf
      | PRFMT_UNSIGNED8BIT \<Rightarrow> ULtoA ulBufIdx len (ucast (word_of_int i :: u8)) False n c buf
      | PRFMT_HEX8BIT \<Rightarrow> ULtoA ulBufIdx len (ucast (word_of_int i :: u8)) True n c buf
      | PRFMT_SIGNED16BIT \<Rightarrow> LtoA ulBufIdx len (scast (word_of_int i :: u16)) n c buf
      | PRFMT_UNSIGNED16BIT \<Rightarrow> ULtoA ulBufIdx len (ucast (word_of_int i :: u16)) False n c buf
      | PRFMT_HEX16BIT \<Rightarrow> ULtoA ulBufIdx len (ucast (word_of_int i :: u16)) True n c buf
      | PRFMT_SIGNED32BIT \<Rightarrow> LtoA ulBufIdx len (word_of_int i) n c buf
      | PRFMT_UNSIGNED32BIT \<Rightarrow> ULtoA ulBufIdx len (word_of_int i) False n c buf
      | PRFMT_HEX32BIT \<Rightarrow> ULtoA ulBufIdx len (word_of_int i) True n c buf
      | PRFMT_SIGNED64BIT \<Rightarrow> LLtoA ulBufIdx len (word_of_int i) n c buf
      | PRFMT_UNSIGNED64BIT \<Rightarrow> ULLtoA ulBufIdx len (word_of_int i) False n c buf
      | PRFMT_HEX64BIT \<Rightarrow> ULLtoA ulBufIdx len (word_of_int i) True n c buf
      | PRFMT_POINTER \<Rightarrow>
          (if pointer_bits m > 32 then ULLtoA ulBufIdx len (word_of_int i) True n c buf
           else ULtoA ulBufIdx len (word_of_int i) True n c buf)
      | _ \<Rightarrow> Inr (0, buf))"

definition print_arg ::
  "abi \<Rightarrow> PRINTFORMAT \<Rightarrow> va list \<Rightarrow> nat \<Rightarrow> nat \<Rightarrow> bytes \<Rightarrow> (nat \<times> va list \<times> bytes) run" where
  "print_arg m fmt args ulBufferLen ulBufIdx buf =
     bindE (if fHasVarWidth fmt
            then bindE (num_arg args) (\<lambda>(i, args).
                   let iFillLen = sint (word_of_int i :: u32)
                   in Inr (fmt\<lparr>ulFillLen := if iFillLen \<ge> 0 then nat iFillLen else 0\<rparr>, args))
            else Inr (fmt, args))
       (\<lambda>(fmt, args).
        if fmt_type fmt = PRFMT_DOUBLEPERCENT \<or> fmt_type fmt = PRFMT_UNKNOWN then Inr (ulBufIdx, args, buf)
        else if fmt_type fmt = PRFMT_ANSISTRING
        then bindE (str_arg args) (\<lambda>(pszArg, args).
               bindE (print_string fmt pszArg ulBufferLen ulBufIdx buf) (\<lambda>(ulBufIdx, buf). Inr (ulBufIdx, args, buf)))
        else bindE (num_arg args) (\<lambda>(i, args).
               bindE (print_number m fmt i ulBufferLen ulBufIdx buf) (\<lambda>(n, buf). Inr (ulBufIdx + n, args, buf))))"

section \<open>The formatting functions\<close>

text \<open>The loop of \<open>RedVSNPrintf\<close>, which ends with the index into the buffer and the buffer.\<close>

function vsnprintf_loop ::
  "abi \<Rightarrow> nat \<Rightarrow> bytes \<Rightarrow> nat \<Rightarrow> nat \<Rightarrow> va list \<Rightarrow> bytes \<Rightarrow> (nat \<times> bytes) run" where
  "vsnprintf_loop m ulBufferLen pszFormat ulFmtIdx ulBufIdx args buf =
     (if ulFmtIdx < length pszFormat
      then if pszFormat ! ulFmtIdx \<noteq> 0 \<and> ulBufIdx < ulBufferLen
        then bindE (ProcessFormatSegment m ulBufIdx (ulBufferLen - ulBufIdx) (drop ulFmtIdx pszFormat) buf)
          (\<lambda>(ulWidth, spec, buf).
           case spec of
             None \<Rightarrow> Inr (ulBufIdx + ulWidth, buf)
           | Some (ulSpecifierLen, fmt) \<Rightarrow>
               if ulSpecifierLen = 0 \<or> ulBufIdx + ulWidth = ulBufferLen then Inr (ulBufIdx + ulWidth, buf)
               else bindE (print_arg m fmt args ulBufferLen (ulBufIdx + ulWidth) buf) (\<lambda>(ulBufIdx, args, buf).
                 vsnprintf_loop m ulBufferLen pszFormat (ulFmtIdx + ulSpecifierIdx fmt + ulSpecifierLen)
                   ulBufIdx args buf))
        else Inr (ulBufIdx, buf)
      else Inl READ_PAST_END)"
  by pat_completeness auto

termination
  by (relation "measure (\<lambda>(m, l, f, i, b, a, u). length f - i)") auto

declare vsnprintf_loop.simps [simp del]

definition RedVSNPrintf :: "abi \<Rightarrow> nat \<Rightarrow> bytes \<Rightarrow> va list \<Rightarrow> bytes \<Rightarrow> (int \<times> bytes) run" where
  "RedVSNPrintf m ulBufferLen pszFormat arglist pcBuffer =
     bindE (vsnprintf_loop m ulBufferLen pszFormat 0 0 arglist pcBuffer) (\<lambda>(ulBufIdx, buf).
       if ulBufIdx < ulBufferLen
       then bindE (put_at ulBufIdx 0 buf) (\<lambda>buf. Inr (int ulBufIdx, buf))
       else Inr (- 1, buf))"

definition RedSNPrintf :: "abi \<Rightarrow> nat \<Rightarrow> bytes \<Rightarrow> va list \<Rightarrow> bytes \<Rightarrow> (int \<times> bytes) run" where
  "RedSNPrintf m ulBufferLen pszFormat arglist pcBuffer = RedVSNPrintf m ulBufferLen pszFormat arglist pcBuffer"

text \<open>
  \<open>RedVPrintf\<close> formats into a local buffer, whose contents before are \<open>stack\<close>, and gives it to
  \<open>RedOsOutputString\<close>: it is the result.
\<close>

definition OUTPUT_BUFFER_SIZE :: nat where "OUTPUT_BUFFER_SIZE = 256"

definition RedVPrintf :: "abi \<Rightarrow> bytes \<Rightarrow> bytes \<Rightarrow> va list \<Rightarrow> bytes run" where
  "RedVPrintf m stack pszFormat arglist =
     bindE (RedVSNPrintf m OUTPUT_BUFFER_SIZE pszFormat arglist stack) (\<lambda>(r, achBuffer).
       if r = - 1
       then bindE (put_at (OUTPUT_BUFFER_SIZE - 1) 0 achBuffer) (\<lambda>achBuffer.
            bindE (str_len pszFormat) (\<lambda>n.
            bindE (char_at pszFormat (n - 1)) (\<lambda>c.
              if c = 10 then put_at (OUTPUT_BUFFER_SIZE - 2) 10 achBuffer else Inr achBuffer)))
       else Inr achBuffer)"

definition RedPrintf :: "abi \<Rightarrow> bytes \<Rightarrow> bytes \<Rightarrow> va list \<Rightarrow> bytes run" where
  "RedPrintf m stack pszFormat arglist = RedVPrintf m stack pszFormat arglist"

section \<open>RedRatio\<close>

text \<open>The formats \<^verbatim>\<open>"%llu.%0*llu"\<close>, \<^verbatim>\<open>"%llu"\<close> and \<^verbatim>\<open>"0.%0*u"\<close>.\<close>

definition RATIO_FORMAT :: bytes where
  "RATIO_FORMAT = [37, 108, 108, 117, 46, 37, 48, 42, 108, 108, 117, 0]"

definition LLU_FORMAT :: bytes where
  "LLU_FORMAT = [37, 108, 108, 117, 0]"

definition ZERO_FORMAT :: bytes where
  "ZERO_FORMAT = [48, 46, 37, 48, 42, 117, 0]"

definition RedRatio :: "abi \<Rightarrow> nat \<Rightarrow> u64 \<Rightarrow> u64 \<Rightarrow> u32 \<Rightarrow> bytes \<Rightarrow> bytes run" where
  "RedRatio m ulBufferLen ullDividend ullDivisor ulDecPlaces pBuffer =
     bindE
       (if ullDivisor > 0 \<and> ullDividend > 0
        then let ulFactor = ((\<lambda>f. f * 10) ^^ unat ulDecPlaces) 1;
                 ullDecimal = RedMulDiv64 ullDividend ulFactor ullDivisor;
                 ullDecimal = (if ullDivisor \<le> ullDividend then ucast (snd (RedUint64DivMod32 ullDecimal ulFactor))
                               else ullDecimal);
                 ullTemp = fst (RedUint64DivMod64 ullDividend ullDivisor)
             in if ulDecPlaces > 0
                then bindE (RedSNPrintf m ulBufferLen RATIO_FORMAT
                             [VNum (uint ullTemp), VNum (uint ulDecPlaces), VNum (uint ullDecimal)] pBuffer)
                       (\<lambda>(r, buf). Inr buf)
                else bindE (RedSNPrintf m ulBufferLen LLU_FORMAT [VNum (uint ullTemp)] pBuffer) (\<lambda>(r, buf). Inr buf)
        else if ulDecPlaces > 0
        then bindE (RedSNPrintf m ulBufferLen ZERO_FORMAT [VNum (uint ulDecPlaces), VNum 0] pBuffer)
               (\<lambda>(r, buf). Inr buf)
        else (case RedStrNCpy (Some pBuffer) (Some [48, 0]) ulBufferLen of
                None \<Rightarrow> Inl READ_PAST_END | Some buf \<Rightarrow> Inr buf))
       (put_at (ulBufferLen - 1) 0)"

end
