(* ===== verification/PrintfCorrect.thy ===== *)
theory PrintfCorrect
  imports Printf
begin

text \<open>
  Formatted output stays inside its buffer, numbers printed are read back by the conversions of
  \<^verbatim>\<open>atoi.c\<close>, and the digits of a signed 64-bit integer that overrun the array they are stored in.
\<close>

text \<open>The widths on the 32-bit processors FreeRTOS runs on.\<close>

definition sample_abi :: abi where
  "sample_abi = \<lparr>short_bits = 16, int_bits = 32, long_bits = 32, pointer_bits = 32\<rparr>"

section \<open>Writing into the buffer\<close>

definition write_at :: "nat \<Rightarrow> bytes \<Rightarrow> bytes \<Rightarrow> bytes" where
  "write_at i xs buf = take i buf @ xs @ drop (i + length xs) buf"

named_theorems write_simps \<open>effect of writing a run of bytes\<close>

lemma write_at_nil [write_simps]: "write_at i [] buf = buf"
  by (simp add: write_at_def)

lemma write_at_length [write_simps]: "i + length xs \<le> length buf \<Longrightarrow> length (write_at i xs buf) = length buf"
  by (simp add: write_at_def)

lemma write_at_append [write_simps]:
  "i + length xs + length ys \<le> length buf \<Longrightarrow> j = i + length xs \<Longrightarrow>
   write_at j ys (write_at i xs buf) = write_at i (xs @ ys) buf"
  by (simp add: write_at_def add.commute add.left_commute)

lemma write_at_take: "i \<le> length buf \<Longrightarrow> take (i + length xs) (write_at i xs buf) = take i buf @ xs"
  by (simp add: write_at_def)

lemma write_at_drop: "i \<le> length buf \<Longrightarrow> drop i (write_at i xs buf) = xs @ drop (i + length xs) buf"
  by (simp add: write_at_def)

lemma write_at_beyond: "i + length xs \<le> L \<Longrightarrow> L \<le> length buf \<Longrightarrow> drop L (write_at i xs buf) = drop L buf"
  by (simp add: write_at_def)

lemma put_at_write [write_simps]: "i < length buf \<Longrightarrow> put_at i c buf = Inr (write_at i [c] buf)"
  by (simp add: put_at_def write_at_def upd_conv_take_nth_drop)

lemma copy_at_write [write_simps]:
  "n \<le> length src \<Longrightarrow> i + n \<le> length buf \<Longrightarrow> copy_at i n src buf = Inr (write_at i (take n src) buf)"
  by (simp add: copy_at_def write_at_def RedMemCpyUnchecked_eq add.commute)

section \<open>Finishing a number\<close>

lemma finish_fill_spec:
  "off + L \<le> length buf \<Longrightarrow> idx \<le> L \<Longrightarrow>
   finish_fill off L c n idx buf =
     Inr (idx + min n (L - idx), write_at (off + idx) (replicate (min n (L - idx)) c) buf)"
proof (induction n arbitrary: idx buf)
  case 0
  then show ?case by (simp add: write_simps)
next
  case (Suc n)
  show ?case
  proof (cases "idx < L")
    case True
    have m: "min (Suc n) (L - idx) = Suc (min n (L - (idx + 1)))" using True by simp
    show ?thesis
      using Suc True m by (simp add: write_simps del: min_Suc1 min_Suc2)
  qed (use Suc in \<open>simp add: write_simps\<close>)
qed

lemma finish_reverse_spec:
  "off + L \<le> length buf \<Longrightarrow> idx \<le> L \<Longrightarrow> n \<le> length ds \<Longrightarrow>
   finish_reverse off L ds n idx buf =
     Inr (idx + min n (L - idx), write_at (off + idx) (take (L - idx) (rev (take n ds))) buf)"
proof (induction n arbitrary: idx buf)
  case 0
  then show ?case by (simp add: write_simps)
next
  case (Suc n)
  show ?case
  proof (cases "idx < L")
    case True
    have m: "min (Suc n) (L - idx) = Suc (min n (L - (idx + 1)))" using True by simp
    have t: "take (L - idx) (rev (take (Suc n) ds)) = ds ! n # take (L - (idx + 1)) (rev (take n ds))"
    proof -
      have "L - idx = Suc (L - (idx + 1))" using True by simp
      then show ?thesis using Suc.prems(3) by (simp add: take_Suc_conv_app_nth)
    qed
    show ?thesis
      using Suc True m t by (simp add: write_simps del: min_Suc1 min_Suc2)
  qed (use Suc in \<open>simp add: write_simps\<close>)
qed

definition number_text :: "bytes \<Rightarrow> nat \<Rightarrow> u8 \<Rightarrow> bytes" where
  "number_text ds n c = replicate (n - length ds) c @ rev ds"

text \<open>The text of a number, cut to the length of the buffer, and a terminator if there is room for it.\<close>

lemma FinishToA_spec:
  assumes "off + L \<le> length buf"
  shows "FinishToA ds off L n c buf =
    (if length (number_text ds n c) < L
     then Inr (length (number_text ds n c), write_at off (number_text ds n c @ [0]) buf)
     else Inr (L, write_at off (take L (number_text ds n c)) buf))"
proof -
  let ?p = "n - length ds"
  let ?k = "min ?p L"
  have f: "finish_fill off L c (if n > length ds then n - length ds else 0) 0 buf =
      Inr (?k, write_at off (replicate ?k c) buf)"
    using finish_fill_spec [OF assms, of 0 c ?p] by (cases "n > length ds") simp_all
  have r: "finish_reverse off L ds (length ds) ?k (write_at off (replicate ?k c) buf) =
      Inr (?k + min (length ds) (L - ?k), write_at off (replicate ?k c @ take (L - ?k) (rev ds)) buf)"
    using finish_reverse_spec [of off L "write_at off (replicate ?k c) buf" ?k "length ds" ds] assms
    by (simp add: write_simps)
  have t: "replicate ?k c @ take (L - ?k) (rev ds) = take L (number_text ds n c)"
    by (simp add: number_text_def min_def)
  have l: "?k + min (length ds) (L - ?k) = min L (length (number_text ds n c))"
    unfolding number_text_def length_append length_replicate length_rev by arith
  show ?thesis
  proof (cases "length (number_text ds n c) < L")
    case True
    then show ?thesis
      using f r assms unfolding t l by (simp add: FinishToA_def Let_def write_simps)
  next
    case False
    then have "?k + min (length ds) (L - ?k) = L" using l by simp
    with r have r': "finish_reverse off L ds (length ds) ?k (write_at off (replicate ?k c) buf) =
        Inr (L, write_at off (take L (number_text ds n c)) buf)"
      unfolding t by simp
    show ?thesis using False unfolding FinishToA_def Let_def f bindE_simps prod.case r' by simp
  qed
qed

section \<open>Digits\<close>

text \<open>The digits of a number in base \<open>b\<close>, least significant first; \<open>b\<close> is at least 2.\<close>

function digs :: "nat \<Rightarrow> nat \<Rightarrow> nat list" where
  "digs b n = n mod b # (if 2 \<le> b \<and> n div b > 0 then digs b (n div b) else [])"
  by pat_completeness auto

termination
  by (relation "measure (\<lambda>(b, n). n)") (auto intro!: div_less_dividend gr0I)

declare digs.simps [simp del]

lemma digs_less: "2 \<le> b \<Longrightarrow> d \<in> set (digs b n) \<Longrightarrow> d < b"
  by (induction b n rule: digs.induct) (subst (asm) (2) digs.simps, auto split: if_splits)

lemma digs_nonempty [simp]: "digs b n \<noteq> []"
  by (subst digs.simps) simp

lemma length_digs:
  assumes "2 \<le> b"
  shows "0 < k \<Longrightarrow> length (digs b n) \<le> k \<longleftrightarrow> n < b ^ k"
proof (induction k arbitrary: n)
  case (Suc k)
  show ?case
  proof (cases "n div b > 0")
    case True
    then have l: "length (digs b n) = Suc (length (digs b (n div b)))" using assms by (subst digs.simps) simp
    show ?thesis
    proof (cases "k = 0")
      case True
      then show ?thesis using l \<open>n div b > 0\<close> by (simp add: div_greater_zero_iff not_less flip: length_greater_0_conv)
    next
      case False
      then have "length (digs b (n div b)) \<le> k \<longleftrightarrow> n div b < b ^ k" using Suc.IH by simp
      then show ?thesis using l assms by (simp add: div_less_iff_less_mult mult.commute)
    qed
  next
    case False
    then have "n < b" using assms by (simp add: div_greater_zero_iff)
    moreover have "length (digs b n) = 1" using False by (subst digs.simps) simp
    moreover have "b ^ 1 \<le> b ^ Suc k" using assms by (intro power_increasing) simp_all
    ultimately show ?thesis by (simp add: less_le_trans)
  qed
qed simp

text \<open>Horner's rule gives the number back, in the arithmetic of any semiring.\<close>

lemma digs_value:
  assumes "2 \<le> b"
  shows "foldl (\<lambda>a d. a * of_nat b + of_nat d) (0 :: 'a :: comm_semiring_1) (rev (digs b n)) = of_nat n"
  using assms
proof (induction b n rule: digs.induct)
  case (1 b n)
  have "of_nat (n div b) * of_nat b + of_nat (n mod b) = (of_nat n :: 'a)"
    by (metis div_mult_mod_eq of_nat_add of_nat_mult)
  then show ?case
    using 1 by (subst digs.simps) (auto simp: less_Suc_eq_0_disj)
qed

section \<open>The digit loops\<close>

definition digit_chars :: "nat \<Rightarrow> nat \<Rightarrow> bytes" where
  "digit_chars b n = map (\<lambda>d. gacDigits ! d) (digs b n)"

lemma digit_chars_step:
  assumes "2 \<le> b"
  shows "digit_chars b n = gacDigits ! (n mod b) # (if 0 < n div b then digit_chars b (n div b) else [])"
  unfolding digit_chars_def using assms by (subst digs.simps) simp

lemma length_digit_chars [simp]: "length (digit_chars b n) = length (digs b n)"
  by (simp add: digit_chars_def)

definition digits_run :: "nat \<Rightarrow> nat \<Rightarrow> nat \<Rightarrow> bytes \<Rightarrow> bytes run" where
  "digits_run cap b n ach =
     (if length ach + length (digs b n) \<le> cap then Inr (ach @ digit_chars b n) else Inl DIGITS_PAST_END)"

text \<open>One digit, and the loop on the rest of the number.\<close>

lemma digits_run_step:
  assumes "2 \<le> b"
  shows "digits_run cap b n ach =
    bindE (push_digit cap ach (gacDigits ! (n mod b))) (\<lambda>ach'.
      if 0 < n div b then digits_run cap b (n div b) ach' else Inr ach')"
proof -
  have l: "length (digs b n) = Suc (if 0 < n div b then length (digs b (n div b)) else 0)"
    using assms by (subst digs.simps) simp
  have c: "digit_chars b n = gacDigits ! (n mod b) # (if 0 < n div b then digit_chars b (n div b) else [])"
    by (rule digit_chars_step [OF assms])
  show ?thesis
    by (cases "0 < n div b") (auto simp: digits_run_def push_digit_def l c)
qed

lemma bindE_if_cong:
  assumes "\<And>x. m = Inr x \<Longrightarrow> c \<Longrightarrow> f x = f' x"
  shows "bindE m (\<lambda>x. if c then f x else g x) = bindE m (\<lambda>x. if c then f' x else g x)"
  using assms by (cases m) simp_all

lemma lltoa_digits_spec: "lltoa_digits cap n ach = digits_run cap 10 (unat n) ach"
proof (induction cap n ach rule: lltoa_digits.induct)
  case (1 cap n ach)
  have d: "RedUint64DivMod32 n 10 = (n div 10, ucast (n mod 10))"
    using divmod32_correct' [of 10 n] by simp
  have "unat n mod 10 < 2 ^ 32" by simp
  then have r: "unat (ucast (n mod 10) :: u32) = unat n mod 10"
    using unat_ucast_down [of "n mod 10"] by (simp add: unat_mod)
  have dv: "unat (n div 10) = unat n div 10" by (simp add: unat_div)
  then have q: "0 < n div 10 \<longleftrightarrow> 0 < unat n div 10" by (simp add: word_less_nat_alt)
  note IH = 1 [OF d [symmetric], unfolded r q dv]
  have "lltoa_digits cap n ach = bindE (push_digit cap ach (gacDigits ! (unat n mod 10)))
      (\<lambda>a. if 0 < unat n div 10 then lltoa_digits cap (n div 10) a else Inr a)"
    by (subst lltoa_digits.simps) (simp only: d prod.case r q)
  also have "\<dots> = digits_run cap 10 (unat n) ach"
    by (subst digits_run_step, simp, rule bindE_if_cong, rule IH)
  finally show ?case .
qed

lemma ultoa_digits_spec: "ultoa_digits cap h n ach = digits_run cap (if h then 16 else 10) (unat n) ach"
proof (induction cap h n ach rule: ultoa_digits.induct)
  case (1 cap h n ach)
  let ?b = "if h then 16 else 10 :: u32" and ?B = "if h then 16 else 10 :: nat"
  have dv: "unat (n div ?b) = unat n div ?B" and md: "unat (n mod ?b) = unat n mod ?B"
    by (simp_all add: unat_div unat_mod)
  then have q: "0 < n div ?b \<longleftrightarrow> 0 < unat n div ?B" by (simp add: word_less_nat_alt)
  note IH = 1 [OF refl, unfolded md q dv]
  have "ultoa_digits cap h n ach = bindE (push_digit cap ach (gacDigits ! (unat n mod ?B)))
      (\<lambda>a. if 0 < unat n div ?B then ultoa_digits cap h (n div ?b) a else Inr a)"
    by (subst ultoa_digits.simps) (simp only: Let_def md q)
  also have "\<dots> = digits_run cap ?B (unat n) ach"
    by (subst digits_run_step, simp, rule bindE_if_cong, rule IH)
  finally show ?case .
qed

lemma ulltoa_hex_spec: "ulltoa_hex cap n ach = digits_run cap 16 (unat n) ach"
proof (induction cap n ach rule: ulltoa_hex.induct)
  case (1 cap n ach)
  have md: "unat (n AND 15) = unat n mod 16"
  proof -
    have "n AND 15 = take_bit 4 n" by (simp add: take_bit_eq_mask mask_eq_exp_minus_1)
    then show ?thesis by (simp add: unsigned_take_bit_eq take_bit_eq_mod [where 'a = nat])
  qed
  have dv: "unat (drop_bit 4 n) = unat n div 16" by (simp add: unat_drop)
  then have q: "0 < drop_bit 4 n \<longleftrightarrow> 0 < unat n div 16" by (simp add: word_less_nat_alt)
  note IH = 1 [unfolded md q dv]
  have "ulltoa_hex cap n ach = bindE (push_digit cap ach (gacDigits ! (unat n mod 16)))
      (\<lambda>a. if 0 < unat n div 16 then ulltoa_hex cap (drop_bit 4 n) a else Inr a)"
    by (subst ulltoa_hex.simps) (simp only: md q)
  also have "\<dots> = digits_run cap 16 (unat n) ach"
    by (subst digits_run_step, simp, rule bindE_if_cong, rule IH)
  finally show ?case .
qed

text \<open>Which numbers have room in the arrays of digits.\<close>

lemma digits_fit:
  assumes "2 \<le> b" and "n < b ^ cap" and "0 < cap"
  shows "digits_run cap b n [] = Inr (digit_chars b n)"
  using assms length_digs [of b cap n] by (simp add: digits_run_def)

section \<open>Reading digits\<close>

lemma decimal_digit:
  assumes "d < 10"
  shows "ISDIGIT (gacDigits ! d)" and "ucast (gacDigits ! d - 48) = (of_nat d :: u64)"
proof -
  have "d \<in> {0, 1, 2, 3, 4, 5, 6, 7, 8, 9}" using assms by auto
  then show "ISDIGIT (gacDigits ! d)" and "ucast (gacDigits ! d - 48) = (of_nat d :: u64)"
    by (auto simp: gacDigits_def ISDIGIT_def)
qed

lemma hexadecimal_digit:
  assumes "d < 16"
  shows "gacDigits ! d \<noteq> 0" and "hex_digit (gacDigits ! d) = Some (of_nat d)"
    and "ucast (of_nat d :: u8) = (of_nat d :: u64)"
proof -
  have "list_all (\<lambda>d. gacDigits ! d \<noteq> 0 \<and> hex_digit (gacDigits ! d) = Some (of_nat d)
      \<and> ucast (of_nat d :: u8) = (of_nat d :: u64)) [0..<16]"
    by code_simp
  then show "gacDigits ! d \<noteq> 0" and "hex_digit (gacDigits ! d) = Some (of_nat d)"
    and "ucast (of_nat d :: u8) = (of_nat d :: u64)"
    using assms by (simp_all add: list_all_iff)
qed

lemma ntoull_loop_digits:
  "\<forall>d\<in>set ds. d < 10 \<Longrightarrow> \<not> ISDIGIT c \<Longrightarrow>
   ntoull_loop (map (\<lambda>d. gacDigits ! d) ds @ c # rest) acc =
     Inr (foldl (\<lambda>a d. a * of_nat 10 + of_nat d) acc ds, c # rest)"
  by (induction ds arbitrary: acc) (simp_all add: decimal_digit)

lemma htoull_loop_digits:
  "\<forall>d\<in>set ds. d < 16 \<Longrightarrow> ds \<noteq> [] \<Longrightarrow>
   htoull_loop (map (\<lambda>d. gacDigits ! d) ds @ 0 # rest) acc ret =
     Inr (Some (foldl (\<lambda>a d. a * of_nat 16 + of_nat d) acc ds, 0 # rest))"
proof (induction ds arbitrary: acc ret)
  case (Cons d ds)
  show ?case
    using Cons by (cases "ds = []") (simp_all add: hexadecimal_digit push_bit_eq_mult)
qed simp

lemma digit_chars_rev: "rev (digit_chars b n) = map (\<lambda>d. gacDigits ! d) (rev (digs b n))"
  by (simp add: digit_chars_def rev_map)

text \<open>Printed digits are read back as the number.\<close>

lemma read_decimal: "ntoull_loop (rev (digit_chars 10 n) @ 0 # rest) 0 = Inr (of_nat n, 0 # rest)"
proof -
  have "ntoull_loop (rev (digit_chars 10 n) @ 0 # rest) 0 =
      Inr (foldl (\<lambda>a d. a * of_nat 10 + of_nat d) 0 (rev (digs 10 n)), 0 # rest)"
    unfolding digit_chars_rev
    by (rule ntoull_loop_digits) (use digs_less [of 10] in \<open>auto simp: ISDIGIT_def\<close>)
  then show ?thesis using digs_value [of 10 n, where 'a = u64] by simp
qed

lemma read_hexadecimal: "RedHtoULL (rev (digit_chars 16 n) @ 0 # rest) = Inr (Some (of_nat n, 0 # rest))"
proof -
  have "RedHtoULL (rev (digit_chars 16 n) @ 0 # rest) =
      Inr (Some (foldl (\<lambda>a d. a * of_nat 16 + of_nat d) 0 (rev (digs 16 n)), 0 # rest))"
    unfolding digit_chars_rev RedHtoULL_def
    by (rule htoull_loop_digits) (use digs_less [of 16] in auto)
  then show ?thesis using digs_value [of 16 n, where 'a = u64] by simp
qed

text \<open>The most significant digit of a number other than 0 is not 0.\<close>

lemma last_digs: "2 \<le> b \<Longrightarrow> 0 < n \<Longrightarrow> 0 < last (digs b n)"
proof (induction b n rule: digs.induct)
  case (1 b n)
  show ?case
  proof (cases "0 < n div b")
    case True
    then show ?thesis using 1 by (subst digs.simps) simp
  next
    case False
    then have "n mod b = n" using 1(2) by (simp add: div_greater_zero_iff)
    then show ?thesis using 1 False by (subst digs.simps) simp
  qed
qed

text \<open>A printed decimal number does not look like a hexadecimal one, and has no sign.\<close>

lemma decimal_first:
  obtains d rest where "rev (digit_chars 10 n) = gacDigits ! d # rest" "d < 10"
    "d = 0 \<Longrightarrow> rest = []"
proof -
  let ?ds = "digs 10 n" and ?f = "\<lambda>d. gacDigits ! d"
  have "rev xs = last xs # rev (butlast xs)" if "xs \<noteq> []" for xs :: bytes
    using that by (cases xs rule: rev_cases) simp_all
  from this [of "map ?f ?ds"] have e: "rev (digit_chars 10 n) = gacDigits ! last ?ds # rev (map ?f (butlast ?ds))"
    by (simp add: digit_chars_def last_map map_butlast)
  have "last ?ds < 10" using digs_less [of 10 "last ?ds" n] by simp
  moreover have "rev (map ?f (butlast ?ds)) = []" if "last ?ds = 0"
  proof -
    have "n = 0" using last_digs [of 10 n] that by auto
    then show ?thesis by (simp add: digs.simps [of 10 0])
  qed
  ultimately show thesis by (rule that [OF e])
qed

lemma parse_decimal:
  assumes "n < 2 ^ 64"
  shows "RedNtoULL (rev (digit_chars 10 n) @ 0 # rest) = Inr (Some (of_nat n, 0 # rest))"
proof -
  obtain d cs where e: "rev (digit_chars 10 n) = gacDigits ! d # cs" and d: "d < 10" "d = 0 \<Longrightarrow> cs = []"
    by (rule decimal_first [of n]) blast
  let ?c = "gacDigits ! d"
  have "d \<in> {0, 1, 2, 3, 4, 5, 6, 7, 8, 9}" using d(1) by auto
  then have c: "?c \<noteq> 45" "?c = 48 \<longleftrightarrow> d = 0" by (auto simp: gacDigits_def)
  have x: "hex_prefix (?c # cs @ 0 # rest) = Inr False"
    using c(2) d(2) by (auto simp: hex_prefix_def char_at_def)
  show ?thesis
    using read_decimal [of n rest] c x decimal_digit(1) [OF d(1)]
    unfolding e by (simp add: RedNtoULL_def char_at_def Let_def)
qed

section \<open>Printing and reading a number\<close>

text \<open>The format \<^verbatim>\<open>"%llx"\<close>.\<close>

definition LLX_FORMAT :: bytes where
  "LLX_FORMAT = [37, 108, 108, 120, 0]"

definition ll_format :: "bool \<Rightarrow> bytes" where
  "ll_format hex = (if hex then LLX_FORMAT else LLU_FORMAT)"

lemmas format_evaluation = ParseFormatSpecifier_def parse_specifier.simps parse_flags_def char_at_def
  ParseFormatType_def int_letter_def map_unsigned_def map_hex_def map_signed_def ISDIGIT_def

lemma parse_ll_format:
  "ParseFormatSpecifier m (ll_format hex) = Inr (Some (4,
     \<lparr>fmt_type = if hex then PRFMT_HEX64BIT else PRFMT_UNSIGNED64BIT, ulSpecifierIdx = 0, ulFillLen = 0,
      cFillChar = 32, fLeftJustified = False, fHasIllegalType = False, fHasVarWidth = False\<rparr>))"
  by (simp add: ll_format_def LLX_FORMAT_def LLU_FORMAT_def format_evaluation)

lemma ll_format_length [simp]: "length (ll_format hex) = 5" "ll_format hex ! 0 = 37" "ll_format hex ! 4 = 0"
  by (simp_all add: ll_format_def LLX_FORMAT_def LLU_FORMAT_def)

lemma ll_format_run:
  assumes "0 < L" and "L \<le> length buf"
    and "ULLtoA 0 L (word_of_int i) hex 0 32 (write_at 0 [0] buf) = Inr (n, buf')" and "n < L" "length buf' = length buf"
  shows "RedSNPrintf m L (ll_format hex) [VNum i] buf = Inr (int n, write_at n [0] buf')"
proof -
  have "buf \<noteq> []" using assms(1,2) by auto
  then have "ProcessFormatSegment m 0 L (ll_format hex) buf = Inr (0, Some (4,
     \<lparr>fmt_type = if hex then PRFMT_HEX64BIT else PRFMT_UNSIGNED64BIT, ulSpecifierIdx = 0, ulFillLen = 0,
      cFillChar = 32, fLeftJustified = False, fHasIllegalType = False, fHasVarWidth = False\<rparr>), write_at 0 [0] buf)"
    using assms(1,2) by (simp add: ProcessFormatSegment_def parse_ll_format write_simps Let_def)
  then have "vsnprintf_loop m L (ll_format hex) 0 0 [VNum i] buf = Inr (n, buf')"
    using assms by (cases hex) (simp_all add: vsnprintf_loop.simps [of _ _ _ 0] vsnprintf_loop.simps [of _ _ _ 4]
        print_arg_def num_arg_def print_number_def)
  then show ?thesis
    using assms by (simp add: RedSNPrintf_def RedVSNPrintf_def write_simps)
qed

lemma digits_of_u64: "n < 2 ^ 64 \<Longrightarrow> length (digs (if hex then 16 else 10) n) \<le> 20"
proof -
  assume "n < 2 ^ 64"
  also have "(2 :: nat) ^ 64 \<le> (if hex then 16 else 10) ^ 20" by simp
  finally show ?thesis by (subst length_digs) simp_all
qed

text \<open>
  C15. What \<open>RedSNPrintf\<close> prints with \<^verbatim>\<open>%llu\<close> or \<^verbatim>\<open>%llx\<close> for any 64-bit integer is terminated at the
  length it returns and is read back as the same integer by \<open>RedNtoULL\<close> or \<open>RedHtoULL\<close>, which end at
  the terminator.
\<close>

theorem printed_number_read_back:
  assumes "21 \<le> ulBufferLen" and "ulBufferLen \<le> length buf"
  shows "\<exists>k buf'. RedSNPrintf m ulBufferLen (ll_format hex) [VNum (uint n)] buf = Inr (int k, buf')
    \<and> k < ulBufferLen \<and> buf' ! k = 0
    \<and> (if hex then RedHtoULL buf' else RedNtoULL buf') = Inr (Some (n, drop k buf'))"
proof -
  let ?L = ulBufferLen and ?b = "if hex then 16 else 10 :: nat"
  let ?ds = "digit_chars ?b (unat n)"
  have n: "unat n < 2 ^ 64" by (rule unat_lt64)
  have len: "length ?ds \<le> 20" using digits_of_u64 [OF n] by simp
  let ?buf = "write_at 0 (rev ?ds @ [0]) buf" and ?k = "length ?ds"
  have d: "(if hex then ulltoa_hex 21 n [] else lltoa_digits 21 n []) = Inr ?ds"
    using len by (cases hex) (simp_all add: ulltoa_hex_spec lltoa_digits_spec digits_run_def)
  have fin: "FinishToA ?ds 0 ?L 0 32 (write_at 0 [0] buf) = Inr (?k, ?buf)"
    using assms len by (subst FinishToA_spec) (simp_all add: number_text_def write_at_def)
  have "ULLtoA 0 ?L (word_of_int (uint n)) hex 0 32 (write_at 0 [0] buf) = Inr (?k, ?buf)"
    using d fin unfolding ULLtoA_def word_of_int_uint by simp
  then have run: "RedSNPrintf m ?L (ll_format hex) [VNum (uint n)] buf = Inr (int ?k, write_at ?k [0] ?buf)"
    using assms len by (intro ll_format_run) (simp_all add: write_simps)
  have same: "write_at ?k [0] ?buf = rev ?ds @ 0 # drop (?k + 1) buf"
    using assms len by (simp add: write_at_def)
  have "(if hex then RedHtoULL (rev ?ds @ 0 # drop (?k + 1) buf) else RedNtoULL (rev ?ds @ 0 # drop (?k + 1) buf))
      = Inr (Some (n, 0 # drop (?k + 1) buf))"
    using read_hexadecimal [of "unat n"] parse_decimal [OF n] by simp
  then show ?thesis
    using run same assms len by (intro exI [of _ ?k] exI [of _ "rev ?ds @ 0 # drop (?k + 1) buf"]) (simp add: nth_append)
qed

lemma printed_number_read_back_witness:
  "\<exists>k buf'. RedSNPrintf sample_abi 21 LLU_FORMAT [VNum (uint (12345678901234567890 :: u64))] (replicate 21 7) = Inr (int k, buf')
    \<and> k < 21 \<and> buf' ! k = 0 \<and> RedNtoULL buf' = Inr (Some (12345678901234567890, drop k buf'))"
  using printed_number_read_back [of 21 "replicate 21 7" sample_abi False 12345678901234567890] by (simp add: ll_format_def)

section \<open>Two's complement\<close>

lemma sint_u64: "sint (x :: u64) = uint x - (if sint x < 0 then 2 ^ 64 else 0)"
proof -
  have "bit (uint x) 63 \<longleftrightarrow> sint x < 0"
    using bit_last_iff [of x] by (simp add: bit_uint_iff)
  moreover have "take_bit 64 (uint x) = uint x"
    using unsigned_less [of x, where ?'a = int] by (simp add: take_bit_int_eq_self)
  then have "sint x = uint x - 2 ^ 64 * of_bool (bit (uint x) 63)"
    by (simp add: sint_uint signed_take_bit_eq_take_bit_minus)
  ultimately show ?thesis by simp
qed

lemma int_unat_uminus: "sint (x :: u64) < 0 \<Longrightarrow> int (unat (- x)) = - sint x"
proof -
  assume s: "sint x < 0"
  then have "x \<noteq> 0" by auto
  then have "uint x \<noteq> 0" by (simp add: unsigned_eq_0_iff)
  then have "0 < uint x" using uint_ge_0 [of x] by linarith
  moreover have "uint x < 2 ^ 64" using unsigned_less [of x, where ?'a = int] by simp
  ultimately have "uint (- x) = 2 ^ 64 - uint x"
    by (simp add: uint_word_ariths zmod_zminus1_eq_if)
  then show ?thesis using sint_u64 [of x] s by simp
qed

section \<open>Signed 64-bit integers overrun their array\<close>

text \<open>
  C16. \<open>LLtoA\<close> has an array of 12 bytes for the digits and the sign of a 64-bit integer: it writes behind
  its end for every integer of more than 12 digits and every negative one of more than 11.
\<close>

theorem lltoa_overruns:
  assumes "off + ulBufferLen \<le> length buf"
  shows "LLtoA off ulBufferLen llNum fill c buf = Inl DIGITS_PAST_END \<longleftrightarrow>
    sint llNum \<ge> 10 ^ 12 \<or> sint llNum \<le> - (10 ^ 11)"
proof -
  let ?s = "sint llNum < 0" and ?u = "unat (if sint llNum < 0 then - llNum else llNum)"
  have u: "int ?u = \<bar>sint llNum\<bar>"
  proof (cases ?s)
    case True
    then show ?thesis using int_unat_uminus by simp
  next
    case False
    have "sint llNum = uint llNum" using sint_u64 [of llNum] unfolding if_not_P [OF False] by simp
    then show ?thesis using False by simp
  qed
  have nat: "k < 10 ^ e \<longleftrightarrow> int k < 10 ^ e" for k e :: nat
    using of_nat_less_iff [of k "10 ^ e", where 'a = int] by simp
  have "length (digs 10 ?u) \<le> 12 \<longleftrightarrow> \<bar>sint llNum\<bar> < 10 ^ 12"
    using length_digs [of 10 12 ?u] unfolding nat u by simp
  moreover have "length (digs 10 ?u) \<le> 11 \<longleftrightarrow> \<bar>sint llNum\<bar> < 10 ^ 11"
    using length_digs [of 10 11 ?u] unfolding nat u by simp
  moreover have "LLtoA off ulBufferLen llNum fill c buf = Inl DIGITS_PAST_END \<longleftrightarrow>
      \<not> length (digs 10 ?u) \<le> 12 \<or> ?s \<and> \<not> length (digs 10 ?u) \<le> 11"
    using assms by (simp add: LLtoA_def Let_def lltoa_digits_spec digits_run_def push_digit_def FinishToA_spec)
  ultimately show ?thesis by auto
qed

lemma lltoa_overruns_witness:
  "LLtoA 0 30 (- 100000000000) 0 32 (replicate 30 0) = Inl DIGITS_PAST_END"
  using lltoa_overruns [of 0 30 "replicate 30 0" "- 100000000000" 0 32] by simp

end
