(* ===== verification/PrintfSafe.thy ===== *)
theory PrintfSafe
  imports PrintfCorrect
begin

text \<open>
  Memory safety of \<open>RedVSNPrintf\<close>: with a terminated format and terminated string arguments it reads
  no string past its end and writes nothing outside of the length it is given.
\<close>

section \<open>Strings\<close>











section \<open>The format\<close>





section \<open>The buffer\<close>







section \<open>Arguments\<close>


















section \<open>The whole format\<close>




end
