(* ===== verification/Nodes.thy ===== *)
theory Nodes
  imports Redfs MemStr
begin

text \<open>
  Metadata nodes: the signatures and buffer flags of \<^verbatim>\<open>core/include/redcore.h\<close>, the member offsets of
  the structures of \<^verbatim>\<open>core/include/rednodes.h\<close>, and the parts of \<^verbatim>\<open>core/driver/buffer.c\<close> that only
  look at a node's bytes: the signature checks and the endian swaps. A node is the byte list of
  its block; members are read and written with \<open>ld\<close> and \<open>st\<close> at the offsets below. The swaps
  are the code of \<^verbatim>\<open>REDCONF_ENDIAN_SWAP\<close>; the section's lemmas show that they reverse the bytes
  of disjoint members in place, so that swapping twice is the identity.
\<close>

section \<open>Signatures and flags\<close>

definition META_SIG_MASTER :: u32 where "META_SIG_MASTER = 0x5453414D"
definition META_SIG_METAROOT :: u32 where "META_SIG_METAROOT = 0x4154454D"
definition META_SIG_IMAP :: u32 where "META_SIG_IMAP = 0x50414D49"
definition META_SIG_INODE :: u32 where "META_SIG_INODE = 0x444F4E49"
definition META_SIG_DINDIR :: u32 where "META_SIG_DINDIR = 0x494C4244"
definition META_SIG_INDIR :: u32 where "META_SIG_INDIR = 0x49444E49"

lemmas META_SIG_defs = META_SIG_MASTER_def META_SIG_METAROOT_def META_SIG_IMAP_def
  META_SIG_INODE_def META_SIG_DINDIR_def META_SIG_INDIR_def

definition BFLAG_DIRTY :: u16 where "BFLAG_DIRTY = 0x0001"
definition BFLAG_NEW :: u16 where "BFLAG_NEW = 0x0002"
definition BFLAG_META :: u16 where "BFLAG_META = 0x8000"
definition BFLAG_META_MASTER :: u16 where "BFLAG_META_MASTER = 0x0004 OR BFLAG_META"
definition BFLAG_META_IMAP :: u16 where "BFLAG_META_IMAP = 0x0008 OR BFLAG_META"
definition BFLAG_META_INODE :: u16 where "BFLAG_META_INODE = 0x0010 OR BFLAG_META"
definition BFLAG_META_INDIR :: u16 where "BFLAG_META_INDIR = 0x0020 OR BFLAG_META"
definition BFLAG_META_DINDIR :: u16 where "BFLAG_META_DINDIR = 0x0040 OR BFLAG_META"

definition BFLAG_META_MASK :: u16 where
  "BFLAG_META_MASK = BFLAG_META_MASTER OR BFLAG_META_IMAP OR BFLAG_META_INODE OR BFLAG_META_INDIR
     OR BFLAG_META_DINDIR"

definition BFLAG_MASK :: u16 where
  "BFLAG_MASK = BFLAG_DIRTY OR BFLAG_NEW OR BFLAG_META_MASK"

lemmas BFLAG_defs = BFLAG_DIRTY_def BFLAG_NEW_def BFLAG_META_def BFLAG_META_MASTER_def
  BFLAG_META_IMAP_def BFLAG_META_INODE_def BFLAG_META_INDIR_def BFLAG_META_DINDIR_def
  BFLAG_META_MASK_def BFLAG_MASK_def

text \<open>The switch of \<open>BufferFinalize\<close>; 0 is no signature.\<close>

definition flag_signature :: "'d redconf \<Rightarrow> u16 \<Rightarrow> u32" where
  "flag_signature cf fl =
     (let m = fl AND BFLAG_META_MASK in
      if m = BFLAG_META_MASTER then META_SIG_MASTER
      else if REDCONF_IMAP_EXTERNAL cf \<and> m = BFLAG_META_IMAP then META_SIG_IMAP
      else if m = BFLAG_META_INODE then META_SIG_INODE
      else if DINDIR_POINTERS cf > 0 \<and> m = BFLAG_META_DINDIR then META_SIG_DINDIR
      else if REDCONF_DIRECT_POINTERS cf < INODE_ENTRIES cf \<and> m = BFLAG_META_INDIR then META_SIG_INDIR
      else 0)"

text \<open>The switch of \<open>BufferIsValid\<close>.\<close>

definition signature_ok :: "'d redconf \<Rightarrow> u32 \<Rightarrow> u16 \<Rightarrow> bool" where
  "signature_ok cf sig uMetaFlags =
     (if sig = META_SIG_MASTER then uMetaFlags = BFLAG_META_MASTER
      else if REDCONF_IMAP_EXTERNAL cf \<and> sig = META_SIG_IMAP then uMetaFlags = BFLAG_META_IMAP
      else if sig = META_SIG_INODE then uMetaFlags = BFLAG_META_INODE
      else if DINDIR_POINTERS cf > 0 \<and> sig = META_SIG_DINDIR then uMetaFlags = BFLAG_META_DINDIR
      else if REDCONF_DIRECT_POINTERS cf < INODE_ENTRIES cf \<and> sig = META_SIG_INDIR
        then uMetaFlags = BFLAG_META_INDIR
      else False)"

lemma signature_ok_flag_signature:
  "flag_signature cf fl \<noteq> 0 \<Longrightarrow> signature_ok cf (flag_signature cf fl) (fl AND BFLAG_META_MASK)"
  by (auto simp: flag_signature_def signature_ok_def Let_def META_SIG_defs split: if_splits)

lemma signature_ok_iff:
  "signature_ok cf sig m \<longleftrightarrow> sig \<noteq> 0 \<and> flag_signature cf m = sig \<and> m AND BFLAG_META_MASK = m"
proof
  assume "signature_ok cf sig m"
  then show "sig \<noteq> 0 \<and> flag_signature cf m = sig \<and> m AND BFLAG_META_MASK = m"
    by (auto simp: signature_ok_def flag_signature_def Let_def META_SIG_defs BFLAG_defs split: if_splits)
next
  assume "sig \<noteq> 0 \<and> flag_signature cf m = sig \<and> m AND BFLAG_META_MASK = m"
  then show "signature_ok cf sig m" using signature_ok_flag_signature [of cf m] by auto
qed

section \<open>Member offsets\<close>

definition MASTER_ulVersion :: nat where "MASTER_ulVersion = 16"
definition MASTER_acBuildNum :: nat where "MASTER_acBuildNum = 20"
definition MASTER_ulFormatTime :: nat where "MASTER_ulFormatTime = 28"
definition MASTER_ulInodeCount :: nat where "MASTER_ulInodeCount = 32"
definition MASTER_ulBlockCount :: nat where "MASTER_ulBlockCount = 36"
definition MASTER_uMaxNameLen :: nat where "MASTER_uMaxNameLen = 40"
definition MASTER_uDirectPointers :: nat where "MASTER_uDirectPointers = 42"
definition MASTER_uIndirectPointers :: nat where "MASTER_uIndirectPointers = 44"
definition MASTER_bBlockSizeP2 :: nat where "MASTER_bBlockSizeP2 = 46"
definition MASTER_bFlags :: nat where "MASTER_bFlags = 47"

lemmas MASTER_defs = MASTER_ulVersion_def MASTER_acBuildNum_def MASTER_ulFormatTime_def
  MASTER_ulInodeCount_def MASTER_ulBlockCount_def MASTER_uMaxNameLen_def
  MASTER_uDirectPointers_def MASTER_uIndirectPointers_def MASTER_bBlockSizeP2_def MASTER_bFlags_def

definition INODE_ullSize :: nat where "INODE_ullSize = 16"
definition INODE_ulBlocks :: nat where "INODE_ulBlocks = 24"

definition INODE_ulATime :: "'d redconf \<Rightarrow> nat" where
  "INODE_ulATime cf = 24 + (if REDCONF_INODE_BLOCKS cf then 4 else 0)"
definition INODE_ulMTime :: "'d redconf \<Rightarrow> nat" where "INODE_ulMTime cf = INODE_ulATime cf + 4"
definition INODE_ulCTime :: "'d redconf \<Rightarrow> nat" where "INODE_ulCTime cf = INODE_ulATime cf + 8"
definition INODE_uMode :: "'d redconf \<Rightarrow> nat" where
  "INODE_uMode cf = INODE_ulATime cf + (if REDCONF_INODE_TIMESTAMPS cf then 12 else 0)"
definition INODE_uNLink :: "'d redconf \<Rightarrow> nat" where "INODE_uNLink cf = INODE_uMode cf + 2"
definition INODE_ulPInode :: "'d redconf \<Rightarrow> nat" where "INODE_ulPInode cf = INODE_uMode cf + 4"
definition INODE_aulEntries :: "'d redconf \<Rightarrow> nat \<Rightarrow> nat" where
  "INODE_aulEntries cf i = INODE_HEADER_SIZE cf + 4 * i"

lemmas INODE_off_defs = INODE_ullSize_def INODE_ulBlocks_def INODE_ulATime_def INODE_ulMTime_def
  INODE_ulCTime_def INODE_uMode_def INODE_uNLink_def INODE_ulPInode_def INODE_aulEntries_def
  INODE_HEADER_SIZE_def NODEHEADER_SIZE_def

definition INDIR_ulInode :: nat where "INDIR_ulInode = 16"
definition INDIR_aulEntries :: "nat \<Rightarrow> nat" where "INDIR_aulEntries i = INDIR_HEADER_SIZE + 4 * i"

definition IMAP_abEntries :: nat where "IMAP_abEntries = NODEHEADER_SIZE"

lemma INODE_entries_inside:
  "i < INODE_ENTRIES cf \<Longrightarrow> INODE_aulEntries cf i + 4 \<le> REDCONF_BLOCK_SIZE cf"
  by (simp add: INODE_aulEntries_def INODE_ENTRIES_def)

lemma INDIR_entries_inside:
  "i < INDIR_ENTRIES cf \<Longrightarrow> INDIR_aulEntries i + 4 \<le> REDCONF_BLOCK_SIZE cf"
  by (simp add: INDIR_aulEntries_def INDIR_ENTRIES_def)

section \<open>Endian swaps\<close>

definition swap16 :: "bool \<Rightarrow> nat \<Rightarrow> bytes \<Rightarrow> bytes" where
  "swap16 be off p = st16 be p off (RedRev16 (ld16 be p off))"
definition swap32 :: "bool \<Rightarrow> nat \<Rightarrow> bytes \<Rightarrow> bytes" where
  "swap32 be off p = st32 be p off (RedRev32 (ld32 be p off))"
definition swap64 :: "bool \<Rightarrow> nat \<Rightarrow> bytes \<Rightarrow> bytes" where
  "swap64 be off p = st64 be p off (RedRev64 (ld64 be p off))"

definition BufferEndianSwapHeader :: "bool \<Rightarrow> bytes \<Rightarrow> bytes" where
  "BufferEndianSwapHeader be p =
     swap64 be NODEHEADER_OFFSET_SEQ (swap32 be NODEHEADER_OFFSET_CRC (swap32 be NODEHEADER_OFFSET_SIG p))"

definition BufferEndianSwapMaster :: "bool \<Rightarrow> bytes \<Rightarrow> bytes" where
  "BufferEndianSwapMaster be p =
     (let p = swap32 be MASTER_ulVersion p;
          p = swap32 be MASTER_ulFormatTime p;
          p = swap32 be MASTER_ulInodeCount p;
          p = swap32 be MASTER_ulBlockCount p;
          p = swap16 be MASTER_uMaxNameLen p;
          p = swap16 be MASTER_uDirectPointers p
      in swap16 be MASTER_uIndirectPointers p)"

definition BufferEndianSwapInode :: "'d redconf \<Rightarrow> bytes \<Rightarrow> bytes" where
  "BufferEndianSwapInode cf p =
     (let be = REDCONF_ENDIAN_BIG cf;
          p = swap64 be INODE_ullSize p;
          p = (if REDCONF_INODE_BLOCKS cf then swap32 be INODE_ulBlocks p else p);
          p = (if REDCONF_INODE_TIMESTAMPS cf
               then swap32 be (INODE_ulCTime cf) (swap32 be (INODE_ulMTime cf) (swap32 be (INODE_ulATime cf) p))
               else p);
          p = swap16 be (INODE_uMode cf) p;
          p = (if REDCONF_API_POSIX cf \<and> REDCONF_API_POSIX_LINK cf then swap16 be (INODE_uNLink cf) p else p);
          p = (if REDCONF_API_POSIX cf then swap32 be (INODE_ulPInode cf) p else p)
      in fold (\<lambda>i p. swap32 be (INODE_aulEntries cf i) p) [0..<INODE_ENTRIES cf] p)"

definition BufferEndianSwapIndir :: "'d redconf \<Rightarrow> bytes \<Rightarrow> bytes" where
  "BufferEndianSwapIndir cf p =
     (let be = REDCONF_ENDIAN_BIG cf;
          p = swap32 be INDIR_ulInode p
      in fold (\<lambda>i p. swap32 be (INDIR_aulEntries i) p) [0..<INDIR_ENTRIES cf] p)"

text \<open>The \<^verbatim>\<open>REDERROR\<close> branch of the C function, for flags outside the mask, leaves the buffer alone.\<close>

definition BufferEndianSwap :: "'d redconf \<Rightarrow> bytes \<Rightarrow> u16 \<Rightarrow> bytes" where
  "BufferEndianSwap cf p fl =
     (if fl AND BFLAG_MASK \<noteq> fl then p
      else if fl AND BFLAG_META_MASK \<noteq> 0 then
        (let m = fl AND BFLAG_META_MASK;
             p = BufferEndianSwapHeader (REDCONF_ENDIAN_BIG cf) p
         in if m = BFLAG_META_MASTER then BufferEndianSwapMaster (REDCONF_ENDIAN_BIG cf) p
            else if m = BFLAG_META_INODE then BufferEndianSwapInode cf p
            else if DINDIR_POINTERS cf > 0 \<and> m = BFLAG_META_DINDIR then BufferEndianSwapIndir cf p
            else if REDCONF_DIRECT_POINTERS cf < INODE_ENTRIES cf \<and> m = BFLAG_META_INDIR
              then BufferEndianSwapIndir cf p
            else p)
      else p)"

section \<open>Swapping is reversing in place\<close>

definition rev_at :: "nat \<times> nat \<Rightarrow> bytes \<Rightarrow> bytes" where
  "rev_at = (\<lambda>(off, n) p. take off p @ rev (take n (drop off p)) @ drop (off + n) p)"

text \<open>Members in increasing order, the last one inside \<open>len\<close> bytes.\<close>

fun members_ok :: "nat \<Rightarrow> (nat \<times> nat) list \<Rightarrow> nat \<Rightarrow> bool" where
  "members_ok lo [] len \<longleftrightarrow> True"
| "members_ok lo ((off, n) # ms) len \<longleftrightarrow> lo \<le> off \<and> off + n \<le> len \<and> members_ok (off + n) ms len"

lemma enc_dec_rev:
  assumes "length bs = n" and "8 * n \<le> LENGTH('a)"
  shows "enc (\<not> be) n (dec be bs :: 'a::len word) = rev bs"
  using enc_dec [of bs be, where 'a = 'a] assms
  by (cases be) (simp_all add: enc_def rev_swap)

lemma swap_rev_at:
  "off + 2 \<le> length p \<Longrightarrow> swap16 be off p = rev_at (off, 2) p"
  "off + 4 \<le> length p \<Longrightarrow> swap32 be off p = rev_at (off, 4) p"
  "off + 8 \<le> length p \<Longrightarrow> swap64 be off p = rev_at (off, 8) p"
  by (simp_all add: swap16_def swap32_def swap64_def rev_at_def st_def ld_def enc_rev16 enc_rev32
      enc_rev64 enc_dec_rev)

lemma length_rev_at [simp]: "off + n \<le> length p \<Longrightarrow> length (rev_at (off, n) p) = length p"
  by (simp add: rev_at_def)

lemma rev_at_nth:
  assumes "off + n \<le> length p" and "i < length p"
  shows "rev_at (off, n) p ! i = (if off \<le> i \<and> i < off + n then p ! (2 * off + n - Suc i) else p ! i)"
proof -
  have l: "length (take off p) = off" "length (rev (take n (drop off p))) = n" using assms by auto
  consider "i < off" | "off \<le> i" "i - off < n" "i < off + n" | "off \<le> i" "\<not> i - off < n" "\<not> i < off + n"
    by linarith
  then show ?thesis
  proof cases
    case 2
    then have "rev_at (off, n) p ! i = p ! (off + (n - Suc (i - off)))"
      using assms l by (simp add: rev_at_def nth_append rev_nth)
    also have "off + (n - Suc (i - off)) = 2 * off + n - Suc i" using 2 by simp
    finally show ?thesis using 2 by simp
  next
    case 3
    then show ?thesis using assms by (simp add: rev_at_def nth_append l del: length_rev length_take)
  qed (use assms in \<open>simp add: rev_at_def nth_append l del: length_rev length_take\<close>)
qed

lemma rev_at_twice: "off + n \<le> length p \<Longrightarrow> rev_at (off, n) (rev_at (off, n) p) = p"
  by (rule nth_equalityI) (auto simp: rev_at_nth)

lemma rev_at_commute:
  assumes "off + n \<le> length p" and "off2 + k \<le> length p" and "off + n \<le> off2"
  shows "rev_at (off, n) (rev_at (off2, k) p) = rev_at (off2, k) (rev_at (off, n) p)"
  using assms by (intro nth_equalityI) (auto simp: rev_at_nth)

lemma members_ok_length [simp]:
  "members_ok lo ms (length p) \<Longrightarrow> length (fold rev_at ms p) = length p"
  by (induction lo ms "length p" arbitrary: p rule: members_ok.induct) auto

lemma fold_rev_at_push:
  "members_ok lo ms (length p) \<Longrightarrow> off + n \<le> lo \<Longrightarrow> off + n \<le> length p \<Longrightarrow>
   rev_at (off, n) (fold rev_at ms p) = fold rev_at ms (rev_at (off, n) p)"
proof (induction ms arbitrary: p lo)
  case Nil
  then show ?case by simp
next
  case (Cons m ms)
  obtain off2 k where m: "m = (off2, k)" by (cases m)
  have "rev_at (off, n) (fold rev_at ms (rev_at (off2, k) p)) = fold rev_at ms (rev_at (off, n) (rev_at (off2, k) p))"
    using Cons.prems m by (intro Cons.IH [of "off2 + k"]) auto
  also have "rev_at (off, n) (rev_at (off2, k) p) = rev_at (off2, k) (rev_at (off, n) p)"
    using Cons.prems m by (intro rev_at_commute) auto
  finally show ?case by (simp add: m)
qed

lemma fold_rev_at_twice:
  "members_ok lo ms (length p) \<Longrightarrow> fold rev_at ms (fold rev_at ms p) = p"
proof (induction ms arbitrary: p lo)
  case Nil
  then show ?case by simp
next
  case (Cons m ms)
  obtain off k where m: "m = (off, k)" by (cases m)
  have ok: "members_ok (off + k) ms (length p)" "off + k \<le> length p" using Cons.prems m by auto
  have "fold rev_at (m # ms) (fold rev_at (m # ms) p) =
      fold rev_at ms (rev_at (off, k) (fold rev_at ms (rev_at (off, k) p)))" by (simp add: m)
  also have "\<dots> = fold rev_at ms (fold rev_at ms (rev_at (off, k) (rev_at (off, k) p)))"
    using ok by (subst fold_rev_at_push [of "off + k"]) auto
  also have "\<dots> = p" using ok Cons.IH [of "off + k" p] by (simp add: rev_at_twice)
  finally show ?case .
qed

lemma members_ok_append:
  "members_ok lo (ms @ ms') len \<longleftrightarrow>
   members_ok lo ms len \<and> members_ok (case ms of [] \<Rightarrow> lo | _ \<Rightarrow> fst (last ms) + snd (last ms)) ms' len"
  by (induction lo ms len rule: members_ok.induct) (auto split: list.splits)

lemma members_ok_array:
  "base + 4 * n \<le> len \<Longrightarrow> lo \<le> base \<Longrightarrow> members_ok lo (map (\<lambda>i. (base + 4 * i, 4)) [0..<n]) len"
proof (induction n)
  case 0
  then show ?case by simp
next
  case (Suc n)
  then show ?case by (cases n) (auto simp: members_ok_append split: list.splits)
qed

text \<open>The members each swap reverses.\<close>

definition master_members :: "(nat \<times> nat) list" where
  "master_members = [(16, 4), (28, 4), (32, 4), (36, 4), (40, 2), (42, 2), (44, 2)]"

definition inode_members :: "'d redconf \<Rightarrow> (nat \<times> nat) list" where
  "inode_members cf =
     [(16, 8)] @ (if REDCONF_INODE_BLOCKS cf then [(24, 4)] else [])
     @ (if REDCONF_INODE_TIMESTAMPS cf
        then [(INODE_ulATime cf, 4), (INODE_ulMTime cf, 4), (INODE_ulCTime cf, 4)] else [])
     @ [(INODE_uMode cf, 2)]
     @ (if REDCONF_API_POSIX cf \<and> REDCONF_API_POSIX_LINK cf then [(INODE_uNLink cf, 2)] else [])
     @ (if REDCONF_API_POSIX cf then [(INODE_ulPInode cf, 4)] else [])
     @ map (\<lambda>i. (INODE_aulEntries cf i, 4)) [0..<INODE_ENTRIES cf]"

definition indir_members :: "'d redconf \<Rightarrow> (nat \<times> nat) list" where
  "indir_members cf = (INDIR_ulInode, 4) # map (\<lambda>i. (INDIR_aulEntries i, 4)) [0..<INDIR_ENTRIES cf]"

definition node_members :: "'d redconf \<Rightarrow> u16 \<Rightarrow> (nat \<times> nat) list" where
  "node_members cf fl =
     (let m = fl AND BFLAG_META_MASK in
      if fl AND BFLAG_MASK \<noteq> fl \<or> m = 0 then []
      else [(0, 4), (4, 4), (8, 8)]
        @ (if m = BFLAG_META_MASTER then master_members
           else if m = BFLAG_META_INODE then inode_members cf
           else if DINDIR_POINTERS cf > 0 \<and> m = BFLAG_META_DINDIR then indir_members cf
           else if REDCONF_DIRECT_POINTERS cf < INODE_ENTRIES cf \<and> m = BFLAG_META_INDIR
             then indir_members cf
           else []))"

lemma master_members_ok: "256 \<le> len \<Longrightarrow> members_ok 16 master_members len"
  by (simp add: master_members_def)

lemma inode_members_ok: "256 \<le> REDCONF_BLOCK_SIZE cf \<Longrightarrow> members_ok 16 (inode_members cf) (REDCONF_BLOCK_SIZE cf)"
proof -
  assume a: "256 \<le> REDCONF_BLOCK_SIZE cf"
  have h: "INODE_HEADER_SIZE cf \<le> 64" by (simp add: INODE_HEADER_SIZE_def NODEHEADER_SIZE_def)
  have "members_ok (INODE_HEADER_SIZE cf) (map (\<lambda>i. (INODE_aulEntries cf i, 4)) [0..<INODE_ENTRIES cf]) (REDCONF_BLOCK_SIZE cf)"
    unfolding INODE_aulEntries_def using a h by (intro members_ok_array) (auto simp: INODE_ENTRIES_def)
  moreover have mono: "members_ok lo ms len" if "members_ok hi ms len" "lo \<le> hi" for lo hi ms len
    using that by (cases ms) auto
  ultimately have arr: "members_ok lo (map (\<lambda>i. (INODE_aulEntries cf i, 4)) [0..<INODE_ENTRIES cf]) (REDCONF_BLOCK_SIZE cf)"
    if "lo \<le> INODE_HEADER_SIZE cf" for lo using that by blast
  show ?thesis
    using a arr by (auto simp: inode_members_def INODE_off_defs)
qed

lemma indir_members_ok: "256 \<le> REDCONF_BLOCK_SIZE cf \<Longrightarrow> members_ok 16 (indir_members cf) (REDCONF_BLOCK_SIZE cf)"
  unfolding indir_members_def INDIR_aulEntries_def
  by (simp add: INDIR_ulInode_def, intro members_ok_array)
     (auto simp: INDIR_ENTRIES_def INDIR_HEADER_SIZE_def NODEHEADER_SIZE_def)

lemma node_members_ok:
  "256 \<le> REDCONF_BLOCK_SIZE cf \<Longrightarrow> members_ok 0 (node_members cf fl) (REDCONF_BLOCK_SIZE cf)"
  using master_members_ok [of "REDCONF_BLOCK_SIZE cf"] inode_members_ok [of cf] indir_members_ok [of cf]
  by (simp add: node_members_def Let_def)

lemma swap_array_fold:
  "\<forall>i < n. f i + 4 \<le> length p \<Longrightarrow>
   fold (\<lambda>i p. swap32 be (f i) p) [0..<n] p = fold rev_at (map (\<lambda>i. (f i, 4)) [0..<n]) p
   \<and> length (fold (\<lambda>i p. swap32 be (f i) p) [0..<n] p) = length p"
  by (induction n) (auto simp: swap_rev_at)

lemma swap_header_eq:
  "16 \<le> length p \<Longrightarrow> BufferEndianSwapHeader be p = fold rev_at [(0, 4), (4, 4), (8, 8)] p"
  by (simp add: BufferEndianSwapHeader_def swap_rev_at NODEHEADER_OFFSET_SIG_def
      NODEHEADER_OFFSET_CRC_def NODEHEADER_OFFSET_SEQ_def)

lemma swap_master_eq:
  "256 \<le> length p \<Longrightarrow> BufferEndianSwapMaster be p = fold rev_at master_members p"
  by (simp add: BufferEndianSwapMaster_def Let_def swap_rev_at master_members_def MASTER_defs)

lemma swap_inode_eq:
  assumes "length p = REDCONF_BLOCK_SIZE cf" and "256 \<le> REDCONF_BLOCK_SIZE cf"
  shows "BufferEndianSwapInode cf p = fold rev_at (inode_members cf) p"
proof -
  have e: "fold (\<lambda>i p. swap32 be (INODE_aulEntries cf i) p) [0..<INODE_ENTRIES cf] q
      = fold rev_at (map (\<lambda>i. (INODE_aulEntries cf i, 4)) [0..<INODE_ENTRIES cf]) q"
    if "length q = REDCONF_BLOCK_SIZE cf" for be q
    using that INODE_entries_inside by (intro swap_array_fold [THEN conjunct1]) auto
  show ?thesis
    using assms
    by (simp add: BufferEndianSwapInode_def Let_def swap_rev_at inode_members_def INODE_ullSize_def
        INODE_ulBlocks_def INODE_ulATime_def INODE_ulMTime_def INODE_ulCTime_def INODE_uMode_def
        INODE_uNLink_def INODE_ulPInode_def e)
qed

lemma swap_indir_eq:
  assumes "length p = REDCONF_BLOCK_SIZE cf" and "256 \<le> REDCONF_BLOCK_SIZE cf"
  shows "BufferEndianSwapIndir cf p = fold rev_at (indir_members cf) p"
proof -
  have "fold (\<lambda>i p. swap32 be (INDIR_aulEntries i) p) [0..<INDIR_ENTRIES cf] q
      = fold rev_at (map (\<lambda>i. (INDIR_aulEntries i, 4)) [0..<INDIR_ENTRIES cf]) q"
    if "length q = REDCONF_BLOCK_SIZE cf" for be q
    using that INDIR_entries_inside by (intro swap_array_fold [THEN conjunct1]) auto
  then show ?thesis
    using assms by (simp add: BufferEndianSwapIndir_def Let_def swap_rev_at indir_members_def INDIR_ulInode_def)
qed

lemma BufferEndianSwap_eq:
  assumes "length p = REDCONF_BLOCK_SIZE cf" and "256 \<le> REDCONF_BLOCK_SIZE cf"
  shows "BufferEndianSwap cf p fl = fold rev_at (node_members cf fl) p"
proof -
  let ?q = "BufferEndianSwapHeader (REDCONF_ENDIAN_BIG cf) p"
  have "length ?q = REDCONF_BLOCK_SIZE cf" using assms by (simp add: swap_header_eq)
  then show ?thesis
    using assms
    by (simp add: BufferEndianSwap_def Let_def node_members_def swap_master_eq swap_inode_eq swap_indir_eq)
       (simp add: swap_header_eq)
qed

lemma length_BufferEndianSwap:
  "length p = REDCONF_BLOCK_SIZE cf \<Longrightarrow> 256 \<le> REDCONF_BLOCK_SIZE cf \<Longrightarrow>
   length (BufferEndianSwap cf p fl) = REDCONF_BLOCK_SIZE cf"
  using node_members_ok [of cf fl] by (simp add: BufferEndianSwap_eq)

lemma BufferEndianSwap_twice:
  assumes "length p = REDCONF_BLOCK_SIZE cf" and "256 \<le> REDCONF_BLOCK_SIZE cf"
  shows "BufferEndianSwap cf (BufferEndianSwap cf p fl) fl = p"
  using node_members_ok [of cf fl] assms length_BufferEndianSwap [OF assms, of fl]
  by (simp add: BufferEndianSwap_eq fold_rev_at_twice [of 0])

text \<open>What a swap does to the header, which is swapped for every metadata node.\<close>

lemma fold_rev_at_below:
  "members_ok lo ms (length p) \<Longrightarrow> off + n \<le> lo \<Longrightarrow>
   take n (drop off (fold rev_at ms p)) = take n (drop off p)"
proof (induction ms arbitrary: p lo)
  case Nil
  then show ?case by simp
next
  case (Cons m ms)
  obtain o2 k where m: "m = (o2, k)" by (cases m)
  have "take n (drop off (fold rev_at ms (rev_at (o2, k) p))) = take n (drop off (rev_at (o2, k) p))"
    using Cons.prems m by (intro Cons.IH [of "o2 + k"]) auto
  also have "\<dots> = take n (drop off p)"
    using Cons.prems m by (intro nth_equalityI) (auto simp: rev_at_nth)
  finally show ?case by (simp add: m)
qed

end
