(* ===== verification/Buffer.thy ===== *)
theory Buffer
  imports BlockIo Nodes
begin

text \<open>
  The block buffer cache (\<^verbatim>\<open>core/driver/buffer.c\<close>). The members of \<^verbatim>\<open>gBufCtx\<close> are \<open>uNumUsed\<close>,
  \<open>abMRU\<close>, \<open>aHead\<close> and \<open>aabBuffer\<close> of the state; a buffer pointer is the index of the buffer, and
  \<open>None\<close> or an index beyond the array is a pointer that is not one of the block buffers. Functions
  returning \<^verbatim>\<open>void\<close> are state transformers. Loops over the buffers are searches (\<open>find\<close>) or
  recursions over the list of indices, in the order of the C code.
\<close>

section \<open>Heads and contents\<close>

definition upd_head :: "nat \<Rightarrow> (BUFFERHEAD \<Rightarrow> BUFFERHEAD) \<Rightarrow> 'd redstate \<Rightarrow> 'd redstate" where
  "upd_head i f s = s\<lparr>aHead := (aHead s)[i := f (aHead s ! i)]\<rparr>"

definition set_buf :: "nat \<Rightarrow> bytes \<Rightarrow> 'd redstate \<Rightarrow> 'd redstate" where
  "set_buf i p s = s\<lparr>aabBuffer := (aabBuffer s)[i := p]\<rparr>"

definition RedBufferInit :: "'d redconf \<Rightarrow> 'd redstate \<Rightarrow> 'd redstate" where
  "RedBufferInit cf s =
     s\<lparr>uNumUsed := 0,
       abMRU := map (\<lambda>bIdx. (REDCONF_BUFFER_COUNT cf - bIdx) - 1) [0..<REDCONF_BUFFER_COUNT cf],
       aHead := replicate (REDCONF_BUFFER_COUNT cf)
         \<lparr>ulBlock = BBLK_INVALID, bVolNum = 0, bRefCount = 0, uFlags = 0\<rparr>,
       aabBuffer := replicate (REDCONF_BUFFER_COUNT cf) (replicate (REDCONF_BLOCK_SIZE cf) 0)\<rparr>"

section \<open>Searching and the MRU array\<close>

definition BufferFind :: "'d redconf \<Rightarrow> u32 \<Rightarrow> 'd redstate \<Rightarrow> nat option \<times> 'd redstate" where
  "BufferFind cf blk s =
     (if blk \<ge> ulBlockCount (gpRedVolume s) then (None, REDERROR s)
      else (find (\<lambda>bIdx. bVolNum (aHead s ! bIdx) = gbRedVolNum s \<and> ulBlock (aHead s ! bIdx) = blk)
              [0..<REDCONF_BUFFER_COUNT cf], s))"

definition BufferToIdx :: "'d redconf \<Rightarrow> nat option \<Rightarrow> 'd redstate \<Rightarrow> nat option" where
  "BufferToIdx cf pBuffer s =
     (case pBuffer of
        None \<Rightarrow> None
      | Some p \<Rightarrow>
          (case find (\<lambda>bIdx. p = bIdx) [0..<REDCONF_BUFFER_COUNT cf] of
             None \<Rightarrow> None
           | Some bIdx \<Rightarrow>
               if ulBlock (aHead s ! bIdx) \<noteq> BBLK_INVALID \<and> bVolNum (aHead s ! bIdx) = gbRedVolNum s
               then Some bIdx else None))"

definition BufferMakeLRU :: "'d redconf \<Rightarrow> nat \<Rightarrow> 'd redstate \<Rightarrow> 'd redstate" where
  "BufferMakeLRU cf bIdx s =
     (let n = REDCONF_BUFFER_COUNT cf in
      if bIdx \<ge> n then REDERROR s
      else if bIdx \<noteq> abMRU s ! (n - 1) then
        (case find (\<lambda>bMruIdx. bIdx = abMRU s ! bMruIdx) [0..<n - 1] of
           Some bMruIdx \<Rightarrow>
             s\<lparr>abMRU := (RedMemMove (Some bMruIdx) (Some (bMruIdx + 1)) (n - (bMruIdx + 1)) (abMRU s))
                 [n - 1 := bIdx]\<rparr>
         | None \<Rightarrow> REDERROR s)
      else s)"

definition BufferMakeMRU :: "'d redconf \<Rightarrow> nat \<Rightarrow> 'd redstate \<Rightarrow> 'd redstate" where
  "BufferMakeMRU cf bIdx s =
     (let n = REDCONF_BUFFER_COUNT cf in
      if bIdx \<ge> n then REDERROR s
      else if bIdx \<noteq> abMRU s ! 0 then
        (case find (\<lambda>bMruIdx. bIdx = abMRU s ! bMruIdx) [1..<n] of
           Some bMruIdx \<Rightarrow> s\<lparr>abMRU := (RedMemMove (Some 1) (Some 0) bMruIdx (abMRU s))[0 := bIdx]\<rparr>
         | None \<Rightarrow> REDERROR s)
      else s)"

text \<open>The scan from the back of the MRU array for a buffer without references.\<close>

fun lru_scan :: "'d redstate \<Rightarrow> nat \<Rightarrow> nat" where
  "lru_scan s 0 = 0"
| "lru_scan s (Suc bIdx) =
     (if bRefCount (aHead s ! (abMRU s ! Suc bIdx)) = 0 then Suc bIdx else lru_scan s bIdx)"

section \<open>Validation and finalization of metadata\<close>

definition node_valid :: "'d redconf \<Rightarrow> 'd redstate \<Rightarrow> bytes \<Rightarrow> u16 \<Rightarrow> bool" where
  "node_valid cf s p fl =
     (let be = REDCONF_ENDIAN_BIG cf;
          sig0 = ld32 be p NODEHEADER_OFFSET_SIG;
          crc0 = ld32 be p NODEHEADER_OFFSET_CRC;
          seq0 = ld64 be p NODEHEADER_OFFSET_SEQ;
          crc = (if REDCONF_ENDIAN_SWAP cf then RedRev32 crc0 else crc0);
          sig = (if REDCONF_ENDIAN_SWAP cf then RedRev32 sig0 else sig0);
          seq = (if REDCONF_ENDIAN_SWAP cf then RedRev64 seq0 else seq0)
      in signature_ok cf sig (fl AND BFLAG_META_MASK)
         \<and> crc = RedCrcNode (REDCONF_CRC_ALGORITHM cf) (REDCONF_BLOCK_SIZE cf) (Some p)
         \<and> \<not> (fMounted (gpRedVolume s) \<and> seq \<ge> ullSequence (gpRedVolume s)))"

definition BufferIsValid :: "'d redconf \<Rightarrow> bytes \<Rightarrow> u16 \<Rightarrow> ('d, bool) redM" where
  "BufferIsValid cf p fl = getR (\<lambda>s.
     if fl AND BFLAG_MASK \<noteq> fl then bindR (modR REDERROR) (\<lambda>_. retR False)
     else retR (node_valid cf s p fl))"

text \<open>The bytes a node has after \<open>BufferFinalize\<close> has stamped it.\<close>

definition stamp_node :: "'d redconf \<Rightarrow> bytes \<Rightarrow> u16 \<Rightarrow> u32 \<Rightarrow> u64 \<Rightarrow> bytes" where
  "stamp_node cf p fl sig seq =
     (let be = REDCONF_ENDIAN_BIG cf;
          p = st32 be p NODEHEADER_OFFSET_SIG sig;
          p = st64 be p NODEHEADER_OFFSET_SEQ seq;
          p = (if REDCONF_ENDIAN_SWAP cf then BufferEndianSwap cf p fl else p);
          crc = RedCrcNode (REDCONF_CRC_ALGORITHM cf) (REDCONF_BLOCK_SIZE cf) (Some p);
          crc = (if REDCONF_ENDIAN_SWAP cf then RedRev32 crc else crc)
      in st32 be p NODEHEADER_OFFSET_CRC crc)"

definition BufferFinalize :: "'d redconf \<Rightarrow> bytes \<Rightarrow> u16 \<Rightarrow> ('d, bytes) redM" where
  "BufferFinalize cf p fl =
     (if fl AND BFLAG_MASK \<noteq> fl then rederrorR RED_EINVAL
      else if flag_signature cf fl = 0 then rederrorR RED_EINVAL
      else getR (\<lambda>s.
        let ullSeqNum = ullSequence (gpRedVolume s) in
        bindR RedVolSeqNumIncrement (\<lambda>_.
        retR (stamp_node cf p fl (flag_signature cf fl) ullSeqNum))))"

definition BufferWrite :: "'d redconf \<Rightarrow> nat \<Rightarrow> ('d, unit) redM" where
  "BufferWrite cf bIdx =
     (if bIdx < REDCONF_BUFFER_COUNT cf then
        bindR (modR (\<lambda>s. REDASSERT (uFlags (aHead s ! bIdx) AND BFLAG_DIRTY \<noteq> 0) s)) (\<lambda>_.
        bindR (getR (\<lambda>s.
          if uFlags (aHead s ! bIdx) AND BFLAG_META \<noteq> 0
          then bindR (BufferFinalize cf (aabBuffer s ! bIdx) (uFlags (aHead s ! bIdx)))
                 (\<lambda>p. modR (set_buf bIdx p))
          else skipR)) (\<lambda>_.
        getR (\<lambda>s.
          finR (RedIoWrite cf (bVolNum (aHead s ! bIdx)) (ulBlock (aHead s ! bIdx)) 1 (aabBuffer s ! bIdx))
            (\<lambda>s. if REDCONF_ENDIAN_SWAP cf
                  then set_buf bIdx (BufferEndianSwap cf (aabBuffer s ! bIdx) (uFlags (aHead s ! bIdx))) s
                  else s))))
      else rederrorR RED_EINVAL)"

section \<open>Acquiring a buffer\<close>

text \<open>Fill buffer \<open>bIdx\<close> with the block, from the disk or with zeros.\<close>

definition buffer_fill :: "'d redconf \<Rightarrow> nat \<Rightarrow> u32 \<Rightarrow> u16 \<Rightarrow> ('d, unit) redM" where
  "buffer_fill cf bIdx blk fl =
     (if fl AND BFLAG_NEW = 0 then
        bindR (modR (upd_head bIdx (\<lambda>h. h\<lparr>ulBlock := BBLK_INVALID\<rparr>))) (\<lambda>_.
        getR (\<lambda>s.
        bindR (RedIoRead cf (gbRedVolNum s) blk 1 (aabBuffer s ! bIdx)) (\<lambda>(ret, p).
        bindR (modR (set_buf bIdx p)) (\<lambda>_.
        case ret of
          Some e \<Rightarrow> failR e
        | None \<Rightarrow>
            bindR (if fl AND BFLAG_META \<noteq> 0 then
                     bindR (BufferIsValid cf p fl) (\<lambda>fValid.
                     if fValid then skipR
                     else if fl AND BFLAG_META_MASTER = BFLAG_META_MASTER then failR RED_EIO
                     else criticalR RED_EIO)
                   else skipR) (\<lambda>_.
            if REDCONF_ENDIAN_SWAP cf then modR (set_buf bIdx (BufferEndianSwap cf p fl)) else skipR)))))
      else modR (\<lambda>s. set_buf bIdx (RedMemSetUnchecked (aabBuffer s ! bIdx) 0 (REDCONF_BLOCK_SIZE cf)) s))"

text \<open>Repurpose the least recently used buffer without references.\<close>

definition buffer_recycle :: "'d redconf \<Rightarrow> u32 \<Rightarrow> u16 \<Rightarrow> ('d, nat) redM" where
  "buffer_recycle cf blk fl = getR (\<lambda>s.
     let bIdx = abMRU s ! lru_scan s (REDCONF_BUFFER_COUNT cf - 1) in
     bindR
       (if bRefCount (aHead s ! bIdx) = 0 then
          (if uFlags (aHead s ! bIdx) AND BFLAG_DIRTY \<noteq> 0 \<and> ulBlock (aHead s ! bIdx) \<noteq> BBLK_INVALID
           then BufferWrite cf bIdx else skipR)
        else criticalR RED_EBUSY) (\<lambda>_.
     bindR (buffer_fill cf bIdx blk fl) (\<lambda>_.
     bindR (getR (\<lambda>s. modR (upd_head bIdx
       (\<lambda>h. h\<lparr>bVolNum := gbRedVolNum s, ulBlock := blk, uFlags := 0\<rparr>)))) (\<lambda>_.
     retR bIdx))))"

definition buffer_ref :: "'d redconf \<Rightarrow> nat \<Rightarrow> u16 \<Rightarrow> 'd redstate \<Rightarrow> 'd redstate" where
  "buffer_ref cf bIdx fl s =
     (let s1 = upd_head bIdx (\<lambda>h. h\<lparr>bRefCount := bRefCount h + 1\<rparr>) s;
          s2 = (if bRefCount (aHead s1 ! bIdx) = 1 then s1\<lparr>uNumUsed := uNumUsed s1 + 1\<rparr> else s1);
          s3 = upd_head bIdx (\<lambda>h. h\<lparr>uFlags := uFlags h OR (fl AND NOT BFLAG_NEW)\<rparr>) s2
      in BufferMakeMRU cf bIdx s3)"

definition RedBufferGet :: "'d redconf \<Rightarrow> u32 \<Rightarrow> u16 \<Rightarrow> ('d, nat) redM" where
  "RedBufferGet cf blk fl = getR (\<lambda>s.
     if blk \<ge> ulBlockCount (gpRedVolume s) \<or> fl AND BFLAG_MASK \<noteq> fl then rederrorR RED_EINVAL
     else
       bindR (\<lambda>s. case BufferFind cf blk s of
           (Some bIdx, s1) \<Rightarrow>
             (if fl AND BFLAG_NEW \<noteq> 0
                 \<or> fl AND BFLAG_META_MASK \<noteq> uFlags (aHead s1 ! bIdx) AND BFLAG_META_MASK
              then criticalR RED_EFUBAR else retR bIdx) s1
         | (None, s1) \<Rightarrow>
             (if uNumUsed s1 = of_nat (REDCONF_BUFFER_COUNT cf) then criticalR RED_EBUSY
              else buffer_recycle cf blk fl) s1) (\<lambda>bIdx.
       bindR (modR (buffer_ref cf bIdx fl)) (\<lambda>_.
       retR bIdx)))"

section \<open>Releasing, dirtying, branching, discarding\<close>

definition RedBufferPut :: "'d redconf \<Rightarrow> nat option \<Rightarrow> 'd redstate \<Rightarrow> 'd redstate" where
  "RedBufferPut cf pBuffer s =
     (case BufferToIdx cf pBuffer s of
        None \<Rightarrow> REDERROR s
      | Some bIdx \<Rightarrow>
          (let s1 = REDASSERT (bRefCount (aHead s ! bIdx) > 0) s;
               s2 = upd_head bIdx (\<lambda>h. h\<lparr>bRefCount := bRefCount h - 1\<rparr>) s1
           in if bRefCount (aHead s2 ! bIdx) = 0
              then (let s3 = REDASSERT (uNumUsed s2 > 0) s2 in s3\<lparr>uNumUsed := uNumUsed s3 - 1\<rparr>)
              else s2))"

fun buffer_flush_from :: "'d redconf \<Rightarrow> u32 \<Rightarrow> u32 \<Rightarrow> nat list \<Rightarrow> ('d, unit) redM" where
  "buffer_flush_from cf start cnt [] = skipR"
| "buffer_flush_from cf start cnt (bIdx # is) = getR (\<lambda>s.
     let h = aHead s ! bIdx in
     if bVolNum h = gbRedVolNum s \<and> ulBlock h \<noteq> BBLK_INVALID \<and> uFlags h AND BFLAG_DIRTY \<noteq> 0
        \<and> ulBlock h \<ge> start \<and> ulBlock h < start + cnt
     then bindR (BufferWrite cf bIdx) (\<lambda>_.
          bindR (modR (upd_head bIdx (\<lambda>h. h\<lparr>uFlags := uFlags h AND NOT BFLAG_DIRTY\<rparr>))) (\<lambda>_.
          buffer_flush_from cf start cnt is))
     else buffer_flush_from cf start cnt is)"

definition range_ok :: "'d redstate \<Rightarrow> u32 \<Rightarrow> u32 \<Rightarrow> bool" where
  "range_ok s start cnt \<longleftrightarrow>
     start < ulBlockCount (gpRedVolume s) \<and> \<not> ulBlockCount (gpRedVolume s) - start < cnt \<and> cnt \<noteq> 0"

definition RedBufferFlush :: "'d redconf \<Rightarrow> u32 \<Rightarrow> u32 \<Rightarrow> ('d, unit) redM" where
  "RedBufferFlush cf start cnt = getR (\<lambda>s.
     if \<not> range_ok s start cnt then rederrorR RED_EINVAL
     else buffer_flush_from cf start cnt [0..<REDCONF_BUFFER_COUNT cf])"

definition RedBufferDirty :: "'d redconf \<Rightarrow> nat option \<Rightarrow> 'd redstate \<Rightarrow> 'd redstate" where
  "RedBufferDirty cf pBuffer s =
     (case BufferToIdx cf pBuffer s of
        None \<Rightarrow> REDERROR s
      | Some bIdx \<Rightarrow>
          upd_head bIdx (\<lambda>h. h\<lparr>uFlags := uFlags h OR BFLAG_DIRTY\<rparr>)
            (REDASSERT (bRefCount (aHead s ! bIdx) > 0) s))"

definition RedBufferBranch :: "'d redconf \<Rightarrow> nat option \<Rightarrow> u32 \<Rightarrow> 'd redstate \<Rightarrow> 'd redstate" where
  "RedBufferBranch cf pBuffer blkNew s =
     (case BufferToIdx cf pBuffer s of
        None \<Rightarrow> REDERROR s
      | Some bIdx \<Rightarrow>
          if blkNew \<ge> ulBlockCount (gpRedVolume s) then REDERROR s
          else
            upd_head bIdx (\<lambda>h. h\<lparr>uFlags := uFlags h OR BFLAG_DIRTY, ulBlock := blkNew\<rparr>)
              (REDASSERT (uFlags (aHead s ! bIdx) AND BFLAG_DIRTY = 0)
                (REDASSERT (bRefCount (aHead s ! bIdx) > 0) s)))"

definition RedBufferDiscard :: "'d redconf \<Rightarrow> nat option \<Rightarrow> 'd redstate \<Rightarrow> 'd redstate" where
  "RedBufferDiscard cf pBuffer s =
     (case BufferToIdx cf pBuffer s of
        None \<Rightarrow> REDERROR s
      | Some bIdx \<Rightarrow>
          (let s1 = REDASSERT (uNumUsed s > 0) (REDASSERT (bRefCount (aHead s ! bIdx) = 1) s);
               s2 = upd_head bIdx (\<lambda>h. h\<lparr>bRefCount := 0, ulBlock := BBLK_INVALID\<rparr>) s1
           in BufferMakeLRU cf bIdx (s2\<lparr>uNumUsed := uNumUsed s2 - 1\<rparr>)))"

fun buffer_discard_from :: "'d redconf \<Rightarrow> u32 \<Rightarrow> u32 \<Rightarrow> nat list \<Rightarrow> ('d, unit) redM" where
  "buffer_discard_from cf start cnt [] = skipR"
| "buffer_discard_from cf start cnt (bIdx # is) = getR (\<lambda>s.
     let h = aHead s ! bIdx in
     if bVolNum h = gbRedVolNum s \<and> ulBlock h \<noteq> BBLK_INVALID
        \<and> ulBlock h \<ge> start \<and> ulBlock h < start + cnt
     then (if bRefCount h = 0
           then bindR (modR (\<lambda>s. BufferMakeLRU cf bIdx (upd_head bIdx (\<lambda>h. h\<lparr>ulBlock := BBLK_INVALID\<rparr>) s)))
                  (\<lambda>_. buffer_discard_from cf start cnt is)
           else criticalR RED_EBUSY)
     else buffer_discard_from cf start cnt is)"

definition RedBufferDiscardRange :: "'d redconf \<Rightarrow> u32 \<Rightarrow> u32 \<Rightarrow> ('d, unit) redM" where
  "RedBufferDiscardRange cf start cnt = getR (\<lambda>s.
     if \<not> range_ok s start cnt then rederrorR RED_EINVAL
     else buffer_discard_from cf start cnt [0..<REDCONF_BUFFER_COUNT cf])"

end
