(* ===== verification/BufferInv.thy ===== *)
theory BufferInv
  imports Buffer
begin

text \<open>
  The invariant of the buffer cache and its preservation. \<open>cache_inv\<close> says that the MRU array is a
  permutation of the buffers, that every block is in at most one buffer, that a referenced buffer
  holds a block, and that \<open>uNumUsed\<close> counts the referenced buffers. \<open>cache_frame\<close> says what no
  operation of the cache touches.
\<close>

section \<open>Moving an index in the MRU array\<close>

lemma find_index:
  assumes "i \<in> set xs"
  obtains m where "find (\<lambda>m. i = xs ! m) [0..<length xs] = Some m" and "m < length xs" and "xs ! m = i"
    and "\<forall>k < m. xs ! k \<noteq> i"
proof -
  obtain k where "k < length xs" "xs ! k = i" using assms by (auto simp: in_set_conv_nth)
  then have "find (\<lambda>m. i = xs ! m) [0..<length xs] \<noteq> None"
    by (auto simp: find_None_iff)
  then obtain m where m: "find (\<lambda>m. i = xs ! m) [0..<length xs] = Some m" by auto
  then have "m < length xs" "xs ! m = i" "\<forall>k < m. xs ! k \<noteq> i"
    by (auto simp: find_Some_iff)
  with m show thesis by (rule that)
qed

lemma find_upt_shift:
  assumes "i = xs ! m" and "lo \<le> m" and "m < hi" and "\<forall>k. lo \<le> k \<and> k < m \<longrightarrow> xs ! k \<noteq> i"
  shows "find (\<lambda>m. i = xs ! m) [lo..<hi] = Some m"
proof -
  have "\<forall>j < m - lo. i \<noteq> xs ! ([lo..<hi] ! j)"
  proof (intro allI impI)
    fix j assume j: "j < m - lo"
    then have "xs ! (lo + j) \<noteq> i" using assms(4) by auto
    then show "i \<noteq> xs ! ([lo..<hi] ! j)" using j assms(3) by auto
  qed
  then show ?thesis using assms(1-3) unfolding find_Some_iff
    by (intro exI [of _ "m - lo"] conjI) simp_all
qed

lemma remove1_split:
  assumes "m < length xs" and "\<forall>k < m. xs ! k \<noteq> xs ! m"
  shows "remove1 (xs ! m) xs = take m xs @ drop (Suc m) xs"
proof -
  have "xs ! m \<notin> set (take m xs)" using assms by (auto simp: in_set_conv_nth)
  then have "remove1 (xs ! m) (take m xs @ xs ! m # drop (Suc m) xs) = take m xs @ drop (Suc m) xs"
    by (simp add: remove1_append)
  then show ?thesis using id_take_nth_drop [OF assms(1)] by simp
qed

lemma BufferMakeMRU_eq:
  assumes "i \<in> set (abMRU s)" and "length (abMRU s) = REDCONF_BUFFER_COUNT cf"
    and "i < REDCONF_BUFFER_COUNT cf"
  shows "BufferMakeMRU cf i s = s\<lparr>abMRU := i # remove1 i (abMRU s)\<rparr>"
proof (cases "i = abMRU s ! 0")
  case True
  then have "i # remove1 i (abMRU s) = abMRU s" using assms by (cases "abMRU s") auto
  then have "s\<lparr>abMRU := i # remove1 i (abMRU s)\<rparr> = s" by simp
  then show ?thesis using True assms by (simp add: BufferMakeMRU_def Let_def)
next
  case False
  obtain m where m: "m < length (abMRU s)" "abMRU s ! m = i" "\<forall>k < m. abMRU s ! k \<noteq> i"
    using find_index [OF assms(1)] by blast
  then have "0 < m" using False by (metis gr0I)
  then have f: "find (\<lambda>m. i = abMRU s ! m) [1..<REDCONF_BUFFER_COUNT cf] = Some m"
    using m assms(2) by (intro find_upt_shift) auto
  have "(RedMemMove (Some 1) (Some 0) m (abMRU s))[0 := i] = i # take m (abMRU s) @ drop (Suc m) (abMRU s)"
  proof -
    obtain x xs where "abMRU s = x # xs" using m by (cases "abMRU s") auto
    then show ?thesis using m by (subst RedMemMove_eq) auto
  qed
  moreover have "remove1 i (abMRU s) = take m (abMRU s) @ drop (Suc m) (abMRU s)"
    using remove1_split [of m "abMRU s"] m by auto
  ultimately show ?thesis using False assms f by (simp add: BufferMakeMRU_def Let_def)
qed

lemma BufferMakeLRU_eq:
  assumes "i \<in> set (abMRU s)" and "distinct (abMRU s)" and "length (abMRU s) = REDCONF_BUFFER_COUNT cf"
    and "i < REDCONF_BUFFER_COUNT cf"
  shows "BufferMakeLRU cf i s = s\<lparr>abMRU := remove1 i (abMRU s) @ [i]\<rparr>"
proof (cases "i = abMRU s ! (REDCONF_BUFFER_COUNT cf - 1)")
  case True
  have ne: "abMRU s \<noteq> []" using assms by auto
  then have l: "last (abMRU s) = i" using True assms by (simp add: last_conv_nth)
  then have s: "abMRU s = butlast (abMRU s) @ [i]" using ne by (metis append_butlast_last_id)
  then have "i \<notin> set (butlast (abMRU s))" using assms(2) by (metis distinct_butlast not_distinct_conv_prefix)
  then have "remove1 i (abMRU s) = butlast (abMRU s)" by (subst s) (simp add: remove1_append)
  then show ?thesis using True assms s by (simp add: BufferMakeLRU_def Let_def)
next
  case False
  let ?n = "REDCONF_BUFFER_COUNT cf"
  obtain m where m: "m < length (abMRU s)" "abMRU s ! m = i" "\<forall>k < m. abMRU s ! k \<noteq> i"
    using find_index [OF assms(1)] by blast
  then have lt: "m < ?n - 1" using False assms(3) by (metis Suc_pred less_Suc_eq assms(4) gr_zeroI not_less0 One_nat_def)
  then have f: "find (\<lambda>m. i = abMRU s ! m) [0..<?n - 1] = Some m"
    using m by (intro find_upt_shift) auto
  have "(RedMemMove (Some m) (Some (m + 1)) (?n - (m + 1)) (abMRU s))[?n - 1 := i]
      = take m (abMRU s) @ drop (Suc m) (abMRU s) @ [i]"
  proof -
    have d: "drop (?n - 1) (abMRU s) = [last (abMRU s)]"
      using m(1) assms(3) [symmetric] by (cases "abMRU s" rule: rev_exhaust) auto
    have "RedMemMove (Some m) (Some (m + 1)) (?n - (m + 1)) (abMRU s)
        = (take m (abMRU s) @ drop (Suc m) (abMRU s)) @ [last (abMRU s)]"
      using lt assms(3) d by (subst RedMemMove_eq) auto
    moreover have "length (take m (abMRU s) @ drop (Suc m) (abMRU s)) = ?n - 1" using lt assms(3) by simp
    ultimately show ?thesis by (metis append_assoc list_update_length)
  qed
  moreover have "remove1 i (abMRU s) = take m (abMRU s) @ drop (Suc m) (abMRU s)"
    using remove1_split [of m "abMRU s"] m by auto
  ultimately show ?thesis using False assms f by (simp add: BufferMakeLRU_def Let_def)
qed

section \<open>The invariant\<close>

definition mru_inv :: "nat \<Rightarrow> nat list \<Rightarrow> bool" where
  "mru_inv n xs \<longleftrightarrow> distinct xs \<and> set xs = {0..<n}"

text \<open>Flags a buffer may have, and a caller may ask for.\<close>

definition flags_ok :: "u16 \<Rightarrow> bool" where
  "flags_ok fl \<longleftrightarrow> fl AND BFLAG_MASK = fl \<and> (fl AND BFLAG_META = 0 \<longrightarrow> fl AND BFLAG_META_MASK = 0)"

definition head_ok :: "BUFFERHEAD \<Rightarrow> bool" where
  "head_ok h \<longleftrightarrow> (bRefCount h \<noteq> 0 \<longrightarrow> ulBlock h \<noteq> BBLK_INVALID)
     \<and> (ulBlock h \<noteq> BBLK_INVALID \<longrightarrow> flags_ok (uFlags h) \<and> uFlags h AND BFLAG_NEW = 0)"

definition same_block :: "BUFFERHEAD \<Rightarrow> BUFFERHEAD \<Rightarrow> bool" where
  "same_block h h' \<longleftrightarrow> ulBlock h \<noteq> BBLK_INVALID \<and> bVolNum h = bVolNum h' \<and> ulBlock h = ulBlock h'"

definition heads_inv :: "nat \<Rightarrow> BUFFERHEAD list \<Rightarrow> bool" where
  "heads_inv n hs \<longleftrightarrow> length hs = n \<and> (\<forall>i < n. head_ok (hs ! i))
     \<and> (\<forall>i < n. \<forall>j < n. same_block (hs ! i) (hs ! j) \<longrightarrow> i = j)"

definition refs :: "BUFFERHEAD list \<Rightarrow> nat" where
  "refs hs = count_if (\<lambda>h. bRefCount h \<noteq> 0) hs"

definition cache_inv :: "'d redconf \<Rightarrow> 'd redstate \<Rightarrow> bool" where
  "cache_inv cf s \<longleftrightarrow>
     0 < REDCONF_BUFFER_COUNT cf \<and> REDCONF_BUFFER_COUNT cf \<le> 255
     \<and> mru_inv (REDCONF_BUFFER_COUNT cf) (abMRU s)
     \<and> heads_inv (REDCONF_BUFFER_COUNT cf) (aHead s)
     \<and> unat (uNumUsed s) = refs (aHead s)
     \<and> length (aabBuffer s) = REDCONF_BUFFER_COUNT cf
     \<and> (\<forall>i < REDCONF_BUFFER_COUNT cf. length (aabBuffer s ! i) = REDCONF_BLOCK_SIZE cf)"

lemma mru_inv_length: "mru_inv n xs \<Longrightarrow> length xs = n"
  unfolding mru_inv_def by (metis card_atLeastLessThan distinct_card minus_nat.diff_0)

lemma mru_inv_front: "mru_inv n xs \<Longrightarrow> i < n \<Longrightarrow> mru_inv n (i # remove1 i xs)"
  using insert_Diff [of i "set xs"] by (simp add: mru_inv_def set_remove1_eq)

lemma mru_inv_back: "mru_inv n xs \<Longrightarrow> i < n \<Longrightarrow> mru_inv n (remove1 i xs @ [i])"
  using insert_Diff [of i "set xs"] by (simp add: mru_inv_def set_remove1_eq)

lemma MakeMRU_inv:
  "mru_inv (REDCONF_BUFFER_COUNT cf) (abMRU s) \<Longrightarrow> i < REDCONF_BUFFER_COUNT cf \<Longrightarrow>
   BufferMakeMRU cf i s = s\<lparr>abMRU := i # remove1 i (abMRU s)\<rparr>"
  using mru_inv_length [of "REDCONF_BUFFER_COUNT cf" "abMRU s"]
  by (intro BufferMakeMRU_eq) (simp_all add: mru_inv_def)

lemma MakeLRU_inv:
  "mru_inv (REDCONF_BUFFER_COUNT cf) (abMRU s) \<Longrightarrow> i < REDCONF_BUFFER_COUNT cf \<Longrightarrow>
   BufferMakeLRU cf i s = s\<lparr>abMRU := remove1 i (abMRU s) @ [i]\<rparr>"
  using mru_inv_length [of "REDCONF_BUFFER_COUNT cf" "abMRU s"]
  by (intro BufferMakeLRU_eq) (simp_all add: mru_inv_def)

lemma heads_inv_update:
  assumes "heads_inv n hs" and "i < n" and "head_ok h"
    and "\<And>j. j < n \<Longrightarrow> j \<noteq> i \<Longrightarrow> \<not> same_block h (hs ! j)"
  shows "heads_inv n (hs[i := h])"
proof -
  have l: "length hs = n" using assms(1) by (simp add: heads_inv_def)
  have "k = j" if "k < n" "j < n" "same_block (hs[i := h] ! k) (hs[i := h] ! j)" for k j
  proof (rule ccontr)
    assume ne: "k \<noteq> j"
    consider "k = i" | "j = i" | "k \<noteq> i" "j \<noteq> i" by blast
    then show False
    proof cases
      case 1
      then show ?thesis using that l assms(2) assms(4) [of j] ne by simp
    next
      case 2
      then have "same_block h (hs ! k)" using that l assms(2) ne by (auto simp: same_block_def)
      then show ?thesis using 2 that assms(4) [of k] ne by simp
    next
      case 3
      then have "same_block (hs ! k) (hs ! j)" using that l by simp
      then show ?thesis using that assms(1) ne unfolding heads_inv_def by blast
    qed
  qed
  moreover have "head_ok (hs[i := h] ! k)" if "k < n" for k
    using that l assms(1-3) unfolding heads_inv_def by simp
  ultimately show ?thesis using l by (simp add: heads_inv_def)
qed

text \<open>An update that keeps the block, or invalidates it.\<close>

lemma heads_inv_same:
  assumes "heads_inv n hs" and "i < n" and "head_ok h"
    and "ulBlock h = BBLK_INVALID \<or> ulBlock h = ulBlock (hs ! i) \<and> bVolNum h = bVolNum (hs ! i)"
  shows "heads_inv n (hs[i := h])"
proof (rule heads_inv_update [OF assms(1-3)])
  fix j assume "j < n" "j \<noteq> i"
  then show "\<not> same_block h (hs ! j)"
    using assms unfolding heads_inv_def same_block_def by metis
qed

lemma refs_update:
  "i < length hs \<Longrightarrow>
   refs (hs[i := h]) + (if bRefCount (hs ! i) \<noteq> 0 then 1 else 0)
   = refs hs + (if bRefCount h \<noteq> 0 then 1 else 0)"
  unfolding refs_def by (rule count_if_update)

lemma refs_le: "refs hs \<le> length hs"
  unfolding refs_def by (rule count_if_le_length)

lemma RedBufferInit_inv:
  assumes "0 < REDCONF_BUFFER_COUNT cf" and "REDCONF_BUFFER_COUNT cf \<le> 255"
  shows "cache_inv cf (RedBufferInit cf s)"
proof -
  let ?n = "REDCONF_BUFFER_COUNT cf"
  have "map (\<lambda>i. ?n - i - 1) [0..<?n] = rev [0..<?n]"
    by (intro nth_equalityI) (auto simp: rev_nth)
  then have "mru_inv ?n (map (\<lambda>i. ?n - i - 1) [0..<?n])" by (simp add: mru_inv_def)
  moreover have "heads_inv ?n (replicate ?n \<lparr>ulBlock = BBLK_INVALID, bVolNum = 0, bRefCount = 0, uFlags = 0\<rparr>)"
    by (simp add: heads_inv_def head_ok_def same_block_def)
  moreover have "refs (replicate ?n \<lparr>ulBlock = BBLK_INVALID, bVolNum = 0, bRefCount = 0, uFlags = 0\<rparr>) = 0"
    by (simp add: refs_def count_if_def)
  ultimately show ?thesis using assms by (simp add: cache_inv_def RedBufferInit_def)
qed

section \<open>What the cache leaves alone\<close>

definition vol_static :: "VOLUME \<Rightarrow> VOLUME \<Rightarrow> bool" where
  "vol_static v v' \<longleftrightarrow> fMounted v' = fMounted v \<and> ulTransMask v' = ulTransMask v
     \<and> bBlockSectorShift v' = bBlockSectorShift v \<and> ulBlockCount v' = ulBlockCount v
     \<and> ulBlocksAllocable v' = ulBlocksAllocable v \<and> ullMaxInodeSize v' = ullMaxInodeSize v
     \<and> (fReadOnly v \<longrightarrow> fReadOnly v')"

definition cache_frame :: "'d redstate \<Rightarrow> 'd redstate \<Rightarrow> bool" where
  "cache_frame s s' \<longleftrightarrow> gbRedVolNum s' = gbRedVolNum s \<and> gaCoreVol s' = gaCoreVol s
     \<and> (\<forall>v. vol_static (gaRedVolume s v) (gaRedVolume s' v)) \<and> (asserted s \<longrightarrow> asserted s')"

definition same_cache :: "'d redstate \<Rightarrow> 'd redstate \<Rightarrow> bool" where
  "same_cache s s' \<longleftrightarrow> uNumUsed s' = uNumUsed s \<and> abMRU s' = abMRU s \<and> aHead s' = aHead s
     \<and> aabBuffer s' = aabBuffer s"

named_theorems frame \<open>what an operation leaves alone\<close>

lemma vol_static_refl [simp]: "vol_static v v"
  by (simp add: vol_static_def)

lemma cache_frame_refl [simp, frame]: "cache_frame s s"
  by (simp add: cache_frame_def)

lemma cache_frame_trans [trans]: "cache_frame s s' \<Longrightarrow> cache_frame s' s'' \<Longrightarrow> cache_frame s s''"
  unfolding cache_frame_def vol_static_def by (auto 0 3)

lemma same_cache_refl [simp]: "same_cache s s"
  by (simp add: same_cache_def)

lemma same_cache_trans [trans]: "same_cache s s' \<Longrightarrow> same_cache s' s'' \<Longrightarrow> same_cache s s''"
  by (simp add: same_cache_def)

lemma error_frame [frame]:
  "cache_frame s (REDERROR s)" "cache_frame s (REDASSERT c s)" "cache_frame s (RedVolCriticalError s)"
  "cache_frame s (io_finish ret (s\<lparr>bdev := d\<rparr>))"
  "cache_frame s (upd_head i f s)" "cache_frame s (set_buf i p s)"
  "cache_frame s (s\<lparr>uNumUsed := n\<rparr>)" "cache_frame s (s\<lparr>abMRU := m\<rparr>)"
  by (auto simp: cache_frame_def vol_static_def st_simps io_finish_def upd_head_def set_buf_def
      gpRedVolume_def split: option.split)

lemma error_same_cache [frame]:
  "same_cache s (REDERROR s)" "same_cache s (REDASSERT c s)" "same_cache s (RedVolCriticalError s)"
  "same_cache s (io_finish ret (s\<lparr>bdev := d\<rparr>))"
  by (auto simp: same_cache_def st_simps io_finish_def split: option.split)

lemma error_bdev [st_simps]: "bdev (io_finish ret s) = bdev s"
  by (simp add: io_finish_def st_simps split: option.split)

lemma RedVolSeqNumIncrement_frame:
  "RedVolSeqNumIncrement s = (r, s') \<Longrightarrow> cache_frame s s' \<and> same_cache s s' \<and> bdev s' = bdev s"
  by (auto simp: RedVolSeqNumIncrement_run cache_frame_def vol_static_def same_cache_def st_simps
      gpRedVolume_def split: if_splits)

lemma cache_inv_same: "same_cache s s' \<Longrightarrow> cache_inv cf s' = cache_inv cf s"
  by (simp add: same_cache_def cache_inv_def)

lemma cache_inv_errors [simp]:
  "cache_inv cf (REDERROR s) = cache_inv cf s" "cache_inv cf (REDASSERT c s) = cache_inv cf s"
  "cache_inv cf (RedVolCriticalError s) = cache_inv cf s"
  by (rule cache_inv_same, rule frame)+

section \<open>Operations that do no input or output\<close>

lemma unat_dec: "x \<noteq> 0 \<Longrightarrow> unat (x - 1) = unat x - 1" for x :: "'a::len word"
  by (simp add: unat_minus_one)

lemma cache_inv_update:
  assumes inv: "cache_inv cf s" and i: "i < REDCONF_BUFFER_COUNT cf" and h: "head_ok h"
    and other: "\<And>j. j < REDCONF_BUFFER_COUNT cf \<Longrightarrow> j \<noteq> i \<Longrightarrow> \<not> same_block h (aHead s ! j)"
    and heads: "aHead s' = (aHead s)[i := h]" and used: "unat (uNumUsed s') = refs ((aHead s)[i := h])"
    and mru: "mru_inv (REDCONF_BUFFER_COUNT cf) (abMRU s')" and buf: "aabBuffer s' = aabBuffer s"
  shows "cache_inv cf s'"
  using inv heads_inv_update [OF _ i h other] heads used mru buf by (simp add: cache_inv_def)

lemma cache_inv_head:
  assumes inv: "cache_inv cf s" and i: "i < REDCONF_BUFFER_COUNT cf"
  shows "head_ok (aHead s ! i)" and "i < length (aHead s)" and "abMRU s \<noteq> []"
    and "\<And>j h. j < REDCONF_BUFFER_COUNT cf \<Longrightarrow> j \<noteq> i \<Longrightarrow> ulBlock h = ulBlock (aHead s ! i) \<Longrightarrow>
      bVolNum h = bVolNum (aHead s ! i) \<Longrightarrow> \<not> same_block h (aHead s ! j)"
  using assms mru_inv_length [of "REDCONF_BUFFER_COUNT cf" "abMRU s"]
  by (auto simp: cache_inv_def heads_inv_def same_block_def)

lemma BufferToIdx_Some:
  "BufferToIdx cf p s = Some i \<longleftrightarrow> p = Some i \<and> i < REDCONF_BUFFER_COUNT cf
     \<and> ulBlock (aHead s ! i) \<noteq> BBLK_INVALID \<and> bVolNum (aHead s ! i) = gbRedVolNum s"
proof (cases p)
  case None
  then show ?thesis by (simp add: BufferToIdx_def)
next
  case (Some k)
  have "find (\<lambda>b. k = b) [0..<REDCONF_BUFFER_COUNT cf] = (if k < REDCONF_BUFFER_COUNT cf then Some k else None)"
  proof (cases "k < REDCONF_BUFFER_COUNT cf")
    case True
    then have "find (\<lambda>b. k = b) [0..<REDCONF_BUFFER_COUNT cf] = Some k"
      unfolding find_Some_iff by (intro exI [of _ k]) simp
    then show ?thesis using True by simp
  qed (auto simp: find_None_iff)
  then show ?thesis using Some by (auto simp: BufferToIdx_def)
qed

text \<open>A buffer in use: acquired and not yet released.\<close>

definition held :: "'d redconf \<Rightarrow> 'd redstate \<Rightarrow> nat \<Rightarrow> bool" where
  "held cf s i \<longleftrightarrow> i < REDCONF_BUFFER_COUNT cf \<and> bRefCount (aHead s ! i) \<noteq> 0
     \<and> bVolNum (aHead s ! i) = gbRedVolNum s"

lemma held_to_idx: "cache_inv cf s \<Longrightarrow> held cf s i \<Longrightarrow> BufferToIdx cf (Some i) s = Some i"
  by (auto simp: BufferToIdx_Some held_def cache_inv_def heads_inv_def head_ok_def)

lemma held_used: "cache_inv cf s \<Longrightarrow> held cf s i \<Longrightarrow> uNumUsed s \<noteq> 0"
proof
  assume a: "cache_inv cf s" "held cf s i" "uNumUsed s = 0"
  then have "0 < refs (aHead s)"
    unfolding refs_def by (intro count_if_pos [of i]) (auto simp: held_def cache_inv_def heads_inv_def)
  then show False using a by (simp add: cache_inv_def)
qed

lemma RedBufferPut_eq:
  assumes "cache_inv cf s" and "held cf s i"
  shows "RedBufferPut cf (Some i) s =
    (upd_head i (\<lambda>h. h\<lparr>bRefCount := bRefCount h - 1\<rparr>) s)
      \<lparr>uNumUsed := (if bRefCount (aHead s ! i) = 1 then uNumUsed s - 1 else uNumUsed s)\<rparr>"
proof -
  have "i < length (aHead s)" using assms by (simp add: held_def cache_inv_def heads_inv_def)
  then show ?thesis
    using assms held_to_idx [OF assms] held_used [OF assms]
    by (simp add: RedBufferPut_def REDASSERT_def upd_head_def held_def word_gt_0 Let_def)
qed

lemma RedBufferPut_inv:
  assumes inv: "cache_inv cf s" and held: "held cf s i"
  shows "cache_inv cf (RedBufferPut cf (Some i) s)"
proof -
  let ?h = "(aHead s ! i)\<lparr>bRefCount := bRefCount (aHead s ! i) - 1\<rparr>"
  have i: "i < REDCONF_BUFFER_COUNT cf" using held by (simp add: held_def)
  note h = cache_inv_head [OF inv i]
  have "refs ((aHead s)[i := ?h]) + 1 = refs (aHead s) + (if bRefCount (aHead s ! i) = 1 then 0 else 1)"
    using refs_update [OF h(2), of ?h] held by (auto simp: held_def split: if_splits)
  then show ?thesis
    using inv held held_used [OF inv held]
    unfolding RedBufferPut_eq [OF inv held]
    by (intro cache_inv_update [OF inv i, of ?h] h(4))
       (use h(1) in \<open>auto simp: upd_head_def head_ok_def cache_inv_def unat_dec held_def\<close>)
qed

lemma RedBufferDirty_eq:
  "cache_inv cf s \<Longrightarrow> held cf s i \<Longrightarrow>
   RedBufferDirty cf (Some i) s = upd_head i (\<lambda>h. h\<lparr>uFlags := uFlags h OR BFLAG_DIRTY\<rparr>) s"
  by (simp add: RedBufferDirty_def held_to_idx REDASSERT_def held_def word_gt_0)

lemma flags_ok_dirty:
  assumes "flags_ok fl" and "fl AND BFLAG_NEW = 0"
  shows "flags_ok (fl OR BFLAG_DIRTY) \<and> (fl OR BFLAG_DIRTY) AND BFLAG_NEW = 0"
    and "flags_ok (fl AND NOT BFLAG_DIRTY) \<and> (fl AND NOT BFLAG_DIRTY) AND BFLAG_NEW = 0"
proof -
  have m: "(x OR BFLAG_DIRTY) AND BFLAG_MASK = (x AND BFLAG_MASK) OR BFLAG_DIRTY"
    "(x OR BFLAG_DIRTY) AND BFLAG_META = x AND BFLAG_META"
    "(x OR BFLAG_DIRTY) AND BFLAG_NEW = x AND BFLAG_NEW"
    "(x OR BFLAG_DIRTY) AND BFLAG_META_MASK = x AND BFLAG_META_MASK"
    "(x AND NOT BFLAG_DIRTY) AND BFLAG_META = x AND BFLAG_META"
    "(x AND NOT BFLAG_DIRTY) AND BFLAG_NEW = x AND BFLAG_NEW"
    "(x AND NOT BFLAG_DIRTY) AND BFLAG_META_MASK = x AND BFLAG_META_MASK" for x
    by (simp_all add: BFLAG_defs bit.conj_disj_distrib2 and.assoc)
  have "(fl AND NOT BFLAG_DIRTY) AND BFLAG_MASK = fl AND NOT BFLAG_DIRTY"
    using assms unfolding flags_ok_def by (metis and.assoc and.commute)
  then show "flags_ok (fl AND NOT BFLAG_DIRTY) \<and> (fl AND NOT BFLAG_DIRTY) AND BFLAG_NEW = 0"
    using assms unfolding flags_ok_def m by blast
  show "flags_ok (fl OR BFLAG_DIRTY) \<and> (fl OR BFLAG_DIRTY) AND BFLAG_NEW = 0"
    using assms unfolding flags_ok_def m by simp
qed

lemma RedBufferDirty_inv:
  assumes inv: "cache_inv cf s" and held: "held cf s i"
  shows "cache_inv cf (RedBufferDirty cf (Some i) s)"
proof -
  let ?h = "(aHead s ! i)\<lparr>uFlags := uFlags (aHead s ! i) OR BFLAG_DIRTY\<rparr>"
  have i: "i < REDCONF_BUFFER_COUNT cf" using held by (simp add: held_def)
  note h = cache_inv_head [OF inv i]
  show ?thesis
    unfolding RedBufferDirty_eq [OF inv held]
    by (rule cache_inv_update [OF inv i, of ?h])
       (use inv h flags_ok_dirty refs_update [OF h(2), of ?h] in
        \<open>auto simp: upd_head_def head_ok_def cache_inv_def\<close>)
qed

text \<open>No buffer holds block \<open>b\<close> of volume \<open>v\<close>.\<close>

definition uncached :: "'d redconf \<Rightarrow> 'd redstate \<Rightarrow> u8 \<Rightarrow> u32 \<Rightarrow> bool" where
  "uncached cf s v b \<longleftrightarrow> (\<forall>i < REDCONF_BUFFER_COUNT cf. \<not> (bVolNum (aHead s ! i) = v \<and> ulBlock (aHead s ! i) = b))"

lemma RedBufferBranch_eq:
  "cache_inv cf s \<Longrightarrow> held cf s i \<Longrightarrow> uFlags (aHead s ! i) AND BFLAG_DIRTY = 0 \<Longrightarrow>
   b < ulBlockCount (gpRedVolume s) \<Longrightarrow>
   RedBufferBranch cf (Some i) b s =
     upd_head i (\<lambda>h. h\<lparr>uFlags := uFlags h OR BFLAG_DIRTY, ulBlock := b\<rparr>) s"
  by (simp add: RedBufferBranch_def held_to_idx REDASSERT_def held_def word_gt_0)

lemma block_not_invalid: "b < (n :: u32) \<Longrightarrow> b \<noteq> BBLK_INVALID"
proof
  assume "b < n" "b = BBLK_INVALID"
  then have "unat BBLK_INVALID < unat n" by (simp add: word_less_nat_alt)
  then show False using unsigned_less [of n, where ?'a = nat] by (simp add: BBLK_INVALID_def)
qed

lemma RedBufferBranch_inv:
  assumes inv: "cache_inv cf s" and held: "held cf s i" and "uFlags (aHead s ! i) AND BFLAG_DIRTY = 0"
    and b: "b < ulBlockCount (gpRedVolume s)" and new: "uncached cf s (gbRedVolNum s) b"
  shows "cache_inv cf (RedBufferBranch cf (Some i) b s)"
proof -
  let ?h = "(aHead s ! i)\<lparr>uFlags := uFlags (aHead s ! i) OR BFLAG_DIRTY, ulBlock := b\<rparr>"
  have i: "i < REDCONF_BUFFER_COUNT cf" and vol: "bVolNum (aHead s ! i) = gbRedVolNum s"
    and ref: "bRefCount (aHead s ! i) \<noteq> 0" using held by (simp_all add: held_def)
  note h = cache_inv_head [OF inv i]
  have ok: "head_ok ?h"
    using h(1) ref block_not_invalid [OF b] flags_ok_dirty [of "uFlags (aHead s ! i)"] by (auto simp: head_ok_def)
  show ?thesis
    unfolding RedBufferBranch_eq [OF assms(1-4)]
  proof (rule cache_inv_update [OF inv i ok])
    show "\<not> same_block ?h (aHead s ! j)" if "j < REDCONF_BUFFER_COUNT cf" "j \<noteq> i" for j
      using that new vol unfolding same_block_def uncached_def by (auto dest: spec [of _ j])
  qed (use inv refs_update [OF h(2), of ?h] in \<open>auto simp: upd_head_def cache_inv_def\<close>)
qed

lemma RedBufferDiscard_eq:
  assumes "cache_inv cf s" and "held cf s i" and "bRefCount (aHead s ! i) = 1"
  shows "RedBufferDiscard cf (Some i) s =
    (upd_head i (\<lambda>h. h\<lparr>bRefCount := 0, ulBlock := BBLK_INVALID\<rparr>) s)
      \<lparr>uNumUsed := uNumUsed s - 1, abMRU := remove1 i (abMRU s) @ [i]\<rparr>"
  using assms held_to_idx [OF assms(1,2)] held_used [OF assms(1,2)]
  by (simp add: RedBufferDiscard_def REDASSERT_def upd_head_def held_def word_gt_0 Let_def
      MakeLRU_inv cache_inv_def)

lemma RedBufferDiscard_inv:
  assumes inv: "cache_inv cf s" and held: "held cf s i" and one: "bRefCount (aHead s ! i) = 1"
  shows "cache_inv cf (RedBufferDiscard cf (Some i) s)"
proof -
  let ?h = "(aHead s ! i)\<lparr>bRefCount := 0, ulBlock := BBLK_INVALID\<rparr>"
  have i: "i < REDCONF_BUFFER_COUNT cf" using held by (simp add: held_def)
  note h = cache_inv_head [OF inv i]
  show ?thesis
    unfolding RedBufferDiscard_eq [OF assms]
    by (rule cache_inv_update [OF inv i, of ?h])
       (use inv one refs_update [OF h(2), of ?h] held_used [OF inv held] mru_inv_back i in
        \<open>auto simp: upd_head_def head_ok_def same_block_def cache_inv_def unat_dec\<close>)
qed

lemma invalidate_inv:
  assumes inv: "cache_inv cf s" and i: "i < REDCONF_BUFFER_COUNT cf" and "bRefCount (aHead s ! i) = 0"
  shows "cache_inv cf (upd_head i (\<lambda>h. h\<lparr>ulBlock := BBLK_INVALID\<rparr>) s)"
proof -
  let ?h = "(aHead s ! i)\<lparr>ulBlock := BBLK_INVALID\<rparr>"
  note h = cache_inv_head [OF inv i]
  show ?thesis
    by (rule cache_inv_update [OF inv i, of ?h])
       (use inv assms(3) refs_update [OF h(2), of ?h] in
        \<open>auto simp: upd_head_def head_ok_def same_block_def cache_inv_def\<close>)
qed

lemma MakeLRU_cache_inv:
  assumes inv: "cache_inv cf s" and i: "i < REDCONF_BUFFER_COUNT cf"
  shows "cache_inv cf (BufferMakeLRU cf i s)"
  using assms mru_inv_back by (auto simp: MakeLRU_inv cache_inv_def)

text \<open>Discarding a range: what each step does, then the loop.\<close>

definition discarded :: "'d redstate \<Rightarrow> u32 \<Rightarrow> u32 \<Rightarrow> BUFFERHEAD \<Rightarrow> bool" where
  "discarded s start cnt h \<longleftrightarrow> bVolNum h = gbRedVolNum s \<and> ulBlock h \<noteq> BBLK_INVALID
     \<and> ulBlock h \<ge> start \<and> ulBlock h < start + cnt"

lemma buffer_discard_from_spec:
  assumes "cache_inv cf s" and "\<forall>i \<in> set is. i < REDCONF_BUFFER_COUNT cf"
    and "buffer_discard_from cf start cnt is s = (r, s')"
  shows "cache_inv cf s' \<and> cache_frame s s' \<and> bdev s' = bdev s \<and> aabBuffer s' = aabBuffer s
    \<and> uNumUsed s' = uNumUsed s
    \<and> (\<forall>i < REDCONF_BUFFER_COUNT cf. aHead s' ! i = aHead s ! i
         \<or> discarded s start cnt (aHead s ! i) \<and> aHead s' ! i = (aHead s ! i)\<lparr>ulBlock := BBLK_INVALID\<rparr>)
    \<and> (r = Inr () \<longrightarrow> (\<forall>i \<in> set is. \<not> discarded s start cnt (aHead s' ! i)))"
  using assms
proof (induction "is" arbitrary: s r s')
  case Nil
  then show ?case by (simp add: red_simps)
next
  case (Cons i rest)
  have i: "i < REDCONF_BUFFER_COUNT cf" using Cons.prems(2) by simp
  have len: "length (aHead s) = REDCONF_BUFFER_COUNT cf"
    using Cons.prems(1) by (simp add: cache_inv_def heads_inv_def)
  show ?case
  proof (cases "discarded s start cnt (aHead s ! i)")
    case False
    then have run: "buffer_discard_from cf start cnt rest s = (r, s')"
      using Cons.prems(3) unfolding discarded_def by (auto simp: red_simps Let_def split: if_splits)
    note IH = Cons.IH [OF Cons.prems(1) _ run]
    from IH Cons.prems(2) False i show ?thesis
      by (auto simp: discarded_def dest!: spec [of _ i])
  next
    case True
    show ?thesis
    proof (cases "bRefCount (aHead s ! i) = 0")
      case False
      then have "(r, s') = (Inl RED_EBUSY, RedVolCriticalError s)"
        using Cons.prems(3) True by (simp add: red_simps discarded_def Let_def)
      then show ?thesis using Cons.prems(1) by (simp add: st_simps frame)
    next
      case ref: True
      let ?s1 = "upd_head i (\<lambda>h. h\<lparr>ulBlock := BBLK_INVALID\<rparr>) s"
      let ?s2 = "BufferMakeLRU cf i ?s1"
      have inv1: "cache_inv cf ?s1" using invalidate_inv [OF Cons.prems(1) i ref] .
      have inv2: "cache_inv cf ?s2" using MakeLRU_cache_inv [OF inv1 i] .
      have run: "buffer_discard_from cf start cnt rest ?s2 = (r, s')"
        using Cons.prems(3) True ref by (simp add: red_simps discarded_def Let_def)
      have s2: "?s2 = ?s1\<lparr>abMRU := remove1 i (abMRU s) @ [i]\<rparr>"
        using inv1 i by (simp add: MakeLRU_inv cache_inv_def) (simp add: upd_head_def)
      have d: "discarded ?s2 start cnt = discarded s start cnt"
        unfolding s2 by (simp add: fun_eq_iff discarded_def upd_head_def)
      have f: "cache_frame s ?s2" unfolding s2 by (rule cache_frame_trans [of _ ?s1]) (rule frame)+
      have sel: "aHead ?s2 = (aHead s)[i := (aHead s ! i)\<lparr>ulBlock := BBLK_INVALID\<rparr>]" "bdev ?s2 = bdev s"
        "aabBuffer ?s2 = aabBuffer s" "uNumUsed ?s2 = uNumUsed s"
        unfolding s2 by (simp_all add: upd_head_def)
      note IH = Cons.IH [OF inv2 _ run, unfolded d sel]
      have rest: "\<forall>k \<in> set rest. k < REDCONF_BUFFER_COUNT cf" using Cons.prems(2) by simp
      have each: "aHead s' ! k = aHead s ! k \<or> discarded s start cnt (aHead s ! k)
          \<and> aHead s' ! k = (aHead s ! k)\<lparr>ulBlock := BBLK_INVALID\<rparr>" if "k < REDCONF_BUFFER_COUNT cf" for k
        using IH [OF rest] that True len i by (cases "k = i") auto
      have inv_i: "aHead s' ! i = (aHead s ! i)\<lparr>ulBlock := BBLK_INVALID\<rparr>"
        using IH [OF rest] len i by (auto dest!: spec [of _ i])
      show ?thesis
        using IH [OF rest] each inv_i cache_frame_trans [OF f] by (auto simp: discarded_def)
    qed
  qed
qed

lemma flags_ok_join:
  assumes "flags_ok a" and "flags_ok b" and "a AND BFLAG_NEW = 0"
  shows "flags_ok (a OR (b AND NOT BFLAG_NEW)) \<and> (a OR (b AND NOT BFLAG_NEW)) AND BFLAG_NEW = 0"
proof -
  let ?c = "b AND NOT BFLAG_NEW"
  have n: "(b AND NOT BFLAG_NEW) AND BFLAG_META = b AND BFLAG_META"
    "(b AND NOT BFLAG_NEW) AND BFLAG_META_MASK = b AND BFLAG_META_MASK"
    "(b AND NOT BFLAG_NEW) AND BFLAG_NEW = 0"
    by (simp_all add: BFLAG_defs and.assoc)
  have "(b AND NOT BFLAG_NEW) AND BFLAG_MASK = b AND NOT BFLAG_NEW"
    using assms(2) unfolding flags_ok_def by (metis and.assoc and.commute)
  then show ?thesis
    using assms n unfolding flags_ok_def bit.conj_disj_distrib2 by (simp add: or_eq_0_iff)
qed

lemma buffer_ref_eq:
  assumes "cache_inv cf s" and "i < REDCONF_BUFFER_COUNT cf"
  shows "buffer_ref cf i fl s =
    (upd_head i (\<lambda>h. h\<lparr>bRefCount := bRefCount h + 1, uFlags := uFlags h OR (fl AND NOT BFLAG_NEW)\<rparr>) s)
      \<lparr>uNumUsed := (if bRefCount (aHead s ! i) = 0 then uNumUsed s + 1 else uNumUsed s),
       abMRU := i # remove1 i (abMRU s)\<rparr>"
proof -
  have "i < length (aHead s)" using cache_inv_head [OF assms] by simp
  then show ?thesis
    using assms by (simp add: buffer_ref_def Let_def upd_head_def MakeMRU_inv cache_inv_def)
qed

lemma buffer_ref_inv:
  assumes inv: "cache_inv cf s" and i: "i < REDCONF_BUFFER_COUNT cf"
    and valid: "ulBlock (aHead s ! i) \<noteq> BBLK_INVALID" and fl: "flags_ok fl"
    and room: "bRefCount (aHead s ! i) \<noteq> 255"
  shows "cache_inv cf (buffer_ref cf i fl s)"
proof -
  let ?h = "(aHead s ! i)\<lparr>bRefCount := bRefCount (aHead s ! i) + 1,
      uFlags := uFlags (aHead s ! i) OR (fl AND NOT BFLAG_NEW)\<rparr>"
  note h = cache_inv_head [OF inv i]
  have nz: "bRefCount (aHead s ! i) + 1 \<noteq> 0"
  proof
    assume "bRefCount (aHead s ! i) + 1 = 0"
    then have "bRefCount (aHead s ! i) = - 1" by (simp add: eq_neg_iff_add_eq_0)
    then show False using room by simp
  qed
  have len: "length (aHead s) = REDCONF_BUFFER_COUNT cf" "REDCONF_BUFFER_COUNT cf \<le> 255"
    using inv by (simp_all add: cache_inv_def heads_inv_def)
  have r: "refs ((aHead s)[i := ?h]) = refs (aHead s) + (if bRefCount (aHead s ! i) = 0 then 1 else 0)"
    using refs_update [OF h(2), of ?h] nz by (auto split: if_splits)
  have ok: "head_ok ?h" using h(1) valid fl flags_ok_join [of "uFlags (aHead s ! i)" fl] by (simp add: head_ok_def)
  have "refs (aHead s) \<le> 255" using refs_le [of "aHead s"] len by simp
  then have u: "unat (uNumUsed s + 1) = unat (uNumUsed s) + 1"
    using inv by (simp add: cache_inv_def unat_word_ariths)
  show ?thesis
    unfolding buffer_ref_eq [OF inv i]
    by (rule cache_inv_update [OF inv i ok])
       (use inv h(4) r u mru_inv_front i in \<open>auto simp: upd_head_def cache_inv_def\<close>)
qed

end
