(* ===== verification/BufferCache.thy ===== *)
theory BufferCache
  imports BufferInv
begin

text \<open>
  The cache and the disk below it. \<open>cache_view\<close> is the contents of the volumes as a caller sees
  them: a cached block is what its buffer holds (in the byte order of the disk), any other block
  is what the disk holds. The operations that read and write blocks are shown, for every block
  device, to keep the view: eviction and flushing move bytes from buffers to the disk and change
  nothing but the node headers they stamp.
\<close>

section \<open>Byte order on the disk\<close>

definition wire :: "'d redconf \<Rightarrow> u16 \<Rightarrow> bytes \<Rightarrow> bytes" where
  "wire cf fl p = (if REDCONF_ENDIAN_SWAP cf then BufferEndianSwap cf p fl else p)"

lemma members_ok_ge: "members_ok lo ms len \<Longrightarrow> m \<in> set ms \<Longrightarrow> lo \<le> fst m"
proof (induction ms arbitrary: lo)
  case Nil
  then show ?case by simp
next
  case (Cons x ms)
  obtain o2 k where x: "x = (o2, k)" by (cases x)
  show ?case
  proof (cases "m = x")
    case True
    then show ?thesis using Cons.prems x by simp
  next
    case False
    then have "o2 + k \<le> fst m" using Cons.prems x by (intro Cons.IH) auto
    then show ?thesis using Cons.prems x by simp
  qed
qed

lemma rev_at_drop16:
  assumes "16 \<le> off \<or> off + n \<le> 16" and "off + n \<le> length p" and "length q = length p"
    and "drop 16 p = drop 16 q"
  shows "drop 16 (rev_at (off, n) p) = drop 16 (rev_at (off, n) q)"
proof (rule nth_equalityI)
  show "length (drop 16 (rev_at (off, n) p)) = length (drop 16 (rev_at (off, n) q))"
    using assms(2,3) by simp
next
  fix i assume "i < length (drop 16 (rev_at (off, n) p))"
  then have i: "16 + i < length p" using assms(2) by simp
  have e: "p ! j = q ! j" if "16 \<le> j" "j < length p" for j
    using arg_cong [OF assms(4), of "\<lambda>xs. xs ! (j - 16)"] that assms(3) by simp
  have "rev_at (off, n) p ! (16 + i) = rev_at (off, n) q ! (16 + i)"
    using assms(1-3) i by (auto simp: rev_at_nth intro!: e)
  then show "drop 16 (rev_at (off, n) p) ! i = drop 16 (rev_at (off, n) q) ! i"
    using i assms(2,3) by simp
qed

lemma fold_rev_at_drop16:
  assumes "\<forall>m \<in> set ms. 16 \<le> fst m \<or> fst m + snd m \<le> 16"
  shows "members_ok lo ms (length p) \<Longrightarrow> length q = length p \<Longrightarrow> drop 16 p = drop 16 q \<Longrightarrow>
    drop 16 (fold rev_at ms p) = drop 16 (fold rev_at ms q)"
  using assms
proof (induction ms arbitrary: p q lo)
  case Nil
  then show ?case by simp
next
  case (Cons m ms)
  obtain o2 k where m: "m = (o2, k)" by (cases m)
  have "drop 16 (rev_at (o2, k) p) = drop 16 (rev_at (o2, k) q)"
    using Cons.prems m by (intro rev_at_drop16) auto
  then show ?case
    unfolding m fold_simps(2) using Cons.prems m by (intro Cons.IH [of "o2 + k"]) auto
qed

lemma node_members_split:
  assumes "256 \<le> REDCONF_BLOCK_SIZE cf"
  shows "\<forall>m \<in> set (node_members cf fl). 16 \<le> fst m \<or> fst m + snd m \<le> 16"
proof -
  have "16 \<le> fst m" if "m \<in> set master_members \<or> m \<in> set (inode_members cf) \<or> m \<in> set (indir_members cf)" for m
    using that members_ok_ge [OF master_members_ok [OF assms]]
      members_ok_ge [OF inode_members_ok [OF assms]] members_ok_ge [OF indir_members_ok [OF assms]] by blast
  then show ?thesis by (auto simp: node_members_def Let_def split: if_splits)
qed

lemma wire_drop16:
  assumes "256 \<le> REDCONF_BLOCK_SIZE cf" and "length p = REDCONF_BLOCK_SIZE cf"
    and "length q = REDCONF_BLOCK_SIZE cf" and "drop 16 p = drop 16 q"
  shows "drop 16 (wire cf fl p) = drop 16 (wire cf fl q)"
  using assms node_members_ok [of cf fl] fold_rev_at_drop16 [OF node_members_split [OF assms(1)], where lo = 0 and p = p and q = q]
  by (simp add: wire_def BufferEndianSwap_eq)

lemma length_wire [simp]:
  "256 \<le> REDCONF_BLOCK_SIZE cf \<Longrightarrow> length p = REDCONF_BLOCK_SIZE cf \<Longrightarrow>
   length (wire cf fl p) = REDCONF_BLOCK_SIZE cf"
  by (simp add: wire_def length_BufferEndianSwap)

lemma wire_twice [simp]:
  "256 \<le> REDCONF_BLOCK_SIZE cf \<Longrightarrow> length p = REDCONF_BLOCK_SIZE cf \<Longrightarrow> wire cf fl (wire cf fl p) = p"
  by (simp add: wire_def BufferEndianSwap_twice)

lemma wire_data: "flags_ok fl \<Longrightarrow> fl AND BFLAG_META = 0 \<Longrightarrow> wire cf fl p = p"
  by (simp add: wire_def flags_ok_def BufferEndianSwap_def)

text \<open>The swap depends on the kind of node only.\<close>

lemma wire_kind:
  "flags_ok fl \<Longrightarrow> flags_ok fl' \<Longrightarrow> fl AND BFLAG_META_MASK = fl' AND BFLAG_META_MASK \<Longrightarrow>
   wire cf fl p = wire cf fl' p"
  by (simp add: wire_def flags_ok_def BufferEndianSwap_def)

section \<open>Stamping a node\<close>

lemma length_stamp_node [simp]:
  "256 \<le> REDCONF_BLOCK_SIZE cf \<Longrightarrow> length p = REDCONF_BLOCK_SIZE cf \<Longrightarrow>
   length (stamp_node cf p fl sig seq) = REDCONF_BLOCK_SIZE cf"
  by (simp add: stamp_node_def Let_def NODEHEADER_OFFSET_SIG_def NODEHEADER_OFFSET_CRC_def
      NODEHEADER_OFFSET_SEQ_def length_BufferEndianSwap)

lemma drop16_stamp_node:
  assumes "256 \<le> REDCONF_BLOCK_SIZE cf" and "length p = REDCONF_BLOCK_SIZE cf"
  shows "drop 16 (stamp_node cf p fl sig seq) = drop 16 (wire cf fl p)"
proof -
  let ?p = "st64 (REDCONF_ENDIAN_BIG cf) (st32 (REDCONF_ENDIAN_BIG cf) p 0 sig) 8 seq"
  have l: "length ?p = REDCONF_BLOCK_SIZE cf" using assms by simp
  have "drop 16 ?p = drop 16 p" using assms by simp
  then have "drop 16 (wire cf fl ?p) = drop 16 (wire cf fl p)"
    using assms l by (intro wire_drop16) auto
  moreover have "stamp_node cf p fl sig seq =
      st32 (REDCONF_ENDIAN_BIG cf) (wire cf fl ?p) 4
        (let crc = RedCrcNode (REDCONF_CRC_ALGORITHM cf) (REDCONF_BLOCK_SIZE cf) (Some (wire cf fl ?p))
         in if REDCONF_ENDIAN_SWAP cf then RedRev32 crc else crc)"
    by (simp add: stamp_node_def Let_def wire_def NODEHEADER_OFFSET_SIG_def NODEHEADER_OFFSET_CRC_def
        NODEHEADER_OFFSET_SEQ_def)
  ultimately show ?thesis using assms l by simp
qed

section \<open>The view\<close>

definition cache_lookup :: "'d redconf \<Rightarrow> 'd redstate \<Rightarrow> u8 \<Rightarrow> u32 \<Rightarrow> nat option" where
  "cache_lookup cf s v b =
     find (\<lambda>i. bVolNum (aHead s ! i) = v \<and> ulBlock (aHead s ! i) = b) [0..<REDCONF_BUFFER_COUNT cf]"

definition cache_view ::
  "'d redconf \<Rightarrow> ('d \<Rightarrow> u8 \<Rightarrow> nat \<Rightarrow> u8) \<Rightarrow> 'd redstate \<Rightarrow> u8 \<Rightarrow> u32 \<Rightarrow> bytes" where
  "cache_view cf dbyte s v b =
     (case cache_lookup cf s v b of
        Some i \<Rightarrow> wire cf (uFlags (aHead s ! i)) (aabBuffer s ! i)
      | None \<Rightarrow> dblock dbyte (REDCONF_BLOCK_SIZE cf) (bdev s) v (unat b))"

text \<open>A buffer that is not dirty holds what the disk holds.\<close>

definition cache_clean :: "'d redconf \<Rightarrow> ('d \<Rightarrow> u8 \<Rightarrow> nat \<Rightarrow> u8) \<Rightarrow> 'd redstate \<Rightarrow> bool" where
  "cache_clean cf dbyte s \<longleftrightarrow>
     (\<forall>i < REDCONF_BUFFER_COUNT cf. ulBlock (aHead s ! i) \<noteq> BBLK_INVALID
        \<and> uFlags (aHead s ! i) AND BFLAG_DIRTY = 0 \<longrightarrow>
        wire cf (uFlags (aHead s ! i)) (aabBuffer s ! i)
          = dblock dbyte (REDCONF_BLOCK_SIZE cf) (bdev s) (bVolNum (aHead s ! i)) (unat (ulBlock (aHead s ! i))))"

text \<open>The current volume and the volumes with cached blocks are open.\<close>

definition cache_geom :: "'d redconf \<Rightarrow> ('d \<Rightarrow> u8 \<Rightarrow> nat) \<Rightarrow> 'd redstate \<Rightarrow> bool" where
  "cache_geom cf dsize s \<longleftrightarrow>
     vol_geom cf dsize s (gbRedVolNum s) \<and>
     (\<forall>i < REDCONF_BUFFER_COUNT cf. ulBlock (aHead s ! i) \<noteq> BBLK_INVALID \<longrightarrow>
        vol_geom cf dsize s (bVolNum (aHead s ! i))
        \<and> ulBlock (aHead s ! i) < ulBlockCount (gaRedVolume s (bVolNum (aHead s ! i))))"

definition cache_ok ::
  "'d redconf \<Rightarrow> ('d \<Rightarrow> u8 \<Rightarrow> nat \<Rightarrow> u8) \<Rightarrow> ('d \<Rightarrow> u8 \<Rightarrow> nat) \<Rightarrow> 'd redstate \<Rightarrow> bool" where
  "cache_ok cf dbyte dsize s \<longleftrightarrow> cache_inv cf s \<and> cache_geom cf dsize s \<and> cache_clean cf dbyte s"

lemma vol_geom_frame:
  "cache_frame s s' \<Longrightarrow> dsize (bdev s') = dsize (bdev s) \<Longrightarrow> vol_geom cf dsize s' v = vol_geom cf dsize s v"
  by (simp add: vol_geom_def cache_frame_def vol_static_def)

lemma cache_lookup_Some:
  assumes "cache_inv cf s" and "b \<noteq> BBLK_INVALID"
  shows "cache_lookup cf s v b = Some i \<longleftrightarrow>
    i < REDCONF_BUFFER_COUNT cf \<and> bVolNum (aHead s ! i) = v \<and> ulBlock (aHead s ! i) = b"
proof
  assume "cache_lookup cf s v b = Some i"
  then show "i < REDCONF_BUFFER_COUNT cf \<and> bVolNum (aHead s ! i) = v \<and> ulBlock (aHead s ! i) = b"
    by (auto simp: cache_lookup_def find_Some_iff)
next
  assume a: "i < REDCONF_BUFFER_COUNT cf \<and> bVolNum (aHead s ! i) = v \<and> ulBlock (aHead s ! i) = b"
  then obtain j where j: "cache_lookup cf s v b = Some j"
    by (cases "cache_lookup cf s v b") (auto simp: cache_lookup_def find_None_iff)
  then have "j < REDCONF_BUFFER_COUNT cf \<and> bVolNum (aHead s ! j) = v \<and> ulBlock (aHead s ! j) = b"
    by (auto simp: cache_lookup_def find_Some_iff)
  then have "i = j" using assms a by (auto simp: cache_inv_def heads_inv_def same_block_def)
  then show "cache_lookup cf s v b = Some i" using j by simp
qed

lemma cache_lookup_None:
  "cache_lookup cf s v b = None \<longleftrightarrow> uncached cf s v b"
  by (auto simp: cache_lookup_def find_None_iff uncached_def)

lemma BufferFind_lookup:
  "blk < ulBlockCount (gpRedVolume s) \<Longrightarrow> BufferFind cf blk s = (cache_lookup cf s (gbRedVolNum s) blk, s)"
  by (auto simp: BufferFind_def cache_lookup_def)

section \<open>Writing a buffer\<close>

lemma buffers_frame [frame]: "cache_frame s (s\<lparr>aabBuffer := x\<rparr>)" "cache_frame s (s\<lparr>aHead := y\<rparr>)"
  by (simp_all add: cache_frame_def)

context block_device
begin

text \<open>Blocks other than the ones written are unchanged.\<close>

lemma dblock_outside:
  assumes "\<And>w k. w \<noteq> v \<or> k < b * BS \<or> (b + n) * BS \<le> k \<Longrightarrow> dbyte d' w k = dbyte d w k"
    and "w \<noteq> v \<or> c < b \<or> b + n \<le> c"
  shows "dblock dbyte BS d' w c = dblock dbyte BS d w c"
proof (rule dblock_cong)
  fix k assume k: "c * BS \<le> k" "k < c * BS + BS"
  from assms(2) show "dbyte d' w k = dbyte d w k"
  proof (elim disjE)
    assume "c < b"
    then have "(c + 1) * BS \<le> b * BS" by (intro mult_le_mono1) simp
    then have "k < b * BS" using k by simp
    then show ?thesis using assms(1) by blast
  next
    assume "b + n \<le> c"
    then have "(b + n) * BS \<le> c * BS" by (intro mult_le_mono1) simp
    then have "(b + n) * BS \<le> k" using k(1) by (rule le_trans)
    then show ?thesis using assms(1) by blast
  qed (simp add: assms(1))
qed

lemma io_range_block:
  "vol_ok cf v \<Longrightarrow> b < ulBlockCount (gaRedVolume s v) \<Longrightarrow> io_range_ok cf s v b 1"
proof -
  assume a: "vol_ok cf v" "b < ulBlockCount (gaRedVolume s v)"
  then have "1 \<le> unat (ulBlockCount (gaRedVolume s v) - b)"
    by (simp add: word_less_nat_alt unat_sub_if')
  then show ?thesis using a by (simp add: io_range_ok_def word_less_nat_alt)
qed

lemma bs_small: "conf_ok cf \<Longrightarrow> BS < 2 ^ 32 \<and> 256 \<le> BS"
  using conf_ok_block_size [of cf] by simp

lemma write_block:
  assumes conf: "conf_ok cf" and geom: "vol_geom cf dsize s v"
    and b: "b < ulBlockCount (gaRedVolume s v)" and len: "length p = BS"
    and run: "RedIoWrite cf v b 1 p s = (r, s')"
  shows "cache_frame s s' \<and> same_cache s s' \<and> dsize (bdev s') = dsize (bdev s)
    \<and> (\<forall>w c. w \<noteq> v \<or> c \<noteq> unat b \<longrightarrow> dblock dbyte BS (bdev s') w c = dblock dbyte BS (bdev s) w c)
    \<and> (r = Inr () \<longrightarrow> dblock dbyte BS (bdev s') v (unat b) = p)"
proof -
  have rng: "io_range_ok cf s v b 1" using geom b by (intro io_range_block) (auto simp: vol_geom_def)
  obtain ret d where r: "r = (case ret of None \<Rightarrow> Inr () | Some e \<Rightarrow> Inl e)"
    and s': "s' = io_finish ret (s\<lparr>bdev := d\<rparr>)" and ds: "dsize d = dsize (bdev s)"
    and out: "\<And>w k. w \<noteq> v \<or> k < unat b * BS \<or> (unat b + 1) * BS \<le> k \<Longrightarrow> dbyte d w k = dbyte (bdev s) w k"
    and ins: "\<And>k. ret = None \<Longrightarrow> unat b * BS \<le> k \<Longrightarrow> k < (unat b + 1) * BS \<Longrightarrow>
      dbyte d v k = p ! (k - unat b * BS)"
    using RedIoWrite_spec [OF geom conf rng _ _ run] bs_small [OF conf] len by auto
  have "dblock dbyte BS d v (unat b) = p" if "ret = None"
    using ins [OF that] len by (auto simp: dblock_def intro!: nth_equalityI)
  moreover have "dblock dbyte BS d w c = dblock dbyte BS (bdev s) w c" if "w \<noteq> v \<or> c \<noteq> unat b" for w c
    by (rule dblock_outside [where b = "unat b" and n = 1, OF out]) (use that in auto)
  ultimately show ?thesis
    using r ds by (auto simp: s' frame st_simps split: option.splits)
qed

lemma BufferWrite_spec:
  assumes conf: "conf_ok cf" and inv: "cache_inv cf s" and i: "i < REDCONF_BUFFER_COUNT cf"
    and valid: "ulBlock (aHead s ! i) \<noteq> BBLK_INVALID" and dirty: "uFlags (aHead s ! i) AND BFLAG_DIRTY \<noteq> 0"
    and geom: "vol_geom cf dsize s (bVolNum (aHead s ! i))"
    and blk: "ulBlock (aHead s ! i) < ulBlockCount (gaRedVolume s (bVolNum (aHead s ! i)))"
    and run: "BufferWrite cf i s = (r, s')"
  obtains p where "aabBuffer s' = (aabBuffer s)[i := p]" and "length p = BS"
    and "cache_frame s s'" and "uNumUsed s' = uNumUsed s" and "abMRU s' = abMRU s" and "aHead s' = aHead s"
    and "dsize (bdev s') = dsize (bdev s)"
    and "drop 16 (wire cf (uFlags (aHead s ! i)) p) = drop 16 (wire cf (uFlags (aHead s ! i)) (aabBuffer s ! i))"
    and "uFlags (aHead s ! i) AND BFLAG_META = 0 \<Longrightarrow> p = aabBuffer s ! i"
    and "\<And>w c. w \<noteq> bVolNum (aHead s ! i) \<or> c \<noteq> unat (ulBlock (aHead s ! i)) \<Longrightarrow>
      dblock dbyte BS (bdev s') w c = dblock dbyte BS (bdev s) w c"
    and "r = Inr () \<Longrightarrow> dblock dbyte BS (bdev s') (bVolNum (aHead s ! i)) (unat (ulBlock (aHead s ! i)))
      = wire cf (uFlags (aHead s ! i)) p"
proof -
  let ?h = "aHead s ! i" and ?q = "aabBuffer s ! i"
  let ?fl = "uFlags ?h"
  have bs: "256 \<le> BS" using bs_small [OF conf] by simp
  have len: "length ?q = BS" "length (aabBuffer s) = REDCONF_BUFFER_COUNT cf" "i < length (aabBuffer s)"
    using inv i by (simp_all add: cache_inv_def)
  have fl: "flags_ok ?fl" using cache_inv_head(1) [OF inv i] valid by (simp add: head_ok_def)
  show thesis
  proof (cases "?fl AND BFLAG_META = 0")
    case True
    note w = wire_data [where cf = cf, OF fl True]
    obtain s1 where io: "RedIoWrite cf (bVolNum ?h) (ulBlock ?h) 1 ?q s = (r, s1)"
      and s': "s' = (if REDCONF_ENDIAN_SWAP cf then set_buf i (BufferEndianSwap cf (aabBuffer s1 ! i) (uFlags (aHead s1 ! i))) s1 else s1)"
      using run i dirty True by (auto simp: BufferWrite_def red_simps REDASSERT_def split: prod.splits)
    note b = write_block [OF conf geom blk len(1) io]
    have "s' = s1 \<or> s' = set_buf i ?q s1"
      using s' b w [where p = ?q] by (auto simp: same_cache_def wire_def split: if_splits)
    then have f: "aabBuffer s' = (aabBuffer s)[i := ?q]" "cache_frame s s'" "uNumUsed s' = uNumUsed s"
      "abMRU s' = abMRU s" "aHead s' = aHead s" "bdev s' = bdev s1"
      using b by (auto simp: same_cache_def set_buf_def intro: cache_frame_trans frame)
    show thesis by (rule that [of ?q]) (use f b w len in auto)
  next
    case False
    show thesis
    proof (cases "flag_signature cf ?fl = 0 \<or> ullSequence (gpRedVolume s) = 0xFFFFFFFFFFFFFFFF")
      case True
      have "\<exists>e. r = Inl e \<and> (s' = REDERROR s \<or> s' = RedVolCriticalError s)"
        using run i dirty False True fl
        by (auto simp: BufferWrite_def BufferFinalize_def red_simps REDASSERT_def RedVolSeqNumIncrement_run
            flags_ok_def split: if_splits)
      then show thesis by (intro that [of ?q]) (use len False in \<open>auto simp: st_simps frame\<close>)
    next
      case ok: False
      let ?seq = "ullSequence (gpRedVolume s)"
      let ?q1 = "stamp_node cf ?q ?fl (flag_signature cf ?fl) ?seq"
      let ?s1 = "set_buf i ?q1 (upd_vol (\<lambda>v. v\<lparr>ullSequence := ullSequence v + 1\<rparr>) s)"
      have s1: "aHead ?s1 = aHead s" "aabBuffer ?s1 = (aabBuffer s)[i := ?q1]" "bdev ?s1 = bdev s"
        "uNumUsed ?s1 = uNumUsed s" "abMRU ?s1 = abMRU s" "?s1 = set_buf i ?q1 ?s1"
        using len by (simp_all add: set_buf_def st_simps)
      have inc: "RedVolSeqNumIncrement s = (Inr (), upd_vol (\<lambda>v. v\<lparr>ullSequence := ullSequence v + 1\<rparr>) s)"
        using ok by (simp add: RedVolSeqNumIncrement_run)
      have fr1: "cache_frame s ?s1"
        using RedVolSeqNumIncrement_frame [OF inc] by (blast intro: cache_frame_trans frame)
      obtain s2 where io: "RedIoWrite cf (bVolNum ?h) (ulBlock ?h) 1 ?q1 ?s1 = (r, s2)"
        and s': "s' = (if REDCONF_ENDIAN_SWAP cf then set_buf i (BufferEndianSwap cf (aabBuffer s2 ! i) (uFlags (aHead s2 ! i))) s2 else s2)"
        using run i dirty False ok fl len s1 inc
        by (auto simp: BufferWrite_def BufferFinalize_def red_simps REDASSERT_def flags_ok_def
            split: prod.splits if_splits)
      have l1: "length ?q1 = BS" using bs len by simp
      have geom1: "vol_geom cf dsize ?s1 (bVolNum ?h)" using geom vol_geom_frame [OF fr1] s1 by simp
      have blk1: "ulBlock ?h < ulBlockCount (gaRedVolume ?s1 (bVolNum ?h))"
        using blk fr1 by (simp add: cache_frame_def vol_static_def)
      note b = write_block [OF conf geom1 blk1 l1 io]
      let ?p = "wire cf ?fl ?q1"
      have s3: "s' = set_buf i ?p s2"
        using s' b len s1 by (auto simp: same_cache_def wire_def set_buf_def)
      have "cache_frame ?s1 s2" using b by blast
      then have fr: "cache_frame s s'"
        unfolding s3 using fr1 by (blast intro: cache_frame_trans frame)
      have f: "aabBuffer s' = (aabBuffer s)[i := ?p]" "uNumUsed s' = uNumUsed s"
        "abMRU s' = abMRU s" "aHead s' = aHead s" "bdev s' = bdev s2"
        using b s1 unfolding s3 by (simp_all add: same_cache_def set_buf_def)
      show thesis
        by (rule that [of ?p]) (use f fr b s1 len False bs l1 in \<open>auto simp: drop16_stamp_node\<close>)
    qed
  qed
qed

end

end
