(* ===== verification/BufferFlow.thy ===== *)
theory BufferFlow
  imports BufferCache
begin

text \<open>
  Acquiring and flushing buffers over any block device: \<open>evolves\<close> relates the cache and the disk
  before and after an operation that moves blocks between them. The view of every block is kept
  up to the sixteen header bytes of dirty metadata nodes, which are stamped when written, and
  buffers in use stay where they are.
\<close>

definition meta_dirty :: "'d redconf \<Rightarrow> 'd redstate \<Rightarrow> u8 \<Rightarrow> u32 \<Rightarrow> bool" where
  "meta_dirty cf s v b \<longleftrightarrow>
     (\<exists>i < REDCONF_BUFFER_COUNT cf. bVolNum (aHead s ! i) = v \<and> ulBlock (aHead s ! i) = b
        \<and> uFlags (aHead s ! i) AND BFLAG_DIRTY \<noteq> 0 \<and> uFlags (aHead s ! i) AND BFLAG_META \<noteq> 0)"

definition evolves ::
  "'d redconf \<Rightarrow> ('d \<Rightarrow> u8 \<Rightarrow> nat \<Rightarrow> u8) \<Rightarrow> ('d \<Rightarrow> u8 \<Rightarrow> nat) \<Rightarrow> 'd redstate \<Rightarrow> 'd redstate \<Rightarrow> bool" where
  "evolves cf dbyte dsize s s' \<longleftrightarrow>
     cache_frame s s' \<and> dsize (bdev s') = dsize (bdev s)
     \<and> (\<forall>v b. b \<noteq> BBLK_INVALID \<longrightarrow>
          drop 16 (cache_view cf dbyte s' v b) = drop 16 (cache_view cf dbyte s v b)
          \<and> (\<not> meta_dirty cf s v b \<longrightarrow> cache_view cf dbyte s' v b = cache_view cf dbyte s v b)
          \<and> (meta_dirty cf s' v b \<longrightarrow> meta_dirty cf s v b))
     \<and> (\<forall>i < REDCONF_BUFFER_COUNT cf. bRefCount (aHead s' ! i) = bRefCount (aHead s ! i))
     \<and> (\<forall>i < REDCONF_BUFFER_COUNT cf. bRefCount (aHead s ! i) \<noteq> 0 \<longrightarrow>
          ulBlock (aHead s' ! i) = ulBlock (aHead s ! i) \<and> bVolNum (aHead s' ! i) = bVolNum (aHead s ! i)
          \<and> uFlags (aHead s' ! i) AND BFLAG_META_MASK = uFlags (aHead s ! i) AND BFLAG_META_MASK)"

lemma evolves_refl [simp]: "evolves cf dbyte dsize s s"
  by (simp add: evolves_def)

lemma evolves_trans:
  assumes "evolves cf dbyte dsize s s'" and "evolves cf dbyte dsize s' s''"
  shows "evolves cf dbyte dsize s s''"
  unfolding evolves_def
proof (intro conjI)
  show "cache_frame s s''" using assms unfolding evolves_def by (blast intro: cache_frame_trans)
  show "\<forall>v b. b \<noteq> BBLK_INVALID \<longrightarrow>
      drop 16 (cache_view cf dbyte s'' v b) = drop 16 (cache_view cf dbyte s v b)
      \<and> (\<not> meta_dirty cf s v b \<longrightarrow> cache_view cf dbyte s'' v b = cache_view cf dbyte s v b)
      \<and> (meta_dirty cf s'' v b \<longrightarrow> meta_dirty cf s v b)"
    using assms unfolding evolves_def by metis
qed (use assms in \<open>auto simp: evolves_def\<close>)

lemma cache_view_cong:
  assumes "aHead s' = aHead s" and "aabBuffer s' = aabBuffer s" and "bdev s' = bdev s"
  shows "cache_view cf dbyte s' v b = cache_view cf dbyte s v b"
  using assms by (simp add: cache_view_def cache_lookup_def split: option.split)

lemma meta_dirty_cong: "aHead s' = aHead s \<Longrightarrow> meta_dirty cf s' v b = meta_dirty cf s v b"
  by (simp add: meta_dirty_def)

lemma evolves_same:
  "cache_frame s s' \<Longrightarrow> aHead s' = aHead s \<Longrightarrow> aabBuffer s' = aabBuffer s \<Longrightarrow> bdev s' = bdev s \<Longrightarrow>
   evolves cf dbyte dsize s s'"
  by (simp add: evolves_def cache_view_cong [of s' s] meta_dirty_cong [of s' s])

lemma cache_ok_same:
  "cache_frame s s' \<Longrightarrow> same_cache s s' \<Longrightarrow> bdev s' = bdev s \<Longrightarrow>
   cache_ok cf dbyte dsize s' = cache_ok cf dbyte dsize s"
proof -
  assume f: "cache_frame s s'" and c: "same_cache s s'" and d: "bdev s' = bdev s"
  have g: "vol_geom cf dsize s' v = vol_geom cf dsize s v" for v
    using vol_geom_frame [OF f] d by simp
  have "cache_geom cf dsize s' = cache_geom cf dsize s"
    using f c by (simp add: cache_geom_def g same_cache_def cache_frame_def vol_static_def)
  moreover have "cache_clean cf dbyte s' = cache_clean cf dbyte s"
    using c d by (simp add: cache_clean_def same_cache_def)
  ultimately show ?thesis using cache_inv_same [OF c] by (simp add: cache_ok_def)
qed

lemma kind_not_dirty: "(fl AND NOT BFLAG_DIRTY) AND BFLAG_META_MASK = fl AND BFLAG_META_MASK"
  by (simp add: BFLAG_defs and.assoc)

context block_device
begin

text \<open>Writing back one dirty buffer.\<close>

lemma write_back:
  assumes conf: "conf_ok cf" and ok: "cache_ok cf dbyte dsize s" and i: "i < REDCONF_BUFFER_COUNT cf"
    and valid: "ulBlock (aHead s ! i) \<noteq> BBLK_INVALID" and dirty: "uFlags (aHead s ! i) AND BFLAG_DIRTY \<noteq> 0"
    and run: "BufferWrite cf i s = (r, s')"
  shows "cache_ok cf dbyte dsize s' \<and> evolves cf dbyte dsize s s' \<and> aHead s' = aHead s
    \<and> uNumUsed s' = uNumUsed s \<and> abMRU s' = abMRU s
    \<and> (r = Inr () \<longrightarrow> dblock dbyte BS (bdev s') (bVolNum (aHead s ! i)) (unat (ulBlock (aHead s ! i)))
         = wire cf (uFlags (aHead s ! i)) (aabBuffer s' ! i))
    \<and> (\<forall>j. j \<noteq> i \<longrightarrow> aabBuffer s' ! j = aabBuffer s ! j)"
proof -
  let ?h = "aHead s ! i"
  have inv: "cache_inv cf s" and geom: "cache_geom cf dsize s" and clean: "cache_clean cf dbyte s"
    using ok by (simp_all add: cache_ok_def)
  obtain p where p: "aabBuffer s' = (aabBuffer s)[i := p]" "length p = BS"
    "cache_frame s s'" "uNumUsed s' = uNumUsed s" "abMRU s' = abMRU s" "aHead s' = aHead s"
    "dsize (bdev s') = dsize (bdev s)"
    "drop 16 (wire cf (uFlags ?h) p) = drop 16 (wire cf (uFlags ?h) (aabBuffer s ! i))"
    "uFlags ?h AND BFLAG_META = 0 \<Longrightarrow> p = aabBuffer s ! i"
    "\<And>w c. w \<noteq> bVolNum ?h \<or> c \<noteq> unat (ulBlock ?h) \<Longrightarrow>
      dblock dbyte BS (bdev s') w c = dblock dbyte BS (bdev s) w c"
    "r = Inr () \<Longrightarrow> dblock dbyte BS (bdev s') (bVolNum ?h) (unat (ulBlock ?h)) = wire cf (uFlags ?h) p"
    using BufferWrite_spec [OF conf inv i valid dirty _ _ run] geom i valid by (auto simp: cache_geom_def)
  have len: "i < length (aabBuffer s)" using inv i by (simp add: cache_inv_def)
  have inv': "cache_inv cf s'" using inv p len by (auto simp: cache_inv_def)
  have other: "bVolNum ?h \<noteq> bVolNum (aHead s ! j) \<or> unat (ulBlock ?h) \<noteq> unat (ulBlock (aHead s ! j))"
    if "j < REDCONF_BUFFER_COUNT cf" "j \<noteq> i" for j
    using cache_inv_head(4) [OF inv i, of j ?h] that valid
    by (auto simp: same_block_def simp flip: word_unat_eq_iff)
  have "cache_clean cf dbyte s'"
    unfolding cache_clean_def
  proof (intro allI impI, elim conjE)
    fix j assume j: "j < REDCONF_BUFFER_COUNT cf" "ulBlock (aHead s' ! j) \<noteq> BBLK_INVALID"
      "uFlags (aHead s' ! j) AND BFLAG_DIRTY = 0"
    then have "j \<noteq> i" using dirty p by auto
    then show "wire cf (uFlags (aHead s' ! j)) (aabBuffer s' ! j) =
        dblock dbyte BS (bdev s') (bVolNum (aHead s' ! j)) (unat (ulBlock (aHead s' ! j)))"
      using clean j p(1,6) p(10) [of "bVolNum (aHead s ! j)"] other [of j] by (auto simp: cache_clean_def)
  qed
  moreover have "cache_geom cf dsize s'"
    using geom p vol_geom_frame [OF p(3,7), of cf] by (auto simp: cache_geom_def cache_frame_def vol_static_def)
  moreover have "evolves cf dbyte dsize s s'"
  proof -
    have look: "cache_lookup cf s' v b = cache_lookup cf s v b" for v b by (simp add: cache_lookup_def p)
    have v: "drop 16 (cache_view cf dbyte s' v b) = drop 16 (cache_view cf dbyte s v b)
        \<and> (\<not> meta_dirty cf s v b \<longrightarrow> cache_view cf dbyte s' v b = cache_view cf dbyte s v b)"
      if b: "b \<noteq> BBLK_INVALID" for v b
    proof (cases "cache_lookup cf s v b")
      case None
      then have "v \<noteq> bVolNum ?h \<or> b \<noteq> ulBlock ?h" using i by (auto simp: cache_lookup_None uncached_def)
      then have "v \<noteq> bVolNum ?h \<or> unat b \<noteq> unat (ulBlock ?h)" by (simp flip: word_unat_eq_iff)
      from p(10) [OF this] show ?thesis using None by (simp add: cache_view_def look)
    next
      case (Some k)
      then have k: "k < REDCONF_BUFFER_COUNT cf" "bVolNum (aHead s ! k) = v" "ulBlock (aHead s ! k) = b"
        using cache_lookup_Some [OF inv b] by auto
      show ?thesis
      proof (cases "k = i")
        case True
        have "meta_dirty cf s v b \<or> uFlags ?h AND BFLAG_META = 0"
          using k True dirty by (auto simp: meta_dirty_def)
        then show ?thesis using Some True p(1,6,8,9) len by (auto simp: cache_view_def look)
      next
        case False
        then show ?thesis using Some p(1,6) by (simp add: cache_view_def look)
      qed
    qed
    then show ?thesis using p by (simp add: evolves_def meta_dirty_cong [of s' s])
  qed
  ultimately show ?thesis using p inv' len by (auto simp: cache_ok_def)
qed

text \<open>After a successful write the buffer is marked clean.\<close>

lemma clean_ok:
  assumes ok: "cache_ok cf dbyte dsize s" and i: "i < REDCONF_BUFFER_COUNT cf"
    and valid: "ulBlock (aHead s ! i) \<noteq> BBLK_INVALID"
    and disk: "dblock dbyte BS (bdev s) (bVolNum (aHead s ! i)) (unat (ulBlock (aHead s ! i)))
         = wire cf (uFlags (aHead s ! i)) (aabBuffer s ! i)"
  defines "s' \<equiv> upd_head i (\<lambda>h. h\<lparr>uFlags := uFlags h AND NOT BFLAG_DIRTY\<rparr>) s"
  shows "cache_ok cf dbyte dsize s' \<and> evolves cf dbyte dsize s s'"
proof -
  have inv: "cache_inv cf s" and geom: "cache_geom cf dsize s" and clean: "cache_clean cf dbyte s"
    using ok by (simp_all add: cache_ok_def)
  let ?h = "(aHead s ! i)\<lparr>uFlags := uFlags (aHead s ! i) AND NOT BFLAG_DIRTY\<rparr>"
  note hd = cache_inv_head [OF inv i]
  have len: "length (aHead s) = REDCONF_BUFFER_COUNT cf" using inv by (simp add: cache_inv_def heads_inv_def)
  have s': "aHead s' = (aHead s)[i := ?h]" "aabBuffer s' = aabBuffer s" "bdev s' = bdev s"
    "abMRU s' = abMRU s" "uNumUsed s' = uNumUsed s" "gaRedVolume s' = gaRedVolume s" "gbRedVolNum s' = gbRedVolNum s"
    by (simp_all add: s'_def upd_head_def)
  have fl: "flags_ok (uFlags (aHead s ! i))" "uFlags (aHead s ! i) AND BFLAG_NEW = 0"
    using hd(1) valid by (simp_all add: head_ok_def)
  have m: "(x AND NOT BFLAG_DIRTY) AND BFLAG_META_MASK = x AND BFLAG_META_MASK"
    "(x AND NOT BFLAG_DIRTY) AND BFLAG_META = x AND BFLAG_META" for x
    by (simp_all add: BFLAG_defs and.assoc)
  have w: "wire cf (uFlags ?h) p = wire cf (uFlags (aHead s ! i)) p" for p
    using flags_ok_dirty(2) [OF fl] fl m by (intro wire_kind) auto
  have inv': "cache_inv cf s'"
    by (rule cache_inv_update [OF inv i, of ?h])
       (use inv hd s' flags_ok_dirty(2) [OF fl] refs_update [OF hd(2), of ?h] in
        \<open>auto simp: head_ok_def cache_inv_def\<close>)
  have look: "cache_lookup cf s' v b = cache_lookup cf s v b" for v b
    unfolding cache_lookup_def s' using len i by (intro find_cong) (auto simp: nth_list_update)
  have "cache_view cf dbyte s' v b = cache_view cf dbyte s v b" for v b
    using w len i by (auto simp: cache_view_def look s' split: option.split)
  moreover have "meta_dirty cf s' v b \<longrightarrow> meta_dirty cf s v b" for v b
    using len i by (auto simp: meta_dirty_def s' nth_list_update and.assoc split: if_splits)
  moreover have "cache_frame s s'" unfolding s'_def by (rule frame)
  moreover have "cache_clean cf dbyte s'"
    using clean disk w len i by (auto simp: cache_clean_def s' nth_list_update)
  moreover have "cache_geom cf dsize s'"
    using geom len i by (auto simp: cache_geom_def s' nth_list_update vol_geom_def)
  ultimately show ?thesis using inv' len i by (auto simp: cache_ok_def evolves_def s' nth_list_update kind_not_dirty)
qed

lemma buffer_flush_from_spec:
  assumes conf: "conf_ok cf"
  shows "cache_ok cf dbyte dsize s \<Longrightarrow> \<forall>i \<in> set is. i < REDCONF_BUFFER_COUNT cf \<Longrightarrow>
    buffer_flush_from cf start cnt is s = (r, s') \<Longrightarrow>
    cache_ok cf dbyte dsize s' \<and> evolves cf dbyte dsize s s' \<and> abMRU s' = abMRU s \<and> uNumUsed s' = uNumUsed s
    \<and> (\<forall>i < REDCONF_BUFFER_COUNT cf. aHead s' ! i = aHead s ! i
         \<or> aHead s' ! i = (aHead s ! i)\<lparr>uFlags := uFlags (aHead s ! i) AND NOT BFLAG_DIRTY\<rparr>)
    \<and> (r = Inr () \<longrightarrow> (\<forall>i \<in> set is. discarded s start cnt (aHead s ! i) \<longrightarrow>
         uFlags (aHead s' ! i) AND BFLAG_DIRTY = 0))"
proof (induction "is" arbitrary: s)
  case Nil
  then show ?case by (auto simp: red_simps)
next
  case (Cons i rest)
  let ?n = "REDCONF_BUFFER_COUNT cf"
  have i: "i < ?n" and rest: "\<forall>k \<in> set rest. k < ?n" using Cons.prems(2) by auto
  have nn: "(x AND NOT BFLAG_DIRTY) AND NOT BFLAG_DIRTY = x AND NOT BFLAG_DIRTY"
    "(x AND NOT BFLAG_DIRTY) AND BFLAG_DIRTY = 0" for x :: u16
    by (simp_all add: and.assoc)
  show ?case
  proof (cases "discarded s start cnt (aHead s ! i) \<and> uFlags (aHead s ! i) AND BFLAG_DIRTY \<noteq> 0")
    case False
    then have run: "buffer_flush_from cf start cnt rest s = (r, s')"
      using Cons.prems(3) unfolding discarded_def by (auto simp: red_simps Let_def split: if_splits)
    note IH = Cons.IH [OF Cons.prems(1) rest run]
    have "r = Inr () \<longrightarrow> discarded s start cnt (aHead s ! i) \<longrightarrow> uFlags (aHead s' ! i) AND BFLAG_DIRTY = 0"
      using IH i False nn by (auto dest!: spec [of _ i])
    then show ?thesis using IH by auto
  next
    case True
    then have valid: "ulBlock (aHead s ! i) \<noteq> BBLK_INVALID" by (simp add: discarded_def)
    obtain r1 s1 where w: "BufferWrite cf i s = (r1, s1)" by (cases "BufferWrite cf i s")
    note wb = write_back [OF conf Cons.prems(1) i valid _ w]
    show ?thesis
    proof (cases r1)
      case (Inl e)
      then have "(r, s') = (Inl e, s1)"
        using Cons.prems(3) True w by (simp add: red_simps discarded_def Let_def)
      then show ?thesis using wb True by auto
    next
      case (Inr u)
      let ?s2 = "upd_head i (\<lambda>h. h\<lparr>uFlags := uFlags h AND NOT BFLAG_DIRTY\<rparr>) s1"
      have run: "buffer_flush_from cf start cnt rest ?s2 = (r, s')"
        using Cons.prems(3) True w Inr by (simp add: red_simps discarded_def Let_def)
      have c: "cache_ok cf dbyte dsize ?s2 \<and> evolves cf dbyte dsize s1 ?s2"
        using wb True Inr valid i by (intro clean_ok) auto
      have len: "length (aHead s) = ?n" using Cons.prems(1) by (simp add: cache_ok_def cache_inv_def heads_inv_def)
      have s2: "aHead ?s2 = (aHead s)[i := (aHead s ! i)\<lparr>uFlags := uFlags (aHead s ! i) AND NOT BFLAG_DIRTY\<rparr>]"
        "abMRU ?s2 = abMRU s" "uNumUsed ?s2 = uNumUsed s" "gbRedVolNum ?s2 = gbRedVolNum s"
        using wb True by (auto simp: upd_head_def evolves_def cache_frame_def)
      have d: "discarded ?s2 start cnt = discarded s start cnt" by (simp add: fun_eq_iff discarded_def s2(4))
      have ev: "evolves cf dbyte dsize s ?s2" using wb c True by (blast intro: evolves_trans)
      note IH = Cons.IH [OF conjunct1 [OF c] rest run, unfolded d s2(1-3)]
      have each: "aHead s' ! k = aHead s ! k
          \<or> aHead s' ! k = (aHead s ! k)\<lparr>uFlags := uFlags (aHead s ! k) AND NOT BFLAG_DIRTY\<rparr>" if "k < ?n" for k
        using IH that len i nn by (cases "k = i") auto
      have ii: "aHead s' ! i = (aHead s ! i)\<lparr>uFlags := uFlags (aHead s ! i) AND NOT BFLAG_DIRTY\<rparr>"
        using IH len i nn by (auto dest!: spec [of _ i])
      have rng: "r = Inr () \<longrightarrow> (\<forall>k \<in> set (i # rest). discarded s start cnt (aHead s ! k) \<longrightarrow>
          uFlags (aHead s' ! k) AND BFLAG_DIRTY = 0)"
      proof (intro impI ballI)
        fix k assume k: "r = Inr ()" "k \<in> set (i # rest)" "discarded s start cnt (aHead s ! k)"
        show "uFlags (aHead s' ! k) AND BFLAG_DIRTY = 0"
          using IH k ii nn len i by (cases "k = i") auto
      qed
      show ?thesis using IH each rng ev evolves_trans [OF ev] by blast
    qed
  qed
qed

end

end
