(* ===== verification/BufferGet.thy ===== *)
theory BufferGet
  imports BufferFlow
begin

text \<open>
  \<open>RedBufferGet\<close> over any block device: which buffer it recycles, that a block is handed out with
  the contents the view has for it, and that nothing is lost when the write-back of the recycled
  buffer or the read fails.
\<close>

section \<open>The recycled buffer\<close>

lemma lru_scan_spec:
  "lru_scan s n \<le> n \<and> (lru_scan s n \<noteq> 0 \<longrightarrow> bRefCount (aHead s ! (abMRU s ! lru_scan s n)) = 0)
   \<and> (\<forall>j. lru_scan s n < j \<and> j \<le> n \<longrightarrow> bRefCount (aHead s ! (abMRU s ! j)) \<noteq> 0)"
  by (induction n) (auto simp: le_Suc_eq)

definition lru_victim :: "'d redconf \<Rightarrow> 'd redstate \<Rightarrow> nat" where
  "lru_victim cf s = abMRU s ! lru_scan s (REDCONF_BUFFER_COUNT cf - 1)"

lemma lru_victim_spec:
  assumes inv: "cache_inv cf s" and room: "uNumUsed s \<noteq> of_nat (REDCONF_BUFFER_COUNT cf)"
  shows "lru_victim cf s < REDCONF_BUFFER_COUNT cf" and "bRefCount (aHead s ! lru_victim cf s) = 0"
    and "\<exists>k < REDCONF_BUFFER_COUNT cf. abMRU s ! k = lru_victim cf s
      \<and> (\<forall>j. k < j \<and> j < REDCONF_BUFFER_COUNT cf \<longrightarrow> bRefCount (aHead s ! (abMRU s ! j)) \<noteq> 0)"
proof -
  let ?n = "REDCONF_BUFFER_COUNT cf"
  have n: "0 < ?n" "?n \<le> 255" and mru: "mru_inv ?n (abMRU s)" and len: "length (aHead s) = ?n"
    and used: "unat (uNumUsed s) = refs (aHead s)"
    using inv by (auto simp: cache_inv_def heads_inv_def)
  have l: "length (abMRU s) = ?n" using mru by (rule mru_inv_length)
  note sc = lru_scan_spec [of s "?n - 1"]
  let ?k = "lru_scan s (?n - 1)"
  have "?k \<le> ?n - 1" using sc by blast
  then have k: "?k < ?n" using n(1) by linarith
  have after: "\<forall>j. ?k < j \<and> j < ?n \<longrightarrow> bRefCount (aHead s ! (abMRU s ! j)) \<noteq> 0" using sc n by auto
  show "\<exists>k < ?n. abMRU s ! k = lru_victim cf s
      \<and> (\<forall>j. k < j \<and> j < ?n \<longrightarrow> bRefCount (aHead s ! (abMRU s ! j)) \<noteq> 0)"
    using k after by (auto simp: lru_victim_def)
  have "lru_victim cf s \<in> set (abMRU s)" unfolding lru_victim_def using k l by (intro nth_mem) simp
  then show "lru_victim cf s < ?n" using mru by (simp add: mru_inv_def)
  show "bRefCount (aHead s ! lru_victim cf s) = 0"
  proof (rule ccontr)
    assume ref: "bRefCount (aHead s ! lru_victim cf s) \<noteq> 0"
    then have "?k = 0" using sc by (auto simp: lru_victim_def)
    then have all: "bRefCount (aHead s ! (abMRU s ! j)) \<noteq> 0" if "j < ?n" for j
      using after ref that by (cases j) (auto simp: lru_victim_def)
    have "bRefCount (aHead s ! i) \<noteq> 0" if "i < ?n" for i
    proof -
      have "i \<in> set (abMRU s)" using that mru by (simp add: mru_inv_def)
      then show ?thesis using all l by (metis in_set_conv_nth)
    qed
    then have "refs (aHead s) = ?n" 
      using len count_if_full [of "\<lambda>h. bRefCount h \<noteq> 0" "aHead s"] by (simp add: refs_def)
    then have "uNumUsed s = of_nat ?n" using used by (metis of_nat_unat ucast_id)
    then show False using room by simp
  qed
qed

section \<open>Buffers that hold no block\<close>

context block_device
begin

lemma bdev_same:
  assumes "dbyte d = dbyte (bdev s)" and "dsize d = dsize (bdev s)"
  shows "cache_ok cf dbyte dsize (s\<lparr>bdev := d\<rparr>) = cache_ok cf dbyte dsize s"
    and "evolves cf dbyte dsize s (s\<lparr>bdev := d\<rparr>)"
proof -
  have db: "dblock dbyte BS d v b = dblock dbyte BS (bdev s) v b" for v b
    using assms by (simp add: dblock_def)
  have f: "cache_frame s (s\<lparr>bdev := d\<rparr>)" by (simp add: cache_frame_def)
  have "cache_view cf dbyte (s\<lparr>bdev := d\<rparr>) v b = cache_view cf dbyte s v b" for v b
    by (simp add: cache_view_def cache_lookup_def db split: option.split)
  then show "evolves cf dbyte dsize s (s\<lparr>bdev := d\<rparr>)"
    using f assms by (simp add: evolves_def meta_dirty_def)
  have "vol_geom cf dsize (s\<lparr>bdev := d\<rparr>) v = vol_geom cf dsize s v" for v
    using vol_geom_frame [OF f] assms by simp
  then show "cache_ok cf dbyte dsize (s\<lparr>bdev := d\<rparr>) = cache_ok cf dbyte dsize s"
    by (simp add: cache_ok_def cache_inv_def cache_geom_def cache_clean_def db)
qed

lemma error_ok:
  assumes "s' = REDERROR s \<or> s' = RedVolCriticalError s \<or> s' = io_finish ret s"
  shows "cache_ok cf dbyte dsize s' = cache_ok cf dbyte dsize s" and "evolves cf dbyte dsize s s'"
proof -
  have e: "cache_frame s s'" "same_cache s s'" "bdev s' = bdev s"
    using assms by (auto simp: frame st_simps io_finish_def split: option.splits)
  then show "cache_ok cf dbyte dsize s' = cache_ok cf dbyte dsize s" by (rule cache_ok_same)
  show "evolves cf dbyte dsize s s'" using e by (intro evolves_same) (auto simp: same_cache_def)
qed

lemma set_buf_invalid:
  assumes ok: "cache_ok cf dbyte dsize s" and i: "i < REDCONF_BUFFER_COUNT cf"
    and inv: "ulBlock (aHead s ! i) = BBLK_INVALID" and len: "length p = BS"
  shows "cache_ok cf dbyte dsize (set_buf i p s)" and "evolves cf dbyte dsize s (set_buf i p s)"
proof -
  have l: "i < length (aabBuffer s)" and cinv: "cache_inv cf s" using ok i by (simp_all add: cache_ok_def cache_inv_def)
  have f: "cache_frame s (set_buf i p s)" by (rule frame)
  have g: "vol_geom cf dsize (set_buf i p s) v = vol_geom cf dsize s v" for v
    using vol_geom_frame [OF f] by (simp add: set_buf_def)
  show "cache_ok cf dbyte dsize (set_buf i p s)"
    using ok i inv len l g
    by (auto simp: cache_ok_def cache_inv_def cache_geom_def cache_clean_def set_buf_def)
  have "cache_view cf dbyte (set_buf i p s) v b = cache_view cf dbyte s v b" if "b \<noteq> BBLK_INVALID" for v b
  proof -
    have "cache_lookup cf (set_buf i p s) v b = cache_lookup cf s v b" by (simp add: cache_lookup_def set_buf_def)
    moreover have "cache_lookup cf s v b \<noteq> Some i" using cache_lookup_Some [OF cinv that] inv that by auto
    ultimately show ?thesis using l by (auto simp: cache_view_def set_buf_def split: option.split)
  qed
  then show "evolves cf dbyte dsize s (set_buf i p s)"
    using f by (simp add: evolves_def meta_dirty_def set_buf_def)
qed

lemma release_victim:
  assumes ok: "cache_ok cf dbyte dsize s" and i: "i < REDCONF_BUFFER_COUNT cf"
    and ref: "bRefCount (aHead s ! i) = 0"
    and disk: "ulBlock (aHead s ! i) \<noteq> BBLK_INVALID \<Longrightarrow>
      dblock dbyte BS (bdev s) (bVolNum (aHead s ! i)) (unat (ulBlock (aHead s ! i)))
      = wire cf (uFlags (aHead s ! i)) (aabBuffer s ! i)"
  defines "s' \<equiv> upd_head i (\<lambda>h. h\<lparr>ulBlock := BBLK_INVALID\<rparr>) s"
  shows "cache_ok cf dbyte dsize s'" and "evolves cf dbyte dsize s s'"
proof -
  let ?h = "(aHead s ! i)\<lparr>ulBlock := BBLK_INVALID\<rparr>"
  have cinv: "cache_inv cf s" and geom: "cache_geom cf dsize s" and clean: "cache_clean cf dbyte s"
    using ok by (simp_all add: cache_ok_def)
  have cinv': "cache_inv cf s'" unfolding s'_def by (rule invalidate_inv [OF cinv i ref])
  have l: "i < length (aHead s)" using cache_inv_head [OF cinv i] by simp
  have s': "aHead s' = (aHead s)[i := ?h]" "aabBuffer s' = aabBuffer s" "bdev s' = bdev s"
    "gaRedVolume s' = gaRedVolume s" "gbRedVolNum s' = gbRedVolNum s"
    by (simp_all add: s'_def upd_head_def)
  have f: "cache_frame s s'" unfolding s'_def by (rule frame)
  have g: "vol_geom cf dsize s' v = vol_geom cf dsize s v" for v
    using vol_geom_frame [OF f] s' by simp
  show "cache_ok cf dbyte dsize s'"
    using cinv' geom clean l g by (auto simp: cache_ok_def cache_geom_def cache_clean_def s')
  have "cache_view cf dbyte s' v b = cache_view cf dbyte s v b \<and> (meta_dirty cf s' v b \<longrightarrow> meta_dirty cf s v b)"
    if b: "b \<noteq> BBLK_INVALID" for v b
  proof
    show "meta_dirty cf s' v b \<longrightarrow> meta_dirty cf s v b"
      using l i b by (auto simp: meta_dirty_def s' split: if_splits)
    show "cache_view cf dbyte s' v b = cache_view cf dbyte s v b"
    proof (cases "cache_lookup cf s v b")
      case None
      then have "cache_lookup cf s' v b = None"
        using l i b unfolding cache_lookup_None uncached_def s' by auto
      then show ?thesis using None by (simp add: cache_view_def s')
    next
      case (Some k)
      note k = iffD1 [OF cache_lookup_Some [OF cinv b] Some]
      show ?thesis
      proof (cases "k = i")
        case True
        have "cache_lookup cf s' v b = None"
          unfolding cache_lookup_None uncached_def
        proof (intro allI impI notI)
          fix j assume j: "j < REDCONF_BUFFER_COUNT cf" "bVolNum (aHead s' ! j) = v \<and> ulBlock (aHead s' ! j) = b"
          then have "j \<noteq> i" using l b by (auto simp: s')
          then have "cache_lookup cf s v b = Some j" using j l cache_lookup_Some [OF cinv b] by (simp add: s')
          then show False using Some True \<open>j \<noteq> i\<close> by simp
        qed
        then show ?thesis using Some True k disk b by (simp add: cache_view_def s')
      next
        case False
        then have "cache_lookup cf s' v b = Some k"
          using k l cache_lookup_Some [OF cinv' b] by (simp add: s')
        then show ?thesis using Some False l by (simp add: cache_view_def s')
      qed
    qed
  qed
  then show "evolves cf dbyte dsize s s'"
    using f l ref by (auto simp: evolves_def s')
qed

section \<open>Filling a buffer\<close>

lemma read_block:
  assumes conf: "conf_ok cf" and geom: "vol_geom cf dsize s v" and b: "b < ulBlockCount (gaRedVolume s v)"
    and len: "length p = BS" and run: "RedIoRead cf v b 1 p s = (r, s')"
  obtains ret q d where "r = Inr (ret, q)" and "s' = io_finish ret (s\<lparr>bdev := d\<rparr>)"
    and "dbyte d = dbyte (bdev s)" and "dsize d = dsize (bdev s)" and "length q = BS"
    and "ret = None \<Longrightarrow> q = dblock dbyte BS (bdev s) v (unat b)"
proof -
  have rng: "io_range_ok cf s v b 1" using geom b by (intro io_range_block) (auto simp: vol_geom_def)
  obtain ret q d where q: "r = Inr (ret, q)" "s' = io_finish ret (s\<lparr>bdev := d\<rparr>)"
    "dbyte d = dbyte (bdev s)" "dsize d = dsize (bdev s)" "length q = length p"
    "ret = None \<Longrightarrow> q = map (dbyte (bdev s) v) [unat b * BS..<(unat b + unat (1 :: u32)) * BS] @ drop (unat (1 :: u32) * BS) p"
    using RedIoRead_spec [OF geom conf rng _ _ run] bs_small [OF conf] len by auto
  have "q = dblock dbyte BS (bdev s) v (unat b)" if "ret = None"
    using q(6) [OF that] len by (simp add: dblock_def)
  then show thesis using that q len by simp
qed

text \<open>
  What \<open>buffer_fill\<close> leaves: on success the buffer holds \<open>p\<close>, the block in host byte order or
  zeros, in a state \<open>s1\<close> in which the recycled buffer is marked unused.
\<close>

lemma buffer_fill_spec:
  assumes conf: "conf_ok cf" and ok: "cache_ok cf dbyte dsize s" and i: "i < REDCONF_BUFFER_COUNT cf"
    and ref: "bRefCount (aHead s ! i) = 0"
    and disk: "ulBlock (aHead s ! i) \<noteq> BBLK_INVALID \<Longrightarrow>
      dblock dbyte BS (bdev s) (bVolNum (aHead s ! i)) (unat (ulBlock (aHead s ! i)))
      = wire cf (uFlags (aHead s ! i)) (aabBuffer s ! i)"
    and blk: "blk < ulBlockCount (gpRedVolume s)" and fl: "flags_ok fl"
    and run: "buffer_fill cf i blk fl s = (r, s')"
  shows "(\<exists>e. r = Inl e \<and> cache_ok cf dbyte dsize s' \<and> evolves cf dbyte dsize s s') \<or>
    (\<exists>s1 p. r = Inr () \<and> cache_ok cf dbyte dsize s1 \<and> evolves cf dbyte dsize s s1
       \<and> aHead s1 = (aHead s)[i := (aHead s ! i)\<lparr>ulBlock := BBLK_INVALID\<rparr>] \<and> abMRU s1 = abMRU s
       \<and> length p = BS
       \<and> (if fl AND BFLAG_NEW = 0 then wire cf fl p = dblock dbyte BS (bdev s1) (gbRedVolNum s) (unat blk)
          else p = replicate BS 0)
       \<and> gbRedVolNum s' = gbRedVolNum s
       \<and> (\<forall>f. (\<forall>h x. f (h\<lparr>ulBlock := x\<rparr>) = f h) \<longrightarrow> upd_head i f s' = upd_head i f (set_buf i p s1)))"
    (is "?fail \<or> ?done")
proof -
  let ?inv = "\<lambda>h :: BUFFERHEAD. h\<lparr>ulBlock := BBLK_INVALID\<rparr>"
  let ?s0 = "upd_head i ?inv s"
  have cinv: "cache_inv cf s" using ok by (simp add: cache_ok_def)
  have len: "length (aabBuffer s ! i) = BS" "i < length (aHead s)"
    using cinv i by (simp_all add: cache_inv_def heads_inv_def)
  note rel = release_victim [OF ok i ref disk]
  have s0: "aHead ?s0 = (aHead s)[i := ?inv (aHead s ! i)]" "abMRU ?s0 = abMRU s" "aabBuffer ?s0 = aabBuffer s"
    "gbRedVolNum ?s0 = gbRedVolNum s" "gaRedVolume ?s0 = gaRedVolume s" "gpRedVolume ?s0 = gpRedVolume s"
    by (simp_all add: upd_head_def gpRedVolume_def)
  have i0: "ulBlock (aHead ?s0 ! i) = BBLK_INVALID" using len s0 by simp
  have overwrite: "upd_head i f (set_buf i p s) = upd_head i f (set_buf i p ?s0)"
    if "\<forall>h x. f (h\<lparr>ulBlock := x\<rparr>) = f h" for f p
    using that len by (simp add: upd_head_def set_buf_def)
  show ?thesis
  proof (cases "fl AND BFLAG_NEW = 0")
    case False
    have "(r, s') = (Inr (), set_buf i (replicate BS 0) s)"
      using run False len by (simp add: buffer_fill_def red_simps RedMemSetUnchecked_eq)
    then have ?done using rel s0 overwrite False
      by (intro exI [of _ ?s0] exI [of _ "replicate BS 0"]) (auto simp: set_buf_def)
    then show ?thesis ..
  next
    case True
    obtain rr s2 where rd: "RedIoRead cf (gbRedVolNum ?s0) blk 1 (aabBuffer ?s0 ! i) ?s0 = (rr, s2)"
      by (cases "RedIoRead cf (gbRedVolNum ?s0) blk 1 (aabBuffer ?s0 ! i) ?s0")
    have geom: "vol_geom cf dsize ?s0 (gbRedVolNum ?s0)"
      using rel(1) by (simp add: cache_ok_def cache_geom_def)
    have b0: "blk < ulBlockCount (gaRedVolume ?s0 (gbRedVolNum ?s0))" using blk s0 by (simp add: gpRedVolume_def)
    obtain ret q d where q: "rr = Inr (ret, q)" "s2 = io_finish ret (?s0\<lparr>bdev := d\<rparr>)"
      "dbyte d = dbyte (bdev ?s0)" "dsize d = dsize (bdev ?s0)" "length q = BS"
      "ret = None \<Longrightarrow> q = dblock dbyte BS (bdev ?s0) (gbRedVolNum ?s0) (unat blk)"
      using read_block [OF conf geom b0 _ rd] len s0 by auto
    have ok2: "cache_ok cf dbyte dsize s2" and ev2: "evolves cf dbyte dsize s s2"
      using rel bdev_same [OF q(3,4)] error_ok [of s2 "?s0\<lparr>bdev := d\<rparr>" ret] q(2)
      by (auto intro: evolves_trans)
    have h2: "aHead s2 = aHead ?s0" "abMRU s2 = abMRU s" "gbRedVolNum s2 = gbRedVolNum s"
      using error_frame(4) [where s = "?s0" and ret = ret and d = d]
        error_same_cache(4) [where s = "?s0" and ret = ret and d = d] s0
      unfolding q(2) same_cache_def cache_frame_def by auto
    have inv2: "ulBlock (aHead s2 ! i) = BBLK_INVALID" using h2 i0 by simp
    note set2 = set_buf_invalid [OF ok2 i inv2]
    let ?s3 = "set_buf i q s2"
    have ok3: "cache_ok cf dbyte dsize ?s3" "evolves cf dbyte dsize s ?s3"
      using set2 [OF q(5)] ev2 by (auto intro: evolves_trans)
    show ?thesis
    proof (cases ret)
      case (Some e)
      have "(r, s') = (Inl e, ?s3)"
        using run True rd q(1) Some s0 by (simp add: buffer_fill_def red_simps)
      then show ?thesis using ok3 by simp
    next
      case None
      then have content: "q = dblock dbyte BS (bdev s2) (gbRedVolNum s) (unat blk)"
        using q(2,3,6) s0 by (simp add: dblock_def io_finish_def)
      let ?valid = "node_valid cf ?s3 q fl"
      consider "fl AND BFLAG_META \<noteq> 0" "\<not> ?valid" | "fl AND BFLAG_META = 0 \<or> ?valid" by blast
      then show ?thesis
      proof cases
        case 1
        have "\<exists>e. r = Inl e \<and> (s' = ?s3 \<or> s' = RedVolCriticalError ?s3)"
          using run True rd q(1) None 1 s0 fl
          by (auto simp: buffer_fill_def red_simps BufferIsValid_def flags_ok_def split: if_splits)
        then show ?thesis using ok3 error_ok [of "RedVolCriticalError ?s3" ?s3] by (blast intro: evolves_trans)
      next
        case 2
        let ?p = "wire cf fl q"
        have bs: "256 \<le> BS" using bs_small [OF conf] by simp
        have lp: "length ?p = BS" using q(5) bs by simp
        have "(r, s') = (Inr (), if REDCONF_ENDIAN_SWAP cf then set_buf i (BufferEndianSwap cf q fl) ?s3 else ?s3)"
          using run True rd q(1) None 2 s0 fl
          by (auto simp: buffer_fill_def red_simps BufferIsValid_def flags_ok_def split: if_splits)
        then have r: "r = Inr ()" and s': "s' = set_buf i ?p s2"
          by (auto simp: wire_def set_buf_def)
        have "wire cf fl ?p = dblock dbyte BS (bdev s2) (gbRedVolNum s) (unat blk)"
          using content q(5) bs by simp
        then have ?done using r s' True lp ok2 ev2 h2 s0 by (intro exI [of _ s2] exI [of _ ?p]) (auto simp: set_buf_def)
        then show ?thesis ..
      qed
    qed
  qed
qed

end

section \<open>Handing out a buffer\<close>

lemma view_other:
  assumes inv1: "cache_inv cf s1" and inv2: "cache_inv cf s2" and i: "i < REDCONF_BUFFER_COUNT cf"
    and heads: "aHead s2 = (aHead s1)[i := h]" and bufs: "\<And>j. j \<noteq> i \<Longrightarrow> aabBuffer s2 ! j = aabBuffer s1 ! j"
    and dev: "bdev s2 = bdev s1" and b: "b \<noteq> BBLK_INVALID"
    and new: "bVolNum h \<noteq> v \<or> ulBlock h \<noteq> b"
    and old: "bVolNum (aHead s1 ! i) \<noteq> v \<or> ulBlock (aHead s1 ! i) \<noteq> b"
  shows "cache_view cf dbyte s2 v b = cache_view cf dbyte s1 v b"
    and "meta_dirty cf s2 v b = meta_dirty cf s1 v b"
proof -
  have l: "i < length (aHead s1)" using cache_inv_head [OF inv1 i] by simp
  have look: "cache_lookup cf s2 v b = cache_lookup cf s1 v b" "cache_lookup cf s1 v b \<noteq> Some i"
  proof -
    show ne: "cache_lookup cf s1 v b \<noteq> Some i" using cache_lookup_Some [OF inv1 b] old by auto
    have "cache_lookup cf s2 v b = Some k \<longleftrightarrow> cache_lookup cf s1 v b = Some k" for k
      using cache_lookup_Some [OF inv1 b, of v k] cache_lookup_Some [OF inv2 b, of v k] l new old heads
      by (cases "k = i") auto
    then show "cache_lookup cf s2 v b = cache_lookup cf s1 v b" by (metis option.exhaust)
  qed
  show "cache_view cf dbyte s2 v b = cache_view cf dbyte s1 v b"
    using look l heads bufs dev by (auto simp: cache_view_def split: option.split)
  have "(bVolNum (aHead s2 ! k) = v \<and> ulBlock (aHead s2 ! k) = b \<and> X (aHead s2 ! k)) =
      (bVolNum (aHead s1 ! k) = v \<and> ulBlock (aHead s1 ! k) = b \<and> X (aHead s1 ! k))" for k X
    using l new old heads by (cases "k = i") auto
  from this [where X = "\<lambda>h. uFlags h AND BFLAG_DIRTY \<noteq> 0 \<and> uFlags h AND BFLAG_META \<noteq> 0"]
  show "meta_dirty cf s2 v b = meta_dirty cf s1 v b" by (simp add: meta_dirty_def)
qed

definition acquired ::
  "'d redconf \<Rightarrow> ('d \<Rightarrow> u8 \<Rightarrow> nat \<Rightarrow> u8) \<Rightarrow> u32 \<Rightarrow> u16 \<Rightarrow> nat \<Rightarrow> 'd redstate \<Rightarrow> 'd redstate \<Rightarrow> bool" where
  "acquired cf dbyte blk fl i s s' \<longleftrightarrow>
     cache_frame s s' \<and> bdev s' = bdev s \<and> held cf s' i \<and> ulBlock (aHead s' ! i) = blk
     \<and> bRefCount (aHead s' ! i) = bRefCount (aHead s ! i) + 1
     \<and> uFlags (aHead s' ! i) AND BFLAG_META_MASK = fl AND BFLAG_META_MASK
     \<and> (fl AND BFLAG_DIRTY \<noteq> 0 \<longrightarrow> uFlags (aHead s' ! i) AND BFLAG_DIRTY \<noteq> 0)
     \<and> abMRU s' = i # remove1 i (abMRU s)
     \<and> (\<forall>j < REDCONF_BUFFER_COUNT cf. j \<noteq> i \<longrightarrow> aHead s' ! j = aHead s ! j \<and> aabBuffer s' ! j = aabBuffer s ! j)
     \<and> (\<forall>v b. b \<noteq> BBLK_INVALID \<and> (v \<noteq> gbRedVolNum s \<or> b \<noteq> blk) \<longrightarrow>
          cache_view cf dbyte s' v b = cache_view cf dbyte s v b \<and> meta_dirty cf s' v b = meta_dirty cf s v b)
     \<and> (fl AND BFLAG_DIRTY = 0 \<and> meta_dirty cf s' (gbRedVolNum s) blk \<longrightarrow> meta_dirty cf s (gbRedVolNum s) blk)"

lemma meta_dirty_own:
  assumes "cache_inv cf s" and "i < REDCONF_BUFFER_COUNT cf" and "b \<noteq> BBLK_INVALID"
    and "bVolNum (aHead s ! i) = v" and "ulBlock (aHead s ! i) = b"
  shows "meta_dirty cf s v b \<longleftrightarrow>
    uFlags (aHead s ! i) AND BFLAG_DIRTY \<noteq> 0 \<and> uFlags (aHead s ! i) AND BFLAG_META \<noteq> 0"
proof -
  have "j = i" if "j < REDCONF_BUFFER_COUNT cf" "bVolNum (aHead s ! j) = v" "ulBlock (aHead s ! j) = b" for j
    using assms that by (auto simp: cache_inv_def heads_inv_def same_block_def)
  then show ?thesis using assms unfolding meta_dirty_def by blast
qed

lemma kind_meta: "fl AND BFLAG_META = (fl AND BFLAG_META_MASK) AND BFLAG_META"
  by (simp add: BFLAG_defs and.assoc)

lemma flag_parts:
  "(fl AND NOT BFLAG_NEW) AND BFLAG_META_MASK = fl AND BFLAG_META_MASK"
  "(fl AND NOT BFLAG_NEW) AND BFLAG_DIRTY = fl AND BFLAG_DIRTY"
  "(fl AND NOT BFLAG_NEW) AND BFLAG_META = fl AND BFLAG_META"
  by (simp_all add: BFLAG_defs and.assoc)

lemma flags_ok_new: "flags_ok fl \<Longrightarrow> flags_ok (fl AND NOT BFLAG_NEW)"
  using flags_ok_join [of 0 fl] by (simp add: flags_ok_def)

context block_device
begin

lemma install_buffer:
  assumes ok: "cache_ok cf dbyte dsize s" and i: "i < REDCONF_BUFFER_COUNT cf"
    and unused: "ulBlock (aHead s ! i) = BBLK_INVALID" and blk: "blk < ulBlockCount (gpRedVolume s)"
    and new: "uncached cf s (gbRedVolNum s) blk" and len: "length p = BS" and fl: "flags_ok fl"
    and clean: "fl AND BFLAG_DIRTY = 0 \<Longrightarrow> wire cf fl p = dblock dbyte BS (bdev s) (gbRedVolNum s) (unat blk)"
  defines "s' \<equiv> buffer_ref cf i fl (upd_head i (\<lambda>h. h\<lparr>bVolNum := gbRedVolNum s, ulBlock := blk, uFlags := 0\<rparr>)
      (set_buf i p s))"
  shows "cache_ok cf dbyte dsize s' \<and> acquired cf dbyte blk fl i s s' \<and> aabBuffer s' ! i = p
    \<and> cache_view cf dbyte s' (gbRedVolNum s) blk = wire cf fl p"
proof -
  have inv: "cache_inv cf s" and geom: "cache_geom cf dsize s" and cl: "cache_clean cf dbyte s"
    using ok by (simp_all add: cache_ok_def)
  have ref: "bRefCount (aHead s ! i) = 0"
    using cache_inv_head(1) [OF inv i] unused by (auto simp: head_ok_def)
  have bi: "blk \<noteq> BBLK_INVALID" using blk by (rule block_not_invalid)
  have l: "i < length (aHead s)" "i < length (aabBuffer s)"
    using inv i by (simp_all add: cache_inv_def heads_inv_def)
  let ?s1 = "upd_head i (\<lambda>h. h\<lparr>bVolNum := gbRedVolNum s, ulBlock := blk, uFlags := 0\<rparr>) (set_buf i p s)"
  let ?h1 = "(aHead s ! i)\<lparr>bVolNum := gbRedVolNum s, ulBlock := blk, uFlags := 0\<rparr>"
  have "cache_inv cf (set_buf i p s)" using set_buf_invalid(1) [OF ok i unused len] by (simp add: cache_ok_def)
  then have inv1: "cache_inv cf ?s1"
  proof (rule cache_inv_update [OF _ i, of _ ?h1])
    show "head_ok ?h1" using ref bi by (simp add: head_ok_def flags_ok_def)
    show "\<not> same_block ?h1 (aHead (set_buf i p s) ! j)" if "j < REDCONF_BUFFER_COUNT cf" "j \<noteq> i" for j
      using new that by (auto simp: uncached_def same_block_def set_buf_def)
  qed (use inv refs_update [OF l(1), of ?h1] ref in \<open>auto simp: cache_inv_def upd_head_def set_buf_def\<close>)
  let ?h = "?h1\<lparr>bRefCount := 1, uFlags := 0 OR (fl AND NOT BFLAG_NEW)\<rparr>"
  have s': "aHead s' = (aHead s)[i := ?h]" "aabBuffer s' = (aabBuffer s)[i := p]" "bdev s' = bdev s"
    "abMRU s' = i # remove1 i (abMRU s)" "gaRedVolume s' = gaRedVolume s" "gbRedVolNum s' = gbRedVolNum s"
    unfolding s'_def buffer_ref_eq [OF inv1 i] using l ref by (simp_all add: upd_head_def set_buf_def)
  have inv': "cache_inv cf s'"
    unfolding s'_def by (rule buffer_ref_inv [OF inv1 i]) (use l ref bi fl in \<open>auto simp: upd_head_def set_buf_def\<close>)
  have fr: "cache_frame s s'"
    using s' unfolding s'_def buffer_ref_eq [OF inv1 i] by (simp add: cache_frame_def upd_head_def set_buf_def)
  have g: "vol_geom cf dsize s' v = vol_geom cf dsize s v" for v using vol_geom_frame [OF fr] s' by simp
  have w: "wire cf (uFlags ?h) p = wire cf fl p"
    using fl flags_ok_new [OF fl] by (intro wire_kind) (simp_all add: flag_parts)
  have geom': "cache_geom cf dsize s'"
    using geom blk l by (auto simp: cache_geom_def g s' gpRedVolume_def)
  have clean': "cache_clean cf dbyte s'"
    using cl clean l w by (auto simp: cache_clean_def s' flag_parts)
  have view: "cache_view cf dbyte s' (gbRedVolNum s) blk = wire cf fl p"
  proof -
    have "cache_lookup cf s' (gbRedVolNum s) blk = Some i"
      using cache_lookup_Some [OF inv' bi] i l by (simp add: s')
    then show ?thesis using l w by (simp add: cache_view_def s')
  qed
  have "\<not> meta_dirty cf s' (gbRedVolNum s) blk" if "fl AND BFLAG_DIRTY = 0"
    using meta_dirty_own [OF inv' i bi, of "gbRedVolNum s"] l that by (simp add: s' flag_parts)
  moreover have "held cf s' i" using i l by (simp add: held_def s')
  moreover have "cache_view cf dbyte s' v b = cache_view cf dbyte s v b \<and> meta_dirty cf s' v b = meta_dirty cf s v b"
    if "b \<noteq> BBLK_INVALID" "v \<noteq> gbRedVolNum s \<or> b \<noteq> blk" for v b
    using that view_other(1) [OF inv inv' i s'(1) _ s'(3) that(1), of v dbyte]
      view_other(2) [OF inv inv' i s'(1) _ s'(3) that(1), of v] unused by (auto simp: s')
  ultimately show ?thesis
    using inv' geom' clean' view fr l ref by (auto simp: cache_ok_def acquired_def s' flag_parts)
qed

lemma reuse_buffer:
  assumes ok: "cache_ok cf dbyte dsize s" and i: "i < REDCONF_BUFFER_COUNT cf"
    and vol: "bVolNum (aHead s ! i) = gbRedVolNum s" and blk: "blk < ulBlockCount (gpRedVolume s)"
    and b: "ulBlock (aHead s ! i) = blk" and fl: "flags_ok fl"
    and kind: "fl AND BFLAG_META_MASK = uFlags (aHead s ! i) AND BFLAG_META_MASK"
    and room: "bRefCount (aHead s ! i) \<noteq> 255"
  defines "s' \<equiv> buffer_ref cf i fl s"
  shows "cache_ok cf dbyte dsize s' \<and> acquired cf dbyte blk fl i s s' \<and> aabBuffer s' ! i = aabBuffer s ! i
    \<and> cache_view cf dbyte s' (gbRedVolNum s) blk = cache_view cf dbyte s (gbRedVolNum s) blk
    \<and> cache_view cf dbyte s (gbRedVolNum s) blk = wire cf fl (aabBuffer s ! i)"
proof -
  have inv: "cache_inv cf s" and geom: "cache_geom cf dsize s" and cl: "cache_clean cf dbyte s"
    using ok by (simp_all add: cache_ok_def)
  have bi: "blk \<noteq> BBLK_INVALID" using blk by (rule block_not_invalid)
  have l: "i < length (aHead s)" using inv i by (simp add: cache_inv_def heads_inv_def)
  have ofl: "flags_ok (uFlags (aHead s ! i))" "uFlags (aHead s ! i) AND BFLAG_NEW = 0"
    using cache_inv_head(1) [OF inv i] b bi by (simp_all add: head_ok_def)
  let ?h = "(aHead s ! i)\<lparr>bRefCount := bRefCount (aHead s ! i) + 1,
      uFlags := uFlags (aHead s ! i) OR (fl AND NOT BFLAG_NEW)\<rparr>"
  have s': "aHead s' = (aHead s)[i := ?h]" "aabBuffer s' = aabBuffer s" "bdev s' = bdev s"
    "abMRU s' = i # remove1 i (abMRU s)" "gaRedVolume s' = gaRedVolume s" "gbRedVolNum s' = gbRedVolNum s"
    unfolding s'_def buffer_ref_eq [OF inv i] by (simp_all add: upd_head_def)
  have inv': "cache_inv cf s'"
    unfolding s'_def by (rule buffer_ref_inv [OF inv i]) (use b bi fl room in auto)
  have fr: "cache_frame s s'"
    using s' unfolding s'_def buffer_ref_eq [OF inv i] by (simp add: cache_frame_def upd_head_def)
  have g: "vol_geom cf dsize s' v = vol_geom cf dsize s v" for v using vol_geom_frame [OF fr] s' by simp
  have mask: "uFlags ?h AND BFLAG_META_MASK = fl AND BFLAG_META_MASK"
    using kind by (simp add: bit.conj_disj_distrib2 flag_parts)
  have w: "wire cf (uFlags ?h) p = wire cf fl p" "wire cf (uFlags (aHead s ! i)) p = wire cf fl p" for p
    using fl mask kind flags_ok_join [OF ofl(1) fl ofl(2)] ofl by (auto intro!: wire_kind)
  have geom': "cache_geom cf dsize s'" using geom i l by (auto simp: cache_geom_def g s')
  have "uFlags (aHead s ! i) AND BFLAG_DIRTY = 0" if "uFlags ?h AND BFLAG_DIRTY = 0"
    using that by (simp add: bit.conj_disj_distrib2 or_eq_0_iff)
  then have clean': "cache_clean cf dbyte s'"
    using cl l w i by (auto simp: cache_clean_def s')
  have look: "cache_lookup cf s' (gbRedVolNum s) blk = Some i" "cache_lookup cf s (gbRedVolNum s) blk = Some i"
    using cache_lookup_Some [OF inv' bi] cache_lookup_Some [OF inv bi] i l vol b by (simp_all add: s')
  have view: "cache_view cf dbyte s' (gbRedVolNum s) blk = wire cf fl (aabBuffer s ! i)"
    "cache_view cf dbyte s (gbRedVolNum s) blk = wire cf fl (aabBuffer s ! i)"
    using look l w by (simp_all add: cache_view_def s')
  have "bRefCount (aHead s ! i) + 1 \<noteq> 0"
  proof
    assume "bRefCount (aHead s ! i) + 1 = 0"
    then have "bRefCount (aHead s ! i) = - 1" by (simp add: eq_neg_iff_add_eq_0)
    then show False using room by simp
  qed
  then have "held cf s' i" using i l vol by (simp add: held_def s')
  moreover have "meta_dirty cf s (gbRedVolNum s) blk"
    if "fl AND BFLAG_DIRTY = 0" "meta_dirty cf s' (gbRedVolNum s) blk"
  proof -
    have "uFlags ?h AND BFLAG_META = uFlags (aHead s ! i) AND BFLAG_META"
      using mask kind kind_meta by metis
    then show ?thesis
      using that meta_dirty_own [OF inv' i bi, of "gbRedVolNum s"] meta_dirty_own [OF inv i bi vol b] l vol b
      by (simp add: s' bit.conj_disj_distrib2 flag_parts)
  qed
  moreover have "cache_view cf dbyte s' v c = cache_view cf dbyte s v c \<and> meta_dirty cf s' v c = meta_dirty cf s v c"
    if "c \<noteq> BBLK_INVALID" "v \<noteq> gbRedVolNum s \<or> c \<noteq> blk" for v c
    using that view_other(1) [OF inv inv' i s'(1) _ s'(3) that(1), of v dbyte]
      view_other(2) [OF inv inv' i s'(1) _ s'(3) that(1), of v] vol b by (auto simp: s')
  moreover have "fl AND BFLAG_DIRTY \<noteq> 0 \<longrightarrow> uFlags ?h AND BFLAG_DIRTY \<noteq> 0"
    by (simp add: bit.conj_disj_distrib2 or_eq_0_iff flag_parts)
  ultimately show ?thesis
    using inv' geom' clean' view fr l mask b by (simp add: cache_ok_def acquired_def s')
qed

end

section \<open>RedBufferGet\<close>

text \<open>
  What a call to \<open>RedBufferGet\<close> comes to. On failure the view is kept. On success \<open>s1\<close> is the
  state after write-back and reading, and the caller gets buffer \<open>i\<close>: the one that already held
  the block, or the least recently used buffer without references.
\<close>

definition get_result ::
  "'d redconf \<Rightarrow> ('d \<Rightarrow> u8 \<Rightarrow> nat \<Rightarrow> u8) \<Rightarrow> ('d \<Rightarrow> u8 \<Rightarrow> nat) \<Rightarrow> u32 \<Rightarrow> u16 \<Rightarrow>
   'd redstate \<Rightarrow> red_err + nat \<Rightarrow> 'd redstate \<Rightarrow> bool" where
  "get_result cf dbyte dsize blk fl s r s' \<longleftrightarrow> cache_ok cf dbyte dsize s' \<and>
     (case r of
        Inl e \<Rightarrow> evolves cf dbyte dsize s s'
      | Inr i \<Rightarrow>
          blk < ulBlockCount (gpRedVolume s)
          \<and> (\<exists>s1. cache_ok cf dbyte dsize s1 \<and> evolves cf dbyte dsize s s1 \<and> acquired cf dbyte blk fl i s1 s'
               \<and> (if uncached cf s (gbRedVolNum s) blk
                  then i = lru_victim cf s \<and> bRefCount (aHead s1 ! i) = 0
                  else s1 = s \<and> fl AND BFLAG_NEW = 0
                    \<and> uFlags (aHead s ! i) AND BFLAG_META_MASK = fl AND BFLAG_META_MASK))
          \<and> (if fl AND BFLAG_NEW = 0
             then cache_view cf dbyte s' (gbRedVolNum s) blk = cache_view cf dbyte s (gbRedVolNum s) blk
             else aabBuffer s' ! i = replicate (REDCONF_BLOCK_SIZE cf) 0)
          \<and> cache_view cf dbyte s' (gbRedVolNum s) blk = wire cf fl (aabBuffer s' ! i))"

lemma get_result_Inr:
  assumes "get_result cf dbyte dsize blk fl s (Inr i) s'"
  obtains s1 where "cache_ok cf dbyte dsize s'" and "blk < ulBlockCount (gpRedVolume s)"
    and "cache_ok cf dbyte dsize s1" and "evolves cf dbyte dsize s s1" and "acquired cf dbyte blk fl i s1 s'"
    and "if uncached cf s (gbRedVolNum s) blk then i = lru_victim cf s \<and> bRefCount (aHead s1 ! i) = 0
      else s1 = s \<and> fl AND BFLAG_NEW = 0 \<and> uFlags (aHead s ! i) AND BFLAG_META_MASK = fl AND BFLAG_META_MASK"
    and "if fl AND BFLAG_NEW = 0
      then cache_view cf dbyte s' (gbRedVolNum s) blk = cache_view cf dbyte s (gbRedVolNum s) blk
      else aabBuffer s' ! i = replicate (REDCONF_BLOCK_SIZE cf) 0"
    and "cache_view cf dbyte s' (gbRedVolNum s) blk = wire cf fl (aabBuffer s' ! i)"
  using assms unfolding get_result_def sum.case by (elim conjE exE) (rule that)

lemma get_failed:
  "cache_ok cf dbyte dsize s' \<Longrightarrow> evolves cf dbyte dsize s s' \<Longrightarrow> get_result cf dbyte dsize blk fl s (Inl e) s'"
  by (simp add: get_result_def)

context block_device
begin

lemma get_error:
  assumes "cache_ok cf dbyte dsize s" and "(r, s') = (Inl e, REDERROR s) \<or> (r, s') = (Inl e, RedVolCriticalError s)"
  shows "get_result cf dbyte dsize blk fl s r s'"
  using assms error_ok [of "REDERROR s" s] error_ok [of "RedVolCriticalError s" s]
  by (auto intro: get_failed)

lemma get_hit:
  assumes ok: "cache_ok cf dbyte dsize s" and blk: "blk < ulBlockCount (gpRedVolume s)" and fl: "flags_ok fl"
    and room: "\<forall>i < REDCONF_BUFFER_COUNT cf. bRefCount (aHead s ! i) \<noteq> 255"
    and hit: "cache_lookup cf s (gbRedVolNum s) blk = Some i" and new: "fl AND BFLAG_NEW = 0"
    and kind: "fl AND BFLAG_META_MASK = uFlags (aHead s ! i) AND BFLAG_META_MASK"
  shows "get_result cf dbyte dsize blk fl s (Inr i) (buffer_ref cf i fl s)"
proof -
  have inv: "cache_inv cf s" using ok by (simp add: cache_ok_def)
  note i = iffD1 [OF cache_lookup_Some [OF inv block_not_invalid [OF blk]] hit]
  have "\<not> uncached cf s (gbRedVolNum s) blk" using hit by (simp flip: cache_lookup_None)
  moreover have "cache_ok cf dbyte dsize (buffer_ref cf i fl s) \<and> acquired cf dbyte blk fl i s (buffer_ref cf i fl s)
      \<and> aabBuffer (buffer_ref cf i fl s) ! i = aabBuffer s ! i
      \<and> cache_view cf dbyte (buffer_ref cf i fl s) (gbRedVolNum s) blk = cache_view cf dbyte s (gbRedVolNum s) blk
      \<and> cache_view cf dbyte s (gbRedVolNum s) blk = wire cf fl (aabBuffer s ! i)"
    using i room by (intro reuse_buffer [OF ok _ _ blk _ fl kind]) auto
  ultimately show ?thesis using ok blk new kind by (auto simp: get_result_def)
qed

lemma get_fresh:
  assumes ok: "cache_ok cf dbyte dsize s" and blk: "blk < ulBlockCount (gpRedVolume s)" and fl: "flags_ok fl"
    and new: "fl AND BFLAG_NEW \<noteq> 0 \<Longrightarrow> fl AND BFLAG_DIRTY \<noteq> 0"
    and unc: "uncached cf s (gbRedVolNum s) blk" and i: "i < REDCONF_BUFFER_COUNT cf" "i = lru_victim cf s"
    and ok3: "cache_ok cf dbyte dsize s3" and ev3: "evolves cf dbyte dsize s s3"
    and heads: "aHead s3 = (aHead s)[i := (aHead s ! i)\<lparr>ulBlock := BBLK_INVALID\<rparr>]"
    and ref: "bRefCount (aHead s ! i) = 0" and len: "length p = BS"
    and content: "if fl AND BFLAG_NEW = 0 then wire cf fl p = dblock dbyte BS (bdev s3) (gbRedVolNum s) (unat blk)
      else p = replicate BS 0"
    and s': "s' = buffer_ref cf i fl (upd_head i
        (\<lambda>h. h\<lparr>bVolNum := gbRedVolNum s, ulBlock := blk, uFlags := 0\<rparr>) (set_buf i p s3))"
  shows "get_result cf dbyte dsize blk fl s (Inr i) s'"
proof -
  have inv: "cache_inv cf s" using ok by (simp add: cache_ok_def)
  have l: "i < length (aHead s)" using cache_inv_head [OF inv i(1)] by simp
  have bi: "blk \<noteq> BBLK_INVALID" using blk by (rule block_not_invalid)
  have vol: "gbRedVolNum s3 = gbRedVolNum s" and b3: "blk < ulBlockCount (gpRedVolume s3)"
    using ev3 blk by (auto simp: evolves_def cache_frame_def vol_static_def gpRedVolume_def)
  have unc3: "uncached cf s3 (gbRedVolNum s3) blk"
    unfolding uncached_def
  proof (intro allI impI)
    fix j assume "j < REDCONF_BUFFER_COUNT cf"
    then show "\<not> (bVolNum (aHead s3 ! j) = gbRedVolNum s3 \<and> ulBlock (aHead s3 ! j) = blk)"
      using unc bi l vol by (cases "j = i") (auto simp: heads uncached_def)
  qed
  have c: "wire cf fl p = dblock dbyte BS (bdev s3) (gbRedVolNum s3) (unat blk)" if "fl AND BFLAG_DIRTY = 0"
    using content new that vol by (cases "fl AND BFLAG_NEW = 0") auto
  have i3: "ulBlock (aHead s3 ! i) = BBLK_INVALID" "bRefCount (aHead s3 ! i) = 0" using l ref by (simp_all add: heads)
  note ins = install_buffer [OF ok3 i(1) i3(1) b3 unc3 len fl c, folded s' [folded vol]]
  have v3: "cache_view cf dbyte s3 (gbRedVolNum s) blk = cache_view cf dbyte s (gbRedVolNum s) blk"
  proof -
    have "\<not> meta_dirty cf s (gbRedVolNum s) blk" using unc by (auto simp: meta_dirty_def uncached_def)
    then show ?thesis using ev3 bi unfolding evolves_def by blast
  qed
  have "cache_view cf dbyte s3 (gbRedVolNum s) blk = dblock dbyte BS (bdev s3) (gbRedVolNum s) (unat blk)"
    using unc3 vol by (simp add: cache_view_def flip: cache_lookup_None)
  then show ?thesis
    using ins ok3 ev3 unc i(2) i3(2) blk content v3 vol by (auto simp: get_result_def)
qed

lemma RedBufferGet_result:
  assumes conf: "conf_ok cf" and ok: "cache_ok cf dbyte dsize s" and fl: "flags_ok fl"
    and new: "fl AND BFLAG_NEW \<noteq> 0 \<Longrightarrow> fl AND BFLAG_DIRTY \<noteq> 0"
    and room: "\<forall>i < REDCONF_BUFFER_COUNT cf. bRefCount (aHead s ! i) \<noteq> 255"
    and run: "RedBufferGet cf blk fl s = (r, s')"
  shows "get_result cf dbyte dsize blk fl s r s'"
proof (cases "blk < ulBlockCount (gpRedVolume s)")
  case False
  then have "(r, s') = (Inl RED_EINVAL, REDERROR s)"
    using run by (simp add: RedBufferGet_def red_simps linorder_not_less)
  then show ?thesis by (rule get_error [OF ok disjI1])
next
  case blk: True
  have inv: "cache_inv cf s" using ok by (simp add: cache_ok_def)
  note find = BufferFind_lookup [OF blk, of cf]
  have mask: "fl AND BFLAG_MASK = fl" using fl by (simp add: flags_ok_def)
  have nb: "\<not> ulBlockCount (gpRedVolume s) \<le> blk" using blk by simp
  show ?thesis
  proof (cases "cache_lookup cf s (gbRedVolNum s) blk")
    case (Some i)
    show ?thesis
    proof (cases "fl AND BFLAG_NEW \<noteq> 0 \<or> fl AND BFLAG_META_MASK \<noteq> uFlags (aHead s ! i) AND BFLAG_META_MASK")
      case True
      then have "(r, s') = (Inl RED_EFUBAR, RedVolCriticalError s)"
        using run nb Some find mask by (simp add: RedBufferGet_def red_simps)
      then show ?thesis by (rule get_error [OF ok disjI2])
    next
      case False
      then have "(r, s') = (Inr i, buffer_ref cf i fl s)"
        using run nb Some find mask by (simp add: RedBufferGet_def red_simps)
      then show ?thesis using get_hit [OF ok blk fl room Some] False by simp
    qed
  next
    case None
    have unc: "uncached cf s (gbRedVolNum s) blk" using None by (simp add: cache_lookup_None)
    show ?thesis
    proof (cases "uNumUsed s = of_nat (REDCONF_BUFFER_COUNT cf)")
      case True
      then have "(r, s') = (Inl RED_EBUSY, RedVolCriticalError s)"
        using run nb None find mask by (simp add: RedBufferGet_def red_simps)
      then show ?thesis by (rule get_error [OF ok disjI2])
    next
      case False
      define i where "i = lru_victim cf s"
      note vic = lru_victim_spec(1,2) [OF inv False, folded i_def]
      let ?dirty = "uFlags (aHead s ! i) AND BFLAG_DIRTY \<noteq> 0 \<and> ulBlock (aHead s ! i) \<noteq> BBLK_INVALID"
      obtain r1 s1 where ev: "(if ?dirty then BufferWrite cf i else skipR) s = (r1, s1)" by fastforce
      have one: "cache_ok cf dbyte dsize s1 \<and> evolves cf dbyte dsize s s1 \<and> aHead s1 = aHead s"
        and disk: "r1 = Inr () \<Longrightarrow> ulBlock (aHead s ! i) \<noteq> BBLK_INVALID \<Longrightarrow>
          dblock dbyte BS (bdev s1) (bVolNum (aHead s ! i)) (unat (ulBlock (aHead s ! i)))
          = wire cf (uFlags (aHead s ! i)) (aabBuffer s1 ! i)"
      proof -
        have "cache_ok cf dbyte dsize s1 \<and> evolves cf dbyte dsize s s1 \<and> aHead s1 = aHead s
          \<and> (r1 = Inr () \<longrightarrow> ulBlock (aHead s ! i) \<noteq> BBLK_INVALID \<longrightarrow>
            dblock dbyte BS (bdev s1) (bVolNum (aHead s ! i)) (unat (ulBlock (aHead s ! i)))
            = wire cf (uFlags (aHead s ! i)) (aabBuffer s1 ! i))"
        proof (cases ?dirty)
          case True
          then show ?thesis using write_back [OF conf ok vic(1), of r1 s1] ev by auto
        next
          case False
          then have "s1 = s" using ev by (auto simp: red_simps split: if_splits)
          then show ?thesis using ok vic(1) False by (auto simp: cache_ok_def cache_clean_def)
        qed
        then show "cache_ok cf dbyte dsize s1 \<and> evolves cf dbyte dsize s s1 \<and> aHead s1 = aHead s"
          "r1 = Inr () \<Longrightarrow> ulBlock (aHead s ! i) \<noteq> BBLK_INVALID \<Longrightarrow>
            dblock dbyte BS (bdev s1) (bVolNum (aHead s ! i)) (unat (ulBlock (aHead s ! i)))
            = wire cf (uFlags (aHead s ! i)) (aabBuffer s1 ! i)" by blast+
      qed
      obtain r2 s2 where fill: "buffer_fill cf i blk fl s1 = (r2, s2)" by fastforce
      have res: "(r, s') = (case r1 of Inl e \<Rightarrow> (Inl e, s1) | Inr _ \<Rightarrow> (case r2 of Inl e \<Rightarrow> (Inl e, s2)
          | Inr _ \<Rightarrow> (Inr i, buffer_ref cf i fl (upd_head i
              (\<lambda>h. h\<lparr>bVolNum := gbRedVolNum s2, ulBlock := blk, uFlags := 0\<rparr>) s2))))"
      proof -
        have rc: "buffer_recycle cf blk fl s = (case r1 of Inl e \<Rightarrow> (Inl e, s1) | Inr _ \<Rightarrow> (case r2 of Inl e \<Rightarrow> (Inl e, s2)
            | Inr _ \<Rightarrow> (Inr i, upd_head i (\<lambda>h. h\<lparr>bVolNum := gbRedVolNum s2, ulBlock := blk, uFlags := 0\<rparr>) s2)))"
          using vic(2) ev fill
          unfolding buffer_recycle_def getR_run lru_victim_def [symmetric] i_def [symmetric] Let_def
          by (simp add: red_simps split: sum.splits)
        show ?thesis
          using run nb None find False mask by (simp add: RedBufferGet_def red_simps rc split: sum.splits)
      qed
      show ?thesis
      proof (cases r1)
        case (Inl e)
        then show ?thesis using res one by (simp add: get_failed)
      next
        case (Inr u)
        have fr1: "cache_frame s s1" using one by (simp add: evolves_def)
        have b1: "blk < ulBlockCount (gpRedVolume s1)" and v1: "gbRedVolNum s1 = gbRedVolNum s"
          using blk fr1 by (simp_all add: cache_frame_def vol_static_def gpRedVolume_def)
        have ok1: "cache_ok cf dbyte dsize s1" and h1: "aHead s1 = aHead s" using one by simp_all
        have "bRefCount (aHead s1 ! i) = 0" using vic(2) h1 by simp
        note sp = buffer_fill_spec [OF conf ok1 vic(1) this _ b1 fl fill, unfolded h1 v1]
        have d1: "dblock dbyte BS (bdev s1) (bVolNum (aHead s ! i)) (unat (ulBlock (aHead s ! i))) =
            wire cf (uFlags (aHead s ! i)) (aabBuffer s1 ! i)" if "ulBlock (aHead s ! i) \<noteq> BBLK_INVALID"
          using disk that Inr by simp
        show ?thesis
        proof (rule disjE [OF sp [OF d1]], goal_cases)
          case 1
          then show ?case .
        next
          case 2
          then obtain e where e: "r2 = Inl e" "cache_ok cf dbyte dsize s2" "evolves cf dbyte dsize s1 s2"
            by blast
          have "evolves cf dbyte dsize s s2" using one e(3) by (blast intro: evolves_trans)
          then show ?case using res Inr e(1,2) by (simp add: get_failed)
        next
          case 3
          then obtain s3 p where a: "r2 = Inr ()" "cache_ok cf dbyte dsize s3" "evolves cf dbyte dsize s1 s3"
            "aHead s3 = (aHead s)[i := (aHead s ! i)\<lparr>ulBlock := BBLK_INVALID\<rparr>]" "length p = BS"
            "if fl AND BFLAG_NEW = 0 then wire cf fl p = dblock dbyte BS (bdev s3) (gbRedVolNum s) (unat blk)
             else p = replicate BS 0" "gbRedVolNum s2 = gbRedVolNum s"
            "\<forall>f. (\<forall>h x. f (h\<lparr>ulBlock := x\<rparr>) = f h) \<longrightarrow> upd_head i f s2 = upd_head i f (set_buf i p s3)"
            by blast
          have "s' = buffer_ref cf i fl (upd_head i
              (\<lambda>h. h\<lparr>bVolNum := gbRedVolNum s, ulBlock := blk, uFlags := 0\<rparr>) (set_buf i p s3))" "r = Inr i"
            using res Inr a(1,7) spec [OF a(8), of "\<lambda>h. h\<lparr>bVolNum := gbRedVolNum s, ulBlock := blk, uFlags := 0\<rparr>"]
            by simp_all
          moreover have "evolves cf dbyte dsize s s3" using one a(3) by (blast intro: evolves_trans)
          ultimately show ?thesis
            using get_fresh [OF ok blk fl new unc vic(1) i_def a(2) _ a(4) vic(2) a(5,6)] by simp
        qed
      qed
    qed
  qed
qed

end

end
