(* ===== verification/BufferSteps.thy ===== *)
theory BufferSteps
  imports BufferGet
begin

text \<open>
  The cache as a state machine: \<open>cache_step\<close> has one rule per operation a driver component may
  call, under the conditions the callers meet, and \<open>cache_reach\<close> is what is reachable from
  \<open>RedBufferInit\<close>. Every reachable state satisfies \<open>cache_ok\<close>.
\<close>

lemma cache_ok_head:
  assumes ok: "cache_ok cf dbyte dsize s" and i: "i < REDCONF_BUFFER_COUNT cf"
    and heads: "aHead s' = (aHead s)[i := h]" and bufs: "aabBuffer s' = aabBuffer s" and dev: "bdev s' = bdev s"
    and fr: "cache_frame s s'" and inv: "cache_inv cf s'"
    and h: "ulBlock h = BBLK_INVALID
      \<or> bVolNum h = bVolNum (aHead s ! i) \<and> ulBlock h < ulBlockCount (gaRedVolume s (bVolNum h))
        \<and> ulBlock (aHead s ! i) \<noteq> BBLK_INVALID \<and> (uFlags h AND BFLAG_DIRTY \<noteq> 0
          \<or> uFlags h = uFlags (aHead s ! i) \<and> ulBlock h = ulBlock (aHead s ! i))"
  shows "cache_ok cf dbyte dsize s'"
proof -
  have geom: "cache_geom cf dsize s" and clean: "cache_clean cf dbyte s" and cinv: "cache_inv cf s"
    using ok by (simp_all add: cache_ok_def)
  have l: "i < length (aHead s)" using cache_inv_head [OF cinv i] by simp
  have g: "vol_geom cf dsize s' v = vol_geom cf dsize s v" for v using vol_geom_frame [OF fr] dev by simp
  have b: "gbRedVolNum s' = gbRedVolNum s" "ulBlockCount (gaRedVolume s' v) = ulBlockCount (gaRedVolume s v)" for v
    using fr by (simp_all add: cache_frame_def vol_static_def)
  have "cache_geom cf dsize s'"
    using geom h l i by (auto simp: cache_geom_def heads g b)
  moreover have "cache_clean cf dbyte s'"
    using clean h l i by (auto simp: cache_clean_def heads bufs dev)
  ultimately show ?thesis using inv by (simp add: cache_ok_def)
qed

lemma held_valid:
  assumes "cache_inv cf s" and "held cf s i"
  shows "i < REDCONF_BUFFER_COUNT cf" and "ulBlock (aHead s ! i) \<noteq> BBLK_INVALID"
  using assms cache_inv_head(1) [OF assms(1), of i] by (auto simp: held_def head_ok_def)

text \<open>A block that was in the cache is found in its buffer.\<close>

lemma acquired_hit:
  assumes acq: "acquired cf dbyte blk fl k s s'" and inv': "cache_inv cf s'"
    and v: "gbRedVolNum s' = gbRedVolNum s" and hit: "\<not> uncached cf s (gbRedVolNum s) blk"
  shows "bVolNum (aHead s ! k) = gbRedVolNum s" and "ulBlock (aHead s ! k) = blk"
proof -
  have h: "held cf s' k" "ulBlock (aHead s' ! k) = blk" using acq by (simp_all add: acquired_def)
  obtain j where j: "j < REDCONF_BUFFER_COUNT cf" "bVolNum (aHead s ! j) = gbRedVolNum s"
    "ulBlock (aHead s ! j) = blk" using hit by (auto simp: uncached_def)
  have "j = k"
  proof (rule ccontr)
    assume "j \<noteq> k"
    then have "aHead s' ! j = aHead s ! j" using acq j(1) by (simp add: acquired_def)
    then have "same_block (aHead s' ! k) (aHead s' ! j)"
      using h j v held_valid [OF inv' h(1)] by (simp add: same_block_def held_def)
    then show False
      using inv' h(1) j(1) \<open>j \<noteq> k\<close> by (auto simp: cache_inv_def heads_inv_def held_def)
  qed
  then show "bVolNum (aHead s ! k) = gbRedVolNum s" "ulBlock (aHead s ! k) = blk" using j by simp_all
qed

lemma held_block:
  assumes "cache_ok cf dbyte dsize s" and "held cf s i"
  shows "ulBlock (aHead s ! i) < ulBlockCount (gaRedVolume s (bVolNum (aHead s ! i)))"
  using assms held_valid [of cf s i] by (auto simp: cache_ok_def cache_geom_def)

lemma RedBufferPut_ok:
  assumes ok: "cache_ok cf dbyte dsize s" and held: "held cf s i"
  shows "cache_ok cf dbyte dsize (RedBufferPut cf (Some i) s)"
proof -
  have inv: "cache_inv cf s" using ok by (simp add: cache_ok_def)
  note v = held_valid [OF inv held] held_block [OF ok held]
  show ?thesis
    by (rule cache_ok_head [OF ok v(1), where h = "(aHead s ! i)\<lparr>bRefCount := bRefCount (aHead s ! i) - 1\<rparr>"])
       (use RedBufferPut_inv [OF inv held] v in
        \<open>auto simp: RedBufferPut_eq [OF inv held] upd_head_def cache_frame_def\<close>)
qed

lemma RedBufferDirty_ok:
  assumes ok: "cache_ok cf dbyte dsize s" and held: "held cf s i"
  shows "cache_ok cf dbyte dsize (RedBufferDirty cf (Some i) s)"
proof -
  have inv: "cache_inv cf s" using ok by (simp add: cache_ok_def)
  note v = held_valid [OF inv held] held_block [OF ok held]
  show ?thesis
    by (rule cache_ok_head [OF ok v(1), where h = "(aHead s ! i)\<lparr>uFlags := uFlags (aHead s ! i) OR BFLAG_DIRTY\<rparr>"])
       (use RedBufferDirty_inv [OF inv held] v in
        \<open>auto simp: RedBufferDirty_eq [OF inv held] upd_head_def cache_frame_def bit.conj_disj_distrib2 or_eq_0_iff BFLAG_DIRTY_def\<close>)
qed

lemma RedBufferBranch_ok:
  assumes ok: "cache_ok cf dbyte dsize s" and held: "held cf s i" and cl: "uFlags (aHead s ! i) AND BFLAG_DIRTY = 0"
    and b: "b < ulBlockCount (gpRedVolume s)" and new: "uncached cf s (gbRedVolNum s) b"
  shows "cache_ok cf dbyte dsize (RedBufferBranch cf (Some i) b s)"
proof -
  have inv: "cache_inv cf s" using ok by (simp add: cache_ok_def)
  note v = held_valid [OF inv held]
  have vol: "bVolNum (aHead s ! i) = gbRedVolNum s" using held by (simp add: held_def)
  show ?thesis
    by (rule cache_ok_head [OF ok v(1), where h = "(aHead s ! i)\<lparr>uFlags := uFlags (aHead s ! i) OR BFLAG_DIRTY, ulBlock := b\<rparr>"])
       (use RedBufferBranch_inv [OF inv held cl b new] v vol b in
        \<open>auto simp: RedBufferBranch_eq [OF inv held cl b] upd_head_def cache_frame_def gpRedVolume_def
           bit.conj_disj_distrib2 or_eq_0_iff BFLAG_DIRTY_def\<close>)
qed

lemma RedBufferDiscard_ok:
  assumes ok: "cache_ok cf dbyte dsize s" and held: "held cf s i" and one: "bRefCount (aHead s ! i) = 1"
  shows "cache_ok cf dbyte dsize (RedBufferDiscard cf (Some i) s)"
proof -
  have inv: "cache_inv cf s" using ok by (simp add: cache_ok_def)
  note v = held_valid [OF inv held]
  show ?thesis
    by (rule cache_ok_head [OF ok v(1), where h = "(aHead s ! i)\<lparr>bRefCount := 0, ulBlock := BBLK_INVALID\<rparr>"])
       (use RedBufferDiscard_inv [OF inv held one] in
        \<open>auto simp: RedBufferDiscard_eq [OF inv held one] upd_head_def cache_frame_def\<close>)
qed

text \<open>A client writing into a buffer it holds and has marked dirty.\<close>

lemma write_buffer_ok:
  assumes ok: "cache_ok cf dbyte dsize s" and held: "held cf s i" and d: "uFlags (aHead s ! i) AND BFLAG_DIRTY \<noteq> 0"
    and len: "length p = REDCONF_BLOCK_SIZE cf"
  shows "cache_ok cf dbyte dsize (set_buf i p s)"
proof -
  have i: "i < REDCONF_BUFFER_COUNT cf" using held by (simp add: held_def)
  then have l: "i < length (aabBuffer s)" using ok by (simp add: cache_ok_def cache_inv_def)
  have inv: "cache_inv cf s" and geom: "cache_geom cf dsize s" and clean: "cache_clean cf dbyte s"
    using ok by (simp_all add: cache_ok_def)
  have "cache_inv cf (set_buf i p s)" using inv len l by (simp add: cache_inv_def set_buf_def)
  moreover have "cache_geom cf dsize (set_buf i p s)" using geom by (simp add: cache_geom_def vol_geom_def set_buf_def)
  moreover have "cache_clean cf dbyte (set_buf i p s)"
    unfolding cache_clean_def
  proof (intro allI impI, elim conjE)
    fix j assume j: "j < REDCONF_BUFFER_COUNT cf" "ulBlock (aHead (set_buf i p s) ! j) \<noteq> BBLK_INVALID"
      "uFlags (aHead (set_buf i p s) ! j) AND BFLAG_DIRTY = 0"
    then have "j \<noteq> i" using d by (auto simp: set_buf_def)
    then show "wire cf (uFlags (aHead (set_buf i p s) ! j)) (aabBuffer (set_buf i p s) ! j) =
        dblock dbyte (REDCONF_BLOCK_SIZE cf) (bdev (set_buf i p s)) (bVolNum (aHead (set_buf i p s) ! j))
          (unat (ulBlock (aHead (set_buf i p s) ! j)))"
      using clean j l by (simp add: cache_clean_def set_buf_def)
  qed
  ultimately show ?thesis by (simp add: cache_ok_def)
qed

lemma RedBufferDiscardRange_ok:
  assumes ok: "cache_ok cf dbyte dsize s" and run: "RedBufferDiscardRange cf start cnt s = (r, s')"
  shows "cache_ok cf dbyte dsize s'"
proof (cases "range_ok s start cnt")
  case False
  then have "s' = REDERROR s" using run by (simp add: RedBufferDiscardRange_def red_simps)
  moreover have "cache_ok cf dbyte dsize (REDERROR s) = cache_ok cf dbyte dsize s"
    by (rule cache_ok_same) (rule frame, rule frame, simp add: st_simps)
  ultimately show ?thesis using ok by simp
next
  case True
  have inv: "cache_inv cf s" and geom: "cache_geom cf dsize s" and clean: "cache_clean cf dbyte s"
    using ok by (simp_all add: cache_ok_def)
  have "buffer_discard_from cf start cnt [0..<REDCONF_BUFFER_COUNT cf] s = (r, s')"
    using run True by (simp add: RedBufferDiscardRange_def red_simps)
  note sp = buffer_discard_from_spec [OF inv _ this]
  have fr: "cache_frame s s'" and dev: "bdev s' = bdev s" "aabBuffer s' = aabBuffer s" "cache_inv cf s'"
    and hd: "\<And>i. i < REDCONF_BUFFER_COUNT cf \<Longrightarrow> aHead s' ! i = aHead s ! i
         \<or> aHead s' ! i = (aHead s ! i)\<lparr>ulBlock := BBLK_INVALID\<rparr>"
    using sp by auto
  have hd2: "aHead s' ! i = aHead s ! i" if "i < REDCONF_BUFFER_COUNT cf" "ulBlock (aHead s' ! i) \<noteq> BBLK_INVALID" for i
    using hd [OF that(1)] that(2) by auto
  have g: "vol_geom cf dsize s' v = vol_geom cf dsize s v" for v using vol_geom_frame [OF fr] dev by simp
  have b: "gbRedVolNum s' = gbRedVolNum s" "ulBlockCount (gaRedVolume s' v) = ulBlockCount (gaRedVolume s v)" for v
    using fr by (simp_all add: cache_frame_def vol_static_def)
  have "cache_geom cf dsize s'"
    unfolding cache_geom_def g b using geom hd2 unfolding cache_geom_def by metis
  moreover have "cache_clean cf dbyte s'"
    unfolding cache_clean_def dev using clean hd2 unfolding cache_clean_def by metis
  ultimately show ?thesis using dev by (simp add: cache_ok_def)
qed

context block_device
begin

lemma RedBufferFlush_spec:
  assumes conf: "conf_ok cf" and ok: "cache_ok cf dbyte dsize s" and run: "RedBufferFlush cf start cnt s = (r, s')"
  shows "cache_ok cf dbyte dsize s' \<and> evolves cf dbyte dsize s s' \<and> abMRU s' = abMRU s
    \<and> (\<forall>i < REDCONF_BUFFER_COUNT cf. ulBlock (aHead s' ! i) = ulBlock (aHead s ! i)
         \<and> bVolNum (aHead s' ! i) = bVolNum (aHead s ! i) \<and> bRefCount (aHead s' ! i) = bRefCount (aHead s ! i))
    \<and> (r = Inr () \<longrightarrow> (\<forall>i < REDCONF_BUFFER_COUNT cf. discarded s start cnt (aHead s ! i) \<longrightarrow>
         uFlags (aHead s' ! i) AND BFLAG_DIRTY = 0))"
proof (cases "range_ok s start cnt")
  case False
  then have e: "(r, s') = (Inl RED_EINVAL, REDERROR s)" using run by (simp add: RedBufferFlush_def red_simps)
  then show ?thesis using ok error_ok [of "REDERROR s" s] by (simp add: st_simps)
next
  case True
  have "buffer_flush_from cf start cnt [0..<REDCONF_BUFFER_COUNT cf] s = (r, s')"
    using run True by (simp add: RedBufferFlush_def red_simps)
  note sp = buffer_flush_from_spec [OF conf ok _ this]
  have "ulBlock (aHead s' ! i) = ulBlock (aHead s ! i) \<and> bVolNum (aHead s' ! i) = bVolNum (aHead s ! i)
      \<and> bRefCount (aHead s' ! i) = bRefCount (aHead s ! i)" if "i < REDCONF_BUFFER_COUNT cf" for i
  proof -
    have "aHead s' ! i = aHead s ! i \<or> aHead s' ! i = (aHead s ! i)\<lparr>uFlags := uFlags (aHead s ! i) AND NOT BFLAG_DIRTY\<rparr>"
      using sp that by auto
    then show ?thesis by auto
  qed
  then show ?thesis using sp by auto
qed

text \<open>After a successful flush the disk holds the current contents of the blocks of the range.\<close>

lemma flush_disk:
  assumes conf: "conf_ok cf" and ok: "cache_ok cf dbyte dsize s" and run: "RedBufferFlush cf start cnt s = (Inr (), s')"
    and b: "b \<noteq> BBLK_INVALID" "start \<le> b" "b < start + cnt"
  shows "dblock dbyte (REDCONF_BLOCK_SIZE cf) (bdev s') (gbRedVolNum s) (unat b) = cache_view cf dbyte s' (gbRedVolNum s) b"
proof -
  note sp = RedBufferFlush_spec [OF conf ok run]
  have inv': "cache_inv cf s'" and cl: "cache_clean cf dbyte s'" using sp by (simp_all add: cache_ok_def)
  show ?thesis
  proof (cases "cache_lookup cf s' (gbRedVolNum s) b")
    case (Some i)
    have i: "i < REDCONF_BUFFER_COUNT cf" "bVolNum (aHead s' ! i) = gbRedVolNum s" "ulBlock (aHead s' ! i) = b"
      using cache_lookup_Some [OF inv' b(1)] Some by auto
    then have "discarded s start cnt (aHead s ! i)" using sp b by (simp add: discarded_def)
    then have "uFlags (aHead s' ! i) AND BFLAG_DIRTY = 0" using sp i(1) by blast
    then show ?thesis using cl i b Some by (auto simp: cache_clean_def cache_view_def)
  qed (simp add: cache_view_def)
qed

end

section \<open>The state machine\<close>

inductive cache_step ::
  "'d redconf \<Rightarrow> ('d \<Rightarrow> u8 \<Rightarrow> nat) \<Rightarrow> 'd redstate \<Rightarrow> 'd redstate \<Rightarrow> bool" for cf dsize
where
  s_get: "\<lbrakk>flags_ok fl; fl AND BFLAG_NEW \<noteq> 0 \<longrightarrow> fl AND BFLAG_DIRTY \<noteq> 0;
      \<forall>i < REDCONF_BUFFER_COUNT cf. bRefCount (aHead s ! i) \<noteq> 255;
      RedBufferGet cf blk fl s = (r, s')\<rbrakk> \<Longrightarrow> cache_step cf dsize s s'"
| s_put: "held cf s i \<Longrightarrow> cache_step cf dsize s (RedBufferPut cf (Some i) s)"
| s_dirty: "held cf s i \<Longrightarrow> cache_step cf dsize s (RedBufferDirty cf (Some i) s)"
| s_write: "\<lbrakk>held cf s i; uFlags (aHead s ! i) AND BFLAG_DIRTY \<noteq> 0; length p = REDCONF_BLOCK_SIZE cf\<rbrakk> \<Longrightarrow>
    cache_step cf dsize s (set_buf i p s)"
| s_branch: "\<lbrakk>held cf s i; uFlags (aHead s ! i) AND BFLAG_DIRTY = 0; blk < ulBlockCount (gpRedVolume s);
      uncached cf s (gbRedVolNum s) blk\<rbrakk> \<Longrightarrow> cache_step cf dsize s (RedBufferBranch cf (Some i) blk s)"
| s_discard: "\<lbrakk>held cf s i; bRefCount (aHead s ! i) = 1\<rbrakk> \<Longrightarrow> cache_step cf dsize s (RedBufferDiscard cf (Some i) s)"
| s_discard_range: "RedBufferDiscardRange cf start cnt s = (r, s') \<Longrightarrow> cache_step cf dsize s s'"
| s_flush: "RedBufferFlush cf start cnt s = (r, s') \<Longrightarrow> cache_step cf dsize s s'"
| s_select: "vol_geom cf dsize s v \<Longrightarrow> cache_step cf dsize s (s\<lparr>gbRedVolNum := v\<rparr>)"

inductive cache_reach ::
  "'d redconf \<Rightarrow> ('d \<Rightarrow> u8 \<Rightarrow> nat) \<Rightarrow> 'd redstate \<Rightarrow> bool" for cf dsize
where
  init: "vol_geom cf dsize s (gbRedVolNum s) \<Longrightarrow> cache_reach cf dsize (RedBufferInit cf s)"
| step: "cache_reach cf dsize s \<Longrightarrow> cache_step cf dsize s s' \<Longrightarrow> cache_reach cf dsize s'"

inductive_cases cache_reach_E: "cache_reach cf dsize s"

lemma RedBufferInit_ok:
  assumes "0 < REDCONF_BUFFER_COUNT cf" and "conf_ok cf" and "vol_geom cf dsize s (gbRedVolNum s)"
  shows "cache_ok cf dbyte dsize (RedBufferInit cf s)"
  using assms RedBufferInit_inv [of cf s]
  by (simp add: cache_ok_def conf_ok_def cache_geom_def cache_clean_def RedBufferInit_def vol_geom_def)

context block_device
begin

lemma cache_step_ok:
  assumes conf: "conf_ok cf" and step: "cache_step cf dsize s s'" and ok: "cache_ok cf dbyte dsize s"
  shows "cache_ok cf dbyte dsize s'"
  using step ok
proof (induction rule: cache_step.induct)
  case (s_get fl s blk r s')
  then show ?case using RedBufferGet_result [OF conf, of s fl blk r s'] by (simp add: get_result_def)
next
  case (s_flush start cnt s r s')
  then show ?case using RedBufferFlush_spec [OF conf] by blast
next
  case (s_select s v)
  then show ?case
    by (auto simp: cache_ok_def cache_inv_def cache_geom_def cache_clean_def vol_geom_def)
qed (auto intro: RedBufferPut_ok RedBufferDirty_ok write_buffer_ok RedBufferBranch_ok
    RedBufferDiscard_ok RedBufferDiscardRange_ok)

lemma cache_reach_ok:
  assumes "conf_ok cf" and "0 < REDCONF_BUFFER_COUNT cf" and "cache_reach cf dsize s"
  shows "cache_ok cf dbyte dsize s"
  using assms(3)
  by (induction rule: cache_reach.induct) (auto intro: RedBufferInit_ok cache_step_ok assms(1,2))

end

end
