(* ===== verification/Reliable.thy ===== *)
theory Reliable
  imports BufferSteps
begin

text \<open>
  A block device whose operations succeed on sectors it has (\<open>reliable_device\<close>, an extension of
  the interface \<open>block_device\<close>), and what then succeeds in the driver: block input and output at
  the first attempt, and acquiring a buffer. The RAM disk is such a device.
\<close>

locale reliable_device = block_device +
  assumes read_succeeds:
      "\<lbrakk>sec_bytes cf v (unat a + unat n) \<le> dsize d v; 0 < sec_bytes cf v (unat n); sec_bytes cf v (unat n) < 2 ^ 32\<rbrakk> \<Longrightarrow>
       fst (fst (DiskRead cf v a n d)) = None"
    and write_succeeds:
      "\<lbrakk>sec_bytes cf v (unat a + unat n) \<le> dsize d v; 0 < sec_bytes cf v (unat n); sec_bytes cf v (unat n) < 2 ^ 32;
        sec_bytes cf v (unat n) \<le> length b\<rbrakk> \<Longrightarrow>
       fst (DiskWrite cf v a n b d) = None"

interpretation ram: reliable_device "with_ramdisk blocks alloc cf" ram_byte ram_size for blocks alloc cf
proof unfold_locales
  fix v :: u8 and a :: u64 and n :: u32 and d :: ramdisk
  assume "sec_bytes (with_ramdisk blocks alloc cf) v (unat a + unat n) \<le> ram_size d v"
    "0 < sec_bytes (with_ramdisk blocks alloc cf) v (unat n)"
  then have "d v \<noteq> None" by (auto simp: ram_size_def sec_bytes_def split: option.splits)
  then show "fst (fst (DiskRead (with_ramdisk blocks alloc cf) v a n d)) = None"
    by (auto simp: RamDiskRead_def Let_def)
next
  fix v :: u8 and a :: u64 and n :: u32 and d :: ramdisk and b :: bytes
  assume "sec_bytes (with_ramdisk blocks alloc cf) v (unat a + unat n) \<le> ram_size d v"
    "0 < sec_bytes (with_ramdisk blocks alloc cf) v (unat n)"
  then have "d v \<noteq> None" by (auto simp: ram_size_def sec_bytes_def split: option.splits)
  then show "fst (DiskWrite (with_ramdisk blocks alloc cf) v a n b d) = None"
    by (auto simp: RamDiskWrite_def Let_def)
qed

lemma attempts_first: "att d = (None, d') \<Longrightarrow> attempts att (Suc n) ret d = (None, d')"
  by simp

context reliable_device
begin

lemma RedIoRead_succeeds:
  assumes geom: "vol_geom cf dsize s v" and conf: "conf_ok cf" and rng: "io_range_ok cf s v b n"
    and small: "unat n * BS < 2 ^ 32"
  shows "\<exists>data d. RedIoRead cf v b n buf s = (Inr (None, data), s\<lparr>bdev := d\<rparr>)"
proof -
  define sh where "sh = unat (bBlockSectorShift (gaRedVolume s v))"
  note g = vol_geom_shift [OF geom conf rng small, folded sh_def]
  have n: "0 < unat n" using rng by (simp add: io_range_ok_def unat_gt_0)
  have "fst (fst (DiskRead cf v (push_bit sh (ucast b)) (push_bit sh n) (bdev s))) = None"
    using g n small conf_ok_block_size [OF conf] by (intro read_succeeds) auto
  then obtain x d where dr: "DiskRead cf v (push_bit sh (ucast b)) (push_bit sh n) (bdev s) = ((None, x), d)"
    by (metis prod.collapse)
  show ?thesis
    using rng g(4,5,10) dr unfolding RedIoRead_def Let_def sh_def [symmetric]
    by (simp add: io_retry_conf [OF conf] attempts_first RedOsBDevRead_def REDASSERT_def io_finish_def del: attempts.simps) blast
qed

lemma RedIoWrite_succeeds:
  assumes geom: "vol_geom cf dsize s v" and conf: "conf_ok cf" and rng: "io_range_ok cf s v b n"
    and small: "unat n * BS < 2 ^ 32" and len: "unat n * BS \<le> length buf"
  shows "\<exists>d. RedIoWrite cf v b n buf s = (Inr (), s\<lparr>bdev := d\<rparr>)"
proof -
  define sh where "sh = unat (bBlockSectorShift (gaRedVolume s v))"
  note g = vol_geom_shift [OF geom conf rng small, folded sh_def]
  have n: "0 < unat n" using rng by (simp add: io_range_ok_def unat_gt_0)
  have "fst (DiskWrite cf v (push_bit sh (ucast b)) (push_bit sh n) buf (bdev s)) = None"
    using g n small len conf_ok_block_size [OF conf] by (intro write_succeeds) auto
  then obtain d where dr: "DiskWrite cf v (push_bit sh (ucast b)) (push_bit sh n) buf (bdev s) = (None, d)"
    by (metis prod.collapse)
  show ?thesis
    using rng g(4,5,10) dr unfolding RedIoWrite_def Let_def sh_def [symmetric]
    by (simp add: io_retry_conf [OF conf] attempts_first RedOsBDevWrite_def REDASSERT_def io_finish_def del: attempts.simps) blast
qed

text \<open>Filling a buffer with a data block, or with zeros, and writing back a buffer with data.\<close>

lemma buffer_fill_succeeds:
  assumes geom: "vol_geom cf dsize s (gbRedVolNum s)" and conf: "conf_ok cf"
    and b: "blk < ulBlockCount (gpRedVolume s)" and fl: "fl AND BFLAG_NEW \<noteq> 0 \<or> fl AND BFLAG_META = 0"
  shows "fst (buffer_fill cf i blk fl s) = Inr ()"
proof (cases "fl AND BFLAG_NEW = 0")
  case False
  then show ?thesis by (simp add: buffer_fill_def red_simps)
next
  case True
  let ?s0 = "upd_head i (\<lambda>h. h\<lparr>ulBlock := BBLK_INVALID\<rparr>) s"
  have v: "gbRedVolNum ?s0 = gbRedVolNum s" "aabBuffer ?s0 = aabBuffer s" by (simp_all add: upd_head_def)
  have g0: "vol_geom cf dsize ?s0 (gbRedVolNum s)" using geom by (simp add: vol_geom_def upd_head_def)
  have rng: "io_range_ok cf ?s0 (gbRedVolNum s) blk 1"
    using g0 b by (intro io_range_block) (auto simp: vol_geom_def gpRedVolume_def upd_head_def)
  have "unat (1 :: u32) * BS < 2 ^ 32" using bs_small [OF conf] by simp
  from RedIoRead_succeeds [OF g0 conf rng this] obtain q d
    where "RedIoRead cf (gbRedVolNum s) blk 1 (aabBuffer s ! i) ?s0 = (Inr (None, q), ?s0\<lparr>bdev := d\<rparr>)" by blast
  then show ?thesis using True fl v by (simp add: buffer_fill_def red_simps)
qed

lemma BufferWrite_succeeds:
  assumes geom: "vol_geom cf dsize s (bVolNum (aHead s ! i))" and conf: "conf_ok cf" and inv: "cache_inv cf s"
    and i: "i < REDCONF_BUFFER_COUNT cf" and dirty: "uFlags (aHead s ! i) AND BFLAG_DIRTY \<noteq> 0"
    and data: "uFlags (aHead s ! i) AND BFLAG_META = 0"
    and b: "ulBlock (aHead s ! i) < ulBlockCount (gaRedVolume s (bVolNum (aHead s ! i)))"
  shows "fst (BufferWrite cf i s) = Inr ()"
proof -
  let ?h = "aHead s ! i"
  have rng: "io_range_ok cf s (bVolNum ?h) (ulBlock ?h) 1"
    using geom b by (intro io_range_block) (auto simp: vol_geom_def)
  have "unat (1 :: u32) * BS < 2 ^ 32" "unat (1 :: u32) * BS \<le> length (aabBuffer s ! i)"
    using bs_small [OF conf] inv i by (simp_all add: cache_inv_def)
  from RedIoWrite_succeeds [OF geom conf rng this] obtain d
    where "RedIoWrite cf (bVolNum ?h) (ulBlock ?h) 1 (aabBuffer s ! i) s = (Inr (), s\<lparr>bdev := d\<rparr>)" by blast
  then show ?thesis using i dirty data by (simp add: BufferWrite_def red_simps REDASSERT_def)
qed

lemma RedBufferGet_succeeds:
  assumes conf: "conf_ok cf" and ok: "cache_ok cf dbyte dsize s" and fl: "flags_ok fl"
    and blk: "blk < ulBlockCount (gpRedVolume s)"
    and hit: "\<And>i. i < REDCONF_BUFFER_COUNT cf \<Longrightarrow> bVolNum (aHead s ! i) = gbRedVolNum s \<Longrightarrow> ulBlock (aHead s ! i) = blk \<Longrightarrow>
      fl AND BFLAG_NEW = 0 \<and> fl AND BFLAG_META_MASK = uFlags (aHead s ! i) AND BFLAG_META_MASK"
    and miss: "uncached cf s (gbRedVolNum s) blk \<Longrightarrow>
      uNumUsed s \<noteq> of_nat (REDCONF_BUFFER_COUNT cf) \<and> (fl AND BFLAG_NEW \<noteq> 0 \<or> fl AND BFLAG_META = 0)
      \<and> (\<forall>i < REDCONF_BUFFER_COUNT cf. uFlags (aHead s ! i) AND BFLAG_DIRTY \<noteq> 0 \<longrightarrow> uFlags (aHead s ! i) AND BFLAG_META = 0)"
  shows "\<exists>i. fst (RedBufferGet cf blk fl s) = Inr i"
proof -
  have inv: "cache_inv cf s" and geom: "cache_geom cf dsize s" using ok by (simp_all add: cache_ok_def)
  note find = BufferFind_lookup [OF blk, of cf]
  have mask: "fl AND BFLAG_MASK = fl" using fl by (simp add: flags_ok_def)
  have nb: "\<not> ulBlockCount (gpRedVolume s) \<le> blk" using blk by simp
  show ?thesis
  proof (cases "cache_lookup cf s (gbRedVolNum s) blk")
    case (Some i)
    have "blk \<noteq> BBLK_INVALID" using blk by (rule block_not_invalid)
    then have "i < REDCONF_BUFFER_COUNT cf" "bVolNum (aHead s ! i) = gbRedVolNum s" "ulBlock (aHead s ! i) = blk"
      using cache_lookup_Some [OF inv] Some by auto
    then show ?thesis using hit [of i] nb Some find mask by (simp add: RedBufferGet_def red_simps)
  next
    case None
    then have unc: "uncached cf s (gbRedVolNum s) blk" by (simp add: cache_lookup_None)
    note m = miss [OF unc]
    define i where "i = lru_victim cf s"
    have vic: "i < REDCONF_BUFFER_COUNT cf" "bRefCount (aHead s ! i) = 0"
      using lru_victim_spec(1,2) [OF inv] m by (simp_all add: i_def)
    let ?dirty = "uFlags (aHead s ! i) AND BFLAG_DIRTY \<noteq> 0 \<and> ulBlock (aHead s ! i) \<noteq> BBLK_INVALID"
    obtain s1 where s1: "(if ?dirty then BufferWrite cf i else skipR) s = (Inr (), s1)"
      and ev: "evolves cf dbyte dsize s s1"
    proof (cases ?dirty)
      case True
      have g: "vol_geom cf dsize s (bVolNum (aHead s ! i))" "ulBlock (aHead s ! i) < ulBlockCount (gaRedVolume s (bVolNum (aHead s ! i)))"
        using geom True vic(1) by (simp_all add: cache_geom_def)
      have "fst (BufferWrite cf i s) = Inr ()"
        using BufferWrite_succeeds [OF g(1) conf inv vic(1) _ _ g(2)] True m vic(1) by blast
      then obtain s2 where s2: "BufferWrite cf i s = (Inr (), s2)" by (metis prod.collapse)
      then show thesis using that [of s2] write_back [OF conf ok vic(1) _ _ s2] True by simp
    next
      case False
      then show thesis using that [of s] by (auto simp: red_simps)
    qed
    have fr: "cache_frame s s1" "dsize (bdev s1) = dsize (bdev s)" using ev by (simp_all add: evolves_def)
    then have "vol_geom cf dsize s1 (gbRedVolNum s1)" "blk < ulBlockCount (gpRedVolume s1)"
      using geom blk vol_geom_frame [OF fr, of cf]
      by (simp_all add: cache_geom_def cache_frame_def vol_static_def gpRedVolume_def)
    then have "fst (buffer_fill cf i blk fl s1) = Inr ()" using buffer_fill_succeeds conf m by blast
    then obtain s2 where s2: "buffer_fill cf i blk fl s1 = (Inr (), s2)" by (metis prod.collapse)
    have "fst (buffer_recycle cf blk fl s) = Inr i"
      using vic(2) s1 s2
      unfolding buffer_recycle_def getR_run lru_victim_def [symmetric] i_def [symmetric] Let_def
      by (simp add: red_simps)
    then obtain s3 where "buffer_recycle cf blk fl s = (Inr i, s3)" by (metis prod.collapse)
    then show ?thesis
      using nb None find m mask by (simp add: RedBufferGet_def red_simps)
  qed
qed

end

end
