(* ===== verification/BufferNode.thy ===== *)
theory BufferNode
  imports BufferCache
begin

text \<open>
  Stamping and checking metadata nodes: a node stamped by \<open>BufferFinalize\<close> passes the check of
  \<open>BufferIsValid\<close> when it is read back as the same kind of node, in either byte order, and fails
  it after a corruption of up to four consecutive bytes.
\<close>

lemma drop_fold_rev_at_below:
  "members_ok lo ms (length p) \<Longrightarrow> n \<le> lo \<Longrightarrow> take n (fold rev_at ms p) = take n p"
  using fold_rev_at_below [of lo ms p 0 n] by simp

text \<open>The header of a swapped node.\<close>

lemma ld_header_wire:
  assumes "256 \<le> REDCONF_BLOCK_SIZE cf" and "length p = REDCONF_BLOCK_SIZE cf" and "flags_ok fl"
    and "fl AND BFLAG_META \<noteq> 0" and "REDCONF_ENDIAN_SWAP cf"
  defines "be \<equiv> REDCONF_ENDIAN_BIG cf"
  shows "ld32 be (wire cf fl p) 0 = RedRev32 (ld32 be p 0)"
    and "ld32 be (wire cf fl p) 4 = RedRev32 (ld32 be p 4)"
    and "ld64 be (wire cf fl p) 8 = RedRev64 (ld64 be p 8)"
proof -
  have m: "fl AND BFLAG_META_MASK \<noteq> 0"
  proof
    assume "fl AND BFLAG_META_MASK = 0"
    then have "(fl AND BFLAG_META_MASK) AND BFLAG_META = 0" by simp
    then have "fl AND BFLAG_META = 0" by (simp add: and.assoc BFLAG_defs)
    then show False using assms(4) by simp
  qed
  obtain rest where nm: "node_members cf fl = [(0, 4), (4, 4), (8, 8)] @ rest"
    using m assms(3) by (auto simp: node_members_def Let_def flags_ok_def)
  have ok: "members_ok 16 rest (length p)"
    using node_members_ok [OF assms(1), of fl] assms(2) unfolding nm by simp
  let ?q = "BufferEndianSwapHeader be p"
  have lq: "length ?q = length p" using assms(1,2) by (simp add: swap_header_eq)
  have w: "wire cf fl p = fold rev_at rest ?q"
    using assms(1,2,5) by (simp add: wire_def BufferEndianSwap_eq nm swap_header_eq)
  have same: "take n (drop off (wire cf fl p)) = take n (drop off ?q)" if "off + n \<le> 16" for off n
    unfolding w using fold_rev_at_below [of 16 rest ?q off n] ok lq that by simp
  have h: "?q = swap64 be 8 (swap32 be 4 (swap32 be 0 p))"
    by (simp add: BufferEndianSwapHeader_def NODEHEADER_OFFSET_SIG_def NODEHEADER_OFFSET_CRC_def
        NODEHEADER_OFFSET_SEQ_def)
  have ldw: "ld32 be (wire cf fl p) 0 = ld32 be ?q 0" "ld32 be (wire cf fl p) 4 = ld32 be ?q 4"
    "ld64 be (wire cf fl p) 8 = ld64 be ?q 8"
    using same [where off = 0 and n = 4] same [where off = 4 and n = 4] same [where off = 8 and n = 8]
    by (simp_all add: ld_def)
  show "ld32 be (wire cf fl p) 0 = RedRev32 (ld32 be p 0)" "ld32 be (wire cf fl p) 4 = RedRev32 (ld32 be p 4)"
    "ld64 be (wire cf fl p) 8 = RedRev64 (ld64 be p 8)"
    using assms(1,2) ldw unfolding h by (simp_all add: swap64_def swap32_def)
qed

section \<open>A stamped node is valid\<close>

lemma stamp_node_eq:
  "stamp_node cf p fl sig seq =
     (let be = REDCONF_ENDIAN_BIG cf; q = wire cf fl (st64 be (st32 be p 0 sig) 8 seq);
          crc = RedCrcNode (REDCONF_CRC_ALGORITHM cf) (REDCONF_BLOCK_SIZE cf) (Some q)
      in st32 be q 4 (if REDCONF_ENDIAN_SWAP cf then RedRev32 crc else crc))"
  by (simp add: stamp_node_def Let_def wire_def NODEHEADER_OFFSET_SIG_def NODEHEADER_OFFSET_CRC_def
      NODEHEADER_OFFSET_SEQ_def)

lemma RedCrcNode_drop8: "drop 8 p = drop 8 q \<Longrightarrow> RedCrcNode alg bs (Some p) = RedCrcNode alg bs (Some q)"
  by (simp add: RedCrcNode_def)

lemma stamp_node_header:
  fixes sig :: u32 and seq :: u64
  assumes "256 \<le> REDCONF_BLOCK_SIZE cf" and "length p = REDCONF_BLOCK_SIZE cf" and "flags_ok fl"
    and "fl AND BFLAG_META \<noteq> 0"
  defines "be \<equiv> REDCONF_ENDIAN_BIG cf" and "n \<equiv> stamp_node cf p fl sig seq"
  shows "ld32 be n 0 = (if REDCONF_ENDIAN_SWAP cf then RedRev32 sig else sig)"
    and "ld64 be n 8 = (if REDCONF_ENDIAN_SWAP cf then RedRev64 seq else seq)"
    and "ld32 be n 4 = (let crc = RedCrcNode (REDCONF_CRC_ALGORITHM cf) (REDCONF_BLOCK_SIZE cf) (Some n)
      in if REDCONF_ENDIAN_SWAP cf then RedRev32 crc else crc)"
proof -
  let ?p = "st64 be (st32 be p 0 sig) 8 seq"
  let ?q = "wire cf fl ?p"
  have l: "length ?p = REDCONF_BLOCK_SIZE cf" "length ?q = REDCONF_BLOCK_SIZE cf" using assms(1,2) by simp_all
  define crc where "crc = (let c = RedCrcNode (REDCONF_CRC_ALGORITHM cf) (REDCONF_BLOCK_SIZE cf) (Some ?q)
      in if REDCONF_ENDIAN_SWAP cf then RedRev32 c else c)"
  have n: "n = st32 be ?q 4 crc" unfolding n_def stamp_node_eq by (simp add: Let_def be_def crc_def)
  have "drop 8 n = drop 8 ?q" using l assms(1) by (simp add: n)
  then have c: "RedCrcNode (REDCONF_CRC_ALGORITHM cf) (REDCONF_BLOCK_SIZE cf) (Some n) =
      RedCrcNode (REDCONF_CRC_ALGORITHM cf) (REDCONF_BLOCK_SIZE cf) (Some ?q)" by (rule RedCrcNode_drop8)
  show "ld32 be n 4 = (let crc = RedCrcNode (REDCONF_CRC_ALGORITHM cf) (REDCONF_BLOCK_SIZE cf) (Some n)
      in if REDCONF_ENDIAN_SWAP cf then RedRev32 crc else crc)"
    unfolding c using l assms(1) by (simp add: n crc_def)
  have p: "ld32 be ?p 0 = sig" "ld64 be ?p 8 = seq" using assms(1,2) by simp_all
  have nq: "ld32 be n 0 = ld32 be ?q 0" "ld64 be n 8 = ld64 be ?q 8" using l assms(1) by (simp_all add: n)
  show "ld32 be n 0 = (if REDCONF_ENDIAN_SWAP cf then RedRev32 sig else sig)"
    unfolding nq using ld_header_wire(1) [OF assms(1) l(1) assms(3,4)] p by (simp add: be_def) (simp add: wire_def)
  show "ld64 be n 8 = (if REDCONF_ENDIAN_SWAP cf then RedRev64 seq else seq)"
    unfolding nq using ld_header_wire(3) [OF assms(1) l(1) assms(3,4)] p by (simp add: be_def) (simp add: wire_def)
qed

lemma stamp_node_valid:
  assumes "256 \<le> REDCONF_BLOCK_SIZE cf" and "length p = REDCONF_BLOCK_SIZE cf" and "flags_ok fl"
    and "flag_signature cf fl \<noteq> 0" and "fl' AND BFLAG_META_MASK = fl AND BFLAG_META_MASK"
  shows "node_valid cf s (stamp_node cf p fl (flag_signature cf fl) seq) fl' \<longleftrightarrow>
    (fMounted (gpRedVolume s) \<longrightarrow> seq < ullSequence (gpRedVolume s))"
proof -
  have "fl AND BFLAG_META_MASK \<noteq> 0"
  proof
    assume "fl AND BFLAG_META_MASK = 0"
    then show False using assms(4) by (simp add: flag_signature_def Let_def BFLAG_defs)
  qed
  then have meta: "fl AND BFLAG_META \<noteq> 0" using assms(3) by (auto simp: flags_ok_def)
  note h = stamp_node_header [OF assms(1-3) meta, where sig = "flag_signature cf fl" and seq = seq]
  show ?thesis
    using h signature_ok_flag_signature [OF assms(4)] assms(5)
    by (auto simp: node_valid_def Let_def NODEHEADER_OFFSET_SIG_def NODEHEADER_OFFSET_CRC_def
        NODEHEADER_OFFSET_SEQ_def linorder_not_le)
qed

section \<open>A corrupted node is not\<close>

lemma corrupt_node_invalid:
  assumes "length a = length b" and "length a \<le> 4" and "a \<noteq> b" and "length h8 = 8"
    and "REDCONF_BLOCK_SIZE cf = 8 + length p + length a + length t"
    and "node_valid cf s (h8 @ p @ a @ t) fl"
  shows "\<not> node_valid cf s' (h8 @ p @ b @ t) fl'"
proof -
  have "RedCrcNode (REDCONF_CRC_ALGORITHM cf) (REDCONF_BLOCK_SIZE cf) (Some (h8 @ p @ a @ t))
      \<noteq> RedCrcNode (REDCONF_CRC_ALGORITHM cf) (REDCONF_BLOCK_SIZE cf) (Some (h8 @ p @ b @ t))"
    using crc_detects_burst [OF assms(1-3), of "REDCONF_CRC_ALGORITHM cf" 0 p t] assms(1,4,5)
    by (simp add: RedCrcNode_def)
  moreover have "ld32 be (h8 @ p @ b @ t) 4 = ld32 be (h8 @ p @ a @ t) 4" for be
    using assms(4) by (simp add: ld_def)
  ultimately show ?thesis
    using assms(6) by (auto simp: node_valid_def Let_def NODEHEADER_OFFSET_CRC_def)
qed

end
