(* ===== verification/CacheCorrect.thy ===== *)
theory CacheCorrect
  imports Reliable BufferNode Samples
begin

text \<open>
  Correctness of the block input and output and of the buffer cache, for every configuration and
  every block device that behaves as \<open>block_device\<close> says. The witnesses apply each theorem to
  the RAM disk of \<open>Samples\<close>, in the initial state of the cache or after a buffer was acquired.
\<close>

section \<open>A reachable sample\<close>

definition sample_cache0 :: "ramdisk redstate" where
  "sample_cache0 = RedBufferInit sample_cf sample_state"

definition sample_cache1 :: "ramdisk redstate" where
  "sample_cache1 = snd (RedBufferGet sample_cf 5 BFLAG_DIRTY sample_cache0)"

lemma sample_reach0: "cache_reach sample_cf ram_size sample_cache0"
  unfolding sample_cache0_def
proof (rule cache_reach.init)
  have "gbRedVolNum sample_state = 0" by (simp add: sample_defs)
  then show "vol_geom sample_cf ram_size sample_state (gbRedVolNum sample_state)" using sample_geom by simp
qed

lemma sample_refs0: "\<forall>i < REDCONF_BUFFER_COUNT sample_cf. bRefCount (aHead sample_cache0 ! i) \<noteq> 255"
  by (simp add: sample_cache0_def RedBufferInit_def)

lemma sample_flags [simp]: "flags_ok BFLAG_DIRTY" "flags_ok 0" "flags_ok BFLAG_META_INODE"
  "BFLAG_DIRTY AND BFLAG_NEW = 0" "BFLAG_DIRTY \<noteq> 0"
  by (simp_all add: flags_ok_def BFLAG_defs)

lemma sample_reach1: "cache_reach sample_cf ram_size sample_cache1"
proof (rule cache_reach.step [OF sample_reach0])
  show "cache_step sample_cf ram_size sample_cache0 sample_cache1"
    unfolding sample_cache1_def
    by (rule cache_step.s_get [where fl = BFLAG_DIRTY and blk = 5
          and r = "fst (RedBufferGet sample_cf 5 BFLAG_DIRTY sample_cache0)"])
       (use sample_refs0 in simp_all)
qed

section \<open>The invariant of the cache\<close>




section \<open>Acquiring a buffer\<close>

lemma get_room:
  assumes "RedBufferGet cf blk fl s = (Inr i, s')" and "uncached cf s (gbRedVolNum s) blk"
  shows "uNumUsed s \<noteq> of_nat (REDCONF_BUFFER_COUNT cf)"
proof
  assume "uNumUsed s = of_nat (REDCONF_BUFFER_COUNT cf)"
  then show False
    using assms BufferFind_lookup [of blk s cf]
    by (auto simp: RedBufferGet_def red_simps linorder_not_le simp flip: cache_lookup_None split: if_splits)
qed

text \<open>
  C27. When \<open>RedBufferGet\<close> succeeds, the caller holds a buffer of the block it asked for; without
  \<^verbatim>\<open>BFLAG_NEW\<close> the buffer has the current contents of the block, from the cache or from the disk
  (in the byte order of the machine), with \<^verbatim>\<open>BFLAG_NEW\<close> it is zeroed.
\<close>
theorem get_contents:
  assumes dev: "block_device cf dbyte dsize" and "conf_ok cf" and "0 < REDCONF_BUFFER_COUNT cf"
    and "cache_reach cf dsize s" and "flags_ok fl" and "fl AND BFLAG_NEW \<noteq> 0 \<longrightarrow> fl AND BFLAG_DIRTY \<noteq> 0"
    and "\<forall>i < REDCONF_BUFFER_COUNT cf. bRefCount (aHead s ! i) \<noteq> 255"
  shows "case RedBufferGet cf blk fl s of
      (Inl e, s') \<Rightarrow> True
    | (Inr i, s') \<Rightarrow>
        blk < ulBlockCount (gpRedVolume s) \<and> i < REDCONF_BUFFER_COUNT cf
        \<and> bRefCount (aHead s' ! i) \<noteq> 0 \<and> bVolNum (aHead s' ! i) = gbRedVolNum s' \<and> ulBlock (aHead s' ! i) = blk
        \<and> gbRedVolNum s' = gbRedVolNum s
        \<and> (fl AND BFLAG_DIRTY \<noteq> 0 \<longrightarrow> uFlags (aHead s' ! i) AND BFLAG_DIRTY \<noteq> 0)
        \<and> (if fl AND BFLAG_NEW \<noteq> 0 then aabBuffer s' ! i = replicate (REDCONF_BLOCK_SIZE cf) 0
           else wire cf fl (aabBuffer s' ! i) = cache_view cf dbyte s (gbRedVolNum s) blk)"
proof -
  have ok: "cache_ok cf dbyte dsize s" by (rule block_device.cache_reach_ok [OF assms(1-4)])
  obtain r s' where run: "RedBufferGet cf blk fl s = (r, s')" by fastforce
  have res: "get_result cf dbyte dsize blk fl s r s'"
    using block_device.RedBufferGet_result [OF dev assms(2) ok assms(5) _ assms(7) run] assms(6) by blast
  show ?thesis
  proof (cases r)
    case (Inl e)
    then show ?thesis by (simp add: run)
  next
    case (Inr i)
    from res [unfolded Inr] obtain s1 where e: "evolves cf dbyte dsize s s1" and a: "acquired cf dbyte blk fl i s1 s'"
      and v: "blk < ulBlockCount (gpRedVolume s)"
      and c: "if fl AND BFLAG_NEW = 0
        then cache_view cf dbyte s' (gbRedVolNum s) blk = cache_view cf dbyte s (gbRedVolNum s) blk
        else aabBuffer s' ! i = replicate (REDCONF_BLOCK_SIZE cf) 0"
        "cache_view cf dbyte s' (gbRedVolNum s) blk = wire cf fl (aabBuffer s' ! i)"
      by (rule get_result_Inr)
    have "gbRedVolNum s1 = gbRedVolNum s" using e by (simp add: evolves_def cache_frame_def)
    then have h: "held cf s' i" "ulBlock (aHead s' ! i) = blk" "gbRedVolNum s' = gbRedVolNum s"
      "fl AND BFLAG_DIRTY \<noteq> 0 \<longrightarrow> uFlags (aHead s' ! i) AND BFLAG_DIRTY \<noteq> 0"
      using a by (simp_all add: acquired_def cache_frame_def)
    then show ?thesis using v c by (auto simp: run Inr held_def split: if_splits)
  qed
qed

lemma get_contents_witness:
  "case RedBufferGet sample_cf 5 BFLAG_DIRTY sample_cache0 of
      (Inl e, s') \<Rightarrow> True
    | (Inr i, s') \<Rightarrow> wire sample_cf BFLAG_DIRTY (aabBuffer s' ! i)
        = cache_view sample_cf ram_byte sample_cache0 (gbRedVolNum sample_cache0) 5"
  using get_contents [OF sample_device sample_conf_ok _ sample_reach0 sample_flags(1) _ sample_refs0, of 5]
  by (simp split: prod.splits sum.splits)

text \<open>
  C28. \<open>RedBufferGet\<close> loses nothing, also when it fails: the contents of every other block, seen
  through the cache, stay what they were, up to the sixteen header bytes of dirty metadata nodes,
  which are stamped when such a node is written out; and the buffers others hold stay theirs.
\<close>
theorem get_keeps_blocks:
  assumes dev: "block_device cf dbyte dsize" and "conf_ok cf" and "0 < REDCONF_BUFFER_COUNT cf"
    and "cache_reach cf dsize s" and "flags_ok fl" and "fl AND BFLAG_NEW \<noteq> 0 \<longrightarrow> fl AND BFLAG_DIRTY \<noteq> 0"
    and "\<forall>i < REDCONF_BUFFER_COUNT cf. bRefCount (aHead s ! i) \<noteq> 255"
    and other: "v \<noteq> gbRedVolNum s \<or> b \<noteq> blk" and b: "b \<noteq> BBLK_INVALID"
  shows "let s' = snd (RedBufferGet cf blk fl s) in
      drop 16 (cache_view cf dbyte s' v b) = drop 16 (cache_view cf dbyte s v b)
      \<and> (\<not> meta_dirty cf s v b \<longrightarrow> cache_view cf dbyte s' v b = cache_view cf dbyte s v b)
      \<and> (\<forall>i < REDCONF_BUFFER_COUNT cf. bRefCount (aHead s ! i) \<noteq> 0 \<longrightarrow>
           ulBlock (aHead s' ! i) = ulBlock (aHead s ! i) \<and> bVolNum (aHead s' ! i) = bVolNum (aHead s ! i)
           \<and> bRefCount (aHead s' ! i) \<noteq> 0)"
proof -
  have ok: "cache_ok cf dbyte dsize s" by (rule block_device.cache_reach_ok [OF assms(1-4)])
  obtain r s' where run: "RedBufferGet cf blk fl s = (r, s')" by fastforce
  have res: "get_result cf dbyte dsize blk fl s r s'"
    using block_device.RedBufferGet_result [OF dev assms(2) ok assms(5) _ assms(7) run] assms(6) by blast
  show ?thesis
  proof (cases r)
    case (Inl e)
    then have "evolves cf dbyte dsize s s'" using res by (simp add: get_result_def)
    then show ?thesis using b by (simp add: run evolves_def)
  next
    case (Inr k)
    from res [unfolded Inr] obtain s1 where s1: "evolves cf dbyte dsize s s1" "acquired cf dbyte blk fl k s1 s'"
      and hit0: "if uncached cf s (gbRedVolNum s) blk then k = lru_victim cf s \<and> bRefCount (aHead s1 ! k) = 0
        else s1 = s \<and> fl AND BFLAG_NEW = 0 \<and> uFlags (aHead s ! k) AND BFLAG_META_MASK = fl AND BFLAG_META_MASK"
      by (rule get_result_Inr)
    have hit: "bRefCount (aHead s1 ! k) = 0 \<or> s1 = s \<and> \<not> uncached cf s (gbRedVolNum s) blk"
      using hit0 by (auto split: if_splits)
    have v: "gbRedVolNum s1 = gbRedVolNum s" using s1(1) by (simp add: evolves_def cache_frame_def)
    have "cache_view cf dbyte s' v b = cache_view cf dbyte s1 v b"
      using s1(2) b other v by (auto simp: acquired_def)
    moreover have "ulBlock (aHead s' ! i) = ulBlock (aHead s ! i) \<and> bVolNum (aHead s' ! i) = bVolNum (aHead s ! i)
        \<and> bRefCount (aHead s' ! i) \<noteq> 0" if pinned: "i < REDCONF_BUFFER_COUNT cf" "bRefCount (aHead s ! i) \<noteq> 0" for i
    proof (cases "i = k")
      case False
      then show ?thesis using s1 pinned by (auto simp: acquired_def evolves_def)
    next
      case True
      have h: "held cf s' k" "ulBlock (aHead s' ! k) = blk" "gbRedVolNum s' = gbRedVolNum s"
        using s1 v by (simp_all add: acquired_def cache_frame_def)
      have inv': "cache_inv cf s'" using res by (simp add: get_result_def cache_ok_def)
      have "s1 = s" "\<not> uncached cf s (gbRedVolNum s) blk"
        using hit s1(1) pinned True by (auto simp: evolves_def)
      then have "bVolNum (aHead s ! k) = gbRedVolNum s" "ulBlock (aHead s ! k) = blk"
        using acquired_hit [OF s1(2) inv'] h by auto
      then show ?thesis using True h by (simp add: held_def)
    qed
    ultimately show ?thesis using s1(1) b by (simp add: run evolves_def)
  qed
qed

lemma get_keeps_blocks_witness:
  "let s' = snd (RedBufferGet sample_cf 5 BFLAG_DIRTY sample_cache0) in
     drop 16 (cache_view sample_cf ram_byte s' 0 7) = drop 16 (cache_view sample_cf ram_byte sample_cache0 0 7)"
  using get_keeps_blocks [OF sample_device sample_conf_ok _ sample_reach0 sample_flags(1) _ sample_refs0,
      where v = 0 and b = 7 and blk = 5]
  by (simp add: Let_def BBLK_INVALID_def)

text \<open>
  C29. The replacement policy: a buffer found in the cache is used as it is; otherwise the buffer
  that is reused is the least recently used one among those nobody holds (the last entry of the
  MRU array with no reference), and it becomes the most recently used.
\<close>
theorem get_replaces_lru:
  assumes dev: "block_device cf dbyte dsize" and "conf_ok cf" and "0 < REDCONF_BUFFER_COUNT cf"
    and "cache_reach cf dsize s" and "flags_ok fl" and "fl AND BFLAG_NEW \<noteq> 0 \<longrightarrow> fl AND BFLAG_DIRTY \<noteq> 0"
    and "\<forall>i < REDCONF_BUFFER_COUNT cf. bRefCount (aHead s ! i) \<noteq> 255"
  shows "case RedBufferGet cf blk fl s of
      (Inl e, s') \<Rightarrow> True
    | (Inr i, s') \<Rightarrow> abMRU s' ! 0 = i \<and>
        (if \<exists>j < REDCONF_BUFFER_COUNT cf. bVolNum (aHead s ! j) = gbRedVolNum s \<and> ulBlock (aHead s ! j) = blk
         then bVolNum (aHead s ! i) = gbRedVolNum s \<and> ulBlock (aHead s ! i) = blk
         else bRefCount (aHead s ! i) = 0 \<and>
           (\<exists>k < REDCONF_BUFFER_COUNT cf. abMRU s ! k = i
              \<and> (\<forall>j. k < j \<and> j < REDCONF_BUFFER_COUNT cf \<longrightarrow> bRefCount (aHead s ! (abMRU s ! j)) \<noteq> 0)))"
proof -
  have ok: "cache_ok cf dbyte dsize s" by (rule block_device.cache_reach_ok [OF assms(1-4)])
  then have inv: "cache_inv cf s" by (simp add: cache_ok_def)
  obtain r s' where run: "RedBufferGet cf blk fl s = (r, s')" by fastforce
  have res: "get_result cf dbyte dsize blk fl s r s'"
    using block_device.RedBufferGet_result [OF dev assms(2) ok assms(5) _ assms(7) run] assms(6) by blast
  show ?thesis
  proof (cases r)
    case (Inl e)
    then show ?thesis by (simp add: run)
  next
    case (Inr i)
    from res [unfolded Inr] obtain s1 where s1: "evolves cf dbyte dsize s s1" "acquired cf dbyte blk fl i s1 s'"
      and hit0: "if uncached cf s (gbRedVolNum s) blk then i = lru_victim cf s \<and> bRefCount (aHead s1 ! i) = 0
        else s1 = s \<and> fl AND BFLAG_NEW = 0 \<and> uFlags (aHead s ! i) AND BFLAG_META_MASK = fl AND BFLAG_META_MASK"
      by (rule get_result_Inr)
    have hit: "if uncached cf s (gbRedVolNum s) blk then i = lru_victim cf s else s1 = s"
      using hit0 by (simp split: if_splits)
    have front: "abMRU s' ! 0 = i" using s1(2) by (simp add: acquired_def)
    have inv': "cache_inv cf s'" using res by (simp add: get_result_def cache_ok_def)
    show ?thesis
    proof (cases "uncached cf s (gbRedVolNum s) blk")
      case True
      note vic = lru_victim_spec [OF inv get_room [OF run [unfolded Inr] True]]
      have "\<not> (\<exists>j < REDCONF_BUFFER_COUNT cf. bVolNum (aHead s ! j) = gbRedVolNum s \<and> ulBlock (aHead s ! j) = blk)"
        using True by (simp add: uncached_def)
      then show ?thesis using True hit vic front by (simp add: run Inr) blast
    next
      case False
      then have e: "s1 = s" "gbRedVolNum s' = gbRedVolNum s"
        using hit s1(2) by (simp_all add: acquired_def cache_frame_def)
      show ?thesis
        using acquired_hit [OF s1(2) [unfolded e(1)] inv' e(2) False] False front by (auto simp: run Inr uncached_def)
    qed
  qed
qed

lemma get_replaces_lru_witness:
  "case RedBufferGet sample_cf 5 BFLAG_DIRTY sample_cache0 of
      (Inl e, s') \<Rightarrow> True
    | (Inr i, s') \<Rightarrow> abMRU s' ! 0 = i"
  using get_replaces_lru [OF sample_device sample_conf_ok _ sample_reach0 sample_flags(1) _ sample_refs0, of 5]
  by (simp split: prod.splits sum.splits)

section \<open>Flushing\<close>

text \<open>
  C30. Flushing a range refines the abstract store: when \<open>RedBufferFlush\<close> succeeds, the disk holds
  the current contents of every block of the range that is in the cache; whether it succeeds or
  not, the contents of all blocks seen through the cache stay what they were, up to the header
  of metadata nodes that are stamped.
\<close>
theorem flush_refines_store:
  assumes dev: "block_device cf dbyte dsize" and "conf_ok cf" and "0 < REDCONF_BUFFER_COUNT cf"
    and "cache_reach cf dsize s" and b: "b \<noteq> BBLK_INVALID"
  shows "case RedBufferFlush cf start cnt s of (r, s') \<Rightarrow>
      drop 16 (cache_view cf dbyte s' v b) = drop 16 (cache_view cf dbyte s v b)
      \<and> (\<not> meta_dirty cf s v b \<longrightarrow> cache_view cf dbyte s' v b = cache_view cf dbyte s v b)
      \<and> (r = Inr () \<and> v = gbRedVolNum s \<and> start \<le> b \<and> b < start + cnt \<longrightarrow>
           dblock dbyte (REDCONF_BLOCK_SIZE cf) (bdev s') v (unat b) = cache_view cf dbyte s' v b)"
proof -
  have ok: "cache_ok cf dbyte dsize s" by (rule block_device.cache_reach_ok [OF assms(1-4)])
  obtain r s' where run: "RedBufferFlush cf start cnt s = (r, s')" by fastforce
  note sp = block_device.RedBufferFlush_spec [OF dev assms(2) ok run]
  have "dblock dbyte (REDCONF_BLOCK_SIZE cf) (bdev s') v (unat b) = cache_view cf dbyte s' v b"
    if h: "r = Inr ()" "v = gbRedVolNum s" "start \<le> b" "b < start + cnt"
    using block_device.flush_disk [OF dev assms(2) ok run [unfolded h(1)] b h(3,4)] h(2) by simp
  then show ?thesis using sp b by (simp add: run evolves_def)
qed

lemma flush_refines_store_witness:
  "case RedBufferFlush sample_cf 3 10 sample_cache1 of (r, s') \<Rightarrow>
     drop 16 (cache_view sample_cf ram_byte s' 0 5) = drop 16 (cache_view sample_cf ram_byte sample_cache1 0 5)"
  using flush_refines_store [OF sample_device sample_conf_ok _ sample_reach1, where b = 5 and start = 3 and cnt = 10 and v = 0]
  by (simp add: BBLK_INVALID_def split: prod.splits)

section \<open>Metadata nodes\<close>

text \<open>
  C31. Round trip of a metadata node: a node stamped by \<open>BufferFinalize\<close> with sequence number
  \<open>seq\<close> passes the check made when it is read back as the same kind of node, in either byte
  order, before the volume is mounted or as long as \<open>seq\<close> is an earlier sequence number.
\<close>
theorem stamped_node_is_valid:
  assumes "conf_ok cf" and "length p = REDCONF_BLOCK_SIZE cf" and "flags_ok fl" and "flag_signature cf fl \<noteq> 0"
    and "BufferFinalize cf p fl s = (Inr q, s')" and "fl' AND BFLAG_META_MASK = fl AND BFLAG_META_MASK"
    and "fl' AND BFLAG_MASK = fl'" and "\<not> fMounted (gpRedVolume t) \<or> ullSequence (gpRedVolume s) < ullSequence (gpRedVolume t)"
  shows "BufferIsValid cf q fl' t = (Inr True, t) \<and> ullSequence (gpRedVolume s) < ullSequence (gpRedVolume s')"
proof -
  have bs: "256 \<le> REDCONF_BLOCK_SIZE cf" using conf_ok_block_size [OF assms(1)] by simp
  have q: "q = stamp_node cf p fl (flag_signature cf fl) (ullSequence (gpRedVolume s))"
    and inc: "RedVolSeqNumIncrement s = (Inr (), s')"
    using assms(3-5) by (auto simp: BufferFinalize_def red_simps flags_ok_def split: prod.splits sum.splits)
  then show ?thesis
    using stamp_node_valid [OF bs assms(2-4,6), of t] assms(7,8) RedVolSeqNumIncrement_less [OF inc]
    by (auto simp: BufferIsValid_def red_simps q)
qed

lemma stamped_node_sample_fin:
  "BufferFinalize sample_cf (replicate 256 1) BFLAG_META_INODE sample_state =
      (Inr (stamp_node sample_cf (replicate 256 1) BFLAG_META_INODE META_SIG_INODE 7),
       upd_vol (\<lambda>v. v\<lparr>ullSequence := ullSequence v + 1\<rparr>) sample_state)"
proof -
  have sig: "flag_signature sample_cf BFLAG_META_INODE = META_SIG_INODE"
    by (simp add: flag_signature_def BFLAG_defs)
  have "BFLAG_META_INODE AND BFLAG_MASK = BFLAG_META_INODE" by (simp add: BFLAG_defs)
  moreover have "ullSequence (gpRedVolume sample_state) = 7" by (simp add: gpRedVolume_def sample_defs)
  ultimately show ?thesis
    by (simp add: BufferFinalize_def red_simps RedVolSeqNumIncrement_run sig META_SIG_INODE_def)
qed

lemma stamped_node_sample:
  "BufferIsValid sample_cf (stamp_node sample_cf (replicate 256 1) BFLAG_META_INODE META_SIG_INODE 7)
     BFLAG_META_INODE sample_state = (Inr True, sample_state)"
proof -
  have sig: "flag_signature sample_cf BFLAG_META_INODE = META_SIG_INODE"
    by (simp add: flag_signature_def BFLAG_defs)
  have "\<not> fMounted (gpRedVolume sample_state)" by (simp add: gpRedVolume_def sample_defs)
  then have "node_valid sample_cf sample_state
      (stamp_node sample_cf (replicate 256 1) BFLAG_META_INODE (flag_signature sample_cf BFLAG_META_INODE) 7) BFLAG_META_INODE"
    using sig by (subst stamp_node_valid) (simp_all add: META_SIG_INODE_def)
  then show ?thesis by (simp add: BufferIsValid_def red_simps sig) (simp add: BFLAG_defs)
qed

lemma stamped_node_is_valid_witness:
  "BufferIsValid sample_cf (stamp_node sample_cf (replicate 256 1) BFLAG_META_INODE META_SIG_INODE 7)
     BFLAG_META_INODE sample_state
   = (Inr True, sample_state)"
proof -
  have sig: "flag_signature sample_cf BFLAG_META_INODE = META_SIG_INODE"
    by (simp add: flag_signature_def BFLAG_defs)
  have t: "\<not> fMounted (gpRedVolume sample_state)" by (simp add: gpRedVolume_def sample_defs)
  show ?thesis
    using stamped_node_is_valid [OF sample_conf_ok _ _ _ stamped_node_sample_fin, where fl' = BFLAG_META_INODE and t = sample_state] t
    by (simp add: sig META_SIG_INODE_def) (simp add: flags_ok_def BFLAG_defs)
qed

text \<open>
  C32. A metadata node of which up to four consecutive bytes behind the CRC have been corrupted is
  rejected when it is read, as whatever kind of node and on whatever volume.
\<close>
theorem corrupted_node_is_rejected:
  assumes "length a = length b" and "length a \<le> 4" and "a \<noteq> b" and "length h8 = 8"
    and "REDCONF_BLOCK_SIZE cf = 8 + length p + length a + length t"
    and "BufferIsValid cf (h8 @ p @ a @ t) fl s = (Inr True, s')"
  shows "fst (BufferIsValid cf (h8 @ p @ b @ t) fl' s2) = Inr False"
proof -
  have "node_valid cf s (h8 @ p @ a @ t) fl"
    using assms(6) by (auto simp: BufferIsValid_def red_simps split: if_splits)
  then show ?thesis
    using corrupt_node_invalid [OF assms(1-5)] by (simp add: BufferIsValid_def red_simps)
qed

lemma corrupted_node_is_rejected_witness:
  "let q = stamp_node sample_cf (replicate 256 1) BFLAG_META_INODE META_SIG_INODE 7 in
   fst (BufferIsValid sample_cf (take 8 q @ [] @ [q ! 8 + 1] @ drop 9 q) BFLAG_META_INODE sample_state) = Inr False"
proof -
  define q where "q = stamp_node sample_cf (replicate 256 1) BFLAG_META_INODE META_SIG_INODE 7"
  have l: "length q = 256" by (simp add: q_def stamp_node_def Let_def NODEHEADER_OFFSET_SIG_def NODEHEADER_OFFSET_SEQ_def NODEHEADER_OFFSET_CRC_def)
  have q: "q = take 8 q @ [] @ [q ! 8] @ drop 9 q" using l id_take_nth_drop [of 8 q] by simp
  have "BufferIsValid sample_cf (take 8 q @ [] @ [q ! 8] @ drop 9 q) BFLAG_META_INODE sample_state = (Inr True, sample_state)"
    using stamped_node_sample q unfolding q_def by metis
  from corrupted_node_is_rejected [OF _ _ _ _ _ this, of "[q ! 8 + 1]"] show ?thesis
    using l by (simp add: q_def [symmetric] Let_def)
qed

section \<open>Acquiring succeeds\<close>



section \<open>Block input and output\<close>

text \<open>
  A write is retried: \<open>RedIoWrite\<close> of blocks of the volume succeeds exactly when one of the
  \<^verbatim>\<open>bBlockIoRetries + 1\<close> attempts it makes at most succeeds, each on the device as the failed ones
  before left it.
\<close>
lemma write_retries:
  assumes "conf_ok cf" and "vol_geom cf dsize s v" and "io_range_ok cf s v b n"
    and "unat n * REDCONF_BLOCK_SIZE cf < 2 ^ 32"
  shows "let shift = unat (bBlockSectorShift (gaRedVolume s v));
             att = RedOsBDevWrite cf v (push_bit shift (ucast b)) (push_bit shift n) buf in
    fst (RedIoWrite cf v b n buf s) = Inr ()
    \<longleftrightarrow> (\<exists>k \<le> unat (bBlockIoRetries (gpRedVolConf cf s)). fst (att (((\<lambda>d. snd (att d)) ^^ k) (bdev s))) = None)"
proof -
  define sh where "sh = unat (bBlockSectorShift (gaRedVolume s v))"
  note g = vol_geom_shift [OF assms(2,1,3,4), folded sh_def]
  define att where "att = RedOsBDevWrite cf v (push_bit sh (ucast b)) (push_bit sh n) buf"
  define k where "k = unat (bBlockIoRetries (gpRedVolConf cf s))"
  have "fst (RedIoWrite cf v b n buf s) = Inr () \<longleftrightarrow> fst (attempts att (Suc k) None (bdev s)) = None"
    using assms(3) g(4,10) unfolding RedIoWrite_def Let_def sh_def [symmetric] att_def k_def
    by (simp add: io_retry_conf [OF assms(1)] REDASSERT_def split: prod.splits option.splits del: attempts.simps)
  then show ?thesis unfolding attempts_ok_iff by (simp add: Let_def sh_def att_def k_def)
qed

lemma write_retries_witness:
  "fst (RedIoWrite sample_cf 0 5 1 (replicate 256 9) sample_state) = Inr ()
   \<longleftrightarrow> (\<exists>k \<le> 2. fst (RedOsBDevWrite sample_cf 0 5 1 (replicate 256 9)
         (((\<lambda>d. snd (RedOsBDevWrite sample_cf 0 5 1 (replicate 256 9) d)) ^^ k) (bdev sample_state))) = None)"
proof -
  have "io_range_ok sample_cf sample_state 0 5 1"
    by (simp add: io_range_ok_def vol_ok_def sample_state_def sample_vol_def)
  moreover have "unat (bBlockSectorShift (gaRedVolume sample_state 0)) = 0"
    by (simp add: sample_state_def sample_vol_def)
  moreover have "unat (bBlockIoRetries (gpRedVolConf sample_cf sample_state)) = 2"
    by (simp add: gpRedVolConf_def sample_volconf_def)
  ultimately show ?thesis
    using write_retries [OF sample_conf_ok sample_geom, of 5 1 "replicate 256 9"] by (simp add: Let_def)
qed



text \<open>
  C35. Round trip and bounds of block input and output on a device that works: blocks that
  \<open>RedIoWrite\<close> has written are what \<open>RedIoRead\<close> then returns, and nothing outside these blocks
  has changed on any volume.
\<close>
theorem io_write_read:
  assumes dev: "reliable_device cf dbyte dsize" and conf: "conf_ok cf" and geom: "vol_geom cf dsize s v"
    and rng: "io_range_ok cf s v b n" and small: "unat n * REDCONF_BLOCK_SIZE cf < 2 ^ 32"
    and len: "length buf = unat n * REDCONF_BLOCK_SIZE cf" "length buf' = length buf"
  shows "case RedIoWrite cf v b n buf s of (r, s1) \<Rightarrow>
      r = Inr () \<and> fst (RedIoRead cf v b n buf' s1) = Inr (None, buf)
      \<and> (\<forall>w k. w \<noteq> v \<or> k < unat b * REDCONF_BLOCK_SIZE cf \<or> (unat b + unat n) * REDCONF_BLOCK_SIZE cf \<le> k \<longrightarrow>
           dbyte (bdev s1) w k = dbyte (bdev s) w k)"
proof -
  have bd: "block_device cf dbyte dsize" using dev by (simp add: reliable_device_def)
  obtain d where wr: "RedIoWrite cf v b n buf s = (Inr (), s\<lparr>bdev := d\<rparr>)"
    using reliable_device.RedIoWrite_succeeds [OF dev geom conf rng small, of buf] len(1) by auto
  obtain ret d' where e: "Inr () = (case ret of None \<Rightarrow> Inr () | Some e \<Rightarrow> Inl e)" "s\<lparr>bdev := d\<rparr> = io_finish ret (s\<lparr>bdev := d'\<rparr>)"
    and ds: "dsize d' = dsize (bdev s)"
    and out: "\<And>w k. w \<noteq> v \<or> k < unat b * REDCONF_BLOCK_SIZE cf \<or> (unat b + unat n) * REDCONF_BLOCK_SIZE cf \<le> k \<Longrightarrow>
      dbyte d' w k = dbyte (bdev s) w k"
    and ins: "\<And>k. ret = None \<Longrightarrow> unat b * REDCONF_BLOCK_SIZE cf \<le> k \<Longrightarrow> k < (unat b + unat n) * REDCONF_BLOCK_SIZE cf \<Longrightarrow>
      dbyte d' v k = buf ! (k - unat b * REDCONF_BLOCK_SIZE cf)"
    by (rule block_device.RedIoWrite_spec [OF bd geom conf rng small _ wr]) (use len in simp_all)
  have ret: "ret = None" using e(1) by (cases ret) auto
  have d: "d = d'" using arg_cong [OF e(2), of bdev] by (simp add: ret io_finish_def)
  let ?s1 = "s\<lparr>bdev := d\<rparr>"
  have g1: "vol_geom cf dsize ?s1 v" using geom ds d by (simp add: vol_geom_def)
  have r1: "io_range_ok cf ?s1 v b n" using rng by (simp add: io_range_ok_def)
  obtain data d2 where rd: "RedIoRead cf v b n buf' ?s1 = (Inr (None, data), ?s1\<lparr>bdev := d2\<rparr>)"
    using reliable_device.RedIoRead_succeeds [OF dev g1 conf r1 small] by blast
  have "data = map (dbyte d v) [unat b * REDCONF_BLOCK_SIZE cf..<(unat b + unat n) * REDCONF_BLOCK_SIZE cf]"
    using block_device.RedIoRead_spec [OF bd g1 conf r1 small _ rd] len by auto
  also have "\<dots> = buf"
    using ins [OF ret] len by (auto simp: d distrib_right intro!: nth_equalityI)
  finally show ?thesis using wr rd out d by simp
qed

lemma io_write_read_witness:
  "case RedIoWrite sample_cf 0 5 2 (replicate 512 9) sample_state of (r, s1) \<Rightarrow>
     r = Inr () \<and> fst (RedIoRead sample_cf 0 5 2 (replicate 512 0) s1) = Inr (None, replicate 512 9)"
proof -
  have dev: "reliable_device sample_cf ram_byte ram_size"
    unfolding sample_cf_def by (rule ram.reliable_device_axioms)
  have "io_range_ok sample_cf sample_state 0 5 2"
    by (simp add: io_range_ok_def vol_ok_def sample_state_def sample_vol_def)
  then show ?thesis
    using io_write_read [OF dev sample_conf_ok sample_geom, of 5 2 "replicate 512 9" "replicate 512 0"]
    by (simp split: prod.splits)
qed

end
