(* ===== verification/Imap.thy ===== *)
theory Imap
  imports Buffer
begin

text \<open>
  The imap, which says which blocks are in use (\<^verbatim>\<open>core/driver/imap.c\<close>, \<^verbatim>\<open>imapinline.c\<close> and
  \<^verbatim>\<open>imapextern.c\<close>). Every volume has two metaroots, the committed one and the working one
  (\<open>bCurMR\<close>); the inline imap is the bitmap of the metaroot itself, the external imap is a run of
  nodes of which each has two locations, and the bitmap of the metaroot says which one is used.
\<close>

datatype ALLOCSTATE = ALLOCSTATE_FREE | ALLOCSTATE_USED | ALLOCSTATE_NEW | ALLOCSTATE_AFREE

definition imap_range :: "'d redstate \<Rightarrow> u32 \<Rightarrow> bool" where
  "imap_range s blk \<longleftrightarrow>
     \<not> (blk < ulInodeTableStartBN (gpRedCoreVol s)) \<and> \<not> (blk \<ge> ulBlockCount (gpRedVolume s))"

section \<open>imapinline.c\<close>

definition RedImapIBlockGet :: "u8 \<Rightarrow> u32 \<Rightarrow> ('d, bool) redM" where
  "RedImapIBlockGet bMR blk = getR (\<lambda>s.
     if \<not> fImapInline (gpRedCoreVol s) \<or> bMR > 1 \<or> \<not> imap_range s blk then rederrorR RED_EINVAL
     else retR (RedBitGet (abEntries (aMR (gpRedCoreVol s) bMR)) (blk - ulInodeTableStartBN (gpRedCoreVol s))))"

definition RedImapIBlockSet :: "u32 \<Rightarrow> bool \<Rightarrow> ('d, unit) redM" where
  "RedImapIBlockSet blk fAllocated = getR (\<lambda>s.
     if \<not> fImapInline (gpRedCoreVol s) \<or> \<not> imap_range s blk then rederrorR RED_EINVAL
     else
       let ulOffset = blk - ulInodeTableStartBN (gpRedCoreVol s) in
       if RedBitGet (abEntries (gpRedMR s)) ulOffset = fAllocated then criticalR RED_EFUBAR
       else if fAllocated then modR (upd_mr (\<lambda>m. m\<lparr>abEntries := RedBitSet (abEntries m) ulOffset\<rparr>))
       else modR (upd_mr (\<lambda>m. m\<lparr>abEntries := RedBitClear (abEntries m) ulOffset\<rparr>)))"

section \<open>imapextern.c\<close>

definition RedImapNodeBlock :: "u8 \<Rightarrow> u32 \<Rightarrow> ('d, u32) redM" where
  "RedImapNodeBlock bMR ulImapNode =
     bindR (modR (\<lambda>s. REDASSERT (ulImapNode < ulImapNodeCount (gpRedCoreVol s)) s)) (\<lambda>_. getR (\<lambda>s.
     let blk = ulImapStartBN (gpRedCoreVol s) + ulImapNode * 2 in
     if bMR > 1 then bindR (modR REDERROR) (\<lambda>_. retR blk)
     else if RedBitGet (abEntries (aMR (gpRedCoreVol s) bMR)) ulImapNode then retR (blk + 1)
     else retR blk))"

definition ImapNodeIsBranched :: "'d redstate \<Rightarrow> u32 \<Rightarrow> bool" where
  "ImapNodeIsBranched s ulImapNode \<longleftrightarrow>
     RedBitGet (abEntries (aMR (gpRedCoreVol s) 0)) ulImapNode
       \<noteq> RedBitGet (abEntries (aMR (gpRedCoreVol s) 1)) ulImapNode"

definition ImapNodeBranch :: "'d redconf \<Rightarrow> u32 \<Rightarrow> ('d, nat) redM" where
  "ImapNodeBranch cf ulImapNode = getR (\<lambda>s.
     if ulImapNode \<ge> ulImapNodeCount (gpRedCoreVol s) then rederrorR RED_EINVAL
     else if ImapNodeIsBranched s ulImapNode then
       bindR (RedImapNodeBlock (bCurMR (gpRedCoreVol s)) ulImapNode) (\<lambda>blk.
       RedBufferGet cf blk (BFLAG_META_IMAP OR BFLAG_DIRTY))
     else
       bindR (modR (upd_mr (\<lambda>m. m\<lparr>abEntries :=
         (if RedBitGet (abEntries m) ulImapNode then RedBitClear (abEntries m) ulImapNode
          else RedBitSet (abEntries m) ulImapNode)\<rparr>))) (\<lambda>_. getR (\<lambda>s.
       bindR (RedImapNodeBlock (bCurMR (gpRedCoreVol s)) ulImapNode) (\<lambda>ulBlockCurrent.
       bindR (RedImapNodeBlock (1 - bCurMR (gpRedCoreVol s)) ulImapNode) (\<lambda>ulBlockOld.
       bindR (RedBufferDiscardRange cf ulBlockCurrent 1) (\<lambda>_.
       bindR (RedBufferGet cf ulBlockOld BFLAG_META_IMAP) (\<lambda>pImap.
       bindR (modR (RedBufferBranch cf (Some pImap) ulBlockCurrent)) (\<lambda>_.
       retR pImap))))))))"

definition RedImapEBlockGet :: "'d redconf \<Rightarrow> u8 \<Rightarrow> u32 \<Rightarrow> ('d, bool) redM" where
  "RedImapEBlockGet cf bMR blk = getR (\<lambda>s.
     if fImapInline (gpRedCoreVol s) \<or> bMR > 1 \<or> \<not> imap_range s blk then rederrorR RED_EINVAL
     else
       let ulOffset = blk - ulInodeTableStartBN (gpRedCoreVol s);
           ulImapNode = ulOffset div of_nat (IMAPNODE_ENTRIES cf);
           bMRToRead = (if bMR = 1 - bCurMR (gpRedCoreVol s) \<and> \<not> ImapNodeIsBranched s ulImapNode
                        then 1 - bMR else bMR)
       in bindR (RedImapNodeBlock bMRToRead ulImapNode) (\<lambda>node.
          bindR (RedBufferGet cf node BFLAG_META_IMAP) (\<lambda>pImap. getR (\<lambda>s.
          bindR (modR (RedBufferPut cf (Some pImap))) (\<lambda>_.
          retR (RedBitGet (drop IMAP_abEntries (aabBuffer s ! pImap)) (ulOffset mod of_nat (IMAPNODE_ENTRIES cf))))))))"

definition RedImapEBlockSet :: "'d redconf \<Rightarrow> u32 \<Rightarrow> bool \<Rightarrow> ('d, unit) redM" where
  "RedImapEBlockSet cf blk fAllocated = getR (\<lambda>s.
     if fImapInline (gpRedCoreVol s) \<or> \<not> imap_range s blk then rederrorR RED_EINVAL
     else
       let ulOffset = blk - ulInodeTableStartBN (gpRedCoreVol s);
           ulImapNode = ulOffset div of_nat (IMAPNODE_ENTRIES cf);
           ulImapEntry = ulOffset mod of_nat (IMAPNODE_ENTRIES cf)
       in bindR (ImapNodeBranch cf ulImapNode) (\<lambda>pImap.
          finR (getR (\<lambda>s.
            let p = aabBuffer s ! pImap; bm = drop IMAP_abEntries p in
            if RedBitGet bm ulImapEntry = fAllocated then criticalR RED_EFUBAR
            else modR (set_buf pImap (take IMAP_abEntries p
              @ (if fAllocated then RedBitSet bm ulImapEntry else RedBitClear bm ulImapEntry)))))
          (RedBufferPut cf (Some pImap))))"

section \<open>imap.c\<close>

definition RedImapBlockGet :: "'d redconf \<Rightarrow> u8 \<Rightarrow> u32 \<Rightarrow> ('d, bool) redM" where
  "RedImapBlockGet cf bMR blk = getR (\<lambda>s.
     if bMR > 1 \<or> \<not> imap_range s blk then rederrorR RED_EINVAL
     else if REDCONF_IMAP_INLINE cf \<and> REDCONF_IMAP_EXTERNAL cf
     then (if fImapInline (gpRedCoreVol s) then RedImapIBlockGet bMR blk else RedImapEBlockGet cf bMR blk)
     else if REDCONF_IMAP_INLINE cf then RedImapIBlockGet bMR blk
     else RedImapEBlockGet cf bMR blk)"

definition imap_block_set :: "'d redconf \<Rightarrow> u32 \<Rightarrow> bool \<Rightarrow> ('d, unit) redM" where
  "imap_block_set cf blk fAllocated = getR (\<lambda>s.
     if REDCONF_IMAP_INLINE cf \<and> REDCONF_IMAP_EXTERNAL cf
     then (if fImapInline (gpRedCoreVol s) then RedImapIBlockSet blk fAllocated else RedImapEBlockSet cf blk fAllocated)
     else if REDCONF_IMAP_INLINE cf then RedImapIBlockSet blk fAllocated
     else RedImapEBlockSet cf blk fAllocated)"

definition RedImapBlockSet :: "'d redconf \<Rightarrow> u32 \<Rightarrow> bool \<Rightarrow> ('d, unit) redM" where
  "RedImapBlockSet cf blk fAllocated =
     bindR (getR (\<lambda>s.
       if \<not> imap_range s blk then rederrorR RED_EINVAL
       else if blk \<ge> ulFirstAllocableBN (gpRedCoreVol s)
         \<and> (fAllocated \<and> ulFreeBlocks (gpRedMR s) = 0
            \<or> \<not> fAllocated \<and> ulFreeBlocks (gpRedMR s) \<ge> ulBlocksAllocable (gpRedVolume s))
       then criticalR RED_EFUBAR
       else finR (imap_block_set cf blk fAllocated) (upd_core (\<lambda>c. c\<lparr>fBranched := True\<rparr>)))) (\<lambda>_.
     bindR (if \<not> fAllocated then critical_assertR (RedBufferDiscardRange cf blk 1) else skipR) (\<lambda>_. getR (\<lambda>s.
     if blk \<ge> ulFirstAllocableBN (gpRedCoreVol s) then
       (if fAllocated then modR (upd_mr (\<lambda>m. m\<lparr>ulFreeBlocks := ulFreeBlocks m - 1\<rparr>))
        else
          bindR (critical_assertR (RedImapBlockGet cf (1 - bCurMR (gpRedCoreVol s)) blk)) (\<lambda>fWasAllocated.
          if fWasAllocated then modR (upd_core (\<lambda>c. c\<lparr>ulAlmostFreeBlocks := ulAlmostFreeBlocks c + 1\<rparr>))
          else modR (upd_mr (\<lambda>m. m\<lparr>ulFreeBlocks := ulFreeBlocks m + 1\<rparr>))))
     else skipR)))"

definition RedImapBlockState :: "'d redconf \<Rightarrow> u32 \<Rightarrow> ('d, ALLOCSTATE) redM" where
  "RedImapBlockState cf blk = getR (\<lambda>s.
     if \<not> imap_range s blk then rederrorR RED_EINVAL
     else
       bindR (RedImapBlockGet cf (bCurMR (gpRedCoreVol s)) blk) (\<lambda>fBitCurrent. getR (\<lambda>s.
       bindR (RedImapBlockGet cf (1 - bCurMR (gpRedCoreVol s)) blk) (\<lambda>fBitOld.
       retR (if fBitCurrent then (if fBitOld then ALLOCSTATE_USED else ALLOCSTATE_NEW)
             else (if fBitOld then ALLOCSTATE_AFREE else ALLOCSTATE_FREE))))))"

text \<open>The step of the allocation pointer, and the loop that looks for a free block.\<close>

definition alloc_next :: "'d redstate \<Rightarrow> 'd redstate" where
  "alloc_next s =
     (let s1 = upd_mr (\<lambda>m. m\<lparr>ulAllocNextBlock := ulAllocNextBlock m + 1\<rparr>) s
      in if ulAllocNextBlock (gpRedMR s1) = ulBlockCount (gpRedVolume s1)
         then upd_mr (\<lambda>m. m\<lparr>ulAllocNextBlock := ulFirstAllocableBN (gpRedCoreVol s1)\<rparr>) s1 else s1)"

definition alloc_try :: "'d redconf \<Rightarrow> ('d, u32 option) redM" where
  "alloc_try cf = getR (\<lambda>s.
     bindR (critical_assertR (RedImapBlockState cf (ulAllocNextBlock (gpRedMR s)))) (\<lambda>state. getR (\<lambda>s.
     finR (if state = ALLOCSTATE_FREE
           then bindR (critical_assertR (RedImapBlockSet cf (ulAllocNextBlock (gpRedMR s)) True)) (\<lambda>_.
             getR (\<lambda>s. retR (Some (ulAllocNextBlock (gpRedMR s)))))
           else retR None) alloc_next)))"

partial_function (option) alloc_loop ::
  "'d redconf \<Rightarrow> u32 \<Rightarrow> 'd redstate \<Rightarrow> ((red_err + u32) \<times> 'd redstate) option" where
  "alloc_loop cf ulStopBlock s =
     (case alloc_try cf s of
        (Inl e, s1) \<Rightarrow> Some (Inl e, s1)
      | (Inr (Some blk), s1) \<Rightarrow> Some (Inr blk, s1)
      | (Inr None, s1) \<Rightarrow>
          if ulAllocNextBlock (gpRedMR s1) \<noteq> ulStopBlock then alloc_loop cf ulStopBlock s1
          else Some (Inl RED_EFUBAR, RedVolCriticalError s1))"

declare alloc_loop.simps [code]

definition RedImapAllocBlock :: "'d redconf \<Rightarrow> ('d, u32) redM" where
  "RedImapAllocBlock cf = (\<lambda>s.
     if ulFreeBlocks (gpRedMR s) = 0 then (Inl RED_ENOSPC, s)
     else case alloc_loop cf (ulAllocNextBlock (gpRedMR s)) s of
            Some r \<Rightarrow> r
          | None \<Rightarrow> (Inl RED_EFUBAR, REDERROR s))"

end
