(* ===== verification/Frames.thy ===== *)
theory Frames
  imports BufferInv
begin

text \<open>
  The operations of the buffer cache leave everything outside the cache alone, whatever state they
  start in: the metaroots and the geometry of the volumes, the mounted flags and the current
  volume (\<open>cache_frame\<close>). Each is a preservation rule for \<open>presR (cache_frame s0)\<close>, so that the
  rules of the collection \<open>pres\<close> compose them.
\<close>

lemma frame_to: "cache_frame s s' \<Longrightarrow> cache_frame s0 s \<Longrightarrow> cache_frame s0 s'"
  by (rule cache_frame_trans)

lemma frame_errors [intro]:
  "cache_frame s0 s \<Longrightarrow> cache_frame s0 (REDERROR s)" "cache_frame s0 s \<Longrightarrow> cache_frame s0 (REDASSERT c s)"
  "cache_frame s0 s \<Longrightarrow> cache_frame s0 (RedVolCriticalError s)"
  "cache_frame s0 s \<Longrightarrow> cache_frame s0 (upd_head i f s)" "cache_frame s0 s \<Longrightarrow> cache_frame s0 (set_buf i p s)"
  "cache_frame s0 s \<Longrightarrow> cache_frame s0 (s\<lparr>uNumUsed := n\<rparr>)" "cache_frame s0 s \<Longrightarrow> cache_frame s0 (s\<lparr>abMRU := m\<rparr>)"
  by (erule frame_to [rotated], rule frame)+

lemma bdev_frame: "cache_frame s (s\<lparr>bdev := d\<rparr>)"
  by (simp add: cache_frame_def)

lemma io_finish_frame: "cache_frame s (io_finish ret s)"
  by (auto simp: io_finish_def intro: frame split: option.split)

lemma frame_RedIoRead [pres]: "presR (cache_frame s0) (RedIoRead cf v b n buf)"
proof (rule presR_I)
  fix s :: "'a redstate"
  assume f: "cache_frame s0 s"
  have "cache_frame s (snd (RedIoRead cf v b n buf s))"
    by (auto simp: RedIoRead_def Let_def split: prod.split
        intro!: cache_frame_trans [OF _ io_finish_frame] frame_errors cache_frame_trans [OF _ bdev_frame])
  then show "cache_frame s0 (snd (RedIoRead cf v b n buf s))" using f by (rule frame_to)
qed

lemma frame_RedIoWrite [pres]: "presR (cache_frame s0) (RedIoWrite cf v b n buf)"
proof (rule presR_I)
  fix s :: "'a redstate"
  assume f: "cache_frame s0 s"
  have "cache_frame s (snd (RedIoWrite cf v b n buf s))"
    by (auto simp: RedIoWrite_def Let_def split: prod.split
        intro!: cache_frame_trans [OF _ io_finish_frame] frame_errors cache_frame_trans [OF _ bdev_frame])
  then show "cache_frame s0 (snd (RedIoWrite cf v b n buf s))" using f by (rule frame_to)
qed

lemma frame_RedIoFlush [pres]: "presR (cache_frame s0) (RedIoFlush cf v)"
proof (rule presR_I)
  fix s :: "'a redstate"
  assume f: "cache_frame s0 s"
  have "cache_frame s (snd (RedIoFlush cf v s))"
    by (auto simp: RedIoFlush_def Let_def split: prod.split
        intro!: cache_frame_trans [OF _ io_finish_frame] frame_errors cache_frame_trans [OF _ bdev_frame])
  then show "cache_frame s0 (snd (RedIoFlush cf v s))" using f by (rule frame_to)
qed

lemma frame_rederror [pres]: "presR (cache_frame s0) (rederrorR e)"
  by (rule presR_rederror) blast

lemma frame_critical [pres]: "presR (cache_frame s0) (criticalR e)"
  by (rule presR_critical) blast

lemma frame_critical_assert [pres]: "presR (cache_frame s0) m \<Longrightarrow> presR (cache_frame s0) (critical_assertR m)"
  by (rule presR_critical_assert) blast+

lemma frame_seqnum [pres]: "presR (cache_frame s0) RedVolSeqNumIncrement"
  by (rule presR_I) (metis RedVolSeqNumIncrement_frame frame_to prod.collapse)

lemma frame_modR: "(\<And>s. cache_frame s (f s)) \<Longrightarrow> presR (cache_frame s0) (modR f)"
  by (rule presR_mod) (blast intro: frame_to)

lemma frame_MakeMRU: "cache_frame s (BufferMakeMRU cf i s)"
  by (auto simp: BufferMakeMRU_def Let_def intro: frame split: option.split)

lemma frame_MakeLRU: "cache_frame s (BufferMakeLRU cf i s)"
  by (auto simp: BufferMakeLRU_def Let_def intro: frame split: option.split)

lemma frame_put: "cache_frame s (RedBufferPut cf p s)"
  by (auto simp: RedBufferPut_def Let_def intro!: frame_errors split: option.split)

lemma frame_dirty: "cache_frame s (RedBufferDirty cf p s)"
  by (auto simp: RedBufferDirty_def intro!: frame_errors split: option.split)

lemma frame_branch: "cache_frame s (RedBufferBranch cf p b s)"
  by (auto simp: RedBufferBranch_def intro!: frame_errors split: option.split)

lemma frame_discard: "cache_frame s (RedBufferDiscard cf p s)"
  by (auto simp: RedBufferDiscard_def Let_def intro!: frame_errors cache_frame_trans [OF _ frame_MakeLRU] split: option.split)

lemma frame_ref: "cache_frame s (buffer_ref cf i fl s)"
  by (auto simp: buffer_ref_def Let_def intro!: frame_errors cache_frame_trans [OF _ frame_MakeMRU])

lemmas frame_mods = frame_put frame_dirty frame_branch frame_discard frame_ref frame_MakeLRU

lemma frame_BufferWrite [pres]: "presR (cache_frame s0) (BufferWrite cf i)"
  unfolding BufferWrite_def BufferFinalize_def Let_def
  by (intro pres frame_modR) (auto intro: frame)

lemma frame_fill [pres]: "presR (cache_frame s0) (buffer_fill cf i b fl)"
  unfolding buffer_fill_def BufferIsValid_def
  by (intro pres frame_modR) (auto intro: frame)

lemma frame_get [pres]: "presR (cache_frame s0) (RedBufferGet cf b fl)"
proof -
  have "presR (cache_frame s0) (\<lambda>s. case BufferFind cf b s of
      (Some bIdx, s1) \<Rightarrow> (if P bIdx s1 then criticalR RED_EFUBAR else retR bIdx) s1
    | (None, s1) \<Rightarrow> (if R s1 then criticalR RED_EBUSY else buffer_recycle cf b fl) s1)" for P R
  proof (rule presR_I)
    fix s :: "'a redstate"
    assume f: "cache_frame s0 s"
    obtain r s1 where bf: "BufferFind cf b s = (r, s1)" by fastforce
    then have f1: "cache_frame s0 s1" using f by (auto simp: BufferFind_def split: if_splits)
    have "presR (cache_frame s0) (buffer_recycle cf b fl)"
      unfolding buffer_recycle_def Let_def by (intro pres frame_modR) (auto intro: frame)
    then have "presR (cache_frame s0) (case r of Some bIdx \<Rightarrow> (if P bIdx s1 then criticalR RED_EFUBAR else retR bIdx)
      | None \<Rightarrow> (if R s1 then criticalR RED_EBUSY else buffer_recycle cf b fl))"
      by (intro pres)
    from presR_snd [OF this f1] show "cache_frame s0 (snd (case BufferFind cf b s of
        (Some bIdx, s1) \<Rightarrow> (if P bIdx s1 then criticalR RED_EFUBAR else retR bIdx) s1
      | (None, s1) \<Rightarrow> (if R s1 then criticalR RED_EBUSY else buffer_recycle cf b fl) s1))"
      by (cases r) (auto simp: bf split: if_splits)
  qed
  then show ?thesis
    unfolding RedBufferGet_def by (intro pres frame_modR frame_mods)
qed

lemma frame_flush [pres]: "presR (cache_frame s0) (RedBufferFlush cf a n)"
proof -
  have "presR (cache_frame s0) (buffer_flush_from cf a n is)" for "is"
    by (induction "is") (auto simp: Let_def intro!: pres frame_modR frame)
  then show ?thesis unfolding RedBufferFlush_def by (intro pres)
qed

lemma frame_discard_range [pres]: "presR (cache_frame s0) (RedBufferDiscardRange cf a n)"
proof -
  have "presR (cache_frame s0) (buffer_discard_from cf a n is)" for "is"
    by (induction "is") (auto simp: Let_def intro!: pres frame_modR cache_frame_trans [OF _ frame_MakeLRU] frame)
  then show ?thesis unfolding RedBufferDiscardRange_def by (intro pres)
qed

end
