(* ===== verification/ImapInv.thy ===== *)
theory ImapInv
  imports Imap Frames
begin

text \<open>
  What the imap promises to the rest of the driver. The interface \<open>imap\<close> states the contract of
  the two implementations, the inline and the external one: \<open>bitof s m b\<close> is the allocation bit
  of block \<open>b\<close> in metaroot \<open>m\<close>. The lemmas derive the block states, the transitions the
  operations make between them and the accuracy of the free counts.
\<close>

section \<open>Block states\<close>

definition alloc_state :: "('d redstate \<Rightarrow> u8 \<Rightarrow> u32 \<Rightarrow> bool) \<Rightarrow> 'd redstate \<Rightarrow> u32 \<Rightarrow> ALLOCSTATE" where
  "alloc_state bitof s b =
     (if bitof s (bCurMR (gpRedCoreVol s)) b
      then (if bitof s (1 - bCurMR (gpRedCoreVol s)) b then ALLOCSTATE_USED else ALLOCSTATE_NEW)
      else (if bitof s (1 - bCurMR (gpRedCoreVol s)) b then ALLOCSTATE_AFREE else ALLOCSTATE_FREE))"

text \<open>What the imap operations read besides the bits.\<close>

definition imap_same :: "'d redstate \<Rightarrow> 'd redstate \<Rightarrow> bool" where
  "imap_same s s' \<longleftrightarrow> gbRedVolNum s' = gbRedVolNum s
     \<and> bCurMR (gpRedCoreVol s') = bCurMR (gpRedCoreVol s)
     \<and> ulInodeTableStartBN (gpRedCoreVol s') = ulInodeTableStartBN (gpRedCoreVol s)
     \<and> ulFirstAllocableBN (gpRedCoreVol s') = ulFirstAllocableBN (gpRedCoreVol s)
     \<and> ulBlockCount (gpRedVolume s') = ulBlockCount (gpRedVolume s)
     \<and> ulBlocksAllocable (gpRedVolume s') = ulBlocksAllocable (gpRedVolume s)"

definition imap_counters :: "'d redstate \<Rightarrow> u32 \<times> u32 \<times> u32" where
  "imap_counters s = (ulFreeBlocks (gpRedMR s), ulAlmostFreeBlocks (gpRedCoreVol s), ulAllocNextBlock (gpRedMR s))"

lemma imap_same_refl [simp]: "imap_same s s"
  by (simp add: imap_same_def)

lemma imap_same_trans [trans]: "imap_same s s' \<Longrightarrow> imap_same s' s'' \<Longrightarrow> imap_same s s''"
  by (simp add: imap_same_def)

lemma imap_same_range: "imap_same s s' \<Longrightarrow> imap_range s' = imap_range s"
  by (simp add: imap_same_def imap_range_def fun_eq_iff)

lemma imap_same_frame:
  assumes "cache_frame s s'"
  shows "imap_same s s'" and "imap_counters s' = imap_counters s"
    and "gpRedCoreVol s' = gpRedCoreVol s" and "gpRedMR s' = gpRedMR s"
  using assms
  by (simp_all add: imap_same_def imap_counters_def cache_frame_def vol_static_def gpRedCoreVol_def gpRedVolume_def gpRedMR_def)

text \<open>The updates of the counters.\<close>

definition set_free :: "(u32 \<Rightarrow> u32) \<Rightarrow> 'd redstate \<Rightarrow> 'd redstate" where
  "set_free f = upd_mr (\<lambda>m. m\<lparr>ulFreeBlocks := f (ulFreeBlocks m)\<rparr>)"

definition set_afree :: "(u32 \<Rightarrow> u32) \<Rightarrow> 'd redstate \<Rightarrow> 'd redstate" where
  "set_afree f = upd_core (\<lambda>c. c\<lparr>ulAlmostFreeBlocks := f (ulAlmostFreeBlocks c)\<rparr>)"

definition set_next :: "(u32 \<Rightarrow> u32) \<Rightarrow> 'd redstate \<Rightarrow> 'd redstate" where
  "set_next f = upd_mr (\<lambda>m. m\<lparr>ulAllocNextBlock := f (ulAllocNextBlock m)\<rparr>)"

definition set_branched :: "'d redstate \<Rightarrow> 'd redstate" where
  "set_branched = upd_core (\<lambda>c. c\<lparr>fBranched := True\<rparr>)"

lemmas counter_defs = set_free_def set_afree_def set_next_def set_branched_def

definition imap_bookkeeping :: "('d redstate \<Rightarrow> 'd redstate) \<Rightarrow> bool" where
  "imap_bookkeeping g \<longleftrightarrow> (\<exists>f. g = set_free f \<or> g = set_afree f \<or> g = set_next f) \<or> g = set_branched
     \<or> g = RedVolCriticalError \<or> g = REDERROR"

lemma imap_bookkeeping [simp]:
  "imap_bookkeeping (set_free f)" "imap_bookkeeping (set_afree f)" "imap_bookkeeping (set_next f)"
  "imap_bookkeeping set_branched" "imap_bookkeeping RedVolCriticalError" "imap_bookkeeping REDERROR"
  by (auto simp: imap_bookkeeping_def)

lemma bookkeeping_same: "imap_bookkeeping g \<Longrightarrow> imap_same s (g s)"
  by (auto simp: imap_bookkeeping_def imap_same_def counter_defs st_simps)

lemma counter_sel [simp]:
  "imap_counters (set_free f s) = (case imap_counters s of (a, b, c) \<Rightarrow> (f a, b, c))"
  "imap_counters (set_afree f s) = (case imap_counters s of (a, b, c) \<Rightarrow> (a, f b, c))"
  "imap_counters (set_next f s) = (case imap_counters s of (a, b, c) \<Rightarrow> (a, b, f c))"
  "imap_counters (set_branched s) = imap_counters s"
  "imap_counters (RedVolCriticalError s) = imap_counters s" "imap_counters (REDERROR s) = imap_counters s"
  by (simp_all add: imap_counters_def counter_defs st_simps gpRedMR_def)

section \<open>The interface\<close>

locale imap =
  fixes cf :: "'d redconf"
    and inv :: "'d redstate \<Rightarrow> bool"
    and bitof :: "'d redstate \<Rightarrow> u8 \<Rightarrow> u32 \<Rightarrow> bool"
  assumes cur: "inv s \<Longrightarrow> bCurMR (gpRedCoreVol s) = 0 \<or> bCurMR (gpRedCoreVol s) = 1"
    and get_spec: "\<lbrakk>inv s; imap_range s b; m = 0 \<or> m = 1; RedImapBlockGet cf m b s = (r, s')\<rbrakk> \<Longrightarrow>
      inv s' \<and> imap_same s s' \<and> imap_counters s' = imap_counters s
      \<and> (\<forall>m b. (m = 0 \<or> m = 1) \<and> imap_range s b \<longrightarrow> bitof s' m b = bitof s m b)
      \<and> (\<forall>x. r = Inr x \<longrightarrow> x = bitof s m b)"
    and set_spec: "\<lbrakk>inv s; imap_range s b; imap_block_set cf b f s = (ru, s')\<rbrakk> \<Longrightarrow>
      inv s' \<and> imap_same s s' \<and> imap_counters s' = imap_counters s
      \<and> (\<forall>m c. (m = 0 \<or> m = 1) \<and> imap_range s c \<longrightarrow> bitof s' m c =
           (if ru = Inr () \<and> m = bCurMR (gpRedCoreVol s) \<and> c = b then f else bitof s m c))
      \<and> (ru = Inr () \<longrightarrow> bitof s (bCurMR (gpRedCoreVol s)) b \<noteq> f)"
    and bookkeeping: "\<lbrakk>inv s; imap_bookkeeping g\<rbrakk> \<Longrightarrow> inv (g s) \<and> bitof (g s) = bitof s"
    and discard_spec: "\<lbrakk>inv s; imap_range s b; RedBufferDiscardRange cf b 1 s = (rd, s')\<rbrakk> \<Longrightarrow>
      inv s' \<and> (\<forall>m c. (m = 0 \<or> m = 1) \<and> imap_range s c \<longrightarrow> bitof s' m c = bitof s m c)"
begin

abbreviation state_of :: "'d redstate \<Rightarrow> u32 \<Rightarrow> ALLOCSTATE" where
  "state_of \<equiv> alloc_state bitof"

lemma other: "inv s \<Longrightarrow> 1 - bCurMR (gpRedCoreVol s) = 0 \<or> 1 - bCurMR (gpRedCoreVol s) = 1"
  using cur [of s] by auto

text \<open>Nothing about the blocks changes.\<close>

definition kept :: "'d redstate \<Rightarrow> 'd redstate \<Rightarrow> bool" where
  "kept s s' \<longleftrightarrow> inv s' \<and> imap_same s s' \<and> (\<forall>m c. (m = 0 \<or> m = 1) \<and> imap_range s c \<longrightarrow> bitof s' m c = bitof s m c)"

lemma kept_refl: "inv s \<Longrightarrow> kept s s"
  by (simp add: kept_def)

lemma kept_trans: "kept s s' \<Longrightarrow> kept s' s'' \<Longrightarrow> kept s s''"
  using imap_same_range [of s s'] by (auto simp: kept_def intro: imap_same_trans)

lemma kept_bookkeeping: "inv s \<Longrightarrow> imap_bookkeeping g \<Longrightarrow> kept s (g s)"
  using bookkeeping bookkeeping_same by (simp add: kept_def)

lemma kept_state: "kept s s' \<Longrightarrow> inv s \<Longrightarrow> imap_range s c \<Longrightarrow> state_of s' c = state_of s c"
  using other [of s] cur [of s] by (auto simp: kept_def alloc_state_def imap_same_def)

lemma get_kept: "inv s \<Longrightarrow> imap_range s b \<Longrightarrow> m = 0 \<or> m = 1 \<Longrightarrow> RedImapBlockGet cf m b s = (r, s') \<Longrightarrow>
    kept s s' \<and> imap_counters s' = imap_counters s \<and> (\<forall>x. r = Inr x \<longrightarrow> x = bitof s m b)"
  using get_spec [of s b m r s'] by (simp add: kept_def)

lemma RedImapBlockState_spec:
  assumes "inv s" and "imap_range s b" and run: "RedImapBlockState cf b s = (r, s')"
  shows "kept s s' \<and> imap_counters s' = imap_counters s \<and> (\<forall>x. r = Inr x \<longrightarrow> x = state_of s b)"
proof -
  obtain r1 s1 where g1: "RedImapBlockGet cf (bCurMR (gpRedCoreVol s)) b s = (r1, s1)" by fastforce
  note k1 = get_kept [OF assms(1,2) cur [OF assms(1)] g1]
  have i1: "inv s1" "imap_range s1 b" and e1: "bCurMR (gpRedCoreVol s1) = bCurMR (gpRedCoreVol s)"
    using k1 assms(2) imap_same_range [of s s1] by (auto simp: kept_def imap_same_def)
  obtain r2 s2 where g2: "RedImapBlockGet cf (1 - bCurMR (gpRedCoreVol s1)) b s1 = (r2, s2)" by fastforce
  note k2 = get_kept [OF i1 other [OF i1(1)] g2]
  have o: "bitof s1 (1 - bCurMR (gpRedCoreVol s)) b = bitof s (1 - bCurMR (gpRedCoreVol s)) b"
    using k1 other [OF assms(1)] assms(2) by (auto simp: kept_def)
  show ?thesis
  proof (cases r1)
    case (Inl e)
    then show ?thesis using run assms(2) g1 k1 by (auto simp: RedImapBlockState_def red_simps)
  next
    case (Inr x1)
    then show ?thesis
      using run assms(2) g1 g2 k1 k2 e1 o kept_trans [of s s1 s2]
      by (cases r2) (auto simp: RedImapBlockState_def red_simps alloc_state_def)
  qed
qed

text \<open>
  Setting the bit of a block: the committed metaroot and the other blocks are never touched, and
  on success the bit has changed and the counters follow.
\<close>

definition counters_after :: "'d redstate \<Rightarrow> u32 \<Rightarrow> bool \<Rightarrow> u32 \<times> u32 \<times> u32" where
  "counters_after s b f = (case imap_counters s of (free, afree, next) \<Rightarrow>
     if b < ulFirstAllocableBN (gpRedCoreVol s) then (free, afree, next)
     else if f then (free - 1, afree, next)
     else if bitof s (1 - bCurMR (gpRedCoreVol s)) b then (free, afree + 1, next)
     else (free + 1, afree, next))"

definition only_bit :: "'d redstate \<Rightarrow> u32 \<Rightarrow> 'd redstate \<Rightarrow> bool" where
  "only_bit s b s' \<longleftrightarrow> inv s' \<and> imap_same s s' \<and>
     (\<forall>m c. (m = 0 \<or> m = 1) \<and> imap_range s c \<and> (m \<noteq> bCurMR (gpRedCoreVol s) \<or> c \<noteq> b) \<longrightarrow> bitof s' m c = bitof s m c)"

lemma only_bit_kept: "only_bit s b s1 \<Longrightarrow> kept s1 s2 \<Longrightarrow> only_bit s b s2"
  using imap_same_range [of s s1] by (auto simp: only_bit_def kept_def intro: imap_same_trans)

lemma kept_only_bit: "kept s s' \<Longrightarrow> only_bit s b s'"
  by (auto simp: only_bit_def kept_def)

lemma kept_then: "kept s s1 \<Longrightarrow> imap_bookkeeping g \<Longrightarrow> kept s (g s1)"
  using kept_trans [OF _ kept_bookkeeping, of s s1] by (simp add: kept_def [of s s1])

lemma RedImapBlockSet_spec:
  assumes i: "inv s" and rng: "imap_range s b" and run: "RedImapBlockSet cf b f s = (r, s')"
  shows "only_bit s b s' \<and> ulAllocNextBlock (gpRedMR s') = ulAllocNextBlock (gpRedMR s) \<and>
    (r = Inr () \<longrightarrow> bitof s (bCurMR (gpRedCoreVol s)) b \<noteq> f \<and> bitof s' (bCurMR (gpRedCoreVol s)) b = f
       \<and> imap_counters s' = counters_after s b f)"
proof -
  have nxt: "ulAllocNextBlock (gpRedMR x) = snd (snd (imap_counters x))" for x :: "'d redstate"
    by (simp add: imap_counters_def)
  let ?full = "b \<ge> ulFirstAllocableBN (gpRedCoreVol s) \<and> (f \<and> ulFreeBlocks (gpRedMR s) = 0
      \<or> \<not> f \<and> ulFreeBlocks (gpRedMR s) \<ge> ulBlocksAllocable (gpRedVolume s))"
  show ?thesis
  proof (cases ?full)
    case True
    then have "r = Inl RED_EFUBAR \<and> s' = RedVolCriticalError s"
      using run rng by (auto simp: RedImapBlockSet_def red_simps)
    then show ?thesis using kept_only_bit [OF kept_then [OF kept_refl [OF i]], of RedVolCriticalError] by (simp add: nxt)
  next
    case False
    obtain r1 s0 where st: "imap_block_set cf b f s = (r1, s0)" by fastforce
    note sp = set_spec [OF i rng st]
    define s1 where "s1 = set_branched s0"
    have b1: "kept s0 s1" "imap_counters s1 = imap_counters s"
      using sp kept_bookkeeping [of s0 set_branched] by (simp_all add: s1_def)
    have o1: "only_bit s b s1" using sp by (intro only_bit_kept [OF _ b1(1)]) (auto simp: only_bit_def)
    have cur1: "bCurMR (gpRedCoreVol s1) = bCurMR (gpRedCoreVol s)" "imap_range s1 = imap_range s"
        "ulFirstAllocableBN (gpRedCoreVol s1) = ulFirstAllocableBN (gpRedCoreVol s)" "inv s1"
      using o1 imap_same_range [of s s1] by (auto simp: only_bit_def imap_same_def)
    have bit1: "bitof s1 (bCurMR (gpRedCoreVol s)) b = f" "bitof s (bCurMR (gpRedCoreVol s)) b \<noteq> f" if "r1 = Inr ()"
      using sp b1(1) cur [OF i] rng that imap_same_range [of s s0] by (auto simp: kept_def)
    have old1: "bitof s1 (1 - bCurMR (gpRedCoreVol s)) b = bitof s (1 - bCurMR (gpRedCoreVol s)) b"
      using o1 cur [OF i] rng by (auto simp: only_bit_def)
    have run1: "(r, s') = (case r1 of Inl e \<Rightarrow> (Inl e, s1) | Inr _ \<Rightarrow>
        bindR (if \<not> f then critical_assertR (RedBufferDiscardRange cf b 1) else skipR) (\<lambda>_. getR (\<lambda>s.
          if b \<ge> ulFirstAllocableBN (gpRedCoreVol s) then
            (if f then modR (set_free (\<lambda>x. x - 1))
             else bindR (critical_assertR (RedImapBlockGet cf (1 - bCurMR (gpRedCoreVol s)) b)) (\<lambda>fWasAllocated.
               if fWasAllocated then modR (set_afree (\<lambda>x. x + 1)) else modR (set_free (\<lambda>x. x + 1))))
          else skipR)) s1)"
      using run rng False st unfolding RedImapBlockSet_def s1_def counter_defs
      by (auto simp: red_simps split: sum.splits)
    show ?thesis
    proof (cases r1)
      case (Inl e)
      then show ?thesis using run1 o1 b1(2) by (simp add: nxt)
    next
      case (Inr u)
      then have u: "r1 = Inr ()" by simp
      note bit = bit1 [OF u]
      show ?thesis
      proof (cases f)
        case True
        have "only_bit s b (set_free (\<lambda>x. x - 1) s1)" by (rule only_bit_kept [OF o1 kept_bookkeeping]) (use cur1 in simp_all)
        moreover have "bitof (set_free (\<lambda>x. x - 1) s1) = bitof s1" using bookkeeping [OF cur1(4), of "set_free (\<lambda>x. x - 1)"] by simp
        ultimately show ?thesis
          using run1 u True o1 b1(2) bit cur1
          by (auto simp: red_simps counters_after_def nxt linorder_not_less split: prod.splits if_splits)
      next
        case nf: False
        obtain r2 s2 where dr: "RedBufferDiscardRange cf b 1 s1 = (r2, s2)" by fastforce
        have fr: "cache_frame s1 s2"
          using presR_snd [OF frame_discard_range, of s1 s1 cf b 1] dr by simp
        have k2: "kept s1 s2"
          using discard_spec [OF cur1(4) _ dr] rng cur1(2) imap_same_frame(1) [OF fr] by (simp add: kept_def)
        have c2: "imap_counters s2 = imap_counters s" using imap_same_frame(2) [OF fr] b1(2) by simp
        have o2: "only_bit s b s2" by (rule only_bit_kept [OF o1 k2])
        have cur2: "bCurMR (gpRedCoreVol s2) = bCurMR (gpRedCoreVol s)" "imap_range s2 = imap_range s"
            "ulFirstAllocableBN (gpRedCoreVol s2) = ulFirstAllocableBN (gpRedCoreVol s)" "inv s2"
          using o2 imap_same_range [of s s2] by (auto simp: only_bit_def imap_same_def)
        have bit2: "bitof s2 (bCurMR (gpRedCoreVol s)) b = f" "bitof s2 (1 - bCurMR (gpRedCoreVol s)) b = bitof s (1 - bCurMR (gpRedCoreVol s)) b"
          using k2 bit old1 rng cur1 cur [OF i] other [OF i] by (auto simp: kept_def)
        show ?thesis
        proof (cases r2)
          case (Inl e)
          then have "r = Inl e \<and> s' = RedVolCriticalError s2" using run1 u nf dr by (simp add: red_simps)
          then show ?thesis using only_bit_kept [OF o2 kept_bookkeeping [OF cur2(4)]] c2 by (simp add: nxt)
        next
          case d: (Inr u2)
          show ?thesis
          proof (cases "b \<ge> ulFirstAllocableBN (gpRedCoreVol s)")
            case False
            then have "r = Inr () \<and> s' = s2" using run1 u nf dr d cur2 by (simp add: red_simps)
            then show ?thesis using o2 c2 bit bit2 False by (auto simp: counters_after_def nxt split: prod.splits)
          next
            case True
            obtain r3 s3 where g: "RedImapBlockGet cf (1 - bCurMR (gpRedCoreVol s2)) b s2 = (r3, s3)" by fastforce
            have k3: "kept s2 s3" "imap_counters s3 = imap_counters s"
              and x3: "\<And>x. r3 = Inr x \<Longrightarrow> x = bitof s (1 - bCurMR (gpRedCoreVol s)) b"
              using get_kept [OF cur2(4) _ _ g] rng cur2 other [OF i] c2 bit2 by auto
            have o3: "only_bit s b s3" by (rule only_bit_kept [OF o2 k3(1)])
            have i3: "inv s3" using o3 by (simp add: only_bit_def)
            have bit3: "bitof s3 (bCurMR (gpRedCoreVol s)) b = f"
              using k3 bit2 rng cur2 cur [OF i] by (auto simp: kept_def)
            have res: "(r, s') = (case r3 of Inl e \<Rightarrow> (Inl e, RedVolCriticalError s3)
                | Inr x \<Rightarrow> (Inr (), if x then set_afree (\<lambda>x. x + 1) s3 else set_free (\<lambda>x. x + 1) s3))"
              using run1 u nf dr d True cur2 g by (auto simp: red_simps split: sum.splits)
            have ok: "only_bit s b (g s3) \<and> bitof (g s3) = bitof s3" if "imap_bookkeeping g" for g
              using only_bit_kept [OF o3 kept_bookkeeping [OF i3 that]] bookkeeping [OF i3 that] by simp
            show ?thesis
            proof (cases r3)
              case (Inl e)
              then show ?thesis using res ok [of RedVolCriticalError] k3(2) by (simp add: nxt)
            next
              case (Inr x)
              then show ?thesis
                using res ok [of "set_afree (\<lambda>x. x + 1)"] ok [of "set_free (\<lambda>x. x + 1)"] x3 [OF Inr] bit bit3 k3(2) True nf
                by (auto simp: counters_after_def nxt linorder_not_less split: prod.splits)
            qed
          qed
        qed
      qed
    qed
  qed
qed

end

end
