(* ===== verification/ImapAlloc.thy ===== *)
theory ImapAlloc
  imports ImapInv
begin

text \<open>
  The free counts and the allocation of blocks, over any implementation of the interface \<open>imap\<close>.
  \<open>imap_counts\<close> says that the counters of the working metaroot count the free and the almost free
  blocks. The locale \<open>imap_reliable\<close> adds that the bits can be read and set without errors, as
  they can in the inline imap; there \<open>RedImapAllocBlock\<close> finds a free block whenever there is one.
\<close>

definition allocable :: "'d redstate \<Rightarrow> u32 \<Rightarrow> bool" where
  "allocable s b \<longleftrightarrow> ulFirstAllocableBN (gpRedCoreVol s) \<le> b \<and> b < ulBlockCount (gpRedVolume s)"

definition imap_counts :: "('d redstate \<Rightarrow> u8 \<Rightarrow> u32 \<Rightarrow> bool) \<Rightarrow> 'd redstate \<Rightarrow> bool" where
  "imap_counts bitof s \<longleftrightarrow>
     ulInodeTableStartBN (gpRedCoreVol s) \<le> ulFirstAllocableBN (gpRedCoreVol s)
     \<and> unat (ulBlocksAllocable (gpRedVolume s)) = card {b. allocable s b}
     \<and> unat (ulFreeBlocks (gpRedMR s)) = card {b. allocable s b \<and> alloc_state bitof s b = ALLOCSTATE_FREE}
     \<and> unat (ulAlmostFreeBlocks (gpRedCoreVol s)) = card {b. allocable s b \<and> alloc_state bitof s b = ALLOCSTATE_AFREE}"

lemma card_blocks: "card (A :: u32 set) < 2 ^ 32 \<or> A = UNIV"
proof (cases "A = UNIV")
  case False
  then have "card A < card (UNIV :: u32 set)" by (intro psubset_card_mono) auto
  then show ?thesis by (simp add: card_word)
qed simp

lemma card_blocks_lt: "card {b. allocable s b \<and> P b} < 2 ^ 32"
proof -
  have "- 1 \<notin> {b. allocable s b \<and> P b}" by (auto simp: allocable_def word_less_nat_alt)
      (metis le_less_trans linorder_not_le order_refl word_le_nat_alt word_n1_ge)
  then show ?thesis using card_blocks [of "{b. allocable s b \<and> P b}"] by blast
qed

lemma allocable_range: "imap_counts bitof s \<Longrightarrow> allocable s b \<Longrightarrow> imap_range s b"
  by (auto simp: imap_counts_def allocable_def imap_range_def)

lemma allocable_same: "imap_same s s' \<Longrightarrow> allocable s' = allocable s"
  by (simp add: imap_same_def allocable_def fun_eq_iff)

lemma counters_sel:
  "ulFreeBlocks (gpRedMR s) = fst (imap_counters s)" "ulAlmostFreeBlocks (gpRedCoreVol s) = fst (snd (imap_counters s))"
  "ulAllocNextBlock (gpRedMR s) = snd (snd (imap_counters s))"
  by (simp_all add: imap_counters_def)

lemma card_insert_blocks:
  fixes b :: u32
  assumes "b \<notin> A" and "B = insert b A" and "unat (n :: u32) = card A" and "card B < 2 ^ 32"
  shows "unat (n + 1) = card B"
  using assms by (simp add: unat_word_ariths card_insert_if)

lemma card_remove_blocks:
  fixes b :: u32
  assumes "b \<in> A" and "B = A - {b}" and "unat (n :: u32) = card A"
  shows "unat (n - 1) = card B"
proof -
  have "0 < card A" using assms(1) by (auto simp: card_gt_0_iff)
  then have "n \<noteq> 0" using assms(3) by auto
  then show ?thesis using assms by (simp add: unat_minus_one)
qed

context imap
begin

lemma counts_kept:
  assumes "inv s" and "imap_counts bitof s" and "kept s s'" and "fst (imap_counters s') = fst (imap_counters s)"
    and "fst (snd (imap_counters s')) = fst (snd (imap_counters s))"
  shows "imap_counts bitof s'"
proof -
  have k: "imap_same s s'" using assms(3) by (simp add: kept_def)
  have "alloc_state bitof s' b = alloc_state bitof s b" if "allocable s b" for b
    using kept_state [OF assms(3,1) allocable_range [OF assms(2) that]] .
  then have "{b. allocable s' b \<and> alloc_state bitof s' b = x} = {b. allocable s b \<and> alloc_state bitof s b = x}" for x
    using allocable_same [OF k] by auto
  then show ?thesis
    using assms(2,4,5) k allocable_same [OF k] by (simp add: imap_counts_def imap_same_def counters_sel)
qed

text \<open>The state of the block that is set, and of the others.\<close>

lemma state_after_set:
  assumes i: "inv s" and b: "imap_range s b" and o: "only_bit s b s'"
    and new: "bitof s' (bCurMR (gpRedCoreVol s)) b = f" and c: "imap_range s c"
  shows "state_of s' c = (if c = b
      then (if bitof s (1 - bCurMR (gpRedCoreVol s)) b
            then (if f then ALLOCSTATE_USED else ALLOCSTATE_AFREE)
            else (if f then ALLOCSTATE_NEW else ALLOCSTATE_FREE))
      else state_of s c)"
proof -
  have e: "bCurMR (gpRedCoreVol s') = bCurMR (gpRedCoreVol s)" using o by (simp add: only_bit_def imap_same_def)
  have ne: "1 - bCurMR (gpRedCoreVol s) \<noteq> bCurMR (gpRedCoreVol s)" using cur [OF i] by auto
  have "bitof s' (1 - bCurMR (gpRedCoreVol s)) c = bitof s (1 - bCurMR (gpRedCoreVol s)) c"
    using o c other [OF i] ne by (auto simp: only_bit_def)
  moreover have "c \<noteq> b \<Longrightarrow> bitof s' (bCurMR (gpRedCoreVol s)) c = bitof s (bCurMR (gpRedCoreVol s)) c"
    using o c cur [OF i] by (auto simp: only_bit_def)
  ultimately show ?thesis using new by (auto simp: alloc_state_def e)
qed

text \<open>
  The transitions: allocating a block that is not in use, freeing one that is. Allocating keeps
  the counts right when the block is free, not when it is almost free, which the driver never does.
\<close>

lemma RedImapBlockSet_counts:
  assumes i: "inv s" and b: "imap_range s b" and cnt: "imap_counts bitof s"
    and run: "RedImapBlockSet cf b f s = (Inr (), s')"
    and free: "f \<Longrightarrow> allocable s b \<Longrightarrow> state_of s b = ALLOCSTATE_FREE"
  shows "imap_counts bitof s' \<and> (\<forall>c. imap_range s c \<longrightarrow> state_of s' c = (if c = b then
      (case state_of s b of ALLOCSTATE_FREE \<Rightarrow> ALLOCSTATE_NEW | ALLOCSTATE_AFREE \<Rightarrow> ALLOCSTATE_USED
       | ALLOCSTATE_NEW \<Rightarrow> ALLOCSTATE_FREE | ALLOCSTATE_USED \<Rightarrow> ALLOCSTATE_AFREE) else state_of s c))"
proof -
  note sp = RedImapBlockSet_spec [OF i b run]
  have o: "only_bit s b s'" and was: "bitof s (bCurMR (gpRedCoreVol s)) b = (\<not> f)"
    and new: "bitof s' (bCurMR (gpRedCoreVol s)) b = f" and ctr: "imap_counters s' = counters_after s b f"
    using sp by auto
  have same: "imap_same s s'" using o by (simp add: only_bit_def)
  note st = state_after_set [OF i b o new]
  have al: "allocable s' = allocable s" by (rule allocable_same [OF same])
  have states: "\<forall>c. imap_range s c \<longrightarrow> state_of s' c = (if c = b then
      (case state_of s b of ALLOCSTATE_FREE \<Rightarrow> ALLOCSTATE_NEW | ALLOCSTATE_AFREE \<Rightarrow> ALLOCSTATE_USED
       | ALLOCSTATE_NEW \<Rightarrow> ALLOCSTATE_FREE | ALLOCSTATE_USED \<Rightarrow> ALLOCSTATE_AFREE) else state_of s c)"
    using st was by (auto simp: alloc_state_def)
  let ?F = "{c. allocable s c \<and> state_of s c = ALLOCSTATE_FREE}" and ?A = "{c. allocable s c \<and> state_of s c = ALLOCSTATE_AFREE}"
  let ?F' = "{c. allocable s' c \<and> state_of s' c = ALLOCSTATE_FREE}" and ?A' = "{c. allocable s' c \<and> state_of s' c = ALLOCSTATE_AFREE}"
  have rng: "allocable s c \<Longrightarrow> imap_range s c" for c by (rule allocable_range [OF cnt])
  have stp: "state_of s' c = (if c = b then (case state_of s b of ALLOCSTATE_FREE \<Rightarrow> ALLOCSTATE_NEW
       | ALLOCSTATE_AFREE \<Rightarrow> ALLOCSTATE_USED | ALLOCSTATE_NEW \<Rightarrow> ALLOCSTATE_FREE
       | ALLOCSTATE_USED \<Rightarrow> ALLOCSTATE_AFREE) else state_of s c)" if "allocable s c" for c
    using states rng [OF that] by blast
  obtain free afree nxt where c0: "imap_counters s = (free, afree, nxt)" by (metis prod_cases3)
  have old: "unat free = card ?F" "unat afree = card ?A"
    using cnt c0 by (simp_all add: imap_counts_def counters_sel)
  have "unat (fst (imap_counters s')) = card ?F' \<and> unat (fst (snd (imap_counters s'))) = card ?A'"
  proof (cases "allocable s b")
    case False
    then have "state_of s' c = state_of s c" if "allocable s c" for c
      using stp that by auto
    then have "?F' = ?F" "?A' = ?A" using al by auto
    moreover have "imap_counters s' = imap_counters s"
      using False b ctr c0 by (auto simp: counters_after_def allocable_def imap_range_def)
    ultimately show ?thesis using old c0 by simp
  next
    case True
    have nf: "\<not> b < ulFirstAllocableBN (gpRedCoreVol s)" using True by (simp add: allocable_def linorder_not_less)
    consider (alloc) "f" "state_of s b = ALLOCSTATE_FREE"
      | (new) "\<not> f" "state_of s b = ALLOCSTATE_NEW" "\<not> bitof s (1 - bCurMR (gpRedCoreVol s)) b"
      | (used) "\<not> f" "state_of s b = ALLOCSTATE_USED" "bitof s (1 - bCurMR (gpRedCoreVol s)) b"
      using free True was by (auto simp: alloc_state_def)
    then show ?thesis
    proof cases
      case alloc
      have f: "?F' = ?F - {b}" "?A' = ?A" "b \<in> ?F" using al True alloc by (auto simp: stp split: if_splits)
      have "imap_counters s' = (free - 1, afree, nxt)" using ctr alloc nf by (simp add: counters_after_def c0)
      then show ?thesis using card_remove_blocks [OF f(3,1) old(1)] f(2) old(2) by simp
    next
      case new
      have f: "?F' = insert b ?F" "b \<notin> ?F" "?A' = ?A" using al True new by (auto simp: stp split: if_splits)
      have "imap_counters s' = (free + 1, afree, nxt)" using ctr new nf by (simp add: counters_after_def c0)
      then show ?thesis using card_insert_blocks [OF f(2,1) old(1) card_blocks_lt] f(3) old(2) by simp
    next
      case used
      have f: "?A' = insert b ?A" "b \<notin> ?A" "?F' = ?F" using al True used by (auto simp: stp split: if_splits)
      have "imap_counters s' = (free, afree + 1, nxt)" using ctr used nf by (simp add: counters_after_def c0)
      then show ?thesis using card_insert_blocks [OF f(2,1) old(2) card_blocks_lt] f(3) old(1) by simp
    qed
  qed
  then show ?thesis using states cnt same al by (simp add: imap_counts_def counters_sel imap_same_def)
qed

end

section \<open>Looking for a free block\<close>

definition next_block :: "'d redstate \<Rightarrow> u32 \<Rightarrow> u32" where
  "next_block s b =
     (if b + 1 = ulBlockCount (gpRedVolume s) then ulFirstAllocableBN (gpRedCoreVol s) else b + 1)"

lemma upd_core_upd_core: "upd_core f (upd_core g s) = upd_core (\<lambda>c. f (g c)) s"
  by (simp add: upd_core_def gpRedCoreVol_def)

lemma upd_mr_upd_mr: "upd_mr f (upd_mr g s) = upd_mr (\<lambda>m. f (g m)) s"
  by (simp add: upd_mr_def upd_core_upd_core)

lemma upd_mr_cong: "f (gpRedMR s) = g (gpRedMR s) \<Longrightarrow> upd_mr f s = upd_mr g s"
  by (simp add: upd_mr_def upd_core_def gpRedMR_def)

lemma alloc_next_eq: "alloc_next s = set_next (next_block s) s"
  unfolding alloc_next_def Let_def set_next_def upd_mr_upd_mr
  by (auto simp: next_block_def st_simps intro!: upd_mr_cong)

lemma next_block_allocable:
  assumes "allocable s b"
  shows "allocable s (next_block s b)"
proof -
  have lt: "unat b < unat (ulBlockCount (gpRedVolume s))" "ulFirstAllocableBN (gpRedCoreVol s) \<le> b"
    using assms by (simp_all add: allocable_def word_less_nat_alt)
  then have u: "unat (b + 1) = unat b + 1"
    using unsigned_less [of "ulBlockCount (gpRedVolume s)", where ?'a = nat] by (simp add: unat_word_ariths)
  have "allocable s (b + 1)" if "b + 1 \<noteq> ulBlockCount (gpRedVolume s)"
  proof -
    have "unat (b + 1) \<noteq> unat (ulBlockCount (gpRedVolume s))" using that by (simp flip: word_unat_eq_iff)
    then show ?thesis using lt u by (simp add: allocable_def word_less_nat_alt word_le_nat_alt)
  qed
  moreover have "ulFirstAllocableBN (gpRedCoreVol s) < ulBlockCount (gpRedVolume s)"
    using assms by (auto simp: allocable_def)
  ultimately show ?thesis by (auto simp: next_block_def allocable_def)
qed

text \<open>Every allocable block is reached.\<close>

lemma next_block_reaches_up:
  assumes "unat c = unat b + k" and "c < ulBlockCount (gpRedVolume s)"
  shows "(next_block s ^^ k) b = c"
  using assms
proof (induction k arbitrary: c)
  case 0
  then show ?case by (simp add: word_unat_eq_iff)
next
  case (Suc k)
  have u: "unat (c - 1) = unat b + k" using Suc.prems(1) by (cases "c = 0") (auto simp: unat_minus_one)
  have "c - 1 < ulBlockCount (gpRedVolume s)" using u Suc.prems by (simp add: word_less_nat_alt)
  then have "(next_block s ^^ k) b = c - 1" using Suc.IH [OF u] by simp
  then have "(next_block s ^^ Suc k) b = next_block s (c - 1)" by simp
  also have "next_block s (c - 1) = c" using Suc.prems(2) by (auto simp: next_block_def)
  finally show ?case .
qed

lemma next_block_reaches:
  assumes "allocable s b" and "allocable s c"
  shows "\<exists>k. (next_block s ^^ k) b = c"
proof (cases "unat b \<le> unat c")
  case True
  then show ?thesis
    using next_block_reaches_up [of c b "unat c - unat b" s] assms(2) by (auto simp: allocable_def)
next
  case False
  let ?n = "ulBlockCount (gpRedVolume s)" and ?f = "ulFirstAllocableBN (gpRedCoreVol s)"
  have n0: "?n \<noteq> 0" using assms(1) by (auto simp: allocable_def word_less_nat_alt)
  then have n: "unat (?n - 1) = unat ?n - 1" "0 < unat ?n" by (simp_all add: unat_minus_one unat_gt_0)
  have "(next_block s ^^ (unat ?n - 1 - unat b)) b = ?n - 1"
    by (rule next_block_reaches_up) (use assms(1) n in \<open>simp_all add: allocable_def word_less_nat_alt\<close>)
  then have f: "(next_block s ^^ Suc (unat ?n - 1 - unat b)) b = ?f" by (simp add: next_block_def)
  have "(next_block s ^^ (unat c - unat ?f)) ?f = c"
    by (rule next_block_reaches_up) (use assms(2) in \<open>simp_all add: allocable_def word_le_nat_alt\<close>)
  then have "(next_block s ^^ ((unat c - unat ?f) + Suc (unat ?n - 1 - unat b))) b = c"
    unfolding funpow_add comp_apply f .
  then show ?thesis ..
qed

section \<open>Allocating a block\<close>

locale imap_reliable = imap +
  assumes get_ok: "\<lbrakk>inv s; imap_range s b; m = 0 \<or> m = 1\<rbrakk> \<Longrightarrow> \<exists>x. fst (RedImapBlockGet cf m b s) = Inr x"
    and set_ok: "\<lbrakk>inv s; imap_range s b; bitof s (bCurMR (gpRedCoreVol s)) b \<noteq> f\<rbrakk> \<Longrightarrow>
      fst (imap_block_set cf b f s) = Inr ()"
begin

lemma RedImapBlockState_ok:
  assumes "inv s" and "imap_range s b"
  shows "\<exists>s'. RedImapBlockState cf b s = (Inr (state_of s b), s') \<and> kept s s' \<and> imap_counters s' = imap_counters s"
proof -
  obtain x1 s1 where g1: "RedImapBlockGet cf (bCurMR (gpRedCoreVol s)) b s = (Inr x1, s1)"
    using get_ok [OF assms cur [OF assms(1)]] by (metis prod.collapse)
  note k1 = get_kept [OF assms cur [OF assms(1)] g1]
  have i1: "inv s1" "imap_range s1 b" using k1 assms(2) imap_same_range [of s s1] by (auto simp: kept_def)
  obtain x2 s2 where g2: "RedImapBlockGet cf (1 - bCurMR (gpRedCoreVol s1)) b s1 = (Inr x2, s2)"
    using get_ok [OF i1 other [OF i1(1)]] by (metis prod.collapse)
  obtain r s' where run: "RedImapBlockState cf b s = (r, s')" by fastforce
  have "\<exists>x. r = Inr x" using run assms(2) g1 g2 by (auto simp: RedImapBlockState_def red_simps)
  then show ?thesis using RedImapBlockState_spec [OF assms run] run by auto
qed

text \<open>Allocating a free block succeeds.\<close>

lemma RedImapBlockSet_alloc_ok:
  assumes i: "inv s" and b: "imap_range s b" and free: "bitof s (bCurMR (gpRedCoreVol s)) b = False"
    and some: "ulFreeBlocks (gpRedMR s) \<noteq> 0"
  shows "fst (RedImapBlockSet cf b True s) = Inr ()"
proof -
  have "fst (imap_block_set cf b True s) = Inr ()" using set_ok [OF i b, of True] free by simp
  then obtain s1 where "imap_block_set cf b True s = (Inr (), s1)" by (metis prod.collapse)
  then show ?thesis using b some by (simp add: RedImapBlockSet_def red_simps)
qed

lemma free_count_pos:
  assumes "imap_counts bitof s" and "allocable s b" and "state_of s b = ALLOCSTATE_FREE"
  shows "ulFreeBlocks (gpRedMR s) \<noteq> 0"
proof -
  have "{b. allocable s b \<and> state_of s b = ALLOCSTATE_FREE} \<noteq> {}" using assms by blast
  then have "0 < unat (ulFreeBlocks (gpRedMR s))" using assms(1) by (simp add: imap_counts_def card_gt_0_iff)
  then show ?thesis by auto
qed

lemma alloc_try_spec:
  assumes i: "inv s" and cnt: "imap_counts bitof s" and al: "allocable s (ulAllocNextBlock (gpRedMR s))"
  defines "b \<equiv> ulAllocNextBlock (gpRedMR s)"
  shows "(\<exists>s'. alloc_try cf s = ((if state_of s b = ALLOCSTATE_FREE then Inr (Some b) else Inr None), s')
    \<and> inv s' \<and> imap_same s s' \<and> imap_counts bitof s' \<and> ulAllocNextBlock (gpRedMR s') = next_block s b
    \<and> (\<forall>c. imap_range s c \<longrightarrow> state_of s' c =
         (if c = b \<and> state_of s b = ALLOCSTATE_FREE then ALLOCSTATE_NEW else state_of s c)))"
proof -
  have rng: "imap_range s b" using allocable_range [OF cnt al] by (simp add: b_def)
  obtain s1 where st: "RedImapBlockState cf b s = (Inr (state_of s b), s1)" and k1: "kept s s1"
    and c1: "imap_counters s1 = imap_counters s" using RedImapBlockState_ok [OF i rng] by blast
  have i1: "inv s1" and n1: "ulAllocNextBlock (gpRedMR s1) = b" and same1: "imap_same s s1"
    using k1 c1 by (simp_all add: kept_def counters_sel b_def)
  have rng1: "imap_range s1 = imap_range s" by (rule imap_same_range [OF same1])
  have cnt1: "imap_counts bitof s1" by (rule counts_kept [OF i cnt k1]) (simp_all add: c1)
  have al1: "allocable s1 b" using al allocable_same [OF same1] by (simp add: b_def)
  have st1: "imap_range s c \<Longrightarrow> state_of s1 c = state_of s c" for c by (rule kept_state [OF k1 i])
  have fin: "inv (alloc_next t) \<and> imap_same s (alloc_next t) \<and> imap_counts bitof (alloc_next t)
      \<and> ulAllocNextBlock (gpRedMR (alloc_next t)) = next_block s b
      \<and> (\<forall>c. imap_range s c \<longrightarrow> state_of (alloc_next t) c = state_of t c)"
    if t: "inv t" "imap_same s t" "imap_counts bitof t" "ulAllocNextBlock (gpRedMR t) = b" for t
  proof -
    have k: "kept t (alloc_next t)" unfolding alloc_next_eq by (rule kept_bookkeeping [OF t(1)]) simp
    have c: "imap_counters (alloc_next t) = (case imap_counters t of (x, y, z) \<Rightarrow> (x, y, next_block t z))"
      unfolding alloc_next_eq by simp
    have "next_block t b = next_block s b" using t(2) by (simp add: next_block_def imap_same_def)
    then have "ulAllocNextBlock (gpRedMR (alloc_next t)) = next_block s b"
      using t(4) c by (auto simp: counters_sel split: prod.splits)
    moreover have "imap_counts bitof (alloc_next t)"
      by (rule counts_kept [OF t(1,3) k]) (auto simp: c split: prod.splits)
    ultimately show ?thesis
      using k t(2) kept_state [OF k t(1)] imap_same_range [OF t(2)] by (auto simp: kept_def intro: imap_same_trans)
  qed
  show ?thesis
  proof (cases "state_of s b = ALLOCSTATE_FREE")
    case False
    have "alloc_try cf s = (Inr None, alloc_next s1)"
      using st False by (simp add: alloc_try_def red_simps b_def)
    then show ?thesis using fin [OF i1 same1 cnt1 n1] False st1 by (intro exI [of _ "alloc_next s1"]) simp
  next
    case True
    have f1: "state_of s1 b = ALLOCSTATE_FREE" using True st1 [OF rng] by simp
    have bit: "bitof s1 (bCurMR (gpRedCoreVol s1)) b = False"
      using f1 by (auto simp: alloc_state_def split: if_splits)
    have r1: "imap_range s1 b" using rng rng1 by simp
    obtain s2 where set: "RedImapBlockSet cf b True s1 = (Inr (), s2)"
      using RedImapBlockSet_alloc_ok [OF i1 r1 bit free_count_pos [OF cnt1 al1 f1]] by (metis prod.collapse)
    note sp = RedImapBlockSet_spec [OF i1 r1 set]
    note cn = RedImapBlockSet_counts [OF i1 r1 cnt1 set f1]
    have t2: "inv s2" "imap_same s s2" "ulAllocNextBlock (gpRedMR s2) = b"
      using sp same1 n1 by (auto simp: only_bit_def intro: imap_same_trans)
    have "alloc_try cf s = (Inr (Some b), alloc_next s2)"
      using st True set n1 t2(3) by (simp add: alloc_try_def red_simps b_def)
    then show ?thesis
      using fin [OF t2(1,2) _ t2(3)] cn True st1 f1 rng1 by (intro exI [of _ "alloc_next s2"]) simp
  qed
qed

lemma next_block_same: "imap_same s s' \<Longrightarrow> next_block s' = next_block s"
  by (simp add: next_block_def imap_same_def fun_eq_iff)

lemma next_block_pow_allocable: "allocable s b \<Longrightarrow> allocable s ((next_block s ^^ k) b)"
  by (induction k) (auto intro: next_block_allocable)

lemma alloc_loop_spec:
  assumes "inv s" and "imap_counts bitof s" and "ulAllocNextBlock (gpRedMR s) = b" and "allocable s b"
    and "state_of s ((next_block s ^^ k) b) = ALLOCSTATE_FREE"
    and "\<forall>j < k. state_of s ((next_block s ^^ j) b) \<noteq> ALLOCSTATE_FREE"
    and "\<forall>j. 0 < j \<and> j \<le> k \<longrightarrow> (next_block s ^^ j) b \<noteq> stop"
  shows "\<exists>s'. alloc_loop cf stop s = Some (Inr ((next_block s ^^ k) b), s') \<and> inv s' \<and> imap_same s s'
    \<and> imap_counts bitof s' \<and> ulAllocNextBlock (gpRedMR s') = (next_block s ^^ Suc k) b
    \<and> (\<forall>c. imap_range s c \<longrightarrow> state_of s' c =
         (if c = (next_block s ^^ k) b then ALLOCSTATE_NEW else state_of s c))"
  using assms
proof (induction k arbitrary: s b)
  case 0
  note t = alloc_try_spec [OF 0(1,2), unfolded 0(3), OF 0(4)]
  have f: "state_of s b = ALLOCSTATE_FREE" using 0(5) by simp
  obtain s' where s': "alloc_try cf s = (Inr (Some b), s')" "inv s'" "imap_same s s'" "imap_counts bitof s'"
      "ulAllocNextBlock (gpRedMR s') = next_block s b"
      "\<forall>c. imap_range s c \<longrightarrow> state_of s' c = (if c = b then ALLOCSTATE_NEW else state_of s c)"
    using t unfolding f by auto
  have "alloc_loop cf stop s = Some (Inr b, s')" by (subst alloc_loop.simps) (simp add: s'(1))
  then show ?case using s' by auto
next
  case (Suc k)
  note t = alloc_try_spec [OF Suc.prems(1,2), unfolded Suc.prems(3), OF Suc.prems(4)]
  have f: "state_of s b \<noteq> ALLOCSTATE_FREE" using Suc.prems(6) by (metis funpow_0 zero_less_Suc)
  obtain s1 where s1: "alloc_try cf s = (Inr None, s1)" "inv s1" "imap_same s s1" "imap_counts bitof s1"
      "ulAllocNextBlock (gpRedMR s1) = next_block s b" "\<forall>c. imap_range s c \<longrightarrow> state_of s1 c = state_of s c"
    using t f by auto
  have nb: "next_block s1 = next_block s" and al: "allocable s1 = allocable s" and rng: "imap_range s1 = imap_range s"
    using next_block_same allocable_same imap_same_range s1(3) by auto
  have pow: "(next_block s1 ^^ j) (next_block s b) = (next_block s ^^ Suc j) b" for j
    by (simp add: nb funpow_swap1)
  have a1: "allocable s1 (next_block s b)" unfolding al by (rule next_block_allocable [OF Suc.prems(4)])
  have st: "state_of s1 ((next_block s ^^ j) b) = state_of s ((next_block s ^^ j) b)" for j
    using s1(6) allocable_range [OF Suc.prems(2) next_block_pow_allocable [OF Suc.prems(4)]] by blast
  have "next_block s b \<noteq> stop" using Suc.prems(7) [rule_format, of 1] by simp
  then have unf: "alloc_loop cf stop s = alloc_loop cf stop s1"
    by (subst alloc_loop.simps) (simp add: s1(1,5))
  have "\<exists>s'. alloc_loop cf stop s1 = Some (Inr ((next_block s1 ^^ k) (next_block s b)), s') \<and> inv s' \<and> imap_same s1 s'
      \<and> imap_counts bitof s' \<and> ulAllocNextBlock (gpRedMR s') = (next_block s1 ^^ Suc k) (next_block s b)
      \<and> (\<forall>c. imap_range s1 c \<longrightarrow> state_of s' c =
           (if c = (next_block s1 ^^ k) (next_block s b) then ALLOCSTATE_NEW else state_of s1 c))"
  proof (rule Suc.IH [OF s1(2,4,5) a1])
    show "state_of s1 ((next_block s1 ^^ k) (next_block s b)) = ALLOCSTATE_FREE"
      unfolding pow st by (rule Suc.prems(5))
    show "\<forall>j < k. state_of s1 ((next_block s1 ^^ j) (next_block s b)) \<noteq> ALLOCSTATE_FREE"
      unfolding pow st using Suc.prems(6) by (metis Suc_mono)
    show "\<forall>j. 0 < j \<and> j \<le> k \<longrightarrow> (next_block s1 ^^ j) (next_block s b) \<noteq> stop"
      unfolding pow using Suc.prems(7) by (metis Suc_le_mono zero_less_Suc)
  qed
  then obtain s' where s': "alloc_loop cf stop s1 = Some (Inr ((next_block s ^^ Suc k) b), s')" "inv s'" "imap_same s1 s'"
      "imap_counts bitof s'" "ulAllocNextBlock (gpRedMR s') = (next_block s ^^ Suc (Suc k)) b"
      "\<forall>c. imap_range s c \<longrightarrow> state_of s' c = (if c = (next_block s ^^ Suc k) b then ALLOCSTATE_NEW else state_of s1 c)"
    unfolding pow rng by blast
  then show ?case
    using unf s1(3,6) by (intro exI [of _ s']) (auto intro: imap_same_trans simp del: funpow.simps)
qed

text \<open>
  \<open>RedImapAllocBlock\<close> with accurate counts: the allocation fails with \<open>RED_ENOSPC\<close> exactly when no
  block is free, and otherwise takes the first free block at or after the allocation pointer.
\<close>

lemma RedImapAllocBlock_spec:
  assumes i: "inv s" and cnt: "imap_counts bitof s" and al: "allocable s (ulAllocNextBlock (gpRedMR s))"
  shows "if \<exists>c. allocable s c \<and> state_of s c = ALLOCSTATE_FREE
    then \<exists>b s'. RedImapAllocBlock cf s = (Inr b, s') \<and> allocable s b \<and> state_of s b = ALLOCSTATE_FREE
      \<and> inv s' \<and> imap_same s s' \<and> imap_counts bitof s' \<and> allocable s' (ulAllocNextBlock (gpRedMR s'))
      \<and> (\<forall>c. imap_range s c \<longrightarrow> state_of s' c = (if c = b then ALLOCSTATE_NEW else state_of s c))
    else RedImapAllocBlock cf s = (Inl RED_ENOSPC, s)"
proof (cases "\<exists>c. allocable s c \<and> state_of s c = ALLOCSTATE_FREE")
  case False
  then have "{b. allocable s b \<and> state_of s b = ALLOCSTATE_FREE} = {}" by blast
  then have "unat (ulFreeBlocks (gpRedMR s)) = 0" using cnt by (simp add: imap_counts_def)
  then have "ulFreeBlocks (gpRedMR s) = 0" by (simp add: unat_eq_zero)
  then show ?thesis using False by (simp add: RedImapAllocBlock_def)
next
  case True
  then obtain c where c: "allocable s c" "state_of s c = ALLOCSTATE_FREE" by blast
  let ?n = "ulAllocNextBlock (gpRedMR s)"
  let ?P = "\<lambda>k. state_of s ((next_block s ^^ k) ?n) = ALLOCSTATE_FREE"
  obtain k0 where "?P k0" using next_block_reaches [OF al c(1)] c(2) by auto
  then have k: "?P (LEAST k. ?P k)" and least: "\<And>j. j < (LEAST k. ?P k) \<Longrightarrow> \<not> ?P j"
    by (rule LeastI) (rule not_less_Least)
  define k where "k = (LEAST k. ?P k)"
  have "(next_block s ^^ j) ?n \<noteq> ?n" if "0 < j" "j \<le> k" for j
  proof
    assume e: "(next_block s ^^ j) ?n = ?n"
    have "(next_block s ^^ k) ?n = (next_block s ^^ (k - j)) ((next_block s ^^ j) ?n)"
      using that by (simp flip: funpow_add [THEN fun_cong, unfolded comp_def])
    then have "?P (k - j)" using k e by (simp add: k_def)
    then show False using least [of "k - j"] that by (simp add: k_def)
  qed
  then obtain s' where s': "alloc_loop cf ?n s = Some (Inr ((next_block s ^^ k) ?n), s')" "inv s'" "imap_same s s'"
      "imap_counts bitof s'" "ulAllocNextBlock (gpRedMR s') = (next_block s ^^ Suc k) ?n"
      "\<forall>c. imap_range s c \<longrightarrow> state_of s' c = (if c = (next_block s ^^ k) ?n then ALLOCSTATE_NEW else state_of s c)"
    using alloc_loop_spec [OF i cnt refl al, of k ?n] k least unfolding k_def by blast
  have "RedImapAllocBlock cf s = (Inr ((next_block s ^^ k) ?n), s')"
    using free_count_pos [OF cnt c] s'(1) by (simp add: RedImapAllocBlock_def)
  moreover have "allocable s' (ulAllocNextBlock (gpRedMR s'))"
    unfolding s'(5) allocable_same [OF s'(3)] by (rule next_block_pow_allocable [OF al])
  ultimately show ?thesis
    using True s' k next_block_pow_allocable [OF al, of k]
    by (simp only: if_True) (intro exI [of _ "(next_block s ^^ k) ?n"] exI [of _ s'], simp add: k_def)
qed

end

end
