(* ===== verification/ImapInline.thy ===== *)
theory ImapInline
  imports ImapAlloc
begin

text \<open>
  The inline imap implements the interface \<open>imap_reliable\<close>: the bits are those of the bitmaps of
  the two metaroots.
\<close>

definition inline_bit :: "'d redstate \<Rightarrow> u8 \<Rightarrow> u32 \<Rightarrow> bool" where
  "inline_bit s m b =
     RedBitGet (abEntries (aMR (gpRedCoreVol s) m)) (b - ulInodeTableStartBN (gpRedCoreVol s))"

definition inline_inv :: "'d redconf \<Rightarrow> 'd redstate \<Rightarrow> bool" where
  "inline_inv cf s \<longleftrightarrow> REDCONF_IMAP_INLINE cf \<and> fImapInline (gpRedCoreVol s)
     \<and> (bCurMR (gpRedCoreVol s) = 0 \<or> bCurMR (gpRedCoreVol s) = 1)
     \<and> (\<forall>m. m = 0 \<or> m = 1 \<longrightarrow> unat (ulBlockCount (gpRedVolume s))
          \<le> unat (ulInodeTableStartBN (gpRedCoreVol s)) + 8 * length (abEntries (aMR (gpRedCoreVol s) m)))"

lemma inline_covers:
  assumes "inline_inv cf s" and "imap_range s b" and "m = 0 \<or> m = 1"
  shows "unat (b - ulInodeTableStartBN (gpRedCoreVol s)) div 8 < length (abEntries (aMR (gpRedCoreVol s) m))"
proof -
  have "unat (b - ulInodeTableStartBN (gpRedCoreVol s)) = unat b - unat (ulInodeTableStartBN (gpRedCoreVol s))"
    "unat (ulInodeTableStartBN (gpRedCoreVol s)) \<le> unat b" "unat b < unat (ulBlockCount (gpRedVolume s))"
    using assms(2) by (auto simp: imap_range_def unat_sub_if' word_less_nat_alt word_le_nat_alt)
  moreover have "unat (ulBlockCount (gpRedVolume s)) \<le> unat (ulInodeTableStartBN (gpRedCoreVol s))
      + 8 * length (abEntries (aMR (gpRedCoreVol s) m))" using assms(1,3) by (auto simp: inline_inv_def)
  ultimately show ?thesis by linarith
qed

lemma inline_get:
  assumes "inline_inv cf s" and "imap_range s b" and "m = 0 \<or> m = 1"
  shows "RedImapBlockGet cf m b s = (Inr (inline_bit s m b), s)"
proof -
  have "\<not> m > 1" using assms(3) by (elim disjE) simp_all
  then show ?thesis
    using assms(1,2) by (simp add: RedImapBlockGet_def RedImapIBlockGet_def red_simps inline_inv_def inline_bit_def)
qed

lemma inline_set:
  assumes "inline_inv cf s" and "imap_range s b"
  shows "imap_block_set cf b f s =
    (if inline_bit s (bCurMR (gpRedCoreVol s)) b = f then (Inl RED_EFUBAR, RedVolCriticalError s)
     else (Inr (), upd_mr (\<lambda>m. m\<lparr>abEntries :=
        (if f then RedBitSet (abEntries m) (b - ulInodeTableStartBN (gpRedCoreVol s))
         else RedBitClear (abEntries m) (b - ulInodeTableStartBN (gpRedCoreVol s)))\<rparr>) s))"
  using assms
  by (auto simp: imap_block_set_def RedImapIBlockSet_def red_simps inline_inv_def inline_bit_def gpRedMR_def Let_def)

lemma inline_bit_set:
  assumes "inline_inv cf s" and "imap_range s b" and "imap_range s c" and "m = 0 \<or> m = 1"
    and "s' = upd_mr (\<lambda>m. m\<lparr>abEntries :=
        (if f then RedBitSet (abEntries m) (b - ulInodeTableStartBN (gpRedCoreVol s))
         else RedBitClear (abEntries m) (b - ulInodeTableStartBN (gpRedCoreVol s)))\<rparr>) s"
  shows "inline_bit s' m c = (if m = bCurMR (gpRedCoreVol s) \<and> c = b then f else inline_bit s m c)"
proof -
  have eq: "c - ulInodeTableStartBN (gpRedCoreVol s) = b - ulInodeTableStartBN (gpRedCoreVol s) \<longleftrightarrow> c = b" by simp
  have cur: "bCurMR (gpRedCoreVol s) = 0 \<or> bCurMR (gpRedCoreVol s) = 1" using assms(1) by (simp add: inline_inv_def)
  note cov = inline_covers [OF assms(1,2) cur]
  show ?thesis
    using cov by (auto simp: inline_bit_def assms(5) st_simps gpRedMR_def RedBitSet_get RedBitClear_get eq)
qed

lemma inline_same:
  "gpRedCoreVol s' = gpRedCoreVol s \<Longrightarrow> inline_bit s' = inline_bit s"
  "gpRedCoreVol s' = gpRedCoreVol s \<Longrightarrow> ulBlockCount (gpRedVolume s') = ulBlockCount (gpRedVolume s) \<Longrightarrow>
    inline_inv cf s' = inline_inv cf s"
  by (simp_all add: inline_bit_def inline_inv_def fun_eq_iff)

lemma bookkeeping_entries:
  "imap_bookkeeping g \<Longrightarrow> abEntries (aMR (gpRedCoreVol (g s)) m) = abEntries (aMR (gpRedCoreVol s) m)
    \<and> fImapInline (gpRedCoreVol (g s)) = fImapInline (gpRedCoreVol s)"
  by (cases "m = bCurMR (gpRedCoreVol s)") (auto simp: imap_bookkeeping_def counter_defs st_simps gpRedMR_def)

lemma inline_bookkeeping:
  assumes "imap_bookkeeping g"
  shows "inline_bit (g s) = inline_bit s \<and> inline_inv cf (g s) = inline_inv cf s"
  using bookkeeping_same [OF assms, of s] bookkeeping_entries [OF assms, of s]
  by (simp add: inline_bit_def inline_inv_def fun_eq_iff imap_same_def)

interpretation inline: imap_reliable cf "inline_inv cf" inline_bit for cf
proof
  fix s :: "'a redstate" and b m and r :: "red_err + bool" and s'
  assume i: "inline_inv cf s" and b: "imap_range s b" and m: "m = 0 \<or> m = 1"
    and run: "RedImapBlockGet cf m b s = (r, s')"
  show "inline_inv cf s' \<and> imap_same s s' \<and> imap_counters s' = imap_counters s
      \<and> (\<forall>m b. (m = 0 \<or> m = 1) \<and> imap_range s b \<longrightarrow> inline_bit s' m b = inline_bit s m b)
      \<and> (\<forall>x. r = Inr x \<longrightarrow> x = inline_bit s m b)"
    using run i by (auto simp: inline_get [OF i b m])
next
  fix s :: "'a redstate" and b f and r :: "red_err + unit" and s'
  assume i: "inline_inv cf s" and b: "imap_range s b" and run: "imap_block_set cf b f s = (r, s')"
  show "inline_inv cf s' \<and> imap_same s s' \<and> imap_counters s' = imap_counters s
      \<and> (\<forall>m c. (m = 0 \<or> m = 1) \<and> imap_range s c \<longrightarrow> inline_bit s' m c =
           (if r = Inr () \<and> m = bCurMR (gpRedCoreVol s) \<and> c = b then f else inline_bit s m c))
      \<and> (r = Inr () \<longrightarrow> inline_bit s (bCurMR (gpRedCoreVol s)) b \<noteq> f)"
  proof (cases "inline_bit s (bCurMR (gpRedCoreVol s)) b = f")
    case True
    then show ?thesis
      using run i bookkeeping_same [of RedVolCriticalError s] inline_bookkeeping [of RedVolCriticalError s cf]
      by (auto simp: inline_set [OF i b])
  next
    case False
    define g where "g = upd_mr (\<lambda>m. m\<lparr>abEntries :=
        (if f then RedBitSet (abEntries m) (b - ulInodeTableStartBN (gpRedCoreVol s))
         else RedBitClear (abEntries m) (b - ulInodeTableStartBN (gpRedCoreVol s)))\<rparr>) s"
    have s': "s' = g" and r: "r = Inr ()" using run False by (simp_all add: inline_set [OF i b] g_def)
    have "inline_inv cf g" using i by (auto simp: g_def inline_inv_def st_simps gpRedMR_def)
    moreover have "imap_same s g \<and> imap_counters g = imap_counters s"
      by (simp add: g_def imap_same_def imap_counters_def st_simps)
    ultimately show ?thesis
      using inline_bit_set [OF i b _ _ g_def] False by (auto simp: s' r)
  qed
next
  fix s :: "'a redstate" and b and r :: "red_err + unit" and s'
  assume i: "inline_inv cf s" and run: "RedBufferDiscardRange cf b 1 s = (r, s')"
  have fr: "cache_frame s s'" using presR_snd [OF frame_discard_range, of s s cf b 1] run by simp
  have "ulBlockCount (gpRedVolume s') = ulBlockCount (gpRedVolume s)"
    using imap_same_frame(1) [OF fr] by (simp add: imap_same_def)
  then show "inline_inv cf s' \<and> (\<forall>m c. (m = 0 \<or> m = 1) \<and> imap_range s c \<longrightarrow> inline_bit s' m c = inline_bit s m c)"
    using i imap_same_frame(3) [OF fr] inline_same [of s' s] by simp
next
  fix s :: "'a redstate" and b :: u32 and m :: u8
  assume "inline_inv cf s" and "imap_range s b" and "m = 0 \<or> m = 1"
  then show "\<exists>x. fst (RedImapBlockGet cf m b s) = Inr x" by (simp add: inline_get)
next
  fix s :: "'a redstate" and b f
  assume "inline_inv cf s" and "imap_range s b" and "inline_bit s (bCurMR (gpRedCoreVol s)) b \<noteq> f"
  then show "fst (imap_block_set cf b f s) = Inr ()" by (simp add: inline_set)
next
  fix s :: "'a redstate"
  assume "inline_inv cf s"
  then show "bCurMR (gpRedCoreVol s) = 0 \<or> bCurMR (gpRedCoreVol s) = 1" by (simp add: inline_inv_def)
next
  fix s :: "'a redstate" and g :: "'a redstate \<Rightarrow> 'a redstate"
  assume "inline_inv cf s" and g: "imap_bookkeeping g"
  then show "inline_inv cf (g s) \<and> inline_bit (g s) = inline_bit s" using inline_bookkeeping [OF g] by simp
qed

end
