(* ===== verification/ImapCorrect.thy ===== *)
theory ImapCorrect
  imports ImapInline Samples
begin

text \<open>
  Correctness of the imap on volumes with an inline imap: the states of the blocks and the moves
  between them, the free counts, the allocation of blocks, and that the committed state is never
  touched.
\<close>

section \<open>A sample volume with free blocks\<close>

lemma sample_mr_bits: "unat b < 1792 \<Longrightarrow> RedBitGet (abEntries sample_mr) b = False"
  by (simp add: RedBitGet_bit sample_mr_def)

lemma sample_inline: "inline_inv sample_cf sample_state"
  by (simp add: inline_inv_def gpRedCoreVol_def gpRedVolume_def sample_defs)

lemma sample_range: "imap_range sample_state b \<longleftrightarrow> 3 \<le> b \<and> b < 24"
  by (simp add: imap_range_def gpRedCoreVol_def gpRedVolume_def sample_defs linorder_not_less linorder_not_le)

lemma sample_allocable: "allocable sample_state b \<longleftrightarrow> 19 \<le> b \<and> b < 24"
  by (simp add: allocable_def gpRedCoreVol_def gpRedVolume_def sample_defs)

lemma sample_alloc_state:
  assumes "3 \<le> b" and "b < 24"
  shows "alloc_state inline_bit sample_state b = ALLOCSTATE_FREE"
proof -
  have "unat (b - 3) < 1792"
    using assms by (simp add: unat_sub_if' word_le_nat_alt word_less_nat_alt)
  then show ?thesis
    by (simp add: alloc_state_def inline_bit_def gpRedCoreVol_def sample_state_def sample_core_def sample_mr_bits)
qed

lemma sample_blocks: "{b :: u32. 19 \<le> b \<and> b < 24} = {19, 20, 21, 22, 23}"
proof -
  have "b \<in> {19, 20, 21, 22, 23}" if "19 \<le> b" "b < 24" for b :: u32
  proof -
    have "unat b = 19 \<or> unat b = 20 \<or> unat b = 21 \<or> unat b = 22 \<or> unat b = 23"
      using that by (simp add: word_le_nat_alt word_less_nat_alt) arith
    then show ?thesis by (simp add: word_unat_eq_iff)
  qed
  then show ?thesis by (auto simp: word_le_nat_alt word_less_nat_alt)
qed

lemma sample_counts_ok: "imap_counts inline_bit sample_state"
proof -
  have "3 \<le> b" if "19 \<le> b" for b :: u32 using that by (simp add: word_le_nat_alt)
  then have f: "{b. allocable sample_state b \<and> alloc_state inline_bit sample_state b = ALLOCSTATE_FREE} = {19, 20, 21, 22, 23}"
    "{b. allocable sample_state b \<and> alloc_state inline_bit sample_state b = ALLOCSTATE_AFREE} = {}"
    "{b. allocable sample_state b} = {19, 20, 21, 22, 23}"
    unfolding sample_blocks [symmetric] by (auto simp: sample_allocable sample_alloc_state)
  show ?thesis
    unfolding imap_counts_def f by (simp add: gpRedCoreVol_def gpRedVolume_def gpRedMR_def sample_defs)
qed

section \<open>Moves between block states\<close>

text \<open>
  C10. The block states form a state machine. When \<open>RedImapBlockSet\<close> succeeds, setting the bit
  makes a free block new and an almost free one used again, clearing it makes a new block free and
  a used one almost free, and every other block keeps its state. The counters of free and almost
  free blocks stay exact, provided an allocable block is only allocated when it is free, which is
  how the driver allocates.
\<close>
theorem imap_state_machine:
  assumes "inline_inv cf s" and "imap_counts inline_bit s" and "imap_range s b"
    and "RedImapBlockSet cf b f s = (Inr (), s')"
    and "f \<longrightarrow> allocable s b \<longrightarrow> alloc_state inline_bit s b = ALLOCSTATE_FREE"
  shows "imap_counts inline_bit s' \<and> (\<forall>c. imap_range s c \<longrightarrow> alloc_state inline_bit s' c =
    (if c = b then
       (case alloc_state inline_bit s b of
          ALLOCSTATE_FREE \<Rightarrow> ALLOCSTATE_NEW | ALLOCSTATE_AFREE \<Rightarrow> ALLOCSTATE_USED
        | ALLOCSTATE_NEW \<Rightarrow> ALLOCSTATE_FREE | ALLOCSTATE_USED \<Rightarrow> ALLOCSTATE_AFREE)
     else alloc_state inline_bit s c))"
  using inline.RedImapBlockSet_counts [OF assms(1,3,2,4)] assms(5) by blast

lemma sample_set20:
  "\<exists>s'. RedImapBlockSet sample_cf 20 True sample_state = (Inr (), s')"
proof -
  have r: "imap_range sample_state 20" by (simp add: sample_range)
  have b: "inline_bit sample_state (bCurMR (gpRedCoreVol sample_state)) 20 = False"
    using sample_alloc_state [of 20] by (auto simp: alloc_state_def split: if_splits)
  have "ulFreeBlocks (gpRedMR sample_state) \<noteq> 0"
    by (rule inline.free_count_pos [OF sample_counts_ok, of 20]) (simp_all add: sample_allocable sample_alloc_state)
  from inline.RedImapBlockSet_alloc_ok [OF sample_inline r b this] show ?thesis by (metis prod.collapse)
qed

lemma imap_state_machine_witness:
  "let s' = snd (RedImapBlockSet sample_cf 20 True sample_state) in
   imap_counts inline_bit s' \<and> alloc_state inline_bit s' 20 = ALLOCSTATE_NEW \<and> alloc_state inline_bit s' 21 = ALLOCSTATE_FREE"
proof -
  obtain s' where s': "RedImapBlockSet sample_cf 20 True sample_state = (Inr (), s')" using sample_set20 by blast
  have r: "imap_range sample_state 20" "imap_range sample_state 21" by (simp_all add: sample_range)
  show ?thesis
    using imap_state_machine [OF sample_inline sample_counts_ok r(1) s'] r
    by (simp add: s' sample_alloc_state)
qed



section \<open>Allocating\<close>

text \<open>
  C9. \<open>RedImapAllocBlock\<close> terminates. With exact counters it fails with \<open>RED_ENOSPC\<close>, leaving the
  state as it is, when no allocable block is free; otherwise it returns a free allocable block,
  one that neither the committed nor the working state uses, which becomes new. Nothing else
  changes state, the counters stay exact and the allocation pointer stays in range.
\<close>
theorem alloc_block_correct:
  assumes "inline_inv cf s" and "imap_counts inline_bit s" and "allocable s (ulAllocNextBlock (gpRedMR s))"
  shows "if \<exists>c. allocable s c \<and> alloc_state inline_bit s c = ALLOCSTATE_FREE
    then \<exists>b s'. RedImapAllocBlock cf s = (Inr b, s') \<and> allocable s b \<and> alloc_state inline_bit s b = ALLOCSTATE_FREE
      \<and> inline_inv cf s' \<and> imap_counts inline_bit s' \<and> allocable s' (ulAllocNextBlock (gpRedMR s'))
      \<and> (\<forall>c. imap_range s c \<longrightarrow> alloc_state inline_bit s' c =
           (if c = b then ALLOCSTATE_NEW else alloc_state inline_bit s c))
    else RedImapAllocBlock cf s = (Inl RED_ENOSPC, s)"
proof (cases "\<exists>c. allocable s c \<and> alloc_state inline_bit s c = ALLOCSTATE_FREE")
  case True
  show ?thesis
    using inline.RedImapAllocBlock_spec [OF assms] unfolding if_P [OF True] by (elim exE conjE) (intro exI conjI)
next
  case False
  then show ?thesis using inline.RedImapAllocBlock_spec [OF assms] by (simp only: if_False)
qed

lemma alloc_block_correct_witness:
  "\<exists>b s'. RedImapAllocBlock sample_cf sample_state = (Inr b, s') \<and> 19 \<le> b \<and> b < 24
    \<and> alloc_state inline_bit s' b = ALLOCSTATE_NEW"
proof -
  have n: "allocable sample_state (ulAllocNextBlock (gpRedMR sample_state))"
    by (simp add: sample_allocable) (simp add: gpRedMR_def gpRedCoreVol_def sample_defs)
  have ex: "\<exists>c. allocable sample_state c \<and> alloc_state inline_bit sample_state c = ALLOCSTATE_FREE"
    by (rule exI [of _ 20]) (simp add: sample_allocable sample_alloc_state)
  then obtain b s' where b: "RedImapAllocBlock sample_cf sample_state = (Inr b, s')" "allocable sample_state b"
      "\<forall>c. imap_range sample_state c \<longrightarrow> alloc_state inline_bit s' c =
           (if c = b then ALLOCSTATE_NEW else alloc_state inline_bit sample_state c)"
    using alloc_block_correct [OF sample_inline sample_counts_ok n] unfolding if_P [OF ex] by blast
  have "imap_range sample_state b" by (rule allocable_range [OF sample_counts_ok b(2)])
  then show ?thesis using b by (auto simp: sample_allocable)
qed

end
