(* ===== verification/Volume.thy ===== *)
theory Volume
  imports Imap
begin

text \<open>
  Mounting a volume and committing a transaction (\<^verbatim>\<open>core/driver/volume.c\<close>). A metaroot is a
  record in memory and a block on the disk (\<open>metaroot_bytes\<close>, \<open>metaroot_of_bytes\<close>): the members at
  their offsets in the byte order of the machine.
\<close>

section \<open>The block of a metaroot\<close>

definition metaroot_bytes :: "'d redconf \<Rightarrow> METAROOT \<Rightarrow> bytes" where
  "metaroot_bytes cf m =
     (let be = REDCONF_ENDIAN_BIG cf in
      enc be 4 (mr_ulSignature m) @ enc be 4 (mr_ulCRC m) @ enc be 8 (mr_ullSequence m)
      @ enc be 4 (ulSectorCRC m) @ enc be 4 (ulFreeBlocks m)
      @ (if REDCONF_API_POSIX cf then enc be 4 (ulFreeInodes m) else [])
      @ enc be 4 (ulAllocNextBlock m) @ abEntries m)"

definition metaroot_of_bytes :: "'d redconf \<Rightarrow> bytes \<Rightarrow> METAROOT" where
  "metaroot_of_bytes cf p =
     (let be = REDCONF_ENDIAN_BIG cf in
      \<lparr>mr_ulSignature = ld32 be p 0, mr_ulCRC = ld32 be p 4, mr_ullSequence = ld64 be p 8,
       ulSectorCRC = ld32 be p 16, ulFreeBlocks = ld32 be p 20,
       ulFreeInodes = (if REDCONF_API_POSIX cf then ld32 be p 24 else 0),
       ulAllocNextBlock = ld32 be p (METAROOT_HEADER_SIZE cf - 4),
       abEntries = drop (METAROOT_HEADER_SIZE cf) p\<rparr>)"

definition MetaRootEndianSwap :: "'d redconf \<Rightarrow> METAROOT \<Rightarrow> METAROOT" where
  "MetaRootEndianSwap cf m =
     m\<lparr>ulSectorCRC := RedRev32 (ulSectorCRC m), ulFreeBlocks := RedRev32 (ulFreeBlocks m),
       ulFreeInodes := (if REDCONF_API_POSIX cf then RedRev32 (ulFreeInodes m) else ulFreeInodes m),
       ulAllocNextBlock := RedRev32 (ulAllocNextBlock m)\<rparr>"

text \<open>
  The CRC of the first sector, without the signature and the CRC, and the CRC of the whole block,
  which continues it.
\<close>

definition metaroot_sector_crc :: "'d redconf \<Rightarrow> u32 \<Rightarrow> METAROOT \<Rightarrow> u32" where
  "metaroot_sector_crc cf sector m =
     RedCrc32Update (REDCONF_CRC_ALGORITHM cf) 0 (Some (drop 8 (metaroot_bytes cf m))) (unat (sector - 8))"

definition metaroot_block_crc :: "'d redconf \<Rightarrow> u32 \<Rightarrow> METAROOT \<Rightarrow> u32 \<Rightarrow> u32" where
  "metaroot_block_crc cf sector m crc =
     (if unat sector < REDCONF_BLOCK_SIZE cf
      then RedCrc32Update (REDCONF_CRC_ALGORITHM cf) crc (Some (drop (unat sector) (metaroot_bytes cf m)))
             (REDCONF_BLOCK_SIZE cf - unat sector)
      else crc)"

text \<open>Result: whether it is valid, whether its first sector is, and the metaroot afterwards.\<close>

definition MetarootIsValid :: "'d redconf \<Rightarrow> u32 \<Rightarrow> METAROOT \<Rightarrow> bool \<times> bool \<times> METAROOT" where
  "MetarootIsValid cf sector m =
     (if (if REDCONF_ENDIAN_SWAP cf then RedRev32 (mr_ulSignature m) else mr_ulSignature m) \<noteq> META_SIG_METAROOT
      then (False, False, m)
      else
        let stored = (if REDCONF_ENDIAN_SWAP cf then RedRev32 (ulSectorCRC m) else ulSectorCRC m);
            m0 = m\<lparr>ulSectorCRC := 0\<rparr>;
            crc = metaroot_sector_crc cf sector m0
        in if crc \<noteq> stored then (False, False, m0)
           else
             let crc2 = metaroot_block_crc cf sector m0 crc;
                 crc3 = (if REDCONF_ENDIAN_SWAP cf then RedRev32 crc2 else crc2)
             in (crc3 = mr_ulCRC m0, True, m0))"

text \<open>What a metaroot becomes before it is written.\<close>

definition seal_metaroot :: "'d redconf \<Rightarrow> u32 \<Rightarrow> METAROOT \<Rightarrow> METAROOT" where
  "seal_metaroot cf sector m =
     (let m1 = (if REDCONF_ENDIAN_SWAP cf then MetaRootEndianSwap cf m else m);
          m2 = m1\<lparr>ulSectorCRC := 0\<rparr>;
          crc1 = metaroot_sector_crc cf sector m2;
          crc2 = metaroot_block_crc cf sector m2 crc1
      in m2\<lparr>mr_ulCRC := (if REDCONF_ENDIAN_SWAP cf then RedRev32 crc2 else crc2),
            ulSectorCRC := (if REDCONF_ENDIAN_SWAP cf then RedRev32 crc1 else crc1)\<rparr>)"

section \<open>Mounting\<close>

definition MBFLAG_API_POSIX :: u8 where "MBFLAG_API_POSIX = 0x01"
definition MBFLAG_INODE_TIMESTAMPS :: u8 where "MBFLAG_INODE_TIMESTAMPS = 0x02"
definition MBFLAG_INODE_BLOCKS :: u8 where "MBFLAG_INODE_BLOCKS = 0x04"
definition MBFLAG_INODE_NLINK :: u8 where "MBFLAG_INODE_NLINK = 0x08"
definition RED_DISK_LAYOUT_VERSION :: u32 where "RED_DISK_LAYOUT_VERSION = 1"

definition dev_call :: "('d \<Rightarrow> red_err option \<times> 'd) \<Rightarrow> ('d, unit) redM" where
  "dev_call f = (\<lambda>s. case f (bdev s) of
     (None, d) \<Rightarrow> (Inr (), s\<lparr>bdev := d\<rparr>) | (Some e, d) \<Rightarrow> (Inl e, s\<lparr>bdev := d\<rparr>))"

definition master_matches :: "'d redconf \<Rightarrow> 'd redstate \<Rightarrow> bytes \<Rightarrow> bool" where
  "master_matches cf s p =
     (let be = REDCONF_ENDIAN_BIG cf; bFlags = p ! MASTER_bFlags in
      \<not> (ld32 be p MASTER_ulVersion \<noteq> RED_DISK_LAYOUT_VERSION
         \<or> ld32 be p MASTER_ulInodeCount \<noteq> ulInodeCount (gpRedVolConf cf s)
         \<or> ld32 be p MASTER_ulBlockCount \<noteq> ulBlockCount (gpRedVolume s)
         \<or> unat (ld16 be p MASTER_uMaxNameLen) \<noteq> REDCONF_NAME_MAX cf
         \<or> unat (ld16 be p MASTER_uDirectPointers) \<noteq> REDCONF_DIRECT_POINTERS cf
         \<or> unat (ld16 be p MASTER_uIndirectPointers) \<noteq> REDCONF_INDIRECT_POINTERS cf
         \<or> p ! MASTER_bBlockSizeP2 \<noteq> BLOCK_SIZE_P2 cf
         \<or> (bFlags AND MBFLAG_API_POSIX \<noteq> 0) \<noteq> REDCONF_API_POSIX cf
         \<or> (bFlags AND MBFLAG_INODE_TIMESTAMPS \<noteq> 0) \<noteq> REDCONF_INODE_TIMESTAMPS cf
         \<or> (bFlags AND MBFLAG_INODE_BLOCKS \<noteq> 0) \<noteq> REDCONF_INODE_BLOCKS cf)
      \<and> (if REDCONF_API_POSIX cf then (bFlags AND MBFLAG_INODE_NLINK \<noteq> 0) = REDCONF_API_POSIX_LINK cf
         else bFlags AND MBFLAG_INODE_NLINK = 0))"

definition RedVolMountMaster :: "'d redconf \<Rightarrow> ('d, unit) redM" where
  "RedVolMountMaster cf =
     bindR (RedBufferGet cf BLOCK_NUM_MASTER BFLAG_META_MASTER) (\<lambda>pMB. getR (\<lambda>s.
     finR (if \<not> master_matches cf s (aabBuffer s ! pMB) then failR RED_EIO
           else modR (upd_vol (\<lambda>v. v\<lparr>ullSequence := ld64 (REDCONF_ENDIAN_BIG cf) (aabBuffer s ! pMB) NODEHEADER_OFFSET_SEQ\<rparr>)))
       (RedBufferPut cf (Some pMB))))"

definition upd_aMR :: "u8 \<Rightarrow> METAROOT \<Rightarrow> 'd redstate \<Rightarrow> 'd redstate" where
  "upd_aMR i m = upd_core (\<lambda>c. c\<lparr>aMR := (aMR c)(i := m)\<rparr>)"

definition read_metaroot :: "'d redconf \<Rightarrow> u8 \<Rightarrow> ('d, unit) redM" where
  "read_metaroot cf i = getR (\<lambda>s.
     bindR (RedIoRead cf (gbRedVolNum s) (BLOCK_NUM_FIRST_METAROOT + ucast i) 1
              (metaroot_bytes cf (aMR (gpRedCoreVol s) i))) (\<lambda>(ret, p).
     bindR (modR (upd_aMR i (metaroot_of_bytes cf p))) (\<lambda>_.
     case ret of None \<Rightarrow> skipR | Some e \<Rightarrow> failR e)))"

text \<open>Check one metaroot; fails when a sector that is written atomically is corrupt.\<close>

definition check_metaroot :: "'d redconf \<Rightarrow> u8 \<Rightarrow> ('d, bool) redM" where
  "check_metaroot cf i = getR (\<lambda>s.
     case MetarootIsValid cf (ulSectorSize (gpRedVolConf cf s)) (aMR (gpRedCoreVol s) i) of
       (fValid, fSectorCRCIsValid, m) \<Rightarrow>
         bindR (modR (upd_aMR i (if fValid \<and> REDCONF_ENDIAN_SWAP cf then MetaRootEndianSwap cf m else m))) (\<lambda>_.
         if \<not> fValid \<and> fAtomicSectorWrite (gpRedVolConf cf s) \<and> \<not> fSectorCRCIsValid then failR RED_EIO
         else retR fValid))"

definition choose_metaroot :: "'d redconf \<Rightarrow> ('d, unit) redM" where
  "choose_metaroot cf =
     bindR (check_metaroot cf 0) (\<lambda>f0.
     bindR (check_metaroot cf 1) (\<lambda>f1. getR (\<lambda>s.
     let bMR = (if f1 \<and> (\<not> f0 \<or> mr_ullSequence (aMR (gpRedCoreVol s) 1) > mr_ullSequence (aMR (gpRedCoreVol s) 0))
                then 1 else if f0 then 0 else 255)
     in if bMR = 255 then failR RED_EIO
        else modR (upd_core (\<lambda>c. c\<lparr>bCurMR := bMR\<rparr>)))))"

definition RedVolMountMetaroot :: "'d redconf \<Rightarrow> ('d, unit) redM" where
  "RedVolMountMetaroot cf =
     bindR (read_metaroot cf 0) (\<lambda>_.
     bindR (read_metaroot cf 1) (\<lambda>_.
     bindR (choose_metaroot cf) (\<lambda>_.
     bindR (getR (\<lambda>s. if mr_ullSequence (gpRedMR s) > ullSequence (gpRedVolume s)
         then modR (upd_vol (\<lambda>v. v\<lparr>ullSequence := mr_ullSequence (gpRedMR s)\<rparr>)) else skipR)) (\<lambda>_.
     bindR RedVolSeqNumIncrement (\<lambda>_.
     bindR (modR (upd_vol (\<lambda>v. v\<lparr>fMounted := True, fReadOnly := False\<rparr>))) (\<lambda>_.
     modR (upd_core (\<lambda>c. c\<lparr>
       fUseReservedBlocks := (if RESERVED_BLOCKS cf > 0 then False else fUseReservedBlocks c),
       ulAlmostFreeBlocks := 0,
       aMR := (aMR c)(1 - bCurMR c := aMR c (bCurMR c)),
       bCurMR := 1 - bCurMR c\<rparr>))))))))"

definition RedVolMount :: "'d redconf \<Rightarrow> ('d, unit) redM" where
  "RedVolMount cf = getR (\<lambda>s.
     bindR (dev_call (RedOsBDevOpen cf (gbRedVolNum s) BDEV_O_RDWR)) (\<lambda>_.
     tryR (bindR (RedVolMountMaster cf) (\<lambda>_. RedVolMountMetaroot cf)) (\<lambda>ret.
     case ret of
       Inr _ \<Rightarrow> skipR
     | Inl e \<Rightarrow> getR (\<lambda>s.
         tryR (RedBufferDiscardRange cf 0 (ulBlockCount (gpRedVolume s))) (\<lambda>_.
         tryR (dev_call (RedOsBDevClose cf (gbRedVolNum s))) (\<lambda>_. failR e))))))"

section \<open>Committing a transaction\<close>

definition transact_toggle :: "'d redstate \<Rightarrow> 'd redstate" where
  "transact_toggle = upd_core (\<lambda>c.
     let bNextMR = 1 - bCurMR c
     in c\<lparr>aMR := (aMR c)(bNextMR := aMR c (bCurMR c)), bCurMR := bNextMR, fBranched := False\<rparr>)"

text \<open>Flush the buffers, stamp and write the working metaroot.\<close>

definition transact_write :: "'d redconf \<Rightarrow> ('d, unit) redM" where
  "transact_write cf = getR (\<lambda>s.
     bindR (modR (upd_mr (\<lambda>m. m\<lparr>ulFreeBlocks := ulFreeBlocks m + ulAlmostFreeBlocks (gpRedCoreVol s)\<rparr>))) (\<lambda>_.
     bindR (modR (upd_core (\<lambda>c. c\<lparr>ulAlmostFreeBlocks := 0\<rparr>))) (\<lambda>_.
     bindR (RedBufferFlush cf 0 (ulBlockCount (gpRedVolume s))) (\<lambda>_.
     bindR (getR (\<lambda>s. modR (upd_mr (\<lambda>m. m\<lparr>mr_ulSignature := META_SIG_METAROOT,
              mr_ullSequence := ullSequence (gpRedVolume s)\<rparr>)))) (\<lambda>_.
     bindR RedVolSeqNumIncrement (\<lambda>_.
     bindR (getR (\<lambda>s. modR (upd_mr (seal_metaroot cf (ulSectorSize (gpRedVolConf cf s)))))) (\<lambda>_.
     bindR (getR (\<lambda>s. RedIoFlush cf (gbRedVolNum s))) (\<lambda>_.
     bindR (getR (\<lambda>s.
       finR (RedIoWrite cf (gbRedVolNum s) (BLOCK_NUM_FIRST_METAROOT + ucast (bCurMR (gpRedCoreVol s))) 1
               (metaroot_bytes cf (gpRedMR s)))
         (\<lambda>s. if REDCONF_ENDIAN_SWAP cf then upd_mr (MetaRootEndianSwap cf) s else s))) (\<lambda>_.
     getR (\<lambda>s. RedIoFlush cf (gbRedVolNum s)))))))))))"

definition RedVolTransact :: "'d redconf \<Rightarrow> ('d, unit) redM" where
  "RedVolTransact cf =
     bindR (modR (\<lambda>s. REDASSERT (\<not> fReadOnly (gpRedVolume s)) s)) (\<lambda>_. getR (\<lambda>s.
     if fBranched (gpRedCoreVol s)
     then critical_assertR (bindR (transact_write cf) (\<lambda>_. modR transact_toggle))
     else skipR))"

end
