(* ===== verification/VolumeInv.thy ===== *)
theory VolumeInv
  imports Volume Reliable
begin

text \<open>
  What committing a transaction does to the disk, over any block device: it writes the dirty
  buffers and the block of the working metaroot, and nothing else; when it succeeds, the disk
  holds the working state and the metaroot that describes it.
\<close>

definition dirty_block :: "'d redconf \<Rightarrow> 'd redstate \<Rightarrow> u8 \<Rightarrow> u32 \<Rightarrow> bool" where
  "dirty_block cf s v b \<longleftrightarrow> (\<exists>i < REDCONF_BUFFER_COUNT cf. bVolNum (aHead s ! i) = v \<and> ulBlock (aHead s ! i) = b
     \<and> uFlags (aHead s ! i) AND BFLAG_DIRTY \<noteq> 0)"

section \<open>Updates outside the cache\<close>

lemma cache_ok_upd_core [simp]: "cache_ok cf dbyte dsize (upd_core f s) = cache_ok cf dbyte dsize s"
  by (simp add: cache_ok_def cache_inv_def cache_geom_def cache_clean_def vol_geom_def st_simps)

lemma cache_ok_upd_mr [simp]: "cache_ok cf dbyte dsize (upd_mr f s) = cache_ok cf dbyte dsize s"
  by (simp add: upd_mr_def)

lemma uncached_upd [simp]: "uncached cf (upd_core f s) = uncached cf s" "uncached cf (upd_mr g s) = uncached cf s"
  "dirty_block cf (upd_core f s) = dirty_block cf s" "dirty_block cf (upd_mr g s) = dirty_block cf s"
  by (simp_all add: uncached_def dirty_block_def fun_eq_iff st_simps)

lemma same_cache_uncached:
  "same_cache s s' \<Longrightarrow> uncached cf s' = uncached cf s" "same_cache s s' \<Longrightarrow> dirty_block cf s' = dirty_block cf s"
  by (simp_all add: same_cache_def uncached_def dirty_block_def fun_eq_iff)

section \<open>The block of a metaroot\<close>

lemma metaroot_layout:
  assumes "256 \<le> REDCONF_BLOCK_SIZE cf"
  shows "METAROOT_HEADER_SIZE cf \<le> 32" and "METAROOT_HEADER_SIZE cf + METAROOT_ENTRY_BYTES cf = REDCONF_BLOCK_SIZE cf"
  using assms by (auto simp: METAROOT_HEADER_SIZE_def METAROOT_ENTRY_BYTES_def NODEHEADER_SIZE_def)

lemma length_metaroot_bytes:
  assumes "256 \<le> REDCONF_BLOCK_SIZE cf" and "length (abEntries m) = METAROOT_ENTRY_BYTES cf"
  shows "length (metaroot_bytes cf m) = REDCONF_BLOCK_SIZE cf"
  using assms metaroot_layout [OF assms(1)]
  by (auto simp: metaroot_bytes_def Let_def METAROOT_HEADER_SIZE_def NODEHEADER_SIZE_def)

lemma ld_append_skip: "length a \<le> off \<Longrightarrow> ld be n (a @ b) off = ld be n b (off - length a)"
  by (simp add: ld_def)

lemma ld_enc_append: "LENGTH('a) \<le> 8 * n \<Longrightarrow> ld be n (enc be n (w :: 'a::len word) @ rest) 0 = w"
  by (simp add: ld_def)

lemma metaroot_of_bytes_bytes:
  assumes "REDCONF_API_POSIX cf \<or> ulFreeInodes m = 0"
  shows "metaroot_of_bytes cf (metaroot_bytes cf m) = m"
proof -
  have "metaroot_of_bytes cf (metaroot_bytes cf m) =
      \<lparr>mr_ulSignature = mr_ulSignature m, mr_ulCRC = mr_ulCRC m, mr_ullSequence = mr_ullSequence m,
       ulSectorCRC = ulSectorCRC m, ulFreeBlocks = ulFreeBlocks m, ulFreeInodes = ulFreeInodes m,
       ulAllocNextBlock = ulAllocNextBlock m, abEntries = abEntries m\<rparr>"
    using assms
    by (auto simp: metaroot_of_bytes_def metaroot_bytes_def Let_def METAROOT_HEADER_SIZE_def NODEHEADER_SIZE_def
        ld_append_skip ld_enc_append)
  then show ?thesis by simp
qed

lemma seal_metaroot_sel:
  "length (abEntries (seal_metaroot cf sector m)) = length (abEntries m)"
  "length (abEntries (MetaRootEndianSwap cf m)) = length (abEntries m)"
  by (simp_all add: seal_metaroot_def MetaRootEndianSwap_def Let_def)

context block_device
begin

section \<open>Clean blocks of the disk\<close>

text \<open>Flushing leaves the blocks alone that are not dirty.\<close>

lemma flush_dirty:
  assumes conf: "conf_ok cf" and ok: "cache_ok cf dbyte dsize s" and run: "RedBufferFlush cf start cnt s = (r, s')"
  shows "dirty_block cf s' v b \<Longrightarrow> dirty_block cf s v b"
proof -
  assume "dirty_block cf s' v b"
  then obtain i where i: "i < REDCONF_BUFFER_COUNT cf" "bVolNum (aHead s' ! i) = v" "ulBlock (aHead s' ! i) = b"
    "uFlags (aHead s' ! i) AND BFLAG_DIRTY \<noteq> 0" by (auto simp: dirty_block_def)
  have "aHead s' ! i = aHead s ! i \<or> aHead s' ! i = (aHead s ! i)\<lparr>uFlags := uFlags (aHead s ! i) AND NOT BFLAG_DIRTY\<rparr>"
  proof (cases "range_ok s start cnt")
    case True
    then have "buffer_flush_from cf start cnt [0..<REDCONF_BUFFER_COUNT cf] s = (r, s')"
      using run by (simp add: RedBufferFlush_def red_simps)
    from buffer_flush_from_spec [OF conf ok _ this] show ?thesis using i(1) by auto
  qed (use run in \<open>auto simp: RedBufferFlush_def red_simps st_simps\<close>)
  moreover have "(x AND NOT BFLAG_DIRTY) AND BFLAG_DIRTY = 0" for x by (simp add: and.assoc)
  ultimately have "aHead s' ! i = aHead s ! i" using i(4) by auto
  then show ?thesis using i by (auto simp: dirty_block_def)
qed

lemma flush_clean_blocks:
  assumes conf: "conf_ok cf" and ok: "cache_ok cf dbyte dsize s" and run: "RedBufferFlush cf start cnt s = (r, s')"
    and b: "b \<noteq> BBLK_INVALID" and nd: "\<not> dirty_block cf s v b"
  shows "dblock dbyte BS (bdev s') v (unat b) = dblock dbyte BS (bdev s) v (unat b) \<and> \<not> dirty_block cf s' v b"
proof -
  note sp = RedBufferFlush_spec [OF conf ok run]
  have ok': "cache_ok cf dbyte dsize s'" and ev: "evolves cf dbyte dsize s s'" using sp by simp_all
  have nd': "\<not> dirty_block cf s' v b" using flush_dirty [OF conf ok run] nd by blast
  have view: "cache_view cf dbyte t v b = dblock dbyte BS (bdev t) v (unat b)"
    if "cache_ok cf dbyte dsize t" "\<not> dirty_block cf t v b" for t
  proof (cases "cache_lookup cf t v b")
    case (Some i)
    then have "i < REDCONF_BUFFER_COUNT cf" "bVolNum (aHead t ! i) = v" "ulBlock (aHead t ! i) = b"
      using cache_lookup_Some [of cf t b v i] b that(1) by (auto simp: cache_ok_def)
    then show ?thesis using that b Some by (auto simp: cache_ok_def cache_clean_def cache_view_def dirty_block_def)
  qed (simp add: cache_view_def)
  have "\<not> meta_dirty cf s v b" using nd by (auto simp: meta_dirty_def dirty_block_def)
  then have "cache_view cf dbyte s' v b = cache_view cf dbyte s v b" using ev b by (simp add: evolves_def)
  then show ?thesis using view [OF ok' nd'] view [OF ok nd] nd' by simp
qed

text \<open>
  The states a transaction goes through: the cache stays sound, no block becomes dirty, and the
  disk blocks that were not dirty keep their contents, except the block of the working metaroot.
\<close>

definition committing :: "'d redstate \<Rightarrow> 'd redstate \<Rightarrow> bool" where
  "committing s x \<longleftrightarrow> cache_ok cf dbyte dsize x \<and> gbRedVolNum x = gbRedVolNum s
     \<and> ulBlockCount (gpRedVolume x) = ulBlockCount (gpRedVolume s)
     \<and> ulBlocksAllocable (gpRedVolume x) = ulBlocksAllocable (gpRedVolume s)
     \<and> bCurMR (gpRedCoreVol x) = bCurMR (gpRedCoreVol s)
     \<and> uncached cf x (gbRedVolNum s) (1 + ucast (bCurMR (gpRedCoreVol s)))
     \<and> length (abEntries (gpRedMR x)) = METAROOT_ENTRY_BYTES cf
     \<and> (\<forall>v b. dirty_block cf x v b \<longrightarrow> dirty_block cf s v b)
     \<and> (\<forall>v b. b \<noteq> BBLK_INVALID \<and> \<not> dirty_block cf s v b
          \<and> (v \<noteq> gbRedVolNum s \<or> b \<noteq> 1 + ucast (bCurMR (gpRedCoreVol s))) \<longrightarrow>
          dblock dbyte BS (bdev x) v (unat b) = dblock dbyte BS (bdev s) v (unat b))"

lemma committing_frame:
  assumes "committing s x" and "cache_frame x y" and "same_cache x y" and "dbyte (bdev y) = dbyte (bdev x)"
    and "dsize (bdev y) = dsize (bdev x)"
  shows "committing s y"
proof -
  have db: "dblock dbyte BS (bdev y) = dblock dbyte BS (bdev x)" using assms(4) by (simp add: dblock_def fun_eq_iff)
  let ?z = "y\<lparr>bdev := bdev x\<rparr>"
  have z: "cache_frame x ?z" "same_cache x ?z" using assms(2,3) by (simp_all add: cache_frame_def same_cache_def)
  have "cache_ok cf dbyte dsize ?z = cache_ok cf dbyte dsize x" by (rule cache_ok_same [OF z]) simp
  moreover have "cache_ok cf dbyte dsize y = cache_ok cf dbyte dsize ?z"
    using bdev_same(1) [of "bdev y" ?z] assms(4,5) by simp
  moreover have "gpRedMR y = gpRedMR x" "gpRedCoreVol y = gpRedCoreVol x"
    "ulBlockCount (gpRedVolume y) = ulBlockCount (gpRedVolume x)" "gbRedVolNum y = gbRedVolNum x"
    "ulBlocksAllocable (gpRedVolume y) = ulBlocksAllocable (gpRedVolume x)"
    using assms(2) by (simp_all add: cache_frame_def vol_static_def gpRedMR_def gpRedCoreVol_def gpRedVolume_def)
  ultimately show ?thesis
    using assms(1) same_cache_uncached [OF assms(3)] by (simp add: committing_def db)
qed

lemma committing_upd:
  "committing s x \<Longrightarrow> (\<And>m. length (abEntries (f m)) = length (abEntries m)) \<Longrightarrow> committing s (upd_mr f x)"
  "committing s x \<Longrightarrow> (\<And>c. bCurMR (g c) = bCurMR c \<and> aMR (g c) = aMR c) \<Longrightarrow> committing s (upd_core g x)"
  "committing s x \<Longrightarrow> committing s (RedVolCriticalError x)" "committing s x \<Longrightarrow> committing s (REDERROR x)"
     apply (simp add: committing_def st_simps)
    apply (auto simp: committing_def st_simps gpRedMR_def)[1]
   apply (rule committing_frame, assumption, rule frame, rule frame, simp_all add: st_simps)
  apply (rule committing_frame, assumption, rule frame, rule frame, simp_all add: st_simps)
  done

lemma committing_seqnum: "committing s x \<Longrightarrow> committing s (snd (RedVolSeqNumIncrement x))"
  using RedVolSeqNumIncrement_frame [OF surjective_pairing [of "RedVolSeqNumIncrement x"]]
  by (simp add: committing_frame [of s x])

lemma committing_ioflush:
  assumes conf: "conf_ok cf" and c: "committing s x"
  shows "committing s (snd (RedIoFlush cf (gbRedVolNum x) x))"
proof -
  have v: "vol_ok cf (gbRedVolNum x)" using c by (auto simp: committing_def cache_ok_def cache_geom_def vol_geom_def)
  obtain r s' where run: "RedIoFlush cf (gbRedVolNum x) x = (r, s')" by fastforce
  obtain ret d where s': "s' = io_finish ret (x\<lparr>bdev := d\<rparr>)" "dsize d = dsize (bdev x)" "dbyte d = dbyte (bdev x)"
    by (rule RedIoFlush_spec [OF conf v run])
  have "committing s s'"
    by (rule committing_frame [OF c]) (use s' in \<open>auto intro: frame simp: st_simps\<close>)
  then show ?thesis by (simp add: run)
qed

lemma committing_flush:
  assumes conf: "conf_ok cf" and c: "committing s x"
  shows "committing s (snd (RedBufferFlush cf a n x))"
proof -
  obtain r y where run: "RedBufferFlush cf a n x = (r, y)" by fastforce
  have ok: "cache_ok cf dbyte dsize x" using c by (simp add: committing_def)
  note sp = RedBufferFlush_spec [OF conf ok run]
  have fr: "cache_frame x y" using sp by (simp add: evolves_def)
  note clean = flush_clean_blocks [OF conf ok run]
  have "dirty_block cf x v b" if "dirty_block cf y v b" for v b
    using flush_dirty [OF conf ok run that] .
  moreover have "uncached cf y = uncached cf x" using sp by (auto simp: uncached_def fun_eq_iff)
  moreover have "gpRedMR y = gpRedMR x" "gpRedCoreVol y = gpRedCoreVol x"
    "ulBlockCount (gpRedVolume y) = ulBlockCount (gpRedVolume x)" "gbRedVolNum y = gbRedVolNum x"
    "ulBlocksAllocable (gpRedVolume y) = ulBlocksAllocable (gpRedVolume x)"
    using fr by (simp_all add: cache_frame_def vol_static_def gpRedMR_def gpRedCoreVol_def gpRedVolume_def)
  moreover have "dblock dbyte BS (bdev y) v (unat b) = dblock dbyte BS (bdev s) v (unat b)"
    if "b \<noteq> BBLK_INVALID" "\<not> dirty_block cf s v b" "v \<noteq> gbRedVolNum s \<or> b \<noteq> 1 + ucast (bCurMR (gpRedCoreVol s))" for v b
  proof -
    have "\<not> dirty_block cf x v b" using c that(2) by (auto simp: committing_def)
    then show ?thesis using clean [OF that(1)] c that by (simp add: committing_def)
  qed
  ultimately have "committing s y" using c sp by (simp add: committing_def)
  then show ?thesis by (simp add: run)
qed

text \<open>Writing the block of the working metaroot.\<close>

lemma mr_block:
  assumes "bCurMR (gpRedCoreVol s) = 0 \<or> bCurMR (gpRedCoreVol s) = 1" and "2 < ulBlockCount (gpRedVolume s)"
  defines "b \<equiv> 1 + ucast (bCurMR (gpRedCoreVol s)) :: u32"
  shows "b < ulBlockCount (gpRedVolume s)" and "unat b = 1 + unat (bCurMR (gpRedCoreVol s))" and "b \<noteq> BBLK_INVALID"
  using assms by (auto simp: word_less_nat_alt BBLK_INVALID_def)

lemma committing_write:
  assumes conf: "conf_ok cf" and c: "committing s x" and cur: "bCurMR (gpRedCoreVol s) = 0 \<or> bCurMR (gpRedCoreVol s) = 1"
    and n: "2 < ulBlockCount (gpRedVolume s)" and len: "length p = BS"
    and run: "RedIoWrite cf (gbRedVolNum x) (1 + ucast (bCurMR (gpRedCoreVol x))) 1 p x = (r, y)"
  shows "committing s y \<and> cache_frame x y \<and> same_cache x y
    \<and> (r = Inr () \<longrightarrow> dblock dbyte BS (bdev y) (gbRedVolNum s) (1 + unat (bCurMR (gpRedCoreVol s))) = p)"
proof -
  let ?v = "gbRedVolNum s" and ?b = "1 + ucast (bCurMR (gpRedCoreVol s)) :: u32"
  note b = mr_block [OF cur n]
  have e: "gbRedVolNum x = ?v" "bCurMR (gpRedCoreVol x) = bCurMR (gpRedCoreVol s)"
    "ulBlockCount (gaRedVolume x ?v) = ulBlockCount (gpRedVolume s)"
    using c by (auto simp: committing_def gpRedVolume_def [of x])
  have ok: "cache_ok cf dbyte dsize x" and unc: "uncached cf x ?v ?b" using c by (simp_all add: committing_def)
  have geom: "vol_geom cf dsize x ?v" using ok e(1) by (simp add: cache_ok_def cache_geom_def)
  note w = write_block [OF conf geom _ len run [unfolded e(1,2)], unfolded e(3), OF b(1)]
  have fr: "cache_frame x y" and sc: "same_cache x y" and ds: "dsize (bdev y) = dsize (bdev x)"
    and out: "\<And>w c. w \<noteq> ?v \<or> c \<noteq> unat ?b \<Longrightarrow> dblock dbyte BS (bdev y) w c = dblock dbyte BS (bdev x) w c"
    using w by auto
  have "cache_clean cf dbyte y"
    unfolding cache_clean_def
  proof (intro allI impI, elim conjE)
    fix i assume i: "i < REDCONF_BUFFER_COUNT cf" "ulBlock (aHead y ! i) \<noteq> BBLK_INVALID" "uFlags (aHead y ! i) AND BFLAG_DIRTY = 0"
    have h: "aHead y = aHead x" "aabBuffer y = aabBuffer x" using sc by (simp_all add: same_cache_def)
    have "bVolNum (aHead x ! i) \<noteq> ?v \<or> ulBlock (aHead x ! i) \<noteq> ?b" using unc i(1) by (auto simp: uncached_def)
    then have "bVolNum (aHead x ! i) \<noteq> ?v \<or> unat (ulBlock (aHead x ! i)) \<noteq> unat ?b" by (simp flip: word_unat_eq_iff)
    from out [OF this]
    show "wire cf (uFlags (aHead y ! i)) (aabBuffer y ! i) =
        dblock dbyte BS (bdev y) (bVolNum (aHead y ! i)) (unat (ulBlock (aHead y ! i)))"
      using ok i unfolding h by (simp add: cache_ok_def cache_clean_def)
  qed
  moreover have "cache_inv cf y" using ok cache_inv_same [OF sc] by (simp add: cache_ok_def)
  moreover have "cache_geom cf dsize y"
    using ok fr sc vol_geom_frame [OF fr ds, of cf]
    by (simp add: cache_ok_def cache_geom_def same_cache_def cache_frame_def vol_static_def)
  ultimately have ok': "cache_ok cf dbyte dsize y" by (simp add: cache_ok_def)
  have "gpRedMR y = gpRedMR x" "gpRedCoreVol y = gpRedCoreVol x"
    "ulBlockCount (gpRedVolume y) = ulBlockCount (gpRedVolume x)" "gbRedVolNum y = gbRedVolNum x"
    "ulBlocksAllocable (gpRedVolume y) = ulBlocksAllocable (gpRedVolume x)"
    using fr by (simp_all add: cache_frame_def vol_static_def gpRedMR_def gpRedCoreVol_def gpRedVolume_def)
  moreover have "dblock dbyte BS (bdev y) v (unat c) = dblock dbyte BS (bdev x) v (unat c)" if "v \<noteq> ?v \<or> c \<noteq> ?b" for v c
    by (rule out) (use that in \<open>simp flip: word_unat_eq_iff\<close>)
  ultimately have "committing s y" using c ok' same_cache_uncached [OF sc] by (simp add: committing_def)
  then show ?thesis using w fr sc b(2) by simp
qed

lemma io_finish_seqnum: "ullSequence (gpRedVolume (io_finish ret x)) = ullSequence (gpRedVolume x)"
  by (simp add: io_finish_def st_simps split: option.split)

lemma io_seqnum:
  "ullSequence (gpRedVolume (snd (RedIoWrite cf v b n p x))) = ullSequence (gpRedVolume x)"
  "ullSequence (gpRedVolume (snd (RedIoFlush cf v x))) = ullSequence (gpRedVolume x)"
proof -
  have d: "gpRedVolume (x\<lparr>bdev := d\<rparr>) = gpRedVolume x" for x :: "'x redstate" and d by (simp add: gpRedVolume_def)
  show "ullSequence (gpRedVolume (snd (RedIoWrite cf v b n p x))) = ullSequence (gpRedVolume x)"
    by (simp add: RedIoWrite_def Let_def io_finish_seqnum st_simps d split: prod.split)
  show "ullSequence (gpRedVolume (snd (RedIoFlush cf v x))) = ullSequence (gpRedVolume x)"
    by (simp add: RedIoFlush_def Let_def io_finish_seqnum st_simps d split: prod.split)
qed

text \<open>What is written, and the states in between.\<close>

lemma transact_write_spec:
  assumes conf: "conf_ok cf" and c: "committing s s" and cur: "bCurMR (gpRedCoreVol s) = 0 \<or> bCurMR (gpRedCoreVol s) = 1"
    and n: "2 < ulBlockCount (gpRedVolume s)" and run: "transact_write cf s = (r, y)"
  shows "committing s y \<and> (r = Inr () \<longrightarrow>
    (\<exists>m seq. m = (gpRedMR s)\<lparr>ulFreeBlocks := ulFreeBlocks (gpRedMR s) + ulAlmostFreeBlocks (gpRedCoreVol s),
           mr_ulSignature := META_SIG_METAROOT, mr_ullSequence := seq\<rparr>
      \<and> seq < ullSequence (gpRedVolume y)
      \<and> dblock dbyte BS (bdev y) (gbRedVolNum s) (1 + unat (bCurMR (gpRedCoreVol s)))
          = metaroot_bytes cf (seal_metaroot cf (ulSectorSize (gpRedVolConf cf s)) m)
      \<and> gpRedCoreVol y = (gpRedCoreVol s)\<lparr>ulAlmostFreeBlocks := 0,
          aMR := (aMR (gpRedCoreVol s))(bCurMR (gpRedCoreVol s) :=
            (if REDCONF_ENDIAN_SWAP cf then MetaRootEndianSwap cf else id)
              (seal_metaroot cf (ulSectorSize (gpRedVolConf cf s)) m))\<rparr>
      \<and> (\<forall>b. b < ulBlockCount (gpRedVolume s) \<longrightarrow> \<not> dirty_block cf y (gbRedVolNum s) b)))"
proof -
  let ?sector = "ulSectorSize (gpRedVolConf cf s)" and ?cur = "bCurMR (gpRedCoreVol s)" and ?v = "gbRedVolNum s"
  define s1 where "s1 = upd_core (\<lambda>c. c\<lparr>ulAlmostFreeBlocks := 0\<rparr>)
      (upd_mr (\<lambda>m. m\<lparr>ulFreeBlocks := ulFreeBlocks m + ulAlmostFreeBlocks (gpRedCoreVol s)\<rparr>) s)"
  obtain r1 s2 where fl: "RedBufferFlush cf 0 (ulBlockCount (gpRedVolume s)) s1 = (r1, s2)" by fastforce
  define seq where "seq = ullSequence (gpRedVolume s2)"
  define s3 where "s3 = upd_mr (\<lambda>m. m\<lparr>mr_ulSignature := META_SIG_METAROOT, mr_ullSequence := seq\<rparr>) s2"
  obtain r2 s4 where sq: "RedVolSeqNumIncrement s3 = (r2, s4)" by fastforce
  define s5 where "s5 = upd_mr (seal_metaroot cf (ulSectorSize (gpRedVolConf cf s4))) s4"
  obtain r3 s6 where io1: "RedIoFlush cf (gbRedVolNum s5) s5 = (r3, s6)" by fastforce
  obtain r4 s7 where wr: "RedIoWrite cf (gbRedVolNum s6) (1 + ucast (bCurMR (gpRedCoreVol s6))) 1
      (metaroot_bytes cf (gpRedMR s6)) s6 = (r4, s7)" by fastforce
  define s8 where "s8 = (if REDCONF_ENDIAN_SWAP cf then upd_mr (MetaRootEndianSwap cf) s7 else s7)"
  obtain r5 s9 where io2: "RedIoFlush cf (gbRedVolNum s8) s8 = (r5, s9)" by fastforce
  have res: "(r, y) = (case r1 of Inl e \<Rightarrow> (Inl e, s2) | Inr _ \<Rightarrow> (case r2 of Inl e \<Rightarrow> (Inl e, s4) | Inr _ \<Rightarrow>
      (case r3 of Inl e \<Rightarrow> (Inl e, s6) | Inr _ \<Rightarrow> (case r4 of Inl e \<Rightarrow> (Inl e, s8) | Inr _ \<Rightarrow> (r5, s9)))))"
    using run fl sq io1 wr io2
    unfolding transact_write_def s1_def [symmetric] BLOCK_NUM_FIRST_METAROOT_def
    by (auto simp: red_simps s1_def [symmetric] seq_def s3_def [unfolded seq_def, symmetric] s5_def [symmetric]
        s8_def [symmetric] split: sum.splits)
  have bs: "256 \<le> BS" using bs_small [OF conf] by simp
  have c1: "committing s s1" unfolding s1_def by (intro committing_upd c) simp_all
  have c2: "committing s s2" using committing_flush [OF conf c1] fl by (metis snd_conv)
  have c3: "committing s s3" unfolding s3_def by (intro committing_upd c2) simp
  have c4: "committing s s4" using committing_seqnum [OF c3] sq by simp
  have c5: "committing s s5" unfolding s5_def by (intro committing_upd c4) (simp add: seal_metaroot_sel)
  have c6: "committing s s6" using committing_ioflush [OF conf c5] io1 by simp
  have "length (metaroot_bytes cf (gpRedMR s6)) = BS"
    using c6 length_metaroot_bytes [OF bs] by (simp add: committing_def)
  note w = committing_write [OF conf c6 cur n this wr]
  have c8: "committing s s8" unfolding s8_def using w by (auto intro: committing_upd simp: seal_metaroot_sel)
  have c9: "committing s s9" using committing_ioflush [OF conf c8] io2 by simp
  have T: "committing s y" using res c2 c4 c6 c8 c9 by (auto split: sum.splits)
  have io: "cache_frame a b \<and> same_cache a b \<and> dbyte (bdev b) = dbyte (bdev a)"
    if ca: "committing s a" and ab: "RedIoFlush cf (gbRedVolNum a) a = (q, b)" for a b q
  proof -
    have v: "vol_ok cf (gbRedVolNum a)" using ca by (auto simp: committing_def cache_ok_def cache_geom_def vol_geom_def)
    obtain ret d where s': "b = io_finish ret (a\<lparr>bdev := d\<rparr>)" "dsize d = dsize (bdev a)" "dbyte d = dbyte (bdev a)"
      by (rule RedIoFlush_spec [OF conf v ab])
    then show ?thesis by (auto intro: frame simp: st_simps)
  qed
  have core: "gpRedCoreVol b = gpRedCoreVol a" "ullSequence (gpRedVolume b) = ullSequence (gpRedVolume b)"
    "gpRedMR b = gpRedMR a" "gpRedVolConf cf b = gpRedVolConf cf a" if "cache_frame a b" for a b
    using that by (simp_all add: cache_frame_def gpRedCoreVol_def gpRedMR_def gpRedVolConf_def)
  have "\<exists>m seq. m = (gpRedMR s)\<lparr>ulFreeBlocks := ulFreeBlocks (gpRedMR s) + ulAlmostFreeBlocks (gpRedCoreVol s),
           mr_ulSignature := META_SIG_METAROOT, mr_ullSequence := seq\<rparr>
      \<and> seq < ullSequence (gpRedVolume y)
      \<and> dblock dbyte BS (bdev y) ?v (1 + unat ?cur) = metaroot_bytes cf (seal_metaroot cf ?sector m)
      \<and> gpRedCoreVol y = (gpRedCoreVol s)\<lparr>ulAlmostFreeBlocks := 0, aMR := (aMR (gpRedCoreVol s))(?cur :=
            (if REDCONF_ENDIAN_SWAP cf then MetaRootEndianSwap cf else id) (seal_metaroot cf ?sector m))\<rparr>
      \<and> (\<forall>b. b < ulBlockCount (gpRedVolume s) \<longrightarrow> \<not> dirty_block cf y ?v b)" if r: "r = Inr ()"
  proof -
    have ok: "r1 = Inr ()" "r2 = Inr ()" "r3 = Inr ()" "r4 = Inr ()" "r5 = Inr ()" and y: "y = s9"
      using res r by (auto split: sum.splits)
    note sp = RedBufferFlush_spec [OF conf _ fl]
    have f12: "cache_frame s1 s2" using sp c1 by (simp add: committing_def evolves_def)
    have f34: "cache_frame s3 s4" "same_cache s3 s4" "bdev s4 = bdev s3" using RedVolSeqNumIncrement_frame [OF sq] by simp_all
    note f56 = io [OF c5 io1] and f89 = io [OF c8 io2]
    have f67: "cache_frame s6 s7" "same_cache s6 s7" using w by simp_all
    let ?m = "(gpRedMR s)\<lparr>ulFreeBlocks := ulFreeBlocks (gpRedMR s) + ulAlmostFreeBlocks (gpRedCoreVol s),
           mr_ulSignature := META_SIG_METAROOT, mr_ullSequence := seq\<rparr>"
    have m1: "gpRedMR s1 = (gpRedMR s)\<lparr>ulFreeBlocks := ulFreeBlocks (gpRedMR s) + ulAlmostFreeBlocks (gpRedCoreVol s)\<rparr>"
      "gpRedCoreVol s1 = (gpRedCoreVol s)\<lparr>ulAlmostFreeBlocks := 0, aMR := (aMR (gpRedCoreVol s))(?cur :=
        (gpRedMR s)\<lparr>ulFreeBlocks := ulFreeBlocks (gpRedMR s) + ulAlmostFreeBlocks (gpRedCoreVol s)\<rparr>)\<rparr>"
      "gpRedVolConf cf s1 = gpRedVolConf cf s"
      by (simp_all add: s1_def st_simps gpRedMR_def)
    have m3: "gpRedMR s3 = ?m" "gpRedCoreVol s3 = (gpRedCoreVol s)\<lparr>ulAlmostFreeBlocks := 0, aMR := (aMR (gpRedCoreVol s))(?cur := ?m)\<rparr>"
      "gpRedVolConf cf s3 = gpRedVolConf cf s"
      using core [OF f12] m1 by (simp_all add: s3_def st_simps)
    have m6: "gpRedMR s6 = seal_metaroot cf ?sector ?m" "gpRedCoreVol s6 = (gpRedCoreVol s)\<lparr>ulAlmostFreeBlocks := 0,
        aMR := (aMR (gpRedCoreVol s))(?cur := seal_metaroot cf ?sector ?m)\<rparr>"
      using core [OF conjunct1 [OF f56]] core [OF f34(1)] m3 by (simp_all add: s5_def st_simps)
    have m9: "gpRedCoreVol s9 = (gpRedCoreVol s)\<lparr>ulAlmostFreeBlocks := 0, aMR := (aMR (gpRedCoreVol s))(?cur :=
            (if REDCONF_ENDIAN_SWAP cf then MetaRootEndianSwap cf else id) (seal_metaroot cf ?sector ?m))\<rparr>"
      using core [OF conjunct1 [OF f89]] core [OF f67(1)] m6 by (simp add: s8_def st_simps)
    have "seq < ullSequence (gpRedVolume s4)"
      using RedVolSeqNumIncrement_less [OF sq [unfolded ok(2)]] by (simp add: seq_def s3_def st_simps)
    moreover have "ullSequence (gpRedVolume s9) = ullSequence (gpRedVolume s4)"
      using io_seqnum(2) [of "gbRedVolNum s8" s8] io_seqnum(2) [of "gbRedVolNum s5" s5]
        io_seqnum(1) [of "gbRedVolNum s6" "1 + ucast (bCurMR (gpRedCoreVol s6))" 1 "metaroot_bytes cf (gpRedMR s6)" s6]
      by (simp add: io1 io2 wr) (simp add: s5_def s8_def st_simps)
    moreover have "dblock dbyte BS (bdev s9) ?v (1 + unat ?cur) = metaroot_bytes cf (seal_metaroot cf ?sector ?m)"
      using w ok(4) m6(1) f89 by (simp add: s8_def st_simps dblock_def)
    moreover have "\<not> dirty_block cf s9 ?v b" if b: "b < ulBlockCount (gpRedVolume s)" for b
    proof
      assume "dirty_block cf s9 ?v b"
      then have "dirty_block cf s2 ?v b"
        using same_cache_uncached(2) [OF conjunct1 [OF conjunct2 [OF f89]]] same_cache_uncached(2) [OF f67(2)]
          same_cache_uncached(2) [OF conjunct1 [OF conjunct2 [OF f56]]] same_cache_uncached(2) [OF f34(2)]
        by (simp add: s8_def s5_def s3_def split: if_splits)
      then obtain i where i: "i < REDCONF_BUFFER_COUNT cf" "bVolNum (aHead s2 ! i) = ?v" "ulBlock (aHead s2 ! i) = b"
        "uFlags (aHead s2 ! i) AND BFLAG_DIRTY \<noteq> 0" by (auto simp: dirty_block_def)
      have "b \<noteq> BBLK_INVALID" using b by (rule block_not_invalid)
      then have "discarded s1 0 (ulBlockCount (gpRedVolume s)) (aHead s1 ! i)"
        using sp c1 i b by (auto simp: discarded_def committing_def)
      then show False using sp ok(1) i c1 by (auto simp: committing_def)
    qed
    ultimately show ?thesis using m9 y by (intro exI [of _ ?m] exI [of _ seq]) simp
  qed
  then show ?thesis using T by blast
qed

end

end
