(* ===== verification/VolumeCorrect.thy ===== *)
theory VolumeCorrect
  imports VolumeInv ImapInline ImapCorrect
begin

text \<open>
  Correctness of mounting and of transactions: metaroots survive the round trip through the disk,
  the newest valid one is mounted, a transaction never overwrites what the committed state uses,
  and it moves the blocks between their states as the copy-on-write scheme requires.
\<close>

section \<open>Metaroots on the disk\<close>




definition sample_mr2 :: METAROOT where
  "sample_mr2 = sample_mr\<lparr>mr_ulSignature := META_SIG_METAROOT\<rparr>"


text \<open>
  C36. With \<^verbatim>\<open>REDCONF_ENDIAN_SWAP\<close> the round trip fails: \<open>MetaRootEndianSwap\<close> does not swap the header
  of the node, while \<open>MetarootIsValid\<close> expects a swapped signature, so every metaroot that a
  transaction writes is rejected, and with it the mount of every volume.
\<close>
theorem swapped_metaroot_rejected:
  assumes "REDCONF_ENDIAN_SWAP cf" and "mr_ulSignature m = META_SIG_METAROOT"
    and "REDCONF_API_POSIX cf \<or> ulFreeInodes m = 0"
  shows "fst (MetarootIsValid cf sector (metaroot_of_bytes cf (metaroot_bytes cf (seal_metaroot cf sector m)))) = False"
proof -
  have rb: "metaroot_of_bytes cf (metaroot_bytes cf (seal_metaroot cf sector m)) = seal_metaroot cf sector m"
    by (rule metaroot_of_bytes_bytes)
       (use assms(3) in \<open>auto simp: seal_metaroot_def Let_def MetaRootEndianSwap_def\<close>)
  have "mr_ulSignature (seal_metaroot cf sector m) = META_SIG_METAROOT"
    using assms(2) by (simp add: seal_metaroot_def Let_def MetaRootEndianSwap_def)
  moreover have "RedRev32 META_SIG_METAROOT \<noteq> META_SIG_METAROOT"
    by (simp add: META_SIG_METAROOT_def RedRev32_def)
  ultimately show ?thesis unfolding rb using assms(1) by (simp add: MetarootIsValid_def)
qed

lemma swapped_metaroot_rejected_witness:
  "let cf = sample_cf\<lparr>REDCONF_ENDIAN_SWAP := True\<rparr> in
   fst (MetarootIsValid cf 256 (metaroot_of_bytes cf (metaroot_bytes cf (seal_metaroot cf 256 sample_mr2)))) = False"
proof -
  have "REDCONF_API_POSIX (sample_cf\<lparr>REDCONF_ENDIAN_SWAP := True\<rparr>)" by (simp add: sample_defs)
  then show ?thesis
    using swapped_metaroot_rejected [of "sample_cf\<lparr>REDCONF_ENDIAN_SWAP := True\<rparr>" sample_mr2 256]
    by (simp add: sample_mr2_def Let_def)
qed

section \<open>Choosing the metaroot to mount\<close>

text \<open>
  C4. Mounting picks the newest complete metaroot: when both are valid, the one with the higher
  sequence number, when one is, that one. When neither is valid, or the first sector of one is
  corrupt on a device that writes sectors atomically, the mount fails with \<open>RED_EIO\<close>.
\<close>
theorem mount_chooses_newest:
  assumes conf: "\<not> REDCONF_ENDIAN_SWAP cf"
  shows "case (MetarootIsValid cf (ulSectorSize (gpRedVolConf cf s)) (aMR (gpRedCoreVol s) 0),
               MetarootIsValid cf (ulSectorSize (gpRedVolConf cf s)) (aMR (gpRedCoreVol s) 1)) of
      ((v0, sv0, m0), (v1, sv1, m1)) \<Rightarrow>
        let torn = fAtomicSectorWrite (gpRedVolConf cf s) \<and> (\<not> v0 \<and> \<not> sv0 \<or> \<not> v1 \<and> \<not> sv1) in
        (case choose_metaroot cf s of
           (Inl e, s') \<Rightarrow> e = RED_EIO \<and> (torn \<or> \<not> v0 \<and> \<not> v1)
         | (Inr _, s') \<Rightarrow> \<not> torn \<and> gpRedMR s' =
             (if v0 \<and> v1 then (if mr_ullSequence m1 > mr_ullSequence m0 then m1 else m0)
              else if v0 then m0 else m1) \<and> (v0 \<or> v1))"
proof -
  have up: "gpRedVolConf cf (upd_aMR i m t) = gpRedVolConf cf t"
    "aMR (gpRedCoreVol (upd_aMR i m t)) j = (if j = i then m else aMR (gpRedCoreVol t) j)" for i m t j
    by (simp_all add: upd_aMR_def st_simps)
  show ?thesis
    using conf
    by (auto simp: choose_metaroot_def check_metaroot_def red_simps Let_def up st_simps
        split: prod.splits if_splits)
qed

lemma mount_chooses_newest_witness:
  "case choose_metaroot sample_cf sample_state of (Inl e, s') \<Rightarrow> e = RED_EIO | (Inr _, s') \<Rightarrow> False"
proof -
  have "mr_ulSignature (aMR (gpRedCoreVol sample_state) i) \<noteq> META_SIG_METAROOT" for i
    by (simp add: gpRedCoreVol_def sample_state_def sample_core_def sample_mr_def META_SIG_METAROOT_def)
  then show ?thesis
    using mount_chooses_newest [of sample_cf sample_state]
    by (auto simp: MetarootIsValid_def Let_def split: prod.splits sum.splits)
qed

section \<open>Transactions\<close>

text \<open>The conditions under which the driver commits, as one predicate.\<close>

definition ready_to_commit ::
  "'d redconf \<Rightarrow> ('d \<Rightarrow> u8 \<Rightarrow> nat \<Rightarrow> u8) \<Rightarrow> ('d \<Rightarrow> u8 \<Rightarrow> nat) \<Rightarrow> 'd redstate \<Rightarrow> bool" where
  "ready_to_commit cf dbyte dsize s \<longleftrightarrow>
     cache_ok cf dbyte dsize s \<and> \<not> fReadOnly (gpRedVolume s) \<and> fBranched (gpRedCoreVol s)
     \<and> (bCurMR (gpRedCoreVol s) = 0 \<or> bCurMR (gpRedCoreVol s) = 1) \<and> 2 < ulBlockCount (gpRedVolume s)
     \<and> uncached cf s (gbRedVolNum s) (1 + ucast (bCurMR (gpRedCoreVol s)))
     \<and> length (abEntries (gpRedMR s)) = METAROOT_ENTRY_BYTES cf"

lemma transact_run:
  assumes "ready_to_commit cf dbyte dsize s"
  shows "RedVolTransact cf s = (case transact_write cf s of
    (Inl e, y) \<Rightarrow> (Inl e, RedVolCriticalError y) | (Inr _, y) \<Rightarrow> (Inr (), transact_toggle y))"
  using assms
  by (simp add: ready_to_commit_def RedVolTransact_def red_simps REDASSERT_def split: prod.splits sum.splits)

lemma ready_committing:
  assumes "block_device cf dbyte dsize" and "ready_to_commit cf dbyte dsize s"
  shows "block_device.committing cf dbyte dsize s s"
  using assms(2) by (simp add: ready_to_commit_def block_device.committing_def [OF assms(1)])

text \<open>
  C2. Crash safety: whatever happens during a transaction, and however it ends, the disk changes
  only in blocks that were dirty in the cache and in the block of the working metaroot. As the
  driver dirties only blocks the committed state does not use, the committed metaroot and all
  it refers to stay intact, so that an interrupted transaction leaves the old state to be mounted.
\<close>
theorem transact_preserves_committed:
  assumes "block_device cf dbyte dsize" and "conf_ok cf" and "ready_to_commit cf dbyte dsize s"
    and "b \<noteq> BBLK_INVALID" and "\<not> dirty_block cf s v b"
    and "v \<noteq> gbRedVolNum s \<or> b \<noteq> 1 + ucast (bCurMR (gpRedCoreVol s))"
  shows "dblock dbyte (REDCONF_BLOCK_SIZE cf) (bdev (snd (RedVolTransact cf s))) v (unat b)
    = dblock dbyte (REDCONF_BLOCK_SIZE cf) (bdev s) v (unat b)"
proof -
  note bd = assms(1)
  have cur: "bCurMR (gpRedCoreVol s) = 0 \<or> bCurMR (gpRedCoreVol s) = 1" and n: "2 < ulBlockCount (gpRedVolume s)"
    using assms(3) by (simp_all add: ready_to_commit_def)
  obtain r y where run: "transact_write cf s = (r, y)" by fastforce
  have "block_device.committing cf dbyte dsize s y"
    using block_device.transact_write_spec [OF bd assms(2) ready_committing [OF bd assms(3)] cur n run] by blast
  then have "dblock dbyte (REDCONF_BLOCK_SIZE cf) (bdev y) v (unat b) = dblock dbyte (REDCONF_BLOCK_SIZE cf) (bdev s) v (unat b)"
    using assms(4-6) by (simp add: block_device.committing_def [OF bd])
  moreover have "bdev (snd (RedVolTransact cf s)) = bdev y"
    by (cases r) (simp_all add: transact_run [OF assms(3)] run st_simps transact_toggle_def)
  ultimately show ?thesis by simp
qed

text \<open>A sample state in which a transaction can be committed, with nothing in the cache.\<close>

lemma sample_ready: "ready_to_commit sample_cf ram_byte ram_size (RedBufferInit sample_cf sample_state)"
proof -
  have "cache_ok sample_cf ram_byte ram_size (RedBufferInit sample_cf sample_state)"
  proof (rule RedBufferInit_ok [OF _ sample_conf_ok])
    have "gbRedVolNum sample_state = 0" by (simp add: sample_state_def)
    then show "vol_geom sample_cf ram_size sample_state (gbRedVolNum sample_state)" using sample_geom by simp
  qed simp
  moreover have "BBLK_INVALID \<noteq> 1 + ucast (0 :: u8)" by (simp add: BBLK_INVALID_def)
  ultimately show ?thesis
    by (simp add: ready_to_commit_def)
       (simp add: uncached_def RedBufferInit_def gpRedVolume_def gpRedCoreVol_def gpRedMR_def sample_defs
          METAROOT_ENTRY_BYTES_def METAROOT_HEADER_SIZE_def NODEHEADER_SIZE_def)
qed

lemma transact_preserves_committed_witness:
  "dblock ram_byte 256 (bdev (snd (RedVolTransact sample_cf (RedBufferInit sample_cf sample_state)))) 0 2
   = dblock ram_byte 256 (bdev (RedBufferInit sample_cf sample_state)) 0 2"
proof -
  have d: "\<not> dirty_block sample_cf (RedBufferInit sample_cf sample_state) 0 2"
    by (simp add: dirty_block_def RedBufferInit_def)
  have c: "bCurMR (gpRedCoreVol (RedBufferInit sample_cf sample_state)) = 0"
    by (simp add: RedBufferInit_def gpRedCoreVol_def sample_defs)
  show ?thesis
    using transact_preserves_committed [OF sample_device sample_conf_ok sample_ready _ d] c by (simp add: BBLK_INVALID_def)
qed

text \<open>
  C1. A transaction that succeeds commits the working state: no block of the volume is left dirty,
  so the disk holds what the cache shows; the block of the metaroot holds the sealed working
  metaroot, in which the almost free blocks are counted free; both metaroots in memory are the
  committed one, the roles of the two are exchanged and the volume is not branched.
\<close>
theorem transact_commits:
  assumes "block_device cf dbyte dsize" and "conf_ok cf" and "ready_to_commit cf dbyte dsize s"
    and "RedVolTransact cf s = (Inr (), s')"
  shows "\<exists>m. abEntries m = abEntries (gpRedMR s)
      \<and> ulFreeBlocks m = ulFreeBlocks (gpRedMR s) + ulAlmostFreeBlocks (gpRedCoreVol s)
      \<and> ulAllocNextBlock m = ulAllocNextBlock (gpRedMR s) \<and> mr_ulSignature m = META_SIG_METAROOT
      \<and> mr_ullSequence m < ullSequence (gpRedVolume s')
      \<and> dblock dbyte (REDCONF_BLOCK_SIZE cf) (bdev s') (gbRedVolNum s) (1 + unat (bCurMR (gpRedCoreVol s)))
          = metaroot_bytes cf (seal_metaroot cf (ulSectorSize (gpRedVolConf cf s)) m)
      \<and> (\<forall>b < ulBlockCount (gpRedVolume s). \<not> dirty_block cf s' (gbRedVolNum s) b)
      \<and> bCurMR (gpRedCoreVol s') = 1 - bCurMR (gpRedCoreVol s) \<and> \<not> fBranched (gpRedCoreVol s')
      \<and> ulAlmostFreeBlocks (gpRedCoreVol s') = 0
      \<and> aMR (gpRedCoreVol s') 0 = aMR (gpRedCoreVol s') 1
      \<and> (\<not> REDCONF_ENDIAN_SWAP cf \<longrightarrow> gpRedMR s' = seal_metaroot cf (ulSectorSize (gpRedVolConf cf s)) m)"
proof -
  note bd = assms(1)
  have cur: "bCurMR (gpRedCoreVol s) = 0 \<or> bCurMR (gpRedCoreVol s) = 1" and n: "2 < ulBlockCount (gpRedVolume s)"
    using assms(3) by (simp_all add: ready_to_commit_def)
  obtain r y where run: "transact_write cf s = (r, y)" by fastforce
  have r: "r = Inr ()" and s': "s' = transact_toggle y"
    using assms(4) by (auto simp: transact_run [OF assms(3)] run split: sum.splits)
  note sp = block_device.transact_write_spec [OF bd assms(2) ready_committing [OF bd assms(3)] cur n run]
  obtain m seq where m: "m = (gpRedMR s)\<lparr>ulFreeBlocks := ulFreeBlocks (gpRedMR s) + ulAlmostFreeBlocks (gpRedCoreVol s),
           mr_ulSignature := META_SIG_METAROOT, mr_ullSequence := seq\<rparr>"
    and seq: "seq < ullSequence (gpRedVolume y)"
    and disk: "dblock dbyte (REDCONF_BLOCK_SIZE cf) (bdev y) (gbRedVolNum s) (1 + unat (bCurMR (gpRedCoreVol s)))
          = metaroot_bytes cf (seal_metaroot cf (ulSectorSize (gpRedVolConf cf s)) m)"
    and core: "gpRedCoreVol y = (gpRedCoreVol s)\<lparr>ulAlmostFreeBlocks := 0,
          aMR := (aMR (gpRedCoreVol s))(bCurMR (gpRedCoreVol s) :=
            (if REDCONF_ENDIAN_SWAP cf then MetaRootEndianSwap cf else id)
              (seal_metaroot cf (ulSectorSize (gpRedVolConf cf s)) m))\<rparr>"
    and clean: "\<forall>b. b < ulBlockCount (gpRedVolume s) \<longrightarrow> \<not> dirty_block cf y (gbRedVolNum s) b"
    using sp r by auto
  have "dirty_block cf s' = dirty_block cf y" by (simp add: s' transact_toggle_def)
  then show ?thesis
    using m seq disk clean cur by (intro exI [of _ m]) (auto simp: s' transact_toggle_def st_simps core Let_def)
qed

lemma transact_commits_witness:
  "case RedVolTransact sample_cf (RedBufferInit sample_cf sample_state) of
     (Inl e, s') \<Rightarrow> True
   | (Inr _, s') \<Rightarrow> bCurMR (gpRedCoreVol s') = 1 \<and> \<not> fBranched (gpRedCoreVol s')"
proof -
  have c: "bCurMR (gpRedCoreVol (RedBufferInit sample_cf sample_state)) = 0"
    by (simp add: RedBufferInit_def gpRedCoreVol_def sample_defs)
  show ?thesis
    using transact_commits [OF sample_device sample_conf_ok sample_ready] c by (auto split: prod.splits sum.splits)
qed





end
