(* ===== verification/Inode.thy ===== *)
theory Inode
  imports Imap
begin

text \<open>
  Inodes (\<^verbatim>\<open>core/driver/inode.c\<close>, \<^verbatim>\<open>core/include/redcore.h\<close>). A cached inode, \<^verbatim>\<open>CINODE\<close>, belongs to
  the caller of the driver's functions: it names an inode, the buffers that hold its nodes and a
  position in its data. The functions work on the pair of the cached inode and the driver's
  state. A pointer to a node or a block is the index of its buffer, or \<open>None\<close> for \<^verbatim>\<open>NULL\<close>.

  \<open>RedInodeDelete\<close> and \<open>RedInodeLinkDec\<close> truncate the data of the inode and are in the theory of the
  inode's data.
\<close>

section \<open>Cached inodes\<close>

record CINODE =
  ci_ulInode :: u32
  fDirectory :: bool
  ci_fBranched :: bool
  fDirty :: bool
  fCoordInited :: bool
  pInodeBuf :: "nat option"
  pDindir :: "nat option"
  pIndir :: "nat option"
  pbData :: "nat option"
  ulLogicalBlock :: u32
  ulDindirBlock :: u32
  ulIndirBlock :: u32
  ulDataBlock :: u32
  uInodeEntry :: u16
  uDindirEntry :: u16
  uIndirEntry :: u16

text \<open>The structure after \<^verbatim>\<open>RedMemSet\<close> with zeros.\<close>

definition cinode0 :: "u32 \<Rightarrow> CINODE" where
  "cinode0 n =
     \<lparr>ci_ulInode = n, fDirectory = False, ci_fBranched = False, fDirty = False, fCoordInited = False,
      pInodeBuf = None, pDindir = None, pIndir = None, pbData = None, ulLogicalBlock = 0,
      ulDindirBlock = 0, ulIndirBlock = 0, ulDataBlock = 0, uInodeEntry = 0, uDindirEntry = 0, uIndirEntry = 0\<rparr>"

type_synonym ('d, 'a) inoM = "(CINODE \<times> 'd redstate, 'a) red"

definition liftI :: "('d, 'a) redM \<Rightarrow> ('d, 'a) inoM" where
  "liftI m = (\<lambda>(c, s). case m s of (r, s') \<Rightarrow> (r, (c, s')))"

definition getI :: "(CINODE \<Rightarrow> 'd redstate \<Rightarrow> ('d, 'a) inoM) \<Rightarrow> ('d, 'a) inoM" where
  "getI f = (\<lambda>(c, s). f c s (c, s))"

definition modC :: "(CINODE \<Rightarrow> CINODE) \<Rightarrow> ('d, unit) inoM" where
  "modC f = modR (\<lambda>(c, s). (f c, s))"

definition modS :: "('d redstate \<Rightarrow> 'd redstate) \<Rightarrow> ('d, unit) inoM" where
  "modS f = modR (\<lambda>(c, s). (c, f s))"

text \<open>Clean up when a computation fails; \<^verbatim>\<open>CRITICAL_ASSERT( ret == 0 )\<close> on a cached inode.\<close>

definition onerrR :: "('s, 'a) red \<Rightarrow> ('s \<Rightarrow> 's) \<Rightarrow> ('s, 'a) red" where
  "onerrR m f = tryR m (\<lambda>r. case r of Inl e \<Rightarrow> bindR (modR f) (\<lambda>_. failR e) | Inr x \<Rightarrow> retR x)"

definition critical_assertI :: "('d, 'a) inoM \<Rightarrow> ('d, 'a) inoM" where
  "critical_assertI m = tryR m (\<lambda>r. case r of Inl e \<Rightarrow> liftI (criticalR e) | Inr x \<Rightarrow> retR x)"

definition CINODE_IS_MOUNTED :: "'d redconf \<Rightarrow> CINODE \<Rightarrow> 'd redstate \<Rightarrow> bool" where
  "CINODE_IS_MOUNTED cf c s \<longleftrightarrow> INODE_IS_VALID cf s (ci_ulInode c) \<and> pInodeBuf c \<noteq> None"

definition CINODE_IS_DIRTY :: "'d redconf \<Rightarrow> CINODE \<Rightarrow> 'd redstate \<Rightarrow> bool" where
  "CINODE_IS_DIRTY cf c s \<longleftrightarrow> CINODE_IS_MOUNTED cf c s \<and> fDirty c"

definition IPUT_UPDATE_ATIME :: u8 where "IPUT_UPDATE_ATIME = 0x01"
definition IPUT_UPDATE_MTIME :: u8 where "IPUT_UPDATE_MTIME = 0x02"
definition IPUT_UPDATE_CTIME :: u8 where "IPUT_UPDATE_CTIME = 0x04"
definition IPUT_UPDATE_MASK :: u8 where
  "IPUT_UPDATE_MASK = IPUT_UPDATE_ATIME OR IPUT_UPDATE_MTIME OR IPUT_UPDATE_CTIME"

datatype FTYPE = FTYPE_FILE | FTYPE_DIR | FTYPE_EITHER

definition RED_S_IFDIR :: u16 where "RED_S_IFDIR = 0x4000"
definition RED_S_IFREG :: u16 where "RED_S_IFREG = 0x8000"
definition RED_S_ISDIR :: "u16 \<Rightarrow> bool" where "RED_S_ISDIR m \<longleftrightarrow> m AND RED_S_IFDIR \<noteq> 0"
definition RED_S_ISREG :: "u16 \<Rightarrow> bool" where "RED_S_ISREG m \<longleftrightarrow> m AND RED_S_IFREG \<noteq> 0"

text \<open>Members of the node in a buffer.\<close>

definition ldb16 :: "'d redconf \<Rightarrow> nat \<Rightarrow> nat \<Rightarrow> 'd redstate \<Rightarrow> u16" where
  "ldb16 cf i off s = ld16 (REDCONF_ENDIAN_BIG cf) (aabBuffer s ! i) off"
definition ldb32 :: "'d redconf \<Rightarrow> nat \<Rightarrow> nat \<Rightarrow> 'd redstate \<Rightarrow> u32" where
  "ldb32 cf i off s = ld32 (REDCONF_ENDIAN_BIG cf) (aabBuffer s ! i) off"
definition ldb64 :: "'d redconf \<Rightarrow> nat \<Rightarrow> nat \<Rightarrow> 'd redstate \<Rightarrow> u64" where
  "ldb64 cf i off s = ld64 (REDCONF_ENDIAN_BIG cf) (aabBuffer s ! i) off"

definition stb16 :: "'d redconf \<Rightarrow> nat \<Rightarrow> nat \<Rightarrow> u16 \<Rightarrow> 'd redstate \<Rightarrow> 'd redstate" where
  "stb16 cf i off w s = set_buf i (st16 (REDCONF_ENDIAN_BIG cf) (aabBuffer s ! i) off w) s"
definition stb32 :: "'d redconf \<Rightarrow> nat \<Rightarrow> nat \<Rightarrow> u32 \<Rightarrow> 'd redstate \<Rightarrow> 'd redstate" where
  "stb32 cf i off w s = set_buf i (st32 (REDCONF_ENDIAN_BIG cf) (aabBuffer s ! i) off w) s"
definition stb64 :: "'d redconf \<Rightarrow> nat \<Rightarrow> nat \<Rightarrow> u64 \<Rightarrow> 'd redstate \<Rightarrow> 'd redstate" where
  "stb64 cf i off w s = set_buf i (st64 (REDCONF_ENDIAN_BIG cf) (aabBuffer s ! i) off w) s"

section \<open>The two copies of an inode\<close>

definition InodeBlock :: "'d redconf \<Rightarrow> u32 \<Rightarrow> u8 \<Rightarrow> ('d, u32) redM" where
  "InodeBlock cf n bWhich =
     bindR (modR (\<lambda>s. REDASSERT (INODE_IS_VALID cf s n) s)) (\<lambda>_.
     bindR (modR (REDASSERT (bWhich \<le> 1))) (\<lambda>_. getR (\<lambda>s.
     retR (ulInodeTableStartBN (gpRedCoreVol s) + (n - INODE_FIRST_VALID) * 2 + ucast bWhich))))"

definition RedInodeBitGet :: "'d redconf \<Rightarrow> u8 \<Rightarrow> u32 \<Rightarrow> u8 \<Rightarrow> ('d, bool) redM" where
  "RedInodeBitGet cf bMR n bWhich = getR (\<lambda>s.
     if \<not> INODE_IS_VALID cf s n \<or> bWhich > 1 then rederrorR RED_EINVAL
     else bindR (InodeBlock cf n bWhich) (RedImapBlockGet cf bMR))"

definition InodeBitSet :: "'d redconf \<Rightarrow> u32 \<Rightarrow> u8 \<Rightarrow> bool \<Rightarrow> ('d, unit) redM" where
  "InodeBitSet cf n bWhich fAllocated = getR (\<lambda>s.
     if \<not> INODE_IS_VALID cf s n \<or> bWhich > 1 then rederrorR RED_EINVAL
     else bindR (InodeBlock cf n bWhich) (\<lambda>b. RedImapBlockSet cf b fAllocated))"

definition InodeGetCurrentCopy :: "'d redconf \<Rightarrow> u32 \<Rightarrow> ('d, u8) redM" where
  "InodeGetCurrentCopy cf n = getR (\<lambda>s.
     bindR (RedInodeBitGet cf (bCurMR (gpRedCoreVol s)) n 0) (\<lambda>fSlot0Allocated.
     if fSlot0Allocated then retR 0
     else getR (\<lambda>s. bindR (RedInodeBitGet cf (bCurMR (gpRedCoreVol s)) n 1) (\<lambda>fSlot1Allocated.
       if fSlot1Allocated then retR 1 else failR RED_EBADF))))"

definition InodeGetWriteableCopy :: "'d redconf \<Rightarrow> u32 \<Rightarrow> ('d, u8) redM" where
  "InodeGetWriteableCopy cf n = getR (\<lambda>s.
     bindR (RedInodeBitGet cf (1 - bCurMR (gpRedCoreVol s)) n 0) (\<lambda>fSlot0Allocated.
     if \<not> fSlot0Allocated then retR 0
     else getR (\<lambda>s. bindR (RedInodeBitGet cf (1 - bCurMR (gpRedCoreVol s)) n 1) (\<lambda>fSlot1Allocated.
       if \<not> fSlot1Allocated then retR 1 else criticalR RED_EFUBAR))))"

definition RedInodeIsFree :: "'d redconf \<Rightarrow> u32 \<Rightarrow> ('d, bool) redM" where
  "RedInodeIsFree cf n = getR (\<lambda>s.
     bindR (RedInodeBitGet cf (bCurMR (gpRedCoreVol s)) n 0) (\<lambda>fSlot0Allocated.
     if fSlot0Allocated then retR False
     else getR (\<lambda>s. bindR (RedInodeBitGet cf (bCurMR (gpRedCoreVol s)) n 1) (\<lambda>fSlot1Allocated.
       retR (\<not> fSlot1Allocated)))))"

text \<open>The search of \<open>InodeFindFree\<close>: the first free inode number of a list.\<close>

fun find_free_inode :: "'d redconf \<Rightarrow> u32 list \<Rightarrow> ('d, u32 option) redM" where
  "find_free_inode cf [] = retR None"
| "find_free_inode cf (n # ns) =
     bindR (RedInodeIsFree cf n) (\<lambda>fFree. if fFree then retR (Some n) else find_free_inode cf ns)"

definition InodeFindFree :: "'d redconf \<Rightarrow> ('d, u32) redM" where
  "InodeFindFree cf = getR (\<lambda>s.
     if ulFreeInodes (gpRedMR s) = 0 then failR RED_ENFILE
     else
       bindR (find_free_inode cf (map of_nat
           [unat (INODE_FIRST_FREE cf)..<unat (INODE_FIRST_VALID + ulInodeCount (gpRedVolConf cf s))])) (\<lambda>found.
       case found of Some n \<Rightarrow> retR n | None \<Rightarrow> criticalR RED_ENFILE))"

definition InodeIsBranched :: "'d redconf \<Rightarrow> u32 \<Rightarrow> ('d, bool) redM" where
  "InodeIsBranched cf n = getR (\<lambda>s.
     if \<not> INODE_IS_VALID cf s n then rederrorR RED_EINVAL
     else
       bindR (bindR (InodeBlock cf n 0) (RedImapBlockState cf)) (\<lambda>state.
       if state = ALLOCSTATE_NEW then retR True
       else
         bindR (bindR (InodeBlock cf n 1) (RedImapBlockState cf)) (\<lambda>state.
         retR (state = ALLOCSTATE_NEW))))"

section \<open>Putting the buffers of a cached inode\<close>

definition RedInodePutData :: "'d redconf \<Rightarrow> CINODE \<times> 'd redstate \<Rightarrow> CINODE \<times> 'd redstate" where
  "RedInodePutData cf = (\<lambda>(c, s).
     case pbData c of Some i \<Rightarrow> (c\<lparr>pbData := None\<rparr>, RedBufferPut cf (Some i) s) | None \<Rightarrow> (c, s))"

definition RedInodePutIndir :: "'d redconf \<Rightarrow> CINODE \<times> 'd redstate \<Rightarrow> CINODE \<times> 'd redstate" where
  "RedInodePutIndir cf = (\<lambda>(c, s).
     case pIndir c of Some i \<Rightarrow> (c\<lparr>pIndir := None\<rparr>, RedBufferPut cf (Some i) s) | None \<Rightarrow> (c, s))"

definition RedInodePutDindir :: "'d redconf \<Rightarrow> CINODE \<times> 'd redstate \<Rightarrow> CINODE \<times> 'd redstate" where
  "RedInodePutDindir cf = (\<lambda>(c, s).
     case pDindir c of Some i \<Rightarrow> (c\<lparr>pDindir := None\<rparr>, RedBufferPut cf (Some i) s) | None \<Rightarrow> (c, s))"

definition RedInodePutCoord :: "'d redconf \<Rightarrow> CINODE \<times> 'd redstate \<Rightarrow> CINODE \<times> 'd redstate" where
  "RedInodePutCoord cf x =
     (let x1 = RedInodePutData cf x;
          x2 = (if REDCONF_DIRECT_POINTERS cf < INODE_ENTRIES cf then RedInodePutIndir cf x1 else x1)
      in if DINDIR_POINTERS cf > 0 then RedInodePutDindir cf x2 else x2)"

text \<open>The timestamps of the inode in a buffer.\<close>

definition put_times :: "'d redconf \<Rightarrow> u8 \<Rightarrow> CINODE \<Rightarrow> nat \<Rightarrow> 'd redstate \<Rightarrow> 'd redstate" where
  "put_times cf bTimeFields c i s =
     (if \<not> REDCONF_INODE_TIMESTAMPS cf \<or> bTimeFields AND IPUT_UPDATE_MASK = 0 then s
      else if \<not> ci_fBranched c \<or> \<not> fDirty c then REDERROR s
      else
        let now = RedOsClockGetTime cf (bdev s);
            s1 = (if REDCONF_ATIME cf \<and> bTimeFields AND IPUT_UPDATE_ATIME \<noteq> 0 then stb32 cf i (INODE_ulATime cf) now s else s);
            s2 = (if bTimeFields AND IPUT_UPDATE_MTIME \<noteq> 0 then stb32 cf i (INODE_ulMTime cf) now s1 else s1)
        in if bTimeFields AND IPUT_UPDATE_CTIME \<noteq> 0 then stb32 cf i (INODE_ulCTime cf) now s2 else s2)"

definition RedInodePut :: "'d redconf \<Rightarrow> u8 \<Rightarrow> CINODE \<times> 'd redstate \<Rightarrow> CINODE \<times> 'd redstate" where
  "RedInodePut cf bTimeFields x =
     (case RedInodePutCoord cf x of
        (c, s) \<Rightarrow>
          (case pInodeBuf c of
             Some i \<Rightarrow> (c\<lparr>pInodeBuf := None\<rparr>, RedBufferPut cf (Some i) (put_times cf bTimeFields c i s))
           | None \<Rightarrow> (c, s)))"

section \<open>Branching, mounting, creating and freeing\<close>

definition RedInodeBranch :: "'d redconf \<Rightarrow> ('d, unit) inoM" where
  "RedInodeBranch cf = getI (\<lambda>c s.
     if \<not> CINODE_IS_MOUNTED cf c s then liftI (rederrorR RED_EINVAL)
     else if \<not> ci_fBranched c then
       critical_assertI (
         bindR (liftI (InodeGetWriteableCopy cf (ci_ulInode c))) (\<lambda>bWhich.
         bindR (liftI (InodeBlock cf (ci_ulInode c) bWhich)) (\<lambda>b.
         bindR (modS (RedBufferBranch cf (pInodeBuf c) b)) (\<lambda>_.
         bindR (modC (\<lambda>c. c\<lparr>ci_fBranched := True, fDirty := True\<rparr>)) (\<lambda>_.
         bindR (liftI (InodeBitSet cf (ci_ulInode c) (1 - bWhich) False)) (\<lambda>_.
         liftI (InodeBitSet cf (ci_ulInode c) bWhich True)))))))
     else
       bindR (modS (RedBufferDirty cf (pInodeBuf c))) (\<lambda>_.
       modC (\<lambda>c. c\<lparr>fDirty := True\<rparr>)))"

text \<open>The checks of the type of a mounted inode.\<close>

definition inode_check_type :: "'d redconf \<Rightarrow> FTYPE \<Rightarrow> nat \<Rightarrow> ('d, unit) inoM" where
  "inode_check_type cf type i = getI (\<lambda>c s.
     let uMode = ldb16 cf i (INODE_uMode cf) s in
     if RED_S_ISREG uMode then
       (if REDCONF_API_POSIX cf then
          bindR (modC (\<lambda>c. c\<lparr>fDirectory := False\<rparr>)) (\<lambda>_.
          if type = FTYPE_DIR then failR RED_ENOTDIR else skipR)
        else skipR)
     else if REDCONF_API_POSIX cf \<and> RED_S_ISDIR uMode then
       bindR (modC (\<lambda>c. c\<lparr>fDirectory := True\<rparr>)) (\<lambda>_.
       if type = FTYPE_FILE then failR RED_EISDIR else skipR)
     else liftI (criticalR RED_EFUBAR))"

definition RedInodeMount :: "'d redconf \<Rightarrow> FTYPE \<Rightarrow> bool \<Rightarrow> ('d, unit) inoM" where
  "RedInodeMount cf type fBranch = getI (\<lambda>c s.
     let n = ci_ulInode c in
     if \<not> INODE_IS_VALID cf s n then failR RED_EBADF
     else if \<not> REDCONF_API_POSIX cf \<and> type = FTYPE_DIR then liftI (rederrorR RED_EINVAL)
     else
       bindR (modC (\<lambda>_. cinode0 n)) (\<lambda>_.
       onerrR (
         bindR (liftI (InodeGetCurrentCopy cf n)) (\<lambda>bWhich.
         bindR (liftI (bindR (InodeBlock cf n bWhich) (\<lambda>b. RedBufferGet cf b BFLAG_META_INODE))) (\<lambda>i.
         bindR (modC (\<lambda>c. c\<lparr>pInodeBuf := Some i\<rparr>)) (\<lambda>_.
         bindR (liftI (InodeIsBranched cf n)) (\<lambda>fIsBranched.
         bindR (modC (\<lambda>c. c\<lparr>ci_fBranched := fIsBranched\<rparr>)) (\<lambda>_.
         bindR (inode_check_type cf type i) (\<lambda>_.
         if fBranch then RedInodeBranch cf else skipR)))))))
       (RedInodePut cf 0)))"

text \<open>The inode number that is created, and the members of its node.\<close>

definition create_number :: "'d redconf \<Rightarrow> u32 \<Rightarrow> ('d, u32) redM" where
  "create_number cf n = getR (\<lambda>s.
     if REDCONF_API_POSIX cf \<and> n = INODE_INVALID then InodeFindFree cf
     else if INODE_IS_VALID cf s n then
       bindR (RedInodeIsFree cf n) (\<lambda>fFree. if fFree then retR n else failR RED_EEXIST)
     else failR RED_EBADF)"

definition create_fields :: "'d redconf \<Rightarrow> nat \<Rightarrow> u32 \<Rightarrow> u16 \<Rightarrow> 'd redstate \<Rightarrow> 'd redstate" where
  "create_fields cf i ulPInode uMode s =
     (let now = RedOsClockGetTime cf (bdev s);
          s1 = (if REDCONF_INODE_TIMESTAMPS cf
                then stb32 cf i (INODE_ulCTime cf) now (stb32 cf i (INODE_ulMTime cf) now (stb32 cf i (INODE_ulATime cf) now s))
                else s);
          s2 = stb16 cf i (INODE_uMode cf) uMode s1
      in if REDCONF_API_POSIX cf
         then stb32 cf i (INODE_ulPInode cf) ulPInode
                (if REDCONF_API_POSIX_LINK cf then stb16 cf i (INODE_uNLink cf) 1 s2 else s2)
         else s2)"

definition RedInodeCreate :: "'d redconf \<Rightarrow> u32 \<Rightarrow> u16 \<Rightarrow> ('d, unit) inoM" where
  "RedInodeCreate cf ulPInode uMode = getI (\<lambda>c s.
     if REDCONF_API_POSIX cf \<and> \<not> INODE_IS_VALID cf s ulPInode
        \<and> (ulPInode \<noteq> INODE_INVALID \<or> ci_ulInode c \<noteq> INODE_ROOTDIR)
     then liftI (rederrorR RED_EINVAL)
     else
       bindR (modC (\<lambda>_. cinode0 0)) (\<lambda>_.
       bindR (liftI (create_number cf (ci_ulInode c))) (\<lambda>n.
       bindR (modC (\<lambda>c. c\<lparr>ci_ulInode := n\<rparr>)) (\<lambda>_.
       bindR (liftI (InodeGetWriteableCopy cf n)) (\<lambda>bWhich.
       bindR (liftI (bindR (InodeBlock cf n bWhich) (\<lambda>b.
         RedBufferGet cf b (BFLAG_META_INODE OR BFLAG_DIRTY OR BFLAG_NEW)))) (\<lambda>i.
       bindR (modC (\<lambda>c. c\<lparr>pInodeBuf := Some i\<rparr>)) (\<lambda>_.
       bindR (onerrR (liftI (InodeBitSet cf n bWhich True)) (\<lambda>(c, s). (c, RedBufferPut cf (pInodeBuf c) s))) (\<lambda>_.
       bindR (modS (create_fields cf i ulPInode uMode)) (\<lambda>_.
       bindR (modC (\<lambda>c. c\<lparr>ci_fBranched := True, fDirty := True\<rparr>)) (\<lambda>_.
       if REDCONF_API_POSIX cf
       then modS (upd_mr (\<lambda>m. m\<lparr>ulFreeInodes := ulFreeInodes m - 1\<rparr>))
       else skipR))))))))))"

text \<open>Free the slot of the inode that is allocated.\<close>

definition free_slot :: "'d redconf \<Rightarrow> u32 \<Rightarrow> ('d, unit) redM" where
  "free_slot cf n = getR (\<lambda>s.
     bindR (RedInodeBitGet cf (bCurMR (gpRedCoreVol s)) n 0) (\<lambda>fSlot0Allocated. getR (\<lambda>s.
     bindR (RedInodeBitGet cf (bCurMR (gpRedCoreVol s)) n 1) (\<lambda>fSlot1Allocated.
     if fSlot0Allocated then
       (if fSlot1Allocated then criticalR RED_EFUBAR else InodeBitSet cf n 0 False)
     else
       (if \<not> fSlot1Allocated then criticalR RED_EBADF else InodeBitSet cf n 1 False)))))"

definition RedInodeFree :: "'d redconf \<Rightarrow> ('d, unit) inoM" where
  "RedInodeFree cf = getI (\<lambda>c s.
     if \<not> CINODE_IS_MOUNTED cf c s then failR RED_EINVAL
     else
       bindR (modS (RedBufferDiscard cf (pInodeBuf c))) (\<lambda>_.
       bindR (modC (\<lambda>c. c\<lparr>pInodeBuf := None\<rparr>)) (\<lambda>_.
       bindR (finR (liftI (free_slot cf (ci_ulInode c))) (\<lambda>(c, s). (c\<lparr>ci_ulInode := INODE_INVALID\<rparr>, s))) (\<lambda>_.
       getI (\<lambda>c s.
         if ulFreeInodes (gpRedMR s) \<ge> ulInodeCount (gpRedVolConf cf s) then liftI (criticalR RED_EFUBAR)
         else modS (upd_mr (\<lambda>m. m\<lparr>ulFreeInodes := ulFreeInodes m + 1\<rparr>)))))))"

end
