(* ===== verification/InodeData.thy ===== *)
theory InodeData
  imports Inode
begin

text \<open>
  The data of an inode (\<^verbatim>\<open>core/driver/inodedata.c\<close>): seeking through the direct, indirect and double
  indirect pointers, reading, writing, branching and truncating. A caller's buffer is a byte
  list; reads return its new contents, which are not modelled when the read fails.

  The loops over blocks and entries are recursions on their range. The loops of \<open>Shrink\<close>, whose step
  depends on the seek coordinates, have fuel: one more step than there are blocks left cannot be
  needed when every step advances, and running out is recorded like a failed assertion.
\<close>

section \<open>Seeking\<close>

definition COORD_ENTRY_INVALID :: u16 where "COORD_ENTRY_INVALID = 0xFFFF"

datatype BRANCHDEPTH = BRANCHDEPTH_DINDIR | BRANCHDEPTH_INDIR | BRANCHDEPTH_FILE_DATA

abbreviation P2 :: "'d redconf \<Rightarrow> nat" where "P2 cf \<equiv> unat (BLOCK_SIZE_P2 cf)"

definition inode_entry :: "'d redconf \<Rightarrow> CINODE \<Rightarrow> u16 \<Rightarrow> 'd redstate \<Rightarrow> u32" where
  "inode_entry cf c e = ldb32 cf (the (pInodeBuf c)) (INODE_aulEntries cf (unat e))"

definition set_inode_entry :: "'d redconf \<Rightarrow> CINODE \<Rightarrow> u16 \<Rightarrow> u32 \<Rightarrow> 'd redstate \<Rightarrow> 'd redstate" where
  "set_inode_entry cf c e = stb32 cf (the (pInodeBuf c)) (INODE_aulEntries cf (unat e))"

definition inode_size :: "'d redconf \<Rightarrow> CINODE \<Rightarrow> 'd redstate \<Rightarrow> u64" where
  "inode_size cf c = ldb64 cf (the (pInodeBuf c)) INODE_ullSize"

definition set_inode_size :: "'d redconf \<Rightarrow> u64 \<Rightarrow> ('d, unit) inoM" where
  "set_inode_size cf ullSize = getI (\<lambda>c s. modS (stb64 cf (the (pInodeBuf c)) INODE_ullSize ullSize))"

text \<open>The three ranges of \<open>SeekCoord\<close>.\<close>

definition seek_direct :: "'d redconf \<Rightarrow> u32 \<Rightarrow> CINODE \<times> 'd redstate \<Rightarrow> CINODE \<times> 'd redstate" where
  "seek_direct cf blk x =
     (case (if REDCONF_DIRECT_POINTERS cf < INODE_ENTRIES cf then RedInodePutCoord cf x else x) of
        (c, s) \<Rightarrow>
          (c\<lparr>uInodeEntry := ucast blk, ulDataBlock := inode_entry cf c (ucast blk) s,
             uDindirEntry := (if DINDIR_POINTERS cf > 0 then COORD_ENTRY_INVALID else uDindirEntry c),
             uIndirEntry := (if REDCONF_DIRECT_POINTERS cf < INODE_ENTRIES cf then COORD_ENTRY_INVALID else uIndirEntry c)\<rparr>, s))"

definition seek_indir :: "'d redconf \<Rightarrow> u32 \<Rightarrow> CINODE \<times> 'd redstate \<Rightarrow> CINODE \<times> 'd redstate" where
  "seek_indir cf blk x =
     (let ulIndirRangeOffset = blk - of_nat (REDCONF_DIRECT_POINTERS cf);
          inoEntry = ucast (ulIndirRangeOffset div of_nat (INDIR_ENTRIES cf) + of_nat (REDCONF_DIRECT_POINTERS cf));
          indEntry = ucast (ulIndirRangeOffset mod of_nat (INDIR_ENTRIES cf));
          x1 = (if DINDIR_POINTERS cf > 0 then RedInodePutDindir cf x else x);
          x2 = (if uInodeEntry (fst x1) \<noteq> inoEntry \<or> \<not> fCoordInited (fst x1)
                then case RedInodePutIndir cf x1 of
                       (c, s) \<Rightarrow> (c\<lparr>uInodeEntry := inoEntry, ulIndirBlock := inode_entry cf c inoEntry s\<rparr>, s)
                else x1)
      in case x2 of (c, s) \<Rightarrow>
           (c\<lparr>uDindirEntry := (if DINDIR_POINTERS cf > 0 then COORD_ENTRY_INVALID else uDindirEntry c),
              uIndirEntry := indEntry\<rparr>, s))"

definition seek_dindir :: "'d redconf \<Rightarrow> u32 \<Rightarrow> CINODE \<times> 'd redstate \<Rightarrow> CINODE \<times> 'd redstate" where
  "seek_dindir cf blk x =
     (let ulDindirRangeOffset = (blk - of_nat (REDCONF_DIRECT_POINTERS cf)) - of_nat (INODE_INDIR_BLOCKS cf);
          inoEntry = ucast (ulDindirRangeOffset div of_nat (DINDIR_DATA_BLOCKS cf)
                       + of_nat (REDCONF_DIRECT_POINTERS cf) + of_nat (REDCONF_INDIRECT_POINTERS cf));
          ulDindirNodeOffset = ulDindirRangeOffset mod of_nat (DINDIR_DATA_BLOCKS cf);
          dinEntry = ucast (ulDindirNodeOffset div of_nat (INDIR_ENTRIES cf));
          indEntry = ucast (ulDindirNodeOffset mod of_nat (INDIR_ENTRIES cf));
          x1 = (if uInodeEntry (fst x) \<noteq> inoEntry \<or> \<not> fCoordInited (fst x)
                then case RedInodePutDindir cf (RedInodePutIndir cf x) of
                       (c, s) \<Rightarrow> (c\<lparr>uInodeEntry := inoEntry, ulDindirBlock := inode_entry cf c inoEntry s\<rparr>, s)
                else if uDindirEntry (fst x) \<noteq> dinEntry then RedInodePutIndir cf x
                else x)
      in case x1 of (c, s) \<Rightarrow> (c\<lparr>uDindirEntry := dinEntry, uIndirEntry := indEntry\<rparr>, s))"

definition SeekCoord :: "'d redconf \<Rightarrow> u32 \<Rightarrow> CINODE \<times> 'd redstate \<Rightarrow> CINODE \<times> 'd redstate" where
  "SeekCoord cf blk = (\<lambda>(c, s).
     if \<not> CINODE_IS_MOUNTED cf c s \<or> blk \<ge> INODE_DATA_BLOCKS cf then (c, REDERROR s)
     else if ulLogicalBlock c \<noteq> blk \<or> \<not> fCoordInited c then
       (let x = (case RedInodePutData cf (c, s) of (c1, s1) \<Rightarrow> (c1\<lparr>ulLogicalBlock := blk\<rparr>, s1));
            x1 = (if REDCONF_DIRECT_POINTERS cf > 0
                     \<and> (REDCONF_DIRECT_POINTERS cf < INODE_ENTRIES cf \<longrightarrow> blk < of_nat (REDCONF_DIRECT_POINTERS cf))
                  then seek_direct cf blk x
                  else if REDCONF_INDIRECT_POINTERS cf > 0
                     \<and> (REDCONF_INDIRECT_POINTERS cf < INODE_ENTRIES cf
                        \<longrightarrow> blk < of_nat (INODE_INDIR_BLOCKS cf + REDCONF_DIRECT_POINTERS cf))
                  then seek_indir cf blk x
                  else if DINDIR_POINTERS cf > 0 then seek_dindir cf blk x
                  else if REDCONF_DIRECT_POINTERS cf > 0 \<and> REDCONF_INDIRECT_POINTERS cf > 0
                  then (fst x, REDERROR (snd x))
                  else x)
        in case x1 of (c2, s2) \<Rightarrow> (c2\<lparr>fCoordInited := True\<rparr>, s2))
     else (c, s))"

text \<open>Follow the double indirect and the indirect pointers.\<close>

definition seek_read_dindir :: "'d redconf \<Rightarrow> ('d, unit) inoM" where
  "seek_read_dindir cf = getI (\<lambda>c s.
     if DINDIR_POINTERS cf > 0 \<and> uDindirEntry c \<noteq> COORD_ENTRY_INVALID then
       (if ulDindirBlock c = BLOCK_SPARSE then modC (\<lambda>c. c\<lparr>ulIndirBlock := BLOCK_SPARSE\<rparr>)
        else
          bindR (if pDindir c = None
                 then bindR (liftI (RedBufferGet cf (ulDindirBlock c) BFLAG_META_DINDIR)) (\<lambda>i.
                   modC (\<lambda>c. c\<lparr>pDindir := Some i\<rparr>))
                 else skipR) (\<lambda>_. getI (\<lambda>c s.
          modC (\<lambda>c. c\<lparr>ulIndirBlock := ldb32 cf (the (pDindir c)) (INDIR_aulEntries (unat (uDindirEntry c))) s\<rparr>))))
     else skipR)"

definition seek_read_indir :: "'d redconf \<Rightarrow> ('d, unit) inoM" where
  "seek_read_indir cf = getI (\<lambda>c s.
     if REDCONF_DIRECT_POINTERS cf < INODE_ENTRIES cf \<and> uIndirEntry c \<noteq> COORD_ENTRY_INVALID then
       (if ulIndirBlock c = BLOCK_SPARSE then modC (\<lambda>c. c\<lparr>ulDataBlock := BLOCK_SPARSE\<rparr>)
        else
          bindR (if pIndir c = None
                 then bindR (liftI (RedBufferGet cf (ulIndirBlock c) BFLAG_META_INDIR)) (\<lambda>i.
                   modC (\<lambda>c. c\<lparr>pIndir := Some i\<rparr>))
                 else skipR) (\<lambda>_. getI (\<lambda>c s.
          modC (\<lambda>c. c\<lparr>ulDataBlock := ldb32 cf (the (pIndir c)) (INDIR_aulEntries (unat (uIndirEntry c))) s\<rparr>))))
     else skipR)"

definition RedInodeDataSeek :: "'d redconf \<Rightarrow> u32 \<Rightarrow> ('d, unit) inoM" where
  "RedInodeDataSeek cf blk = getI (\<lambda>c s.
     if \<not> CINODE_IS_MOUNTED cf c s \<or> blk \<ge> INODE_DATA_BLOCKS cf then failR RED_EINVAL
     else
       bindR (modR (SeekCoord cf blk)) (\<lambda>_.
       bindR (seek_read_dindir cf) (\<lambda>_.
       bindR (seek_read_indir cf) (\<lambda>_. getI (\<lambda>c s.
       if ulDataBlock c = BLOCK_SPARSE then failR RED_ENODATA else skipR)))))"

text \<open>A seek after which a sparse block is fine.\<close>

definition seek_or_sparse :: "'d redconf \<Rightarrow> u32 \<Rightarrow> ('d, unit) inoM" where
  "seek_or_sparse cf blk = tryR (RedInodeDataSeek cf blk) (\<lambda>r.
     case r of Inl e \<Rightarrow> if e = RED_ENODATA then skipR else failR e | Inr _ \<Rightarrow> skipR)"

definition RedInodeDataSeekAndRead :: "'d redconf \<Rightarrow> u32 \<Rightarrow> ('d, unit) inoM" where
  "RedInodeDataSeekAndRead cf blk =
     bindR (RedInodeDataSeek cf blk) (\<lambda>_. getI (\<lambda>c s.
     if pbData c = None then
       bindR (modS (REDASSERT (ulDataBlock c \<noteq> BLOCK_SPARSE))) (\<lambda>_.
       bindR (liftI (RedBufferGet cf (ulDataBlock c) 0)) (\<lambda>i.
       modC (\<lambda>c. c\<lparr>pbData := Some i\<rparr>)))
     else skipR))"

text \<open>How many blocks from a block on are contiguous on the disk.\<close>

fun extent_run :: "'d redconf \<Rightarrow> u32 \<Rightarrow> u32 \<Rightarrow> nat \<Rightarrow> u32 \<Rightarrow> ('d, u32) inoM" where
  "extent_run cf blockStart first 0 runLen = retR runLen"
| "extent_run cf blockStart first (Suc n) runLen =
     tryR (RedInodeDataSeek cf (blockStart + runLen)) (\<lambda>r.
     case r of
       Inl e \<Rightarrow> if e = RED_ENODATA then retR runLen else failR e
     | Inr _ \<Rightarrow> getI (\<lambda>c s.
         if ulDataBlock c \<noteq> first + runLen then retR runLen
         else extent_run cf blockStart first n (runLen + 1)))"

definition GetExtent :: "'d redconf \<Rightarrow> u32 \<Rightarrow> u32 \<Rightarrow> ('d, u32 \<times> u32) inoM" where
  "GetExtent cf blockStart maxLen =
     bindR (RedInodeDataSeek cf blockStart) (\<lambda>_. getI (\<lambda>c s.
     bindR (extent_run cf blockStart (ulDataBlock c) (unat maxLen - 1) 1) (\<lambda>runLen.
     retR (ulDataBlock c, runLen))))"

end
