(* ===== verification/InodeIo.thy ===== *)
theory InodeIo
  imports InodeData
begin

text \<open>
  The rest of \<^verbatim>\<open>core/driver/inodedata.c\<close>: reading, branching, writing and truncating the data of an
  inode, and the two functions of \<^verbatim>\<open>core/driver/inode.c\<close> that delete inodes.
\<close>

section \<open>Stores into a caller's buffer\<close>

definition cpy_at :: "bytes \<Rightarrow> nat \<Rightarrow> bytes \<Rightarrow> nat \<Rightarrow> bytes" where
  "cpy_at dst off src n = take off dst @ RedMemCpyUnchecked (drop off dst) src n"

definition set_at :: "bytes \<Rightarrow> nat \<Rightarrow> u8 \<Rightarrow> nat \<Rightarrow> bytes" where
  "set_at dst off v n = take off dst @ RedMemSetUnchecked (drop off dst) v n"

section \<open>Reading\<close>

definition in_block :: "'d redconf \<Rightarrow> u64 \<Rightarrow> nat" where
  "in_block cf ullStart = unat (ullStart AND of_nat (REDCONF_BLOCK_SIZE cf - 1))"

text \<open>Whether an access stays in one block.\<close>

definition one_block :: "'d redconf \<Rightarrow> u64 \<Rightarrow> u32 \<Rightarrow> bool" where
  "one_block cf ullStart ulLen \<longleftrightarrow>
     drop_bit (P2 cf) ullStart = drop_bit (P2 cf) ((ullStart + ucast ulLen) - 1)"

definition ReadUnaligned :: "'d redconf \<Rightarrow> u64 \<Rightarrow> u32 \<Rightarrow> nat \<Rightarrow> bytes \<Rightarrow> ('d, bytes) inoM" where
  "ReadUnaligned cf ullStart ulLen idx buf =
     (if \<not> one_block cf ullStart ulLen then liftI (rederrorR RED_EINVAL)
      else tryR (RedInodeDataSeekAndRead cf (ucast (drop_bit (P2 cf) ullStart))) (\<lambda>r.
        case r of
          Inr _ \<Rightarrow> getI (\<lambda>c s.
            retR (cpy_at buf idx (drop (in_block cf ullStart) (aabBuffer s ! the (pbData c))) (unat ulLen)))
        | Inl e \<Rightarrow> if e = RED_ENODATA then retR (set_at buf idx 0 (unat ulLen)) else failR e))"

text \<open>A run has at least one block and at most as many as asked for.\<close>

lemma extent_run_len:
  "extent_run cf b f n k x = (Inr m, x') \<Longrightarrow> unat k + n < 2 ^ 32 \<Longrightarrow> unat k \<le> unat m \<and> unat m \<le> unat k + n"
proof (induction n arbitrary: k x)
  case 0
  then show ?case by (auto simp: red_simps)
next
  case (Suc n)
  have k1: "unat (k + 1) = unat k + 1" using Suc.prems(2) by (simp add: unat_word_ariths)
  from Suc.prems show ?case
    using Suc.IH [of "k + 1"] k1
    by (cases x) (fastforce simp: red_simps getI_def split: prod.splits sum.splits if_splits)
qed

lemma GetExtent_len:
  assumes "GetExtent cf b n x = (Inr (first, m), x')" and "n \<noteq> 0"
  shows "1 \<le> unat m \<and> unat m \<le> unat n"
proof -
  obtain x1 x2 where "extent_run cf b first (unat n - 1) 1 x1 = (Inr m, x2)"
    using assms(1) by (auto simp: GetExtent_def red_simps getI_def split: prod.splits sum.splits)
  then have "unat (1 :: u32) \<le> unat m \<and> unat m \<le> unat (1 :: u32) + (unat n - 1)"
    using unsigned_less [of n, where ?'a = nat] by (intro extent_run_len) (auto)
  moreover have "unat n \<noteq> 0" using assms(2) by (simp add: unat_eq_0)
  ultimately show ?thesis by simp
qed

text \<open>Flush and read one extent.\<close>

definition read_extent :: "'d redconf \<Rightarrow> u32 \<Rightarrow> u32 \<Rightarrow> nat \<Rightarrow> bytes \<Rightarrow> ('d, bytes) redM" where
  "read_extent cf first len off buf =
     bindR (RedBufferFlush cf first len) (\<lambda>_. getR (\<lambda>s.
     bindR (RedIoRead cf (gbRedVolNum s) first len (drop off buf)) (\<lambda>(ret, p).
     case ret of None \<Rightarrow> retR (take off buf @ p) | Some e \<Rightarrow> failR e)))"

function read_extents ::
  "'d redconf \<Rightarrow> u32 \<Rightarrow> u32 \<Rightarrow> nat \<Rightarrow> u32 \<Rightarrow> bytes \<Rightarrow> CINODE \<times> 'd redstate \<Rightarrow>
   (red_err + bytes) \<times> (CINODE \<times> 'd redstate)" where
  "read_extents cf start cnt idx i buf x =
     (if i < cnt then
        (case GetExtent cf (start + i) (cnt - i) x of
           (Inr (first, len), x1) \<Rightarrow>
             (case liftI (read_extent cf first len (idx + unat (push_bit (P2 cf) i)) buf) x1 of
                (Inr buf1, x2) \<Rightarrow> read_extents cf start cnt idx (i + len) buf1 x2
              | (Inl e, x2) \<Rightarrow> (Inl e, x2))
         | (Inl e, x1) \<Rightarrow>
             if e = RED_ENODATA
             then read_extents cf start cnt idx (i + 1)
                    (set_at buf (idx + unat (push_bit (P2 cf) i)) 0 (REDCONF_BLOCK_SIZE cf)) x1
             else (Inl e, x1))
      else (Inr buf, x))"
  by pat_completeness auto

lemma index_step:
  fixes i n m :: u32
  assumes "i < n" and "1 \<le> unat m" and "unat m \<le> unat (n - i)"
  shows "unat n - unat (i + m) < unat n - unat i" and "unat (i + m) = unat i + unat m" and "unat i + unat m \<le> unat n"
proof -
  have d: "unat (n - i) = unat n - unat i" using assms(1) by (simp add: unat_sub word_less_nat_alt word_le_nat_alt)
  have "unat i < unat n" using assms(1) by (simp add: word_less_nat_alt)
  then show "unat i + unat m \<le> unat n" using assms(3) d by simp
  then have "unat i + unat m < 2 ^ 32" using unsigned_less [of n, where ?'a = nat] by simp
  then show e: "unat (i + m) = unat i + unat m" by (simp add: unat_word_ariths)
  show "unat n - unat (i + m) < unat n - unat i" using e assms(2) \<open>unat i < unat n\<close> by simp
qed

lemma index_next:
  fixes i n :: u32
  assumes "i < n"
  shows "unat n - unat (i + 1) < unat n - unat i"
proof -
  have "1 \<le> unat (n - i)" using assms by (simp add: unat_sub word_less_nat_alt word_le_nat_alt)
  then show ?thesis using index_step(1) [OF assms, of 1] by simp
qed

lemma extent_step:
  fixes i n len :: u32
  assumes "i < n" and "(Inr (first, len), x1) = GetExtent cf b (n - i) x"
  shows "unat n - unat (i + len) < unat n - unat i"
proof -
  have "n - i \<noteq> 0" using assms(1) by auto
  from GetExtent_len [OF assms(2) [symmetric] this] show ?thesis using index_step(1) [OF assms(1), of len] by blast
qed

termination read_extents
  by (relation "measure (\<lambda>(cf, b, n, idx, i, buf, x). unat n - unat i)") (auto dest: index_next extent_step)

declare read_extents.simps [simp del]

definition ReadAligned :: "'d redconf \<Rightarrow> u32 \<Rightarrow> u32 \<Rightarrow> nat \<Rightarrow> bytes \<Rightarrow> ('d, bytes) inoM" where
  "ReadAligned cf start cnt idx buf = read_extents cf start cnt idx 0 buf"

text \<open>
  The three parts of a read or a write: the partial block at the start, the whole blocks and the
  partial block at the end. The state of the parts is the index into the buffer, the number of
  bytes that remain, and the buffer.
\<close>

definition read_head :: "'d redconf \<Rightarrow> u64 \<Rightarrow> u32 \<Rightarrow> bytes \<Rightarrow> ('d, u32 \<times> u32 \<times> bytes) inoM" where
  "read_head cf ullStart ulRemaining buf =
     (if ullStart AND of_nat (REDCONF_BLOCK_SIZE cf - 1) \<noteq> 0 then
        let ulBytesInFirstBlock = of_nat (REDCONF_BLOCK_SIZE cf) - ucast (ullStart AND of_nat (REDCONF_BLOCK_SIZE cf - 1));
            ulThisRead = min ulRemaining ulBytesInFirstBlock
        in bindR (ReadUnaligned cf ullStart ulThisRead 0 buf) (\<lambda>buf.
           retR (ulThisRead, ulRemaining - ulThisRead, buf))
      else retR (0, ulRemaining, buf))"

definition aligned :: "'d redconf \<Rightarrow> u64 \<Rightarrow> bool" where
  "aligned cf ullOff \<longleftrightarrow> ullOff AND of_nat (REDCONF_BLOCK_SIZE cf - 1) = 0"

definition read_whole :: "'d redconf \<Rightarrow> u64 \<Rightarrow> u32 \<Rightarrow> u32 \<Rightarrow> bytes \<Rightarrow> ('d, u32 \<times> u32 \<times> bytes) inoM" where
  "read_whole cf ullStart ulReadIndex ulRemaining buf =
     (if ulRemaining \<ge> of_nat (REDCONF_BLOCK_SIZE cf) then
        let ulBlockOffset = ucast (drop_bit (P2 cf) (ullStart + ucast ulReadIndex));
            cnt = drop_bit (P2 cf) ulRemaining
        in bindR (modS (REDASSERT (aligned cf (ullStart + ucast ulReadIndex)))) (\<lambda>_.
           bindR (ReadAligned cf ulBlockOffset cnt (unat ulReadIndex) buf) (\<lambda>buf.
           retR (ulReadIndex + push_bit (P2 cf) cnt, ulRemaining - push_bit (P2 cf) cnt, buf)))
      else retR (ulReadIndex, ulRemaining, buf))"

definition read_tail :: "'d redconf \<Rightarrow> u64 \<Rightarrow> u32 \<Rightarrow> u32 \<Rightarrow> bytes \<Rightarrow> ('d, bytes) inoM" where
  "read_tail cf ullStart ulReadIndex ulRemaining buf =
     (if ulRemaining > 0 then
        bindR (modS (REDASSERT (ulRemaining < of_nat (REDCONF_BLOCK_SIZE cf)))) (\<lambda>_.
        bindR (modS (REDASSERT (aligned cf (ullStart + ucast ulReadIndex)))) (\<lambda>_.
        ReadUnaligned cf (ullStart + ucast ulReadIndex) ulRemaining (unat ulReadIndex) buf))
      else retR buf)"

definition RedInodeDataRead :: "'d redconf \<Rightarrow> u64 \<Rightarrow> u32 \<Rightarrow> bytes \<Rightarrow> ('d, u32 \<times> bytes) inoM" where
  "RedInodeDataRead cf ullStart ulLen0 buf = getI (\<lambda>c s.
     if \<not> CINODE_IS_MOUNTED cf c s then failR RED_EINVAL
     else if ullStart \<ge> inode_size cf c s then retR (0, buf)
     else if ulLen0 = 0 then retR (0, buf)
     else
       let ulLen = (if inode_size cf c s - ullStart < ucast ulLen0 then ucast (inode_size cf c s - ullStart) else ulLen0)
       in bindR (read_head cf ullStart ulLen buf) (\<lambda>(ulReadIndex, ulRemaining, buf).
          bindR (read_whole cf ullStart ulReadIndex ulRemaining buf) (\<lambda>(ulReadIndex, ulRemaining, buf).
          bindR (read_tail cf ullStart ulReadIndex ulRemaining buf) (\<lambda>buf.
          retR (ulLen, buf)))))"

section \<open>Branching\<close>

definition FreeBlockCount :: "'d redconf \<Rightarrow> 'd redstate \<Rightarrow> u32" where
  "FreeBlockCount cf s =
     (let n = ulFreeBlocks (gpRedMR s) in
      if RESERVED_BLOCKS cf > 0 \<and> \<not> fUseReservedBlocks (gpRedCoreVol s)
      then (if n \<ge> RESERVED_BLOCKS cf then n - RESERVED_BLOCKS cf else 0)
      else n)"

text \<open>Whether a block exists and is already branched.\<close>

definition block_is_new :: "'d redconf \<Rightarrow> u32 \<Rightarrow> ('d, bool) redM" where
  "block_is_new cf b =
     (if b \<noteq> BLOCK_SPARSE then bindR (RedImapBlockState cf b) (\<lambda>state. retR (state = ALLOCSTATE_NEW))
      else retR False)"

definition BranchBlockCost :: "'d redconf \<Rightarrow> BRANCHDEPTH \<Rightarrow> ('d, u32) inoM" where
  "BranchBlockCost cf depth = getI (\<lambda>c s.
     if \<not> CINODE_IS_MOUNTED cf c s \<or> \<not> fCoordInited c then liftI (rederrorR RED_EINVAL)
     else
       let most = (if DINDIR_POINTERS cf > 0 then 3 else if REDCONF_DIRECT_POINTERS cf < INODE_ENTRIES cf then 2 else 1)
       in liftI (
         bindR (if DINDIR_POINTERS cf > 0
                then (if uDindirEntry c \<noteq> COORD_ENTRY_INVALID then block_is_new cf (ulDindirBlock c) else retR True)
                else retR False) (\<lambda>less.
         let cost1 = (if less then most - 1 else most) in
         bindR (if REDCONF_DIRECT_POINTERS cf < INODE_ENTRIES cf
                then (if uIndirEntry c \<noteq> COORD_ENTRY_INVALID \<and> depth \<noteq> BRANCHDEPTH_DINDIR
                      then block_is_new cf (ulIndirBlock c) else retR True)
                else retR False) (\<lambda>less.
         let cost2 = (if less then cost1 - 1 else cost1) in
         if depth = BRANCHDEPTH_FILE_DATA then
           bindR (block_is_new cf (ulDataBlock c)) (\<lambda>new.
           if new then bindR (modR (REDASSERT (cost2 - 1 = 0))) (\<lambda>_. retR (cost2 - 1)) else retR cost2)
         else retR (cost2 - 1)))))"

text \<open>
  \<open>BranchOneBlock\<close> works on a block number and a buffer of the cached inode. When the buffer is not
  wanted it is \<open>None\<close> and stays so.
\<close>

type_synonym ('d, 'a) blkM = "((u32 \<times> nat option) \<times> 'd redstate, 'a) red"

definition liftB :: "('d, 'a) redM \<Rightarrow> ('d, 'a) blkM" where
  "liftB m = (\<lambda>(p, s). case m s of (r, s') \<Rightarrow> (r, (p, s')))"

definition setB :: "(u32 \<times> nat option \<Rightarrow> u32 \<times> nat option) \<Rightarrow> ('d, unit) blkM" where
  "setB f = modR (\<lambda>(p, s). (f p, s))"

definition getB :: "(u32 \<Rightarrow> nat option \<Rightarrow> ('d, 'a) blkM) \<Rightarrow> ('d, 'a) blkM" where
  "getB f = (\<lambda>((b, p), s). f b p ((b, p), s))"

definition get_into :: "'d redconf \<Rightarrow> u32 \<Rightarrow> u16 \<Rightarrow> ('d, unit) blkM" where
  "get_into cf b fl = bindR (liftB (RedBufferGet cf b fl)) (\<lambda>i. setB (\<lambda>(b, _). (b, Some i)))"

definition BranchOneBlock :: "'d redconf \<Rightarrow> bool \<Rightarrow> u16 \<Rightarrow> ('d, unit) blkM" where
  "BranchOneBlock cf wanted uBFlag = getB (\<lambda>ulPrevBlock p.
     bindR (if ulPrevBlock \<noteq> BLOCK_SPARSE then liftB (RedImapBlockState cf ulPrevBlock) else retR ALLOCSTATE_FREE) (\<lambda>state.
     if state = ALLOCSTATE_NEW then
       (if \<not> wanted then skipR
        else case p of
            Some i \<Rightarrow> modR (\<lambda>(q, s). (q, RedBufferDirty cf (Some i) s))
          | None \<Rightarrow> get_into cf ulPrevBlock (uBFlag OR BFLAG_DIRTY))
     else
       bindR (liftB (RedImapAllocBlock cf)) (\<lambda>b.
       bindR (setB (\<lambda>(_, p). (b, p))) (\<lambda>_.
       if ulPrevBlock = BLOCK_SPARSE then
         (if \<not> wanted then skipR
          else case p of
              Some i \<Rightarrow> liftB (rederrorR RED_EINVAL)
            | None \<Rightarrow> get_into cf b (uBFlag OR BFLAG_NEW OR BFLAG_DIRTY))
       else
         bindR (if \<not> wanted then skipR
                else
                  bindR (case p of Some i \<Rightarrow> skipR | None \<Rightarrow> get_into cf ulPrevBlock uBFlag) (\<lambda>_.
                  modR (\<lambda>((b, p), s). ((b, p), RedBufferBranch cf p b s)))) (\<lambda>_.
         liftB (RedImapBlockSet cf ulPrevBlock False))))))"

definition on_dindir :: "('d, 'a) blkM \<Rightarrow> ('d, 'a) inoM" where
  "on_dindir m = (\<lambda>(c, s). case m ((ulDindirBlock c, pDindir c), s) of
     (r, ((b, p), s')) \<Rightarrow> (r, (c\<lparr>ulDindirBlock := b, pDindir := p\<rparr>, s')))"

definition on_indir :: "('d, 'a) blkM \<Rightarrow> ('d, 'a) inoM" where
  "on_indir m = (\<lambda>(c, s). case m ((ulIndirBlock c, pIndir c), s) of
     (r, ((b, p), s')) \<Rightarrow> (r, (c\<lparr>ulIndirBlock := b, pIndir := p\<rparr>, s')))"

definition on_data :: "('d, 'a) blkM \<Rightarrow> ('d, 'a) inoM" where
  "on_data m = (\<lambda>(c, s). case m ((ulDataBlock c, pbData c), s) of
     (r, ((b, p), s')) \<Rightarrow> (r, (c\<lparr>ulDataBlock := b, pbData := p\<rparr>, s')))"

definition branch_dindir :: "'d redconf \<Rightarrow> ('d, unit) inoM" where
  "branch_dindir cf = getI (\<lambda>c s.
     if DINDIR_POINTERS cf > 0 \<and> uDindirEntry c \<noteq> COORD_ENTRY_INVALID then
       bindR (on_dindir (BranchOneBlock cf True BFLAG_META_DINDIR)) (\<lambda>_. getI (\<lambda>c s.
       bindR (modS (stb32 cf (the (pDindir c)) INDIR_ulInode (ci_ulInode c))) (\<lambda>_.
       modS (set_inode_entry cf c (uInodeEntry c) (ulDindirBlock c)))))
     else skipR)"

definition branch_indir :: "'d redconf \<Rightarrow> BRANCHDEPTH \<Rightarrow> ('d, unit) inoM" where
  "branch_indir cf depth = getI (\<lambda>c s.
     if REDCONF_DIRECT_POINTERS cf < INODE_ENTRIES cf \<and> uIndirEntry c \<noteq> COORD_ENTRY_INVALID
        \<and> depth \<noteq> BRANCHDEPTH_DINDIR then
       bindR (on_indir (BranchOneBlock cf True BFLAG_META_INDIR)) (\<lambda>_. getI (\<lambda>c s.
       bindR (modS (stb32 cf (the (pIndir c)) INDIR_ulInode (ci_ulInode c))) (\<lambda>_.
       if DINDIR_POINTERS cf > 0 \<and> uDindirEntry c \<noteq> COORD_ENTRY_INVALID
       then modS (stb32 cf (the (pDindir c)) (INDIR_aulEntries (unat (uDindirEntry c))) (ulIndirBlock c))
       else modS (set_inode_entry cf c (uInodeEntry c) (ulIndirBlock c)))))
     else skipR)"

definition branch_data :: "'d redconf \<Rightarrow> BRANCHDEPTH \<Rightarrow> bool \<Rightarrow> ('d, unit) inoM" where
  "branch_data cf depth fBuffer = getI (\<lambda>c s.
     if depth = BRANCHDEPTH_FILE_DATA then
       let fAllocedNew = (ulDataBlock c = BLOCK_SPARSE) in
       bindR (on_data (BranchOneBlock cf (fBuffer \<or> pbData c \<noteq> None) 0)) (\<lambda>_. getI (\<lambda>c s.
       bindR (if REDCONF_DIRECT_POINTERS cf < INODE_ENTRIES cf \<and> uIndirEntry c \<noteq> COORD_ENTRY_INVALID
              then modS (stb32 cf (the (pIndir c)) (INDIR_aulEntries (unat (uIndirEntry c))) (ulDataBlock c))
              else modS (set_inode_entry cf c (uInodeEntry c) (ulDataBlock c))) (\<lambda>_. getI (\<lambda>c s.
       if REDCONF_INODE_BLOCKS cf \<and> fAllocedNew then
         let i = the (pInodeBuf c); n = ldb32 cf i INODE_ulBlocks s in
         (if n < INODE_DATA_BLOCKS cf then modS (stb32 cf i INODE_ulBlocks (n + 1))
          else liftI (criticalR RED_EFUBAR))
       else skipR))))
     else skipR)"

definition BranchBlock :: "'d redconf \<Rightarrow> BRANCHDEPTH \<Rightarrow> bool \<Rightarrow> ('d, unit) inoM" where
  "BranchBlock cf depth fBuffer =
     bindR (BranchBlockCost cf depth) (\<lambda>ulCost. getI (\<lambda>c s.
     if ulCost > FreeBlockCount cf s then failR RED_ENOSPC
     else critical_assertI (
       bindR (branch_dindir cf) (\<lambda>_.
       bindR (branch_indir cf depth) (\<lambda>_.
       branch_data cf depth fBuffer)))))"

end
