(* ===== verification/InodeWrite.thy ===== *)
theory InodeWrite
  imports InodeIo
begin

text \<open>
  Writing and truncating the data of an inode (\<^verbatim>\<open>core/driver/inodedata.c\<close>), and deleting inodes
  (\<^verbatim>\<open>core/driver/inode.c\<close>).
\<close>

section \<open>Writing\<close>

definition ExpandPrepare :: "'d redconf \<Rightarrow> ('d, unit) inoM" where
  "ExpandPrepare cf = getI (\<lambda>c s.
     if \<not> CINODE_IS_DIRTY cf c s then liftI (rederrorR RED_EINVAL)
     else
       let off = in_block cf (inode_size cf c s) in
       if off \<noteq> 0 then
         tryR (RedInodeDataSeek cf (ucast (drop_bit (P2 cf) (inode_size cf c s)))) (\<lambda>r.
         case r of
           Inl e \<Rightarrow> if e = RED_ENODATA then skipR else liftI (rederrorR e)
         | Inr _ \<Rightarrow>
             bindR (BranchBlock cf BRANCHDEPTH_FILE_DATA True) (\<lambda>_. getI (\<lambda>c s.
             let i = the (pbData c) in
             modS (set_buf i (set_at (aabBuffer s ! i) off 0 (REDCONF_BLOCK_SIZE cf - off))))))
       else skipR)"

definition WriteUnaligned :: "'d redconf \<Rightarrow> u64 \<Rightarrow> u32 \<Rightarrow> bytes \<Rightarrow> ('d, unit) inoM" where
  "WriteUnaligned cf ullStart ulLen src =
     (if \<not> one_block cf ullStart ulLen then liftI (rederrorR RED_EINVAL)
      else
        bindR (seek_or_sparse cf (ucast (drop_bit (P2 cf) ullStart))) (\<lambda>_.
        bindR (BranchBlock cf BRANCHDEPTH_FILE_DATA True) (\<lambda>_. getI (\<lambda>c s.
        let i = the (pbData c) in
        modS (set_buf i (cpy_at (aabBuffer s ! i) (in_block cf ullStart) src (unat ulLen)))))))"

text \<open>
  Branch the blocks of the range in advance. Result: the index the loop ends with and whether the
  disk was full.
\<close>

fun branch_blocks :: "'d redconf \<Rightarrow> u32 \<Rightarrow> nat \<Rightarrow> u32 \<Rightarrow> ('d, u32 \<times> bool) inoM" where
  "branch_blocks cf start 0 i = retR (i, False)"
| "branch_blocks cf start (Suc n) i =
     bindR (seek_or_sparse cf (start + i)) (\<lambda>_.
     tryR (BranchBlock cf BRANCHDEPTH_FILE_DATA False) (\<lambda>r.
     case r of
       Inl e \<Rightarrow> if e = RED_ENOSPC \<and> i > 0 then retR (i + 1, True) else failR e
     | Inr _ \<Rightarrow> branch_blocks cf start n (i + 1)))"

text \<open>Write one extent and discard the buffers it makes stale.\<close>

definition write_extent :: "'d redconf \<Rightarrow> u32 \<Rightarrow> u32 \<Rightarrow> bytes \<Rightarrow> ('d, unit) redM" where
  "write_extent cf first len src = getR (\<lambda>s.
     bindR (RedIoWrite cf (gbRedVolNum s) first len src) (\<lambda>_.
     RedBufferDiscardRange cf first len))"

function write_extents ::
  "'d redconf \<Rightarrow> u32 \<Rightarrow> u32 \<Rightarrow> u32 \<Rightarrow> bytes \<Rightarrow> CINODE \<times> 'd redstate \<Rightarrow>
   (red_err + unit) \<times> (CINODE \<times> 'd redstate)" where
  "write_extents cf start cnt i src x =
     (if i < cnt then
        (case GetExtent cf (start + i) (cnt - i) x of
           (Inr (first, len), x1) \<Rightarrow>
             (case liftI (write_extent cf first len (drop (unat (push_bit (P2 cf) i)) src)) x1 of
                (Inr _, x2) \<Rightarrow> write_extents cf start cnt (i + len) src x2
              | (Inl e, x2) \<Rightarrow> (Inl e, x2))
         | (Inl e, x1) \<Rightarrow> (Inl e, x1))
      else (Inr (), x))"
  by pat_completeness auto
termination
  by (relation "measure (\<lambda>(cf, b, n, i, src, x). unat n - unat i)") (auto dest: extent_step)

declare write_extents.simps [simp del]

definition WriteAligned :: "'d redconf \<Rightarrow> u32 \<Rightarrow> u32 \<Rightarrow> bytes \<Rightarrow> ('d, u32) inoM" where
  "WriteAligned cf start cnt src =
     bindR (branch_blocks cf start (unat cnt) 0) (\<lambda>(i, fFull).
     let cnt' = (if fFull then i - 1 else i) in
     bindR (write_extents cf start cnt' 0 src) (\<lambda>_. retR cnt'))"

definition write_head :: "'d redconf \<Rightarrow> u64 \<Rightarrow> u32 \<Rightarrow> bytes \<Rightarrow> ('d, u32 \<times> u32) inoM" where
  "write_head cf ullStart ulRemaining src =
     (if ullStart AND of_nat (REDCONF_BLOCK_SIZE cf - 1) \<noteq> 0 \<or> ulRemaining < of_nat (REDCONF_BLOCK_SIZE cf) then
        let ulBytesInFirstBlock = of_nat (REDCONF_BLOCK_SIZE cf) - ucast (ullStart AND of_nat (REDCONF_BLOCK_SIZE cf - 1));
            ulThisWrite = min ulRemaining ulBytesInFirstBlock
        in bindR (WriteUnaligned cf ullStart ulThisWrite src) (\<lambda>_.
           retR (ulThisWrite, ulRemaining - ulThisWrite))
      else retR (0, ulRemaining))"

definition write_whole :: "'d redconf \<Rightarrow> u64 \<Rightarrow> u32 \<Rightarrow> u32 \<Rightarrow> bytes \<Rightarrow> ('d, u32 \<times> u32) inoM" where
  "write_whole cf ullStart ulWriteIndex ulRemaining src =
     (if ulRemaining \<ge> of_nat (REDCONF_BLOCK_SIZE cf) then
        let ulBlockOffset = ucast (drop_bit (P2 cf) (ullStart + ucast ulWriteIndex));
            cnt = drop_bit (P2 cf) ulRemaining
        in bindR (modS (REDASSERT (aligned cf (ullStart + ucast ulWriteIndex)))) (\<lambda>_.
           bindR (tryR (WriteAligned cf ulBlockOffset cnt (drop (unat ulWriteIndex) src)) (\<lambda>r.
             case r of
               Inl e \<Rightarrow> if e = RED_ENOSPC \<and> ulWriteIndex > 0 then retR 0 else failR e
             | Inr n \<Rightarrow> retR n)) (\<lambda>ulBlocksWritten.
           retR (ulWriteIndex + push_bit (P2 cf) ulBlocksWritten,
                 if ulBlocksWritten < cnt then 0 else ulRemaining - push_bit (P2 cf) ulBlocksWritten)))
      else retR (ulWriteIndex, ulRemaining))"

definition write_tail :: "'d redconf \<Rightarrow> u64 \<Rightarrow> u32 \<Rightarrow> u32 \<Rightarrow> u32 \<Rightarrow> bytes \<Rightarrow> ('d, u32) inoM" where
  "write_tail cf ullStart ulLen ulWriteIndex ulRemaining src =
     (if ulRemaining > 0 then
        bindR (modS (REDASSERT (ulRemaining < of_nat (REDCONF_BLOCK_SIZE cf)))) (\<lambda>_.
        bindR (modS (REDASSERT (aligned cf (ullStart + ucast ulWriteIndex)))) (\<lambda>_.
        bindR (modS (REDASSERT (ulWriteIndex > 0))) (\<lambda>_.
        tryR (WriteUnaligned cf (ullStart + ucast ulWriteIndex) ulRemaining (drop (unat ulWriteIndex) src)) (\<lambda>r.
        case r of
          Inl e \<Rightarrow> if e = RED_ENOSPC then retR ulWriteIndex else failR e
        | Inr _ \<Rightarrow> bindR (modS (REDASSERT (ulWriteIndex + ulRemaining = ulLen))) (\<lambda>_.
            retR (ulWriteIndex + ulRemaining))))))
      else retR ulWriteIndex)"

definition RedInodeDataWrite :: "'d redconf \<Rightarrow> u64 \<Rightarrow> u32 \<Rightarrow> bytes \<Rightarrow> ('d, u32) inoM" where
  "RedInodeDataWrite cf ullStart ulLen0 src = getI (\<lambda>c s.
     if \<not> CINODE_IS_DIRTY cf c s then failR RED_EINVAL
     else if ullStart > INODE_SIZE_MAX cf \<or> ullStart = INODE_SIZE_MAX cf \<and> ulLen0 > 0 then failR RED_EFBIG
     else if ulLen0 = 0 then retR 0
     else
       let ulLen = (if INODE_SIZE_MAX cf - ullStart < ucast ulLen0 then ucast (INODE_SIZE_MAX cf - ullStart) else ulLen0)
       in bindR (if ullStart > inode_size cf c s then ExpandPrepare cf else skipR) (\<lambda>_.
          bindR (write_head cf ullStart ulLen src) (\<lambda>(ulWriteIndex, ulRemaining).
          bindR (write_whole cf ullStart ulWriteIndex ulRemaining src) (\<lambda>(ulWriteIndex, ulRemaining).
          bindR (write_tail cf ullStart ulLen ulWriteIndex ulRemaining src) (\<lambda>ulWriteIndex. getI (\<lambda>c s.
          bindR (if ullStart + ucast ulWriteIndex > inode_size cf c s
                 then set_inode_size cf (ullStart + ucast ulWriteIndex) else skipR) (\<lambda>_.
          retR ulWriteIndex)))))))"

section \<open>Truncating\<close>

text \<open>The block pointer is the member at an offset of the node in a buffer.\<close>

definition TruncDataBlock :: "'d redconf \<Rightarrow> nat \<Rightarrow> nat \<Rightarrow> bool \<Rightarrow> ('d, unit) inoM" where
  "TruncDataBlock cf i off fPropagate = getI (\<lambda>c s.
     if \<not> CINODE_IS_MOUNTED cf c s then liftI (rederrorR RED_EINVAL)
     else if ldb32 cf i off s \<noteq> BLOCK_SPARSE then
       bindR (liftI (RedImapBlockSet cf (ldb32 cf i off s) False)) (\<lambda>_.
       bindR (getI (\<lambda>c s.
         let k = the (pInodeBuf c) in
         if \<not> REDCONF_INODE_BLOCKS cf then skipR
         else if ldb32 cf k INODE_ulBlocks s = 0 then liftI (criticalR RED_EFUBAR)
         else modS (stb32 cf k INODE_ulBlocks (ldb32 cf k INODE_ulBlocks s - 1)))) (\<lambda>_.
       if fPropagate then modS (stb32 cf i off BLOCK_SPARSE) else skipR))
     else skipR)"

fun trunc_data_blocks :: "'d redconf \<Rightarrow> bool \<Rightarrow> nat list \<Rightarrow> ('d, unit) inoM" where
  "trunc_data_blocks cf fBranch [] = skipR"
| "trunc_data_blocks cf fBranch (e # es) = getI (\<lambda>c s.
     bindR (TruncDataBlock cf (the (pIndir c)) (INDIR_aulEntries e) fBranch) (\<lambda>_.
     trunc_data_blocks cf fBranch es))"

text \<open>Whether one of the first entries of the node in a buffer points to a block.\<close>

definition some_entry :: "'d redconf \<Rightarrow> nat \<Rightarrow> u16 \<Rightarrow> 'd redstate \<Rightarrow> bool" where
  "some_entry cf i n s \<longleftrightarrow> list_ex (\<lambda>e. ldb32 cf i (INDIR_aulEntries e) s \<noteq> BLOCK_SPARSE) [0..<unat n]"

definition TruncIndir :: "'d redconf \<Rightarrow> ('d, bool) inoM" where
  "TruncIndir cf = getI (\<lambda>c s.
     if \<not> CINODE_IS_MOUNTED cf c s then liftI (rederrorR RED_EINVAL)
     else case pIndir c of
         None \<Rightarrow> retR False
       | Some i \<Rightarrow>
           let fBranch = some_entry cf i (uIndirEntry c) s in
           bindR (if fBranch then BranchBlock cf BRANCHDEPTH_INDIR False else skipR) (\<lambda>_. getI (\<lambda>c s.
           bindR (trunc_data_blocks cf fBranch [unat (uIndirEntry c)..<INDIR_ENTRIES cf]) (\<lambda>_.
           if fBranch then retR False
           else
             bindR (modR (RedInodePutIndir cf)) (\<lambda>_. getI (\<lambda>c s.
             bindR (liftI (RedImapBlockSet cf (ulIndirBlock c) False)) (\<lambda>_. retR True)))))))"

fun trunc_indirs :: "'d redconf \<Rightarrow> bool \<Rightarrow> nat \<Rightarrow> nat list \<Rightarrow> u32 \<Rightarrow> ('d, unit) inoM" where
  "trunc_indirs cf fBranch uStart [] blk = skipR"
| "trunc_indirs cf fBranch uStart (e # es) blk =
     bindR (seek_or_sparse cf blk) (\<lambda>_. getI (\<lambda>c s.
     bindR (if ulIndirBlock c \<noteq> BLOCK_SPARSE then
              bindR (TruncIndir cf) (\<lambda>fIndirFreed.
              bindR (modS (REDASSERT (e = uStart \<or> fIndirFreed))) (\<lambda>_.
              bindR (modS (REDASSERT (fIndirFreed \<or> fBranch))) (\<lambda>_. getI (\<lambda>c s.
              if fBranch \<and> fIndirFreed then modS (stb32 cf (the (pDindir c)) (INDIR_aulEntries e) BLOCK_SPARSE)
              else skipR))))
            else skipR) (\<lambda>_. getI (\<lambda>c s.
     trunc_indirs cf fBranch uStart es (blk + (of_nat (INDIR_ENTRIES cf) - ucast (uIndirEntry c)))))))"

definition TruncDindir :: "'d redconf \<Rightarrow> ('d, bool) inoM" where
  "TruncDindir cf = getI (\<lambda>c s.
     if \<not> CINODE_IS_MOUNTED cf c s then liftI (rederrorR RED_EINVAL)
     else case pDindir c of
         None \<Rightarrow> retR False
       | Some i \<Rightarrow>
           let fBranch = some_entry cf i (uDindirEntry c) s
                 \<or> ldb32 cf i (INDIR_aulEntries (unat (uDindirEntry c))) s \<noteq> BLOCK_SPARSE
                   \<and> some_entry cf (the (pIndir c)) (uIndirEntry c) s in
           bindR (if fBranch then BranchBlock cf BRANCHDEPTH_DINDIR False else skipR) (\<lambda>_. getI (\<lambda>c s.
           bindR (trunc_indirs cf fBranch (unat (uDindirEntry c)) [unat (uDindirEntry c)..<INDIR_ENTRIES cf]
                    (ulLogicalBlock c)) (\<lambda>_.
           if fBranch then retR False
           else
             bindR (modR (RedInodePutDindir cf)) (\<lambda>_. getI (\<lambda>c s.
             bindR (liftI (RedImapBlockSet cf (ulDindirBlock c) False)) (\<lambda>_. retR True)))))))"

fun shrink_direct :: "'d redconf \<Rightarrow> nat list \<Rightarrow> ('d, unit) inoM" where
  "shrink_direct cf [] = skipR"
| "shrink_direct cf (e # es) = getI (\<lambda>c s.
     bindR (TruncDataBlock cf (the (pInodeBuf c)) (INODE_aulEntries cf e) True) (\<lambda>_. shrink_direct cf es))"

definition no_return :: "('d, 'a) inoM" where
  "no_return = liftI (rederrorR RED_EFUBAR)"

fun shrink_indirs :: "'d redconf \<Rightarrow> nat \<Rightarrow> u32 \<Rightarrow> ('d, u32) inoM" where
  "shrink_indirs cf fuel ulTruncBlock =
     (if ulTruncBlock < of_nat (REDCONF_DIRECT_POINTERS cf + INODE_INDIR_BLOCKS cf) then
        (case fuel of
           0 \<Rightarrow> no_return
         | Suc n \<Rightarrow>
             bindR (seek_or_sparse cf ulTruncBlock) (\<lambda>_.
             bindR (TruncIndir cf) (\<lambda>fFreed. getI (\<lambda>c s.
             bindR (if fFreed then modS (set_inode_entry cf c (uInodeEntry c) BLOCK_SPARSE) else skipR) (\<lambda>_.
             shrink_indirs cf n (ulTruncBlock + (of_nat (INDIR_ENTRIES cf) - ucast (uIndirEntry c))))))))
      else retR ulTruncBlock)"

fun shrink_dindirs :: "'d redconf \<Rightarrow> nat \<Rightarrow> u32 \<Rightarrow> ('d, unit) inoM" where
  "shrink_dindirs cf fuel ulTruncBlock =
     (if ulTruncBlock < INODE_DATA_BLOCKS cf then
        (case fuel of
           0 \<Rightarrow> no_return
         | Suc n \<Rightarrow>
             bindR (seek_or_sparse cf ulTruncBlock) (\<lambda>_. getI (\<lambda>orig s.
             bindR (TruncDindir cf) (\<lambda>fFreed. getI (\<lambda>c s.
             bindR (if fFreed then modS (set_inode_entry cf c (uInodeEntry orig) BLOCK_SPARSE) else skipR) (\<lambda>_.
             shrink_dindirs cf n (ulTruncBlock
               + ((of_nat (DINDIR_DATA_BLOCKS cf) - ucast (uDindirEntry orig) * of_nat (INDIR_ENTRIES cf))
                  - ucast (uIndirEntry orig)))))))))
      else skipR)"

declare shrink_indirs.simps [simp del] shrink_dindirs.simps [simp del]

definition Shrink :: "'d redconf \<Rightarrow> u64 \<Rightarrow> ('d, unit) inoM" where
  "Shrink cf ullSize = getI (\<lambda>c s.
     if \<not> CINODE_IS_MOUNTED cf c s \<or> ullSize > 0 \<and> \<not> fDirty c then liftI (rederrorR RED_EINVAL)
     else
       let trunc = ucast (drop_bit (P2 cf) (ullSize + of_nat (REDCONF_BLOCK_SIZE cf) - 1)) :: u32;
           start = (if trunc < of_nat (REDCONF_DIRECT_POINTERS cf) then of_nat (REDCONF_DIRECT_POINTERS cf) else trunc)
       in
       bindR (modR (RedInodePutData cf)) (\<lambda>_.
       bindR (shrink_direct cf [unat trunc..<REDCONF_DIRECT_POINTERS cf]) (\<lambda>_.
       bindR (if REDCONF_INDIRECT_POINTERS cf > 0
              then shrink_indirs cf (REDCONF_DIRECT_POINTERS cf + INODE_INDIR_BLOCKS cf) start else retR start) (\<lambda>start.
       if DINDIR_POINTERS cf > 0 then shrink_dindirs cf (unat (INODE_DATA_BLOCKS cf)) start else skipR))))"

definition RedInodeDataTruncate :: "'d redconf \<Rightarrow> u64 \<Rightarrow> ('d, unit) inoM" where
  "RedInodeDataTruncate cf ullSize = getI (\<lambda>c s.
     if \<not> CINODE_IS_MOUNTED cf c s then failR RED_EINVAL
     else if ullSize > INODE_SIZE_MAX cf then failR RED_EFBIG
     else
       bindR (if ullSize > inode_size cf c s then ExpandPrepare cf
              else if ullSize < inode_size cf c s then Shrink cf ullSize else skipR) (\<lambda>_.
       set_inode_size cf ullSize))"

section \<open>Deleting\<close>

definition RedInodeDelete :: "'d redconf \<Rightarrow> ('d, unit) inoM" where
  "RedInodeDelete cf = getI (\<lambda>c s.
     if \<not> CINODE_IS_MOUNTED cf c s then failR RED_EINVAL
     else bindR (if inode_size cf c s \<noteq> 0 then RedInodeDataTruncate cf 0 else skipR) (\<lambda>_. RedInodeFree cf))"

definition RedInodeLinkDec :: "'d redconf \<Rightarrow> ('d, unit) inoM" where
  "RedInodeLinkDec cf = getI (\<lambda>c s.
     if \<not> CINODE_IS_MOUNTED cf c s then failR RED_EINVAL
     else if REDCONF_API_POSIX_LINK cf \<and> ldb16 cf (the (pInodeBuf c)) (INODE_uNLink cf) s > 1 then
       bindR (RedInodeBranch cf) (\<lambda>_. getI (\<lambda>c s.
       let i = the (pInodeBuf c) in
       modS (stb16 cf i (INODE_uNLink cf) (ldb16 cf i (INODE_uNLink cf) s - 1))))
     else RedInodeDelete cf)"

end
