(* ===== verification/Dir.thy ===== *)
theory Dir
  imports InodeWrite
begin

text \<open>
  Directories (\<^verbatim>\<open>core/driver/dir.c\<close>). The data of a directory is an array of entries, a number of
  them in each block; an entry is the number of an inode and a name. A name that a caller passes is
  the memory from its pointer on, \<open>None\<close> for a null pointer, and \<open>oob\<close> stands for what is not
  defined in C: a name that runs out of its memory.
\<close>

section \<open>Entries\<close>

definition DIR_INDEX_INVALID :: u32 where "DIR_INDEX_INVALID = 0xFFFFFFFF"

definition DIRENT_PADDING :: "'d redconf \<Rightarrow> nat" where
  "DIRENT_PADDING cf = (if REDCONF_NAME_MAX cf mod 4 \<noteq> 0 then 4 - REDCONF_NAME_MAX cf mod 4 else 0)"

definition DIRENT_SIZE :: "'d redconf \<Rightarrow> nat" where
  "DIRENT_SIZE cf = 4 + REDCONF_NAME_MAX cf + DIRENT_PADDING cf"

definition DIRENTS_PER_BLOCK :: "'d redconf \<Rightarrow> nat" where
  "DIRENTS_PER_BLOCK cf = REDCONF_BLOCK_SIZE cf div DIRENT_SIZE cf"

abbreviation DPB :: "'d redconf \<Rightarrow> u32" where
  "DPB cf \<equiv> of_nat (DIRENTS_PER_BLOCK cf)"

definition DIRENTS_MAX :: "'d redconf \<Rightarrow> u32" where
  "DIRENTS_MAX cf = of_nat (min (2 ^ 32 - 1) (unat (INODE_DATA_BLOCKS cf) * DIRENTS_PER_BLOCK cf))"

text \<open>The members of the entry with an index in a block.\<close>

definition DIRENT_ulInode :: "'d redconf \<Rightarrow> nat \<Rightarrow> nat" where
  "DIRENT_ulInode cf k = k * DIRENT_SIZE cf"

definition DIRENT_acName :: "'d redconf \<Rightarrow> nat \<Rightarrow> nat" where
  "DIRENT_acName cf k = k * DIRENT_SIZE cf + 4"

definition dirent_inode :: "'d redconf \<Rightarrow> bytes \<Rightarrow> nat \<Rightarrow> u32" where
  "dirent_inode cf p k = ld32 (REDCONF_ENDIAN_BIG cf) p (DIRENT_ulInode cf k)"

definition dirent_name :: "'d redconf \<Rightarrow> bytes \<Rightarrow> nat \<Rightarrow> bytes" where
  "dirent_name cf p k = drop (DIRENT_acName cf k) p"

text \<open>The number in an entry, in the byte order of the machine.\<close>

definition dirent_number :: "'d redconf \<Rightarrow> u32 \<Rightarrow> u32" where
  "dirent_number cf n = (if REDCONF_ENDIAN_SWAP cf then RedRev32 n else n)"

definition DirEntryIndexToOffset :: "'d redconf \<Rightarrow> u32 \<Rightarrow> u64" where
  "DirEntryIndexToOffset cf ulIdx =
     (let ulBlock = ulIdx div DPB cf; ulOffsetInBlock = ulIdx mod DPB cf
      in push_bit (P2 cf) (ucast ulBlock) + ucast ulOffsetInBlock * of_nat (DIRENT_SIZE cf))"

definition DirOffsetToEntryIndex :: "'d redconf \<Rightarrow> u64 \<Rightarrow> u32" where
  "DirOffsetToEntryIndex cf ullOffset =
     ucast (drop_bit (P2 cf) ullOffset) * DPB cf + of_nat (in_block cf ullOffset) div of_nat (DIRENT_SIZE cf)"

text \<open>The assertions of the two functions.\<close>

definition assert_index :: "'d redconf \<Rightarrow> u32 \<Rightarrow> ('d, unit) inoM" where
  "assert_index cf ulIdx = modS (REDASSERT (ulIdx < DIRENTS_MAX cf))"

definition assert_offset :: "'d redconf \<Rightarrow> u64 \<Rightarrow> ('d, unit) inoM" where
  "assert_offset cf ullOffset =
     bindR (modS (REDASSERT (ullOffset < INODE_SIZE_MAX cf))) (\<lambda>_.
     modS (REDASSERT (in_block cf ullOffset mod DIRENT_SIZE cf = 0)))"

section \<open>Searching\<close>

definition oob :: "('d, 'a) inoM" where
  "oob = liftI (rederrorR RED_EFUBAR)"

definition name_length :: "'d redconf \<Rightarrow> bytes option \<Rightarrow> u32 option" where
  "name_length cf pszName = map_option of_nat (RedNameLen (REDCONF_PATH_SEPARATOR cf) pszName)"

text \<open>Whether an entry has the name.\<close>

definition dirent_matches :: "'d redconf \<Rightarrow> bytes option \<Rightarrow> u32 \<Rightarrow> bytes \<Rightarrow> nat \<Rightarrow> bool" where
  "dirent_matches cf pszName ulNameLen p k \<longleftrightarrow>
     RedStrNCmp (Some (dirent_name cf p k)) pszName (unat ulNameLen) = Some 0
     \<and> (unat ulNameLen = REDCONF_NAME_MAX cf \<or> dirent_name cf p k ! unat ulNameLen = 0)"

text \<open>
  The loop over the entries of a block. Result: the index in the block of the entry that matches,
  if there is one, and the index of the first free entry found so far.
\<close>

fun lookup_block :: "'d redconf \<Rightarrow> bytes option \<Rightarrow> u32 \<Rightarrow> bytes \<Rightarrow> u32 \<Rightarrow> nat list \<Rightarrow> u32 \<Rightarrow> nat option \<times> u32" where
  "lookup_block cf pszName ulNameLen p ulIdx [] ulFreeIdx = (None, ulFreeIdx)"
| "lookup_block cf pszName ulNameLen p ulIdx (k # ks) ulFreeIdx =
     (if dirent_inode cf p k \<noteq> INODE_INVALID then
        (if dirent_matches cf pszName ulNameLen p k then (Some k, ulFreeIdx)
         else lookup_block cf pszName ulNameLen p ulIdx ks ulFreeIdx)
      else lookup_block cf pszName ulNameLen p ulIdx ks
             (if ulFreeIdx = DIR_INDEX_INVALID then ulIdx + of_nat k else ulFreeIdx))"

text \<open>
  The loop over the blocks. Result: the index the loop ends with, the number of the inode if an
  entry matched, and the first free index. The index grows in every pass unless it wraps, so there
  are no more passes than entries; a loop that is not done by then has wrapped.
\<close>

fun lookup_blocks ::
  "'d redconf \<Rightarrow> bytes option \<Rightarrow> u32 \<Rightarrow> u32 \<Rightarrow> nat \<Rightarrow> u32 \<Rightarrow> u32 \<Rightarrow> ('d, u32 \<times> u32 option \<times> u32) inoM"
where
  "lookup_blocks cf pszName ulNameLen cnt fuel ulIdx ulFreeIdx =
     (if ulIdx < cnt then
        (case fuel of
           0 \<Rightarrow> no_return
         | Suc n \<Rightarrow>
             tryR (RedInodeDataSeekAndRead cf (ulIdx div DPB cf)) (\<lambda>r.
             case r of
               Inr _ \<Rightarrow> getI (\<lambda>c s.
                 let p = aabBuffer s ! the (pbData c); last = min (DPB cf) (cnt - ulIdx) in
                 case lookup_block cf pszName ulNameLen p ulIdx [0..<unat last] ulFreeIdx of
                   (Some k, free) \<Rightarrow> retR (ulIdx + of_nat k, Some (dirent_number cf (dirent_inode cf p k)), free)
                 | (None, free) \<Rightarrow> lookup_blocks cf pszName ulNameLen cnt n (ulIdx + last) free)
             | Inl e \<Rightarrow>
                 if e = RED_ENODATA
                 then lookup_blocks cf pszName ulNameLen cnt n (ulIdx + DPB cf)
                        (if ulFreeIdx = DIR_INDEX_INVALID then ulIdx else ulFreeIdx)
                 else failR e))
      else retR (ulIdx, None, ulFreeIdx))"

declare lookup_blocks.simps [simp del]

text \<open>
  Result: the status, \<open>RED_ENOENT\<close> or success, and the out-parameters: the index of the entry, or of
  the first free one, and the number of the inode. \<open>ino0\<close> is \<^verbatim>\<open>*pulInode\<close> before the call.
\<close>

definition RedDirEntryLookup ::
  "'d redconf \<Rightarrow> bytes option \<Rightarrow> u32 \<Rightarrow> ('d, red_err option \<times> u32 \<times> u32) inoM" where
  "RedDirEntryLookup cf pszName ino0 = getI (\<lambda>c s.
     if \<not> CINODE_IS_MOUNTED cf c s \<or> pszName = None then failR RED_EINVAL
     else if \<not> fDirectory c then failR RED_ENOTDIR
     else case name_length cf pszName of
         None \<Rightarrow> oob
       | Some ulNameLen \<Rightarrow>
           if ulNameLen = 0 then failR RED_EINVAL
           else if unat ulNameLen > REDCONF_NAME_MAX cf then failR RED_ENAMETOOLONG
           else
             bindR (assert_offset cf (inode_size cf c s)) (\<lambda>_.
             let cnt = DirOffsetToEntryIndex cf (inode_size cf c s) in
             bindR (lookup_blocks cf pszName ulNameLen cnt (unat cnt) 0 DIR_INDEX_INVALID) (\<lambda>(ulIdx, found, ulFreeIdx).
             retR (if ulIdx = cnt
                   then (Some RED_ENOENT,
                         if ulFreeIdx = DIR_INDEX_INVALID \<and> cnt < DIRENTS_MAX cf then cnt else ulFreeIdx, ino0)
                   else (None, ulIdx, case found of Some n \<Rightarrow> n | None \<Rightarrow> ino0)))))"

section \<open>Writing an entry\<close>

text \<open>The bytes of an entry.\<close>

definition make_dirent :: "'d redconf \<Rightarrow> u32 \<Rightarrow> bytes option \<Rightarrow> u32 \<Rightarrow> bytes option" where
  "make_dirent cf ulInode pszName ulNameLen =
     map_option (\<lambda>nm. enc (REDCONF_ENDIAN_BIG cf) 4 (dirent_number cf ulInode) @ nm)
       (RedStrNCpy (Some (replicate (DIRENT_SIZE cf - 4) 0)) pszName (unat ulNameLen))"

definition DirEntryWrite :: "'d redconf \<Rightarrow> u32 \<Rightarrow> u32 \<Rightarrow> bytes option \<Rightarrow> u32 \<Rightarrow> ('d, unit) inoM" where
  "DirEntryWrite cf ulIdx ulInode pszName ulNameLen = getI (\<lambda>c s.
     if \<not> CINODE_IS_DIRTY cf c s \<or> ulIdx \<ge> DIRENTS_MAX cf
        \<or> \<not> INODE_IS_VALID cf s ulInode \<and> ulInode \<noteq> INODE_INVALID \<or> pszName = None
        \<or> unat ulNameLen > REDCONF_NAME_MAX cf \<or> (ulNameLen = 0) \<noteq> (ulInode = INODE_INVALID)
     then liftI (rederrorR RED_EINVAL)
     else if \<not> fDirectory c then failR RED_ENOTDIR
     else
       bindR (assert_index cf ulIdx) (\<lambda>_.
       case make_dirent cf ulInode pszName ulNameLen of
         None \<Rightarrow> oob
       | Some de \<Rightarrow>
           bindR (RedInodeDataWrite cf (DirEntryIndexToOffset cf ulIdx) (of_nat (DIRENT_SIZE cf)) de) (\<lambda>_. skipR)))"

section \<open>Creating and deleting entries\<close>

definition RedDirEntryCreate :: "'d redconf \<Rightarrow> bytes option \<Rightarrow> u32 \<Rightarrow> ('d, unit) inoM" where
  "RedDirEntryCreate cf pszName ulInode = getI (\<lambda>c s.
     if \<not> CINODE_IS_DIRTY cf c s \<or> pszName = None \<or> \<not> INODE_IS_VALID cf s ulInode then failR RED_EINVAL
     else if \<not> fDirectory c then failR RED_ENOTDIR
     else case name_length cf pszName of
         None \<Rightarrow> oob
       | Some ulNameLen \<Rightarrow>
           if ulNameLen = 0 then failR RED_EINVAL
           else if unat ulNameLen > REDCONF_NAME_MAX cf then failR RED_ENAMETOOLONG
           else
             bindR (RedDirEntryLookup cf pszName 0) (\<lambda>(ret, ulEntryIdx, _).
             if ret = None then failR RED_EEXIST
             else if ulEntryIdx = DIR_INDEX_INVALID then failR RED_ENOSPC
             else DirEntryWrite cf ulEntryIdx ulInode pszName ulNameLen))"

text \<open>
  The search for the last entry in use in a block, from the entry with index \<open>k\<close> down. Result:
  whether there is one, and the index of the directory the search ends with.
\<close>

fun last_used_in :: "'d redconf \<Rightarrow> bytes \<Rightarrow> nat \<Rightarrow> u32 \<Rightarrow> bool \<times> u32" where
  "last_used_in cf p k ulTruncIdx =
     (if dirent_inode cf p k \<noteq> INODE_INVALID then (True, ulTruncIdx)
      else case k of 0 \<Rightarrow> (False, ulTruncIdx - 1) | Suc j \<Rightarrow> last_used_in cf p j (ulTruncIdx - 1))"

declare last_used_in.simps [simp del]

text \<open>
  The search through the blocks. Every pass lowers the index, so from an index on there are at most
  as many passes as there are indices up to it; a search that has not ended by then has wrapped.
\<close>

fun last_used :: "'d redconf \<Rightarrow> nat \<Rightarrow> u32 \<Rightarrow> ('d, u32) inoM" where
  "last_used cf fuel ulTruncIdx =
     (if ulTruncIdx \<noteq> 0xFFFFFFFF then
        (case fuel of
           0 \<Rightarrow> no_return
         | Suc n \<Rightarrow>
             tryR (RedInodeDataSeekAndRead cf (ulTruncIdx div DPB cf)) (\<lambda>r.
             case r of
               Inr _ \<Rightarrow> getI (\<lambda>c s.
                 case last_used_in cf (aabBuffer s ! the (pbData c)) (unat (ulTruncIdx mod DPB cf)) ulTruncIdx of
                   (True, i) \<Rightarrow> retR i
                 | (False, i) \<Rightarrow> last_used cf n i)
             | Inl e \<Rightarrow>
                 if e = RED_ENODATA then
                   bindR (modS (REDASSERT (ulTruncIdx mod DPB cf = 0))) (\<lambda>_.
                   last_used cf n (ulTruncIdx - DPB cf))
                 else failR e))
      else retR ulTruncIdx)"

declare last_used.simps [simp del]

definition RedDirEntryDelete :: "'d redconf \<Rightarrow> u32 \<Rightarrow> ('d, unit) inoM" where
  "RedDirEntryDelete cf ulDeleteIdx = getI (\<lambda>c s.
     if \<not> CINODE_IS_DIRTY cf c s \<or> ulDeleteIdx \<ge> DIRENTS_MAX cf then failR RED_EINVAL
     else if \<not> fDirectory c then failR RED_ENOTDIR
     else
       bindR (assert_index cf ulDeleteIdx) (\<lambda>_.
       if DirEntryIndexToOffset cf ulDeleteIdx + of_nat (DIRENT_SIZE cf) = inode_size cf c s then
         bindR (last_used cf (unat ulDeleteIdx) (ulDeleteIdx - 1)) (\<lambda>ulTruncIdx.
         bindR (assert_index cf (ulTruncIdx + 1)) (\<lambda>_.
         RedInodeDataTruncate cf (DirEntryIndexToOffset cf (ulTruncIdx + 1))))
       else DirEntryWrite cf ulDeleteIdx INODE_INVALID (Some [0]) 0))"

section \<open>Reading entries\<close>

text \<open>The loop over the entries of a block: the index in the block of the first that is in use.\<close>

fun read_block :: "'d redconf \<Rightarrow> bytes \<Rightarrow> nat list \<Rightarrow> u32 \<Rightarrow> nat option \<times> u32" where
  "read_block cf p [] ulIdx = (None, ulIdx)"
| "read_block cf p (k # ks) ulIdx =
     (if dirent_inode cf p k \<noteq> INODE_INVALID then (Some k, ulIdx) else read_block cf p ks (ulIdx + 1))"

text \<open>
  Result: the index the loop ends with, and the index, the name and the inode of the entry that was
  found, if there is one.
\<close>

fun read_blocks :: "'d redconf \<Rightarrow> u32 \<Rightarrow> nat \<Rightarrow> u32 \<Rightarrow> ('d, u32 \<times> (bytes \<times> u32) option) inoM" where
  "read_blocks cf cnt fuel ulIdx =
     (if ulIdx < cnt then
        (case fuel of
           0 \<Rightarrow> no_return
         | Suc n \<Rightarrow>
             let ulBlockOffset = ulIdx div DPB cf in
             tryR (RedInodeDataSeekAndRead cf ulBlockOffset) (\<lambda>r.
             case r of
               Inr _ \<Rightarrow> getI (\<lambda>c s.
                 let p = aabBuffer s ! the (pbData c); last = min (DPB cf) (cnt - ulBlockOffset * DPB cf) in
                 case read_block cf p [unat (ulIdx mod DPB cf)..<unat last] ulIdx of
                   (Some k, i) \<Rightarrow>
                     bindR (modS (REDASSERT (i \<le> cnt))) (\<lambda>_.
                     retR (i, Some (dirent_name cf p k, dirent_number cf (dirent_inode cf p k))))
                 | (None, i) \<Rightarrow> bindR (modS (REDASSERT (i \<le> cnt))) (\<lambda>_. read_blocks cf cnt n i))
             | Inl e \<Rightarrow>
                 if e = RED_ENODATA then
                   (let i = ulIdx + (DPB cf - ulIdx mod DPB cf)
                    in bindR (modS (REDASSERT (i \<le> cnt))) (\<lambda>_. read_blocks cf cnt n i))
                 else bindR (modS (REDASSERT (ulIdx \<le> cnt))) (\<lambda>_. failR e)))
      else retR (ulIdx, None))"

declare read_blocks.simps [simp del]

text \<open>
  \<open>buf\<close> is the memory of \<^verbatim>\<open>pszName\<close>, and \<open>ino0\<close> is \<^verbatim>\<open>*pulInode\<close> before the call. Result: the status, \<open>RED_ENOENT\<close> or success, the new
  \<^verbatim>\<open>*pulIdx\<close>, the name and the inode.
\<close>

definition RedDirEntryRead ::
  "'d redconf \<Rightarrow> u32 \<Rightarrow> bytes \<Rightarrow> u32 \<Rightarrow> ('d, red_err option \<times> u32 \<times> bytes \<times> u32) inoM" where
  "RedDirEntryRead cf ulIdx buf ino0 = getI (\<lambda>c s.
     if \<not> CINODE_IS_MOUNTED cf c s then failR RED_EINVAL
     else if \<not> fDirectory c then failR RED_ENOTDIR
     else
       bindR (assert_offset cf (inode_size cf c s)) (\<lambda>_.
       let cnt = DirOffsetToEntryIndex cf (inode_size cf c s) in
       bindR (read_blocks cf cnt (unat cnt) ulIdx) (\<lambda>(i, found).
       case found of
         None \<Rightarrow> retR (Some RED_ENOENT, cnt, buf, ino0)
       | Some (nm, n) \<Rightarrow>
           (case RedStrNCpy (Some buf) (Some nm) (REDCONF_NAME_MAX cf) of
              None \<Rightarrow> oob
            | Some b \<Rightarrow> retR (None, i + 1, b[REDCONF_NAME_MAX cf := 0], n)))))"

end
