(* ===== verification/Holding.thy ===== *)
theory Holding
  imports BufferSteps
begin

text \<open>
  References to buffers: a component holds the buffers of a list \<open>ps\<close> (once per entry) and the rest
  of the driver holds \<open>env j\<close> references to buffer \<open>j\<close>. The rules for \<open>RedBufferGet\<close> and
  \<open>RedBufferPut\<close> say how the list changes, that the buffers in use stay what they are, and that the
  store seen through the cache does not change (\<open>quiet\<close>).
\<close>

definition owns :: "'d redconf \<Rightarrow> (nat \<Rightarrow> nat) \<Rightarrow> nat list \<Rightarrow> 'd redstate \<Rightarrow> bool" where
  "owns cf env ps s \<longleftrightarrow>
     (\<forall>j < REDCONF_BUFFER_COUNT cf. unat (bRefCount (aHead s ! j)) = env j + count_list ps j \<and> env j \<le> 200)
     \<and> (\<forall>j \<in> set ps. j < REDCONF_BUFFER_COUNT cf \<and> bVolNum (aHead s ! j) = gbRedVolNum s)"

definition same_head :: "BUFFERHEAD \<Rightarrow> BUFFERHEAD \<Rightarrow> bool" where
  "same_head h h' \<longleftrightarrow> ulBlock h' = ulBlock h \<and> bVolNum h' = bVolNum h
     \<and> uFlags h' AND BFLAG_META_MASK = uFlags h AND BFLAG_META_MASK"

text \<open>The buffers that are referenced before and after are the same.\<close>

definition heads_kept :: "'d redconf \<Rightarrow> 'd redstate \<Rightarrow> 'd redstate \<Rightarrow> bool" where
  "heads_kept cf s s' \<longleftrightarrow>
     (\<forall>j < REDCONF_BUFFER_COUNT cf. bRefCount (aHead s ! j) \<noteq> 0 \<longrightarrow> same_head (aHead s ! j) (aHead s' ! j))"

text \<open>The buffers of the rest of the driver stay what they are.\<close>

definition env_kept :: "'d redconf \<Rightarrow> (nat \<Rightarrow> nat) \<Rightarrow> 'd redstate \<Rightarrow> 'd redstate \<Rightarrow> bool" where
  "env_kept cf env s s' \<longleftrightarrow> (\<forall>j < REDCONF_BUFFER_COUNT cf. env j \<noteq> 0 \<longrightarrow> same_head (aHead s ! j) (aHead s' ! j))"

definition quiet ::
  "'d redconf \<Rightarrow> ('d \<Rightarrow> u8 \<Rightarrow> nat \<Rightarrow> u8) \<Rightarrow> ('d \<Rightarrow> u8 \<Rightarrow> nat) \<Rightarrow> 'd redstate \<Rightarrow> 'd redstate \<Rightarrow> bool" where
  "quiet cf dbyte dsize s s' \<longleftrightarrow>
     cache_frame s s' \<and> dsize (bdev s') = dsize (bdev s)
     \<and> (\<forall>v b. b \<noteq> BBLK_INVALID \<longrightarrow>
          drop 16 (cache_view cf dbyte s' v b) = drop 16 (cache_view cf dbyte s v b)
          \<and> (\<not> meta_dirty cf s v b \<longrightarrow> cache_view cf dbyte s' v b = cache_view cf dbyte s v b)
          \<and> (meta_dirty cf s' v b \<longrightarrow> meta_dirty cf s v b))"

lemma same_head_refl [simp]: "same_head h h"
  by (simp add: same_head_def)

lemma same_head_trans: "same_head h h' \<Longrightarrow> same_head h' h'' \<Longrightarrow> same_head h h''"
  by (simp add: same_head_def)

lemma env_kept_refl [simp]: "env_kept cf env s s"
  by (simp add: env_kept_def)

lemma env_kept_trans: "env_kept cf env s s' \<Longrightarrow> env_kept cf env s' s'' \<Longrightarrow> env_kept cf env s s''"
  unfolding env_kept_def by (blast intro: same_head_trans)

lemma quiet_refl [simp]: "quiet cf dbyte dsize s s"
  by (simp add: quiet_def)

lemma quiet_trans:
  assumes "quiet cf dbyte dsize s s'" and "quiet cf dbyte dsize s' s''"
  shows "quiet cf dbyte dsize s s''"
  unfolding quiet_def
proof (intro conjI)
  show "cache_frame s s''" using assms unfolding quiet_def by (blast intro: cache_frame_trans)
  show "\<forall>v b. b \<noteq> BBLK_INVALID \<longrightarrow>
      drop 16 (cache_view cf dbyte s'' v b) = drop 16 (cache_view cf dbyte s v b)
      \<and> (\<not> meta_dirty cf s v b \<longrightarrow> cache_view cf dbyte s'' v b = cache_view cf dbyte s v b)
      \<and> (meta_dirty cf s'' v b \<longrightarrow> meta_dirty cf s v b)"
    using assms unfolding quiet_def by metis
qed (use assms in \<open>auto simp: quiet_def\<close>)

lemma evolves_quiet: "evolves cf dbyte dsize s s' \<Longrightarrow> quiet cf dbyte dsize s s'"
  unfolding evolves_def quiet_def by blast

lemma heads_env: "heads_kept cf s s' \<Longrightarrow> owns cf env ps s \<Longrightarrow> env_kept cf env s s'"
  by (auto simp: heads_kept_def env_kept_def owns_def unat_eq_0 [symmetric])

lemma owned_ref: "owns cf env ps s \<Longrightarrow> j \<in> set ps \<Longrightarrow> bRefCount (aHead s ! j) \<noteq> 0"
  by (auto simp: owns_def unat_eq_0 [symmetric] count_list_0_iff)

lemma owned_held: "owns cf env ps s \<Longrightarrow> j \<in> set ps \<Longrightarrow> held cf s j"
  using owned_ref [of cf env ps s j] by (auto simp: held_def owns_def)

lemma heads_owned: "heads_kept cf s s' \<Longrightarrow> owns cf env ps s \<Longrightarrow> j \<in> set ps \<Longrightarrow> same_head (aHead s ! j) (aHead s' ! j)"
  using owned_ref [of cf env ps s j] by (auto simp: heads_kept_def owns_def)

text \<open>The contents of a buffer in use are the block in the store, in the byte order of the machine.\<close>

lemma buffer_view:
  assumes ok: "cache_ok cf dbyte dsize s" and h: "held cf s j" and fl: "flags_ok fl"
    and kind: "uFlags (aHead s ! j) AND BFLAG_META_MASK = fl AND BFLAG_META_MASK"
    and bs: "256 \<le> REDCONF_BLOCK_SIZE cf"
  shows "aabBuffer s ! j = wire cf fl (cache_view cf dbyte s (gbRedVolNum s) (ulBlock (aHead s ! j)))"
    and "ulBlock (aHead s ! j) \<noteq> BBLK_INVALID" and "length (aabBuffer s ! j) = REDCONF_BLOCK_SIZE cf"
proof -
  have inv: "cache_inv cf s" using ok by (simp add: cache_ok_def)
  note v = held_valid [OF inv h]
  then show b: "ulBlock (aHead s ! j) \<noteq> BBLK_INVALID" by simp
  have "cache_lookup cf s (gbRedVolNum s) (ulBlock (aHead s ! j)) = Some j"
    using cache_lookup_Some [OF inv b] v h by (simp add: held_def)
  then have view: "cache_view cf dbyte s (gbRedVolNum s) (ulBlock (aHead s ! j))
      = wire cf (uFlags (aHead s ! j)) (aabBuffer s ! j)" by (simp add: cache_view_def)
  have "flags_ok (uFlags (aHead s ! j))" using inv v by (auto simp: cache_inv_def heads_inv_def head_ok_def)
  then have "wire cf (uFlags (aHead s ! j)) (aabBuffer s ! j) = wire cf fl (aabBuffer s ! j)"
    using fl kind by (intro wire_kind) auto
  moreover show l: "length (aabBuffer s ! j) = REDCONF_BLOCK_SIZE cf" using inv v by (simp add: cache_inv_def)
  ultimately show "aabBuffer s ! j = wire cf fl (cache_view cf dbyte s (gbRedVolNum s) (ulBlock (aHead s ! j)))"
    using view bs by simp
qed

lemma put_owned:
  assumes ok: "cache_ok cf dbyte dsize s" and own: "owns cf env ps s" and i: "i \<in> set ps"
    and s': "s' = RedBufferPut cf (Some i) s"
  shows "cache_ok cf dbyte dsize s' \<and> owns cf env (remove1 i ps) s' \<and> quiet cf dbyte dsize s s'
    \<and> heads_kept cf s s' \<and> aabBuffer s' = aabBuffer s"
proof -
  have inv: "cache_inv cf s" using ok by (simp add: cache_ok_def)
  note h = owned_held [OF own i]
  have l: "i < length (aHead s)" and n: "i < REDCONF_BUFFER_COUNT cf" "bRefCount (aHead s ! i) \<noteq> 0"
    using inv h by (simp_all add: cache_inv_def heads_inv_def held_def)
  note eq = RedBufferPut_eq [OF inv h, folded s']
  have heads: "aHead s' = (aHead s)[i := (aHead s ! i)\<lparr>bRefCount := bRefCount (aHead s ! i) - 1\<rparr>]"
    by (simp add: eq upd_head_def)
  have same: "aabBuffer s' = aabBuffer s" "bdev s' = bdev s" "gbRedVolNum s' = gbRedVolNum s"
    by (simp_all add: eq upd_head_def)
  have fr: "cache_frame s s'" unfolding eq by (simp add: cache_frame_def upd_head_def)
  have look: "cache_lookup cf s' v b = cache_lookup cf s v b" for v b
    unfolding cache_lookup_def by (rule find_cong) (auto simp: heads l)
  have view: "cache_view cf dbyte s' v b = cache_view cf dbyte s v b" for v b
    using l by (simp add: cache_view_def look same heads split: option.split)
  have dirty: "meta_dirty cf s' v b = meta_dirty cf s v b" for v b
    unfolding meta_dirty_def using l by (intro ex_cong1) (auto simp: heads)
  have cnt: "count_list (remove1 i ps) j = (if j = i then count_list ps j - 1 else count_list ps j)" for j
    by (induction ps) auto
  have pos: "0 < count_list ps i" using i by (metis count_list_0_iff gr0I)
  have "owns cf env (remove1 i ps) s'"
    unfolding owns_def
  proof (intro conjI allI ballI impI)
    fix j assume j: "j < REDCONF_BUFFER_COUNT cf"
    show "unat (bRefCount (aHead s' ! j)) = env j + count_list (remove1 i ps) j"
      using own j l pos unat_dec [OF n(2)] by (cases "j = i") (simp_all add: owns_def heads cnt)
    show "env j \<le> 200" using own j by (simp add: owns_def)
  next
    fix j assume "j \<in> set (remove1 i ps)"
    then have "j \<in> set ps" by (meson in_mono set_remove1_subset)
    then show "j < REDCONF_BUFFER_COUNT cf" "bVolNum (aHead s' ! j) = gbRedVolNum s'"
      using own l by (auto simp: owns_def heads same)
  qed
  moreover have "heads_kept cf s s'" using l by (auto simp: heads_kept_def heads same_head_def)
  ultimately show ?thesis
    using RedBufferPut_ok [OF ok h, folded s'] fr view dirty same by (simp add: quiet_def)
qed

context block_device
begin

lemma get_owned:
  assumes conf: "conf_ok cf" and ok: "cache_ok cf dbyte dsize s" and own: "owns cf env ps s" and few: "length ps \<le> 8"
    and fl: "flags_ok fl" "fl AND BFLAG_DIRTY = 0" "fl AND BFLAG_NEW = 0"
    and run: "RedBufferGet cf blk fl s = (r, s')"
  shows "cache_ok cf dbyte dsize s' \<and> quiet cf dbyte dsize s s' \<and> heads_kept cf s s'
    \<and> (case r of Inl e \<Rightarrow> owns cf env ps s'
       | Inr i \<Rightarrow> owns cf env (i # ps) s' \<and> ulBlock (aHead s' ! i) = blk
           \<and> uFlags (aHead s' ! i) AND BFLAG_META_MASK = fl AND BFLAG_META_MASK
           \<and> blk < ulBlockCount (gpRedVolume s))"
proof -
  have cnt: "count_list ps j \<le> 8" for j using few count_le_length [of ps j] by simp
  have room: "\<forall>i < REDCONF_BUFFER_COUNT cf. bRefCount (aHead s ! i) \<noteq> 255"
  proof (intro allI impI notI)
    fix i assume "i < REDCONF_BUFFER_COUNT cf" "bRefCount (aHead s ! i) = 255"
    then have "255 = env i + count_list ps i" "env i \<le> 200" using own by (auto simp: owns_def)
    then show False using cnt [of i] by simp
  qed
  have res: "get_result cf dbyte dsize blk fl s r s'"
    using RedBufferGet_result [OF conf ok fl(1) _ room run] fl by simp
  then have ok': "cache_ok cf dbyte dsize s'" by (simp add: get_result_def)
  show ?thesis
  proof (cases r)
    case (Inl e)
    then have ev: "evolves cf dbyte dsize s s'" using res by (simp add: get_result_def)
    then have "owns cf env ps s'"
      using own owned_ref [OF own] by (auto simp: evolves_def owns_def cache_frame_def)
    then show ?thesis
      using ok' ev evolves_quiet [OF ev] Inl by (auto simp: heads_kept_def same_head_def evolves_def)
  next
    case (Inr i)
    from res [unfolded Inr] obtain s1 where ev: "evolves cf dbyte dsize s s1" and acq: "acquired cf dbyte blk fl i s1 s'"
      and un: "if uncached cf s (gbRedVolNum s) blk then i = lru_victim cf s \<and> bRefCount (aHead s1 ! i) = 0
        else s1 = s \<and> fl AND BFLAG_NEW = 0 \<and> uFlags (aHead s ! i) AND BFLAG_META_MASK = fl AND BFLAG_META_MASK"
      and blk: "blk < ulBlockCount (gpRedVolume s)"
      and view0: "if fl AND BFLAG_NEW = 0
        then cache_view cf dbyte s' (gbRedVolNum s) blk = cache_view cf dbyte s (gbRedVolNum s) blk
        else aabBuffer s' ! i = replicate (REDCONF_BLOCK_SIZE cf) 0"
      by (rule get_result_Inr)
    have view: "cache_view cf dbyte s' (gbRedVolNum s) blk = cache_view cf dbyte s (gbRedVolNum s) blk"
      using view0 fl(3) by simp
    have fr: "cache_frame s s'" using ev acq cache_frame_trans unfolding evolves_def acquired_def by blast
    have v1: "gbRedVolNum s1 = gbRedVolNum s" "gbRedVolNum s' = gbRedVolNum s"
      using ev fr by (simp_all add: evolves_def cache_frame_def)
    have i: "i < REDCONF_BUFFER_COUNT cf" "bVolNum (aHead s' ! i) = gbRedVolNum s"
      "ulBlock (aHead s' ! i) = blk" "uFlags (aHead s' ! i) AND BFLAG_META_MASK = fl AND BFLAG_META_MASK"
      using acq v1 by (simp_all add: acquired_def held_def)
    have ref: "bRefCount (aHead s' ! i) = bRefCount (aHead s ! i) + 1"
      using acq ev i by (simp add: acquired_def evolves_def)
    have other: "aHead s' ! j = aHead s1 ! j" if "j < REDCONF_BUFFER_COUNT cf" "j \<noteq> i" for j
      using acq that by (simp add: acquired_def)
    have q: "quiet cf dbyte dsize s s'"
      unfolding quiet_def
    proof (intro conjI allI impI)
      show "dsize (bdev s') = dsize (bdev s)" using acq ev by (simp add: acquired_def evolves_def)
      fix v b assume b: "b \<noteq> BBLK_INVALID"
      have e: "drop 16 (cache_view cf dbyte s1 v b) = drop 16 (cache_view cf dbyte s v b)"
        "\<not> meta_dirty cf s v b \<Longrightarrow> cache_view cf dbyte s1 v b = cache_view cf dbyte s v b"
        "meta_dirty cf s1 v b \<Longrightarrow> meta_dirty cf s v b"
        using ev b by (auto simp: evolves_def)
      have a: "v \<noteq> gbRedVolNum s \<or> b \<noteq> blk \<Longrightarrow> cache_view cf dbyte s' v b = cache_view cf dbyte s1 v b
          \<and> meta_dirty cf s' v b = meta_dirty cf s1 v b"
        "meta_dirty cf s' (gbRedVolNum s) blk \<Longrightarrow> meta_dirty cf s1 (gbRedVolNum s) blk"
        using acq b fl(2) by (auto simp: acquired_def v1)
      show "drop 16 (cache_view cf dbyte s' v b) = drop 16 (cache_view cf dbyte s v b)"
        using e(1) a(1) view by (cases "v = gbRedVolNum s \<and> b = blk") auto
      show "cache_view cf dbyte s' v b = cache_view cf dbyte s v b" if "\<not> meta_dirty cf s v b"
        using e(2) [OF that] a(1) view by (cases "v = gbRedVolNum s \<and> b = blk") auto
      show "meta_dirty cf s v b" if "meta_dirty cf s' v b"
        using that e(3) a by (cases "v = gbRedVolNum s \<and> b = blk") auto
    qed (rule fr)
    have hk: "heads_kept cf s s'"
      unfolding heads_kept_def
    proof (intro allI impI)
      fix j assume j: "j < REDCONF_BUFFER_COUNT cf" "bRefCount (aHead s ! j) \<noteq> 0"
      have s1: "same_head (aHead s ! j) (aHead s1 ! j)" using ev j by (simp add: evolves_def same_head_def)
      show "same_head (aHead s ! j) (aHead s' ! j)"
      proof (cases "j = i")
        case False
        then show ?thesis using other [OF j(1)] s1 by simp
      next
        case True
        have "bRefCount (aHead s1 ! i) \<noteq> 0" using ev j True by (simp add: evolves_def)
        then have un': "\<not> uncached cf s (gbRedVolNum s) blk" and "s1 = s"
          and k: "uFlags (aHead s ! i) AND BFLAG_META_MASK = fl AND BFLAG_META_MASK"
          using un by (auto split: if_splits)
        have "cache_inv cf s'" using ok' by (simp add: cache_ok_def)
        from acquired_hit [OF acq [unfolded \<open>s1 = s\<close>] this v1(2) un'] show ?thesis
          using True i k by (simp add: same_head_def)
      qed
    qed
    have "owns cf env (i # ps) s'"
      unfolding owns_def
    proof (intro conjI allI ballI impI)
      fix j assume j: "j < REDCONF_BUFFER_COUNT cf"
      have o: "unat (bRefCount (aHead s ! j)) = env j + count_list ps j" "env j \<le> 200"
        using own j by (simp_all add: owns_def)
      show "env j \<le> 200" by (rule o)
      have "unat (bRefCount (aHead s ! j) + 1) = unat (bRefCount (aHead s ! j)) + 1"
        using o cnt [of j] by (simp add: unat_word_ariths)
      moreover have "bRefCount (aHead s1 ! j) = bRefCount (aHead s ! j)" using ev j by (simp add: evolves_def)
      ultimately show "unat (bRefCount (aHead s' ! j)) = env j + count_list (i # ps) j"
        using o ref other [OF j] by (cases "j = i") simp_all
    next
      fix j assume j: "j \<in> set (i # ps)"
      show "j < REDCONF_BUFFER_COUNT cf" using j i own by (auto simp: owns_def)
      show "bVolNum (aHead s' ! j) = gbRedVolNum s'"
        using j i v1 own heads_owned [OF hk own] by (auto simp: owns_def same_head_def)
    qed
    then show ?thesis using Inr ok' q hk i blk by simp
  qed
qed

end

end
