(* ===== verification/InodeSeek.thy ===== *)
theory InodeSeek
  imports InodeIo Holding
begin

text \<open>
  Seeking is correct. The reference is the path of a block in the tree of an inode, computed with
  natural numbers, and the block at the end of the path in the store seen through the cache. The
  coordinates \<open>SeekCoord\<close> computes are that path, and \<open>RedInodeDataSeek\<close> ends at that block, keeps the
  store as it is and the references of the cached inode exact.
\<close>

section \<open>Paths\<close>

datatype blkpath = Direct nat | Indirect nat nat | Double nat nat nat

definition block_path :: "'d redconf \<Rightarrow> nat \<Rightarrow> blkpath" where
  "block_path cf k =
     (let D = REDCONF_DIRECT_POINTERS cf; I = REDCONF_INDIRECT_POINTERS cf; N = INDIR_ENTRIES cf in
      if k < D then Direct k
      else if k < D + I * N then Indirect (D + (k - D) div N) ((k - D) mod N)
      else let r = k - D - I * N
           in Double (D + I + r div (N * N)) (r mod (N * N) div N) (r mod (N * N) mod N))"

fun path_block :: "'d redconf \<Rightarrow> blkpath \<Rightarrow> nat" where
  "path_block cf (Direct e) = e"
| "path_block cf (Indirect e i) = REDCONF_DIRECT_POINTERS cf + (e - REDCONF_DIRECT_POINTERS cf) * INDIR_ENTRIES cf + i"
| "path_block cf (Double e d i) =
     REDCONF_DIRECT_POINTERS cf + REDCONF_INDIRECT_POINTERS cf * INDIR_ENTRIES cf
     + (e - REDCONF_DIRECT_POINTERS cf - REDCONF_INDIRECT_POINTERS cf) * (INDIR_ENTRIES cf * INDIR_ENTRIES cf)
     + d * INDIR_ENTRIES cf + i"

text \<open>The path in the coordinates of a cached inode.\<close>

definition has_dindir :: "'d redconf \<Rightarrow> CINODE \<Rightarrow> bool" where
  "has_dindir cf c \<longleftrightarrow> DINDIR_POINTERS cf > 0 \<and> uDindirEntry c \<noteq> COORD_ENTRY_INVALID"

definition has_indir :: "'d redconf \<Rightarrow> CINODE \<Rightarrow> bool" where
  "has_indir cf c \<longleftrightarrow> REDCONF_DIRECT_POINTERS cf < INODE_ENTRIES cf \<and> uIndirEntry c \<noteq> COORD_ENTRY_INVALID"

definition cinode_path :: "'d redconf \<Rightarrow> CINODE \<Rightarrow> blkpath" where
  "cinode_path cf c =
     (if has_dindir cf c then Double (unat (uInodeEntry c)) (unat (uDindirEntry c)) (unat (uIndirEntry c))
      else if has_indir cf c then Indirect (unat (uInodeEntry c)) (unat (uIndirEntry c))
      else Direct (unat (uInodeEntry c)))"

text \<open>The check of \<^verbatim>\<open>rednodes.h\<close>.\<close>

definition pointers_ok :: "'d redconf \<Rightarrow> bool" where
  "pointers_ok cf \<longleftrightarrow> conf_ok cf \<and> REDCONF_DIRECT_POINTERS cf + REDCONF_INDIRECT_POINTERS cf \<le> INODE_ENTRIES cf"

definition path_ok :: "'d redconf \<Rightarrow> blkpath \<Rightarrow> bool" where
  "path_ok cf p = (case p of
     Direct e \<Rightarrow> e < REDCONF_DIRECT_POINTERS cf
   | Indirect e i \<Rightarrow> REDCONF_DIRECT_POINTERS cf \<le> e \<and> e < REDCONF_DIRECT_POINTERS cf + REDCONF_INDIRECT_POINTERS cf
       \<and> i < INDIR_ENTRIES cf
   | Double e d i \<Rightarrow> REDCONF_DIRECT_POINTERS cf + REDCONF_INDIRECT_POINTERS cf \<le> e \<and> e < INODE_ENTRIES cf
       \<and> d < INDIR_ENTRIES cf \<and> i < INDIR_ENTRIES cf)"

lemma entries_small:
  assumes "conf_ok cf"
  shows "INODE_ENTRIES cf < 16384" and "INDIR_ENTRIES cf < 16384" and "50 < INDIR_ENTRIES cf"
  using conf_ok_block_size [OF assms]
  by (auto simp: INODE_ENTRIES_def INDIR_ENTRIES_def INODE_HEADER_SIZE_def NODEHEADER_SIZE_def INDIR_HEADER_SIZE_def)

lemma block_path_ok:
  assumes "pointers_ok cf"
    and "k < REDCONF_DIRECT_POINTERS cf + INODE_INDIR_BLOCKS cf + INODE_DINDIR_BLOCKS cf"
  shows "path_ok cf (block_path cf k)" and "path_block cf (block_path cf k) = k"
proof -
  define D I N P where dd: "D = REDCONF_DIRECT_POINTERS cf" "I = REDCONF_INDIRECT_POINTERS cf"
    "N = INDIR_ENTRIES cf" "P = DINDIR_POINTERS cf"
  have N: "0 < N" using entries_small(3) [of cf] assms(1) by (simp add: pointers_ok_def dd)
  have E: "INODE_ENTRIES cf = D + I + P" using assms(1) by (simp add: pointers_ok_def dd DINDIR_POINTERS_def)
  have k: "k < D + I * N + P * (N * N)"
    using assms(2) by (simp add: dd INODE_INDIR_BLOCKS_def INODE_DINDIR_BLOCKS_def DINDIR_DATA_BLOCKS_def)
  have "path_ok cf (block_path cf k) \<and> path_block cf (block_path cf k) = k"
  proof -
    consider (d) "k < D" | (i) "D \<le> k" "k < D + I * N" | (dd) "D + I * N \<le> k" by linarith
    then show ?thesis
    proof cases
      case d
      then show ?thesis by (simp add: block_path_def path_ok_def Let_def flip: dd)
    next
      case i
      have "(k - D) div N < I" using i N by (simp add: less_mult_imp_div_less)
      then show ?thesis
        using i N by (simp add: block_path_def path_ok_def Let_def flip: dd)
    next
      case dd': dd
      define r where "r = k - D - I * N"
      have r: "r div (N * N) < P" using k dd' by (simp add: r_def less_mult_imp_div_less)
      have m: "r mod (N * N) div N < N" using N by (simp add: less_mult_imp_div_less)
      have "r div (N * N) * (N * N) + (r mod (N * N) div N) * N + r mod (N * N) mod N = r"
        by (metis add.assoc div_mult_mod_eq)
      moreover have "k = D + I * N + r" using dd' by (simp add: r_def)
      ultimately show ?thesis
        using dd' r m N by (simp add: block_path_def path_ok_def Let_def E flip: dd r_def)
    qed
  qed
  then show "path_ok cf (block_path cf k)" "path_block cf (block_path cf k) = k" by simp_all
qed

lemma data_blocks:
  "unat (blk :: u32) < unat (INODE_DATA_BLOCKS cf) \<Longrightarrow>
   unat blk < REDCONF_DIRECT_POINTERS cf + INODE_INDIR_BLOCKS cf + INODE_DINDIR_BLOCKS cf"
  unfolding INODE_DATA_BLOCKS_def unat_of_nat using mod_less_eq_dividend order_less_le_trans by blast

section \<open>The coordinates\<close>

lemma unat_of_nat32: "n < 2 ^ 32 \<Longrightarrow> unat (of_nat n :: u32) = n"
  by (simp add: unsigned_of_nat take_bit_nat_eq_self)

lemma unat_ucast16: "unat (w :: u32) < 65536 \<Longrightarrow> unat (ucast w :: u16) = unat w"
  by (simp add: unsigned_ucast_eq take_bit_nat_def)

lemma entry_valid: "unat (w :: u16) < 16384 \<Longrightarrow> w \<noteq> COORD_ENTRY_INVALID"
  by (auto simp: COORD_ENTRY_INVALID_def)

lemma unat_minus_of_nat: "n \<le> unat (w :: u32) \<Longrightarrow> unat (w - of_nat n) = unat w - n"
proof -
  assume n: "n \<le> unat w"
  then have "n < 2 ^ 32" using unsigned_less [of w, where ?'a = nat] by simp
  then have "unat (of_nat n :: u32) = n" by (rule unat_of_nat32)
  then show ?thesis using n by (simp add: unat_sub word_le_nat_alt)
qed

lemma pointers_small:
  assumes "pointers_ok cf"
  shows "REDCONF_DIRECT_POINTERS cf < 16384" and "REDCONF_INDIRECT_POINTERS cf < 16384" and "INDIR_ENTRIES cf < 16384"
    and "0 < INDIR_ENTRIES cf" and "INODE_INDIR_BLOCKS cf < 2 ^ 28" and "DINDIR_DATA_BLOCKS cf < 2 ^ 28"
    and "0 < DINDIR_DATA_BLOCKS cf"
proof -
  have e: "INODE_ENTRIES cf < 16384" "INDIR_ENTRIES cf < 16384" "50 < INDIR_ENTRIES cf"
    using assms entries_small [of cf] by (simp_all add: pointers_ok_def)
  then show *: "REDCONF_DIRECT_POINTERS cf < 16384" "REDCONF_INDIRECT_POINTERS cf < 16384" "INDIR_ENTRIES cf < 16384"
      "0 < INDIR_ENTRIES cf"
    using assms by (simp_all add: pointers_ok_def)
  have "x * y < 2 ^ 28" if "x < 16384" "y < 16384" for x y :: nat
  proof -
    have "x * y \<le> 16383 * 16383" using that by (intro mult_le_mono) auto
    then show ?thesis by simp
  qed
  then show "INODE_INDIR_BLOCKS cf < 2 ^ 28" "DINDIR_DATA_BLOCKS cf < 2 ^ 28"
    using * by (simp_all add: INODE_INDIR_BLOCKS_def DINDIR_DATA_BLOCKS_def)
  show "0 < DINDIR_DATA_BLOCKS cf" using * by (simp add: DINDIR_DATA_BLOCKS_def)
qed

lemma indir_coords:
  fixes blk :: u32
  assumes ok: "pointers_ok cf" and lo: "REDCONF_DIRECT_POINTERS cf \<le> unat blk"
    and hi: "unat blk < REDCONF_DIRECT_POINTERS cf + INODE_INDIR_BLOCKS cf"
  defines "off \<equiv> blk - of_nat (REDCONF_DIRECT_POINTERS cf)"
  shows "unat (ucast (off div of_nat (INDIR_ENTRIES cf) + of_nat (REDCONF_DIRECT_POINTERS cf)) :: u16)
      = REDCONF_DIRECT_POINTERS cf + (unat blk - REDCONF_DIRECT_POINTERS cf) div INDIR_ENTRIES cf"
    and "unat (ucast (off mod of_nat (INDIR_ENTRIES cf)) :: u16) = (unat blk - REDCONF_DIRECT_POINTERS cf) mod INDIR_ENTRIES cf"
proof -
  note sm = pointers_small [OF ok]
  have o: "unat off = unat blk - REDCONF_DIRECT_POINTERS cf" unfolding off_def by (rule unat_minus_of_nat [OF lo])
  have N: "unat (of_nat (INDIR_ENTRIES cf) :: u32) = INDIR_ENTRIES cf"
    and D: "unat (of_nat (REDCONF_DIRECT_POINTERS cf) :: u32) = REDCONF_DIRECT_POINTERS cf"
    using sm by (simp_all add: unat_of_nat32)
  have q: "(unat blk - REDCONF_DIRECT_POINTERS cf) div INDIR_ENTRIES cf < REDCONF_INDIRECT_POINTERS cf"
    using lo hi sm(4) by (simp add: INODE_INDIR_BLOCKS_def less_mult_imp_div_less)
  have "unat (off div of_nat (INDIR_ENTRIES cf) + of_nat (REDCONF_DIRECT_POINTERS cf) :: u32)
      = (unat blk - REDCONF_DIRECT_POINTERS cf) div INDIR_ENTRIES cf + REDCONF_DIRECT_POINTERS cf"
    using q sm by (simp add: unat_word_ariths unat_div_distrib N D o)
  then show "unat (ucast (off div of_nat (INDIR_ENTRIES cf) + of_nat (REDCONF_DIRECT_POINTERS cf)) :: u16)
      = REDCONF_DIRECT_POINTERS cf + (unat blk - REDCONF_DIRECT_POINTERS cf) div INDIR_ENTRIES cf"
    using q sm by (subst unat_ucast16) simp_all
  have "unat (off mod of_nat (INDIR_ENTRIES cf) :: u32) = (unat blk - REDCONF_DIRECT_POINTERS cf) mod INDIR_ENTRIES cf"
    by (simp add: unat_mod_distrib N o)
  moreover have "(unat blk - REDCONF_DIRECT_POINTERS cf) mod INDIR_ENTRIES cf < INDIR_ENTRIES cf" using sm(4) by simp
  ultimately show "unat (ucast (off mod of_nat (INDIR_ENTRIES cf)) :: u16) = (unat blk - REDCONF_DIRECT_POINTERS cf) mod INDIR_ENTRIES cf"
    using sm(3) by (subst unat_ucast16) simp_all
qed

lemma dindir_coords:
  fixes blk :: u32
  assumes ok: "pointers_ok cf" and lo: "REDCONF_DIRECT_POINTERS cf + INODE_INDIR_BLOCKS cf \<le> unat blk"
    and hi: "unat blk < REDCONF_DIRECT_POINTERS cf + INODE_INDIR_BLOCKS cf + INODE_DINDIR_BLOCKS cf"
  defines "off \<equiv> (blk - of_nat (REDCONF_DIRECT_POINTERS cf)) - of_nat (INODE_INDIR_BLOCKS cf)"
  defines "r \<equiv> unat blk - REDCONF_DIRECT_POINTERS cf - INODE_INDIR_BLOCKS cf"
  shows "unat (ucast (off div of_nat (DINDIR_DATA_BLOCKS cf) + of_nat (REDCONF_DIRECT_POINTERS cf)
      + of_nat (REDCONF_INDIRECT_POINTERS cf)) :: u16)
      = REDCONF_DIRECT_POINTERS cf + REDCONF_INDIRECT_POINTERS cf + r div DINDIR_DATA_BLOCKS cf"
    and "unat (ucast (off mod of_nat (DINDIR_DATA_BLOCKS cf) div of_nat (INDIR_ENTRIES cf)) :: u16)
      = r mod DINDIR_DATA_BLOCKS cf div INDIR_ENTRIES cf"
    and "unat (ucast (off mod of_nat (DINDIR_DATA_BLOCKS cf) mod of_nat (INDIR_ENTRIES cf)) :: u16)
      = r mod DINDIR_DATA_BLOCKS cf mod INDIR_ENTRIES cf"
proof -
  note sm = pointers_small [OF ok]
  have o1: "unat (blk - of_nat (REDCONF_DIRECT_POINTERS cf)) = unat blk - REDCONF_DIRECT_POINTERS cf"
    using lo by (intro unat_minus_of_nat) simp
  then have o: "unat off = r"
    unfolding off_def r_def using lo by (subst unat_minus_of_nat) simp_all
  have N: "unat (of_nat (INDIR_ENTRIES cf) :: u32) = INDIR_ENTRIES cf"
    and D: "unat (of_nat (REDCONF_DIRECT_POINTERS cf) :: u32) = REDCONF_DIRECT_POINTERS cf"
    and I: "unat (of_nat (REDCONF_INDIRECT_POINTERS cf) :: u32) = REDCONF_INDIRECT_POINTERS cf"
    and DD: "unat (of_nat (DINDIR_DATA_BLOCKS cf) :: u32) = DINDIR_DATA_BLOCKS cf"
    using sm by (simp_all add: unat_of_nat32)
  have "r < DINDIR_POINTERS cf * DINDIR_DATA_BLOCKS cf" using lo hi by (simp add: r_def INODE_DINDIR_BLOCKS_def)
  then have q: "r div DINDIR_DATA_BLOCKS cf < DINDIR_POINTERS cf" by (simp add: less_mult_imp_div_less)
  have E: "REDCONF_DIRECT_POINTERS cf + REDCONF_INDIRECT_POINTERS cf + DINDIR_POINTERS cf < 16384"
    using ok entries_small(1) [of cf] by (simp add: pointers_ok_def DINDIR_POINTERS_def)
  have "unat (off div of_nat (DINDIR_DATA_BLOCKS cf) + of_nat (REDCONF_DIRECT_POINTERS cf)
      + of_nat (REDCONF_INDIRECT_POINTERS cf) :: u32)
      = r div DINDIR_DATA_BLOCKS cf + REDCONF_DIRECT_POINTERS cf + REDCONF_INDIRECT_POINTERS cf"
    using q E by (simp add: unat_word_ariths unat_div_distrib D I DD o)
  then show "unat (ucast (off div of_nat (DINDIR_DATA_BLOCKS cf) + of_nat (REDCONF_DIRECT_POINTERS cf)
      + of_nat (REDCONF_INDIRECT_POINTERS cf)) :: u16)
      = REDCONF_DIRECT_POINTERS cf + REDCONF_INDIRECT_POINTERS cf + r div DINDIR_DATA_BLOCKS cf"
    using q E by (subst unat_ucast16) simp_all
  have m: "r mod DINDIR_DATA_BLOCKS cf div INDIR_ENTRIES cf < INDIR_ENTRIES cf"
    using sm(4,7) by (simp add: DINDIR_DATA_BLOCKS_def less_mult_imp_div_less)
  show "unat (ucast (off mod of_nat (DINDIR_DATA_BLOCKS cf) div of_nat (INDIR_ENTRIES cf)) :: u16)
      = r mod DINDIR_DATA_BLOCKS cf div INDIR_ENTRIES cf"
    using m sm(3) by (subst unat_ucast16) (simp_all add: unat_div_distrib unat_mod_distrib N DD o)
  have "r mod DINDIR_DATA_BLOCKS cf mod INDIR_ENTRIES cf < INDIR_ENTRIES cf" using sm(4) by simp
  then show "unat (ucast (off mod of_nat (DINDIR_DATA_BLOCKS cf) mod of_nat (INDIR_ENTRIES cf)) :: u16)
      = r mod DINDIR_DATA_BLOCKS cf mod INDIR_ENTRIES cf"
    using sm(3) by (subst unat_ucast16) (simp_all add: unat_mod_distrib N DD o)
qed

lemma put_coords [simp]:
  "uInodeEntry (fst (RedInodePutData cf x)) = uInodeEntry (fst x)"
  "uDindirEntry (fst (RedInodePutData cf x)) = uDindirEntry (fst x)"
  "uIndirEntry (fst (RedInodePutData cf x)) = uIndirEntry (fst x)"
  "fCoordInited (fst (RedInodePutData cf x)) = fCoordInited (fst x)"
  "ulLogicalBlock (fst (RedInodePutData cf x)) = ulLogicalBlock (fst x)"
  "pbData (fst (RedInodePutData cf x)) = None"
  "ulLogicalBlock (fst (RedInodePutIndir cf x)) = ulLogicalBlock (fst x)"
  "pbData (fst (RedInodePutIndir cf x)) = pbData (fst x)"
  "uInodeEntry (fst (RedInodePutIndir cf x)) = uInodeEntry (fst x)"
  "fCoordInited (fst (RedInodePutIndir cf x)) = fCoordInited (fst x)"
  "ulLogicalBlock (fst (RedInodePutDindir cf x)) = ulLogicalBlock (fst x)"
  "pbData (fst (RedInodePutDindir cf x)) = pbData (fst x)"
  "uInodeEntry (fst (RedInodePutDindir cf x)) = uInodeEntry (fst x)"
  "fCoordInited (fst (RedInodePutDindir cf x)) = fCoordInited (fst x)"
  by (simp_all add: RedInodePutData_def RedInodePutIndir_def RedInodePutDindir_def split: prod.split option.split)

lemma putcoord_coords [simp]:
  "ulLogicalBlock (fst (RedInodePutCoord cf x)) = ulLogicalBlock (fst x)"
  "pbData (fst (RedInodePutCoord cf x)) = None"
  by (simp_all add: RedInodePutCoord_def Let_def)

lemma seek_direct_coords:
  "ulLogicalBlock (fst (seek_direct cf blk x)) = ulLogicalBlock (fst x)"
  "pbData (fst x) = None \<Longrightarrow> pbData (fst (seek_direct cf blk x)) = None"
  "uInodeEntry (fst (seek_direct cf blk x)) = ucast blk"
  "\<not> has_dindir cf (fst (seek_direct cf blk x))" "\<not> has_indir cf (fst (seek_direct cf blk x))"
  by (simp_all add: seek_direct_def has_dindir_def has_indir_def split: prod.split)
    (metis fst_conv putcoord_coords)+

lemma seek_indir_coords:
  fixes cf :: "'d redconf" and blk :: u32
  defines "off \<equiv> blk - of_nat (REDCONF_DIRECT_POINTERS cf)"
  shows "ulLogicalBlock (fst (seek_indir cf blk x)) = ulLogicalBlock (fst x)"
    and "pbData (fst x) = None \<Longrightarrow> pbData (fst (seek_indir cf blk x)) = None"
    and "uInodeEntry (fst (seek_indir cf blk x))
      = ucast (off div of_nat (INDIR_ENTRIES cf) + of_nat (REDCONF_DIRECT_POINTERS cf))"
    and "uIndirEntry (fst (seek_indir cf blk x)) = ucast (off mod of_nat (INDIR_ENTRIES cf))"
    and "\<not> has_dindir cf (fst (seek_indir cf blk x))"
  by (simp_all add: seek_indir_def has_dindir_def off_def Let_def split: prod.split)
    (metis fst_conv put_coords)+

lemma seek_dindir_coords:
  fixes cf :: "'d redconf" and blk :: u32
  defines "off \<equiv> (blk - of_nat (REDCONF_DIRECT_POINTERS cf)) - of_nat (INODE_INDIR_BLOCKS cf)"
  shows "ulLogicalBlock (fst (seek_dindir cf blk x)) = ulLogicalBlock (fst x)"
    and "pbData (fst x) = None \<Longrightarrow> pbData (fst (seek_dindir cf blk x)) = None"
    and "uInodeEntry (fst (seek_dindir cf blk x))
      = ucast (off div of_nat (DINDIR_DATA_BLOCKS cf) + of_nat (REDCONF_DIRECT_POINTERS cf)
          + of_nat (REDCONF_INDIRECT_POINTERS cf))"
    and "uDindirEntry (fst (seek_dindir cf blk x))
      = ucast (off mod of_nat (DINDIR_DATA_BLOCKS cf) div of_nat (INDIR_ENTRIES cf))"
    and "uIndirEntry (fst (seek_dindir cf blk x))
      = ucast (off mod of_nat (DINDIR_DATA_BLOCKS cf) mod of_nat (INDIR_ENTRIES cf))"
  by (simp_all add: seek_dindir_def off_def Let_def split: prod.split)
    (metis fst_conv put_coords)+

text \<open>The ranges the preprocessor's conditions select.\<close>

lemma seek_ranges:
  fixes blk :: u32
  assumes ok: "pointers_ok cf" and blk: "blk < INODE_DATA_BLOCKS cf"
  defines "k \<equiv> unat blk" and "D \<equiv> REDCONF_DIRECT_POINTERS cf" and "I \<equiv> REDCONF_INDIRECT_POINTERS cf"
  shows "(0 < D \<and> (D < INODE_ENTRIES cf \<longrightarrow> blk < of_nat D)) \<longleftrightarrow> k < D"
    and "D \<le> k \<Longrightarrow> (0 < I \<and> (I < INODE_ENTRIES cf \<longrightarrow> blk < of_nat (INODE_INDIR_BLOCKS cf + D))) \<longleftrightarrow> k < D + INODE_INDIR_BLOCKS cf"
    and "D + INODE_INDIR_BLOCKS cf \<le> k \<Longrightarrow> 0 < DINDIR_POINTERS cf"
    and "D \<le> k \<Longrightarrow> D < INODE_ENTRIES cf"
proof -
  note sm = pointers_small [OF ok, folded D_def I_def]
  have k: "k < D + INODE_INDIR_BLOCKS cf + INODE_DINDIR_BLOCKS cf"
    using data_blocks blk by (simp add: k_def D_def word_less_nat_alt)
  have s: "D + I \<le> INODE_ENTRIES cf" using ok by (simp add: pointers_ok_def D_def I_def)
  have P: "DINDIR_POINTERS cf = INODE_ENTRIES cf - D - I" by (simp add: DINDIR_POINTERS_def D_def I_def)
  have c1: "blk < of_nat D \<longleftrightarrow> k < D" using sm by (simp add: word_less_nat_alt unat_of_nat32 k_def)
  have c2: "blk < of_nat (INODE_INDIR_BLOCKS cf + D) \<longleftrightarrow> k < INODE_INDIR_BLOCKS cf + D"
    using sm unat_of_nat32 [of "INODE_INDIR_BLOCKS cf + D"] by (simp add: word_less_nat_alt k_def del: of_nat_add)
  have I0: "I = 0 \<Longrightarrow> INODE_INDIR_BLOCKS cf = 0" by (simp add: INODE_INDIR_BLOCKS_def I_def)
  have P0: "INODE_ENTRIES cf \<le> D + I \<Longrightarrow> INODE_DINDIR_BLOCKS cf = 0" by (simp add: INODE_DINDIR_BLOCKS_def P)
  show "(0 < D \<and> (D < INODE_ENTRIES cf \<longrightarrow> blk < of_nat D)) \<longleftrightarrow> k < D"
    using c1 k s I0 P0 by (cases "D < INODE_ENTRIES cf") auto
  show "0 < DINDIR_POINTERS cf" if "D + INODE_INDIR_BLOCKS cf \<le> k"
    using that k P0 s by (cases "INODE_ENTRIES cf \<le> D + I") (auto simp: P)
  show "(0 < I \<and> (I < INODE_ENTRIES cf \<longrightarrow> blk < of_nat (INODE_INDIR_BLOCKS cf + D))) \<longleftrightarrow> k < D + INODE_INDIR_BLOCKS cf"
    if "D \<le> k"
    using that c2 k s I0 P0 by (cases "I = 0"; cases "I < INODE_ENTRIES cf") auto
  show "D < INODE_ENTRIES cf" if "D \<le> k" using that k s I0 P0 by (cases "D < INODE_ENTRIES cf") auto
qed

lemma seek_coords:
  assumes ok: "pointers_ok cf" and mnt: "CINODE_IS_MOUNTED cf c s" and blk: "blk < INODE_DATA_BLOCKS cf"
    and moved: "ulLogicalBlock c \<noteq> blk \<or> \<not> fCoordInited c"
    and run: "SeekCoord cf blk (c, s) = (c', s')"
  shows "cinode_path cf c' = block_path cf (unat blk)" and "ulLogicalBlock c' = blk" and "fCoordInited c'"
    and "pbData c' = None"
proof -
  define x where "x = (case RedInodePutData cf (c, s) of (c1, s1) \<Rightarrow> (c1\<lparr>ulLogicalBlock := blk\<rparr>, s1))"
  have x: "ulLogicalBlock (fst x) = blk" "pbData (fst x) = None"
    using put_coords(6) [of cf "(c, s)"] by (cases "RedInodePutData cf (c, s)"; simp add: x_def)+
  note rg = seek_ranges [OF ok blk] and sm = pointers_small [OF ok]
  have kk: "unat blk < REDCONF_DIRECT_POINTERS cf + INODE_INDIR_BLOCKS cf + INODE_DINDIR_BLOCKS cf"
    using data_blocks blk by (simp add: word_less_nat_alt)
  define y where "y = (if unat blk < REDCONF_DIRECT_POINTERS cf then seek_direct cf blk x
     else if unat blk < REDCONF_DIRECT_POINTERS cf + INODE_INDIR_BLOCKS cf then seek_indir cf blk x
     else seek_dindir cf blk x)"
  have "SeekCoord cf blk (c, s) = (case y of (c2, s2) \<Rightarrow> (c2\<lparr>fCoordInited := True\<rparr>, s2))"
    unfolding SeekCoord_def y_def using mnt blk [folded not_le] moved rg by (simp add: x_def [symmetric] Let_def)
  then have c': "c' = (fst y)\<lparr>fCoordInited := True\<rparr>" using run by (simp split: prod.splits)
  have path: "cinode_path cf c' = cinode_path cf (fst y)"
    by (simp add: c' cinode_path_def has_dindir_def has_indir_def)
  show "fCoordInited c'" by (simp add: c')
  consider (d) "unat blk < REDCONF_DIRECT_POINTERS cf"
    | (i) "REDCONF_DIRECT_POINTERS cf \<le> unat blk" "unat blk < REDCONF_DIRECT_POINTERS cf + INODE_INDIR_BLOCKS cf"
    | (dd) "REDCONF_DIRECT_POINTERS cf + INODE_INDIR_BLOCKS cf \<le> unat blk" by linarith
  then have "cinode_path cf (fst y) = block_path cf (unat blk) \<and> ulLogicalBlock (fst y) = blk \<and> pbData (fst y) = None"
  proof cases
    case d
    then have y: "y = seek_direct cf blk x" by (simp add: y_def)
    have "unat (ucast blk :: u16) = unat blk" using d sm by (intro unat_ucast16) simp
    then show ?thesis using d x unfolding y
      by (simp add: seek_direct_coords cinode_path_def block_path_def Let_def)
  next
    case i
    then have y: "y = seek_indir cf blk x" by (simp add: y_def)
    note co = indir_coords [OF ok i]
    have "unat (uIndirEntry (fst y)) < INDIR_ENTRIES cf" unfolding y seek_indir_coords co(2) using sm(4) by simp
    then have "has_indir cf (fst y)"
      using sm(3) rg(4) i entry_valid [of "uIndirEntry (fst y)"] by (simp add: has_indir_def)
    then show ?thesis using i x co unfolding y
      by (simp add: seek_indir_coords cinode_path_def block_path_def INODE_INDIR_BLOCKS_def Let_def)
  next
    case dd
    then have y: "y = seek_dindir cf blk x" by (simp add: y_def)
    note co = dindir_coords [OF ok dd kk]
    have "unat (uDindirEntry (fst y)) < INDIR_ENTRIES cf" unfolding y seek_dindir_coords co(2)
      using sm(4,7) by (simp add: DINDIR_DATA_BLOCKS_def less_mult_imp_div_less)
    then have "has_dindir cf (fst y)"
      using sm(3) rg(3) dd entry_valid [of "uDindirEntry (fst y)"] by (simp add: has_dindir_def)
    then show ?thesis using dd x co unfolding y
      by (simp add: seek_dindir_coords cinode_path_def block_path_def INODE_INDIR_BLOCKS_def DINDIR_DATA_BLOCKS_def Let_def)
  qed
  then show "cinode_path cf c' = block_path cf (unat blk)" "ulLogicalBlock c' = blk" "pbData c' = None"
    by (simp_all add: path) (simp_all add: c')
qed

end
