(* ===== verification/Errors.thy ===== *)
theory Errors
  imports BufferInv
begin

text \<open>
  Which errors an operation can return. \<open>errR P m\<close> says that every error of \<open>m\<close> satisfies \<open>P\<close>, and
  its rules compose like those of \<open>presR\<close>. Callers of \<open>RedInodeDataSeek\<close> tell a sparse block from a
  failed read by the error, so it matters that the buffer cache never returns \<open>RED_ENODATA\<close>,
  whatever the disk holds, as long as the block device does not make that error up.
\<close>

definition errR :: "(red_err \<Rightarrow> bool) \<Rightarrow> ('s, 'a) red \<Rightarrow> bool" where
  "errR P m \<longleftrightarrow> (\<forall>s e. fst (m s) = Inl e \<longrightarrow> P e)"

named_theorems errs \<open>rules for the errors of a computation\<close>

lemma errR_D: "errR P m \<Longrightarrow> m s = (Inl e, s') \<Longrightarrow> P e"
  by (metis errR_def fst_conv)

lemma errR_basic [errs]: "errR P (retR x)" "errR P skipR" "errR P (modR f)" "P e \<Longrightarrow> errR P (failR e)"
  by (simp_all add: errR_def red_simps)

lemma errR_errors [errs]: "P e \<Longrightarrow> errR P (rederrorR e)" "P e \<Longrightarrow> errR P (criticalR e)"
  by (simp_all add: errR_def red_simps)

lemma errR_bind [errs]: "errR P m \<Longrightarrow> (\<And>x. errR P (f x)) \<Longrightarrow> errR P (bindR m f)"
proof (unfold errR_def, intro allI impI)
  fix s e
  assume m: "\<forall>s e. fst (m s) = Inl e \<longrightarrow> P e" and f: "\<And>x. \<forall>s e. fst (f x s) = Inl e \<longrightarrow> P e"
    and r: "fst (bindR m f s) = Inl e"
  obtain q s1 where ms: "m s = (q, s1)" by fastforce
  then show "P e" using m [rule_format, of s e] f [rule_format, of _ s1 e] r by (cases q) (auto simp: bindR_run)
qed

lemma errR_get [errs]: "(\<And>s. errR P (f s)) \<Longrightarrow> errR P (getR f)"
  by (simp add: errR_def getR_def)

lemma errR_if [errs]: "(b \<Longrightarrow> errR P m) \<Longrightarrow> (\<not> b \<Longrightarrow> errR P n) \<Longrightarrow> errR P (if b then m else n)"
  by simp

lemma errR_fin [errs]: "errR P m \<Longrightarrow> errR P (finR m c)"
  by (simp add: errR_def finR_def split: prod.splits) (metis fst_conv)

lemma errR_case [errs]:
  "(x = None \<Longrightarrow> errR P m) \<Longrightarrow> (\<And>y. x = Some y \<Longrightarrow> errR P (f y)) \<Longrightarrow> errR P (case x of None \<Rightarrow> m | Some y \<Rightarrow> f y)"
  by (cases x) auto

lemma errR_prod [errs]: "(\<And>a b. x = (a, b) \<Longrightarrow> errR P (f a b)) \<Longrightarrow> errR P (case x of (a, b) \<Rightarrow> f a b)"
  by (cases x) auto

lemma errR_Let [errs]: "(\<And>x. x = e \<Longrightarrow> errR P (f x)) \<Longrightarrow> errR P (Let e f)"
  by simp

section \<open>The buffer cache\<close>

text \<open>The block device returns none of the errors that mean something else to the driver.\<close>

definition device_errors :: "(red_err \<Rightarrow> bool) \<Rightarrow> 'd redconf \<Rightarrow> bool" where
  "device_errors P cf \<longleftrightarrow>
     (\<forall>v a n d e. fst (fst (DiskRead cf v a n d)) = Some e \<longrightarrow> P e)
     \<and> (\<forall>v a n b d e. fst (DiskWrite cf v a n b d) = Some e \<longrightarrow> P e)"

lemma attempts_error:
  assumes "\<And>d e. fst (att d) = Some e \<Longrightarrow> P e" and "\<And>e. ret = Some e \<Longrightarrow> P e"
    and "fst (attempts att n ret d) = Some e"
  shows "P e"
  using assms(2,3)
proof (induction n arbitrary: ret d)
  case (Suc n)
  obtain r d' where a: "att d = (r, d')" by fastforce
  show ?case
  proof (cases r)
    case None
    then show ?thesis using Suc.prems a by simp
  next
    case (Some x)
    then have "P x" using assms(1) [of d x] a by simp
    then show ?thesis using Suc.IH [of "Some x" d'] Suc.prems(2) a Some by auto
  qed
qed simp

lemma io_retry_error:
  assumes "conf_ok cf" and "\<And>d e. fst (att d) = Some e \<Longrightarrow> P e" and "fst (fst (io_retry cf att s x)) = Some e"
  shows "P e"
  using assms(3) attempts_error [of att P None, OF assms(2)] unfolding io_retry_conf [OF assms(1)]
  by (simp del: attempts.simps)

lemma bdev_errors:
  assumes dev: "device_errors P cf" and P: "P RED_EINVAL"
  shows "fst (fst (RedOsBDevRead cf v a n b d)) = Some e \<Longrightarrow> P e"
    and "fst (RedOsBDevWrite cf v a n b d) = Some e \<Longrightarrow> P e"
  using dev P by (auto simp: RedOsBDevRead_def RedOsBDevWrite_def device_errors_def split: if_splits prod.splits)
    (metis fst_conv)+

lemma RedIoRead_error:
  assumes conf: "conf_ok cf" and dev: "device_errors P cf" and P: "P RED_EINVAL"
    and run: "RedIoRead cf v b n buf s = (Inr (Some e, p), s')"
  shows "P e"
proof (cases "io_range_ok cf s v b n")
  case False
  then show ?thesis using run P by (simp add: RedIoRead_def)
next
  case True
  let ?att = "\<lambda>a n (d, b). case RedOsBDevRead cf v a n b d of ((ret, b'), d') \<Rightarrow> (ret, (d', b'))"
  have att: "fst (?att a n x) = Some e \<Longrightarrow> P e" for a n x e
    using bdev_errors(1) [OF dev P] by (auto split: prod.splits) (metis fst_conv)
  from run True obtain s2 a x where "fst (fst (io_retry cf (?att a x) s2 (bdev s2, buf))) = Some e"
    by (auto simp: RedIoRead_def Let_def split: prod.splits) (metis fst_conv)
  then show ?thesis by - (rule io_retry_error [where P = P, OF conf], erule att)
qed

lemma errR_RedIoWrite [errs]:
  assumes conf: "conf_ok cf" and dev: "device_errors P cf" and P: "P RED_EINVAL"
  shows "errR P (RedIoWrite cf v b n buf)"
  unfolding errR_def
proof (intro allI impI)
  fix s e
  assume r: "fst (RedIoWrite cf v b n buf s) = Inl e"
  show "P e"
  proof (cases "io_range_ok cf s v b n")
    case False
    then show ?thesis using r P by (simp add: RedIoWrite_def)
  next
    case True
    from r True obtain s2 a x where "fst (fst (io_retry cf (RedOsBDevWrite cf v a x buf) s2 (bdev s2))) = Some e"
      by (auto simp: RedIoWrite_def Let_def split: prod.splits option.splits) (metis fst_conv)
    then show ?thesis by - (rule io_retry_error [where P = P, OF conf], erule bdev_errors(2) [OF dev P])
  qed
qed

lemma errR_BufferWrite [errs]:
  "conf_ok cf \<Longrightarrow> device_errors P cf \<Longrightarrow> P RED_EINVAL \<Longrightarrow> errR P (BufferWrite cf i)"
  unfolding BufferWrite_def BufferFinalize_def RedVolSeqNumIncrement_def Let_def by (intro errs) simp_all

lemma errR_fill:
  assumes "conf_ok cf" and "device_errors P cf" and "P RED_EINVAL" and "P RED_EIO"
  shows "errR P (buffer_fill cf i b fl)"
proof -
  have rd: "errR P (bindR (RedIoRead cf v b n buf) (\<lambda>(ret, p). bindR (modR (f p)) (\<lambda>_.
      case ret of Some e \<Rightarrow> failR e | None \<Rightarrow> g p)))" if "\<And>p. errR P (g p)" for v b n buf f and g :: "_ \<Rightarrow> ('a, unit) redM"
    unfolding errR_def
  proof (intro allI impI)
    fix s e
    assume r: "fst (bindR (RedIoRead cf v b n buf) (\<lambda>(ret, p). bindR (modR (f p)) (\<lambda>_.
      case ret of Some e \<Rightarrow> failR e | None \<Rightarrow> g p)) s) = Inl e"
    obtain q s1 where io: "RedIoRead cf v b n buf s = (q, s1)" by fastforce
    have "\<exists>x. q = Inr x" using io by (auto simp: RedIoRead_def Let_def split: if_splits prod.splits)
    then obtain ret p where q: "q = Inr (ret, p)" by auto
    show "P e"
    proof (cases ret)
      case None
      then show ?thesis using r that [of p] by (simp add: red_simps io q errR_def)
    next
      case (Some x)
      then show ?thesis using r RedIoRead_error [OF assms(1-3), of v b n buf s x p s1] by (simp add: red_simps io q)
    qed
  qed
  show ?thesis
    unfolding buffer_fill_def by (intro errs rd) (auto simp: assms BufferIsValid_def intro!: errs)
qed

lemma errR_RedBufferGet:
  assumes "conf_ok cf" and "device_errors P cf" and "P RED_EINVAL" and "P RED_EIO" and "P RED_EBUSY"
  shows "errR P (RedBufferGet cf b fl)"
proof -
  have rec: "errR P (buffer_recycle cf b fl)"
    unfolding buffer_recycle_def Let_def by (intro errs errR_fill assms)
  have "errR P (\<lambda>s. case BufferFind cf b s of
      (Some bIdx, s1) \<Rightarrow> (if Q bIdx s1 then criticalR RED_EFUBAR else retR bIdx) s1
    | (None, s1) \<Rightarrow> (if R s1 then criticalR RED_EBUSY else buffer_recycle cf b fl) s1)" for Q R
    using rec assms by (auto simp: errR_def red_simps split: prod.splits option.splits if_splits)
  then show ?thesis unfolding RedBufferGet_def by (intro errs assms)
qed

end
