(* ===== verification/InodeMap.thy ===== *)
theory InodeMap
  imports InodeSeek Errors "HOL-Library.Multiset"
begin

text \<open>
  The block map of an inode: which block of the disk holds a block of a file, read off the nodes in
  the store the driver sees through its cache. \<open>bmap\<close> is a function of the store; the buffers and
  the coordinates of a cached inode agree with it (\<open>inode_bufs\<close>, \<open>coord_ok\<close>), and an operation
  that leaves the store alone keeps it.
\<close>

section \<open>Reading a node in the store\<close>

text \<open>The word at an offset of a node; pointers that leave the volume read as sparse.\<close>

definition node_at ::
  "'d redconf \<Rightarrow> ('d \<Rightarrow> u8 \<Rightarrow> nat \<Rightarrow> u8) \<Rightarrow> 'd redstate \<Rightarrow> u16 \<Rightarrow> u32 \<Rightarrow> nat \<Rightarrow> u32" where
  "node_at cf dbyte s fl b off =
     (if b < ulBlockCount (gpRedVolume s) \<and> 16 \<le> off \<and> off + 4 \<le> REDCONF_BLOCK_SIZE cf
      then ld32 (REDCONF_ENDIAN_BIG cf) (wire cf fl (cache_view cf dbyte s (gbRedVolNum s) b)) off
      else BLOCK_SPARSE)"

type_synonym node_reader = "u16 \<Rightarrow> u32 \<Rightarrow> nat \<Rightarrow> u32"

fun bmap :: "'d redconf \<Rightarrow> node_reader \<Rightarrow> u32 \<Rightarrow> blkpath \<Rightarrow> u32" where
  "bmap cf T ib (Direct e) = T BFLAG_META_INODE ib (INODE_aulEntries cf e)"
| "bmap cf T ib (Indirect e i) =
     (let b = T BFLAG_META_INODE ib (INODE_aulEntries cf e)
      in if b = BLOCK_SPARSE then BLOCK_SPARSE else T BFLAG_META_INDIR b (INDIR_aulEntries i))"
| "bmap cf T ib (Double e d i) =
     (let b = T BFLAG_META_INODE ib (INODE_aulEntries cf e)
      in if b = BLOCK_SPARSE then BLOCK_SPARSE
         else let b1 = T BFLAG_META_DINDIR b (INDIR_aulEntries d)
              in if b1 = BLOCK_SPARSE then BLOCK_SPARSE else T BFLAG_META_INDIR b1 (INDIR_aulEntries i))"

lemma length_cache_view:
  assumes "cache_ok cf dbyte dsize s" and "256 \<le> REDCONF_BLOCK_SIZE cf"
  shows "length (cache_view cf dbyte s v b) = REDCONF_BLOCK_SIZE cf"
  using assms
  by (auto simp: cache_view_def cache_ok_def cache_inv_def cache_lookup_def find_Some_iff split: option.split)

lemma ld_drop: "k \<le> off \<Longrightarrow> ld be n p off = ld be n (drop k p) (off - k)"
  by (simp add: ld_def)

lemma block_valid:
  assumes "b < ulBlockCount v" shows "b \<noteq> BBLK_INVALID"
proof
  assume "b = BBLK_INVALID"
  then have "unat b = 2 ^ 32 - 1" by (simp add: BBLK_INVALID_def)
  then show False using assms unsigned_less [of "ulBlockCount v", where ?'a = nat] by (simp add: word_less_nat_alt)
qed

lemma frame_count: "cache_frame s s' \<Longrightarrow> ulBlockCount (gpRedVolume s') = ulBlockCount (gpRedVolume s)"
  by (simp add: cache_frame_def vol_static_def gpRedVolume_def)

lemma node_at_quiet:
  assumes q: "quiet cf dbyte dsize s s'" and ok: "cache_ok cf dbyte dsize s" "cache_ok cf dbyte dsize s'"
    and bs: "256 \<le> REDCONF_BLOCK_SIZE cf"
  shows "node_at cf dbyte s' = node_at cf dbyte s"
proof (intro ext)
  fix fl b off
  have f: "cache_frame s s'" using q by (simp add: quiet_def)
  then have v: "gbRedVolNum s' = gbRedVolNum s" by (simp add: cache_frame_def)
  note c = frame_count [OF f]
  show "node_at cf dbyte s' fl b off = node_at cf dbyte s fl b off"
  proof (cases "b < ulBlockCount (gpRedVolume s) \<and> 16 \<le> off")
    case True
    then have b: "b \<noteq> BBLK_INVALID" using block_valid by blast
    have "drop 16 (wire cf fl (cache_view cf dbyte s' (gbRedVolNum s) b))
        = drop 16 (wire cf fl (cache_view cf dbyte s (gbRedVolNum s) b))"
      using q b length_cache_view [OF ok(1) bs] length_cache_view [OF ok(2) bs]
      by (intro wire_drop16 [OF bs]) (simp_all add: quiet_def)
    then have "ld32 be (wire cf fl (cache_view cf dbyte s' (gbRedVolNum s) b)) off
        = ld32 be (wire cf fl (cache_view cf dbyte s (gbRedVolNum s) b)) off" for be
      using True ld_drop by metis
    then show ?thesis by (simp add: node_at_def v c)
  qed (auto simp: node_at_def c)
qed

section \<open>The buffers of a cached inode\<close>

definition holds :: "'d redstate \<Rightarrow> nat \<Rightarrow> u32 \<Rightarrow> u16 \<Rightarrow> bool" where
  "holds s j b fl \<longleftrightarrow> ulBlock (aHead s ! j) = b \<and> uFlags (aHead s ! j) AND BFLAG_META_MASK = fl AND BFLAG_META_MASK
     \<and> b < ulBlockCount (gpRedVolume s)"

definition opt_list :: "'a option \<Rightarrow> 'a list" where
  "opt_list x = (case x of None \<Rightarrow> [] | Some y \<Rightarrow> [y])"

lemma opt_list_simps [simp]: "opt_list None = []" "opt_list (Some y) = [y]"
  by (simp_all add: opt_list_def)

definition inode_ptrs :: "CINODE \<Rightarrow> nat list" where
  "inode_ptrs c = opt_list (pbData c) @ opt_list (pIndir c) @ opt_list (pDindir c) @ opt_list (pInodeBuf c)"

definition inode_bufs ::
  "'d redconf \<Rightarrow> ('d \<Rightarrow> u8 \<Rightarrow> nat \<Rightarrow> u8) \<Rightarrow> ('d \<Rightarrow> u8 \<Rightarrow> nat) \<Rightarrow> (nat \<Rightarrow> nat) \<Rightarrow> u32 \<Rightarrow> CINODE \<times> 'd redstate \<Rightarrow> bool"
where
  "inode_bufs cf dbyte dsize env ib = (\<lambda>(c, s).
     cache_ok cf dbyte dsize s \<and> owns cf env (inode_ptrs c) s
     \<and> (\<exists>n. pInodeBuf c = Some n \<and> holds s n ib BFLAG_META_INODE)
     \<and> (\<forall>d. pDindir c = Some d \<longrightarrow> holds s d (ulDindirBlock c) BFLAG_META_DINDIR)
     \<and> (\<forall>d. pIndir c = Some d \<longrightarrow> holds s d (ulIndirBlock c) BFLAG_META_INDIR)
     \<and> (\<forall>d. pbData c = Some d \<longrightarrow> holds s d (ulDataBlock c) 0))"

text \<open>What the operations on a cached inode that only read have in common.\<close>

definition ino_kept ::
  "'d redconf \<Rightarrow> ('d \<Rightarrow> u8 \<Rightarrow> nat \<Rightarrow> u8) \<Rightarrow> ('d \<Rightarrow> u8 \<Rightarrow> nat) \<Rightarrow> (nat \<Rightarrow> nat) \<Rightarrow> CINODE \<times> 'd redstate \<Rightarrow> CINODE \<times> 'd redstate \<Rightarrow> bool"
where
  "ino_kept cf dbyte dsize env x y \<longleftrightarrow> quiet cf dbyte dsize (snd x) (snd y) \<and> env_kept cf env (snd x) (snd y)
     \<and> pInodeBuf (fst y) = pInodeBuf (fst x) \<and> ci_ulInode (fst y) = ci_ulInode (fst x)
     \<and> fDirectory (fst y) = fDirectory (fst x) \<and> ci_fBranched (fst y) = ci_fBranched (fst x)
     \<and> fDirty (fst y) = fDirty (fst x)"

lemma ino_kept_refl [simp]: "ino_kept cf dbyte dsize env x x"
  by (simp add: ino_kept_def)

lemma ino_kept_trans [trans]:
  "ino_kept cf dbyte dsize env x y \<Longrightarrow> ino_kept cf dbyte dsize env y z \<Longrightarrow> ino_kept cf dbyte dsize env x z"
  unfolding ino_kept_def by (auto intro: quiet_trans env_kept_trans)

lemma owns_mset: "mset ps = mset qs \<Longrightarrow> owns cf env ps s \<longleftrightarrow> owns cf env qs s"
  by (simp add: owns_def flip: count_mset set_mset_mset)

lemma holds_same_head:
  "same_head (aHead s ! j) (aHead s' ! j) \<Longrightarrow> cache_frame s s' \<Longrightarrow> holds s j b fl \<Longrightarrow> holds s' j b fl"
  by (simp add: holds_def same_head_def frame_count)

lemma holds_owned:
  "heads_kept cf s s' \<Longrightarrow> quiet cf dbyte dsize s s' \<Longrightarrow> owns cf env ps s \<Longrightarrow> j \<in> set ps \<Longrightarrow> holds s j b fl \<Longrightarrow> holds s' j b fl"
  using heads_owned [of cf s s' env ps j] holds_same_head [of s j s' b fl] by (simp add: quiet_def)

lemma meta_flags: "flags_ok BFLAG_META_INODE" "flags_ok BFLAG_META_DINDIR" "flags_ok BFLAG_META_INDIR" "flags_ok 0"
  by (simp_all add: flags_ok_def BFLAG_defs)

text \<open>Reading a member through a buffer that is held.\<close>

lemma ldb_holds:
  assumes ok: "cache_ok cf dbyte dsize s" and own: "owns cf env ps s" and j: "j \<in> set ps"
    and h: "holds s j b fl" and fl: "flags_ok fl" and bs: "256 \<le> REDCONF_BLOCK_SIZE cf"
    and off: "16 \<le> off" "off + 4 \<le> REDCONF_BLOCK_SIZE cf"
  shows "ldb32 cf j off s = node_at cf dbyte s fl b off"
  using buffer_view(1) [OF ok owned_held [OF own j] fl _ bs] h off
  by (simp add: holds_def ldb32_def node_at_def)

lemma inode_entry_at:
  assumes "inode_bufs cf dbyte dsize env ib (c, s)" and "unat e < INODE_ENTRIES cf" and "256 \<le> REDCONF_BLOCK_SIZE cf"
  shows "inode_entry cf c e s = node_at cf dbyte s BFLAG_META_INODE ib (INODE_aulEntries cf (unat e))"
proof -
  obtain n where n: "pInodeBuf c = Some n" "holds s n ib BFLAG_META_INODE" using assms by (auto simp: inode_bufs_def)
  then have "n \<in> set (inode_ptrs c)" by (simp add: inode_ptrs_def)
  then show ?thesis
    using assms n INODE_entries_inside [OF assms(2)] unfolding inode_entry_def
    by (subst ldb_holds [where fl = BFLAG_META_INODE]) (auto simp: inode_bufs_def meta_flags INODE_off_defs)
qed

section \<open>Putting and getting\<close>

text \<open>A pointer is the one of before, to the same block, or holds its block now.\<close>

definition ptr_ok :: "'d redstate \<Rightarrow> nat option \<Rightarrow> u32 \<Rightarrow> nat option \<Rightarrow> u32 \<Rightarrow> u16 \<Rightarrow> bool" where
  "ptr_ok s' p b p' b' fl \<longleftrightarrow> (\<forall>d. p' = Some d \<longrightarrow> p = Some d \<and> b' = b \<or> holds s' d b' fl)"

lemma ptr_ok_simps [simp]: "ptr_ok s' p b None b' fl" "ptr_ok s' p b p b fl"
  by (simp_all add: ptr_ok_def)

definition same_inode :: "CINODE \<Rightarrow> CINODE \<Rightarrow> bool" where
  "same_inode c c' \<longleftrightarrow> pInodeBuf c' = pInodeBuf c \<and> ci_ulInode c' = ci_ulInode c
     \<and> fDirectory c' = fDirectory c \<and> ci_fBranched c' = ci_fBranched c \<and> fDirty c' = fDirty c"

lemma bufs_change:
  assumes b: "inode_bufs cf dbyte dsize env ib (c, s)"
    and q: "quiet cf dbyte dsize s s'" and hk: "heads_kept cf s s'" and ok: "cache_ok cf dbyte dsize s'"
    and own: "owns cf env (inode_ptrs c') s'" and same: "same_inode c c'"
    and p: "ptr_ok s' (pDindir c) (ulDindirBlock c) (pDindir c') (ulDindirBlock c') BFLAG_META_DINDIR"
      "ptr_ok s' (pIndir c) (ulIndirBlock c) (pIndir c') (ulIndirBlock c') BFLAG_META_INDIR"
      "ptr_ok s' (pbData c) (ulDataBlock c) (pbData c') (ulDataBlock c') 0"
  shows "inode_bufs cf dbyte dsize env ib (c', s') \<and> ino_kept cf dbyte dsize env (c, s) (c', s')"
proof -
  have o: "owns cf env (inode_ptrs c) s" using b by (simp add: inode_bufs_def)
  have h: "holds s' j bl fl" if "j \<in> set (inode_ptrs c)" "holds s j bl fl" for j bl fl
    using holds_owned [OF hk q o] that by blast
  have keep: "\<forall>d. p' = Some d \<longrightarrow> holds s' d b' fl"
    if "ptr_ok s' p b p' b' fl" "\<forall>d. p = Some d \<longrightarrow> holds s d b fl" "\<forall>d. p = Some d \<longrightarrow> d \<in> set (inode_ptrs c)" for p b p' b' fl
    using that h by (auto simp: ptr_ok_def)
  obtain n where n: "pInodeBuf c = Some n" "holds s n ib BFLAG_META_INODE" using b by (auto simp: inode_bufs_def)
  have "holds s' n ib BFLAG_META_INODE" using h n by (simp add: inode_ptrs_def)
  then have "inode_bufs cf dbyte dsize env ib (c', s')"
    unfolding inode_bufs_def prod.case
    by (intro conjI ok own keep [OF p(1)] keep [OF p(2)] keep [OF p(3)])
      (use b n same in \<open>simp_all add: inode_bufs_def inode_ptrs_def same_inode_def\<close>)
  moreover have "ino_kept cf dbyte dsize env (c, s) (c', s')"
    using q heads_env [OF hk o] same by (simp add: ino_kept_def same_inode_def)
  ultimately show ?thesis by simp
qed

lemma put_bufs:
  assumes b: "inode_bufs cf dbyte dsize env ib (c, s)" and i: "i \<in> set (inode_ptrs c)"
    and m: "mset (inode_ptrs c') = mset (inode_ptrs c) - {#i#}" and same: "same_inode c c'"
    and p: "ptr_ok s (pDindir c) (ulDindirBlock c) (pDindir c') (ulDindirBlock c') BFLAG_META_DINDIR"
      "ptr_ok s (pIndir c) (ulIndirBlock c) (pIndir c') (ulIndirBlock c') BFLAG_META_INDIR"
      "ptr_ok s (pbData c) (ulDataBlock c) (pbData c') (ulDataBlock c') 0"
  shows "inode_bufs cf dbyte dsize env ib (c', RedBufferPut cf (Some i) s)
    \<and> ino_kept cf dbyte dsize env (c, s) (c', RedBufferPut cf (Some i) s)"
proof -
  have ok: "cache_ok cf dbyte dsize s" and own: "owns cf env (inode_ptrs c) s" using b by (simp_all add: inode_bufs_def)
  define s' where "s' = RedBufferPut cf (Some i) s"
  note r = put_owned [OF ok own i s'_def]
  have o: "owns cf env (inode_ptrs c') s'" using r owns_mset [of "inode_ptrs c'" "remove1 i (inode_ptrs c)" cf env s'] m by simp
  have hs: "holds s' j bl fl = holds s j bl fl" for j bl fl
    unfolding s'_def using ok owned_held [OF own i]
    by (simp add: holds_def RedBufferPut_eq cache_ok_def upd_head_def gpRedVolume_def nth_list_update cache_inv_def heads_inv_def held_def)
  have "ptr_ok s' x bl y bl' fl = ptr_ok s x bl y bl' fl" for x bl y bl' fl by (simp add: ptr_ok_def hs)
  then show ?thesis using bufs_change [OF b _ _ _ o same] r p by (simp add: s'_def)
qed

lemma same_inode_simps [simp]:
  "same_inode c (c\<lparr>pbData := x\<rparr>)" "same_inode c (c\<lparr>pIndir := x\<rparr>)" "same_inode c (c\<lparr>pDindir := x\<rparr>)"
  "same_inode c c"
  by (simp_all add: same_inode_def)

lemma put_data_bufs:
  assumes "inode_bufs cf dbyte dsize env ib x"
  shows "inode_bufs cf dbyte dsize env ib (RedInodePutData cf x) \<and> ino_kept cf dbyte dsize env x (RedInodePutData cf x)
    \<and> fst (RedInodePutData cf x) = (fst x)\<lparr>pbData := None\<rparr>"
proof (cases x)
  case (Pair c s)
  show ?thesis
  proof (cases "pbData c")
    case None
    then show ?thesis using assms Pair by (cases c) (simp add: RedInodePutData_def)
  next
    case (Some i)
    then show ?thesis using assms Pair
        put_bufs [where c = c and s = s and i = i and c' = "c\<lparr>pbData := None\<rparr>" and cf = cf and ib = ib]
      by (simp add: RedInodePutData_def inode_ptrs_def)
  qed
qed

lemma put_indir_bufs:
  assumes "inode_bufs cf dbyte dsize env ib x"
  shows "inode_bufs cf dbyte dsize env ib (RedInodePutIndir cf x) \<and> ino_kept cf dbyte dsize env x (RedInodePutIndir cf x)
    \<and> fst (RedInodePutIndir cf x) = (fst x)\<lparr>pIndir := None\<rparr>"
proof (cases x)
  case (Pair c s)
  show ?thesis
  proof (cases "pIndir c")
    case None
    then show ?thesis using assms Pair by (cases c) (simp add: RedInodePutIndir_def)
  next
    case (Some i)
    then show ?thesis using assms Pair
        put_bufs [where c = c and s = s and i = i and c' = "c\<lparr>pIndir := None\<rparr>" and cf = cf and ib = ib]
      by (simp add: RedInodePutIndir_def inode_ptrs_def)
  qed
qed

lemma put_dindir_bufs:
  assumes "inode_bufs cf dbyte dsize env ib x"
  shows "inode_bufs cf dbyte dsize env ib (RedInodePutDindir cf x) \<and> ino_kept cf dbyte dsize env x (RedInodePutDindir cf x)
    \<and> fst (RedInodePutDindir cf x) = (fst x)\<lparr>pDindir := None\<rparr>"
proof (cases x)
  case (Pair c s)
  show ?thesis
  proof (cases "pDindir c")
    case None
    then show ?thesis using assms Pair by (cases c) (simp add: RedInodePutDindir_def)
  next
    case (Some i)
    then show ?thesis using assms Pair
        put_bufs [where c = c and s = s and i = i and c' = "c\<lparr>pDindir := None\<rparr>" and cf = cf and ib = ib]
      by (simp add: RedInodePutDindir_def inode_ptrs_def)
  qed
qed

text \<open>The coordinates do not matter to the buffers.\<close>

lemma bufs_coords [simp]:
  "inode_bufs cf dbyte dsize env ib (c\<lparr>uInodeEntry := e\<rparr>, s) = inode_bufs cf dbyte dsize env ib (c, s)"
  "inode_bufs cf dbyte dsize env ib (c\<lparr>uDindirEntry := e\<rparr>, s) = inode_bufs cf dbyte dsize env ib (c, s)"
  "inode_bufs cf dbyte dsize env ib (c\<lparr>uIndirEntry := e\<rparr>, s) = inode_bufs cf dbyte dsize env ib (c, s)"
  "inode_bufs cf dbyte dsize env ib (c\<lparr>ulLogicalBlock := b\<rparr>, s) = inode_bufs cf dbyte dsize env ib (c, s)"
  "inode_bufs cf dbyte dsize env ib (c\<lparr>fCoordInited := f\<rparr>, s) = inode_bufs cf dbyte dsize env ib (c, s)"
  "pbData c = None \<Longrightarrow> inode_bufs cf dbyte dsize env ib (c\<lparr>ulDataBlock := b\<rparr>, s) = inode_bufs cf dbyte dsize env ib (c, s)"
  "pIndir c = None \<Longrightarrow> inode_bufs cf dbyte dsize env ib (c\<lparr>ulIndirBlock := b\<rparr>, s) = inode_bufs cf dbyte dsize env ib (c, s)"
  "pDindir c = None \<Longrightarrow> inode_bufs cf dbyte dsize env ib (c\<lparr>ulDindirBlock := b\<rparr>, s) = inode_bufs cf dbyte dsize env ib (c, s)"
  by (auto simp: inode_bufs_def inode_ptrs_def)

lemma kept_coords [simp]:
  "ino_kept cf dbyte dsize env x (c\<lparr>uInodeEntry := e\<rparr>, s) = ino_kept cf dbyte dsize env x (c, s)"
  "ino_kept cf dbyte dsize env x (c\<lparr>uDindirEntry := e\<rparr>, s) = ino_kept cf dbyte dsize env x (c, s)"
  "ino_kept cf dbyte dsize env x (c\<lparr>uIndirEntry := e\<rparr>, s) = ino_kept cf dbyte dsize env x (c, s)"
  "ino_kept cf dbyte dsize env x (c\<lparr>ulLogicalBlock := b\<rparr>, s) = ino_kept cf dbyte dsize env x (c, s)"
  "ino_kept cf dbyte dsize env x (c\<lparr>fCoordInited := f\<rparr>, s) = ino_kept cf dbyte dsize env x (c, s)"
  "ino_kept cf dbyte dsize env x (c\<lparr>ulDataBlock := b\<rparr>, s) = ino_kept cf dbyte dsize env x (c, s)"
  "ino_kept cf dbyte dsize env x (c\<lparr>ulIndirBlock := b\<rparr>, s) = ino_kept cf dbyte dsize env x (c, s)"
  "ino_kept cf dbyte dsize env x (c\<lparr>ulDindirBlock := b\<rparr>, s) = ino_kept cf dbyte dsize env x (c, s)"
  by (simp_all add: ino_kept_def)

text \<open>The nodes read the same before and after.\<close>

lemma node_at_kept:
  assumes "inode_bufs cf dbyte dsize env ib x" and "inode_bufs cf dbyte dsize env' ib' y"
    and "ino_kept cf dbyte dsize env x y" and "256 \<le> REDCONF_BLOCK_SIZE cf"
  shows "node_at cf dbyte (snd y) = node_at cf dbyte (snd x)"
  using assms node_at_quiet [of cf dbyte dsize "snd x" "snd y"]
  by (cases x; cases y) (simp add: ino_kept_def inode_bufs_def)

section \<open>Seeking to the coordinates\<close>

abbreviation entry_of :: "'d redconf \<Rightarrow> node_reader \<Rightarrow> u32 \<Rightarrow> nat \<Rightarrow> u32" where
  "entry_of cf T ib e \<equiv> T BFLAG_META_INODE ib (INODE_aulEntries cf e)"

definition coord_ok :: "'d redconf \<Rightarrow> node_reader \<Rightarrow> u32 \<Rightarrow> CINODE \<Rightarrow> bool" where
  "coord_ok cf T ib c \<longleftrightarrow>
     (if fCoordInited c then
        ulLogicalBlock c < INODE_DATA_BLOCKS cf \<and> cinode_path cf c = block_path cf (unat (ulLogicalBlock c))
        \<and> (pDindir c \<noteq> None \<longrightarrow> has_dindir cf c \<and> ulDindirBlock c \<noteq> BLOCK_SPARSE)
        \<and> (pIndir c \<noteq> None \<longrightarrow> has_indir cf c \<and> ulIndirBlock c \<noteq> BLOCK_SPARSE)
        \<and> (has_dindir cf c \<longrightarrow> ulDindirBlock c = entry_of cf T ib (unat (uInodeEntry c))
            \<and> (pIndir c \<noteq> None \<longrightarrow> ulDindirBlock c \<noteq> BLOCK_SPARSE
                 \<and> ulIndirBlock c = T BFLAG_META_DINDIR (ulDindirBlock c) (INDIR_aulEntries (unat (uDindirEntry c)))))
        \<and> (has_indir cf c \<and> \<not> has_dindir cf c \<longrightarrow> ulIndirBlock c = entry_of cf T ib (unat (uInodeEntry c)))
        \<and> (\<not> has_indir cf c \<longrightarrow> ulDataBlock c = entry_of cf T ib (unat (uInodeEntry c)))
        \<and> (pbData c \<noteq> None \<longrightarrow> ulDataBlock c = bmap cf T ib (cinode_path cf c) \<and> ulDataBlock c \<noteq> BLOCK_SPARSE)
      else pDindir c = None \<and> pIndir c = None \<and> pbData c = None)"

lemma coord_path_ok:
  assumes "coord_ok cf T ib c" and "fCoordInited c" and "pointers_ok cf"
  shows "path_ok cf (cinode_path cf c)"
  using assms block_path_ok(1) [OF assms(3) data_blocks] by (simp add: coord_ok_def word_less_nat_alt)

lemma path_ranges:
  assumes "path_ok cf (cinode_path cf c)" and "pointers_ok cf"
  shows "unat (uInodeEntry c) < REDCONF_DIRECT_POINTERS cf \<longleftrightarrow> \<not> has_dindir cf c \<and> \<not> has_indir cf c"
    and "REDCONF_DIRECT_POINTERS cf \<le> unat (uInodeEntry c)
      \<and> unat (uInodeEntry c) < REDCONF_DIRECT_POINTERS cf + REDCONF_INDIRECT_POINTERS cf \<longleftrightarrow> \<not> has_dindir cf c \<and> has_indir cf c"
    and "has_dindir cf c \<Longrightarrow> has_indir cf c"
    and "unat (uInodeEntry c) < INODE_ENTRIES cf"
    and "has_dindir cf c \<Longrightarrow> unat (uDindirEntry c) < INDIR_ENTRIES cf"
    and "has_indir cf c \<Longrightarrow> unat (uIndirEntry c) < INDIR_ENTRIES cf"
proof -
  note ok = assms(1) [unfolded path_ok_def cinode_path_def]
  have le: "REDCONF_DIRECT_POINTERS cf + REDCONF_INDIRECT_POINTERS cf \<le> INODE_ENTRIES cf"
    using assms(2) by (simp add: pointers_ok_def)
  have d: "REDCONF_DIRECT_POINTERS cf < INODE_ENTRIES cf" if "has_dindir cf c"
    using that by (simp add: has_dindir_def DINDIR_POINTERS_def)
  show i: "has_indir cf c" if "has_dindir cf c"
    using that ok d [OF that] pointers_small(3) [OF assms(2)] entry_valid [of "uIndirEntry c"]
    by (simp add: has_indir_def)
  show "unat (uInodeEntry c) < REDCONF_DIRECT_POINTERS cf \<longleftrightarrow> \<not> has_dindir cf c \<and> \<not> has_indir cf c"
    "REDCONF_DIRECT_POINTERS cf \<le> unat (uInodeEntry c)
      \<and> unat (uInodeEntry c) < REDCONF_DIRECT_POINTERS cf + REDCONF_INDIRECT_POINTERS cf \<longleftrightarrow> \<not> has_dindir cf c \<and> has_indir cf c"
    "unat (uInodeEntry c) < INODE_ENTRIES cf"
    "has_dindir cf c \<Longrightarrow> unat (uDindirEntry c) < INDIR_ENTRIES cf"
    "has_indir cf c \<Longrightarrow> unat (uIndirEntry c) < INDIR_ENTRIES cf"
    using ok le i by (auto split: if_splits)
qed

lemma pointers_block_size: "pointers_ok cf \<Longrightarrow> 256 \<le> REDCONF_BLOCK_SIZE cf"
  using conf_ok_block_size [of cf] by (simp add: pointers_ok_def)

lemma put_coord_bufs:
  assumes b: "inode_bufs cf dbyte dsize env ib x"
  shows "inode_bufs cf dbyte dsize env ib (RedInodePutCoord cf x) \<and> ino_kept cf dbyte dsize env x (RedInodePutCoord cf x)
    \<and> fst (RedInodePutCoord cf x) = (fst x)\<lparr>pbData := None,
        pIndir := (if REDCONF_DIRECT_POINTERS cf < INODE_ENTRIES cf then None else pIndir (fst x)),
        pDindir := (if DINDIR_POINTERS cf > 0 then None else pDindir (fst x))\<rparr>"
proof -
  define x1 where "x1 = RedInodePutData cf x"
  define x2 where "x2 = (if REDCONF_DIRECT_POINTERS cf < INODE_ENTRIES cf then RedInodePutIndir cf x1 else x1)"
  define x3 where "x3 = (if DINDIR_POINTERS cf > 0 then RedInodePutDindir cf x2 else x2)"
  have e: "RedInodePutCoord cf x = x3" by (simp add: RedInodePutCoord_def x1_def x2_def x3_def Let_def)
  have r1: "inode_bufs cf dbyte dsize env ib x1" "ino_kept cf dbyte dsize env x x1" "fst x1 = (fst x)\<lparr>pbData := None\<rparr>"
    using put_data_bufs [OF b] by (simp_all add: x1_def)
  have r2: "inode_bufs cf dbyte dsize env ib x2" "ino_kept cf dbyte dsize env x1 x2"
    "fst x2 = (fst x1)\<lparr>pIndir := (if REDCONF_DIRECT_POINTERS cf < INODE_ENTRIES cf then None else pIndir (fst x1))\<rparr>"
    using put_indir_bufs [OF r1(1)] r1(1) by (simp_all add: x2_def)
  have r3: "inode_bufs cf dbyte dsize env ib x3" "ino_kept cf dbyte dsize env x2 x3"
    "fst x3 = (fst x2)\<lparr>pDindir := (if DINDIR_POINTERS cf > 0 then None else pDindir (fst x2))\<rparr>"
    using put_dindir_bufs [OF r2(1)] r2(1) by (simp_all add: x3_def)
  have "ino_kept cf dbyte dsize env x x3" using r1(2) r2(2) r3(2) by (blast intro: ino_kept_trans)
  then show ?thesis unfolding e using r1(3) r2(3) r3(1,3) by simp
qed

lemma bufs_pair:
  "inode_bufs cf dbyte dsize env ib y \<Longrightarrow> fst y = c \<Longrightarrow> inode_bufs cf dbyte dsize env ib (c, snd y)"
  "ino_kept cf dbyte dsize env x y \<Longrightarrow> fst y = c \<Longrightarrow> ino_kept cf dbyte dsize env x (c, snd y)"
  by (auto simp: prod.collapse)

lemma seek_direct_bufs:
  assumes b: "inode_bufs cf dbyte dsize env ib x" and ok: "pointers_ok cf" and k: "unat blk < REDCONF_DIRECT_POINTERS cf"
    and d: "pbData (fst x) = None"
  shows "inode_bufs cf dbyte dsize env ib (seek_direct cf blk x) \<and> ino_kept cf dbyte dsize env x (seek_direct cf blk x)
    \<and> fst (seek_direct cf blk x) = (fst x)\<lparr>pbData := None,
        pIndir := (if REDCONF_DIRECT_POINTERS cf < INODE_ENTRIES cf then None else pIndir (fst x)),
        pDindir := (if REDCONF_DIRECT_POINTERS cf < INODE_ENTRIES cf \<and> DINDIR_POINTERS cf > 0 then None else pDindir (fst x)),
        uInodeEntry := ucast blk, ulDataBlock := entry_of cf (node_at cf dbyte (snd x)) ib (unat blk),
        uDindirEntry := (if DINDIR_POINTERS cf > 0 then COORD_ENTRY_INVALID else uDindirEntry (fst x)),
        uIndirEntry := (if REDCONF_DIRECT_POINTERS cf < INODE_ENTRIES cf then COORD_ENTRY_INVALID else uIndirEntry (fst x))\<rparr>"
proof -
  note bs = pointers_block_size [OF ok]
  define y where "y = (if REDCONF_DIRECT_POINTERS cf < INODE_ENTRIES cf then RedInodePutCoord cf x else x)"
  have y: "inode_bufs cf dbyte dsize env ib y" "ino_kept cf dbyte dsize env x y"
    "fst y = (fst x)\<lparr>pbData := None, pIndir := (if REDCONF_DIRECT_POINTERS cf < INODE_ENTRIES cf then None else pIndir (fst x)),
       pDindir := (if REDCONF_DIRECT_POINTERS cf < INODE_ENTRIES cf \<and> DINDIR_POINTERS cf > 0 then None else pDindir (fst x))\<rparr>"
    using put_coord_bufs [OF b] b d by (simp_all add: y_def)
  have e: "unat (ucast blk :: u16) = unat blk" using k pointers_small(1) [OF ok] by (intro unat_ucast16) simp
  have lt: "unat (ucast blk :: u16) < INODE_ENTRIES cf" using k ok by (simp add: e pointers_ok_def)
  have ent: "inode_entry cf (fst y) (ucast blk) (snd y) = entry_of cf (node_at cf dbyte (snd x)) ib (unat blk)"
    using inode_entry_at [where c = "fst y" and s = "snd y" and e = "ucast blk" and cf = cf and ib = ib, OF _ lt bs] y(1)
      node_at_kept [OF b y(1,2) bs] by (simp add: e)
  have run: "seek_direct cf blk x = ((fst y)\<lparr>uInodeEntry := ucast blk,
      ulDataBlock := inode_entry cf (fst y) (ucast blk) (snd y),
      uDindirEntry := (if DINDIR_POINTERS cf > 0 then COORD_ENTRY_INVALID else uDindirEntry (fst y)),
      uIndirEntry := (if REDCONF_DIRECT_POINTERS cf < INODE_ENTRIES cf then COORD_ENTRY_INVALID else uIndirEntry (fst y))\<rparr>, snd y)"
    by (simp add: seek_direct_def y_def [symmetric] split: prod.split)
  note y1 = bufs_pair(1) [OF y(1) y(3)] bufs_pair(2) [OF y(2) y(3)]
  show ?thesis unfolding run ent using y1 by (simp add: y(3))
qed

lemma seek_indir_bufs:
  fixes blk :: u32
  assumes b: "inode_bufs cf dbyte dsize env ib x" and ok: "pointers_ok cf"
    and lo: "REDCONF_DIRECT_POINTERS cf \<le> unat blk" and hi: "unat blk < REDCONF_DIRECT_POINTERS cf + INODE_INDIR_BLOCKS cf"
  defines "off \<equiv> blk - of_nat (REDCONF_DIRECT_POINTERS cf)"
  defines "e \<equiv> (ucast (off div of_nat (INDIR_ENTRIES cf) + of_nat (REDCONF_DIRECT_POINTERS cf)) :: u16)"
  defines "fresh \<equiv> uInodeEntry (fst x) \<noteq> e \<or> \<not> fCoordInited (fst x)"
  shows "inode_bufs cf dbyte dsize env ib (seek_indir cf blk x) \<and> ino_kept cf dbyte dsize env x (seek_indir cf blk x)
    \<and> fst (seek_indir cf blk x) = (fst x)\<lparr>
        pIndir := (if fresh then None else pIndir (fst x)),
        pDindir := (if DINDIR_POINTERS cf > 0 then None else pDindir (fst x)),
        uInodeEntry := e,
        ulIndirBlock := (if fresh then entry_of cf (node_at cf dbyte (snd x)) ib (unat e) else ulIndirBlock (fst x)),
        uDindirEntry := (if DINDIR_POINTERS cf > 0 then COORD_ENTRY_INVALID else uDindirEntry (fst x)),
        uIndirEntry := ucast (off mod of_nat (INDIR_ENTRIES cf))\<rparr>"
proof -
  note bs = pointers_block_size [OF ok]
  define y where "y = (if DINDIR_POINTERS cf > 0 then RedInodePutDindir cf x else x)"
  define z where "z = (if fresh then RedInodePutIndir cf y else y)"
  have y: "inode_bufs cf dbyte dsize env ib y" "ino_kept cf dbyte dsize env x y"
    "fst y = (fst x)\<lparr>pDindir := (if DINDIR_POINTERS cf > 0 then None else pDindir (fst x))\<rparr>"
    using put_dindir_bufs [OF b] b by (simp_all add: y_def)
  have fr: "fresh = (uInodeEntry (fst y) \<noteq> e \<or> \<not> fCoordInited (fst y))" by (simp add: fresh_def y(3))
  have z: "inode_bufs cf dbyte dsize env ib z" "ino_kept cf dbyte dsize env x z"
    "fst z = (fst y)\<lparr>pIndir := (if fresh then None else pIndir (fst y))\<rparr>"
    using put_indir_bufs [OF y(1)] y by (auto simp: z_def intro: ino_kept_trans)
  have "(unat blk - REDCONF_DIRECT_POINTERS cf) div INDIR_ENTRIES cf < REDCONF_INDIRECT_POINTERS cf"
    using hi lo pointers_small(4) [OF ok] by (simp add: INODE_INDIR_BLOCKS_def less_mult_imp_div_less)
  then have lt: "unat e < INODE_ENTRIES cf"
    using indir_coords(1) [OF ok lo hi] ok unfolding e_def off_def by (simp add: pointers_ok_def)
  have ent: "inode_entry cf (fst z) e (snd z) = entry_of cf (node_at cf dbyte (snd x)) ib (unat e)"
    using inode_entry_at [where c = "fst z" and s = "snd z" and e = e and cf = cf and ib = ib, OF _ lt bs] z(1)
      node_at_kept [OF b z(1,2) bs] by simp
  have run: "seek_indir cf blk x = ((fst z)\<lparr>uInodeEntry := e,
      ulIndirBlock := (if fresh then inode_entry cf (fst z) e (snd z) else ulIndirBlock (fst z)),
      uDindirEntry := (if DINDIR_POINTERS cf > 0 then COORD_ENTRY_INVALID else uDindirEntry (fst z)),
      uIndirEntry := ucast (off mod of_nat (INDIR_ENTRIES cf))\<rparr>, snd z)"
    using fr unfolding seek_indir_def Let_def off_def [symmetric] e_def [symmetric] y_def [symmetric]
    by (cases fresh; cases "RedInodePutIndir cf y"; cases y) (simp_all add: z_def)
  note z1 = bufs_pair(1) [OF z(1) z(3)] bufs_pair(2) [OF z(2) z(3)]
  show ?thesis unfolding run ent using z1 [unfolded y(3)]
    by (cases fresh; cases "DINDIR_POINTERS cf > 0") (simp_all add: z(3) y(3))
qed

lemma seek_dindir_bufs:
  fixes blk :: u32
  assumes b: "inode_bufs cf dbyte dsize env ib x" and ok: "pointers_ok cf"
    and lo: "REDCONF_DIRECT_POINTERS cf + INODE_INDIR_BLOCKS cf \<le> unat blk"
    and hi: "unat blk < REDCONF_DIRECT_POINTERS cf + INODE_INDIR_BLOCKS cf + INODE_DINDIR_BLOCKS cf"
  defines "off \<equiv> (blk - of_nat (REDCONF_DIRECT_POINTERS cf)) - of_nat (INODE_INDIR_BLOCKS cf)"
  defines "e \<equiv> (ucast (off div of_nat (DINDIR_DATA_BLOCKS cf) + of_nat (REDCONF_DIRECT_POINTERS cf)
      + of_nat (REDCONF_INDIRECT_POINTERS cf)) :: u16)"
  defines "d \<equiv> (ucast (off mod of_nat (DINDIR_DATA_BLOCKS cf) div of_nat (INDIR_ENTRIES cf)) :: u16)"
  defines "i \<equiv> (ucast (off mod of_nat (DINDIR_DATA_BLOCKS cf) mod of_nat (INDIR_ENTRIES cf)) :: u16)"
  defines "fresh \<equiv> uInodeEntry (fst x) \<noteq> e \<or> \<not> fCoordInited (fst x)"
  shows "inode_bufs cf dbyte dsize env ib (seek_dindir cf blk x) \<and> ino_kept cf dbyte dsize env x (seek_dindir cf blk x)
    \<and> fst (seek_dindir cf blk x) = (fst x)\<lparr>
        pIndir := (if fresh \<or> uDindirEntry (fst x) \<noteq> d then None else pIndir (fst x)),
        pDindir := (if fresh then None else pDindir (fst x)),
        uInodeEntry := e,
        ulDindirBlock := (if fresh then entry_of cf (node_at cf dbyte (snd x)) ib (unat e) else ulDindirBlock (fst x)),
        uDindirEntry := d, uIndirEntry := i\<rparr>"
proof -
  note bs = pointers_block_size [OF ok]
  define y where "y = (if fresh \<or> uDindirEntry (fst x) \<noteq> d then RedInodePutIndir cf x else x)"
  define z where "z = (if fresh then RedInodePutDindir cf y else y)"
  have y: "inode_bufs cf dbyte dsize env ib y" "ino_kept cf dbyte dsize env x y"
    "fst y = (fst x)\<lparr>pIndir := (if fresh \<or> uDindirEntry (fst x) \<noteq> d then None else pIndir (fst x))\<rparr>"
    using put_indir_bufs [OF b] b by (simp_all add: y_def)
  have z: "inode_bufs cf dbyte dsize env ib z" "ino_kept cf dbyte dsize env x z"
    "fst z = (fst y)\<lparr>pDindir := (if fresh then None else pDindir (fst y))\<rparr>"
    using put_dindir_bufs [OF y(1)] y by (auto simp: z_def intro: ino_kept_trans)
  have "unat blk - REDCONF_DIRECT_POINTERS cf - INODE_INDIR_BLOCKS cf < DINDIR_POINTERS cf * DINDIR_DATA_BLOCKS cf"
    using hi lo by (simp add: INODE_DINDIR_BLOCKS_def)
  then have "(unat blk - REDCONF_DIRECT_POINTERS cf - INODE_INDIR_BLOCKS cf) div DINDIR_DATA_BLOCKS cf < DINDIR_POINTERS cf"
    by (simp add: less_mult_imp_div_less)
  then have lt: "unat e < INODE_ENTRIES cf"
    using dindir_coords(1) [OF ok lo hi] ok unfolding e_def off_def by (simp add: pointers_ok_def DINDIR_POINTERS_def)
  have ent: "inode_entry cf (fst z) e (snd z) = entry_of cf (node_at cf dbyte (snd x)) ib (unat e)"
    using inode_entry_at [where c = "fst z" and s = "snd z" and e = e and cf = cf and ib = ib, OF _ lt bs] z(1)
      node_at_kept [OF b z(1,2) bs] by simp
  have run: "seek_dindir cf blk x = ((fst z)\<lparr>uInodeEntry := e,
      ulDindirBlock := (if fresh then inode_entry cf (fst z) e (snd z) else ulDindirBlock (fst z)),
      uDindirEntry := d, uIndirEntry := i\<rparr>, snd z)"
  proof (cases fresh)
    case True
    then have c: "uInodeEntry (fst x) \<noteq> e \<or> \<not> fCoordInited (fst x)" by (simp add: fresh_def)
    have zz: "z = RedInodePutDindir cf (RedInodePutIndir cf x)" using True by (simp add: z_def y_def)
    show ?thesis
      unfolding seek_dindir_def Let_def off_def [symmetric] e_def [symmetric] d_def [symmetric] i_def [symmetric]
        if_P [OF c] zz [symmetric] using True by (simp split: prod.split)
  next
    case False
    then have c: "\<not> (uInodeEntry (fst x) \<noteq> e \<or> \<not> fCoordInited (fst x))" by (simp add: fresh_def)
    then have ue: "uInodeEntry (fst z) = e" by (simp add: z(3) y(3))
    have zz: "(if uDindirEntry (fst x) \<noteq> d then RedInodePutIndir cf x else x) = z" using False by (simp add: z_def y_def)
    show ?thesis
      unfolding seek_dindir_def Let_def off_def [symmetric] e_def [symmetric] d_def [symmetric] i_def [symmetric]
        if_not_P [OF c] zz using False ue by (cases z) (simp flip: ue)
  qed
  note z1 = bufs_pair(1) [OF z(1) z(3)] bufs_pair(2) [OF z(2) z(3)]
  show ?thesis unfolding run ent using z1 [unfolded y(3)]
    by (cases fresh; cases "uDindirEntry (fst x) = d") (simp_all add: z(3) y(3))
qed

lemma coord_pointers:
  assumes "coord_ok cf T ib c"
  shows "pDindir c = Some d \<Longrightarrow> 0 < DINDIR_POINTERS cf" and "pIndir c = Some d \<Longrightarrow> REDCONF_DIRECT_POINTERS cf < INODE_ENTRIES cf"
  using assms by (auto simp: coord_ok_def has_dindir_def has_indir_def split: if_splits)

lemma has_coords [simp]:
  "has_dindir cf (c\<lparr>fCoordInited := f\<rparr>) = has_dindir cf c" "has_indir cf (c\<lparr>fCoordInited := f\<rparr>) = has_indir cf c"
  "cinode_path cf (c\<lparr>fCoordInited := f\<rparr>) = cinode_path cf c"
  by (simp_all add: has_dindir_def has_indir_def cinode_path_def)

text \<open>What the new coordinates owe to the old ones, in each of the three ranges.\<close>

lemma coord_direct:
  assumes co: "coord_ok cf T ib c" and path: "cinode_path cf c' = block_path cf (unat blk)" "blk < INODE_DATA_BLOCKS cf"
    and h: "\<not> has_dindir cf c'" "\<not> has_indir cf c'"
    and c': "fCoordInited c'" "ulLogicalBlock c' = blk" "pbData c' = None"
      "pIndir c' = (if REDCONF_DIRECT_POINTERS cf < INODE_ENTRIES cf then None else pIndir c)"
      "pDindir c' = (if REDCONF_DIRECT_POINTERS cf < INODE_ENTRIES cf \<and> DINDIR_POINTERS cf > 0 then None else pDindir c)"
      "ulDataBlock c' = entry_of cf T ib (unat (uInodeEntry c'))"
  shows "coord_ok cf T ib c'"
proof -
  have "pIndir c' = None"
    using c'(4) coord_pointers(2) [OF co] by (cases "pIndir c") auto
  moreover have "DINDIR_POINTERS cf > 0 \<Longrightarrow> REDCONF_DIRECT_POINTERS cf < INODE_ENTRIES cf"
    by (simp add: DINDIR_POINTERS_def)
  then have "pDindir c' = None" using c'(5) coord_pointers(1) [OF co] by (cases "pDindir c") auto
  ultimately show ?thesis using assms by (simp add: coord_ok_def)
qed

lemma coord_indir:
  assumes co: "coord_ok cf T ib c" and ok: "pointers_ok cf"
    and path: "cinode_path cf c' = block_path cf (unat blk)" "blk < INODE_DATA_BLOCKS cf"
    and h: "\<not> has_dindir cf c'" "has_indir cf c'"
    and c': "fCoordInited c'" "ulLogicalBlock c' = blk" "pbData c' = None"
      "pIndir c' = (if fresh then None else pIndir c)" "pDindir c' = (if DINDIR_POINTERS cf > 0 then None else pDindir c)"
      "ulIndirBlock c' = (if fresh then entry_of cf T ib (unat (uInodeEntry c')) else ulIndirBlock c)"
    and fresh: "fresh \<longleftrightarrow> uInodeEntry c \<noteq> uInodeEntry c' \<or> \<not> fCoordInited c"
  shows "coord_ok cf T ib c'"
proof -
  have p': "path_ok cf (cinode_path cf c')"
    using block_path_ok(1) [OF ok data_blocks] path by (simp add: word_less_nat_alt)
  have "pDindir c' = None" using c'(5) coord_pointers(1) [OF co] by (cases "pDindir c") auto
  moreover have "ulIndirBlock c' = entry_of cf T ib (unat (uInodeEntry c')) \<and> (pIndir c' \<noteq> None \<longrightarrow> ulIndirBlock c' \<noteq> BLOCK_SPARSE)"
  proof (cases fresh)
    case False
    then have e: "uInodeEntry c = uInodeEntry c'" and i: "fCoordInited c" by (simp_all add: fresh)
    have p: "path_ok cf (cinode_path cf c)" by (rule coord_path_ok [OF co i ok])
    have "\<not> has_dindir cf c \<and> has_indir cf c"
      using path_ranges(2) [OF p ok] path_ranges(2) [OF p' ok] h e by simp
    then show ?thesis using co i c' False e by (auto simp: coord_ok_def)
  qed (simp add: c')
  ultimately show ?thesis using path h c'(1-3) by (auto simp: coord_ok_def)
qed

lemma coord_dindir:
  assumes co: "coord_ok cf T ib c" and ok: "pointers_ok cf"
    and path: "cinode_path cf c' = block_path cf (unat blk)" "blk < INODE_DATA_BLOCKS cf"
    and h: "has_dindir cf c'"
    and c': "fCoordInited c'" "ulLogicalBlock c' = blk" "pbData c' = None"
      "pIndir c' = (if fresh \<or> uDindirEntry c \<noteq> uDindirEntry c' then None else pIndir c)" "pDindir c' = (if fresh then None else pDindir c)"
      "ulDindirBlock c' = (if fresh then entry_of cf T ib (unat (uInodeEntry c')) else ulDindirBlock c)"
      "ulIndirBlock c' = ulIndirBlock c"
    and fresh: "fresh \<longleftrightarrow> uInodeEntry c \<noteq> uInodeEntry c' \<or> \<not> fCoordInited c"
  shows "coord_ok cf T ib c'"
proof -
  have p': "path_ok cf (cinode_path cf c')"
    using block_path_ok(1) [OF ok data_blocks] path by (simp add: word_less_nat_alt)
  have hi: "has_indir cf c'" by (rule path_ranges(3) [OF p' ok h])
  show ?thesis
  proof (cases fresh)
    case True
    then show ?thesis using c' path h hi by (simp add: coord_ok_def)
  next
    case False
    then have e: "uInodeEntry c = uInodeEntry c'" and i: "fCoordInited c" by (simp_all add: fresh)
    have p: "path_ok cf (cinode_path cf c)" by (rule coord_path_ok [OF co i ok])
    have hd: "has_dindir cf c"
      using path_ranges(1,2,4) [OF p ok] path_ranges(1,2,4) [OF p' ok] h e by auto
    show ?thesis
      using co i c' False e hd h hi path by (auto simp: coord_ok_def)
  qed
qed

lemma SeekCoord_result:
  assumes b: "inode_bufs cf dbyte dsize env ib (c, s)" and ok: "pointers_ok cf"
    and co: "coord_ok cf (node_at cf dbyte s) ib c"
    and mnt: "CINODE_IS_MOUNTED cf c s" and blk: "blk < INODE_DATA_BLOCKS cf"
    and run: "SeekCoord cf blk (c, s) = (c', s')"
  shows "inode_bufs cf dbyte dsize env ib (c', s') \<and> ino_kept cf dbyte dsize env (c, s) (c', s')
    \<and> coord_ok cf (node_at cf dbyte s) ib c' \<and> fCoordInited c' \<and> ulLogicalBlock c' = blk"
proof (cases "ulLogicalBlock c \<noteq> blk \<or> \<not> fCoordInited c")
  case False
  then have "(c', s') = (c, s)" using run mnt blk [folded not_le] by (simp add: SeekCoord_def)
  then show ?thesis using b co False by simp
next
  case moved: True
  note sc = seek_coords [OF ok mnt blk moved run]
  define x where "x = ((fst (RedInodePutData cf (c, s)))\<lparr>ulLogicalBlock := blk\<rparr>, snd (RedInodePutData cf (c, s)))"
  have x: "inode_bufs cf dbyte dsize env ib x" "ino_kept cf dbyte dsize env (c, s) x"
    "fst x = c\<lparr>pbData := None, ulLogicalBlock := blk\<rparr>"
    using put_data_bufs [OF b] by (metis bufs_pair bufs_coords(4) kept_coords(4) x_def, metis bufs_pair kept_coords(4) x_def,
        simp add: x_def)
  note bs = pointers_block_size [OF ok]
  have T: "node_at cf dbyte (snd x) = node_at cf dbyte s" using node_at_kept [OF b x(1,2) bs] by simp
  have kk: "unat blk < REDCONF_DIRECT_POINTERS cf + INODE_INDIR_BLOCKS cf + INODE_DINDIR_BLOCKS cf"
    using data_blocks blk by (simp add: word_less_nat_alt)
  define y where "y = (if unat blk < REDCONF_DIRECT_POINTERS cf then seek_direct cf blk x
     else if unat blk < REDCONF_DIRECT_POINTERS cf + INODE_INDIR_BLOCKS cf then seek_indir cf blk x
     else seek_dindir cf blk x)"
  have "SeekCoord cf blk (c, s) = (case y of (c2, s2) \<Rightarrow> (c2\<lparr>fCoordInited := True\<rparr>, s2))"
    unfolding SeekCoord_def y_def using mnt blk [folded not_le] moved seek_ranges [OF ok blk]
    by (simp add: x_def Let_def case_prod_unfold)
  then have c': "c' = (fst y)\<lparr>fCoordInited := True\<rparr>" "s' = snd y" using run by (simp_all split: prod.splits)
  have path: "cinode_path cf (fst y) = block_path cf (unat blk)" using sc(1) by (simp add: c')
  have pk: "path_ok cf (cinode_path cf (fst y))" using block_path_ok(1) [OF ok kk] path by simp
  have pd: "pbData (fst x) = None" by (simp add: x(3))
  consider (d) "unat blk < REDCONF_DIRECT_POINTERS cf"
    | (i) "REDCONF_DIRECT_POINTERS cf \<le> unat blk" "unat blk < REDCONF_DIRECT_POINTERS cf + INODE_INDIR_BLOCKS cf"
    | (dd) "REDCONF_DIRECT_POINTERS cf + INODE_INDIR_BLOCKS cf \<le> unat blk" by linarith
  then have "inode_bufs cf dbyte dsize env ib y \<and> ino_kept cf dbyte dsize env x y
      \<and> coord_ok cf (node_at cf dbyte s) ib c'"
  proof cases
    case d
    then have y: "y = seek_direct cf blk x" by (simp add: y_def)
    note r = seek_direct_bufs [OF x(1) ok d pd]
    have e: "unat (ucast blk :: u16) = unat blk" using d pointers_small(1) [OF ok] by (intro unat_ucast16) simp
    have "coord_ok cf (node_at cf dbyte s) ib c'"
      by (rule coord_direct [OF co sc(1) blk _ _ sc(3,2,4)])
        (use r seek_direct_coords(4,5) [of cf blk x] in \<open>simp_all add: c' y x(3) T e\<close>)
    then show ?thesis using r by (simp add: y)
  next
    case i
    then have y: "y = seek_indir cf blk x" by (simp add: y_def)
    note r = seek_indir_bufs [OF x(1) ok i]
    have h: "\<not> has_dindir cf c'" "has_indir cf c'"
      using seek_indir_coords(5) [of cf blk x] sc(1) i by (auto simp: c' y block_path_def cinode_path_def Let_def INODE_INDIR_BLOCKS_def split: if_splits)
    have "coord_ok cf (node_at cf dbyte s) ib c'"
      by (rule coord_indir [OF co ok sc(1) blk h sc(3,2,4),
          where fresh = "uInodeEntry c \<noteq> uInodeEntry c' \<or> \<not> fCoordInited c"])
        (use r in \<open>simp_all add: c' y x(3) T\<close>)
    then show ?thesis using r by (simp add: y)
  next
    case dd
    then have y: "y = seek_dindir cf blk x" by (simp add: y_def)
    note r = seek_dindir_bufs [OF x(1) ok dd kk]
    have h: "has_dindir cf c'"
      using sc(1) dd by (auto simp: c' y block_path_def cinode_path_def Let_def INODE_INDIR_BLOCKS_def split: if_splits)
    have "coord_ok cf (node_at cf dbyte s) ib c'"
      by (rule coord_dindir [OF co ok sc(1) blk h sc(3,2,4),
          where fresh = "uInodeEntry c \<noteq> uInodeEntry c' \<or> \<not> fCoordInited c"])
        (use r in \<open>simp_all add: c' y x(3) T\<close>)
    then show ?thesis using r by (simp add: y)
  qed
  then have y: "inode_bufs cf dbyte dsize env ib y" "ino_kept cf dbyte dsize env x y" "coord_ok cf (node_at cf dbyte s) ib c'"
    by simp_all
  have "ino_kept cf dbyte dsize env (c, s) y" using x(2) y(2) by (rule ino_kept_trans)
  then show ?thesis using y(1,3) sc(2,3) by (simp add: c')
qed

end
