(* ===== verification/InodeFollow.thy ===== *)
theory InodeFollow
  imports InodeMap
begin

text \<open>
  \<open>RedInodeDataSeek\<close> follows the pointers: it ends at the block the block map of the inode gives, or
  reports \<open>RED_ENODATA\<close> exactly for a sparse block. Every read of the inode's data rests on this.
\<close>

lemma ino_run [red_simps]:
  "getI f (c, s) = f c s (c, s)" "modC g (c, s) = (Inr (), (g c, s))" "modS h (c, s) = (Inr (), (c, h s))"
  "liftI m (c, s) = (case m s of (r, s') \<Rightarrow> (r, (c, s')))"
  by (simp_all add: getI_def modC_def modS_def liftI_def red_simps)

text \<open>Reading the indirect node keeps the coordinates right.\<close>

lemma coord_read_indir:
  assumes co: "coord_ok cf T ib c" and i: "fCoordInited c" and h: "has_indir cf c"
    and v: "pbData c \<noteq> None \<longrightarrow> v = ulDataBlock c" and p: "p \<noteq> None \<longrightarrow> ulIndirBlock c \<noteq> BLOCK_SPARSE"
    and d: "p \<noteq> None \<longrightarrow> has_dindir cf c \<longrightarrow> ulDindirBlock c \<noteq> BLOCK_SPARSE
      \<and> ulIndirBlock c = T BFLAG_META_DINDIR (ulDindirBlock c) (INDIR_aulEntries (unat (uDindirEntry c)))"
  shows "coord_ok cf T ib (c\<lparr>pIndir := p, ulDataBlock := v\<rparr>)"
proof -
  let ?c = "c\<lparr>pIndir := p, ulDataBlock := v\<rparr>"
  have hd: "has_dindir cf ?c = has_dindir cf c" "cinode_path cf ?c = cinode_path cf c" "has_indir cf ?c = has_indir cf c"
    by (simp_all add: has_dindir_def has_indir_def cinode_path_def)
  note * = co [unfolded coord_ok_def if_P [OF i]]
  have i': "fCoordInited ?c" using i by simp
  have sel: "pDindir ?c = pDindir c" "ulDindirBlock ?c = ulDindirBlock c" "ulLogicalBlock ?c = ulLogicalBlock c"
    "uInodeEntry ?c = uInodeEntry c" "ulIndirBlock ?c = ulIndirBlock c" by simp_all
  show ?thesis
    unfolding coord_ok_def if_P [OF i'] hd
  proof (intro conjI impI)
    have "pbData c \<noteq> None \<longrightarrow> ulDataBlock c = bmap cf T ib (cinode_path cf c) \<and> ulDataBlock c \<noteq> BLOCK_SPARSE"
      using * by blast
    moreover have e: "pbData ?c = pbData c" "ulDataBlock ?c = v" by simp_all
    ultimately show "pbData ?c \<noteq> None \<Longrightarrow> ulDataBlock ?c = bmap cf T ib (cinode_path cf c)"
      "pbData ?c \<noteq> None \<Longrightarrow> ulDataBlock ?c \<noteq> BLOCK_SPARSE" unfolding e using v by metis+
    show "pIndir ?c \<noteq> None \<Longrightarrow> ulIndirBlock ?c \<noteq> BLOCK_SPARSE" using p by simp
    show "pDindir ?c \<noteq> None \<Longrightarrow> has_dindir cf c" "pDindir ?c \<noteq> None \<Longrightarrow> ulDindirBlock ?c \<noteq> BLOCK_SPARSE"
      "ulLogicalBlock ?c < INODE_DATA_BLOCKS cf" "cinode_path cf c = block_path cf (unat (ulLogicalBlock ?c))"
      "has_dindir cf c \<Longrightarrow> ulDindirBlock ?c = entry_of cf T ib (unat (uInodeEntry ?c))"
      "has_indir cf c \<and> \<not> has_dindir cf c \<Longrightarrow> ulIndirBlock ?c = entry_of cf T ib (unat (uInodeEntry ?c))"
      unfolding sel using * by blast+
    assume "has_dindir cf c" "pIndir ?c \<noteq> None"
    then show "ulDindirBlock ?c \<noteq> BLOCK_SPARSE"
      "ulIndirBlock ?c = T BFLAG_META_DINDIR (ulDindirBlock ?c) (INDIR_aulEntries (unat (uDindirEntry ?c)))" using d by simp_all
  qed (use h in blast)+
qed

lemma coord_data:
  "coord_ok cf T ib c \<Longrightarrow> fCoordInited c \<Longrightarrow> pbData c \<noteq> None \<Longrightarrow>
   ulDataBlock c = bmap cf T ib (block_path cf (unat (ulLogicalBlock c))) \<and> ulDataBlock c \<noteq> BLOCK_SPARSE"
  unfolding coord_ok_def by metis

context block_device
begin

lemma get_bufs:
  assumes conf: "conf_ok cf" and b: "inode_bufs cf dbyte dsize env ib (c, s)"
    and fl: "fl \<in> {BFLAG_META_INODE, BFLAG_META_DINDIR, BFLAG_META_INDIR, 0}"
    and run: "RedBufferGet cf blk fl s = (r, s')"
  shows "case r of
      Inl e \<Rightarrow> inode_bufs cf dbyte dsize env ib (c, s') \<and> ino_kept cf dbyte dsize env (c, s) (c, s')
    | Inr i \<Rightarrow> holds s' i blk fl \<and>
        (\<forall>c'. mset (inode_ptrs c') = add_mset i (mset (inode_ptrs c)) \<and> same_inode c c'
           \<and> ptr_ok s' (pDindir c) (ulDindirBlock c) (pDindir c') (ulDindirBlock c') BFLAG_META_DINDIR
           \<and> ptr_ok s' (pIndir c) (ulIndirBlock c) (pIndir c') (ulIndirBlock c') BFLAG_META_INDIR
           \<and> ptr_ok s' (pbData c) (ulDataBlock c) (pbData c') (ulDataBlock c') 0
           \<longrightarrow> inode_bufs cf dbyte dsize env ib (c', s') \<and> ino_kept cf dbyte dsize env (c, s) (c', s'))"
proof -
  have ok: "cache_ok cf dbyte dsize s" and own: "owns cf env (inode_ptrs c) s" using b by (simp_all add: inode_bufs_def)
  have len: "length (inode_ptrs c) \<le> 8" by (simp add: inode_ptrs_def opt_list_def split: option.split)
  have f: "flags_ok fl" "fl AND BFLAG_DIRTY = 0" "fl AND BFLAG_NEW = 0"
    using fl meta_flags by (auto simp: BFLAG_defs)
  note g = get_owned [OF conf ok own len f run]
  show ?thesis
  proof (cases r)
    case (Inl e)
    then show ?thesis using g bufs_change [OF b _ _ _ _ same_inode_simps(4)] by simp
  next
    case (Inr i)
    have c: "ulBlockCount (gpRedVolume s') = ulBlockCount (gpRedVolume s)" using g by (simp add: quiet_def frame_count)
    have "holds s' i blk fl" using g Inr by (simp add: holds_def c)
    moreover have "inode_bufs cf dbyte dsize env ib (c', s') \<and> ino_kept cf dbyte dsize env (c, s) (c', s')"
      if "mset (inode_ptrs c') = add_mset i (mset (inode_ptrs c))" "same_inode c c'"
        "ptr_ok s' (pDindir c) (ulDindirBlock c) (pDindir c') (ulDindirBlock c') BFLAG_META_DINDIR"
        "ptr_ok s' (pIndir c) (ulIndirBlock c) (pIndir c') (ulIndirBlock c') BFLAG_META_INDIR"
        "ptr_ok s' (pbData c) (ulDataBlock c) (pbData c') (ulDataBlock c') 0" for c'
    proof -
      have "owns cf env (inode_ptrs c') s'"
        using g Inr owns_mset [of "inode_ptrs c'" "i # inode_ptrs c" cf env s'] that(1) by simp
      then show ?thesis using g bufs_change [OF b _ _ _ _ that(2-5)] by blast
    qed
    ultimately show ?thesis using Inr by simp
  qed
qed

text \<open>A node that is needed is read, unless the pointer is sparse or the buffer is there already.\<close>

lemma read_dindir_result:
  assumes ok: "pointers_ok cf" and dev: "device_errors (\<lambda>e. e \<noteq> RED_ENODATA) cf"
    and b: "inode_bufs cf dbyte dsize env ib (c, s)"
    and co: "coord_ok cf (node_at cf dbyte s) ib c" "fCoordInited c" "has_dindir cf c"
    and run: "seek_read_dindir cf (c, s) = (r, (c', s'))"
  shows "inode_bufs cf dbyte dsize env ib (c', s') \<and> ino_kept cf dbyte dsize env (c, s) (c', s')
    \<and> (\<exists>p v. c' = c\<lparr>pDindir := p, ulIndirBlock := v\<rparr> \<and> (pIndir c \<noteq> None \<longrightarrow> v = ulIndirBlock c)
        \<and> (p \<noteq> None \<longrightarrow> ulDindirBlock c \<noteq> BLOCK_SPARSE)
        \<and> (r = Inr () \<longrightarrow> v = (if ulDindirBlock c = BLOCK_SPARSE then BLOCK_SPARSE
            else node_at cf dbyte s BFLAG_META_DINDIR (ulDindirBlock c) (INDIR_aulEntries (unat (uDindirEntry c))))))
    \<and> r \<noteq> Inl RED_ENODATA"
proof -
  have conf: "conf_ok cf" using ok by (simp add: pointers_ok_def)
  note bs = pointers_block_size [OF ok]
  let ?T = "node_at cf dbyte s" and ?o = "INDIR_aulEntries (unat (uDindirEntry c))"
  have p: "path_ok cf (cinode_path cf c)" by (rule coord_path_ok [OF co(1,2) ok])
  have off: "16 \<le> ?o" "?o + 4 \<le> REDCONF_BLOCK_SIZE cf"
    using INDIR_entries_inside [OF path_ranges(5) [OF p ok co(3)]]
    by (simp_all add: INDIR_aulEntries_def INDIR_HEADER_SIZE_def NODEHEADER_SIZE_def)
  have cond: "DINDIR_POINTERS cf > 0 \<and> uDindirEntry c \<noteq> COORD_ENTRY_INVALID" using co(3) by (simp add: has_dindir_def)
  have pi: "pIndir c \<noteq> None \<Longrightarrow> ulDindirBlock c \<noteq> BLOCK_SPARSE \<and> ulIndirBlock c = ?T BFLAG_META_DINDIR (ulDindirBlock c) ?o"
    using co by (auto simp: coord_ok_def)
  have val: "ldb32 cf d ?o s1 = ?T BFLAG_META_DINDIR (ulDindirBlock c) ?o"
    if "inode_bufs cf dbyte dsize env ib (c1, s1)" "ino_kept cf dbyte dsize env (c, s) (c1, s1)" "pDindir c1 = Some d"
      "ulDindirBlock c1 = ulDindirBlock c" for d c1 s1
  proof -
    have "d \<in> set (inode_ptrs c1)" using that(3) by (simp add: inode_ptrs_def)
    moreover have "holds s1 d (ulDindirBlock c) BFLAG_META_DINDIR" using that by (simp add: inode_bufs_def)
    ultimately have "ldb32 cf d ?o s1 = node_at cf dbyte s1 BFLAG_META_DINDIR (ulDindirBlock c) ?o"
      using that(1) off by (intro ldb_holds [OF _ _ _ _ meta_flags(2) bs]) (auto simp: inode_bufs_def)
    then show ?thesis using node_at_kept [OF b that(1,2) bs] by simp
  qed
  have upd: "inode_bufs cf dbyte dsize env ib (c1\<lparr>ulIndirBlock := v\<rparr>, s1)"
    if "inode_bufs cf dbyte dsize env ib (c1, s1)" "pIndir c1 = pIndir c" "ulIndirBlock c1 = ulIndirBlock c"
      "pIndir c \<noteq> None \<Longrightarrow> v = ulIndirBlock c" for c1 s1 v
    using that by (cases "pIndir c") (auto simp: inode_bufs_def inode_ptrs_def)
  show ?thesis
  proof (cases "ulDindirBlock c = BLOCK_SPARSE")
    case True
    then have "pIndir c = None" using pi by (cases "pIndir c") auto
    moreover have "r = Inr ()" "c' = c\<lparr>ulIndirBlock := BLOCK_SPARSE\<rparr>" "s' = s"
      using run cond True by (auto simp: seek_read_dindir_def red_simps)
    moreover have "pDindir c = None" using co True by (auto simp: coord_ok_def)
    ultimately show ?thesis using b True by (intro conjI) (simp, simp, rule exI [where x = None], rule exI [where x = BLOCK_SPARSE], cases c, simp_all)
  next
    case sp: False
    show ?thesis
    proof (cases "pDindir c")
      case (Some d)
      let ?v = "?T BFLAG_META_DINDIR (ulDindirBlock c) ?o"
      have "r = Inr () \<and> c' = c\<lparr>ulIndirBlock := ldb32 cf d ?o s\<rparr> \<and> s' = s"
        using run cond sp Some by (auto simp: seek_read_dindir_def red_simps)
      then have rr: "r = Inr ()" "c' = c\<lparr>ulIndirBlock := ?v\<rparr>" "s' = s" using val [OF b _ Some] by auto
      have "pIndir c \<noteq> None \<longrightarrow> ?v = ulIndirBlock c" using pi by auto
      moreover have "inode_bufs cf dbyte dsize env ib (c\<lparr>ulIndirBlock := ?v\<rparr>, s)" using upd [OF b, of ?v] pi by auto
      moreover have "c' = c\<lparr>pDindir := pDindir c, ulIndirBlock := ?v\<rparr>" using rr by simp
      ultimately show ?thesis
        using rr sp by (intro conjI exI [where x = "pDindir c"] exI [where x = ?v]) simp_all
    next
      case None
      obtain q s1 where g: "RedBufferGet cf (ulDindirBlock c) BFLAG_META_DINDIR s = (q, s1)" by fastforce
      note gb = get_bufs [OF conf b _ g]
      show ?thesis
      proof (cases q)
        case (Inl e)
        have rr: "r = Inl e" "c' = c" "s' = s1"
          using run cond sp None Inl g by (auto simp: seek_read_dindir_def red_simps)
        have "e \<noteq> RED_ENODATA" using errR_D [OF errR_RedBufferGet [OF conf dev] g [unfolded Inl]] by simp
        moreover have "c' = c\<lparr>pDindir := None, ulIndirBlock := ulIndirBlock c\<rparr>" using rr None by simp
        ultimately show ?thesis using rr gb Inl
          by (intro conjI exI [where x = None] exI [where x = "ulIndirBlock c"]) simp_all
      next
        case (Inr i)
        let ?v = "ldb32 cf i ?o s1"
        have rr: "r = Inr ()" "c' = c\<lparr>pDindir := Some i, ulIndirBlock := ?v\<rparr>" "s' = s1"
          using run cond sp None Inr g by (auto simp: seek_read_dindir_def red_simps)
        have k: "inode_bufs cf dbyte dsize env ib (c\<lparr>pDindir := Some i\<rparr>, s1)"
          "ino_kept cf dbyte dsize env (c, s) (c\<lparr>pDindir := Some i\<rparr>, s1)"
          using gb Inr None by (simp_all add: inode_ptrs_def ptr_ok_def same_inode_def)
        note v = val [OF k, of i, simplified]
        have "inode_bufs cf dbyte dsize env ib (c', s')" unfolding rr
          by (rule upd [OF k(1)]) (use pi v in simp_all)
        then show ?thesis using rr k(2) v pi sp by auto
      qed
    qed
  qed
qed

lemma read_indir_result:
  assumes ok: "pointers_ok cf" and dev: "device_errors (\<lambda>e. e \<noteq> RED_ENODATA) cf"
    and b: "inode_bufs cf dbyte dsize env ib (c, s)"
    and p: "path_ok cf (cinode_path cf c)" "has_indir cf c" and pi: "pIndir c \<noteq> None \<Longrightarrow> ulIndirBlock c \<noteq> BLOCK_SPARSE"
    and pd: "pbData c \<noteq> None \<Longrightarrow> ulIndirBlock c \<noteq> BLOCK_SPARSE
      \<and> ulDataBlock c = node_at cf dbyte s BFLAG_META_INDIR (ulIndirBlock c) (INDIR_aulEntries (unat (uIndirEntry c)))"
    and run: "seek_read_indir cf (c, s) = (r, (c', s'))"
  shows "inode_bufs cf dbyte dsize env ib (c', s') \<and> ino_kept cf dbyte dsize env (c, s) (c', s')
    \<and> (\<exists>p v. c' = c\<lparr>pIndir := p, ulDataBlock := v\<rparr> \<and> (pbData c \<noteq> None \<longrightarrow> v = ulDataBlock c)
        \<and> (p \<noteq> None \<longrightarrow> ulIndirBlock c \<noteq> BLOCK_SPARSE)
        \<and> (r = Inr () \<longrightarrow> v = (if ulIndirBlock c = BLOCK_SPARSE then BLOCK_SPARSE
            else node_at cf dbyte s BFLAG_META_INDIR (ulIndirBlock c) (INDIR_aulEntries (unat (uIndirEntry c))))))
    \<and> r \<noteq> Inl RED_ENODATA"
proof -
  have conf: "conf_ok cf" using ok by (simp add: pointers_ok_def)
  note bs = pointers_block_size [OF ok]
  let ?T = "node_at cf dbyte s" and ?o = "INDIR_aulEntries (unat (uIndirEntry c))"
  have off: "16 \<le> ?o" "?o + 4 \<le> REDCONF_BLOCK_SIZE cf"
    using INDIR_entries_inside [OF path_ranges(6) [OF p(1) ok p(2)]]
    by (simp_all add: INDIR_aulEntries_def INDIR_HEADER_SIZE_def NODEHEADER_SIZE_def)
  have cond: "REDCONF_DIRECT_POINTERS cf < INODE_ENTRIES cf \<and> uIndirEntry c \<noteq> COORD_ENTRY_INVALID"
    using p(2) by (simp add: has_indir_def)
  have val: "ldb32 cf d ?o s1 = ?T BFLAG_META_INDIR (ulIndirBlock c) ?o"
    if "inode_bufs cf dbyte dsize env ib (c1, s1)" "ino_kept cf dbyte dsize env (c, s) (c1, s1)" "pIndir c1 = Some d"
      "ulIndirBlock c1 = ulIndirBlock c" for d c1 s1
  proof -
    have "d \<in> set (inode_ptrs c1)" using that(3) by (simp add: inode_ptrs_def)
    moreover have "holds s1 d (ulIndirBlock c) BFLAG_META_INDIR" using that by (simp add: inode_bufs_def)
    ultimately have "ldb32 cf d ?o s1 = node_at cf dbyte s1 BFLAG_META_INDIR (ulIndirBlock c) ?o"
      using that(1) off by (intro ldb_holds [OF _ _ _ _ meta_flags(3) bs]) (auto simp: inode_bufs_def)
    then show ?thesis using node_at_kept [OF b that(1,2) bs] by simp
  qed
  have upd: "inode_bufs cf dbyte dsize env ib (c1\<lparr>ulDataBlock := v\<rparr>, s1)"
    if "inode_bufs cf dbyte dsize env ib (c1, s1)" "pbData c1 = pbData c" "ulDataBlock c1 = ulDataBlock c"
      "pbData c \<noteq> None \<Longrightarrow> v = ulDataBlock c" for c1 s1 v
    using that by (cases "pbData c") (auto simp: inode_bufs_def inode_ptrs_def)
  show ?thesis
  proof (cases "ulIndirBlock c = BLOCK_SPARSE")
    case True
    then have "pbData c = None" using pd by (cases "pbData c") auto
    moreover have "r = Inr ()" "c' = c\<lparr>ulDataBlock := BLOCK_SPARSE\<rparr>" "s' = s"
      using run cond True by (auto simp: seek_read_indir_def red_simps)
    moreover have "pIndir c = None" using pi True by (cases "pIndir c") auto
    ultimately show ?thesis using b True
      by (intro conjI) (simp, simp, rule exI [where x = None], rule exI [where x = BLOCK_SPARSE], cases c, simp_all)
  next
    case sp: False
    show ?thesis
    proof (cases "pIndir c")
      case (Some d)
      let ?v = "?T BFLAG_META_INDIR (ulIndirBlock c) ?o"
      have "r = Inr () \<and> c' = c\<lparr>ulDataBlock := ldb32 cf d ?o s\<rparr> \<and> s' = s"
        using run cond sp Some by (auto simp: seek_read_indir_def red_simps)
      then have rr: "r = Inr ()" "c' = c\<lparr>ulDataBlock := ?v\<rparr>" "s' = s" using val [OF b _ Some] by auto
      have "pbData c \<noteq> None \<longrightarrow> ?v = ulDataBlock c" using pd by auto
      moreover have "inode_bufs cf dbyte dsize env ib (c\<lparr>ulDataBlock := ?v\<rparr>, s)" using upd [OF b, of ?v] pd by auto
      moreover have "c' = c\<lparr>pIndir := pIndir c, ulDataBlock := ?v\<rparr>" using rr by simp
      ultimately show ?thesis
        using rr sp by (intro conjI exI [where x = "pIndir c"] exI [where x = ?v]) simp_all
    next
      case None
      obtain q s1 where g: "RedBufferGet cf (ulIndirBlock c) BFLAG_META_INDIR s = (q, s1)" by fastforce
      note gb = get_bufs [OF conf b _ g]
      show ?thesis
      proof (cases q)
        case (Inl e)
        have rr: "r = Inl e" "c' = c" "s' = s1"
          using run cond sp None Inl g by (auto simp: seek_read_indir_def red_simps)
        have "e \<noteq> RED_ENODATA" using errR_D [OF errR_RedBufferGet [OF conf dev] g [unfolded Inl]] by simp
        moreover have "c' = c\<lparr>pIndir := None, ulDataBlock := ulDataBlock c\<rparr>" using rr None by simp
        ultimately show ?thesis using rr gb Inl
          by (intro conjI exI [where x = None] exI [where x = "ulDataBlock c"]) simp_all
      next
        case (Inr i)
        let ?v = "ldb32 cf i ?o s1"
        have rr: "r = Inr ()" "c' = c\<lparr>pIndir := Some i, ulDataBlock := ?v\<rparr>" "s' = s1"
          using run cond sp None Inr g by (auto simp: seek_read_indir_def red_simps)
        have k: "inode_bufs cf dbyte dsize env ib (c\<lparr>pIndir := Some i\<rparr>, s1)"
          "ino_kept cf dbyte dsize env (c, s) (c\<lparr>pIndir := Some i\<rparr>, s1)"
          using gb Inr None by (simp_all add: inode_ptrs_def ptr_ok_def same_inode_def)
        note v = val [OF k, of i, simplified]
        have "inode_bufs cf dbyte dsize env ib (c', s')" unfolding rr
          by (rule upd [OF k(1)]) (use pd v in simp_all)
        then show ?thesis using rr k(2) v pd sp by auto
      qed
    qed
  qed
qed

text \<open>The result of a seek.\<close>

definition seek_result ::
  "(nat \<Rightarrow> nat) \<Rightarrow> u32 \<Rightarrow> u32 \<Rightarrow> CINODE \<times> 'd redstate \<Rightarrow> red_err + unit \<Rightarrow> CINODE \<times> 'd redstate \<Rightarrow> bool"
where
  "seek_result env ib blk x r y \<longleftrightarrow>
     inode_bufs cf dbyte dsize env ib y \<and> ino_kept cf dbyte dsize env x y
     \<and> coord_ok cf (node_at cf dbyte (snd x)) ib (fst y) \<and> fCoordInited (fst y) \<and> ulLogicalBlock (fst y) = blk
     \<and> (case r of
          Inr _ \<Rightarrow> ulDataBlock (fst y) = bmap cf (node_at cf dbyte (snd x)) ib (block_path cf (unat blk))
            \<and> ulDataBlock (fst y) \<noteq> BLOCK_SPARSE
        | Inl e \<Rightarrow> e = RED_ENODATA \<longrightarrow>
            bmap cf (node_at cf dbyte (snd x)) ib (block_path cf (unat blk)) = BLOCK_SPARSE \<and> pbData (fst y) = None)"

lemma RedInodeDataSeek_result:
  assumes ok: "pointers_ok cf" and dev: "device_errors (\<lambda>e. e \<noteq> RED_ENODATA) cf"
    and b: "inode_bufs cf dbyte dsize env ib (c, s)" and co: "coord_ok cf (node_at cf dbyte s) ib c"
    and mnt: "CINODE_IS_MOUNTED cf c s" and blk: "blk < INODE_DATA_BLOCKS cf"
    and run: "RedInodeDataSeek cf blk (c, s) = (r, y)"
  shows "seek_result env ib blk (c, s) r y"
proof -
  let ?T = "node_at cf dbyte s"
  note bs = pointers_block_size [OF ok]
  obtain c1 s1 where r1: "SeekCoord cf blk (c, s) = (c1, s1)" by fastforce
  obtain q2 c2 s2 where r2: "seek_read_dindir cf (c1, s1) = (q2, (c2, s2))" by (metis prod.exhaust)
  obtain q3 c3 s3 where r3: "seek_read_indir cf (c2, s2) = (q3, (c3, s3))" by (metis prod.exhaust)
  have run': "(r, y) = (case q2 of Inl e \<Rightarrow> (Inl e, (c2, s2)) | Inr _ \<Rightarrow> case q3 of Inl e \<Rightarrow> (Inl e, (c3, s3))
      | Inr _ \<Rightarrow> if ulDataBlock c3 = BLOCK_SPARSE then (Inl RED_ENODATA, (c3, s3)) else (Inr (), (c3, s3)))"
    using run mnt blk [folded not_le] by (cases q2; cases q3) (auto simp: RedInodeDataSeek_def red_simps r1 r2 r3)
  note sc = SeekCoord_result [OF b ok co mnt blk r1]
  then have b1: "inode_bufs cf dbyte dsize env ib (c1, s1)" and k1: "ino_kept cf dbyte dsize env (c, s) (c1, s1)"
    and co1: "coord_ok cf ?T ib c1" and i1: "fCoordInited c1" "ulLogicalBlock c1 = blk" by simp_all
  have T1: "node_at cf dbyte s1 = ?T" using node_at_kept [OF b b1 k1 bs] by simp
  have path: "cinode_path cf c1 = block_path cf (unat blk)" using co1 i1 by (simp add: coord_ok_def)
  have p1: "path_ok cf (cinode_path cf c1)" by (rule coord_path_ok [OF co1 i1(1) ok])
  \<comment> \<open>the double indirect node\<close>
  let ?v2 = "if ulDindirBlock c1 = BLOCK_SPARSE then BLOCK_SPARSE
    else ?T BFLAG_META_DINDIR (ulDindirBlock c1) (INDIR_aulEntries (unat (uDindirEntry c1)))"
  have st2: "inode_bufs cf dbyte dsize env ib (c2, s2) \<and> ino_kept cf dbyte dsize env (c1, s1) (c2, s2)
      \<and> coord_ok cf ?T ib c2 \<and> fCoordInited c2 \<and> ulLogicalBlock c2 = blk \<and> cinode_path cf c2 = cinode_path cf c1
      \<and> uInodeEntry c2 = uInodeEntry c1 \<and> ulDindirBlock c2 = ulDindirBlock c1 \<and> uDindirEntry c2 = uDindirEntry c1
      \<and> (q2 = Inr () \<longrightarrow> has_dindir cf c2 \<longrightarrow> ulIndirBlock c2 = ?v2) \<and> q2 \<noteq> Inl RED_ENODATA"
  proof (cases "has_dindir cf c1")
    case False
    then have "q2 = Inr ()" "c2 = c1" "s2 = s1"
      using r2 by (auto simp: seek_read_dindir_def has_dindir_def red_simps split: if_splits)
    then show ?thesis using b1 co1 i1 False by simp
  next
    case True
    from read_dindir_result [OF ok dev b1 co1 [folded T1] i1(1) True r2, unfolded T1]
    obtain pp v where st: "inode_bufs cf dbyte dsize env ib (c2, s2)" "ino_kept cf dbyte dsize env (c1, s1) (c2, s2)"
      "c2 = c1\<lparr>pDindir := pp, ulIndirBlock := v\<rparr>" "pIndir c1 \<noteq> None \<longrightarrow> v = ulIndirBlock c1"
      "pp \<noteq> None \<longrightarrow> ulDindirBlock c1 \<noteq> BLOCK_SPARSE" "q2 = Inr () \<longrightarrow> v = ?v2" "q2 \<noteq> Inl RED_ENODATA" by blast
    have hd: "has_dindir cf c2" "cinode_path cf c2 = cinode_path cf c1" "has_indir cf c2 = has_indir cf c1"
      using True by (simp_all add: st(3) has_dindir_def has_indir_def cinode_path_def)
    have co2: "coord_ok cf ?T ib c2"
      using co1 i1 hd st(4,5) True path_ranges(3) [OF p1 ok True] by (auto simp: coord_ok_def st(3))
    show ?thesis
      by (intro conjI) (use st(1,2,6,7) hd(2) co2 i1 in \<open>simp_all add: st(3)\<close>)
  qed
  then have b2: "inode_bufs cf dbyte dsize env ib (c2, s2)" and k2: "ino_kept cf dbyte dsize env (c1, s1) (c2, s2)"
    and co2: "coord_ok cf ?T ib c2" and i2: "fCoordInited c2" "ulLogicalBlock c2 = blk"
    and path2: "cinode_path cf c2 = block_path cf (unat blk)" using path by simp_all
  have k02: "ino_kept cf dbyte dsize env (c, s) (c2, s2)" by (rule ino_kept_trans [OF k1 k2])
  show ?thesis
  proof (cases q2)
    case (Inl e)
    then show ?thesis using run' b2 k02 co2 i2 st2 by (simp add: seek_result_def)
  next
    case (Inr u)
    then have v2: "has_dindir cf c2 \<Longrightarrow> ulIndirBlock c2 = (if ulDindirBlock c2 = BLOCK_SPARSE then BLOCK_SPARSE
        else ?T BFLAG_META_DINDIR (ulDindirBlock c2) (INDIR_aulEntries (unat (uDindirEntry c2))))"
      using st2 by simp
    have T2: "node_at cf dbyte s2 = ?T" using node_at_kept [OF b b2 k02 bs] by simp
    have p2: "path_ok cf (cinode_path cf c2)" by (rule coord_path_ok [OF co2 i2(1) ok])
    \<comment> \<open>the block the pointers read so far lead to\<close>
    have bm: "bmap cf ?T ib (block_path cf (unat blk)) = (if has_indir cf c2
        then if ulIndirBlock c2 = BLOCK_SPARSE then BLOCK_SPARSE
          else ?T BFLAG_META_INDIR (ulIndirBlock c2) (INDIR_aulEntries (unat (uIndirEntry c2)))
        else ulDataBlock c2)"
    proof -
      have ei: "has_indir cf c2 \<and> \<not> has_dindir cf c2 \<Longrightarrow> ulIndirBlock c2 = entry_of cf ?T ib (unat (uInodeEntry c2))"
        "has_dindir cf c2 \<Longrightarrow> ulDindirBlock c2 = entry_of cf ?T ib (unat (uInodeEntry c2))"
        "\<not> has_indir cf c2 \<Longrightarrow> ulDataBlock c2 = entry_of cf ?T ib (unat (uInodeEntry c2))"
        using co2 i2 by (simp_all add: coord_ok_def)
      show ?thesis
        unfolding path2 [symmetric]
      proof (cases "has_dindir cf c2")
        case True
        then show "bmap cf ?T ib (cinode_path cf c2) = (if has_indir cf c2
            then if ulIndirBlock c2 = BLOCK_SPARSE then BLOCK_SPARSE
              else ?T BFLAG_META_INDIR (ulIndirBlock c2) (INDIR_aulEntries (unat (uIndirEntry c2)))
            else ulDataBlock c2)"
          using ei(2) v2 path_ranges(3) [OF p2 ok True] by (simp add: cinode_path_def Let_def)
      next
        case False
        then show "bmap cf ?T ib (cinode_path cf c2) = (if has_indir cf c2
            then if ulIndirBlock c2 = BLOCK_SPARSE then BLOCK_SPARSE
              else ?T BFLAG_META_INDIR (ulIndirBlock c2) (INDIR_aulEntries (unat (uIndirEntry c2)))
            else ulDataBlock c2)"
          using ei by (cases "has_indir cf c2") (simp_all add: cinode_path_def Let_def)
      qed
    qed
    show ?thesis
    proof (cases "has_indir cf c2")
      case False
      then have q3: "q3 = Inr ()" "c3 = c2" "s3 = s2"
        using r3 by (auto simp: seek_read_indir_def has_indir_def red_simps split: if_splits)
      have "pbData c2 \<noteq> None \<longrightarrow> ulDataBlock c2 \<noteq> BLOCK_SPARSE" using co2 i2 by (auto simp: coord_ok_def)
      then show ?thesis using run' q3 Inr b2 k02 co2 i2 bm False by (auto simp: seek_result_def split: if_splits)
    next
      case True
      have pi: "pIndir c2 \<noteq> None \<Longrightarrow> ulIndirBlock c2 \<noteq> BLOCK_SPARSE" using co2 i2 by (auto simp: coord_ok_def)
      have pd: "pbData c2 \<noteq> None \<Longrightarrow> ulIndirBlock c2 \<noteq> BLOCK_SPARSE
          \<and> ulDataBlock c2 = ?T BFLAG_META_INDIR (ulIndirBlock c2) (INDIR_aulEntries (unat (uIndirEntry c2)))"
        using co2 i2 bm True by (auto simp: coord_ok_def path2 split: if_splits)
      from read_indir_result [OF ok dev b2 p2 True pi pd [folded T2] r3, unfolded T2]
      obtain pp v where st: "inode_bufs cf dbyte dsize env ib (c3, s3)" "ino_kept cf dbyte dsize env (c2, s2) (c3, s3)"
        "c3 = c2\<lparr>pIndir := pp, ulDataBlock := v\<rparr>" "pbData c2 \<noteq> None \<longrightarrow> v = ulDataBlock c2"
        "pp \<noteq> None \<longrightarrow> ulIndirBlock c2 \<noteq> BLOCK_SPARSE"
        "q3 = Inr () \<longrightarrow> v = (if ulIndirBlock c2 = BLOCK_SPARSE then BLOCK_SPARSE
           else ?T BFLAG_META_INDIR (ulIndirBlock c2) (INDIR_aulEntries (unat (uIndirEntry c2))))" "q3 \<noteq> Inl RED_ENODATA"
        by blast
      have hd: "has_dindir cf c3 = has_dindir cf c2" "cinode_path cf c3 = cinode_path cf c2" "has_indir cf c3"
        using True by (simp_all add: st(3) has_dindir_def has_indir_def cinode_path_def)
      have "pp \<noteq> None \<longrightarrow> has_dindir cf c2 \<longrightarrow> ulDindirBlock c2 \<noteq> BLOCK_SPARSE \<and> ulIndirBlock c2 = ?T BFLAG_META_DINDIR (ulDindirBlock c2) (INDIR_aulEntries (unat (uDindirEntry c2)))"
        using st(5) v2 by (auto split: if_splits)
      then have co3: "coord_ok cf ?T ib c3"
        unfolding st(3) by (rule coord_read_indir [OF co2 i2(1) True st(4,5)])
      have i3: "fCoordInited c3" "ulLogicalBlock c3 = blk" using i2 by (simp_all add: st(3))
      have pd3: "pbData c3 \<noteq> None \<Longrightarrow> ulDataBlock c3 \<noteq> BLOCK_SPARSE" using coord_data [OF co3 i3(1)] by blast
      have k3: "ino_kept cf dbyte dsize env (c, s) (c3, s3)" by (rule ino_kept_trans [OF k02 st(2)])
      have dv: "q3 = Inr () \<longrightarrow> ulDataBlock c3 = bmap cf ?T ib (block_path cf (unat blk))" 
        unfolding bm if_P [OF True] using st(6) by (simp add: st(3))
      have base: "seek_result env ib blk (c, s) r (c3, s3)" if "case r of Inr _ \<Rightarrow> q3 = Inr () \<and> ulDataBlock c3 \<noteq> BLOCK_SPARSE
          | Inl e \<Rightarrow> e = RED_ENODATA \<longrightarrow> q3 = Inr () \<and> ulDataBlock c3 = BLOCK_SPARSE"
        unfolding seek_result_def fst_conv snd_conv
      proof (intro conjI st(1) k3 co3 i3)
        show "case r of Inr _ \<Rightarrow> ulDataBlock c3 = bmap cf ?T ib (block_path cf (unat blk)) \<and> ulDataBlock c3 \<noteq> BLOCK_SPARSE
            | Inl e \<Rightarrow> e = RED_ENODATA \<longrightarrow> bmap cf ?T ib (block_path cf (unat blk)) = BLOCK_SPARSE \<and> pbData c3 = None"
        proof (cases r)
          case (Inl e)
          then show ?thesis using that dv pd3 by (simp only: sum.case) metis
        next
          case (Inr u)
          then show ?thesis using that dv by (simp only: sum.case) blast
        qed
      qed
      show ?thesis
      proof (cases q3)
        case (Inl e)
        then have "(r, y) = (Inl e, (c3, s3))" using run' Inr by simp
        then show ?thesis using base st(7) Inl by simp
      next
        case q3: (Inr u)
        then have "(r, y) = (if ulDataBlock c3 = BLOCK_SPARSE then Inl RED_ENODATA else Inr (), (c3, s3))"
          using run' Inr by (simp split: if_splits)
        then show ?thesis using base q3 by (cases "ulDataBlock c3 = BLOCK_SPARSE") simp_all
      qed
    qed
  qed
qed

end

end
