(* ===== verification/InodeReading.thy ===== *)
theory InodeReading
  imports InodeFollow
begin

text \<open>
  Reading the data of an inode. \<open>reading\<close> is the invariant of a read: the inode is mounted, its
  buffers and coordinates are right for the store the read began with, and the store is still that
  one. \<open>data_block\<close> is the block of the disk that holds a block of the file.
\<close>

section \<open>The invariant of a read\<close>

definition data_block ::
  "'d redconf \<Rightarrow> ('d \<Rightarrow> u8 \<Rightarrow> nat \<Rightarrow> u8) \<Rightarrow> 'd redstate \<Rightarrow> u32 \<Rightarrow> nat \<Rightarrow> u32" where
  "data_block cf dbyte s ib k = bmap cf (node_at cf dbyte s) ib (block_path cf k)"

definition reading ::
  "'d redconf \<Rightarrow> ('d \<Rightarrow> u8 \<Rightarrow> nat \<Rightarrow> u8) \<Rightarrow> ('d \<Rightarrow> u8 \<Rightarrow> nat) \<Rightarrow> (nat \<Rightarrow> nat) \<Rightarrow> u32 \<Rightarrow>
   CINODE \<times> 'd redstate \<Rightarrow> CINODE \<times> 'd redstate \<Rightarrow> bool"
where
  "reading cf dbyte dsize env ib x0 x \<longleftrightarrow>
     inode_bufs cf dbyte dsize env ib x0 \<and> CINODE_IS_MOUNTED cf (fst x0) (snd x0)
     \<and> inode_bufs cf dbyte dsize env ib x \<and> ino_kept cf dbyte dsize env x0 x
     \<and> coord_ok cf (node_at cf dbyte (snd x0)) ib (fst x)"

lemma reading_mounted:
  assumes "reading cf dbyte dsize env ib x0 x"
  shows "CINODE_IS_MOUNTED cf (fst x) (snd x)"
proof -
  have k: "ino_kept cf dbyte dsize env x0 x" and m: "CINODE_IS_MOUNTED cf (fst x0) (snd x0)"
    using assms by (simp_all add: reading_def)
  have "gbRedVolNum (snd x) = gbRedVolNum (snd x0)" using k by (simp add: ino_kept_def quiet_def cache_frame_def)
  then show ?thesis
    using m k by (simp add: CINODE_IS_MOUNTED_def INODE_IS_VALID_def gpRedVolConf_def ino_kept_def)
qed

lemma reading_nodes:
  assumes "pointers_ok cf" and "reading cf dbyte dsize env ib x0 x"
  shows "node_at cf dbyte (snd x) = node_at cf dbyte (snd x0)"
  using assms(2) unfolding reading_def by (metis node_at_kept pointers_block_size [OF assms(1)])

context block_device
begin

lemma seek_reading:
  assumes ok: "pointers_ok cf" and dev: "device_errors (\<lambda>e. e \<noteq> RED_ENODATA) cf"
    and rd: "reading cf dbyte dsize env ib x0 x" and run: "RedInodeDataSeek cf blk x = (r, y)"
  shows "reading cf dbyte dsize env ib x0 y
    \<and> (case r of
         Inr _ \<Rightarrow> ulDataBlock (fst y) = data_block cf dbyte (snd x0) ib (unat blk)
           \<and> data_block cf dbyte (snd x0) ib (unat blk) \<noteq> BLOCK_SPARSE
           \<and> fCoordInited (fst y) \<and> ulLogicalBlock (fst y) = blk
       | Inl e \<Rightarrow> e = RED_ENODATA \<longrightarrow> data_block cf dbyte (snd x0) ib (unat blk) = BLOCK_SPARSE)"
proof (cases "blk < INODE_DATA_BLOCKS cf")
  case False
  then have "r = Inl RED_EINVAL \<and> y = x"
    using run by (cases x) (simp add: RedInodeDataSeek_def red_simps linorder_not_less)
  then show ?thesis using rd by simp
next
  case True
  obtain c s where x: "x = (c, s)" by fastforce
  have T: "node_at cf dbyte s = node_at cf dbyte (snd x0)" using reading_nodes [OF ok rd] by (simp add: x)
  have b: "inode_bufs cf dbyte dsize env ib (c, s)" and co: "coord_ok cf (node_at cf dbyte s) ib c"
    and k: "ino_kept cf dbyte dsize env x0 (c, s)"
    using rd T by (simp_all add: reading_def x)
  have m: "CINODE_IS_MOUNTED cf c s" using reading_mounted [OF rd] by (simp add: x)
  from RedInodeDataSeek_result [OF ok dev b co m True run [unfolded x]]
  have sr: "seek_result env ib blk (c, s) r y" .
  then have "ino_kept cf dbyte dsize env x0 y" using ino_kept_trans [OF k] by (simp add: seek_result_def)
  then have R: "reading cf dbyte dsize env ib x0 y" using sr rd T by (simp add: reading_def seek_result_def)
  show ?thesis
  proof (cases r)
    case (Inl e)
    then show ?thesis using R sr by (simp add: seek_result_def data_block_def T)
  next
    case (Inr u)
    have "ulDataBlock (fst y) = data_block cf dbyte (snd x0) ib (unat blk)" "ulDataBlock (fst y) \<noteq> BLOCK_SPARSE"
      "fCoordInited (fst y)" "ulLogicalBlock (fst y) = blk"
      using sr unfolding seek_result_def Inr data_block_def T snd_conv sum.case by blast+
    then show ?thesis using R Inr by simp
  qed
qed

lemma extent_run_result:
  assumes ok: "pointers_ok cf" and dev: "device_errors (\<lambda>e. e \<noteq> RED_ENODATA) cf"
  shows "reading cf dbyte dsize env ib x0 x \<Longrightarrow> extent_run cf start first n k x = (r, y) \<Longrightarrow>
    unat k + n < 2 ^ 32 \<Longrightarrow>
    reading cf dbyte dsize env ib x0 y \<and> r \<noteq> Inl RED_ENODATA \<and>
    (case r of Inl e \<Rightarrow> True | Inr m \<Rightarrow> \<forall>j. k \<le> j \<and> j < m \<longrightarrow>
       data_block cf dbyte (snd x0) ib (unat (start + j)) = first + j \<and> first + j \<noteq> BLOCK_SPARSE)"
proof (induction n arbitrary: k x)
  case 0
  then show ?case by (auto simp: red_simps)
next
  case (Suc n)
  obtain q z where sk: "RedInodeDataSeek cf (start + k) x = (q, z)" by (metis surj_pair)
  note s = seek_reading [OF ok dev Suc.prems(1) sk]
  show ?case
  proof (cases q)
    case (Inl e)
    then have "r = (if e = RED_ENODATA then Inr k else Inl e) \<and> y = z"
      using Suc.prems(2) by (auto simp: red_simps sk split: if_splits)
    then show ?thesis using s by (auto split: if_splits)
  next
    case (Inr u)
    obtain c t where z: "z = (c, t)" by fastforce
    have d: "data_block cf dbyte (snd x0) ib (unat (start + k)) = ulDataBlock c" "ulDataBlock c \<noteq> BLOCK_SPARSE"
      using s unfolding Inr z by simp_all
    show ?thesis
    proof (cases "ulDataBlock c = first + k")
      case False
      then have "r = Inr k \<and> y = z" using Suc.prems(2) by (auto simp: red_simps sk Inr z)
      then show ?thesis using s by auto
    next
      case True
      have k1: "unat (k + 1) = unat k + 1" using Suc.prems(3) by (simp add: unat_word_ariths)
      have "extent_run cf start first n (k + 1) z = (r, y)"
        using Suc.prems(2) True by (simp add: red_simps sk Inr z)
      from Suc.IH [OF _ this] s k1 Suc.prems(3)
      have ih: "reading cf dbyte dsize env ib x0 y \<and> r \<noteq> Inl RED_ENODATA \<and>
          (case r of Inl e \<Rightarrow> True | Inr m \<Rightarrow> \<forall>j. k + 1 \<le> j \<and> j < m \<longrightarrow>
             data_block cf dbyte (snd x0) ib (unat (start + j)) = first + j \<and> first + j \<noteq> BLOCK_SPARSE)" by simp
      have "j = k \<or> k + 1 \<le> j" if "k \<le> j" for j
        using that k1 by (auto simp: word_le_nat_alt word_unat_eq_iff)
      then show ?thesis using ih d True by (cases r) auto
    qed
  qed
qed

lemma GetExtent_result:
  assumes ok: "pointers_ok cf" and dev: "device_errors (\<lambda>e. e \<noteq> RED_ENODATA) cf"
    and rd: "reading cf dbyte dsize env ib x0 x" and run: "GetExtent cf start n x = (r, y)" and n: "n \<noteq> 0"
  shows "reading cf dbyte dsize env ib x0 y \<and>
    (case r of
       Inl e \<Rightarrow> e = RED_ENODATA \<longrightarrow> data_block cf dbyte (snd x0) ib (unat start) = BLOCK_SPARSE
     | Inr (first, m) \<Rightarrow> 1 \<le> m \<and> m \<le> n \<and> (\<forall>j < m. data_block cf dbyte (snd x0) ib (unat (start + j)) = first + j
         \<and> first + j \<noteq> BLOCK_SPARSE))"
proof -
  obtain q z where sk: "RedInodeDataSeek cf start x = (q, z)" by (metis surj_pair)
  note s = seek_reading [OF ok dev rd sk]
  show ?thesis
  proof (cases q)
    case (Inl e)
    then have "r = Inl e \<and> y = z" using run by (auto simp: GetExtent_def red_simps sk)
    then show ?thesis using s Inl by simp
  next
    case (Inr u)
    obtain c t where z: "z = (c, t)" by fastforce
    obtain q2 w where er: "extent_run cf start (ulDataBlock c) (unat n - 1) 1 z = (q2, w)" by (metis surj_pair)
    have lt: "unat (1 :: u32) + (unat n - 1) < 2 ^ 32" using unsigned_less [of n, where ?'a = nat] by simp
    note e = extent_run_result [OF ok dev conjunct1 [OF s] er lt]
    have d: "data_block cf dbyte (snd x0) ib (unat start) = ulDataBlock c" "ulDataBlock c \<noteq> BLOCK_SPARSE"
      using s unfolding Inr z by simp_all
    show ?thesis
    proof (cases q2)
      case (Inl e')
      then have "r = Inl e' \<and> y = w" using run er by (auto simp: GetExtent_def red_simps sk Inr z)
      then show ?thesis using e Inl by auto
    next
      case q2: (Inr m)
      then have ry: "r = Inr (ulDataBlock c, m) \<and> y = w" using run er by (auto simp: GetExtent_def red_simps sk Inr z)
      then have "1 \<le> unat m \<and> unat m \<le> unat n" using GetExtent_len [OF _ n] run by blast
      then have len: "1 \<le> m" "m \<le> n" by (simp_all add: word_le_nat_alt)
      have "data_block cf dbyte (snd x0) ib (unat (start + j)) = ulDataBlock c + j \<and> ulDataBlock c + j \<noteq> BLOCK_SPARSE"
        if j: "j < m" for j
      proof (cases "j = 0")
        case False
        then have "1 \<le> j" by (simp add: word_le_nat_alt) (metis One_nat_def Suc_leI unat_gt_0)
        then show ?thesis using e q2 j by simp
      qed (use d in simp)
      then show ?thesis using e ry len by simp
    qed
  qed
qed

end

end
