(* ===== verification/InodeBytes.thy ===== *)
theory InodeBytes
  imports InodeReading
begin

text \<open>
  The bytes a read returns. The reference is \<open>file_byte\<close>: a byte of the file is the byte of the block
  the block map gives, in the store seen through the cache, and zero where the file is sparse. A
  read stores a slice of that into the caller's buffer, whichever of the three ways (a partial
  block through the cache, an extent read past the cache, a hole) the bytes come.
\<close>

section \<open>Positions in blocks\<close>

lemma block_size_pow: "conf_ok cf \<Longrightarrow> REDCONF_BLOCK_SIZE cf = 2 ^ P2 cf \<and> 8 \<le> P2 cf \<and> P2 cf \<le> 16"
  by (auto simp: conf_ok_def BLOCK_SIZE_P2_def)

lemma mask_of_nat: "of_nat (2 ^ n - 1) = (mask n :: 'a::len word)"
  by (simp add: mask_eq_exp_minus_1 of_nat_diff)

lemma in_block_mod:
  assumes "conf_ok cf" shows "in_block cf a = unat a mod REDCONF_BLOCK_SIZE cf"
proof -
  have b: "REDCONF_BLOCK_SIZE cf = 2 ^ P2 cf" using block_size_pow [OF assms] by simp
  show ?thesis unfolding in_block_def b mask_of_nat
    by (simp only: take_bit_eq_mask [symmetric] unsigned_take_bit_eq) (simp add: take_bit_eq_mod)
qed

lemma unat_drop_bit_div: "unat (drop_bit n (w :: 'a::len word)) = unat w div 2 ^ n"
proof -
  have "take_bit LENGTH('a) (unat w) = unat w" by (rule take_bit_nat_eq_self) (rule unsigned_less)
  then show ?thesis by (simp only: unsigned_drop_bit_eq) (simp add: drop_bit_eq_div)
qed

lemma block_number:
  assumes "conf_ok cf"
  shows "unat (drop_bit (P2 cf) (a :: 'a::len word)) = unat a div REDCONF_BLOCK_SIZE cf"
proof -
  have b: "REDCONF_BLOCK_SIZE cf = 2 ^ P2 cf" using block_size_pow [OF assms] by simp
  show ?thesis unfolding b by (rule unat_drop_bit_div)
qed

lemma unat_ucast32: "unat (w :: u64) < 2 ^ 32 \<Longrightarrow> unat (ucast w :: u32) = unat w"
  by (simp add: unsigned_ucast_eq take_bit_nat_eq_self)

lemma unat_ucast64 [simp]: "unat (ucast (w :: u32) :: u64) = unat w"
proof -
  have "unat w < 2 ^ 64" using unsigned_less [of w, where ?'a = nat] by simp
  then show ?thesis by (simp add: unsigned_ucast_eq take_bit_nat_eq_self)
qed

section \<open>Storing into the caller's buffer\<close>

definition over :: "bytes \<Rightarrow> nat \<Rightarrow> bytes \<Rightarrow> bytes" where
  "over buf idx d = take idx buf @ d @ drop (idx + length d) buf"

lemma length_over [simp]: "idx + length d \<le> length buf \<Longrightarrow> length (over buf idx d) = length buf"
  by (simp add: over_def)

lemma over_over:
  "idx + length d \<le> length buf \<Longrightarrow> over (over buf idx d) (idx + length d) e = over buf idx (d @ e)"
  by (simp add: over_def ac_simps)

lemma over_Nil [simp]: "over buf idx [] = buf"
  by (simp add: over_def)

lemma cpy_at_over: "off + n \<le> length buf \<Longrightarrow> n \<le> length src \<Longrightarrow> cpy_at buf off src n = over buf off (take n src)"
  by (simp add: cpy_at_def over_def mem_simps add.commute)

lemma set_at_over: "off + n \<le> length buf \<Longrightarrow> set_at buf off v n = over buf off (replicate n v)"
  by (simp add: set_at_def over_def mem_simps add.commute)

section \<open>The bytes of a file\<close>

definition file_byte ::
  "'d redconf \<Rightarrow> ('d \<Rightarrow> u8 \<Rightarrow> nat \<Rightarrow> u8) \<Rightarrow> 'd redstate \<Rightarrow> u32 \<Rightarrow> nat \<Rightarrow> u8" where
  "file_byte cf dbyte s ib k =
     (let b = data_block cf dbyte s ib (k div REDCONF_BLOCK_SIZE cf)
      in if b = BLOCK_SPARSE then 0
         else cache_view cf dbyte s (gbRedVolNum s) b ! (k mod REDCONF_BLOCK_SIZE cf))"

lemma same_block_div:
  assumes "k mod B + i < (B :: nat)" shows "(k + i) div B = k div B" and "(k + i) mod B = k mod B + i"
proof -
  have e: "k + i = (k mod B + i) + B * (k div B)" by simp
  have "(x + B * q) div B = q \<and> (x + B * q) mod B = x" if "x < B" for x q using that by simp
  note this [OF assms, of "k div B"]
  then show "(k + i) div B = k div B" "(k + i) mod B = k mod B + i" unfolding e [symmetric] by simp_all
qed

text \<open>No block of the file's data is cached as a metadata node that is to be written.\<close>

definition data_plain :: "'d redconf \<Rightarrow> ('d \<Rightarrow> u8 \<Rightarrow> nat \<Rightarrow> u8) \<Rightarrow> 'd redstate \<Rightarrow> u32 \<Rightarrow> bool" where
  "data_plain cf dbyte s ib \<longleftrightarrow>
     (\<forall>k. data_block cf dbyte s ib k \<noteq> BLOCK_SPARSE \<longrightarrow> \<not> meta_dirty cf s (gbRedVolNum s) (data_block cf dbyte s ib k))"

lemma reading_view:
  assumes rd: "reading cf dbyte dsize env ib x0 x" and pl: "data_plain cf dbyte (snd x0) ib"
    and b: "data_block cf dbyte (snd x0) ib k = b" "b \<noteq> BLOCK_SPARSE" "b \<noteq> BBLK_INVALID"
  shows "cache_view cf dbyte (snd x) (gbRedVolNum (snd x0)) b = cache_view cf dbyte (snd x0) (gbRedVolNum (snd x0)) b"
    and "gbRedVolNum (snd x) = gbRedVolNum (snd x0)"
  using assms by (auto simp: reading_def ino_kept_def quiet_def data_plain_def cache_frame_def)

lemma file_bytes_hole:
  assumes "data_block cf dbyte s ib (k div REDCONF_BLOCK_SIZE cf) = BLOCK_SPARSE" and "0 < REDCONF_BLOCK_SIZE cf"
    and "n + k mod REDCONF_BLOCK_SIZE cf \<le> REDCONF_BLOCK_SIZE cf"
  shows "map (file_byte cf dbyte s ib) [k..<k + n] = replicate n 0"
proof (rule nth_equalityI)
  fix i assume "i < length (map (file_byte cf dbyte s ib) [k..<k + n])"
  then have i: "i < n" by simp
  have "(k + i) div REDCONF_BLOCK_SIZE cf = k div REDCONF_BLOCK_SIZE cf"
    by (rule same_block_div) (use i assms(3) in simp)
  then show "map (file_byte cf dbyte s ib) [k..<k + n] ! i = replicate n 0 ! i"
    using assms(1) i by (simp add: file_byte_def)
qed simp

end
