(* ===== verification/InodeRead.thy ===== *)
theory InodeRead
  imports InodeBytes
begin

text \<open>
  Reading the data of an inode returns the bytes of the file. Each way a read takes its bytes (a
  partial block through the cache, an extent of the disk behind the cache, a hole) stores the slice
  of \<open>file_byte\<close> it stands for into the caller's buffer, and keeps the invariant \<open>reading\<close>.
\<close>

section \<open>Changes of the cache below a read\<close>

lemma evolves_heads: "evolves cf dbyte dsize s s' \<Longrightarrow> heads_kept cf s s'"
  by (simp add: evolves_def heads_kept_def same_head_def)

lemma evolves_owns:
  assumes "evolves cf dbyte dsize s s'" and own: "owns cf env ps s"
  shows "owns cf env ps s'"
  using assms owned_ref [OF own] by (auto simp: evolves_def owns_def cache_frame_def)

lemma evolves_reading:
  assumes rd: "reading cf dbyte dsize env ib x0 (c, s)" and ok: "cache_ok cf dbyte dsize s'"
    and ev: "evolves cf dbyte dsize s s'"
  shows "reading cf dbyte dsize env ib x0 (c, s')"
proof -
  have b: "inode_bufs cf dbyte dsize env ib (c, s)" and k: "ino_kept cf dbyte dsize env x0 (c, s)"
    using rd by (simp_all add: reading_def)
  have own: "owns cf env (inode_ptrs c) s'" using evolves_owns [OF ev] b by (simp add: inode_bufs_def)
  note bc = bufs_change [OF b evolves_quiet [OF ev] evolves_heads [OF ev] ok own same_inode_simps(4)]
  then have "inode_bufs cf dbyte dsize env ib (c, s')" "ino_kept cf dbyte dsize env x0 (c, s')"
    using ino_kept_trans [OF k] by simp_all
  then show ?thesis using rd by (simp add: reading_def)
qed

lemma wire_plain [simp]: "wire cf 0 p = p"
  by (simp add: wire_data meta_flags)

text \<open>A buffer that holds a data block has the contents of the block.\<close>

lemma data_buffer:
  assumes b: "inode_bufs cf dbyte dsize env ib (c, s)" and p: "pbData c = Some i"
    and bs: "256 \<le> REDCONF_BLOCK_SIZE cf"
  shows "aabBuffer s ! i = cache_view cf dbyte s (gbRedVolNum s) (ulDataBlock c)"
    and "length (aabBuffer s ! i) = REDCONF_BLOCK_SIZE cf" and "ulDataBlock c \<noteq> BBLK_INVALID"
proof -
  have ok: "cache_ok cf dbyte dsize s" and own: "owns cf env (inode_ptrs c) s" and h: "holds s i (ulDataBlock c) 0"
    using b p by (simp_all add: inode_bufs_def)
  have i: "i \<in> set (inode_ptrs c)" using p by (simp add: inode_ptrs_def)
  have k: "uFlags (aHead s ! i) AND BFLAG_META_MASK = 0 AND BFLAG_META_MASK" using h by (simp add: holds_def)
  note v = buffer_view [OF ok owned_held [OF own i] meta_flags(4) k bs]
  show "aabBuffer s ! i = cache_view cf dbyte s (gbRedVolNum s) (ulDataBlock c)"
    "length (aabBuffer s ! i) = REDCONF_BLOCK_SIZE cf" "ulDataBlock c \<noteq> BBLK_INVALID"
    using v h by (simp_all add: holds_def)
qed

section \<open>Seeking and reading\<close>

text \<open>The number of bytes a read may return.\<close>

definition read_length :: "u64 \<Rightarrow> u64 \<Rightarrow> u32 \<Rightarrow> nat" where
  "read_length fsize start n = min (unat n) (unat fsize - unat start)"


lemma coord_set_data:
  assumes co: "coord_ok cf T ib c" and i: "fCoordInited c"
    and d: "ulDataBlock c = bmap cf T ib (block_path cf (unat (ulLogicalBlock c)))" "ulDataBlock c \<noteq> BLOCK_SPARSE"
  shows "coord_ok cf T ib (c\<lparr>pbData := p\<rparr>)"
proof -
  let ?c = "c\<lparr>pbData := p\<rparr>"
  have sel: "cinode_path cf ?c = cinode_path cf c" "has_indir cf ?c = has_indir cf c" "has_dindir cf ?c = has_dindir cf c"
    "pDindir ?c = pDindir c" "pIndir ?c = pIndir c" "pbData ?c = p" "fCoordInited ?c = fCoordInited c"
    "ulLogicalBlock ?c = ulLogicalBlock c" "ulDindirBlock ?c = ulDindirBlock c" "ulIndirBlock ?c = ulIndirBlock c"
    "ulDataBlock ?c = ulDataBlock c" "uInodeEntry ?c = uInodeEntry c" "uDindirEntry ?c = uDindirEntry c"
    by (simp_all add: cinode_path_def has_indir_def has_dindir_def)
  note co = co [unfolded coord_ok_def if_P [OF i]]
  have "ulDataBlock c = bmap cf T ib (cinode_path cf c)" using co d(1) by metis
  then show ?thesis unfolding coord_ok_def sel if_P [OF i] using co d(2) by blast
qed

context block_device
begin

lemma get_data_reading:
  assumes ok: "pointers_ok cf" and rd: "reading cf dbyte dsize env ib x0 (c, s)" and none: "pbData c = None"
    and at: "fCoordInited c" "ulDataBlock c = data_block cf dbyte (snd x0) ib (unat (ulLogicalBlock c))" "ulDataBlock c \<noteq> BLOCK_SPARSE"
    and run: "RedBufferGet cf (ulDataBlock c) 0 s = (r, s')"
  shows "case r of Inl e \<Rightarrow> reading cf dbyte dsize env ib x0 (c, s')
    | Inr i \<Rightarrow> reading cf dbyte dsize env ib x0 (c\<lparr>pbData := Some i\<rparr>, s')"
proof -
  have conf: "conf_ok cf" using ok by (simp add: pointers_ok_def)
  have b: "inode_bufs cf dbyte dsize env ib (c, s)" and k: "ino_kept cf dbyte dsize env x0 (c, s)"
    and co: "coord_ok cf (node_at cf dbyte (snd x0)) ib c" using rd by (simp_all add: reading_def)
  note g = get_bufs [OF conf b _ run]
  show ?thesis
  proof (cases r)
    case (Inl e)
    then show ?thesis using g ino_kept_trans [OF k] rd by (simp add: reading_def)
  next
    case (Inr i)
    let ?c = "c\<lparr>pbData := Some i\<rparr>"
    have "inode_bufs cf dbyte dsize env ib (?c, s')" "ino_kept cf dbyte dsize env (c, s) (?c, s')"
      using g Inr none by (simp_all add: inode_ptrs_def ptr_ok_def same_inode_def)
    moreover have "coord_ok cf (node_at cf dbyte (snd x0)) ib ?c"
      by (rule coord_set_data [OF co at(1)]) (use at in \<open>simp_all add: data_block_def\<close>)
    ultimately show ?thesis using ino_kept_trans [OF k] rd Inr by (simp add: reading_def)
  qed
qed

lemma SeekAndRead_result:
  assumes ok: "pointers_ok cf" and dev: "device_errors (\<lambda>e. e \<noteq> RED_ENODATA) cf"
    and rd: "reading cf dbyte dsize env ib x0 x" and run: "RedInodeDataSeekAndRead cf blk x = (r, y)"
  shows "reading cf dbyte dsize env ib x0 y
    \<and> (case r of
         Inr _ \<Rightarrow> \<exists>i. pbData (fst y) = Some i \<and> length (aabBuffer (snd y) ! i) = REDCONF_BLOCK_SIZE cf
           \<and> aabBuffer (snd y) ! i = cache_view cf dbyte (snd y) (gbRedVolNum (snd x0)) (data_block cf dbyte (snd x0) ib (unat blk))
           \<and> data_block cf dbyte (snd x0) ib (unat blk) \<noteq> BLOCK_SPARSE
           \<and> data_block cf dbyte (snd x0) ib (unat blk) \<noteq> BBLK_INVALID
       | Inl e \<Rightarrow> e = RED_ENODATA \<longrightarrow> data_block cf dbyte (snd x0) ib (unat blk) = BLOCK_SPARSE)"
proof -
  let ?D = "data_block cf dbyte (snd x0) ib (unat blk)"
  note bs = pointers_block_size [OF ok]
  have conf: "conf_ok cf" using ok by (simp add: pointers_ok_def)
  have vol: "gbRedVolNum (snd z) = gbRedVolNum (snd x0)" if "reading cf dbyte dsize env ib x0 z" for z
    using that by (simp add: reading_def ino_kept_def quiet_def cache_frame_def)
  obtain q z where sk: "RedInodeDataSeek cf blk x = (q, z)" by (metis surj_pair)
  note s = seek_reading [OF ok dev rd sk]
  show ?thesis
  proof (cases q)
    case (Inl e)
    then have "r = Inl e \<and> y = z" using run by (simp add: RedInodeDataSeekAndRead_def red_simps sk)
    then show ?thesis using s Inl by simp
  next
    case (Inr u)
    obtain c t where z: "z = (c, t)" by fastforce
    have rz: "reading cf dbyte dsize env ib x0 (c, t)" using s z by simp
    have at: "fCoordInited c" "ulLogicalBlock c = blk" "ulDataBlock c = ?D" "?D \<noteq> BLOCK_SPARSE"
      using s unfolding Inr z sum.case fst_conv by blast+
    have fin: "\<exists>i. pbData c' = Some i \<and> length (aabBuffer t' ! i) = REDCONF_BLOCK_SIZE cf
        \<and> aabBuffer t' ! i = cache_view cf dbyte t' (gbRedVolNum (snd x0)) ?D \<and> ?D \<noteq> BLOCK_SPARSE \<and> ?D \<noteq> BBLK_INVALID"
      if "reading cf dbyte dsize env ib x0 (c', t')" "pbData c' = Some i" "ulDataBlock c' = ?D" for c' t' i
      using data_buffer [of cf dbyte dsize env ib c' t' i] that at(4) bs vol [OF that(1)] by (simp add: reading_def)
    show ?thesis
    proof (cases "pbData c")
      case (Some i)
      then have ry: "r = Inr () \<and> y = (c, t)"
        using run by (auto simp: RedInodeDataSeekAndRead_def red_simps sk Inr z)
      then show ?thesis using fin [OF rz Some at(3)] rz by simp
    next
      case None
      obtain q2 t2 where g: "RedBufferGet cf (ulDataBlock c) 0 t = (q2, t2)" by fastforce
      have sp: "ulDataBlock c \<noteq> BLOCK_SPARSE" using at by metis
      have at2: "ulDataBlock c = data_block cf dbyte (snd x0) ib (unat (ulLogicalBlock c))" using at by simp
      note gr = get_data_reading [OF ok rz None at(1) at2 sp g]
      show ?thesis
      proof (cases q2)
        case (Inl e)
        have "e \<noteq> RED_ENODATA" using errR_D [OF errR_RedBufferGet [OF conf dev] g [unfolded Inl]] by simp
        moreover have "r = Inl e \<and> y = (c, t2)"
          using run None Inl g sp by (auto simp: RedInodeDataSeekAndRead_def red_simps sk Inr z REDASSERT_def)
        ultimately show ?thesis using gr Inl by simp
      next
        case q2: (Inr i)
        have ry: "r = Inr ()" "y = (c\<lparr>pbData := Some i\<rparr>, t2)"
          using run None q2 g sp by (auto simp: RedInodeDataSeekAndRead_def red_simps sk Inr z REDASSERT_def)
        have gr': "reading cf dbyte dsize env ib x0 (c\<lparr>pbData := Some i\<rparr>, t2)" using gr q2 by simp
        have "ulDataBlock (c\<lparr>pbData := Some i\<rparr>) = ?D" using at by simp
        moreover have "pbData (c\<lparr>pbData := Some i\<rparr>) = Some i" by simp
        ultimately show ?thesis using fin [OF gr'] gr' unfolding ry sum.case fst_conv snd_conv by blast
      qed
    qed
  qed
qed

section \<open>A part of a block\<close>

lemma same_div_fits:
  assumes "(k + m) div B = k div B" and "0 < (B :: nat)"
  shows "k mod B + m < B"
proof -
  have "B * (k div B) + (k + m) mod B = k + m" using mult_div_mod_eq [of B "k + m"] assms(1) by simp
  moreover have "B * (k div B) + k mod B = k" by simp
  ultimately have "k mod B + m = (k + m) mod B" by linarith
  then show ?thesis using assms(2) by simp
qed

lemma ReadUnaligned_result:
  assumes ok: "pointers_ok cf" and dev: "device_errors (\<lambda>e. e \<noteq> RED_ENODATA) cf"
    and rd: "reading cf dbyte dsize env ib x0 x" and pl: "data_plain cf dbyte (snd x0) ib"
    and n: "n \<noteq> 0" and inside: "unat a + unat n < 2 ^ 64" "unat a div BS < 2 ^ 32" and buf: "idx + unat n \<le> length buf"
    and run: "ReadUnaligned cf a n idx buf x = (Inr buf', y)"
  shows "reading cf dbyte dsize env ib x0 y
    \<and> buf' = over buf idx (map (file_byte cf dbyte (snd x0) ib) [unat a..<unat a + unat n])"
proof -
  let ?f = "file_byte cf dbyte (snd x0) ib" and ?k = "unat a div BS"
  have conf: "conf_ok cf" using ok by (simp add: pointers_ok_def)
  note bs = pointers_block_size [OF ok]
  have n0: "0 < unat n" using n by (simp add: unat_gt_0)
  obtain q z where sk: "RedInodeDataSeekAndRead cf (ucast (drop_bit (P2 cf) a)) x = (q, z)" by (metis surj_pair)
  have blk: "unat (ucast (drop_bit (P2 cf) a) :: u32) = ?k"
    using inside(2) block_number [OF conf, of a] unat_ucast32 [of "drop_bit (P2 cf) a"] by simp
  note s = SeekAndRead_result [OF ok dev rd sk, unfolded blk]
  have one: "one_block cf a n"
    using run by (cases "one_block cf a n"; cases x) (simp_all add: ReadUnaligned_def red_simps rederrorR_def)
  have last: "unat ((a + ucast n) - 1) = unat a + unat n - 1"
  proof -
    have e: "unat (a + ucast n) = unat a + unat n" using inside(1) by (simp add: unat_word_ariths)
    then have "1 \<le> a + ucast n" using n0 by (simp add: word_le_nat_alt)
    then show ?thesis using e by (simp add: unat_sub)
  qed
  have fits: "unat a mod BS + unat n \<le> BS"
  proof -
    have "(unat a + unat n - 1) div BS = ?k"
      using one block_number [OF conf, of a] block_number [OF conf, of "(a + ucast n) - 1"] last
      by (simp add: one_block_def)
    moreover have "unat a + unat n - 1 = unat a + (unat n - 1)" using n0 by simp
    ultimately have "unat a mod BS + (unat n - 1) < BS" using bs by (intro same_div_fits) auto
    then show ?thesis using n0 by simp
  qed
  show ?thesis
  proof (cases q)
    case (Inl e)
    then have e: "e = RED_ENODATA" "buf' = set_at buf idx 0 (unat n)" "y = z"
      using run one sk by (cases x; auto simp: ReadUnaligned_def red_simps split: if_splits)+
    then have "data_block cf dbyte (snd x0) ib ?k = BLOCK_SPARSE" using s Inl by simp
    then have "map ?f [unat a..<unat a + unat n] = replicate (unat n) 0"
      using fits bs by (intro file_bytes_hole) auto
    then show ?thesis using s e buf by (simp add: set_at_over)
  next
    case (Inr u)
    obtain c t where z: "z = (c, t)" by fastforce
    let ?D = "data_block cf dbyte (snd x0) ib ?k" and ?v = "gbRedVolNum (snd x0)"
    obtain i where i: "pbData c = Some i" "length (aabBuffer t ! i) = BS" "aabBuffer t ! i = cache_view cf dbyte t ?v ?D"
      "?D \<noteq> BLOCK_SPARSE" "?D \<noteq> BBLK_INVALID"
      using s unfolding Inr z sum.case fst_conv snd_conv by blast
    have rz: "reading cf dbyte dsize env ib x0 (c, t)" using s z by simp
    have view: "aabBuffer t ! i = cache_view cf dbyte (snd x0) ?v ?D"
      using reading_view(1) [OF rz pl refl i(4,5)] i(3) by simp
    have e: "buf' = cpy_at buf idx (drop (in_block cf a) (aabBuffer t ! i)) (unat n)" "y = z"
      using run one sk Inr z i(1) by (cases x; auto simp: ReadUnaligned_def red_simps)+
    have "take (unat n) (drop (unat a mod BS) (aabBuffer t ! i)) = map ?f [unat a..<unat a + unat n]"
    proof (rule nth_equalityI)
      show "length (take (unat n) (drop (unat a mod BS) (aabBuffer t ! i))) = length (map ?f [unat a..<unat a + unat n])"
        using i(2) fits by simp
      fix j assume "j < length (take (unat n) (drop (unat a mod BS) (aabBuffer t ! i)))"
      then have j: "j < unat n" "unat a mod BS + j < BS" using i(2) fits by simp_all
      then have "?f (unat a + j) = aabBuffer t ! i ! (unat a mod BS + j)"
        using same_block_div [OF j(2)] i(4) view by (simp add: file_byte_def)
      then show "take (unat n) (drop (unat a mod BS) (aabBuffer t ! i)) ! j = map ?f [unat a..<unat a + unat n] ! j"
        using j i(2) by simp
    qed
    then show ?thesis
      using s e z buf i(2) fits by (simp add: in_block_mod [OF conf] cpy_at_over)
  qed
qed

section \<open>An extent of the disk\<close>

lemma bdev_evolves:
  assumes "dbyte d = dbyte (bdev s)" and "dsize d = dsize (bdev s)" and "cache_ok cf dbyte dsize s"
  shows "cache_ok cf dbyte dsize (s\<lparr>bdev := d\<rparr>) \<and> evolves cf dbyte dsize s (s\<lparr>bdev := d\<rparr>)"
proof -
  let ?s = "s\<lparr>bdev := d\<rparr>"
  have blk: "dblock dbyte BS d v b = dblock dbyte BS (bdev s) v b" for v b by (simp add: dblock_def assms(1))
  have view: "cache_view cf dbyte ?s v b = cache_view cf dbyte s v b" for v b
    by (simp add: cache_view_def cache_lookup_def blk split: option.split)
  have "cache_inv cf ?s = cache_inv cf s" by (rule cache_inv_same) (simp add: same_cache_def)
  moreover have "cache_geom cf dsize ?s = cache_geom cf dsize s"
    by (simp add: cache_geom_def vol_geom_def assms(2))
  moreover have "cache_clean cf dbyte ?s = cache_clean cf dbyte s" by (simp add: cache_clean_def blk)
  moreover have "cache_frame s ?s" by (simp add: cache_frame_def vol_static_def)
  ultimately show ?thesis
    using assms view by (simp add: cache_ok_def evolves_def meta_dirty_cong [of ?s s])
qed

lemma read_extent_bytes:
  assumes ok: "pointers_ok cf" and rd: "reading cf dbyte dsize env ib x0 (c, s)" and pl: "data_plain cf dbyte (snd x0) ib"
    and fl: "RedBufferFlush cf first m s0 = (Inr (), s)" "cache_ok cf dbyte dsize s0" "gbRedVolNum s0 = gbRedVolNum s"
    and ext: "\<forall>j < m. data_block cf dbyte (snd x0) ib (k0 + unat j) = first + j \<and> first + j \<noteq> BLOCK_SPARSE"
    and rng: "first < ulBlockCount (gpRedVolume s)" "m \<le> ulBlockCount (gpRedVolume s) - first" and k: "k < unat m * BS"
  shows "file_byte cf dbyte (snd x0) ib (k0 * BS + k) = dbyte (bdev s) (gbRedVolNum s) (unat first * BS + k)"
proof -
  let ?j = "k div BS" and ?r = "k mod BS" and ?D = "first + of_nat (k div BS)" and ?v = "gbRedVolNum (snd x0)"
  have conf: "conf_ok cf" using ok by (simp add: pointers_ok_def)
  have BS: "0 < BS" using pointers_block_size [OF ok] by simp
  have j: "?j < unat m" using k BS by (simp add: less_mult_imp_div_less mult.commute)
  then have uj: "unat (of_nat ?j :: u32) = ?j" using unsigned_less [of m, where ?'a = nat] by (simp add: unat_of_nat32)
  then have jm: "(of_nat ?j :: u32) < m" using j by (simp add: word_less_nat_alt)
  have sum: "unat first + unat m \<le> unat (ulBlockCount (gpRedVolume s))"
    using rng by (simp add: word_le_nat_alt unat_sub word_less_nat_alt)
  then have lim: "unat first + unat m < 2 ^ 32" using unsigned_less [of "ulBlockCount (gpRedVolume s)", where ?'a = nat] by simp
  have uD: "unat ?D = unat first + ?j" using lim j uj by (simp add: unat_word_ariths)
  have um: "unat (first + m) = unat first + unat m" using lim by (simp add: unat_word_ariths)
  have D: "data_block cf dbyte (snd x0) ib (k0 + ?j) = ?D" "?D \<noteq> BLOCK_SPARSE" using ext [rule_format, OF jm] uj by simp_all
  have "unat ?D < unat (ulBlockCount (gpRedVolume s))" using uD j sum by simp
  then have valid: "?D \<noteq> BBLK_INVALID" using block_valid by (simp add: word_less_nat_alt)
  have v: "gbRedVolNum s = ?v" and view: "cache_view cf dbyte s ?v ?D = cache_view cf dbyte (snd x0) ?v ?D"
    using reading_view [OF rd pl D valid] by simp_all
  have "first \<le> ?D" "?D < first + m" using uD um j by (simp_all add: word_le_nat_alt word_less_nat_alt)
  from flush_disk [OF conf fl(2,1) valid this]
  have disk: "dblock dbyte BS (bdev s) ?v (unat ?D) = cache_view cf dbyte s ?v ?D" using fl(3) v by simp
  have "file_byte cf dbyte (snd x0) ib (k0 * BS + k) = cache_view cf dbyte (snd x0) ?v ?D ! ?r"
    using BS D by (simp add: file_byte_def add.commute)
  also have "\<dots> = dblock dbyte BS (bdev s) ?v (unat ?D) ! ?r" using disk view by simp
  also have "\<dots> = dbyte (bdev s) ?v (unat ?D * BS + ?r)" using BS by (simp add: dblock_def)
  also have "unat ?D * BS + ?r = unat first * BS + k" by (simp add: uD add_mult_distrib)
  finally show ?thesis by (simp add: v)
qed

lemma map_shift:
  "(\<And>k. k < n \<Longrightarrow> f (a + k) = g (b + k)) \<Longrightarrow> map f [a..<a + n] = map g [b..<b + n]"
  by (rule nth_equalityI) simp_all

lemma read_extent_result:
  assumes ok: "pointers_ok cf" and rd: "reading cf dbyte dsize env ib x0 (c, s)" and pl: "data_plain cf dbyte (snd x0) ib"
    and ext: "\<forall>j < m. data_block cf dbyte (snd x0) ib (k0 + unat j) = first + j \<and> first + j \<noteq> BLOCK_SPARSE"
    and small: "unat m * BS < 2 ^ 32" and buf: "off + unat m * BS \<le> length buf"
    and run: "read_extent cf first m off buf s = (Inr buf', s')"
  shows "reading cf dbyte dsize env ib x0 (c, s')
    \<and> buf' = over buf off (map (file_byte cf dbyte (snd x0) ib) [k0 * BS..<k0 * BS + unat m * BS])"
proof -
  let ?f = "file_byte cf dbyte (snd x0) ib"
  have conf: "conf_ok cf" using ok by (simp add: pointers_ok_def)
  have oks: "cache_ok cf dbyte dsize s" using rd by (simp add: reading_def inode_bufs_def)
  obtain s1 p where fl: "RedBufferFlush cf first m s = (Inr (), s1)"
    and io: "RedIoRead cf (gbRedVolNum s1) first m (drop off buf) s1 = (Inr (None, p), s')"
    and buf': "buf' = take off buf @ p"
    using run by (auto simp: read_extent_def red_simps split: prod.splits sum.splits option.splits)
  note sp = RedBufferFlush_spec [OF conf oks fl]
  have ok1: "cache_ok cf dbyte dsize s1" and v1: "gbRedVolNum s = gbRedVolNum s1"
    using sp by (simp_all add: evolves_def cache_frame_def)
  have rd1: "reading cf dbyte dsize env ib x0 (c, s1)" using sp evolves_reading [OF rd] by simp
  have rng: "io_range_ok cf s1 (gbRedVolNum s1) first m" using io by (cases "io_range_ok cf s1 (gbRedVolNum s1) first m") (simp_all add: RedIoRead_def)
  have geom: "vol_geom cf dsize s1 (gbRedVolNum s1)" using ok1 by (simp add: cache_ok_def cache_geom_def)
  have len: "unat m * BS \<le> length (drop off buf)" using buf by simp
  obtain d where s': "s' = s1\<lparr>bdev := d\<rparr>" and d: "dbyte d = dbyte (bdev s1)" "dsize d = dsize (bdev s1)"
    and p: "p = map (dbyte (bdev s1) (gbRedVolNum s1)) [unat first * BS..<(unat first + unat m) * BS] @ drop (unat m * BS) (drop off buf)"
    by (rule RedIoRead_spec [OF geom conf rng small len io]) (auto simp: io_finish_def)
  have r: "first < ulBlockCount (gpRedVolume s1)" "m \<le> ulBlockCount (gpRedVolume s1) - first"
    using rng by (auto simp: io_range_ok_def gpRedVolume_def linorder_not_less)
  have "map ?f [k0 * BS..<k0 * BS + unat m * BS] = map (dbyte (bdev s1) (gbRedVolNum s1)) [unat first * BS..<unat first * BS + unat m * BS]"
    using read_extent_bytes [OF ok rd1 pl fl oks v1 ext r] by (rule map_shift)
  then have "buf' = over buf off (map ?f [k0 * BS..<k0 * BS + unat m * BS])"
    unfolding buf' p over_def by (simp add: add_mult_distrib add.commute)
  moreover have "reading cf dbyte dsize env ib x0 (c, s')"
    using evolves_reading [OF rd1] bdev_evolves [OF d ok1] by (simp add: s')
  ultimately show ?thesis by simp
qed

section \<open>Whole blocks\<close>

lemma block_offset:
  fixes i n :: u32
  assumes "conf_ok cf" and "i < n" and "unat n * BS < 2 ^ 32"
  shows "unat (push_bit (P2 cf) i) = unat i * BS"
proof -
  have b: "BS = 2 ^ P2 cf" using block_size_pow [OF assms(1)] by simp
  have "unat i * BS \<le> unat n * BS" using assms(2) by (intro mult_le_mono1) (simp add: word_less_nat_alt)
  then have "unat i * BS < 2 ^ 32" using assms(3) by (rule le_less_trans)
  then have "unat i * 2 ^ P2 cf < 2 ^ 32" unfolding b .
  then have "take_bit 32 (unat i * 2 ^ P2 cf) = unat i * 2 ^ P2 cf" by (rule take_bit_nat_eq_self)
  then show ?thesis unfolding b unsigned_push_bit_eq by (simp add: push_bit_eq_mult [of _ "unat i"])
qed

text \<open>The bytes of a file from one block to another.\<close>

abbreviation blocks :: "'d redstate \<Rightarrow> u32 \<Rightarrow> nat \<Rightarrow> nat \<Rightarrow> bytes" where
  "blocks s ib k m \<equiv> map (file_byte cf dbyte s ib) [k * BS..<m * BS]"

lemma blocks_append: "k \<le> m \<Longrightarrow> m \<le> n \<Longrightarrow> blocks s ib k m @ blocks s ib m n = blocks s ib k n"
  by (simp only: map_append [symmetric]) (metis le_Suc_ex add_mult_distrib upt_add_eq_append mult_le_mono1)

lemma read_extents_result:
  assumes ok: "pointers_ok cf" and dev: "device_errors (\<lambda>e. e \<noteq> RED_ENODATA) cf" and pl: "data_plain cf dbyte (snd x0) ib"
    and small: "unat cnt * BS < 2 ^ 32" "unat start + unat cnt < 2 ^ 32"
  shows "reading cf dbyte dsize env ib x0 x \<Longrightarrow> i \<le> cnt \<Longrightarrow> idx + unat cnt * BS \<le> length buf \<Longrightarrow>
    read_extents cf start cnt idx i buf x = (Inr buf', y) \<Longrightarrow>
    reading cf dbyte dsize env ib x0 y
    \<and> buf' = over buf (idx + unat i * BS) (blocks (snd x0) ib (unat start + unat i) (unat start + unat cnt))"
proof (induction "unat cnt - unat i" arbitrary: i buf x rule: less_induct)
  case less
  have conf: "conf_ok cf" using ok by (simp add: pointers_ok_def)
  have BS: "0 < BS" using pointers_block_size [OF ok] by simp
  show ?case
  proof (cases "i < cnt")
    case False
    then have "i = cnt" using less.prems(2) by simp
    then show ?thesis using less.prems by (simp add: read_extents.simps)
  next
    case True
    have n0: "cnt - i \<noteq> 0" using True by auto
    have ui: "unat i < unat cnt" "unat (cnt - i) = unat cnt - unat i"
      using True by (simp_all add: word_less_nat_alt unat_sub word_le_nat_alt)
    have us: "unat (start + i) = unat start + unat i" using small ui by (simp add: unat_word_ariths)
    note off = block_offset [OF conf True small(1)]
    obtain r x1 where ge: "GetExtent cf (start + i) (cnt - i) x = (r, x1)" by (metis surj_pair)
    note g = GetExtent_result [OF ok dev less.prems(1) ge n0]
    have step: "reading cf dbyte dsize env ib x0 y
        \<and> buf' = over buf (idx + unat i * BS) (blocks (snd x0) ib (unat start + unat i) (unat start + unat cnt))"
      if m: "1 \<le> unat m" "unat m \<le> unat (cnt - i)" and x2: "reading cf dbyte dsize env ib x0 x2"
        and b1: "buf1 = over buf (idx + unat i * BS) (blocks (snd x0) ib (unat start + unat i) (unat start + unat i + unat m))"
        and rec: "read_extents cf start cnt idx (i + m) buf1 x2 = (Inr buf', y)" for m x2 buf1
    proof -
      note st = index_step [OF True m]
      let ?b = "blocks (snd x0) ib (unat start + unat i) (unat start + unat i + unat m)"
      have lb: "length ?b = unat m * BS" by (simp add: add_mult_distrib)
      have "(unat i + unat m) * BS \<le> unat cnt * BS" using st(3) by simp
      then have fit: "idx + unat i * BS + length ?b \<le> length buf"
        using less.prems(3) lb by (simp add: add_mult_distrib)
      have "idx + unat cnt * BS \<le> length buf1" using b1 fit less.prems(3) by simp
      moreover have "i + m \<le> cnt" using st by (simp add: word_le_nat_alt)
      ultimately have ih: "reading cf dbyte dsize env ib x0 y \<and> buf' = over buf1 (idx + unat (i + m) * BS)
          (blocks (snd x0) ib (unat start + unat (i + m)) (unat start + unat cnt))"
        using less.hyps [OF st(1) x2] rec by simp
      have pos: "idx + unat (i + m) * BS = idx + unat i * BS + length ?b" using lb st(2) by (simp add: add_mult_distrib)
      have "buf' = over (over buf (idx + unat i * BS) ?b) (idx + unat i * BS + length ?b)
          (blocks (snd x0) ib (unat start + unat i + unat m) (unat start + unat cnt))"
        using ih st(2) unfolding pos b1 by (simp add: add.assoc)
      also have "\<dots> = over buf (idx + unat i * BS) (?b @ blocks (snd x0) ib (unat start + unat i + unat m) (unat start + unat cnt))"
        by (rule over_over [OF fit])
      also have "?b @ blocks (snd x0) ib (unat start + unat i + unat m) (unat start + unat cnt)
          = blocks (snd x0) ib (unat start + unat i) (unat start + unat cnt)"
        using st(3) by (intro blocks_append) simp_all
      finally show ?thesis using ih by simp
    qed
    show ?thesis
    proof (cases r)
      case (Inl e)
      let ?b1 = "set_at buf (idx + unat i * BS) 0 BS"
      have e: "e = RED_ENODATA" and rec: "read_extents cf start cnt idx (i + 1) ?b1 x1 = (Inr buf', y)"
        using less.prems(4) True ge Inl off by (subst (asm) read_extents.simps, simp split: if_splits)+
      have hole: "data_block cf dbyte (snd x0) ib (unat start + unat i) = BLOCK_SPARSE" using g Inl e us by simp
      have one: "unat (1 :: u32) = 1" "1 \<le> unat (cnt - i)" using ui by simp_all
      have "Suc (unat i) * BS \<le> unat cnt * BS" using ui(1) by (intro mult_le_mono1) simp
      then have fit: "idx + unat i * BS + BS \<le> length buf" using less.prems(3) by simp
      have "map (file_byte cf dbyte (snd x0) ib) [(unat start + unat i) * BS..<(unat start + unat i) * BS + BS] = replicate BS 0"
        using hole BS by (intro file_bytes_hole) simp_all
      then have "?b1 = over buf (idx + unat i * BS) (blocks (snd x0) ib (unat start + unat i) (unat start + unat i + unat (1 :: u32)))"
        using fit by (simp add: set_at_over add.commute)
      from step [OF _ _ _ this rec] g Inl one show ?thesis by simp
    next
      case (Inr fm)
      obtain first m where fm: "fm = (first, m)" by fastforce
      obtain c s where x1: "x1 = (c, s)" by fastforce
      have rd1: "reading cf dbyte dsize env ib x0 (c, s)" and m: "1 \<le> m" "m \<le> cnt - i"
        and ext: "\<forall>j < m. data_block cf dbyte (snd x0) ib (unat (start + i + j)) = first + j \<and> first + j \<noteq> BLOCK_SPARSE"
        using g Inr fm x1 by simp_all
      have mm: "1 \<le> unat m" "unat m \<le> unat (cnt - i)" using m by (simp_all add: word_le_nat_alt)
      note st = index_step [OF True mm]
      have ext': "\<forall>j < m. data_block cf dbyte (snd x0) ib ((unat start + unat i) + unat j) = first + j \<and> first + j \<noteq> BLOCK_SPARSE"
      proof (intro allI impI)
        fix j assume j: "j < m"
        then have "unat j < unat m" by (simp add: word_less_nat_alt)
        then have "unat (start + i + j) = unat start + unat i + unat j" using us small(2) st(3) by (simp add: unat_word_ariths)
        then show "data_block cf dbyte (snd x0) ib ((unat start + unat i) + unat j) = first + j \<and> first + j \<noteq> BLOCK_SPARSE"
          using ext [rule_format, OF j] by simp
      qed
      have "(unat i + unat m) * BS \<le> unat cnt * BS" using st(3) by simp
      then have fit: "idx + unat i * BS + unat m * BS \<le> length buf" and sm: "unat m * BS < 2 ^ 32"
        using less.prems(3) small(1) by (simp_all add: add_mult_distrib)
      obtain q s2 where re: "read_extent cf first m (idx + unat i * BS) buf s = (q, s2)" by fastforce
      show ?thesis
      proof (cases q)
        case (Inl e)
        then show ?thesis using less.prems(4) True ge Inr fm x1 re off by (subst (asm) read_extents.simps) (simp add: red_simps)
      next
        case q: (Inr b1)
        have rec: "read_extents cf start cnt idx (i + m) b1 (c, s2) = (Inr buf', y)"
          using less.prems(4) True ge Inr fm x1 re off q by (subst (asm) read_extents.simps) (simp add: red_simps)
        note rr = read_extent_result [OF ok rd1 pl ext' sm fit re [unfolded q]]
        have b1: "b1 = over buf (idx + unat i * BS) (blocks (snd x0) ib (unat start + unat i) (unat start + unat i + unat m))"
          using rr by (simp add: add_mult_distrib)
        from step [OF mm conjunct1 [OF rr] b1 rec] show ?thesis .
      qed
    qed
  qed
qed

section \<open>A read\<close>

text \<open>
  The stages of a read: \<open>i\<close> bytes of the range from \<open>a\<close> on are in the buffer, \<open>rem\<close> are to come, and
  the next byte is the first of a block, unless there is none.
\<close>

definition stage ::
  "(nat \<Rightarrow> nat) \<Rightarrow> u32 \<Rightarrow> CINODE \<times> 'd redstate \<Rightarrow> u64 \<Rightarrow> u32 \<Rightarrow> bytes \<Rightarrow> u32 \<times> u32 \<times> bytes \<Rightarrow> CINODE \<times> 'd redstate \<Rightarrow> bool"
where
  "stage env ib x0 a n buf = (\<lambda>(i, rem, b) y.
     reading cf dbyte dsize env ib x0 y \<and> unat i + unat rem = unat n
     \<and> b = over buf 0 (map (file_byte cf dbyte (snd x0) ib) [unat a..<unat a + unat i])
     \<and> (rem = 0 \<or> (unat a + unat i) mod BS = 0))"

lemma over_step:
  assumes "i + m \<le> length buf"
  shows "over (over buf 0 (map f [a..<a + i])) i (map f [a + i..<a + i + m]) = over buf 0 (map f [a..<a + (i + m)])"
proof -
  have "map f [a..<a + i] @ map f [a + i..<a + i + m] = map f [a..<a + (i + m)]"
    unfolding map_append [symmetric] add.assoc [symmetric] by (subst (2) upt_add_eq_append) simp_all
  moreover have "0 + length (map f [a..<a + i]) \<le> length buf" "length (map f [a..<a + i]) = i" using assms by simp_all
  ultimately show ?thesis using over_over [of 0 "map f [a..<a + i]" buf "map f [a + i..<a + i + m]"] by simp
qed

lemma INODE_SIZE_MAX_blocks:
  assumes "conf_ok cf" shows "unat (INODE_SIZE_MAX cf) = BS * unat (INODE_DATA_BLOCKS cf)"
proof -
  have bs: "BS \<le> 65536" using conf_ok_block_size [OF assms] by simp
  have d: "unat (INODE_DATA_BLOCKS cf) < 2 ^ 32" using unsigned_less [of "INODE_DATA_BLOCKS cf", where ?'a = nat] by simp
  have "BS * unat (INODE_DATA_BLOCKS cf) \<le> 65536 * unat (INODE_DATA_BLOCKS cf)" using bs by (rule mult_le_mono1)
  also have "\<dots> < 2 ^ 64" using d by simp
  finally have "BS * unat (INODE_DATA_BLOCKS cf) < 2 ^ 64" .
  moreover have "unat (of_nat BS :: u64) = BS" using bs by (simp add: unat_of_nat take_bit_nat_eq_self)
  ultimately show ?thesis by (simp add: INODE_SIZE_MAX_def unat_word_ariths)
qed

lemma in_file:
  assumes conf: "conf_ok cf" and le: "unat (a :: u64) + unat (n :: u32) \<le> unat (INODE_SIZE_MAX cf)"
  shows "unat a + unat n < 2 ^ 64" and "(unat a + unat n) div BS < 2 ^ 32" and "i \<le> unat n \<Longrightarrow> (unat a + i) div BS < 2 ^ 32"
proof -
  have BS: "0 < BS" using conf_ok_block_size [OF conf] by simp
  show "unat a + unat n < 2 ^ 64" using le unsigned_less [of "INODE_SIZE_MAX cf", where ?'a = nat] by simp
  have "(unat a + unat n) div BS \<le> unat (INODE_SIZE_MAX cf) div BS" by (rule div_le_mono [OF le])
  also have "\<dots> = unat (INODE_DATA_BLOCKS cf)" using BS by (simp add: INODE_SIZE_MAX_blocks [OF conf])
  also have "\<dots> < 2 ^ 32" using unsigned_less [of "INODE_DATA_BLOCKS cf", where ?'a = nat] by simp
  finally show d: "(unat a + unat n) div BS < 2 ^ 32" .
  assume "i \<le> unat n"
  then have "(unat a + i) div BS \<le> (unat a + unat n) div BS" by (intro div_le_mono) simp
  then show "(unat a + i) div BS < 2 ^ 32" using d by simp
qed

lemma block_mask:
  assumes "conf_ok cf"
  shows "(a :: u64) AND of_nat (BS - 1) = 0 \<longleftrightarrow> unat a mod BS = 0"
    and "unat (ucast (a AND of_nat (BS - 1)) :: u32) = unat a mod BS"
proof -
  have u: "unat (a AND of_nat (BS - 1)) = unat a mod BS" using in_block_mod [OF assms, of a] by (simp add: in_block_def)
  have "unat a mod BS < BS" and b: "BS \<le> 2 ^ 32" using conf_ok_block_size [OF assms] by simp_all
  from this(1) have "unat a mod BS < 2 ^ 32" using b by (rule less_le_trans)
  then show "unat (ucast (a AND of_nat (BS - 1)) :: u32) = unat a mod BS" using unat_ucast32 u by metis
  show "a AND of_nat (BS - 1) = 0 \<longleftrightarrow> unat a mod BS = 0" using u by (metis unat_eq_0)
qed

lemma unat_BS: "conf_ok cf \<Longrightarrow> unat (of_nat BS :: u32) = BS"
  using conf_ok_block_size [of cf] by (simp add: unat_of_nat32)

lemma read_head_result:
  assumes ok: "pointers_ok cf" and dev: "device_errors (\<lambda>e. e \<noteq> RED_ENODATA) cf"
    and rd: "reading cf dbyte dsize env ib x0 x" and pl: "data_plain cf dbyte (snd x0) ib"
    and n: "n \<noteq> 0" and le: "unat a + unat n \<le> unat (INODE_SIZE_MAX cf)" and buf: "unat n \<le> length buf"
    and run: "read_head cf a n buf x = (Inr res, y)"
  shows "stage env ib x0 a n buf res y"
proof -
  have conf: "conf_ok cf" using ok by (simp add: pointers_ok_def)
  have BS: "0 < BS" using conf_ok_block_size [OF conf] by simp
  note inf = in_file [OF conf le]
  show ?thesis
  proof (cases "unat a mod BS = 0")
    case True
    then have "res = (0, n, buf) \<and> y = x" using run by (cases x) (simp add: read_head_def block_mask(1) [OF conf, unfolded One_nat_def] red_simps)
    then show ?thesis using rd True by (simp add: stage_def)
  next
    case False
    let ?k = "of_nat BS - ucast (a AND of_nat (BS - 1)) :: u32"
    let ?m = "min n ?k"
    have r: "unat a mod BS < BS" using BS by simp
    note u = block_mask(2) [OF conf, of a] unat_BS [OF conf]
    have le: "ucast (a AND of_nat (BS - 1)) \<le> (of_nat BS :: u32)" unfolding word_le_nat_alt u using r by simp
    have k: "unat ?k = BS - unat a mod BS" unfolding unat_sub [OF le] u by (rule refl)
    have m: "unat ?m = min (unat n) (BS - unat a mod BS)" using k by (simp add: min_def word_le_nat_alt)
    have m0: "?m \<noteq> 0" using n r m by (metis min_def unat_eq_zero zero_less_diff less_numeral_extra(3) unat_0)
    have mn: "unat ?m \<le> unat n" using m by simp
    obtain q z where ru: "ReadUnaligned cf a ?m 0 buf x = (q, z)" by (metis surj_pair)
    obtain b where b: "q = Inr b" "res = (?m, n - ?m, b)" "y = z"
      using run False ru by (cases x; cases q) (simp_all add: read_head_def block_mask(1) [OF conf, unfolded One_nat_def] red_simps Let_def)
    have "unat a + unat ?m < 2 ^ 64" "0 + unat ?m \<le> length buf" using mn inf(1) buf by simp_all
    from ReadUnaligned_result [OF ok dev rd pl m0 this(1) _ this(2) ru [unfolded b(1)]] inf(3) [of 0]
    have "reading cf dbyte dsize env ib x0 y \<and> b = over buf 0 (map (file_byte cf dbyte (snd x0) ib) [unat a..<unat a + unat ?m])"
      using b by simp
    moreover have rem: "unat (n - ?m) = unat n - unat ?m" using mn by (simp add: unat_sub word_le_nat_alt)
    moreover have "n - ?m = 0 \<or> (unat a + unat ?m) mod BS = 0"
    proof (cases "unat n \<le> BS - unat a mod BS")
      case True
      then have "unat (n - ?m) = 0" using rem m by simp
      then show ?thesis by (metis unat_eq_0)
    next
      case False
      then have mm: "unat ?m = BS - unat a mod BS" using m by simp
      have "BS * (unat a div BS) + unat a mod BS = unat a" by simp
      then have "unat a + unat ?m = BS * (unat a div BS) + BS" unfolding mm using r by linarith
      then show ?thesis by simp
    qed
    ultimately show ?thesis using mn b by (simp add: stage_def)
  qed
qed

lemma read_whole_result:
  assumes ok: "pointers_ok cf" and dev: "device_errors (\<lambda>e. e \<noteq> RED_ENODATA) cf" and pl: "data_plain cf dbyte (snd x0) ib"
    and le: "unat a + unat n \<le> unat (INODE_SIZE_MAX cf)" and buf: "unat n \<le> length buf"
    and st: "stage env ib x0 a n buf (i, rem, b) x" and run: "read_whole cf a i rem b x = (Inr res, y)"
  shows "stage env ib x0 a n buf res y \<and> unat (fst (snd res)) < BS"
proof -
  have conf: "conf_ok cf" using ok by (simp add: pointers_ok_def)
  have BS: "0 < BS" using conf_ok_block_size [OF conf] by simp
  note inf = in_file [OF conf le]
  have rd: "reading cf dbyte dsize env ib x0 x" and sum: "unat i + unat rem = unat n"
    and b: "b = over buf 0 (map (file_byte cf dbyte (snd x0) ib) [unat a..<unat a + unat i])"
    and al: "rem = 0 \<or> (unat a + unat i) mod BS = 0" using st by (simp_all add: stage_def)
  obtain c s where x: "x = (c, s)" by fastforce
  show ?thesis
  proof (cases "of_nat BS \<le> rem")
    case False
    then have "res = (i, rem, b) \<and> y = x" using run by (simp add: read_whole_def x red_simps)
    then show ?thesis using st False unat_BS [OF conf] by (simp add: linorder_not_le word_less_nat_alt)
  next
    case True
    let ?A = "a + ucast i" and ?cnt = "drop_bit (P2 cf) rem" and ?k = "(unat a + unat i) div BS"
    have rem: "BS \<le> unat rem" using True unat_BS [OF conf] by (simp add: word_le_nat_alt)
    then have al': "(unat a + unat i) mod BS = 0" using al BS by (metis le_zero_eq less_irrefl unat_0)
    have uA: "unat ?A = unat a + unat i" using inf(1) sum by (simp add: unat_word_ariths)
    have "unat i \<le> unat n" using sum by simp
    then have "unat (drop_bit (P2 cf) ?A) < 2 ^ 32" using inf(3) uA by (simp add: block_number [OF conf])
    then have ublk: "unat (ucast (drop_bit (P2 cf) ?A) :: u32) = ?k"
      using unat_ucast32 [of "drop_bit (P2 cf) ?A"] by (simp add: block_number [OF conf] uA)
    have ucnt: "unat ?cnt = unat rem div BS" by (rule block_number [OF conf])
    have k: "?k * BS = unat a + unat i" using al' by (metis add.right_neutral div_mult_mod_eq)
    have cnt: "unat ?cnt * BS \<le> unat rem" using ucnt by simp
    then have small: "unat ?cnt * BS < 2 ^ 32" using unsigned_less [of rem, where ?'a = nat] by simp
    have "?k + unat ?cnt = (unat a + unat i + unat ?cnt * BS) div BS" using BS by simp
    also have "\<dots> \<le> (unat a + unat n) div BS" using cnt sum by (intro div_le_mono) simp
    finally have lim: "unat (ucast (drop_bit (P2 cf) ?A) :: u32) + unat ?cnt < 2 ^ 32" using inf(2) ublk by simp
    have pb: "unat (push_bit (P2 cf) ?cnt) = unat ?cnt * BS"
    proof -
      have p: "BS = 2 ^ P2 cf" using block_size_pow [OF conf] by simp
      have "take_bit 32 (unat ?cnt * 2 ^ P2 cf) = unat ?cnt * 2 ^ P2 cf" using small p by (intro take_bit_nat_eq_self) simp
      then show ?thesis unfolding p unsigned_push_bit_eq by (simp add: push_bit_eq_mult [of _ "unat ?cnt"])
    qed
    have ass: "REDASSERT (aligned cf ?A) s = s"
      using al' uA block_mask(1) [OF conf, of ?A] by (simp add: aligned_def REDASSERT_def)
    obtain q z where re: "read_extents cf (ucast (drop_bit (P2 cf) ?A)) ?cnt (unat i) 0 b x = (q, z)" by (metis surj_pair)
    obtain b1 where q: "q = Inr b1" "res = (i + push_bit (P2 cf) ?cnt, rem - push_bit (P2 cf) ?cnt, b1)" "y = z"
      using run True re ass by (cases q) (simp_all add: read_whole_def x red_simps Let_def ReadAligned_def)
    have lb: "length b = length buf" using b buf sum by simp
    have "unat i + unat ?cnt * BS \<le> length b" using lb buf sum cnt by simp
    from read_extents_result [OF ok dev pl small lim rd _ this re [unfolded q(1)]]
    have res: "reading cf dbyte dsize env ib x0 z" "b1 = over b (unat i) (map (file_byte cf dbyte (snd x0) ib)
        [unat a + unat i..<unat a + unat i + unat ?cnt * BS])"
      unfolding ublk by (simp_all add: k add_mult_distrib)
    have "unat (i + push_bit (P2 cf) ?cnt) = unat i + unat ?cnt * BS"
      using pb cnt sum unsigned_less [of n, where ?'a = nat] by (simp add: unat_word_ariths)
    moreover have "unat (rem - push_bit (P2 cf) ?cnt) = unat rem mod BS"
      using pb cnt ucnt by (simp add: unat_sub word_le_nat_alt minus_div_mult_eq_mod)
    moreover have "b1 = over buf 0 (map (file_byte cf dbyte (snd x0) ib) [unat a..<unat a + (unat i + unat ?cnt * BS)])"
      using res(2) cnt sum buf over_step [of "unat i" "unat ?cnt * BS" buf "file_byte cf dbyte (snd x0) ib" "unat a"]
      unfolding b by simp
    moreover have "(unat a + (unat i + unat ?cnt * BS)) mod BS = 0" using al' by (simp add: add.assoc [symmetric])
    ultimately show ?thesis
      using q res(1) sum BS ucnt div_mult_mod_eq [of "unat rem" BS] by (simp add: stage_def)
  qed
qed

lemma read_tail_result:
  assumes ok: "pointers_ok cf" and dev: "device_errors (\<lambda>e. e \<noteq> RED_ENODATA) cf" and pl: "data_plain cf dbyte (snd x0) ib"
    and le: "unat a + unat n \<le> unat (INODE_SIZE_MAX cf)" and buf: "unat n \<le> length buf"
    and st: "stage env ib x0 a n buf (i, rem, b) x" and small: "unat rem < BS"
    and run: "read_tail cf a i rem b x = (Inr b1, y)"
  shows "reading cf dbyte dsize env ib x0 y \<and> b1 = over buf 0 (map (file_byte cf dbyte (snd x0) ib) [unat a..<unat a + unat n])"
proof -
  have conf: "conf_ok cf" using ok by (simp add: pointers_ok_def)
  note inf = in_file [OF conf le]
  have rd: "reading cf dbyte dsize env ib x0 x" and sum: "unat i + unat rem = unat n"
    and b: "b = over buf 0 (map (file_byte cf dbyte (snd x0) ib) [unat a..<unat a + unat i])"
    and al: "rem = 0 \<or> (unat a + unat i) mod BS = 0" using st by (simp_all add: stage_def)
  obtain c s where x: "x = (c, s)" by fastforce
  show ?thesis
  proof (cases "rem = 0")
    case True
    then show ?thesis using run rd sum b x by (simp add: read_tail_def red_simps)
  next
    case False
    let ?A = "a + ucast i"
    have uA: "unat ?A = unat a + unat i" using inf(1) sum by (simp add: unat_word_ariths)
    have ass: "REDASSERT (aligned cf ?A) s = s" "REDASSERT (rem < of_nat BS) s = s"
      using al False uA block_mask(1) [OF conf, of ?A] small unat_BS [OF conf]
      by (simp_all add: aligned_def REDASSERT_def word_less_nat_alt)
    have ru: "ReadUnaligned cf ?A rem (unat i) b x = (Inr b1, y)"
      using run False ass by (simp add: read_tail_def x red_simps word_gt_0)
    have lb: "length b = length buf" using b buf sum by simp
    have "unat ?A + unat rem < 2 ^ 64" "unat i + unat rem \<le> length b" "unat ?A div BS < 2 ^ 32"
      using uA inf(1) inf(3) [of "unat i"] sum buf lb by simp_all
    from ReadUnaligned_result [OF ok dev rd pl False this(1,3,2) ru]
    have res: "reading cf dbyte dsize env ib x0 y" "b1 = over b (unat i) (map (file_byte cf dbyte (snd x0) ib)
        [unat a + unat i..<unat a + unat i + unat rem])" using uA by simp_all
    have "b1 = over buf 0 (map (file_byte cf dbyte (snd x0) ib) [unat a..<unat a + (unat i + unat rem)])"
      using res(2) sum buf over_step [of "unat i" "unat rem" buf "file_byte cf dbyte (snd x0) ib" "unat a"]
      unfolding b by simp
    then show ?thesis using res(1) unfolding sum by simp
  qed
qed

lemma RedInodeDataRead_result:
  assumes ok: "pointers_ok cf" and dev: "device_errors (\<lambda>e. e \<noteq> RED_ENODATA) cf" and pl: "data_plain cf dbyte (snd x0) ib"
    and rd: "reading cf dbyte dsize env ib x0 (c, s)" and size: "inode_size cf c s \<le> INODE_SIZE_MAX cf"
    and buf: "unat n \<le> length buf" and run: "RedInodeDataRead cf a n buf (c, s) = (Inr (m, buf'), y)"
  shows "reading cf dbyte dsize env ib x0 y \<and> unat m = read_length (inode_size cf c s) a n
    \<and> buf' = over buf 0 (map (file_byte cf dbyte (snd x0) ib) [unat a..<unat a + unat m])"
proof -
  let ?S = "inode_size cf c s"
  have mt: "CINODE_IS_MOUNTED cf c s" using reading_mounted [OF rd] by simp
  show ?thesis
  proof (cases "?S \<le> a \<or> n = 0")
    case True
    then have "m = 0 \<and> buf' = buf \<and> y = (c, s)" using run mt by (auto simp: RedInodeDataRead_def red_simps split: if_splits)
    moreover have "read_length ?S a n = 0" using True by (auto simp: read_length_def word_le_nat_alt)
    ultimately show ?thesis using rd by simp
  next
    case False
    define k where "k = (if ?S - a < ucast n then ucast (?S - a) else n)"
    have lt: "a < ?S" and n0: "n \<noteq> 0" using False by auto
    have sub: "unat (?S - a) = unat ?S - unat a" using lt by (intro unat_sub) simp
    have uk: "unat k = read_length ?S a n"
    proof (cases "?S - a < ucast n")
      case True
      then have "unat (?S - a) < unat n" by (simp add: word_less_nat_alt)
      moreover have "unat n < 2 ^ 32" using unsigned_less [of n, where ?'a = nat] by simp
      ultimately have "unat (ucast (?S - a) :: u32) = unat (?S - a)" by (intro unat_ucast32) simp
      then show ?thesis using True \<open>unat (?S - a) < unat n\<close> sub by (simp add: k_def read_length_def)
    next
      case False
      then have "k = n" "unat n \<le> unat (?S - a)" by (simp_all add: k_def word_less_nat_alt)
      then show ?thesis using sub by (simp add: read_length_def)
    qed
    have uaS: "unat a < unat ?S" using lt by (simp add: word_less_nat_alt)
    moreover have "0 < unat n" using n0 by (simp add: unat_gt_0)
    ultimately have "0 < unat k" by (simp add: uk read_length_def)
    then have k0: "k \<noteq> 0" by auto
    have "unat a + unat k \<le> unat ?S" using uaS by (simp add: uk read_length_def)
    then have le: "unat a + unat k \<le> unat (INODE_SIZE_MAX cf)" using size unfolding word_le_nat_alt by (rule le_trans)
    have bk: "unat k \<le> length buf" using buf by (simp add: uk read_length_def)
    have "RedInodeDataRead cf a n buf (c, s) = (bindR (read_head cf a k buf) (\<lambda>(i, rem, b).
        bindR (read_whole cf a i rem b) (\<lambda>(i, rem, b). bindR (read_tail cf a i rem b) (\<lambda>b. retR (k, b))))) (c, s)"
      using mt False by (simp add: RedInodeDataRead_def red_simps k_def Let_def)
    then obtain i r b x1 i2 r2 b2 x2 where h: "read_head cf a k buf (c, s) = (Inr (i, r, b), x1)"
      and w: "read_whole cf a i r b x1 = (Inr (i2, r2, b2), x2)" and t: "read_tail cf a i2 r2 b2 x2 = (Inr buf', y)" and m: "m = k"
      using run by (auto simp: red_simps split: prod.splits sum.splits)
    have st: "stage env ib x0 a k buf (i, r, b) x1" by (rule read_head_result [OF ok dev rd pl k0 le bk h])
    have st2: "stage env ib x0 a k buf (i2, r2, b2) x2 \<and> unat r2 < BS"
      using read_whole_result [OF ok dev pl le bk st w] by simp
    from read_tail_result [OF ok dev pl le bk conjunct1 [OF st2] conjunct2 [OF st2] t] show ?thesis using m uk by simp
  qed
qed

end

end
