(* ===== verification/InodeCorrect.thy ===== *)
theory InodeCorrect
  imports InodeRead Samples Reliable
begin

text \<open>
  Correctness of the access to the data of an inode: the coordinates of a block, the pointers a seek
  follows, the extents and the bytes a read returns.
\<close>

section \<open>A sample inode\<close>

text \<open>
  Inode 2 with a size and one block of data, in block 19 of the volume. The inode is in buffer 0, the
  data, which the disk does not have yet, in buffer 1. The sample file has five bytes.
\<close>

definition sample_node :: "u64 \<Rightarrow> bytes" where
  "sample_node n = st32 False (st64 False (replicate 256 0) 16 n) 48 19"

definition sample_head :: BUFFERHEAD where
  "sample_head = \<lparr>ulBlock = 3, bVolNum = 0, bRefCount = 1, uFlags = BFLAG_META_INODE OR BFLAG_DIRTY\<rparr>"

definition sample_data_head :: BUFFERHEAD where
  "sample_data_head = \<lparr>ulBlock = 19, bVolNum = 0, bRefCount = 0, uFlags = BFLAG_DIRTY\<rparr>"

definition sample_data :: bytes where
  "sample_data = [104, 101, 108, 108, 111] @ replicate 251 0"

definition sample_holds :: "u64 \<Rightarrow> bytes \<Rightarrow> ramdisk redstate" where
  "sample_holds n d = sample_state\<lparr>uNumUsed := 1, abMRU := [0..<12],
     aHead := (replicate 12 \<lparr>ulBlock = BBLK_INVALID, bVolNum = 0, bRefCount = 0, uFlags = 0\<rparr>)[0 := sample_head, 1 := sample_data_head],
     aabBuffer := (replicate 12 (replicate 256 0))[0 := sample_node n, 1 := d]\<rparr>"

abbreviation sample_ino_state :: "ramdisk redstate" where
  "sample_ino_state \<equiv> sample_holds 5 sample_data"

definition sample_inode :: "bool \<Rightarrow> CINODE" where
  "sample_inode dir = (cinode0 2)\<lparr>pInodeBuf := Some 0, fDirectory := dir\<rparr>"

abbreviation sample_ino :: CINODE where
  "sample_ino \<equiv> sample_inode False"

lemma sample_node_length [simp]: "length (sample_node n) = 256" "length sample_data = 256"
  by (simp_all add: sample_node_def sample_data_def)

lemma sample_pointers: "pointers_ok sample_cf"
  using sample_conf_ok
  by (simp add: pointers_ok_def INODE_ENTRIES_def INODE_HEADER_SIZE_def NODEHEADER_SIZE_def) (simp add: sample_defs)

lemma sample_errors: "device_errors (\<lambda>e. e \<noteq> RED_ENODATA) sample_cf"
  by (auto simp: device_errors_def sample_cf_def with_ramdisk_def RamDiskRead_def RamDiskWrite_def Let_def
      split: option.splits)

lemma sample_ino_heads:
  "i < 12 \<Longrightarrow> aHead (sample_holds n d) ! i = (if i = 0 then sample_head else if i = 1 then sample_data_head
     else \<lparr>ulBlock = BBLK_INVALID, bVolNum = 0, bRefCount = 0, uFlags = 0\<rparr>)"
  by (simp add: sample_holds_def)

lemma sample_ino_fields [simp]:
  "gbRedVolNum (sample_holds n d) = 0" "gaRedVolume (sample_holds n d) v = sample_vol" "bdev (sample_holds n d) = bdev sample_state"
  "length (aHead (sample_holds n d)) = 12"
  by (simp_all add: sample_holds_def sample_state_def)

lemma sample_ino_ok:
  assumes "length d = 256"
  shows "cache_ok sample_cf ram_byte ram_size (sample_holds n d)"
proof -
  have n: "(3 :: u32) \<noteq> BBLK_INVALID" "(19 :: u32) \<noteq> BBLK_INVALID" by (simp_all add: BBLK_INVALID_def)
  have fl: "flags_ok BFLAG_DIRTY" "BFLAG_DIRTY AND BFLAG_NEW = 0" "BFLAG_DIRTY \<noteq> 0" "flags_ok (BFLAG_META_INODE OR BFLAG_DIRTY)" "(BFLAG_META_INODE OR BFLAG_DIRTY) AND BFLAG_NEW = 0"
    "(BFLAG_META_INODE OR BFLAG_DIRTY) AND BFLAG_DIRTY \<noteq> 0"
    by (simp_all add: flags_ok_def BFLAG_defs)
  have "heads_inv 12 (aHead (sample_holds n d))"
    unfolding heads_inv_def
    by (simp add: sample_ino_heads head_ok_def same_block_def sample_head_def sample_data_head_def n n [symmetric] fl)
  moreover have "refs (aHead (sample_holds n d)) = 1"
    by (simp add: refs_def sample_holds_def sample_head_def sample_data_head_def eval_nat_numeral)
  moreover have "mru_inv 12 (abMRU (sample_holds n d))" by (auto simp: mru_inv_def sample_holds_def)
  ultimately have "cache_inv sample_cf (sample_holds n d)"
    by (simp add: cache_inv_def) (simp add: sample_holds_def assms)
  moreover have "cache_geom sample_cf ram_size (sample_holds n d)"
  proof -
    have "vol_geom sample_cf ram_size (sample_holds n d) 0" using sample_geom by (simp add: vol_geom_def sample_state_def)
    then show ?thesis
      by (simp add: cache_geom_def sample_ino_heads sample_head_def sample_data_head_def) (simp add: sample_vol_def)
  qed
  moreover have "cache_clean sample_cf ram_byte (sample_holds n d)"
    using fl by (simp add: cache_clean_def sample_ino_heads sample_head_def sample_data_head_def)
  ultimately show ?thesis by (simp add: cache_ok_def)
qed

lemma sample_ino_bufs:
  assumes "length d = 256"
  shows "inode_bufs sample_cf ram_byte ram_size (\<lambda>_. 0) 3 (sample_inode b, (sample_holds n d))"
proof -
  have "owns sample_cf (\<lambda>_. 0) [0] (sample_holds n d)"
    by (simp add: owns_def sample_ino_heads sample_head_def sample_data_head_def)
  moreover have "(BFLAG_META_INODE OR BFLAG_DIRTY) AND BFLAG_META_MASK = BFLAG_META_INODE AND BFLAG_META_MASK"
    by (simp add: BFLAG_defs)
  then have "holds (sample_holds n d) 0 3 BFLAG_META_INODE"
    by (simp add: holds_def sample_ino_heads sample_head_def gpRedVolume_def) (simp add: sample_vol_def)
  ultimately show ?thesis
    using sample_ino_ok [OF assms] by (simp add: inode_bufs_def inode_ptrs_def sample_inode_def cinode0_def)
qed

lemma sample_ino_coord: "coord_ok sample_cf T ib (sample_inode b)"
  by (simp add: coord_ok_def sample_inode_def cinode0_def)

lemma sample_ino_mounted: "CINODE_IS_MOUNTED sample_cf (sample_inode b) (sample_holds n d)"
  by (simp add: CINODE_IS_MOUNTED_def INODE_IS_VALID_def gpRedVolConf_def sample_inode_def cinode0_def INODE_FIRST_VALID_def)
    (simp add: sample_volconf_def)

lemma sample_data_blocks: "0 < INODE_DATA_BLOCKS sample_cf" "3000 < INODE_DATA_BLOCKS sample_cf"
  by (simp_all add: INODE_DATA_BLOCKS_def INODE_INDIR_BLOCKS_def INODE_DINDIR_BLOCKS_def DINDIR_POINTERS_def
      DINDIR_DATA_BLOCKS_def INODE_ENTRIES_def INODE_HEADER_SIZE_def NODEHEADER_SIZE_def INDIR_ENTRIES_def INDIR_HEADER_SIZE_def)
    (simp_all add: sample_defs)

section \<open>Coordinates\<close>

text \<open>
  C20. The coordinates \<open>SeekCoord\<close> moves a cached inode to are the path of the block in the tree of the
  inode: they lie in the node arrays, and the numbering of the blocks by paths gives the block back.
  The arithmetic of the C code is in 32 and 16 bits and does not wrap.
\<close>
theorem seek_coord_path:
  assumes "pointers_ok cf" and "CINODE_IS_MOUNTED cf c s" and "blk < INODE_DATA_BLOCKS cf"
    and "ulLogicalBlock c \<noteq> blk \<or> \<not> fCoordInited c"
  shows "let c' = fst (SeekCoord cf blk (c, s)) in
    cinode_path cf c' = block_path cf (unat blk) \<and> path_ok cf (cinode_path cf c')
    \<and> path_block cf (cinode_path cf c') = unat blk
    \<and> ulLogicalBlock c' = blk \<and> fCoordInited c' \<and> pbData c' = None"
proof -
  obtain c' s' where run: "SeekCoord cf blk (c, s) = (c', s')" by fastforce
  have k: "unat blk < REDCONF_DIRECT_POINTERS cf + INODE_INDIR_BLOCKS cf + INODE_DINDIR_BLOCKS cf"
    using data_blocks assms(3) by (simp add: word_less_nat_alt)
  show ?thesis using seek_coords [OF assms run] block_path_ok [OF assms(1) k] by (simp add: run Let_def)
qed

lemma seek_coord_path_witness:
  "let c' = fst (SeekCoord sample_cf 3000 (sample_ino, sample_ino_state)) in
    cinode_path sample_cf c' = block_path sample_cf (unat (3000 :: u32)) \<and> path_ok sample_cf (cinode_path sample_cf c')
    \<and> path_block sample_cf (cinode_path sample_cf c') = unat (3000 :: u32)
    \<and> ulLogicalBlock c' = 3000 \<and> fCoordInited c' \<and> pbData c' = None"
  by (rule seek_coord_path [OF sample_pointers sample_ino_mounted sample_data_blocks(2)])
    (simp add: sample_inode_def cinode0_def)

text \<open>
  The number of data blocks of an inode is computed in 32 bits. With blocks of 16384 bytes, 4
  direct and 32 indirect pointers the tree addresses 67748596404 blocks, and the macro gives
  3324086964 of them: the limit on the size of a file is far below what the pointers can address.
\<close>
lemma data_blocks_wrap:
  assumes "REDCONF_BLOCK_SIZE cf = 16384" and "REDCONF_DIRECT_POINTERS cf = 4" and "REDCONF_INDIRECT_POINTERS cf = 32"
    and "REDCONF_API_POSIX cf" and "REDCONF_INODE_BLOCKS cf" and "REDCONF_INODE_TIMESTAMPS cf"
  shows "INODE_DATA_BLOCKS cf = 3324086964
    \<and> REDCONF_DIRECT_POINTERS cf + INODE_INDIR_BLOCKS cf + INODE_DINDIR_BLOCKS cf = 67748596404"
  by (simp add: INODE_DATA_BLOCKS_def INODE_INDIR_BLOCKS_def INODE_DINDIR_BLOCKS_def DINDIR_POINTERS_def DINDIR_DATA_BLOCKS_def
      INODE_ENTRIES_def INODE_HEADER_SIZE_def NODEHEADER_SIZE_def INDIR_ENTRIES_def INDIR_HEADER_SIZE_def assms)

lemma data_blocks_wrap_witness:
  "let cf = sample_base\<lparr>REDCONF_BLOCK_SIZE := 16384\<rparr> in INODE_DATA_BLOCKS cf = 3324086964
    \<and> REDCONF_DIRECT_POINTERS cf + INODE_INDIR_BLOCKS cf + INODE_DINDIR_BLOCKS cf = 67748596404"
  unfolding Let_def by (rule data_blocks_wrap) (simp_all add: sample_base_def)

section \<open>Seeking\<close>

text \<open>
  C19. \<open>RedInodeDataSeek\<close> implements the block map: it ends at the block the pointers in the store lead
  to, and reports \<open>RED_ENODATA\<close> only for a sparse block. Whether it fails or not, the store is
  unchanged, the references of the driver to buffers are exactly those of the cached inode, every
  buffer of the inode holds its node, and the coordinates are those of the block.
\<close>
theorem seek_follows_map:
  assumes "block_device cf dbyte dsize" and "pointers_ok cf" and "device_errors (\<lambda>e. e \<noteq> RED_ENODATA) cf"
    and "inode_bufs cf dbyte dsize env ib (c, s)" and "coord_ok cf (node_at cf dbyte s) ib c"
    and "CINODE_IS_MOUNTED cf c s" and "blk < INODE_DATA_BLOCKS cf"
  shows "case RedInodeDataSeek cf blk (c, s) of (r, y) \<Rightarrow>
    inode_bufs cf dbyte dsize env ib y \<and> quiet cf dbyte dsize s (snd y) \<and> env_kept cf env s (snd y)
    \<and> coord_ok cf (node_at cf dbyte s) ib (fst y) \<and> fCoordInited (fst y) \<and> ulLogicalBlock (fst y) = blk
    \<and> (r = Inr () \<longrightarrow> ulDataBlock (fst y) = data_block cf dbyte s ib (unat blk)
         \<and> data_block cf dbyte s ib (unat blk) \<noteq> BLOCK_SPARSE)
    \<and> (r = Inl RED_ENODATA \<longrightarrow> data_block cf dbyte s ib (unat blk) = BLOCK_SPARSE)"
proof -
  obtain r y where run: "RedInodeDataSeek cf blk (c, s) = (r, y)" by (metis surj_pair)
  from block_device.RedInodeDataSeek_result [OF assms(1-7) run]
  have sr: "block_device.seek_result cf dbyte dsize env ib blk (c, s) r y" .
  note sr = sr [unfolded block_device.seek_result_def [OF assms(1)] ino_kept_def snd_conv fst_conv]
  show ?thesis
  proof (cases r)
    case (Inl e)
    then show ?thesis using sr by (simp add: run data_block_def)
  next
    case (Inr u)
    show ?thesis unfolding run prod.case data_block_def using sr [unfolded Inr sum.case] Inr by simp metis
  qed
qed

lemma seek_follows_map_witness:
  "case RedInodeDataSeek sample_cf 1 (sample_ino, sample_ino_state) of (r, y) \<Rightarrow>
    inode_bufs sample_cf ram_byte ram_size (\<lambda>_. 0) 3 y \<and> quiet sample_cf ram_byte ram_size sample_ino_state (snd y)
    \<and> env_kept sample_cf (\<lambda>_. 0) sample_ino_state (snd y)
    \<and> coord_ok sample_cf (node_at sample_cf ram_byte sample_ino_state) 3 (fst y)
    \<and> fCoordInited (fst y) \<and> ulLogicalBlock (fst y) = 1
    \<and> (r = Inr () \<longrightarrow> ulDataBlock (fst y) = data_block sample_cf ram_byte sample_ino_state 3 (unat (1 :: u32))
         \<and> data_block sample_cf ram_byte sample_ino_state 3 (unat (1 :: u32)) \<noteq> BLOCK_SPARSE)
    \<and> (r = Inl RED_ENODATA \<longrightarrow> data_block sample_cf ram_byte sample_ino_state 3 (unat (1 :: u32)) = BLOCK_SPARSE)"
  by (rule seek_follows_map [OF sample_device sample_pointers sample_errors sample_ino_bufs [OF sample_node_length(2)] sample_ino_coord sample_ino_mounted])
    (rule order_less_trans [OF _ sample_data_blocks(2)], simp)

text \<open>
  C21. An extent \<open>GetExtent\<close> returns is a run of the file that is contiguous on the disk: at least one
  block, at most as many as asked for, and each block of the run is where the block map says.
\<close>
theorem extent_contiguous:
  assumes "block_device cf dbyte dsize" and "pointers_ok cf" and "device_errors (\<lambda>e. e \<noteq> RED_ENODATA) cf"
    and "reading cf dbyte dsize env ib x0 x" and "n \<noteq> 0"
  shows "case GetExtent cf start n x of
      (Inr (first, m), y) \<Rightarrow> reading cf dbyte dsize env ib x0 y \<and> 1 \<le> m \<and> m \<le> n
        \<and> (\<forall>j < m. data_block cf dbyte (snd x0) ib (unat (start + j)) = first + j \<and> first + j \<noteq> BLOCK_SPARSE)
    | (Inl e, y) \<Rightarrow> reading cf dbyte dsize env ib x0 y
        \<and> (e = RED_ENODATA \<longrightarrow> data_block cf dbyte (snd x0) ib (unat start) = BLOCK_SPARSE)"
proof -
  obtain r y where run: "GetExtent cf start n x = (r, y)" by (metis surj_pair)
  show ?thesis using block_device.GetExtent_result [OF assms(1-4) run assms(5)] by (cases r) (auto simp: run)
qed

lemma sample_reading:
  "reading sample_cf ram_byte ram_size (\<lambda>_. 0) 3 (sample_ino, sample_ino_state) (sample_ino, sample_ino_state)"
  by (simp add: reading_def sample_ino_bufs sample_ino_coord sample_ino_mounted)

lemma extent_contiguous_witness:
  "case GetExtent sample_cf 0 2 (sample_ino, sample_ino_state) of
      (Inr (first, m), y) \<Rightarrow> reading sample_cf ram_byte ram_size (\<lambda>_. 0) 3 (sample_ino, sample_ino_state) y
        \<and> 1 \<le> m \<and> m \<le> 2
        \<and> (\<forall>j < m. data_block sample_cf ram_byte (snd (sample_ino, sample_ino_state)) 3 (unat (0 + j)) = first + j
             \<and> first + j \<noteq> BLOCK_SPARSE)
    | (Inl e, y) \<Rightarrow> reading sample_cf ram_byte ram_size (\<lambda>_. 0) 3 (sample_ino, sample_ino_state) y
        \<and> (e = RED_ENODATA \<longrightarrow>
             data_block sample_cf ram_byte (snd (sample_ino, sample_ino_state)) 3 (unat (0 :: u32)) = BLOCK_SPARSE)"
  by (rule extent_contiguous [OF sample_device sample_pointers sample_errors sample_reading]) simp

section \<open>Reading\<close>

text \<open>
  C18. A successful read returns the bytes of the file. \<open>RedInodeDataRead\<close> reads as many bytes as the
  caller asked for or as the file has from the start on, whichever is less; the caller's buffer
  then begins with those bytes of the file, as the block map and the store seen through the cache
  define them, with zeros for sparse blocks, and is unchanged behind them. The read leaves the
  file, the rest of the store and the other users of the cache alone.
\<close>
theorem data_read_returns_file:
  assumes "block_device cf dbyte dsize" and "pointers_ok cf" and "device_errors (\<lambda>e. e \<noteq> RED_ENODATA) cf"
    and "inode_bufs cf dbyte dsize env ib (c, s)" and "coord_ok cf (node_at cf dbyte s) ib c"
    and "CINODE_IS_MOUNTED cf c s" and "data_plain cf dbyte s ib"
    and "inode_size cf c s \<le> INODE_SIZE_MAX cf" and "unat n \<le> length buf"
    and "RedInodeDataRead cf start n buf (c, s) = (Inr (m, buf'), y)"
  shows "unat m = min (unat n) (unat (inode_size cf c s) - unat start)
    \<and> take (unat m) buf' = map (file_byte cf dbyte s ib) [unat start..<unat start + unat m]
    \<and> drop (unat m) buf' = drop (unat m) buf
    \<and> reading cf dbyte dsize env ib (c, s) y"
proof -
  have rd: "reading cf dbyte dsize env ib (c, s) (c, s)" using assms(4-6) by (simp add: reading_def)
  have "data_plain cf dbyte (snd (c, s)) ib" using assms(7) by simp
  from block_device.RedInodeDataRead_result [OF assms(1-3) this rd assms(8-10)]
  show ?thesis by (simp add: read_length_def over_def)
qed

lemma sample_inode_flags: "REDCONF_INODE_BLOCKS sample_cf" "REDCONF_INODE_TIMESTAMPS sample_cf" "REDCONF_API_POSIX sample_cf"
  "REDCONF_DIRECT_POINTERS sample_cf = 4" "REDCONF_INDIRECT_POINTERS sample_cf = 32"
  by (simp_all add: sample_defs)

lemma sample_ino_entry: "inode_size sample_cf (sample_inode b) (sample_holds n d) = n" "inode_entry sample_cf (sample_inode b) 0 (sample_holds n d) = 19"
  by (simp_all add: inode_size_def inode_entry_def ldb64_def ldb32_def sample_inode_def cinode0_def sample_holds_def
      sample_node_def INODE_off_defs INODE_HEADER_SIZE_def NODEHEADER_SIZE_def sample_inode_flags)

lemma sample_entries: "INODE_ENTRIES sample_cf = 52" "DINDIR_POINTERS sample_cf = 16"
  by (simp_all add: DINDIR_POINTERS_def INODE_ENTRIES_def INODE_HEADER_SIZE_def NODEHEADER_SIZE_def sample_inode_flags)

lemma sample_seek: "\<exists>c. RedInodeDataSeek sample_cf 0 (sample_inode b, (sample_holds n d)) = (Inr (), (c, (sample_holds n d)))
    \<and> pbData c = None \<and> ulDataBlock c = 19"
proof -
  have z: "INODE_DATA_BLOCKS sample_cf \<noteq> 0" using sample_data_blocks by auto
  have put: "RedInodePutData sample_cf (c, s) = (c, s)" if "pbData c = None" for c s
    using that by (simp add: RedInodePutData_def)
  have put3: "RedInodePutCoord sample_cf (c, s) = (c, s)"
     if "pbData c = None" "pIndir c = None" "pDindir c = None" for c s
    using that by (simp add: RedInodePutCoord_def RedInodePutData_def RedInodePutIndir_def RedInodePutDindir_def Let_def)
  have e: "inode_entry sample_cf ((sample_inode b)\<lparr>ulLogicalBlock := 0\<rparr>) 0 (sample_holds n d) = 19"
    using sample_ino_entry(2) by (simp add: inode_entry_def)
  have n: "pbData (sample_inode b) = None" "pIndir (sample_inode b) = None" "pDindir (sample_inode b) = None" "\<not> fCoordInited (sample_inode b)"
    by (simp_all add: sample_inode_def cinode0_def)
  have "(19 :: u32) \<noteq> BLOCK_SPARSE" by (simp add: BLOCK_SPARSE_def)
  then show ?thesis
    using sample_ino_mounted z e n
    by (simp add: RedInodeDataSeek_def red_simps SeekCoord_def seek_direct_def Let_def sample_inode_flags sample_entries
       seek_read_dindir_def seek_read_indir_def put put3 ino_run)
qed

lemma sample_get:
  assumes d: "length d = 256"
  shows "\<exists>i s. RedBufferGet sample_cf 19 0 (sample_holds n d) = (Inr i, s)"
proof -
  have dev: "reliable_device sample_cf ram_byte ram_size"
    unfolding sample_cf_def by (rule ram.reliable_device_axioms)
  have "\<not> uncached sample_cf (sample_holds n d) 0 19"
    by (auto simp: uncached_def sample_ino_heads sample_data_head_def intro!: exI [of _ 1])
  moreover have "19 < ulBlockCount (gpRedVolume (sample_holds n d))" by (simp add: gpRedVolume_def) (simp add: sample_vol_def)
  ultimately have "\<exists>i. fst (RedBufferGet sample_cf 19 0 (sample_holds n d)) = Inr i"
    by (intro reliable_device.RedBufferGet_succeeds [OF dev sample_conf_ok sample_ino_ok [OF d] meta_flags(4)])
      (auto simp: sample_ino_heads sample_head_def sample_data_head_def BFLAG_defs split: if_splits)
  then show ?thesis by (metis surj_pair fst_conv)
qed

lemma sample_seek_read:
  assumes d: "length d = 256"
  shows "\<exists>y. RedInodeDataSeekAndRead sample_cf 0 (sample_inode b, sample_holds n d) = (Inr (), y)"
proof -
  have ass: "REDASSERT True s = s" for s :: "ramdisk redstate" by (simp add: REDASSERT_def)
  obtain c where c: "RedInodeDataSeek sample_cf 0 (sample_inode b, sample_holds n d) = (Inr (), (c, sample_holds n d))"
    "pbData c = None" "ulDataBlock c = 19" using sample_seek by blast
  obtain i s where "RedBufferGet sample_cf 19 0 (sample_holds n d) = (Inr i, s)" using sample_get [OF d] by blast
  moreover have "(19 :: u32) \<noteq> BLOCK_SPARSE" by (simp add: BLOCK_SPARSE_def)
  ultimately show ?thesis using c ass by (simp add: RedInodeDataSeekAndRead_def red_simps)
qed

lemma sample_reads: "\<exists>b y. RedInodeDataRead sample_cf 0 10 (replicate 10 9) (sample_ino, sample_ino_state) = (Inr (5, b), y)"
proof -
  obtain y where "RedInodeDataSeekAndRead sample_cf 0 (sample_ino, sample_ino_state) = (Inr (), y)"
    using sample_seek_read [OF sample_node_length(2)] by blast
  moreover have "P2 sample_cf = 8" "aligned sample_cf 0" by (simp_all add: BLOCK_SIZE_P2_def aligned_def)
  moreover have "REDASSERT True s = s" for s :: "ramdisk redstate" by (simp add: REDASSERT_def)
  ultimately show ?thesis
    using sample_ino_mounted sample_ino_entry
    by (cases y) (simp add: RedInodeDataRead_def red_simps read_head_def read_whole_def read_tail_def ReadUnaligned_def one_block_def)
qed

lemma le_dec_zeros: "le_dec (replicate n 0) = 0"
  by (induction n) simp_all

lemma ld_zeros: "off + n \<le> m \<Longrightarrow> ld be n (replicate m 0) off = 0"
  by (simp add: ld_def dec_def le_dec_zeros)

lemma sample_view:
  "cache_view sample_cf ram_byte (sample_holds n d) 0 3 = sample_node n"
  "cache_view sample_cf ram_byte (sample_holds n d) 0 19 = d"
  by (simp_all add: cache_view_def cache_lookup_def upt_rec sample_ino_heads sample_head_def sample_data_head_def BBLK_INVALID_def wire_def)
   (simp_all add: sample_holds_def)

lemma sample_entry_of:
  "entry_of sample_cf (node_at sample_cf ram_byte (sample_holds n d)) 3 e = (if e = 0 then 19 else 0)"
proof -
  have "3 < ulBlockCount (gpRedVolume (sample_holds n d))" by (simp add: gpRedVolume_def) (simp add: sample_vol_def)
  then show ?thesis
    by (auto simp: node_at_def sample_view wire_def INODE_off_defs INODE_HEADER_SIZE_def NODEHEADER_SIZE_def sample_inode_flags
        sample_node_def ld_zeros BLOCK_SPARSE_def)
qed

lemma sample_data_block:
  "data_block sample_cf ram_byte (sample_holds n d) 3 k = (if k = 0 then 19 else 0)"
  by (auto simp: data_block_def block_path_def Let_def sample_entry_of BLOCK_SPARSE_def sample_inode_flags)

lemma sample_plain: "data_plain sample_cf ram_byte (sample_holds n d) 3"
  by (auto simp: data_plain_def sample_data_block meta_dirty_def sample_ino_heads sample_head_def sample_data_head_def BFLAG_defs split: if_splits)

lemma data_read_returns_file_witness:
  "\<exists>y. RedInodeDataRead sample_cf 0 10 (replicate 10 9) (sample_ino, sample_ino_state)
     = (Inr (5, [104, 101, 108, 108, 111, 9, 9, 9, 9, 9]), y)"
proof -
  obtain b y where run: "RedInodeDataRead sample_cf 0 10 (replicate 10 9) (sample_ino, sample_ino_state) = (Inr (5, b), y)"
    using sample_reads by blast
  have "inode_size sample_cf sample_ino sample_ino_state \<le> INODE_SIZE_MAX sample_cf"
    by (simp add: sample_ino_entry INODE_SIZE_MAX_def INODE_DATA_BLOCKS_def sample_entries INODE_INDIR_BLOCKS_def
        INODE_DINDIR_BLOCKS_def DINDIR_DATA_BLOCKS_def INDIR_ENTRIES_def INDIR_HEADER_SIZE_def NODEHEADER_SIZE_def sample_inode_flags)
  from data_read_returns_file [OF sample_device sample_pointers sample_errors sample_ino_bufs [OF sample_node_length(2)] sample_ino_coord
      sample_ino_mounted sample_plain this _ run]
  have "take 5 b = map (file_byte sample_cf ram_byte sample_ino_state 3) [0..<5]" "drop 5 b = replicate 5 9" by simp_all
  moreover have "map (file_byte sample_cf ram_byte sample_ino_state 3) [0..<5] = [104, 101, 108, 108, 111]"
    by (simp add: upt_rec file_byte_def sample_data_block BLOCK_SPARSE_def sample_view sample_data_def)
  ultimately have "b = [104, 101, 108, 108, 111, 9, 9, 9, 9, 9]"
    using append_take_drop_id [of 5 b] by (simp add: eval_nat_numeral)
  then show ?thesis using run by blast
qed

end
