(* ===== verification/DirCorrect.thy ===== *)
theory DirCorrect
  imports Dir InodeCorrect
begin

text \<open>
  Correctness of the search in a directory. The reference is the directory as a sequence of entries
  that are slices of the file: an entry has a number and a name and is free when the number is 0, so
  a sparse block consists of free entries. \<open>RedDirEntryLookup\<close> finds the first entry with the name of
  the caller, and without one the first free entry.
\<close>

section \<open>A directory as a sequence of entries\<close>

definition dirent_offset :: "'d redconf \<Rightarrow> nat \<Rightarrow> nat" where
  "dirent_offset cf i =
     i div DIRENTS_PER_BLOCK cf * REDCONF_BLOCK_SIZE cf + i mod DIRENTS_PER_BLOCK cf * DIRENT_SIZE cf"

definition dirent_bytes :: "'d redconf \<Rightarrow> (nat \<Rightarrow> u8) \<Rightarrow> nat \<Rightarrow> bytes" where
  "dirent_bytes cf f i = map f [dirent_offset cf i..<dirent_offset cf i + DIRENT_SIZE cf]"

definition entry_number :: "'d redconf \<Rightarrow> (nat \<Rightarrow> u8) \<Rightarrow> nat \<Rightarrow> u32" where
  "entry_number cf f i = ld32 (REDCONF_ENDIAN_BIG cf) (dirent_bytes cf f i) 0"

definition entry_name :: "'d redconf \<Rightarrow> (nat \<Rightarrow> u8) \<Rightarrow> nat \<Rightarrow> bytes" where
  "entry_name cf f i = takeWhile (\<lambda>c. c \<noteq> 0) (take (REDCONF_NAME_MAX cf) (drop 4 (dirent_bytes cf f i)))"

definition entry_free :: "'d redconf \<Rightarrow> (nat \<Rightarrow> u8) \<Rightarrow> nat \<Rightarrow> bool" where
  "entry_free cf f i \<longleftrightarrow> entry_number cf f i = INODE_INVALID"

definition entry_is :: "'d redconf \<Rightarrow> (nat \<Rightarrow> u8) \<Rightarrow> bytes \<Rightarrow> nat \<Rightarrow> bool" where
  "entry_is cf f w i \<longleftrightarrow> \<not> entry_free cf f i \<and> entry_name cf f i = w"

text \<open>The first free entry as the code has it, and the name a caller passes.\<close>

definition free_index :: "'d redconf \<Rightarrow> (nat \<Rightarrow> u8) \<Rightarrow> nat \<Rightarrow> u32" where
  "free_index cf f n = (case find (entry_free cf f) [0..<n] of None \<Rightarrow> DIR_INDEX_INVALID | Some i \<Rightarrow> of_nat i)"

definition caller_name :: "'d redconf \<Rightarrow> bytes \<Rightarrow> bytes" where
  "caller_name cf nm = takeWhile (\<lambda>c. c \<noteq> 0 \<and> c \<noteq> REDCONF_PATH_SEPARATOR cf) nm"

section \<open>Names\<close>

lemma unat32: "k < 2 ^ 32 \<Longrightarrow> unat (of_nat k :: u32) = k"
  unfolding unat_of_nat by (simp add: take_bit_nat_eq_self)

lemma strncmp_text:
  assumes "length w \<le> length a" and "text_ok w"
  shows "RedStrNCmpUnchecked a (w @ rest) (length w) = Some 0 \<longleftrightarrow> take (length w) a = w"
  using assms
proof (induction w arbitrary: a)
  case (Cons c w)
  then obtain b as where "a = b # as" by (cases a) auto
  then show ?case using Cons by (auto simp: text_ok_def)
qed simp

lemma field_name_iff:
  assumes "length w \<le> m" and "m \<le> length a" and "text_ok w"
  shows "takeWhile (\<lambda>c. c \<noteq> 0) (take m a) = w \<longleftrightarrow>
    take (length w) a = w \<and> (length w = m \<or> a ! length w = (0 :: u8))"
  using assms
proof (induction w arbitrary: a m)
  case Nil
  then show ?case by (cases a; cases m) auto
next
  case (Cons c w)
  then obtain b as k where "a = b # as" "m = Suc k" by (cases a; cases m) auto
  then show ?case using Cons by (auto simp: text_ok_def)
qed

lemma namelen_caller:
  assumes "namelen_scan (REDCONF_PATH_SEPARATOR cf) nm = Some n"
  shows "length (caller_name cf nm) = n" "text_ok (caller_name cf nm)" "\<exists>rest. nm = caller_name cf nm @ rest"
proof -
  show "length (caller_name cf nm) = n"
    using assms unfolding caller_name_def
  proof (induction nm arbitrary: n)
    case (Cons c nm)
    then show ?case by (cases "c \<noteq> 0 \<and> c \<noteq> REDCONF_PATH_SEPARATOR cf") auto
  qed simp
  show "text_ok (caller_name cf nm)" by (auto simp: caller_name_def text_ok_def dest: set_takeWhileD)
  show "\<exists>rest. nm = caller_name cf nm @ rest" unfolding caller_name_def
    by (rule exI) (rule takeWhile_dropWhile_id [symmetric])
qed

section \<open>The entries of a block\<close>

lemma block_slice:
  assumes "i + n \<le> B"
  shows "take n (drop i (map f [a..<a + B])) = map f [a + i..<a + i + n]"
  using assms by (intro nth_equalityI) (simp_all add: add.assoc)

lemma dirents_fit: "k < DIRENTS_PER_BLOCK cf \<Longrightarrow> k * DIRENT_SIZE cf + DIRENT_SIZE cf \<le> REDCONF_BLOCK_SIZE cf"
proof -
  assume "k < DIRENTS_PER_BLOCK cf"
  then have "Suc k * DIRENT_SIZE cf \<le> DIRENTS_PER_BLOCK cf * DIRENT_SIZE cf" by (intro mult_le_mono1) simp
  also have "\<dots> \<le> REDCONF_BLOCK_SIZE cf" unfolding DIRENTS_PER_BLOCK_def by (rule div_times_less_eq_dividend)
  finally show ?thesis by simp
qed

lemma block_entry:
  assumes k: "k < DIRENTS_PER_BLOCK cf"
    and p: "p = map f [b * REDCONF_BLOCK_SIZE cf..<b * REDCONF_BLOCK_SIZE cf + REDCONF_BLOCK_SIZE cf]"
  shows "take (DIRENT_SIZE cf) (drop (k * DIRENT_SIZE cf) p) = dirent_bytes cf f (b * DIRENTS_PER_BLOCK cf + k)"
  unfolding p dirent_bytes_def dirent_offset_def block_slice [OF dirents_fit [OF k]]
  using k by simp

lemma dirent_inode_entry:
  assumes "k < DIRENTS_PER_BLOCK cf"
    and "p = map f [b * REDCONF_BLOCK_SIZE cf..<b * REDCONF_BLOCK_SIZE cf + REDCONF_BLOCK_SIZE cf]"
  shows "dirent_inode cf p k = entry_number cf f (b * DIRENTS_PER_BLOCK cf + k)"
proof -
  have "take 4 (drop (k * DIRENT_SIZE cf) p) = take 4 (take (DIRENT_SIZE cf) (drop (k * DIRENT_SIZE cf) p))"
    by (simp add: DIRENT_SIZE_def min_def)
  then show ?thesis
    unfolding block_entry [OF assms] by (simp add: dirent_inode_def entry_number_def DIRENT_ulInode_def ld_def)
qed

lemma dirent_matches_entry:
  assumes k: "k < DIRENTS_PER_BLOCK cf"
    and p: "p = map f [b * REDCONF_BLOCK_SIZE cf..<b * REDCONF_BLOCK_SIZE cf + REDCONF_BLOCK_SIZE cf]"
    and w: "text_ok w" "length w \<le> REDCONF_NAME_MAX cf" "unat n = length w"
  shows "dirent_matches cf (Some (w @ rest)) n p k \<longleftrightarrow> entry_name cf f (b * DIRENTS_PER_BLOCK cf + k) = w"
proof -
  let ?a = "dirent_name cf p k"
  have len: "REDCONF_NAME_MAX cf \<le> length ?a"
    using dirents_fit [OF k] by (simp add: dirent_name_def DIRENT_acName_def p DIRENT_SIZE_def)
  have "take (REDCONF_NAME_MAX cf) ?a
      = take (REDCONF_NAME_MAX cf) (drop 4 (take (DIRENT_SIZE cf) (drop (k * DIRENT_SIZE cf) p)))"
    by (simp add: dirent_name_def DIRENT_acName_def DIRENT_SIZE_def drop_take min_def add.commute)
  then have e: "entry_name cf f (b * DIRENTS_PER_BLOCK cf + k) = takeWhile (\<lambda>c. c \<noteq> 0) (take (REDCONF_NAME_MAX cf) ?a)"
    unfolding block_entry [OF k p] entry_name_def by simp
  show ?thesis
    unfolding e field_name_iff [OF w(2) len w(1)]
    using strncmp_text [of w ?a rest] w len by (auto simp: dirent_matches_def RedStrNCmp_def)
qed

text \<open>The loop over the entries of a block is the search in the slice of the sequence.\<close>

lemma lookup_block_find:
  assumes p: "p = map f [b * REDCONF_BLOCK_SIZE cf..<b * REDCONF_BLOCK_SIZE cf + REDCONF_BLOCK_SIZE cf]"
    and w: "text_ok w" "length w \<le> REDCONF_NAME_MAX cf" "unat n = length w"
    and base: "unat ulIdx = b * DIRENTS_PER_BLOCK cf"
    and ks: "\<forall>k \<in> set ks. k < DIRENTS_PER_BLOCK cf \<and> unat ulIdx + k < 2 ^ 32 - 1"
  shows "lookup_block cf (Some (w @ rest)) n p ulIdx ks free = (r, free') \<Longrightarrow>
    r = find (\<lambda>k. entry_is cf f w (unat ulIdx + k)) ks
    \<and> (r = None \<longrightarrow> free' = (if free \<noteq> DIR_INDEX_INVALID then free
        else case find (\<lambda>k. entry_free cf f (unat ulIdx + k)) ks of None \<Rightarrow> DIR_INDEX_INVALID | Some k \<Rightarrow> ulIdx + of_nat k))"
  using ks
proof (induction ks arbitrary: free)
  case (Cons k ks)
  have k: "k < DIRENTS_PER_BLOCK cf" using Cons.prems by simp
  note e = dirent_inode_entry [OF k p] dirent_matches_entry [OF k p w, of rest]
  have "unat (of_nat k :: u32) = k" using Cons.prems by (simp add: unat32)
  then have "unat (ulIdx + of_nat k) = unat ulIdx + k" using Cons.prems by (simp add: unat_word_ariths)
  then have v: "ulIdx + of_nat k \<noteq> DIR_INDEX_INVALID" using Cons.prems by (auto simp: DIR_INDEX_INVALID_def)
  have ks: "\<forall>k \<in> set ks. k < DIRENTS_PER_BLOCK cf \<and> unat ulIdx + k < 2 ^ 32 - 1" using Cons.prems by simp
  show ?case
  proof (cases "entry_free cf f (unat ulIdx + k)")
    case True
    then show ?thesis
      using Cons.IH [OF _ ks, of "if free = DIR_INDEX_INVALID then ulIdx + of_nat k else free"] Cons.prems(1) base e v
      by (simp add: entry_is_def entry_free_def split: if_splits)
  next
    case False
    then show ?thesis
      using Cons.IH [OF _ ks, of free] Cons.prems(1) base e
      by (cases "entry_name cf f (b * DIRENTS_PER_BLOCK cf + k) = w") (auto simp: entry_is_def entry_free_def)
  qed
qed auto


section \<open>Searching blocks one after the other\<close>

lemma find_map: "find P (map g xs) = map_option g (find (P \<circ> g) xs)"
  by (induction xs) auto

lemma find_append: "find P (xs @ ys) = (case find P xs of None \<Rightarrow> find P ys | Some x \<Rightarrow> Some x)"
  by (induction xs) auto

lemma find_upt_next:
  "find P [0..<a + m] = (case find P [0..<a] of None \<Rightarrow> map_option (\<lambda>k. a + k) (find (\<lambda>k. P (a + k)) [0..<m]) | Some i \<Rightarrow> Some i)"
proof -
  have "[0..<a + m] = [0..<a] @ [a..<a + m]" by (rule upt_add_eq_append) (rule le0)
  moreover have "[a..<a + m] = map (\<lambda>k. a + k) [0..<m]" by (rule nth_equalityI) simp_all
  ultimately have "[0..<a + m] = [0..<a] @ map (\<lambda>k. a + k) [0..<m]" by simp
  then show ?thesis by (auto simp: find_append find_map comp_def split: option.splits)
qed

lemma find_upt_more: "find P [0..<a] = Some i \<Longrightarrow> a \<le> n \<Longrightarrow> find P [0..<n] = Some i"
  using find_upt_next [of P a "n - a"] by simp

lemma find_upt_less: "find P [0..<n] = Some i \<Longrightarrow> i < n"
  by (auto simp: find_Some_iff)

lemma free_valid:
  assumes "find P [0..<n] = Some i" and "n < 2 ^ 32"
  shows "(of_nat i :: u32) \<noteq> DIR_INDEX_INVALID"
proof -
  have "i < 2 ^ 32 - 1" using find_upt_less [OF assms(1)] assms(2) by simp
  moreover from this have "unat (of_nat i :: u32) = i" by (simp add: unat32)
  ultimately show ?thesis by (auto simp: DIR_INDEX_INVALID_def)
qed

lemma free_index_next:
  assumes "free_index cf f (unat u) = fr" and "unat u + m < 2 ^ 32"
  shows "free_index cf f (unat u + m) = (if fr \<noteq> DIR_INDEX_INVALID then fr
      else case find (\<lambda>k. entry_free cf f (unat u + k)) [0..<m] of None \<Rightarrow> DIR_INDEX_INVALID | Some k \<Rightarrow> u + of_nat k)"
proof -
  have "of_nat i \<noteq> DIR_INDEX_INVALID" if "find (entry_free cf f) [0..<unat u] = Some i" for i
    by (rule free_valid [OF that]) (use assms(2) in simp)
  then show ?thesis
    using assms(1) by (auto simp: free_index_def find_upt_next [of _ "unat u"] split: option.splits)
qed

text \<open>What the search in the first \<open>n\<close> entries gives.\<close>

definition lookup_spec :: "'d redconf \<Rightarrow> (nat \<Rightarrow> u8) \<Rightarrow> bytes \<Rightarrow> u32 \<Rightarrow> u32 \<times> u32 option \<times> u32 \<Rightarrow> bool" where
  "lookup_spec cf f w cnt = (\<lambda>(i, found, fr).
     case find (entry_is cf f w) [0..<unat cnt] of
       Some j \<Rightarrow> j < unat cnt \<and> i = of_nat j \<and> found = Some (dirent_number cf (entry_number cf f j))
     | None \<Rightarrow> i = cnt \<and> found = None \<and> fr = free_index cf f (unat cnt))"

text \<open>No entry of a hole has a name, and the first of them is free.\<close>

lemma hole_free:
  assumes k: "k < DIRENTS_PER_BLOCK cf" and B: "0 < REDCONF_BLOCK_SIZE cf"
    and hole: "data_block cf dbyte s ib b = BLOCK_SPARSE"
  shows "entry_free cf (file_byte cf dbyte s ib) (b * DIRENTS_PER_BLOCK cf + k)"
proof -
  have "map (file_byte cf dbyte s ib) [b * REDCONF_BLOCK_SIZE cf..<b * REDCONF_BLOCK_SIZE cf + REDCONF_BLOCK_SIZE cf]
      = replicate (REDCONF_BLOCK_SIZE cf) 0"
    using B hole by (intro file_bytes_hole) simp_all
  then have p: "replicate (REDCONF_BLOCK_SIZE cf) 0
      = map (file_byte cf dbyte s ib) [b * REDCONF_BLOCK_SIZE cf..<b * REDCONF_BLOCK_SIZE cf + REDCONF_BLOCK_SIZE cf]" by simp
  have "k * DIRENT_SIZE cf + 4 \<le> REDCONF_BLOCK_SIZE cf" using dirents_fit [OF k] by (simp add: DIRENT_SIZE_def)
  then show ?thesis
    unfolding entry_free_def dirent_inode_entry [OF k p, symmetric]
    by (simp add: dirent_inode_def DIRENT_ulInode_def ld_zeros INODE_INVALID_def)
qed

text \<open>The bytes of a block of the file that is not a hole.\<close>

lemma file_bytes_block:
  assumes "data_block cf dbyte s ib b \<noteq> BLOCK_SPARSE"
    and "length (cache_view cf dbyte s (gbRedVolNum s) (data_block cf dbyte s ib b)) = REDCONF_BLOCK_SIZE cf"
  shows "cache_view cf dbyte s (gbRedVolNum s) (data_block cf dbyte s ib b)
    = map (file_byte cf dbyte s ib) [b * REDCONF_BLOCK_SIZE cf..<b * REDCONF_BLOCK_SIZE cf + REDCONF_BLOCK_SIZE cf]"
  using assms by (intro nth_equalityI) (auto simp: file_byte_def)

lemma hole_tail:
  assumes "a mod D = 0" and "a < c" and "c < a + (D :: nat)"
  shows "c div D = a div D \<and> c mod D \<noteq> 0"
proof -
  obtain q where q: "a = q * D" using assms(1) by (metis add.right_neutral div_mult_mod_eq)
  have "c = (c - a) + q * D" "c - a < D" using assms q by simp_all
  then have "c div D = q \<and> c mod D = c - a" by (metis add_diff_cancel_left' div_mult_self3 div_less mod_mult_self3 mod_less
      add.commute add.left_neutral less_zeroE gr_zeroI)
  then show ?thesis using q assms by auto
qed

text \<open>The loop before entry \<open>u\<close>: no entry so far has the name, and \<open>fr\<close> is the first free one.\<close>

definition lookup_at :: "'d redconf \<Rightarrow> (nat \<Rightarrow> u8) \<Rightarrow> bytes \<Rightarrow> u32 \<Rightarrow> u32 \<Rightarrow> u32 \<Rightarrow> bool" where
  "lookup_at cf f w cnt u fr \<longleftrightarrow> u \<le> cnt \<and> (u = cnt \<or> unat u mod DIRENTS_PER_BLOCK cf = 0)
     \<and> find (entry_is cf f w) [0..<unat u] = None \<and> fr = free_index cf f (unat u)"

lemma lookup_at_block:
  assumes "lookup_at cf f w cnt u fr" and "u < cnt"
  shows "unat u < unat cnt" "unat cnt < 2 ^ 32" "unat u mod DIRENTS_PER_BLOCK cf = 0"
    "unat u = unat u div DIRENTS_PER_BLOCK cf * DIRENTS_PER_BLOCK cf"
proof -
  show "unat u < unat cnt" using assms(2) by (simp add: word_less_nat_alt)
  show "unat cnt < 2 ^ 32" using unsigned_less [of cnt, where ?'a = nat] by simp
  show "unat u mod DIRENTS_PER_BLOCK cf = 0" using assms by (auto simp: lookup_at_def)
  then show "unat u = unat u div DIRENTS_PER_BLOCK cf * DIRENTS_PER_BLOCK cf" by (metis add.right_neutral div_mult_mod_eq)
qed

lemma lookup_at_step:
  assumes at: "lookup_at cf f w cnt u fr" and le: "unat u + m \<le> unat cnt"
    and al: "unat u + m = unat cnt \<or> (unat u + m) mod DIRENTS_PER_BLOCK cf = 0"
    and none: "find (\<lambda>k. entry_is cf f w (unat u + k)) [0..<m] = None"
    and free: "fr' = (if fr \<noteq> DIR_INDEX_INVALID then fr
      else case find (\<lambda>k. entry_free cf f (unat u + k)) [0..<m] of None \<Rightarrow> DIR_INDEX_INVALID | Some k \<Rightarrow> u + of_nat k)"
    and v: "unat v = unat u + m"
  shows "lookup_at cf f w cnt v fr'"
proof -
  have "unat u + m < 2 ^ 32" using le unsigned_less [of cnt, where ?'a = nat] by simp
  then have "fr' = free_index cf f (unat v)" using free_index_next [of cf f u fr m] at free v by (simp add: lookup_at_def)
  moreover have "find (entry_is cf f w) [0..<unat v] = None"
    using at none by (simp add: v find_upt_next [of _ "unat u"] lookup_at_def)
  moreover have "v = cnt \<or> unat v mod DIRENTS_PER_BLOCK cf = 0" using al v by (auto intro: unsigned_word_eqI)
  ultimately show ?thesis using le v by (simp add: lookup_at_def word_le_nat_alt)
qed

lemma dirents_per_block: "conf_ok cf \<Longrightarrow> unat (DPB cf) = DIRENTS_PER_BLOCK cf"
proof (rule unat32)
  assume "conf_ok cf"
  moreover have "DIRENTS_PER_BLOCK cf \<le> REDCONF_BLOCK_SIZE cf" by (simp add: DIRENTS_PER_BLOCK_def)
  ultimately show "DIRENTS_PER_BLOCK cf < 2 ^ 32" using conf_ok_block_size [of cf] by simp
qed

lemma lookup_hole:
  assumes at: "lookup_at cf f w cnt u fr" and lt: "u < cnt" and conf: "conf_ok cf" and D: "0 < DIRENTS_PER_BLOCK cf"
    and free: "\<And>k. k < DIRENTS_PER_BLOCK cf \<Longrightarrow> entry_free cf f (unat u + k)"
    and fit: "unat u + DIRENTS_PER_BLOCK cf \<le> unat cnt"
  shows "lookup_at cf f w cnt (u + DPB cf) (if fr = DIR_INDEX_INVALID then u else fr)" "unat u < unat (u + DPB cf)"
proof -
  let ?D = "DIRENTS_PER_BLOCK cf"
  note b = lookup_at_block [OF at lt]
  have v: "unat (u + DPB cf) = unat u + ?D" using fit b(2) dirents_per_block [OF conf] by (simp add: unat_word_ariths)
  have "find (\<lambda>k. entry_free cf f (unat u + k)) [0..<?D] = Some 0" using D free [of 0] by (simp add: upt_rec)
  then show "lookup_at cf f w cnt (u + DPB cf) (if fr = DIR_INDEX_INVALID then u else fr)"
    using b(3) free by (intro lookup_at_step [OF at fit _ _ _ v]) (simp_all add: find_None_iff entry_is_def)
  show "unat u < unat (u + DPB cf)" using v D by simp
qed

text \<open>A block that is there.\<close>

lemma lookup_found:
  assumes at: "lookup_at cf f w cnt u fr" and lt: "u < cnt" and conf: "conf_ok cf" and D: "0 < DIRENTS_PER_BLOCK cf"
    and w: "text_ok w" "length w \<le> REDCONF_NAME_MAX cf" "unat n = length w"
    and p: "p = map f [unat u div DIRENTS_PER_BLOCK cf * REDCONF_BLOCK_SIZE cf
      ..<unat u div DIRENTS_PER_BLOCK cf * REDCONF_BLOCK_SIZE cf + REDCONF_BLOCK_SIZE cf]"
    and run: "lookup_block cf (Some (w @ rest)) n p u [0..<unat (min (DPB cf) (cnt - u))] fr = (hit, free')"
  shows "case hit of
      Some k \<Rightarrow> lookup_spec cf f w cnt (u + of_nat k, Some (dirent_number cf (dirent_inode cf p k)), free')
    | None \<Rightarrow> lookup_at cf f w cnt (u + min (DPB cf) (cnt - u)) free' \<and> unat u < unat (u + min (DPB cf) (cnt - u))"
proof -
  let ?D = "DIRENTS_PER_BLOCK cf" and ?m = "min (DPB cf) (cnt - u)"
  note b = lookup_at_block [OF at lt]
  have m: "unat ?m = min ?D (unat cnt - unat u)"
    using b(1) dirents_per_block [OF conf] by (simp add: unat_sub word_le_nat_alt min_def)
  have v: "unat (u + ?m) = unat u + unat ?m" using m b(1,2) by (simp add: unat_word_ariths)
  have "\<forall>k \<in> set [0..<unat ?m]. k < ?D \<and> unat u + k < 2 ^ 32 - 1" using m b(2) by auto
  note found = lookup_block_find [OF p w b(4) this run]
  show ?thesis
  proof (cases hit)
    case (Some k)
    have k: "k < unat ?m" "find (\<lambda>k. entry_is cf f w (unat u + k)) [0..<unat ?m] = Some k"
      using found Some find_upt_less by (auto dest: sym)
    have "find (entry_is cf f w) [0..<unat u + unat ?m] = Some (unat u + k)"
      unfolding find_upt_next [of _ "unat u"] using at k by (simp add: lookup_at_def)
    then have "find (entry_is cf f w) [0..<unat cnt] = Some (unat u + k)"
      by (rule find_upt_more) (use m b(1) in simp)
    moreover have "dirent_inode cf p k = entry_number cf f (unat u + k)"
      using dirent_inode_entry [OF _ p, of k] k m b(4) by simp
    moreover have "k < unat cnt - unat u" using k(1) m by simp
    then have "unat u + k < unat cnt" by linarith
    ultimately show ?thesis using Some by (simp add: lookup_spec_def)
  next
    case None
    have "unat u + unat ?m \<le> unat cnt" "unat u + unat ?m = unat cnt \<or> (unat u + unat ?m) mod ?D = 0"
      using m b(1,3) by (auto simp: min_def)
    from lookup_at_step [OF at this _ _ v] show ?thesis using found None v m D b(1) by simp
  qed
qed

context block_device
begin

lemma SeekAndRead_block:
  assumes ok: "pointers_ok cf" and dev: "device_errors (\<lambda>e. e \<noteq> RED_ENODATA) cf"
    and pl: "data_plain cf dbyte (snd x0) ib" and rd: "reading cf dbyte dsize env ib x0 x"
    and run: "RedInodeDataSeekAndRead cf blk x = (Inr u, (c, t))"
  shows "aabBuffer t ! the (pbData c) = map (file_byte cf dbyte (snd x0) ib)
    [unat blk * REDCONF_BLOCK_SIZE cf..<unat blk * REDCONF_BLOCK_SIZE cf + REDCONF_BLOCK_SIZE cf]"
proof -
  let ?b = "data_block cf dbyte (snd x0) ib (unat blk)" and ?p = "aabBuffer t ! the (pbData c)"
  note s = SeekAndRead_result [OF ok dev rd run, unfolded sum.case fst_conv snd_conv]
  then have rz: "reading cf dbyte dsize env ib x0 (c, t)" by blast
  from s obtain i where i: "pbData c = Some i" "length (aabBuffer t ! i) = REDCONF_BLOCK_SIZE cf"
    "aabBuffer t ! i = cache_view cf dbyte t (gbRedVolNum (snd x0)) ?b" "?b \<noteq> BLOCK_SPARSE" "?b \<noteq> BBLK_INVALID" by blast
  have v: "?p = cache_view cf dbyte (snd x0) (gbRedVolNum (snd x0)) ?b" "length ?p = REDCONF_BLOCK_SIZE cf"
    using i reading_view(1) [OF rz pl refl i(4,5)] by simp_all
  show ?thesis unfolding v(1) using v by (intro file_bytes_block i(4)) simp
qed

lemma lookup_blocks_result:
  assumes ok: "pointers_ok cf" and dev: "device_errors (\<lambda>e. e \<noteq> RED_ENODATA) cf"
    and pl: "data_plain cf dbyte (snd x0) ib" and D: "0 < DIRENTS_PER_BLOCK cf"
    and w: "text_ok w" "length w \<le> REDCONF_NAME_MAX cf" "unat n = length w"
    and tail: "unat cnt mod DIRENTS_PER_BLOCK cf \<noteq> 0 \<Longrightarrow>
      data_block cf dbyte (snd x0) ib (unat cnt div DIRENTS_PER_BLOCK cf) \<noteq> BLOCK_SPARSE"
  defines "f \<equiv> file_byte cf dbyte (snd x0) ib"
  shows "reading cf dbyte dsize env ib x0 x \<Longrightarrow> lookup_at cf f w cnt u fr \<Longrightarrow> unat cnt - unat u \<le> fuel \<Longrightarrow>
    lookup_blocks cf (Some (w @ rest)) n cnt fuel u fr x = (r, y) \<Longrightarrow>
    reading cf dbyte dsize env ib x0 y \<and> (case r of Inr res \<Rightarrow> lookup_spec cf f w cnt res | Inl e \<Rightarrow> True)"
proof (induction fuel arbitrary: u fr x)
  case 0
  then have "unat u = unat cnt" by (simp add: lookup_at_def word_le_nat_alt)
  then have "u = cnt" by (rule unsigned_word_eqI)
  then show ?case using 0 by (cases x) (auto simp: lookup_blocks.simps red_simps lookup_spec_def lookup_at_def)
next
  case (Suc fuel)
  have conf: "conf_ok cf" using ok by (simp add: pointers_ok_def)
  note at = Suc.prems(2) and run = Suc.prems(4) [unfolded lookup_blocks.simps [of _ _ _ _ "Suc fuel"]]
  show ?case
  proof (cases "u < cnt")
    case False
    then have "u = cnt" using at by (simp add: lookup_at_def)
    then show ?thesis using Suc.prems(1) at run by (cases x) (auto simp: red_simps lookup_spec_def lookup_at_def)
  next
    case lt: True
    note b = lookup_at_block [OF at lt]
    have less: "unat cnt - unat v \<le> fuel" if "unat u < unat v" for v using Suc.prems(3) that by linarith
    have blk: "unat (u div DPB cf) = unat u div DIRENTS_PER_BLOCK cf" by (simp add: unat_div dirents_per_block [OF conf])
    obtain q c t where sr: "RedInodeDataSeekAndRead cf (u div DPB cf) x = (q, (c, t))" by (metis surj_pair)
    note s = SeekAndRead_result [OF ok dev Suc.prems(1) sr, unfolded blk]
    then have rz: "reading cf dbyte dsize env ib x0 (c, t)" by blast
    show ?thesis
    proof (cases q)
      case (Inl e)
      show ?thesis
      proof (cases "e = RED_ENODATA")
        case False
        then have "r = Inl e \<and> y = (c, t)" using run lt sr Inl by (cases x) (auto simp: red_simps)
        then show ?thesis using rz by simp
      next
        case True
        have sparse: "data_block cf dbyte (snd x0) ib (unat u div DIRENTS_PER_BLOCK cf) = BLOCK_SPARSE" using s Inl True by simp
        have free: "entry_free cf f (unat u + k)" if "k < DIRENTS_PER_BLOCK cf" for k
          using hole_free [OF that _ sparse] conf_ok_block_size [OF conf] b(4) by (simp add: f_def)
        have fit: "unat u + DIRENTS_PER_BLOCK cf \<le> unat cnt"
          using tail sparse hole_tail [OF b(3,1)] by fastforce
        have "lookup_blocks cf (Some (w @ rest)) n cnt fuel (u + DPB cf) (if fr = DIR_INDEX_INVALID then u else fr) (c, t) = (r, y)"
          using run lt sr Inl True by (cases x) (simp add: red_simps)
        with lookup_hole [OF at lt conf D free fit] show ?thesis by (intro Suc.IH [OF rz _ less])
      qed
    next
      case (Inr g)
      obtain hit free' where lb: "lookup_block cf (Some (w @ rest)) n (aabBuffer t ! the (pbData c)) u
          [0..<unat (min (DPB cf) (cnt - u))] fr = (hit, free')" by fastforce
      note p = SeekAndRead_block [OF ok dev pl Suc.prems(1) sr [unfolded Inr], unfolded blk, folded f_def]
      note found = lookup_found [OF at lt conf D w p lb]
      show ?thesis
      proof (cases hit)
        case (Some k)
        then show ?thesis using run lt sr Inr lb found rz by (cases x) (auto simp: red_simps Let_def)
      next
        case None
        have "lookup_blocks cf (Some (w @ rest)) n cnt fuel (u + min (DPB cf) (cnt - u)) free' (c, t) = (r, y)"
          using run lt sr Inr lb None by (cases x) (simp add: red_simps Let_def)
        moreover from found have "lookup_at cf f w cnt (u + min (DPB cf) (cnt - u)) free'"
          "unat u < unat (u + min (DPB cf) (cnt - u))" unfolding None option.case by blast+
        ultimately show ?thesis by (intro Suc.IH [OF rz _ less])
      qed
    qed
  qed
qed

end

section \<open>Looking a name up\<close>

lemma caller_name_ends:
  assumes "RedNameLen (REDCONF_PATH_SEPARATOR cf) (Some nm) \<noteq> None" and "length nm < 2 ^ 32"
  shows "name_length cf (Some nm) = Some (of_nat (length (caller_name cf nm)))" "text_ok (caller_name cf nm)"
    "unat (of_nat (length (caller_name cf nm)) :: u32) = length (caller_name cf nm)" "\<exists>rest. nm = caller_name cf nm @ rest"
proof -
  obtain n where n: "namelen_scan (REDCONF_PATH_SEPARATOR cf) nm = Some n" using assms(1) by (auto simp: RedNameLen_def)
  obtain rest where w: "length (caller_name cf nm) = n" "text_ok (caller_name cf nm)" "nm = caller_name cf nm @ rest"
    using namelen_caller [OF n] by blast
  have "length nm = length (caller_name cf nm) + length rest" using arg_cong [OF w(3), of length] by (simp only: length_append)
  then have "length (caller_name cf nm) < 2 ^ 32" using assms(2) by linarith
  then show "unat (of_nat (length (caller_name cf nm)) :: u32) = length (caller_name cf nm)" by (rule unat32)
  show "name_length cf (Some nm) = Some (of_nat (length (caller_name cf nm)))"
    by (simp add: name_length_def RedNameLen_def n w(1))
  show "text_ok (caller_name cf nm)" "\<exists>rest. nm = caller_name cf nm @ rest" using w by blast+
qed

lemma lookup_rejects:
  assumes "CINODE_IS_MOUNTED cf c s" and "fDirectory c"
    and "name_length cf (Some nm) = Some (of_nat (length w))" and "w = [] \<or> REDCONF_NAME_MAX cf < length w"
    and un: "unat (of_nat (length w) :: u32) = length w"
  shows "RedDirEntryLookup cf (Some nm) old (c, s) = (Inl (if w = [] then RED_EINVAL else RED_ENAMETOOLONG), (c, s))"
proof -
  have "of_nat (length w) = (0 :: u32) \<longleftrightarrow> w = []" by (simp only: unat_eq_zero [symmetric] un length_0_conv)
  then show ?thesis using assms by (auto simp: RedDirEntryLookup_def red_simps)
qed

lemma lookup_runs:
  assumes "CINODE_IS_MOUNTED cf c s" and "fDirectory c"
    and "inode_size cf c s < INODE_SIZE_MAX cf" and "in_block cf (inode_size cf c s) mod DIRENT_SIZE cf = 0"
    and "name_length cf (Some nm) = Some (of_nat (length w))" and un: "unat (of_nat (length w) :: u32) = length w"
    and "\<not> (w = [] \<or> REDCONF_NAME_MAX cf < length w)"
    and lb: "lookup_blocks cf (Some nm) (of_nat (length w)) cnt (unat cnt) 0 DIR_INDEX_INVALID (c, s) = (r, y)"
    and cnt: "cnt = DirOffsetToEntryIndex cf (inode_size cf c s)"
  shows "RedDirEntryLookup cf (Some nm) old (c, s) = (case r of Inl e \<Rightarrow> (Inl e, y) | Inr (i, found, fr) \<Rightarrow>
    (Inr (if i = cnt then (Some RED_ENOENT, if fr = DIR_INDEX_INVALID \<and> cnt < DIRENTS_MAX cf then cnt else fr, old)
          else (None, i, case found of Some k \<Rightarrow> k | None \<Rightarrow> old)), y))"
proof -
  have "of_nat (length w) = (0 :: u32) \<longleftrightarrow> w = []" by (simp only: unat_eq_zero [symmetric] un length_0_conv)
  then show ?thesis
    using assms
    by (cases r) (auto simp: RedDirEntryLookup_def red_simps assert_offset_def REDASSERT_def Let_def split: prod.splits)
qed

lemma lookup_spec_result:
  assumes "lookup_spec cf f w cnt (i, found, fr)"
  shows "case find (entry_is cf f w) [0..<unat cnt] of
      Some j \<Rightarrow> i \<noteq> cnt \<and> i = of_nat j \<and> found = Some (dirent_number cf (entry_number cf f j))
    | None \<Rightarrow> i = cnt \<and> (if fr = DIR_INDEX_INVALID \<and> cnt < DIRENTS_MAX cf then cnt else fr)
        = (case find (entry_free cf f) [0..<unat cnt] of Some i \<Rightarrow> of_nat i
           | None \<Rightarrow> if unat cnt < unat (DIRENTS_MAX cf) then of_nat (unat cnt) else DIR_INDEX_INVALID)"
proof -
  have cnt: "unat cnt < 2 ^ 32" using unsigned_less [of cnt, where ?'a = nat] by simp
  show ?thesis
  proof (cases "find (entry_is cf f w) [0..<unat cnt]")
    case None
    then show ?thesis
      using assms free_valid [OF _ cnt, of "entry_free cf f"]
      by (auto simp: lookup_spec_def free_index_def word_less_nat_alt split: option.splits)
  next
    case (Some j)
    then have j: "j < unat cnt" "i = of_nat j" "found = Some (dirent_number cf (entry_number cf f j))"
      using assms by (simp_all add: lookup_spec_def)
    have "unat i = j" unfolding j(2) by (rule unat32) (use j(1) cnt in simp)
    then show ?thesis using j Some by auto
  qed
qed

text \<open>
  C17. \<open>RedDirEntryLookup\<close> implements the search in the sequence of the entries. It finds the first entry in
  use that has the name of the caller, and returns its index and its inode number; when there is
  none it fails with \<open>RED_ENOENT\<close>, and the index is that of the first free entry, or of the entry
  behind the last one while the directory can grow. An empty name and one that is too long are
  rejected, and whatever the result is the directory and the rest of the store do not change. The
  directory must not end in a block that is a hole and partly used, which the code never creates.
\<close>
theorem lookup_finds_entry:
  assumes "block_device cf dbyte dsize" and "pointers_ok cf" and "device_errors (\<lambda>e. e \<noteq> RED_ENODATA) cf"
    and "inode_bufs cf dbyte dsize env ib (c, s)" and "coord_ok cf (node_at cf dbyte s) ib c"
    and "CINODE_IS_MOUNTED cf c s" and "data_plain cf dbyte s ib" and "fDirectory c"
    and "DIRENT_SIZE cf \<le> REDCONF_BLOCK_SIZE cf" and "inode_size cf c s < INODE_SIZE_MAX cf"
    and "in_block cf (inode_size cf c s) mod DIRENT_SIZE cf = 0"
    and "cnt = unat (DirOffsetToEntryIndex cf (inode_size cf c s))"
    and "cnt mod DIRENTS_PER_BLOCK cf \<noteq> 0 \<longrightarrow> data_block cf dbyte s ib (cnt div DIRENTS_PER_BLOCK cf) \<noteq> BLOCK_SPARSE"
    and "RedNameLen (REDCONF_PATH_SEPARATOR cf) (Some nm) \<noteq> None" and "length nm < 2 ^ 32"
  shows "let f = file_byte cf dbyte s ib; w = caller_name cf nm in
    case RedDirEntryLookup cf (Some nm) old (c, s) of
      (Inr (ret, idx, ino), y) \<Rightarrow>
        w \<noteq> [] \<and> length w \<le> REDCONF_NAME_MAX cf \<and> reading cf dbyte dsize env ib (c, s) y
        \<and> (case find (entry_is cf f w) [0..<cnt] of
             Some i \<Rightarrow> ret = None \<and> idx = of_nat i \<and> ino = dirent_number cf (entry_number cf f i)
           | None \<Rightarrow> ret = Some RED_ENOENT \<and> ino = old
               \<and> idx = (case find (entry_free cf f) [0..<cnt] of
                     Some i \<Rightarrow> of_nat i
                   | None \<Rightarrow> if cnt < unat (DIRENTS_MAX cf) then of_nat cnt else DIR_INDEX_INVALID))
    | (Inl e, y) \<Rightarrow>
        reading cf dbyte dsize env ib (c, s) y \<and> (w = [] \<longrightarrow> e = RED_EINVAL)
        \<and> (length w > REDCONF_NAME_MAX cf \<longrightarrow> e = RED_ENAMETOOLONG)"
proof -
  let ?f = "file_byte cf dbyte s ib" and ?w = "caller_name cf nm"
  let ?c = "DirOffsetToEntryIndex cf (inode_size cf c s)"
  have rd: "reading cf dbyte dsize env ib (c, s) (c, s)" using assms(4-6) by (simp add: reading_def)
  have cnt32: "cnt < 2 ^ 32" unfolding assms(12) using unsigned_less [of ?c, where ?'a = nat] by simp
  have D: "0 < DIRENTS_PER_BLOCK cf" using assms(9) by (simp add: DIRENTS_PER_BLOCK_def DIRENT_SIZE_def div_greater_zero_iff)
  note w = caller_name_ends [OF assms(14,15)]
  show ?thesis
  proof (cases "?w = [] \<or> REDCONF_NAME_MAX cf < length ?w")
    case True
    then show ?thesis using rd lookup_rejects [OF assms(6,8) w(1) True w(3), of old] by auto
  next
    case False
    obtain rest where nm: "nm = ?w @ rest" using w(4) by blast
    obtain r y where lb: "lookup_blocks cf (Some nm) (of_nat (length ?w)) ?c (unat ?c) 0 DIR_INDEX_INVALID (c, s) = (r, y)"
      by (metis surj_pair)
    have pl: "data_plain cf dbyte (snd (c, s)) ib" using assms(7) by simp
    have le: "length ?w \<le> REDCONF_NAME_MAX cf" using False by simp
    have at: "lookup_at cf ?f ?w ?c 0 DIR_INDEX_INVALID" by (simp add: lookup_at_def free_index_def)
    have res: "reading cf dbyte dsize env ib (c, s) y \<and> (case r of Inr res \<Rightarrow> lookup_spec cf ?f ?w ?c res | Inl e \<Rightarrow> True)"
      using block_device.lookup_blocks_result [OF assms(1-3) pl D w(2) le w(3) _ rd _ _
          lb [unfolded arg_cong [OF nm, of Some]], unfolded snd_conv] at assms(12,13) by simp
    note run = lookup_runs [OF assms(6,8,10,11) w(1,3) False lb refl, of old]
    show ?thesis
    proof (cases r)
      case (Inl e)
      then show ?thesis using run res False by auto
    next
      case (Inr a)
      obtain i found fr where a: "a = (i, found, fr)" by (cases a)
      have "lookup_spec cf ?f ?w ?c (i, found, fr)" using res Inr a by simp
      from lookup_spec_result [OF this, folded assms(12)] show ?thesis
        using run res False Inr a assms(12) by (auto split: option.splits)
    qed
  qed
qed

text \<open>A directory with a free entry and one for the name \<^verbatim>\<open>lib\<close> and inode 2.\<close>

definition sample_dir_data :: bytes where
  "sample_dir_data = replicate 32 0 @ [2, 0, 0, 0, 108, 105, 98] @ replicate 217 0"

lemma sample_dir_kind [simp]: "fDirectory (sample_inode dir) = dir"
  by (simp add: sample_inode_def)

lemma sample_dir_length: "length sample_dir_data = 256"
  by (simp add: sample_dir_data_def)

lemma sample_dir_sizes: "REDCONF_NAME_MAX sample_cf = 28" "DIRENT_SIZE sample_cf = 32" "DIRENTS_PER_BLOCK sample_cf = 8"
  "REDCONF_PATH_SEPARATOR sample_cf = 47" "P2 sample_cf = 8"
  by (simp_all add: DIRENTS_PER_BLOCK_def DIRENT_SIZE_def DIRENT_PADDING_def BLOCK_SIZE_P2_def) (simp_all add: sample_defs)

lemma sample_dir_count: "in_block sample_cf 64 = 64" "DirOffsetToEntryIndex sample_cf 64 = 2"
  by (simp_all add: DirOffsetToEntryIndex_def in_block_def sample_dir_sizes)

lemma sample_dir_max: "64 < INODE_SIZE_MAX sample_cf"
  by (simp add: INODE_SIZE_MAX_def INODE_DATA_BLOCKS_def sample_entries INODE_INDIR_BLOCKS_def INODE_DINDIR_BLOCKS_def
      DINDIR_DATA_BLOCKS_def INDIR_ENTRIES_def INDIR_HEADER_SIZE_def NODEHEADER_SIZE_def sample_inode_flags)

lemma sample_dir_file:
  "k < 256 \<Longrightarrow> file_byte sample_cf ram_byte (sample_holds 64 sample_dir_data) 3 k = sample_dir_data ! k"
  by (simp add: file_byte_def sample_data_block sample_view BLOCK_SPARSE_def)

lemma sample_dir_entries:
  defines "f \<equiv> file_byte sample_cf ram_byte (sample_holds 64 sample_dir_data) 3"
  shows "dirent_bytes sample_cf f 0 = replicate 32 0" "dirent_bytes sample_cf f 1 = [2, 0, 0, 0, 108, 105, 98] @ replicate 25 0"
proof -
  have g: "f k = sample_dir_data ! k" if "k < 256" for k using that by (simp add: f_def sample_dir_file)
  show "dirent_bytes sample_cf f 0 = replicate 32 0"
    by (rule nth_equalityI)
      (simp_all add: dirent_bytes_def dirent_offset_def sample_dir_sizes g, simp_all add: sample_dir_data_def nth_append nth_Cons')
  show "dirent_bytes sample_cf f 1 = [2, 0, 0, 0, 108, 105, 98] @ replicate 25 0"
    by (rule nth_equalityI)
      (simp_all add: dirent_bytes_def dirent_offset_def sample_dir_sizes g, simp_all add: sample_dir_data_def nth_append nth_Cons')
qed

lemma sample_dir_found:
  defines "f \<equiv> file_byte sample_cf ram_byte (sample_holds 64 sample_dir_data) 3"
  shows "find (entry_is sample_cf f [108, 105, 98]) [0..<2] = Some 1" "entry_number sample_cf f 1 = 2"
proof -
  have n: "entry_number sample_cf f 0 = 0" "entry_number sample_cf f 1 = 2"
    unfolding entry_number_def f_def sample_dir_entries by (simp_all add: ld_zeros) (simp add: ld_def dec_def)
  have "entry_name sample_cf f 1 = [108, 105, 98]"
    unfolding entry_name_def f_def sample_dir_entries by (simp add: sample_dir_sizes)
  then show "find (entry_is sample_cf f [108, 105, 98]) [0..<2] = Some 1" "entry_number sample_cf f 1 = 2"
    using n by (simp_all add: upt_rec entry_is_def entry_free_def INODE_INVALID_def)
qed

lemma sample_lookup:
  "\<exists>a y. RedDirEntryLookup sample_cf (Some [108, 105, 98, 47]) 0 (sample_inode True, sample_holds 64 sample_dir_data) = (Inr a, y)"
proof -
  obtain y where y: "RedInodeDataSeekAndRead sample_cf 0 (sample_inode True, sample_holds 64 sample_dir_data) = (Inr (), y)"
    using sample_seek_read [OF sample_dir_length] by blast
  obtain c s where cs: "y = (c, s)" by (cases y)
  have two: "(2 :: nat) = Suc 1" by simp
  have more: "lookup_blocks sample_cf nm n 2 k 2 fr x = (Inr (2, None, fr), x)" for nm n k fr and x :: "CINODE \<times> ramdisk redstate"
    by (cases x) (simp add: lookup_blocks.simps red_simps)
  have "\<exists>a z. lookup_blocks sample_cf nm n 2 2 0 fr (sample_inode True, sample_holds 64 sample_dir_data) = (Inr a, z)" for nm n fr
  proof (cases "lookup_block sample_cf nm n (aabBuffer s ! the (pbData c)) 0 [0..<2] fr")
    case (Pair hit free)
    then show ?thesis
      unfolding lookup_blocks.simps [of _ _ _ _ 2] unfolding two
      using y cs more Pair by (cases hit) (simp_all add: red_simps sample_dir_sizes Let_def)
  qed
  then obtain i found fr z where "lookup_blocks sample_cf (Some [108, 105, 98, 47]) 3 2 2 0 DIR_INDEX_INVALID
      (sample_inode True, sample_holds 64 sample_dir_data) = (Inr (i, found, fr), z)" by (metis prod.exhaust)
  moreover have "name_length sample_cf (Some [108, 105, 98, 47]) = Some 3"
    by (simp add: name_length_def RedNameLen_def sample_dir_sizes)
  ultimately show ?thesis
    using sample_ino_mounted
    by (simp add: RedDirEntryLookup_def red_simps assert_offset_def sample_ino_entry sample_dir_count sample_dir_sizes sample_dir_max
        REDASSERT_def)
qed

lemma lookup_finds_entry_witness:
  "\<exists>y. RedDirEntryLookup sample_cf (Some [108, 105, 98, 47]) 0 (sample_inode True, sample_holds 64 sample_dir_data)
     = (Inr (None, 1, 2), y)"
proof -
  obtain ret idx ino y where run: "RedDirEntryLookup sample_cf (Some [108, 105, 98, 47]) 0
      (sample_inode True, sample_holds 64 sample_dir_data) = (Inr (ret, idx, ino), y)"
    using sample_lookup by (metis prod.exhaust)
  have w: "caller_name sample_cf [108, 105, 98, 47] = [108, 105, 98]" by (simp add: caller_name_def sample_dir_sizes)
  let ?x = "sample_inode True" and ?s = "sample_holds 64 sample_dir_data"
  have p: "DIRENT_SIZE sample_cf \<le> REDCONF_BLOCK_SIZE sample_cf" "inode_size sample_cf ?x ?s < INODE_SIZE_MAX sample_cf"
    "in_block sample_cf (inode_size sample_cf ?x ?s) mod DIRENT_SIZE sample_cf = 0"
    "2 = unat (DirOffsetToEntryIndex sample_cf (inode_size sample_cf ?x ?s))"
    "RedNameLen (REDCONF_PATH_SEPARATOR sample_cf) (Some [108, 105, 98, 47]) \<noteq> None" "length [108, 105, 98, 47 :: u8] < 2 ^ 32"
    by (simp_all add: sample_ino_entry sample_dir_count sample_dir_sizes sample_dir_max RedNameLen_def)
  have last: "2 mod DIRENTS_PER_BLOCK sample_cf \<noteq> 0 \<longrightarrow>
      data_block sample_cf ram_byte ?s 3 (2 div DIRENTS_PER_BLOCK sample_cf) \<noteq> BLOCK_SPARSE"
    by (simp add: sample_dir_sizes sample_data_block BLOCK_SPARSE_def)
  have dir: "fDirectory ?x" by simp
  note found = lookup_finds_entry [OF sample_device sample_pointers sample_errors sample_ino_bufs [OF sample_dir_length]
      sample_ino_coord sample_ino_mounted sample_plain dir p(1-4) last p(5,6), of 0, unfolded w Let_def run prod.case sum.case
      sample_dir_found option.case]
  then have "ret = None \<and> idx = 1 \<and> ino = 2" by (simp add: dirent_number_def)
  then show ?thesis using run by simp
qed

end
