(* ===== verification/Cli.thy ===== *)
theory Cli
  imports Prelude
begin

text \<open>
  The command line interpreter (\<^verbatim>\<open>FreeRTOS-Plus-CLI/FreeRTOS_CLI.c\<close>): the registered commands as a
  list linked through memory, the dispatch of a command string, the help command and the access to
  the parameters. A C string is the list of its bytes; the list ends, or has a 0, where the string
  has its terminator, and a pointer into a string is the rest of the list. The interpreter functions
  of the application are an argument of the definitions. \<^verbatim>\<open>BaseType_t\<close> has the 32 bits of the ports
  the demos are built for.
\<close>

section \<open>C strings\<close>

definition cur :: "bytes \<Rightarrow> u8" where
  "cur s = (case s of [] \<Rightarrow> 0 | c # _ \<Rightarrow> c)"

lemma cur_simps [simp]: "cur [] = 0" "cur (c # cs) = c"
  by (simp_all add: cur_def)

definition c_strlen :: "bytes \<Rightarrow> nat" where
  "c_strlen s = length (takeWhile (\<lambda>c. c \<noteq> 0) s)"

fun c_strncmp :: "bytes \<Rightarrow> bytes \<Rightarrow> nat \<Rightarrow> int" where
  "c_strncmp a b 0 = 0"
| "c_strncmp a b (Suc n) =
     (if cur a \<noteq> cur b then uint (cur a) - uint (cur b)
      else if cur a = 0 then 0
      else c_strncmp (tl a) (tl b) n)"

text \<open>The copy is filled up with zeros; it has no terminator when the source is not shorter than \<open>n\<close>.\<close>

definition c_strncpy :: "bytes \<Rightarrow> bytes \<Rightarrow> nat \<Rightarrow> bytes" where
  "c_strncpy dst src n = take n (takeWhile (\<lambda>c. c \<noteq> 0) src @ replicate n 0) @ drop n dst"

definition text_bytes :: "string \<Rightarrow> bytes" where
  "text_bytes = List.map of_char"

abbreviation SPACE :: u8 where "SPACE \<equiv> 32"
abbreviation CRLF :: bytes where "CRLF \<equiv> [13, 10]"

section \<open>The state\<close>

type_synonym basetype = u32

definition pdFALSE :: basetype where "pdFALSE = 0"
definition pdTRUE :: basetype where "pdTRUE = 1"
definition pdFAIL :: basetype where "pdFAIL = pdFALSE"
definition pdPASS :: basetype where "pdPASS = pdTRUE"

text \<open>An interpreter function is the one of this file or one of the application's.\<close>

datatype 'f callback = HelpCommand | Application 'f

record 'f CLI_Command_Definition =
  pcCommand :: bytes
  pcHelpString :: bytes
  pxCommandInterpreter :: "'f callback"
  cExpectedNumberOfParameters :: u8

record 'f CLI_Definition_List_Item =
  pxCommandLineDefinition :: "'f CLI_Command_Definition"
  pxNext :: "nat option"

text \<open>
  The memory of the list items by address, and the static variables: the last item, the command in
  progress and the next command of the help listing.
\<close>

record 'f cli =
  item :: "nat \<Rightarrow> 'f CLI_Definition_List_Item"
  pxLastCommandInList :: nat
  pxCommand :: "nat option"
  pxHelp :: "nat option"

text \<open>The address of \<^verbatim>\<open>xRegisteredCommands\<close>.\<close>

definition xRegisteredCommands :: nat where "xRegisteredCommands = 0"

definition xHelpCommand :: "'f CLI_Command_Definition" where
  "xHelpCommand = \<lparr>pcCommand = text_bytes ''help'',
     pcHelpString = CRLF @ text_bytes ''help:'' @ CRLF @ text_bytes '' Lists all the registered commands'' @ CRLF @ CRLF,
     pxCommandInterpreter = HelpCommand, cExpectedNumberOfParameters = 0\<rparr>"

definition cli0 :: "'f cli" where
  "cli0 = \<lparr>item = (\<lambda>_. \<lparr>pxCommandLineDefinition = xHelpCommand, pxNext = None\<rparr>),
     pxLastCommandInList = xRegisteredCommands, pxCommand = None, pxHelp = None\<rparr>"

section \<open>Registering\<close>

definition prvRegisterCommand :: "'f CLI_Command_Definition \<Rightarrow> nat \<Rightarrow> 'f cli \<Rightarrow> 'f cli" where
  "prvRegisterCommand cmd a st =
     (let m1 = (item st)(a := \<lparr>pxCommandLineDefinition = cmd, pxNext = None\<rparr>);
          lst = pxLastCommandInList st;
          m2 = m1(lst := (m1 lst)\<lparr>pxNext := Some a\<rparr>)
      in st\<lparr>item := m2, pxLastCommandInList := a\<rparr>)"

text \<open>\<open>mem\<close> is what \<^verbatim>\<open>pvPortMalloc\<close> returns.\<close>

definition FreeRTOS_CLIRegisterCommand ::
  "'f CLI_Command_Definition \<Rightarrow> nat option \<Rightarrow> 'f cli \<Rightarrow> basetype \<times> 'f cli" where
  "FreeRTOS_CLIRegisterCommand cmd mem st =
     (case mem of None \<Rightarrow> (pdFAIL, st) | Some a \<Rightarrow> (pdPASS, prvRegisterCommand cmd a st))"

definition FreeRTOS_CLIRegisterCommandStatic ::
  "'f CLI_Command_Definition \<Rightarrow> nat \<Rightarrow> 'f cli \<Rightarrow> basetype \<times> 'f cli" where
  "FreeRTOS_CLIRegisterCommandStatic cmd a st = (pdPASS, prvRegisterCommand cmd a st)"

section \<open>The parameters\<close>

fun count_params :: "bytes \<Rightarrow> u8 \<Rightarrow> bool \<Rightarrow> u8 \<times> bool" where
  "count_params [] n sp = (n, sp)"
| "count_params (c # cs) n sp =
     (if c = 0 then (n, sp)
      else if c = SPACE then (if \<not> sp then count_params cs (n + 1) True else count_params cs n sp)
      else count_params cs n False)"

text \<open>The counter is an \<^verbatim>\<open>int8_t\<close>.\<close>

definition prvGetNumberOfParameters :: "bytes \<Rightarrow> u8" where
  "prvGetNumberOfParameters s =
     (case count_params s 0 False of (n, sp) \<Rightarrow> if sp then n - 1 else n)"

fun skip_word :: "bytes \<Rightarrow> bytes" where
  "skip_word [] = []"
| "skip_word (c # cs) = (if c \<noteq> 0 \<and> c \<noteq> SPACE then skip_word cs else c # cs)"

fun skip_spaces :: "bytes \<Rightarrow> bytes" where
  "skip_spaces [] = []"
| "skip_spaces (c # cs) = (if c \<noteq> 0 \<and> c = SPACE then skip_spaces cs else c # cs)"

fun word_len :: "bytes \<Rightarrow> basetype \<Rightarrow> basetype" where
  "word_len [] n = n"
| "word_len (c # cs) n = (if c \<noteq> 0 \<and> c \<noteq> SPACE then word_len cs (n + 1) else n)"

lemma unat_found_less: "unat (found + 1) = Suc (unat found)" if "found < wanted" for found wanted :: u32
proof -
  have "Suc (unat found) < 2 ^ LENGTH(32)"
    using that unsigned_less [of wanted, where ?'a = nat] by (simp add: word_less_nat_alt)
  then show ?thesis by (simp add: unat_word_ariths)
qed

text \<open>Result: the start of the parameter and its length.\<close>

function get_param :: "bytes \<Rightarrow> u32 \<Rightarrow> u32 \<Rightarrow> bytes option \<times> basetype" where
  "get_param s found wanted =
     (if found < wanted then
        let s' = skip_spaces (skip_word s) in
        if cur s' \<noteq> 0 then
          let found' = found + 1 in
          if found' = wanted then
            (let len = word_len s' 0 in (if len = 0 then None else Some s', len))
          else get_param s' found' wanted
        else (None, 0)
      else (None, 0))"
  by pat_completeness auto

termination
  by (relation "measure (\<lambda>(s, found, wanted). unat wanted - unat found)") (simp_all add: unat_found_less word_less_nat_alt diff_less_mono2)

declare get_param.simps [simp del]

definition FreeRTOS_CLIGetParameter :: "bytes \<Rightarrow> u32 \<Rightarrow> bytes option \<times> basetype" where
  "FreeRTOS_CLIGetParameter s uxWantedParameter = get_param s 0 uxWantedParameter"

section \<open>Processing a command\<close>

definition prvHelpCommand :: "bytes \<Rightarrow> nat \<Rightarrow> 'f cli \<Rightarrow> basetype \<times> bytes \<times> 'f cli" where
  "prvHelpCommand buf n st =
     (let p = (case pxHelp st of None \<Rightarrow> xRegisteredCommands | Some p \<Rightarrow> p);
          nxt = pxNext (item st p)
      in (if nxt = None then pdFALSE else pdTRUE,
          c_strncpy buf (pcHelpString (pxCommandLineDefinition (item st p))) n, st\<lparr>pxHelp := nxt\<rparr>))"

definition command_matches :: "bytes \<Rightarrow> bytes \<Rightarrow> bool" where
  "command_matches input cmd \<longleftrightarrow>
     c_strncmp input cmd (c_strlen cmd) = 0
     \<and> (cur (drop (c_strlen cmd) input) = SPACE \<or> cur (drop (c_strlen cmd) input) = 0)"

definition params_match :: "bytes \<Rightarrow> 'f CLI_Command_Definition \<Rightarrow> bool" where
  "params_match input cmd \<longleftrightarrow>
     (0 \<le> sint (cExpectedNumberOfParameters cmd) \<longrightarrow>
      prvGetNumberOfParameters input = cExpectedNumberOfParameters cmd)"

text \<open>
  The search through the list. A list that has become cyclic has no end, so the loop may not return.
  Result: the item and whether the number of parameters is right.
\<close>

partial_function (option) find_command :: "'f cli \<Rightarrow> bytes \<Rightarrow> nat option \<Rightarrow> (nat option \<times> bool) option" where
  "find_command st input p =
     (case p of
        None \<Rightarrow> Some (None, True)
      | Some a \<Rightarrow>
          let cmd = pxCommandLineDefinition (item st a) in
          if command_matches input (pcCommand cmd) then Some (Some a, params_match input cmd)
          else find_command st input (pxNext (item st a)))"

definition msg_params :: bytes where
  "msg_params =
     text_bytes ''Incorrect command parameter(s).  Enter \"help\" to view a list of available commands.'' @ CRLF @ CRLF"

definition msg_unknown :: bytes where
  "msg_unknown =
     text_bytes ''Command not recognised.  Enter 'help' to view a list of available commands.'' @ CRLF @ CRLF"

text \<open>
  The functions of the application may use the interpreter's state, for example to register a
  command, and their own.
\<close>

type_synonym ('f, 'a) interpreter =
  "'f \<Rightarrow> bytes \<Rightarrow> nat \<Rightarrow> bytes \<Rightarrow> 'f cli \<times> 'a \<Rightarrow> basetype \<times> bytes \<times> 'f cli \<times> 'a"

definition run_callback ::
  "('f, 'a) interpreter \<Rightarrow> 'f callback \<Rightarrow> bytes \<Rightarrow> nat \<Rightarrow> bytes \<Rightarrow> 'f cli \<times> 'a \<Rightarrow> basetype \<times> bytes \<times> 'f cli \<times> 'a"
where
  "run_callback app f buf n input w =
     (case f of
        HelpCommand \<Rightarrow> (case prvHelpCommand buf n (fst w) of (r, b, st) \<Rightarrow> (r, b, st, snd w))
      | Application g \<Rightarrow> app g buf n input w)"

definition dispatch ::
  "('f, 'a) interpreter \<Rightarrow> bytes \<Rightarrow> bytes \<Rightarrow> nat \<Rightarrow> nat option \<times> bool \<Rightarrow> 'f cli \<times> 'a \<Rightarrow> basetype \<times> bytes \<times> 'f cli \<times> 'a"
where
  "dispatch app input buf n found w =
     (case found of
        (None, _) \<Rightarrow> (pdFALSE, c_strncpy buf msg_unknown n, (fst w)\<lparr>pxCommand := None\<rparr>, snd w)
      | (Some p, ok) \<Rightarrow>
          if \<not> ok then (pdFALSE, c_strncpy buf msg_params n, (fst w)\<lparr>pxCommand := None\<rparr>, snd w)
          else
            case run_callback app (pxCommandInterpreter (pxCommandLineDefinition (item (fst w) p))) buf n input
                   ((fst w)\<lparr>pxCommand := Some p\<rparr>, snd w) of
              (r, b, st, x) \<Rightarrow> (r, b, if r = pdFALSE then st\<lparr>pxCommand := None\<rparr> else st, x))"

definition FreeRTOS_CLIProcessCommand ::
  "('f, 'a) interpreter \<Rightarrow> bytes \<Rightarrow> bytes \<Rightarrow> nat \<Rightarrow> 'f cli \<times> 'a \<Rightarrow> (basetype \<times> bytes \<times> 'f cli \<times> 'a) option" where
  "FreeRTOS_CLIProcessCommand app pcCommandInput buf n w =
     map_option (\<lambda>found. dispatch app pcCommandInput buf n found w)
       (case pxCommand (fst w) of
          None \<Rightarrow> find_command (fst w) pcCommandInput (Some xRegisteredCommands)
        | Some p \<Rightarrow> Some (Some p, True))"

end
