(* ===== verification/CliCorrect.thy ===== *)
theory CliCorrect
  imports Cli "HOL-Library.Sublist"
begin

text \<open>
  The command line interpreter against its specification: the words of a command string, the
  sequence of the registered commands, and the listing of the help strings.
\<close>

section \<open>The words of a string\<close>

fun fields :: "bytes \<Rightarrow> bytes list" where
  "fields [] = [[]]"
| "fields (c # cs) =
     (if c = 0 then [[]]
      else if c = SPACE then [] # fields cs
      else (c # hd (fields cs)) # tl (fields cs))"

definition words :: "bytes \<Rightarrow> bytes list" where
  "words s = List.filter (\<lambda>w. w \<noteq> []) (fields s)"

abbreviation in_word :: "u8 \<Rightarrow> bool" where
  "in_word c \<equiv> c \<noteq> 0 \<and> c \<noteq> SPACE"

lemma fields_not_Nil [simp]: "fields s \<noteq> []"
  by (induction s) auto

lemma fields_unfold:
  "fields s = takeWhile in_word s # (if cur (skip_word s) = 0 then [] else fields (tl (skip_word s)))"
  by (induction s) auto

lemma words_Nil [simp]: "words [] = []"
  by (simp add: words_def)

lemma words_0 [simp]: "words (0 # s) = []"
  by (simp add: words_def)

lemma words_SPACE [simp]: "words (SPACE # s) = words s"
  by (simp add: words_def)

lemma skip_word_cases: "skip_word s = [] \<or> cur (skip_word s) = 0 \<or> (\<exists>t. skip_word s = SPACE # t)"
  by (induction s) auto

lemma words_skip_word:
  "words s = (if takeWhile in_word s = [] then words (skip_word s) else takeWhile in_word s # words (skip_word s))"
proof -
  have "words (skip_word s) = (if cur (skip_word s) = 0 then [] else words (tl (skip_word s)))"
    using skip_word_cases [of s] by (cases "skip_word s") auto
  then show ?thesis
    by (subst words_def, subst fields_unfold) (simp add: words_def)
qed

lemma words_skip_spaces [simp]: "words (skip_spaces s) = words s"
  by (induction s) auto

lemma skip_spaces_cur: "cur (skip_spaces s) \<noteq> SPACE"
  by (induction s) auto

lemma word_start: "cur (skip_spaces s) \<noteq> 0 \<Longrightarrow> takeWhile in_word (skip_spaces s) \<noteq> []"
  using skip_spaces_cur [of s] by (cases "skip_spaces s") auto

lemma no_word: "cur (skip_spaces s) = 0 \<Longrightarrow> words s = []"
  using words_skip_spaces [of s] by (cases "skip_spaces s") auto

lemma words_cons:
  "cur (skip_spaces s) \<noteq> 0 \<Longrightarrow>
   words s = takeWhile in_word (skip_spaces s) # words (skip_spaces (skip_word (skip_spaces s)))"
  using words_skip_word [of "skip_spaces s"] word_start [of s] by simp

lemma word_len_eq: "word_len s n = n + of_nat (length (takeWhile in_word s))"
  by (induction s arbitrary: n) auto

lemma skip_word_suffix: "\<exists>p. s = p @ skip_word s"
  by (induction s) (auto intro: exI [of _ "_ # _"])

lemma skip_spaces_suffix: "\<exists>p. s = p @ skip_spaces s"
  by (induction s) (auto intro: exI [of _ "_ # _"])

section \<open>The parameters\<close>

text \<open>The parameter is the word \<open>wanted - found\<close> behind the one at \<open>s\<close>.\<close>

lemma get_param_nth:
  assumes "found < wanted" and "length s < 2 ^ 32"
  shows "case get_param s found wanted of
      (Some p, len) \<Rightarrow> unat wanted - unat found - 1 < length (words (skip_word s))
        \<and> take (unat len) p = words (skip_word s) ! (unat wanted - unat found - 1) \<and> suffix p s
    | (None, len) \<Rightarrow> len = 0 \<and> length (words (skip_word s)) \<le> unat wanted - unat found - 1"
  using assms
proof (induction s found wanted rule: get_param.induct)
  case (1 s found wanted)
  define s' where "s' = skip_spaces (skip_word s)"
  have suf: "suffix s' s"
    unfolding s'_def suffix_def using skip_word_suffix [of s] skip_spaces_suffix [of "skip_word s"] by (metis append.assoc)
  then have len: "length s' < 2 ^ 32" using "1.prems"(2) by (meson suffix_length_le le_less_trans)
  have wanted: "unat found < unat wanted" using "1.prems"(1) by (simp add: word_less_nat_alt)
  note suc = unat_found_less [OF "1.prems"(1)]
  note unfolds = get_param.simps [of s found wanted] s'_def [symmetric]
  show ?case
  proof (cases "cur s' = 0")
    case True
    then show ?thesis using "1.prems"(1) no_word [of "skip_word s"] by (simp add: unfolds)
  next
    case False
    let ?w = "takeWhile in_word s'"
    have ws: "words (skip_word s) = ?w # words (skip_word s')"
      using words_cons [of "skip_word s"] False by (simp add: s'_def)
    have w: "?w \<noteq> []" "length ?w < 2 ^ 32"
      using word_start [of "skip_word s"] False len length_takeWhile_le [of in_word s'] unfolding s'_def by (blast, linarith)
    show ?thesis
    proof (cases "found + 1 = wanted")
      case True
      then have "unat wanted - unat found - 1 = 0" using suc by auto
      moreover have l: "unat (of_nat (length ?w) :: u32) = length ?w"
        using w(2) by (simp add: unat_of_nat)
      moreover have "(of_nat (length ?w) :: u32) \<noteq> 0"
      proof
        assume "(of_nat (length ?w) :: u32) = 0"
        from arg_cong [OF this, of unat] w(1) show False unfolding l unsigned_0 length_0_conv by contradiction
      qed
      moreover have "take (length ?w) s' = ?w" by (rule takeWhile_eq_take [symmetric])
      ultimately show ?thesis
        using "1.prems"(1) True False suf by (simp add: unfolds word_len_eq ws Let_def)
    next
      case neq: False
      then have lt: "found + 1 < wanted" using wanted suc by (metis Suc_lessI word_less_nat_alt word_unat_eq_iff)
      have k: "unat wanted - Suc (unat found) = Suc (unat wanted - Suc (unat (found + 1)))"
        using lt suc by (simp add: word_less_nat_alt)
      have "case get_param s' (found + 1) wanted of
          (Some p, l) \<Rightarrow> unat wanted - unat (found + 1) - 1 < length (words (skip_word s'))
            \<and> take (unat l) p = words (skip_word s') ! (unat wanted - unat (found + 1) - 1) \<and> suffix p s'
        | (None, l) \<Rightarrow> l = 0 \<and> length (words (skip_word s')) \<le> unat wanted - unat (found + 1) - 1"
        using "1.IH" [OF "1.prems"(1) _ _ _ neq lt len, OF s'_def] False by (simp only: simp_thms)
      moreover have "get_param s found wanted = get_param s' (found + 1) wanted"
        using "1.prems"(1) False neq by (simp add: unfolds Let_def)
      ultimately show ?thesis
        using suf by (auto simp: ws k split: prod.splits option.splits dest: suffix_order.trans)
    qed
  qed
qed

text \<open>
  C22. \<^verbatim>\<open>FreeRTOS_CLIGetParameter\<close> finds the words of the command string: for a string that begins with
  the command, parameter \<open>n\<close> is the word number \<open>n\<close>, counted from the command as word 0. The pointer
  returned is into the string, and the length is the length of the word. There is no parameter 0 and
  none behind the last word; then the result is NULL and length 0.
\<close>

theorem get_parameter_nth:
  assumes "in_word (cur s)" and "length s < 2 ^ 32"
  shows "case FreeRTOS_CLIGetParameter s n of
      (Some p, len) \<Rightarrow> 0 < n \<and> unat n < length (words s) \<and> take (unat len) p = words s ! unat n \<and> suffix p s
    | (None, len) \<Rightarrow> len = 0 \<and> (n = 0 \<or> length (words s) \<le> unat n)"
proof (cases "n = 0")
  case True
  then show ?thesis by (simp add: FreeRTOS_CLIGetParameter_def get_param.simps)
next
  case False
  then have n: "0 < n" "unat n = Suc (unat n - Suc 0)" by (simp_all add: word_gt_0 unat_gt_0)
  have "takeWhile in_word s \<noteq> []" using assms(1) by (cases s) auto
  then have ws: "words s = takeWhile in_word s # words (skip_word s)" using words_skip_word [of s] by simp
  have "words s ! unat n = words (skip_word s) ! (unat n - Suc 0)" by (subst n(2)) (simp add: ws)
  moreover have "unat n < length (words s) \<longleftrightarrow> unat n - Suc 0 < length (words (skip_word s))"
    using n(2) by (simp add: ws) linarith
  ultimately show ?thesis
    using get_param_nth [OF n(1) assms(2)] n
    by (auto simp: FreeRTOS_CLIGetParameter_def split: prod.splits option.splits)
qed

text \<open>The command \<^verbatim>\<open>set  led on\<close> with two spaces.\<close>

abbreviation set_led :: bytes where
  "set_led \<equiv> [0x73, 0x65, 0x74, SPACE, SPACE, 0x6C, 0x65, 0x64, SPACE, 0x6F, 0x6E]"

lemma get_parameter_nth_witness:
  "case FreeRTOS_CLIGetParameter set_led 2 of
      (Some p, len) \<Rightarrow> take (unat len) p = [0x6F, 0x6E] | (None, len) \<Rightarrow> False"
  using get_parameter_nth [of set_led 2]
  by (auto simp: words_def split: prod.splits option.splits)

section \<open>The number of the parameters\<close>

lemma count_params_words:
  "case count_params s n sp of (n', sp') \<Rightarrow>
     n' - (if sp' then 1 else 0) = (if sp then n - 1 + of_nat (length (words s)) else n + of_nat (length (words (skip_word s))))"
proof (induction s n sp rule: count_params.induct)
  case (2 c cs n sp)
  have "words (c # cs) = (c # takeWhile in_word cs) # words (skip_word cs)" if "in_word c"
    using words_skip_word [of "c # cs"] that by simp
  then show ?case using 2 by (auto split: prod.splits)
qed simp

text \<open>
  \<^verbatim>\<open>prvGetNumberOfParameters\<close> returns the number of words behind the command modulo 256: the counter
  is 8 bits wide, so that a command with 256 words too many passes for one with the right number.
\<close>

lemma number_of_parameters:
  assumes "in_word (cur s)"
  shows "unat (prvGetNumberOfParameters s) = (length (words s) - 1) mod 256"
proof -
  have "takeWhile in_word s \<noteq> []" using assms by (cases s) auto
  then have "words s = takeWhile in_word s # words (skip_word s)" using words_skip_word [of s] by simp
  moreover have "prvGetNumberOfParameters s = of_nat (length (words (skip_word s)))"
    using count_params_words [where s = s and n = 0 and sp = False] by (auto simp: prvGetNumberOfParameters_def split: prod.splits if_splits)
  ultimately show ?thesis by (simp add: unat_of_nat)
qed

text \<open>A command and 257 arguments look like a command and one argument.\<close>

lemma number_of_parameters_witness:
  "unat (prvGetNumberOfParameters set_led) = 2
   \<and> unat (prvGetNumberOfParameters (0x61 # concat (replicate 257 [SPACE, 0x62]))) = 1"
proof -
  have "length (words (skip_word (concat (replicate k [SPACE, 0x62])))) = k" for k
  proof (induction k)
    case (Suc k)
    have "words (0x62 # concat (replicate k [SPACE, 0x62])) = [0x62] # words (concat (replicate k [SPACE, 0x62]))"
      by (cases k) (simp_all add: words_def)
    moreover have "length (words (concat (replicate k [SPACE, 0x62]))) = k"
      using Suc by (cases k) simp_all
    ultimately show ?case by simp
  qed simp
  from this [of 257] have "length (words (0x61 # concat (replicate 257 [SPACE, 0x62]))) = 258"
    using words_skip_word [of "0x61 # concat (replicate 257 [SPACE, 0x62])"] by simp
  then show ?thesis
    using number_of_parameters [of set_led] number_of_parameters [of "0x61 # concat (replicate 257 [SPACE, 0x62])"]
    by (simp add: words_def)
qed

section \<open>The registered commands\<close>

text \<open>The items that follow each other from \<open>p\<close> to the end.\<close>

fun chain :: "(nat \<Rightarrow> 'f CLI_Definition_List_Item) \<Rightarrow> nat option \<Rightarrow> nat list \<Rightarrow> bool" where
  "chain m p [] \<longleftrightarrow> p = None"
| "chain m p (a # as) \<longleftrightarrow> p = Some a \<and> chain m (pxNext (m a)) as"

text \<open>The list of the interpreter holds the items \<open>as\<close>, and the pointer to its end is right.\<close>

definition registry :: "'f cli \<Rightarrow> nat list \<Rightarrow> bool" where
  "registry st as \<longleftrightarrow> chain (item st) (Some xRegisteredCommands) as \<and> distinct as
     \<and> as \<noteq> [] \<and> last as = pxLastCommandInList st"

abbreviation command_at :: "'f cli \<Rightarrow> nat \<Rightarrow> 'f CLI_Command_Definition" where
  "command_at st a \<equiv> pxCommandLineDefinition (item st a)"

definition commands :: "'f cli \<Rightarrow> nat list \<Rightarrow> 'f CLI_Command_Definition list" where
  "commands st as = List.map (command_at st) as"

lemma chain_append:
  assumes "chain m p as" "distinct as" "as \<noteq> []" "a \<notin> set as" "pxNext (m' a) = None"
    and "m' (last as) = (m (last as))\<lparr>pxNext := Some a\<rparr>"
    and "\<And>b. b \<in> set (butlast as) \<Longrightarrow> m' b = m b"
  shows "chain m' p (as @ [a])"
  using assms
proof (induction as arbitrary: p)
  case (Cons b bs)
  then show ?case by (cases "bs = []") auto
qed simp

lemma registry_cli0: "registry cli0 [xRegisteredCommands]"
  by (simp add: registry_def cli0_def)

text \<open>
  C25. Registering a command appends it to the sequence of the registered commands, when the memory of
  the list item is not already in the list, and keeps the commands registered before in their order.
\<close>

theorem register_appends:
  assumes "registry st as" and "a \<notin> set as"
  shows "registry (prvRegisterCommand cmd a st) (as @ [a])
    \<and> commands (prvRegisterCommand cmd a st) (as @ [a]) = commands st as @ [cmd]"
proof -
  let ?st = "prvRegisterCommand cmd a st"
  have as: "chain (item st) (Some xRegisteredCommands) as" "distinct as" "as \<noteq> []" "last as = pxLastCommandInList st"
    using assms(1) by (simp_all add: registry_def)
  have lst: "pxLastCommandInList st \<in> set as" using as(3,4) by (metis last_in_set)
  then have neq: "a \<noteq> pxLastCommandInList st" using assms(2) by blast
  have butlast: "b \<noteq> pxLastCommandInList st" if "b \<in> set (butlast as)" for b
    using that as(2-4) by (metis append_butlast_last_id distinct_append disjoint_iff list.set_intros(1))
  have "chain (item ?st) (Some xRegisteredCommands) (as @ [a])"
    using assms(2) as neq butlast in_set_butlastD [of _ as]
    by (intro chain_append [OF as(1-3) assms(2)]) (auto simp: prvRegisterCommand_def Let_def)
  then have "registry ?st (as @ [a])"
    using as(2) assms(2) by (simp add: registry_def prvRegisterCommand_def Let_def)
  moreover have "command_at ?st b = command_at st b" if "b \<in> set as" for b
    using that assms(2) by (auto simp: prvRegisterCommand_def Let_def)
  moreover have "command_at ?st a = cmd" using neq by (simp add: prvRegisterCommand_def Let_def)
  ultimately show ?thesis by (simp add: commands_def)
qed

definition set_command :: "unit CLI_Command_Definition" where
  "set_command = \<lparr>pcCommand = [0x73, 0x65, 0x74], pcHelpString = [0x73, 0x0A],
     pxCommandInterpreter = Application (), cExpectedNumberOfParameters = 2\<rparr>"

lemma register_appends_witness:
  "commands (prvRegisterCommand set_command 5 cli0) [xRegisteredCommands, 5] = [xHelpCommand, set_command]"
  using register_appends [OF registry_cli0, of 5 set_command]
  by (simp add: xRegisteredCommands_def commands_def cli0_def)

section \<open>Finding a command\<close>

lemma strncmp_prefix:
  "0 \<notin> set b \<Longrightarrow> c_strncmp a b (length b) = 0 \<longleftrightarrow> take (length b) a = b"
proof (induction b arbitrary: a)
  case (Cons y b)
  then show ?case by (cases a) (auto simp: uint_0_iff word_uint_eq_iff [symmetric])
qed simp

lemma find_eqI: "(\<And>a. a \<in> set as \<Longrightarrow> P a = Q a) \<Longrightarrow> List.find P as = List.find Q as"
  by (induction as) auto

lemma matches_word:
  assumes "\<forall>c\<in>set cmd. in_word c"
  shows "command_matches input cmd \<longleftrightarrow> takeWhile in_word input = cmd"
proof -
  have len: "c_strlen cmd = length cmd"
    unfolding c_strlen_def using assms by (metis (mono_tags, lifting) takeWhile_eq_all_conv)
  have cmp: "c_strncmp input cmd (length cmd) = 0 \<longleftrightarrow> take (length cmd) input = cmd"
    using assms by (intro strncmp_prefix) blast
  have end_iff: "cur t = SPACE \<or> cur t = 0 \<longleftrightarrow> takeWhile in_word t = []" for t by (cases t) auto
  have "takeWhile in_word (cmd @ t) = cmd @ takeWhile in_word t" for t
    using assms by (simp add: takeWhile_append2)
  from this [of "drop (length cmd) input"]
  have tw: "takeWhile in_word input = cmd @ takeWhile in_word (drop (length cmd) input)" if "take (length cmd) input = cmd"
    using append_take_drop_id [of "length cmd" input] that by simp
  have tk: "take (length cmd) input = cmd" if "takeWhile in_word input = cmd"
    unfolding that [symmetric] by (rule takeWhile_eq_take [symmetric])
  show ?thesis
    unfolding command_matches_def len cmp end_iff
  proof
    assume "take (length cmd) input = cmd \<and> takeWhile in_word (drop (length cmd) input) = []"
    then show "takeWhile in_word input = cmd" using tw by (elim conjE) simp
  next
    assume eq: "takeWhile in_word input = cmd"
    from tw [OF tk [OF eq]] have "takeWhile in_word (drop (length cmd) input) = []"
      unfolding eq self_append_conv .
    with tk [OF eq] show "take (length cmd) input = cmd \<and> takeWhile in_word (drop (length cmd) input) = []" ..
  qed
qed

lemma find_command_chain:
  "chain (item st) p as \<Longrightarrow>
   find_command st input p =
     Some (case List.find (\<lambda>a. command_matches input (pcCommand (command_at st a))) as of
        None \<Rightarrow> (None, True) | Some a \<Rightarrow> (Some a, params_match input (command_at st a)))"
  by (induction as arbitrary: p) (simp_all add: find_command.simps)

lemma process_command_finds_aux:
  assumes "registry st as" and "pxCommand st = None"
    and "\<forall>a\<in>set as. \<forall>c\<in>set (pcCommand (command_at st a)). in_word c"
  shows "FreeRTOS_CLIProcessCommand app input buf n (st, x) =
    Some (case List.find (\<lambda>a. pcCommand (command_at st a) = takeWhile in_word input) as of
       None \<Rightarrow> (pdFALSE, c_strncpy buf msg_unknown n, st, x)
     | Some a \<Rightarrow>
         if params_match input (command_at st a)
         then (case run_callback app (pxCommandInterpreter (command_at st a)) buf n input (st\<lparr>pxCommand := Some a\<rparr>, x) of
             (r, b, st', x') \<Rightarrow> (r, b, if r = pdFALSE then st'\<lparr>pxCommand := None\<rparr> else st', x'))
         else (pdFALSE, c_strncpy buf msg_params n, st, x))"
proof -
  have "List.find (\<lambda>a. command_matches input (pcCommand (command_at st a))) as =
      List.find (\<lambda>a. pcCommand (command_at st a) = takeWhile in_word input) as"
  proof (rule find_eqI)
    fix a
    assume "a \<in> set as"
    then have "\<forall>c\<in>set (pcCommand (command_at st a)). in_word c" by (rule bspec [OF assms(3)])
    from matches_word [OF this, of input]
    show "command_matches input (pcCommand (command_at st a)) = (pcCommand (command_at st a) = takeWhile in_word input)"
      by (simp only: eq_commute)
  qed
  moreover have "st\<lparr>pxCommand := None\<rparr> = st" using assms(2) by simp
  moreover have "chain (item st) (Some xRegisteredCommands) as" using assms(1) by (simp add: registry_def)
  note find_command_chain [OF this, of input]
  ultimately show ?thesis
    using assms(2)
    by (cases "List.find (\<lambda>a. pcCommand (command_at st a) = takeWhile in_word input) as")
      (simp_all add: FreeRTOS_CLIProcessCommand_def dispatch_def split: prod.split)
qed

text \<open>
  C23. The interpreter is idle and the commands registered are words: a command string is given to the
  first command in the order of registration whose name is the first word of the string. If there is
  no such command or the number of parameters is wrong, the message says so, nothing is called and
  the interpreter stays idle. The search always ends.
\<close>

theorem process_command_finds:
  assumes "registry st as" and "pxCommand st = None"
    and "\<forall>a\<in>set as. \<forall>c\<in>set (pcCommand (command_at st a)). in_word c"
  shows "FreeRTOS_CLIProcessCommand app input buf n (st, x) =
    Some (case List.find (\<lambda>a. pcCommand (command_at st a) = takeWhile in_word input) as of
       None \<Rightarrow> (pdFALSE, c_strncpy buf msg_unknown n, st, x)
     | Some a \<Rightarrow>
         if params_match input (command_at st a)
         then (case run_callback app (pxCommandInterpreter (command_at st a)) buf n input (st\<lparr>pxCommand := Some a\<rparr>, x) of
             (r, b, st', x') \<Rightarrow> (r, b, if r = pdFALSE then st'\<lparr>pxCommand := None\<rparr> else st', x'))
         else (pdFALSE, c_strncpy buf msg_params n, st, x))"
  by (rule process_command_finds_aux [OF assms])

abbreviation say_ok :: "(unit, nat) interpreter" where
  "say_ok \<equiv> \<lambda>f buf n input w. (pdFALSE, c_strncpy buf [0x6F, 0x6B] n, fst w, snd w + 1)"

lemma process_command_finds_witness:
  "(case FreeRTOS_CLIProcessCommand say_ok set_led [9, 9, 9, 9] 3 (prvRegisterCommand set_command 5 cli0, 0) of
      Some (r, b, st, x) \<Rightarrow> r = pdFALSE \<and> b = [0x6F, 0x6B, 0, 9] \<and> x = 1 | None \<Rightarrow> False)"
proof -
  let ?st = "prvRegisterCommand set_command 5 cli0"
  have reg: "registry ?st [xRegisteredCommands, 5]"
    by (simp add: registry_def prvRegisterCommand_def cli0_def xRegisteredCommands_def)
  have cmds: "pcCommand (command_at ?st xRegisteredCommands) = [0x68, 0x65, 0x6C, 0x70]" "command_at ?st 5 = set_command"
    by (simp_all add: prvRegisterCommand_def cli0_def xRegisteredCommands_def xHelpCommand_def text_bytes_def)
  have "params_match set_led set_command"
    by (simp add: params_match_def set_command_def prvGetNumberOfParameters_def)
  moreover have "pxCommand ?st = None" by (simp add: prvRegisterCommand_def cli0_def)
  ultimately show ?thesis
    using process_command_finds [OF reg, of say_ok set_led "[9, 9, 9, 9]" 3 0] cmds
    by (simp add: set_command_def run_callback_def c_strncpy_def pdFALSE_def)
qed

section \<open>The help listing\<close>

text \<open>
  The caller's loop: process the command again until the result is \<open>pdFALSE\<close>, at most \<open>k\<close> times.
  Result: the contents of the buffer after each call.
\<close>

fun process_all ::
  "('f, 'a) interpreter \<Rightarrow> bytes \<Rightarrow> nat \<Rightarrow> nat \<Rightarrow> bytes \<Rightarrow> 'f cli \<times> 'a \<Rightarrow> (bytes list \<times> 'f cli \<times> 'a) option"
where
  "process_all app input n 0 buf w = None"
| "process_all app input n (Suc k) buf w =
     (case FreeRTOS_CLIProcessCommand app input buf n w of
        None \<Rightarrow> None
      | Some (r, b, w') \<Rightarrow>
          if r = pdFALSE then Some ([b], w')
          else map_option (\<lambda>(bs, w''). (b # bs, w'')) (process_all app input n k b w'))"

lemma strncpy_again: "n \<le> length buf \<Longrightarrow> c_strncpy (c_strncpy buf x n) y n = c_strncpy buf y n"
  by (simp add: c_strncpy_def)

lemma length_strncpy [simp]: "n \<le> length buf \<Longrightarrow> length (c_strncpy buf x n) = length buf"
  by (simp add: c_strncpy_def)

lemma pd_neq [simp]: "pdTRUE \<noteq> pdFALSE"
  by (simp add: pdTRUE_def pdFALSE_def)

lemma help_call:
  "pxCommand st = Some xRegisteredCommands \<Longrightarrow>
   pxCommandInterpreter (command_at st xRegisteredCommands) = HelpCommand \<Longrightarrow>
   FreeRTOS_CLIProcessCommand app input buf n (st, x) =
     Some (case prvHelpCommand buf n st of (r, b, st') \<Rightarrow> (r, b, if r = pdFALSE then st'\<lparr>pxCommand := None\<rparr> else st', x))"
  by (cases st) (simp add: FreeRTOS_CLIProcessCommand_def dispatch_def run_callback_def split: prod.split)

lemma help_rest:
  assumes "chain (item st) (Some b) (b # bs)" and "n \<le> length buf"
    and "pxCommandInterpreter (command_at st xRegisteredCommands) = HelpCommand"
  shows "process_all app input n (length (b # bs)) buf (st\<lparr>pxCommand := Some xRegisteredCommands, pxHelp := Some b\<rparr>, x) =
    Some (List.map (\<lambda>a. c_strncpy buf (pcHelpString (command_at st a)) n) (b # bs), st\<lparr>pxCommand := None, pxHelp := None\<rparr>, x)"
  using assms
proof (induction bs arbitrary: b buf)
  case Nil
  then show ?case by (simp add: help_call prvHelpCommand_def)
next
  case (Cons c bs)
  let ?buf = "c_strncpy buf (pcHelpString (command_at st b)) n"
  have c: "pxNext (item st b) = Some c" "chain (item st) (Some c) (c # bs)" using Cons.prems(1) by simp_all
  have "process_all app input n (length (c # bs)) ?buf (st\<lparr>pxCommand := Some xRegisteredCommands, pxHelp := Some c\<rparr>, x) =
    Some (List.map (\<lambda>a. c_strncpy ?buf (pcHelpString (command_at st a)) n) (c # bs), st\<lparr>pxCommand := None, pxHelp := None\<rparr>, x)"
    using Cons.IH [OF c(2)] Cons.prems(2,3) by simp
  then show ?case using c Cons.prems(2,3) by (simp add: help_call prvHelpCommand_def strncpy_again)
qed

text \<open>
  C24. Calling \<^verbatim>\<open>FreeRTOS_CLIProcessCommand\<close> with the help command until it returns \<open>pdFALSE\<close> writes the
  help string of every registered command, in the order of registration, takes as many calls as
  there are commands, and leaves the interpreter as it was.
\<close>

theorem help_lists_commands:
  assumes "registry st as" and "pxCommand st = None" and "pxHelp st = None"
    and "\<forall>a\<in>set as. \<forall>c\<in>set (pcCommand (command_at st a)). in_word c"
    and "command_at st xRegisteredCommands = xHelpCommand"
    and "takeWhile in_word input = pcCommand (xHelpCommand :: 'f CLI_Command_Definition)"
    and "prvGetNumberOfParameters input = 0" and "n \<le> length buf"
  shows "process_all app input n (length as) buf (st :: 'f cli, x) =
    Some (List.map (\<lambda>c. c_strncpy buf (pcHelpString c) n) (commands st as), st, x)"
proof -
  obtain bs where seq: "as = xRegisteredCommands # bs"
    using assms(1) by (cases as) (auto simp: registry_def)
  let ?st = "st\<lparr>pxCommand := Some xRegisteredCommands, pxHelp := Some xRegisteredCommands\<rparr>"
  have hlp: "pxCommandInterpreter (command_at st xRegisteredCommands) = HelpCommand"
    using assms(5) by (simp add: xHelpCommand_def)
  have par: "params_match input (command_at st xRegisteredCommands)"
    using assms(5,7) by (simp add: params_match_def xHelpCommand_def)
  have "FreeRTOS_CLIProcessCommand app input buf n (st, x) = FreeRTOS_CLIProcessCommand app input buf n (?st, x)"
    using process_command_finds_aux [OF assms(1,2,4), of app input buf n x] assms(3,5,6) par hlp
    by (simp add: seq help_call run_callback_def prvHelpCommand_def split: prod.split)
  then have "process_all app input n (length as) buf (st, x) = process_all app input n (length as) buf (?st, x)"
    by (simp add: seq)
  also have "\<dots> = Some (List.map (\<lambda>a. c_strncpy buf (pcHelpString (command_at st a)) n) as, st\<lparr>pxCommand := None, pxHelp := None\<rparr>, x)"
    unfolding seq using assms(1,8) hlp by (intro help_rest) (simp_all add: registry_def seq)
  also have "st\<lparr>pxCommand := None, pxHelp := None\<rparr> = st" using assms(2,3) by simp
  finally show ?thesis by (simp add: commands_def comp_def)
qed

lemma help_lists_commands_witness:
  "process_all say_ok [0x68, 0x65, 0x6C, 0x70] 2 2 [7, 7, 7] (prvRegisterCommand set_command 5 cli0, 0) =
     Some ([[13, 10, 7], [0x73, 0x0A, 7]], prvRegisterCommand set_command 5 cli0, 0)"
proof -
  let ?st = "prvRegisterCommand set_command 5 cli0"
  have reg: "registry ?st [xRegisteredCommands, 5]"
    by (simp add: registry_def prvRegisterCommand_def cli0_def xRegisteredCommands_def)
  have cmds: "command_at ?st xRegisteredCommands = xHelpCommand" "command_at ?st 5 = set_command"
    by (simp_all add: prvRegisterCommand_def cli0_def xRegisteredCommands_def)
  have idle: "pxCommand ?st = None" "pxHelp ?st = None" by (simp_all add: prvRegisterCommand_def cli0_def)
  have "process_all say_ok [0x68, 0x65, 0x6C, 0x70] 2 (length [xRegisteredCommands, 5]) [7, 7, 7] (?st, 0) =
      Some (List.map (\<lambda>c. c_strncpy [7, 7, 7] (pcHelpString c) 2) (commands ?st [xRegisteredCommands, 5]), ?st, 0)"
    using cmds
    by (intro help_lists_commands [OF reg idle])
      (simp_all add: xHelpCommand_def set_command_def text_bytes_def prvGetNumberOfParameters_def)
  moreover have "commands ?st [xRegisteredCommands, 5] = [xHelpCommand, set_command]" using cmds by (simp add: commands_def)
  moreover have "length [xRegisteredCommands, 5] = 2" by simp
  ultimately show ?thesis by (simp only:) (simp add: xHelpCommand_def set_command_def c_strncpy_def)
qed

end
