(* ===== verification/Rename.thy ===== *)
theory Rename
  imports Dir
begin

text \<open>
  Renaming directory entries (\<^verbatim>\<open>core/driver/dir.c\<close>). A rename works on four cached inodes: the
  parents of the source and of the destination, and the two inodes that are named. When both names
  are in one directory the driver passes the same structure for both parents; \<open>same\<close> says so, and
  then the destination's parent is the source's.
\<close>

section \<open>Computations on several cached inodes\<close>

record RENAME =
  SrcPInode :: CINODE
  DstPInode :: CINODE
  SrcInode :: CINODE
  DstInode :: CINODE

type_synonym ('d, 'a) renM = "(RENAME \<times> 'd redstate, 'a) red"

definition on_ino :: "(RENAME \<Rightarrow> CINODE) \<Rightarrow> (CINODE \<Rightarrow> RENAME \<Rightarrow> RENAME) \<Rightarrow> ('d, 'a) inoM \<Rightarrow> ('d, 'a) renM" where
  "on_ino sel put m = (\<lambda>(n, s). case m (sel n, s) of (r, (c, s')) \<Rightarrow> (r, (put c n, s')))"

definition on_SrcP :: "('d, 'a) inoM \<Rightarrow> ('d, 'a) renM" where
  "on_SrcP = on_ino SrcPInode (\<lambda>c n. n\<lparr>SrcPInode := c\<rparr>)"

definition on_DstP :: "bool \<Rightarrow> ('d, 'a) inoM \<Rightarrow> ('d, 'a) renM" where
  "on_DstP same = (if same then on_SrcP else on_ino DstPInode (\<lambda>c n. n\<lparr>DstPInode := c\<rparr>))"

definition on_Src :: "('d, 'a) inoM \<Rightarrow> ('d, 'a) renM" where
  "on_Src = on_ino SrcInode (\<lambda>c n. n\<lparr>SrcInode := c\<rparr>)"

definition on_Dst :: "('d, 'a) inoM \<Rightarrow> ('d, 'a) renM" where
  "on_Dst = on_ino DstInode (\<lambda>c n. n\<lparr>DstInode := c\<rparr>)"

definition DstP :: "bool \<Rightarrow> RENAME \<Rightarrow> CINODE" where
  "DstP same n = (if same then SrcPInode n else DstPInode n)"

definition getN :: "(RENAME \<Rightarrow> 'd redstate \<Rightarrow> ('d, 'a) renM) \<Rightarrow> ('d, 'a) renM" where
  "getN f = (\<lambda>(n, s). f n s (n, s))"

definition liftN :: "('d, 'a) redM \<Rightarrow> ('d, 'a) renM" where
  "liftN m = (\<lambda>(n, s). case m s of (r, s') \<Rightarrow> (r, (n, s')))"

text \<open>A computation on a cached inode that is a local variable, with the number \<open>n\<close>.\<close>

definition local_ino :: "u32 \<Rightarrow> ('d, 'a) inoM \<Rightarrow> ('d, 'a) redM" where
  "local_ino n m = (\<lambda>s. case m (cinode0 n, s) of (r, (c, s')) \<Rightarrow> (r, s'))"

section \<open>Cyclic renames\<close>

text \<open>
  The walk to the root. Result: the number of the inode the walk ends at and the number of steps,
  which the number of inodes bounds.
\<close>

fun walk_parents :: "'d redconf \<Rightarrow> u32 \<Rightarrow> nat \<Rightarrow> u32 \<Rightarrow> u32 \<Rightarrow> ('d, u32 \<times> u32) redM" where
  "walk_parents cf ulSrcInode fuel next ulIteration = getR (\<lambda>s.
     if next \<noteq> ulSrcInode \<and> next \<noteq> INODE_ROOTDIR \<and> next \<noteq> INODE_INVALID
        \<and> ulIteration < ulInodeCount (gpRedVolConf cf s)
     then (case fuel of
         0 \<Rightarrow> rederrorR RED_EFUBAR
       | Suc n \<Rightarrow>
           bindR (local_ino next
             (bindR (RedInodeMount cf FTYPE_DIR False) (\<lambda>_. getI (\<lambda>c s.
              bindR (modR (RedInodePut cf 0)) (\<lambda>_.
              retR (ldb32 cf (the (pInodeBuf c)) (INODE_ulPInode cf) s)))))) (\<lambda>parent.
           walk_parents cf ulSrcInode n parent (ulIteration + 1)))
     else retR (next, ulIteration))"

declare walk_parents.simps [simp del]

definition DirCyclicRenameCheck :: "'d redconf \<Rightarrow> u32 \<Rightarrow> CINODE \<Rightarrow> ('d, unit) redM" where
  "DirCyclicRenameCheck cf ulSrcInode c = getR (\<lambda>s.
     if \<not> INODE_IS_VALID cf s ulSrcInode \<or> \<not> CINODE_IS_MOUNTED cf c s then rederrorR RED_EINVAL
     else if ulSrcInode = ci_ulInode c then failR RED_EINVAL
     else if \<not> fDirectory c then failR RED_ENOTDIR
     else
       bindR (walk_parents cf ulSrcInode (unat (ulInodeCount (gpRedVolConf cf s)))
                (ldb32 cf (the (pInodeBuf c)) (INODE_ulPInode cf) s) 0) (\<lambda>(next, ulIteration). getR (\<lambda>s.
       if ulIteration = ulInodeCount (gpRedVolConf cf s) then criticalR RED_EFUBAR
       else if ulSrcInode = next then failR RED_EINVAL
       else skipR)))"

section \<open>Renaming\<close>

text \<open>The two lookups. Result: the indices of the two entries.\<close>

definition rename_lookup :: "'d redconf \<Rightarrow> bool \<Rightarrow> bytes option \<Rightarrow> bytes option \<Rightarrow> ('d, u32 \<times> u32) renM" where
  "rename_lookup cf same pszSrcName pszDstName = getN (\<lambda>n s.
     bindR (on_SrcP (RedDirEntryLookup cf pszSrcName (ci_ulInode (SrcInode n)))) (\<lambda>(ret, ulSrcIdx, ino).
     case ret of
       Some e \<Rightarrow> failR e
     | None \<Rightarrow>
         bindR (on_Src (modC (\<lambda>c. c\<lparr>ci_ulInode := ino\<rparr>))) (\<lambda>_. getN (\<lambda>n s.
         bindR (on_DstP same (RedDirEntryLookup cf pszDstName (ci_ulInode (DstInode n)))) (\<lambda>(ret, ulDstIdx, ino).
         case ret of
           Some e \<Rightarrow>
             if ulDstIdx = DIR_INDEX_INVALID then failR RED_ENOSPC
             else bindR (if REDCONF_RENAME_ATOMIC cf
                         then on_Dst (modC (\<lambda>c. c\<lparr>ci_ulInode := INODE_INVALID\<rparr>)) else skipR) (\<lambda>_.
                  retR (ulSrcIdx, ulDstIdx))
         | None \<Rightarrow>
             bindR (on_Dst (modC (\<lambda>c. c\<lparr>ci_ulInode := ino\<rparr>))) (\<lambda>_.
             if REDCONF_RENAME_ATOMIC cf then retR (ulSrcIdx, ulDstIdx) else failR RED_EEXIST))))))"

text \<open>Mount the inode that a rename replaces, if there is one, and check that it may be replaced.\<close>

definition rename_mount_dst :: "'d redconf \<Rightarrow> ('d, unit) renM" where
  "rename_mount_dst cf = getN (\<lambda>n s.
     if REDCONF_RENAME_ATOMIC cf \<and> ci_ulInode (DstInode n) \<noteq> INODE_INVALID then
       bindR (on_Dst (RedInodeMount cf (if fDirectory (SrcInode n) then FTYPE_DIR else FTYPE_FILE) True)) (\<lambda>_. getN (\<lambda>n s.
       if fDirectory (DstInode n) \<and> inode_size cf (DstInode n) s > 0 then failR RED_ENOTEMPTY else skipR))
     else skipR)"

text \<open>Delete the source's entry; without the space for that, put the destination's entry back.\<close>

definition rename_delete_src :: "'d redconf \<Rightarrow> bool \<Rightarrow> u32 \<Rightarrow> u32 \<Rightarrow> bytes option \<Rightarrow> u32 \<Rightarrow> ('d, unit) renM" where
  "rename_delete_src cf same ulSrcIdx ulDstIdx pszDstName ulNameLen =
     tryR (on_SrcP (RedDirEntryDelete cf ulSrcIdx)) (\<lambda>r.
     case r of
       Inr _ \<Rightarrow> skipR
     | Inl e \<Rightarrow>
         if e = RED_ENOSPC then getN (\<lambda>n s.
           tryR (on_DstP same
             (if REDCONF_RENAME_ATOMIC cf \<and> ci_ulInode (DstInode n) \<noteq> INODE_INVALID
              then DirEntryWrite cf ulDstIdx (ci_ulInode (DstInode n)) pszDstName ulNameLen
              else RedDirEntryDelete cf ulDstIdx)) (\<lambda>r2.
           case r2 of Inr _ \<Rightarrow> failR e | Inl e2 \<Rightarrow> liftN (criticalR e2)))
         else failR e)"

definition RedDirEntryRename :: "'d redconf \<Rightarrow> bool \<Rightarrow> bytes option \<Rightarrow> bytes option \<Rightarrow> ('d, unit) renM" where
  "RedDirEntryRename cf same pszSrcName pszDstName = getN (\<lambda>n s.
     if \<not> CINODE_IS_DIRTY cf (SrcPInode n) s \<or> pszSrcName = None
        \<or> \<not> CINODE_IS_DIRTY cf (DstP same n) s \<or> pszDstName = None
     then failR RED_EINVAL
     else if \<not> fDirectory (SrcPInode n) \<or> \<not> fDirectory (DstP same n) then failR RED_ENOTDIR
     else
       bindR (rename_lookup cf same pszSrcName pszDstName) (\<lambda>(ulSrcIdx, ulDstIdx). getN (\<lambda>n s.
       if REDCONF_RENAME_ATOMIC cf \<and> ci_ulInode (SrcInode n) = ci_ulInode (DstInode n) then skipR
       else
         bindR (on_Src (RedInodeMount cf FTYPE_EITHER True)) (\<lambda>_.
         bindR (rename_mount_dst cf) (\<lambda>_. getN (\<lambda>n s.
         bindR (if fDirectory (SrcInode n)
                then liftN (DirCyclicRenameCheck cf (ci_ulInode (SrcInode n)) (DstP same n)) else skipR) (\<lambda>_.
         case name_length cf pszDstName of
           None \<Rightarrow> on_Src oob
         | Some ulNameLen \<Rightarrow>
             bindR (on_DstP same (DirEntryWrite cf ulDstIdx (ci_ulInode (SrcInode n)) pszDstName ulNameLen)) (\<lambda>_.
             bindR (rename_delete_src cf same ulSrcIdx ulDstIdx pszDstName ulNameLen) (\<lambda>_. getN (\<lambda>n s.
             on_Src (modS (stb32 cf (the (pInodeBuf (SrcInode n))) (INODE_ulPInode cf)
                             (ci_ulInode (DstP same n))))))))))))))"

end
