(* ===== verification/CoreInit.thy ===== *)
theory CoreInit
  imports Rename Volume
begin

text \<open>
  The driver as a whole (\<^verbatim>\<open>core/driver/core.c\<close>): initialization, which computes where the parts of
  each volume lie on its disk, the current volume, mounting and unmounting, transactions on demand,
  the transaction mask (\<^verbatim>\<open>include/redapimacs.h\<close>) and the status of a volume.
\<close>

section \<open>Initialization\<close>

definition MINIMUM_METADATA_BLOCKS :: u32 where "MINIMUM_METADATA_BLOCKS = 5"
definition SECTOR_SIZE_MIN :: u32 where "SECTOR_SIZE_MIN = 256"

text \<open>What \<^verbatim>\<open>RedMemSet\<close> with zeros makes of the structures of a volume.\<close>

definition metaroot0 :: "'d redconf \<Rightarrow> METAROOT" where
  "metaroot0 cf =
     \<lparr>mr_ulSignature = 0, mr_ulCRC = 0, mr_ullSequence = 0, ulSectorCRC = 0, ulFreeBlocks = 0,
      ulFreeInodes = 0, ulAllocNextBlock = 0, abEntries = replicate (METAROOT_ENTRY_BYTES cf) 0\<rparr>"

definition volume0 :: VOLUME where
  "volume0 =
     \<lparr>fMounted = False, fReadOnly = False, ulTransMask = 0, bBlockSectorShift = 0, ulBlockCount = 0,
      ulBlocksAllocable = 0, ullMaxInodeSize = 0, ullSequence = 0\<rparr>"

definition corevol0 :: "'d redconf \<Rightarrow> COREVOLUME" where
  "corevol0 cf =
     \<lparr>fImapInline = False, ulImapStartBN = 0, ulImapNodeCount = 0, ulInodeTableStartBN = 0,
      ulFirstAllocableBN = 0, aMR = (\<lambda>_. metaroot0 cf), bCurMR = 0, fBranched = False,
      ulAlmostFreeBlocks = 0, fUseReservedBlocks = False\<rparr>"

definition upd_vol_at :: "u8 \<Rightarrow> (VOLUME \<Rightarrow> VOLUME) \<Rightarrow> ('d, unit) redM" where
  "upd_vol_at v f = modR (\<lambda>s. s\<lparr>gaRedVolume := (gaRedVolume s)(v := f (gaRedVolume s v))\<rparr>)"

definition upd_core_at :: "u8 \<Rightarrow> (COREVOLUME \<Rightarrow> COREVOLUME) \<Rightarrow> ('d, unit) redM" where
  "upd_core_at v f = modR (\<lambda>s. s\<lparr>gaCoreVol := (gaCoreVol s)(v := f (gaCoreVol s v))\<rparr>)"

text \<open>
  The loop that shifts the sector size up to the block size. A sector has a byte at least and a
  block 65536 at most, so 16 passes are enough.
\<close>

fun sector_shift :: "'d redconf \<Rightarrow> u32 \<Rightarrow> nat \<Rightarrow> u8 \<Rightarrow> u8" where
  "sector_shift cf sz 0 n = n"
| "sector_shift cf sz (Suc fuel) n =
     (if unat (push_bit (unat n) sz) < REDCONF_BLOCK_SIZE cf
      then sector_shift cf sz fuel (n + 1) else n)"

text \<open>The checks of the configuration of a volume.\<close>

definition volconf_valid :: "'d redconf \<Rightarrow> u8 \<Rightarrow> bool" where
  "volconf_valid cf v \<longleftrightarrow>
     (let vc = gaRedVolConf cf v in
      \<not> (ulSectorSize vc < SECTOR_SIZE_MIN \<or> REDCONF_BLOCK_SIZE cf mod unat (ulSectorSize vc) \<noteq> 0
         \<or> ulInodeCount vc = 0)
      \<and> (REDCONF_API_POSIX cf \<longrightarrow>
           pszPathPrefix vc \<noteq> None
           \<and> \<not> list_ex (\<lambda>bCmpVol. RedStrCmp (pszPathPrefix vc) (pszPathPrefix (gaRedVolConf cf (of_nat bCmpVol))) = Some 0)
                [0..<unat v]))"

text \<open>Where the imap is and where the inode table begins.\<close>

definition init_imap :: "'d redconf \<Rightarrow> u8 \<Rightarrow> ('d, unit) redM" where
  "init_imap cf v = getR (\<lambda>s.
     let bc = ulBlockCount (gaRedVolume s v);
         inl = unat (bc - 3) \<le> METAROOT_ENTRIES cf;
         per = of_nat (IMAPNODE_ENTRIES cf + 2) :: u32
     in bindR (upd_core_at v (\<lambda>c. c\<lparr>fImapInline := inl\<rparr>)) (\<lambda>_.
        if inl then
          (if REDCONF_IMAP_INLINE cf then upd_core_at v (\<lambda>c. c\<lparr>ulInodeTableStartBN := 3\<rparr>) else failR RED_EINVAL)
        else if REDCONF_IMAP_EXTERNAL cf then
          upd_core_at v (\<lambda>c.
            let n = ((bc - 3) + (per - 1)) div per
            in c\<lparr>ulImapStartBN := 3, ulImapNodeCount := n, ulInodeTableStartBN := 3 + n * 2\<rparr>)
        else failR RED_EINVAL))"

definition init_geometry :: "'d redconf \<Rightarrow> u8 \<Rightarrow> ('d, unit) redM" where
  "init_geometry cf v =
     (let vc = gaRedVolConf cf v; shift = sector_shift cf (ulSectorSize vc) 16 0 in
      bindR (upd_vol_at v (\<lambda>w. w\<lparr>bBlockSectorShift := shift\<rparr>)) (\<lambda>_.
      bindR (modR (REDASSERT (unat (push_bit (unat shift) (ulSectorSize vc)) = REDCONF_BLOCK_SIZE cf))) (\<lambda>_.
      bindR (upd_vol_at v (\<lambda>w. w\<lparr>ulBlockCount := ucast (drop_bit (unat shift) (ullSectorCount vc))\<rparr>)) (\<lambda>_. getR (\<lambda>s.
      if ulBlockCount (gaRedVolume s v) < MINIMUM_METADATA_BLOCKS then failR RED_EINVAL
      else
        bindR (upd_vol_at v (\<lambda>w. w\<lparr>ulTransMask := REDCONF_TRANSACT_DEFAULT cf, ullMaxInodeSize := INODE_SIZE_MAX cf\<rparr>)) (\<lambda>_.
        init_imap cf v))))))"

definition init_allocable :: "'d redconf \<Rightarrow> u8 \<Rightarrow> ('d, unit) redM" where
  "init_allocable cf v =
     bindR (upd_core_at v (\<lambda>c. c\<lparr>ulFirstAllocableBN := ulInodeTableStartBN c + ulInodeCount (gaRedVolConf cf v) * 2\<rparr>)) (\<lambda>_.
     getR (\<lambda>s.
     if ulFirstAllocableBN (gaCoreVol s v) > ulBlockCount (gaRedVolume s v) then failR RED_EINVAL
     else upd_vol_at v (\<lambda>w. w\<lparr>ulBlocksAllocable := ulBlockCount w - ulFirstAllocableBN (gaCoreVol s v)\<rparr>)))"

definition init_volume :: "'d redconf \<Rightarrow> u8 \<Rightarrow> ('d, unit) redM" where
  "init_volume cf v =
     (if \<not> volconf_valid cf v then failR RED_EINVAL
      else bindR (init_geometry cf v) (\<lambda>_. init_allocable cf v))"

fun init_volumes :: "'d redconf \<Rightarrow> nat list \<Rightarrow> ('d, unit) redM" where
  "init_volumes cf [] = skipR"
| "init_volumes cf (v # vs) = bindR (init_volume cf (of_nat v)) (\<lambda>_. init_volumes cf vs)"

text \<open>The check of the configured byte order against the one of the machine.\<close>

definition endian_ok :: "'d redconf \<Rightarrow> bool" where
  "endian_ok cf \<longleftrightarrow>
     hd (enc (REDCONF_ENDIAN_BIG cf) 2 (0xFF00 :: u16)) = (if REDCONF_ENDIAN_BIG cf then 0xFF else 0)"

definition RedCoreInit :: "'d redconf \<Rightarrow> ('d, unit) redM" where
  "RedCoreInit cf =
     bindR (modR (\<lambda>s. RedBufferInit cf (s\<lparr>gaRedVolume := (\<lambda>_. volume0), gaCoreVol := (\<lambda>_. corevol0 cf)\<rparr>))) (\<lambda>_.
     bindR (init_volumes cf [0..<REDCONF_VOLUME_COUNT cf]) (\<lambda>_.
     if \<not> endian_ok cf then failR RED_EINVAL
     else if REDCONF_TASK_COUNT cf > 1
     then (case RedOsMutexInit cf of None \<Rightarrow> skipR | Some e \<Rightarrow> failR e)
     else skipR))"

text \<open>The clock and the mutex have nothing to undo that can fail.\<close>

definition RedCoreUninit :: "('d, unit) redM" where
  "RedCoreUninit = skipR"

section \<open>Volumes\<close>

definition RedCoreVolSetCurrent :: "'d redconf \<Rightarrow> u8 \<Rightarrow> ('d, unit) redM" where
  "RedCoreVolSetCurrent cf bVol =
     (if unat bVol \<ge> REDCONF_VOLUME_COUNT cf then failR RED_EINVAL
      else if REDCONF_VOLUME_COUNT cf > 1 then modR (\<lambda>s. s\<lparr>gbRedVolNum := bVol\<rparr>)
      else skipR)"

definition RedCoreVolMount :: "'d redconf \<Rightarrow> ('d, unit) redM" where
  "RedCoreVolMount cf = RedVolMount cf"

definition RED_TRANSACT_UMOUNT :: u32 where "RED_TRANSACT_UMOUNT = 0x00000001"
definition RED_TRANSACT_CREAT :: u32 where "RED_TRANSACT_CREAT = 0x00000002"
definition RED_TRANSACT_UNLINK :: u32 where "RED_TRANSACT_UNLINK = 0x00000004"
definition RED_TRANSACT_MKDIR :: u32 where "RED_TRANSACT_MKDIR = 0x00000008"
definition RED_TRANSACT_RENAME :: u32 where "RED_TRANSACT_RENAME = 0x00000010"
definition RED_TRANSACT_LINK :: u32 where "RED_TRANSACT_LINK = 0x00000020"
definition RED_TRANSACT_CLOSE :: u32 where "RED_TRANSACT_CLOSE = 0x00000040"
definition RED_TRANSACT_WRITE :: u32 where "RED_TRANSACT_WRITE = 0x00000080"
definition RED_TRANSACT_FSYNC :: u32 where "RED_TRANSACT_FSYNC = 0x00000100"
definition RED_TRANSACT_TRUNCATE :: u32 where "RED_TRANSACT_TRUNCATE = 0x00000200"
definition RED_TRANSACT_VOLFULL :: u32 where "RED_TRANSACT_VOLFULL = 0x00000400"

definition RED_TRANSACT_MASK :: "'d redconf \<Rightarrow> u32" where
  "RED_TRANSACT_MASK cf =
     (if REDCONF_API_POSIX cf then
        RED_TRANSACT_UMOUNT OR RED_TRANSACT_CREAT
        OR (if REDCONF_API_POSIX_UNLINK cf then RED_TRANSACT_UNLINK else 0)
        OR (if REDCONF_API_POSIX_MKDIR cf then RED_TRANSACT_MKDIR else 0)
        OR (if REDCONF_API_POSIX_RENAME cf then RED_TRANSACT_RENAME else 0)
        OR (if REDCONF_API_POSIX_LINK cf then RED_TRANSACT_LINK else 0)
        OR RED_TRANSACT_CLOSE OR RED_TRANSACT_WRITE OR RED_TRANSACT_FSYNC
        OR (if REDCONF_API_POSIX_FTRUNCATE cf then RED_TRANSACT_TRUNCATE else 0)
        OR RED_TRANSACT_VOLFULL
      else
        RED_TRANSACT_UMOUNT OR RED_TRANSACT_WRITE
        OR (if REDCONF_API_FSE_TRUNCATE cf then RED_TRANSACT_TRUNCATE else 0)
        OR RED_TRANSACT_VOLFULL)"

definition trans_on :: "'d redstate \<Rightarrow> u32 \<Rightarrow> bool" where
  "trans_on s ev \<longleftrightarrow> ulTransMask (gpRedVolume s) AND ev \<noteq> 0"

definition RedCoreVolUnmount :: "'d redconf \<Rightarrow> ('d, unit) redM" where
  "RedCoreVolUnmount cf =
     bindR (getR (\<lambda>s. if \<not> fReadOnly (gpRedVolume s) \<and> trans_on s RED_TRANSACT_UMOUNT
                      then RedVolTransact cf else skipR)) (\<lambda>_.
     bindR (getR (\<lambda>s. RedBufferDiscardRange cf 0 (ulBlockCount (gpRedVolume s)))) (\<lambda>_.
     bindR (getR (\<lambda>s. dev_call (RedOsBDevClose cf (gbRedVolNum s)))) (\<lambda>_.
     modR (upd_vol (\<lambda>v. v\<lparr>fMounted := False\<rparr>)))))"

definition RedCoreVolTransact :: "'d redconf \<Rightarrow> ('d, unit) redM" where
  "RedCoreVolTransact cf = getR (\<lambda>s.
     if \<not> fMounted (gpRedVolume s) then failR RED_EINVAL
     else if fReadOnly (gpRedVolume s) then failR RED_EROFS
     else RedVolTransact cf)"

record REDSTATFS =
  f_bsize :: u32
  f_frsize :: u32
  f_blocks :: u32
  f_bfree :: u32
  f_bavail :: u32
  f_files :: u32
  f_ffree :: u32
  f_favail :: u32
  f_fsid :: u32
  f_flag :: u32
  f_namemax :: u32
  f_maxfsize :: u64
  f_dev :: u32

definition RED_ST_RDONLY :: u32 where "RED_ST_RDONLY = 1"
definition RED_ST_NOSUID :: u32 where "RED_ST_NOSUID = 2"

definition RedCoreVolStat :: "'d redconf \<Rightarrow> ('d, REDSTATFS) redM" where
  "RedCoreVolStat cf = getR (\<lambda>s.
     if \<not> fMounted (gpRedVolume s) then failR RED_EINVAL
     else
       let free = ulFreeBlocks (gpRedMR s);
           bfree = (if RESERVED_BLOCKS cf > 0
                    then (if free > RESERVED_BLOCKS cf then free - RESERVED_BLOCKS cf else 0) else free)
       in retR \<lparr>f_bsize = of_nat (REDCONF_BLOCK_SIZE cf), f_frsize = of_nat (REDCONF_BLOCK_SIZE cf),
            f_blocks = ulBlockCount (gpRedVolume s), f_bfree = bfree, f_bavail = bfree,
            f_files = ulInodeCount (gpRedVolConf cf s), f_ffree = ulFreeInodes (gpRedMR s),
            f_favail = ulFreeInodes (gpRedMR s), f_fsid = 0,
            f_flag = (if fReadOnly (gpRedVolume s) then RED_ST_NOSUID OR RED_ST_RDONLY else RED_ST_NOSUID),
            f_namemax = of_nat (REDCONF_NAME_MAX cf), f_maxfsize = INODE_SIZE_MAX cf, f_dev = ucast (gbRedVolNum s)\<rparr>)"

definition RedCoreTransMaskSet :: "'d redconf \<Rightarrow> u32 \<Rightarrow> ('d, unit) redM" where
  "RedCoreTransMaskSet cf ulEventMask = getR (\<lambda>s.
     if \<not> fMounted (gpRedVolume s) \<or> ulEventMask AND RED_TRANSACT_MASK cf \<noteq> ulEventMask then failR RED_EINVAL
     else if fReadOnly (gpRedVolume s) then failR RED_EROFS
     else modR (upd_vol (\<lambda>v. v\<lparr>ulTransMask := ulEventMask\<rparr>)))"

definition RedCoreTransMaskGet :: "('d, u32) redM" where
  "RedCoreTransMaskGet = getR (\<lambda>s.
     if \<not> fMounted (gpRedVolume s) then failR RED_EINVAL else retR (ulTransMask (gpRedVolume s)))"

end
