(* ===== verification/Format.thy ===== *)
theory Format
  imports CoreInit
begin

text \<open>
  Formatting a volume (\<^verbatim>\<open>core/driver/format.c\<close>): the master block is zeroed first and written last,
  so that an interrupted format leaves a volume that cannot be mounted.
\<close>

text \<open>The characters of \<^verbatim>\<open>RED_BUILD_NUMBER\<close>, and the null byte.\<close>

definition RED_BUILD_NUMBER :: bytes where "RED_BUILD_NUMBER = [0x37, 0x30, 0x30, 0]"

text \<open>Overwrite the master block with zeros.\<close>

definition format_clear_master :: "'d redconf \<Rightarrow> ('d, unit) redM" where
  "format_clear_master cf =
     bindR (RedBufferGet cf BLOCK_NUM_MASTER (BFLAG_NEW OR BFLAG_DIRTY)) (\<lambda>pMB.
     bindR (finR (RedBufferFlush cf BLOCK_NUM_MASTER 1) (RedBufferDiscard cf (Some pMB))) (\<lambda>_.
     getR (\<lambda>s. RedIoFlush cf (gbRedVolNum s))))"

text \<open>Create the nodes of an external imap.\<close>

fun format_imap_nodes :: "'d redconf \<Rightarrow> nat \<Rightarrow> u32 \<Rightarrow> ('d, unit) redM" where
  "format_imap_nodes cf 0 blk = skipR"
| "format_imap_nodes cf (Suc n) blk =
     bindR (RedBufferGet cf blk (BFLAG_META_IMAP OR BFLAG_NEW OR BFLAG_DIRTY)) (\<lambda>pImap.
     bindR (modR (RedBufferPut cf (Some pImap))) (\<lambda>_.
     format_imap_nodes cf n (blk + 1)))"

definition format_imap :: "'d redconf \<Rightarrow> ('d, unit) redM" where
  "format_imap cf = getR (\<lambda>s.
     let c = gpRedCoreVol s; limit = ulImapStartBN c + ulImapNodeCount c * 2 in
     if REDCONF_IMAP_EXTERNAL cf \<and> \<not> fImapInline c
     then format_imap_nodes cf (unat limit - unat (ulImapStartBN c)) (ulImapStartBN c)
     else skipR)"

text \<open>The first metaroot.\<close>

definition format_metaroot :: "'d redconf \<Rightarrow> ('d, unit) redM" where
  "format_metaroot cf = getR (\<lambda>s.
     bindR (modR (upd_mr (\<lambda>_. (metaroot0 cf)\<lparr>ulFreeBlocks := ulBlocksAllocable (gpRedVolume s),
       ulFreeInodes := (if REDCONF_API_POSIX cf then ulInodeCount (gpRedVolConf cf s) else 0),
       ulAllocNextBlock := ulFirstAllocableBN (gpRedCoreVol s)\<rparr>))) (\<lambda>_.
     bindR (modR (upd_core (\<lambda>c. c\<lparr>fBranched := True\<rparr>))) (\<lambda>_.
     RedVolTransact cf)))"

text \<open>Create an inode and put it.\<close>

definition format_inode :: "'d redconf \<Rightarrow> u32 \<Rightarrow> u16 \<Rightarrow> ('d, unit) redM" where
  "format_inode cf n uMode =
     local_ino n (bindR (RedInodeCreate cf INODE_INVALID uMode) (\<lambda>_. modR (RedInodePut cf 0)))"

text \<open>
  The files of the FSE API. The loop does not stop at an error, so the status is the one of the
  last file.
\<close>

fun format_files :: "'d redconf \<Rightarrow> nat \<Rightarrow> u32 \<Rightarrow> ('d, unit) redM" where
  "format_files cf 0 n = skipR"
| "format_files cf (Suc k) n =
     (if k = 0 then format_inode cf n RED_S_IFREG
      else tryR (format_inode cf n RED_S_IFREG) (\<lambda>_. format_files cf k (n + 1)))"

definition format_inodes :: "'d redconf \<Rightarrow> ('d, unit) redM" where
  "format_inodes cf = getR (\<lambda>s.
     if REDCONF_API_POSIX cf then format_inode cf INODE_ROOTDIR RED_S_IFDIR
     else format_files cf (unat (ulInodeCount (gpRedVolConf cf s))) (INODE_FIRST_FREE cf))"

text \<open>The members of the master block.\<close>

definition master_fields :: "'d redconf \<Rightarrow> 'd redstate \<Rightarrow> bytes \<Rightarrow> bytes" where
  "master_fields cf s p =
     (let be = REDCONF_ENDIAN_BIG cf;
          p = st32 be p MASTER_ulVersion RED_DISK_LAYOUT_VERSION;
          p = (case RedStrNCpy (Some (drop MASTER_acBuildNum p)) (Some RED_BUILD_NUMBER) 8 of
                 Some q \<Rightarrow> take MASTER_acBuildNum p @ q | None \<Rightarrow> p);
          p = st32 be p MASTER_ulFormatTime (RedOsClockGetTime cf (bdev s));
          p = st32 be p MASTER_ulInodeCount (ulInodeCount (gpRedVolConf cf s));
          p = st32 be p MASTER_ulBlockCount (ulBlockCount (gpRedVolume s));
          p = st16 be p MASTER_uMaxNameLen (of_nat (REDCONF_NAME_MAX cf));
          p = st16 be p MASTER_uDirectPointers (of_nat (REDCONF_DIRECT_POINTERS cf));
          p = st16 be p MASTER_uIndirectPointers (of_nat (REDCONF_INDIRECT_POINTERS cf));
          p = p[MASTER_bBlockSizeP2 := BLOCK_SIZE_P2 cf];
          f1 = (if REDCONF_API_POSIX cf then p ! MASTER_bFlags OR MBFLAG_API_POSIX else p ! MASTER_bFlags);
          f2 = (if REDCONF_INODE_TIMESTAMPS cf then f1 OR MBFLAG_INODE_TIMESTAMPS else f1);
          f3 = (if REDCONF_INODE_BLOCKS cf then f2 OR MBFLAG_INODE_BLOCKS else f2);
          f4 = (if REDCONF_API_POSIX cf \<and> REDCONF_API_POSIX_LINK cf then f3 OR MBFLAG_INODE_NLINK else f3)
      in p[MASTER_bFlags := f4])"

definition format_master :: "'d redconf \<Rightarrow> ('d, unit) redM" where
  "format_master cf =
     bindR (RedBufferGet cf BLOCK_NUM_MASTER (BFLAG_META_MASTER OR BFLAG_NEW OR BFLAG_DIRTY)) (\<lambda>pMB.
     bindR (modR (\<lambda>s. set_buf pMB (master_fields cf s (aabBuffer s ! pMB)) s)) (\<lambda>_.
     bindR (finR (RedBufferFlush cf BLOCK_NUM_MASTER 1) (RedBufferPut cf (Some pMB))) (\<lambda>_.
     getR (\<lambda>s. RedIoFlush cf (gbRedVolNum s)))))"

definition format_volume :: "'d redconf \<Rightarrow> ('d, unit) redM" where
  "format_volume cf =
     bindR (format_clear_master cf) (\<lambda>_.
     bindR (format_imap cf) (\<lambda>_.
     bindR (format_metaroot cf) (\<lambda>_.
     bindR (format_inodes cf) (\<lambda>_.
     bindR (RedVolTransact cf) (\<lambda>_.
     format_master cf)))))"

definition RedVolFormat :: "'d redconf \<Rightarrow> ('d, unit) redM" where
  "RedVolFormat cf = getR (\<lambda>s.
     if fMounted (gpRedVolume s) then failR RED_EBUSY
     else
       bindR (dev_call (RedOsBDevOpen cf (gbRedVolNum s) BDEV_O_RDWR)) (\<lambda>_.
       bindR (tryR (format_volume cf) (\<lambda>ret. getR (\<lambda>s.
         tryR (dev_call (RedOsBDevClose cf (gbRedVolNum s))) (\<lambda>ret2.
         case ret of Inr _ \<Rightarrow> (case ret2 of Inr _ \<Rightarrow> skipR | Inl e \<Rightarrow> failR e) | Inl e \<Rightarrow> failR e)))) (\<lambda>_.
       getR (\<lambda>s. RedBufferDiscardRange cf 0 (ulBlockCount (gpRedVolume s))))))"

definition RedCoreVolFormat :: "'d redconf \<Rightarrow> ('d, unit) redM" where
  "RedCoreVolFormat cf = RedVolFormat cf"

end
