(* ===== verification/CoreOps.thy ===== *)
theory CoreOps
  imports Format
begin

text \<open>
  The operations on files and directories (\<^verbatim>\<open>core/driver/core.c\<close>). The public functions guard the
  volume, retry once after a transaction when the disk is full but blocks are almost free, and
  commit automatically when the transaction mask says so; the static functions do the work on cached
  inodes that are local variables.
\<close>

section \<open>The pattern of the public functions\<close>

text \<open>The volume must be mounted and writable.\<close>

definition writable :: "('d, 'a) redM \<Rightarrow> ('d, 'a) redM" where
  "writable m = getR (\<lambda>s.
     if \<not> fMounted (gpRedVolume s) then failR RED_EINVAL
     else if fReadOnly (gpRedVolume s) then failR RED_EROFS
     else m)"

definition not_read_only :: "('d, 'a) redM \<Rightarrow> ('d, 'a) redM" where
  "not_read_only m = getR (\<lambda>s. if fReadOnly (gpRedVolume s) then failR RED_EROFS else m)"

text \<open>Retry after a transaction that frees the almost free blocks.\<close>

definition retry_full :: "'d redconf \<Rightarrow> ('d, 'a) redM \<Rightarrow> ('d, 'a) redM" where
  "retry_full cf m = tryR m (\<lambda>r. getR (\<lambda>s.
     case r of
       Inr x \<Rightarrow> retR x
     | Inl e \<Rightarrow>
         if e = RED_ENOSPC \<and> trans_on s RED_TRANSACT_VOLFULL \<and> ulAlmostFreeBlocks (gpRedCoreVol s) > 0
         then bindR (RedVolTransact cf) (\<lambda>_. m)
         else failR e))"

definition auto_transact :: "'d redconf \<Rightarrow> u32 \<Rightarrow> ('d, unit) redM" where
  "auto_transact cf ev = getR (\<lambda>s. if trans_on s ev then RedVolTransact cf else skipR)"

definition core_op :: "'d redconf \<Rightarrow> u32 \<Rightarrow> ('d, 'a) redM \<Rightarrow> ('d, 'a) redM" where
  "core_op cf ev m =
     writable (bindR (retry_full cf m) (\<lambda>x. bindR (auto_transact cf ev) (\<lambda>_. retR x)))"

text \<open>Run \<open>m\<close> and leave with \<open>f\<close>, which is told whether \<open>m\<close> succeeded.\<close>

definition exitR :: "('s, 'a) red \<Rightarrow> (bool \<Rightarrow> 's \<Rightarrow> 's) \<Rightarrow> ('s, 'a) red" where
  "exitR m f = (\<lambda>s. case m s of (r, s') \<Rightarrow> (r, f (case r of Inl _ \<Rightarrow> False | Inr _ \<Rightarrow> True) s'))"

section \<open>A parent and a child\<close>

type_synonym ('d, 'a) twoM = "((CINODE \<times> CINODE) \<times> 'd redstate, 'a) red"

definition on_pino :: "('d, 'a) inoM \<Rightarrow> ('d, 'a) twoM" where
  "on_pino m = (\<lambda>((p, c), s). case m (p, s) of (r, (p', s')) \<Rightarrow> (r, ((p', c), s')))"

definition on_child :: "('d, 'a) inoM \<Rightarrow> ('d, 'a) twoM" where
  "on_child m = (\<lambda>((p, c), s). case m (c, s) of (r, (c', s')) \<Rightarrow> (r, ((p, c'), s')))"

definition getT :: "(CINODE \<Rightarrow> CINODE \<Rightarrow> 'd redstate \<Rightarrow> ('d, 'a) twoM) \<Rightarrow> ('d, 'a) twoM" where
  "getT f = (\<lambda>((p, c), s). f p c s ((p, c), s))"

definition modT :: "('d redstate \<Rightarrow> 'd redstate) \<Rightarrow> ('d, unit) twoM" where
  "modT f = modR (\<lambda>(x, s). (x, f s))"

definition local_two :: "u32 \<Rightarrow> ('d, 'a) twoM \<Rightarrow> ('d, 'a) redM" where
  "local_two n m = (\<lambda>s. case m ((cinode0 n, cinode0 0), s) of (r, (x, s')) \<Rightarrow> (r, s'))"

definition put_pino :: "'d redconf \<Rightarrow> u8 \<Rightarrow> (CINODE \<times> CINODE) \<times> 'd redstate \<Rightarrow> (CINODE \<times> CINODE) \<times> 'd redstate" where
  "put_pino cf fl = (\<lambda>((p, c), s). case RedInodePut cf fl (p, s) of (p', s') \<Rightarrow> ((p', c), s'))"

definition put_child :: "'d redconf \<Rightarrow> u8 \<Rightarrow> (CINODE \<times> CINODE) \<times> 'd redstate \<Rightarrow> (CINODE \<times> CINODE) \<times> 'd redstate" where
  "put_child cf fl = (\<lambda>((p, c), s). case RedInodePut cf fl (c, s) of (c', s') \<Rightarrow> ((p, c'), s'))"

abbreviation IPUT_MCTIME :: u8 where
  "IPUT_MCTIME \<equiv> IPUT_UPDATE_MTIME OR IPUT_UPDATE_CTIME"

text \<open>\<^verbatim>\<open>CRITICAL_ASSERT( ret == 0 )\<close> on the status of \<open>m\<close>, which is then returned.\<close>

definition critical_assertT :: "('d, 'a) twoM \<Rightarrow> ('d, 'a) twoM" where
  "critical_assertT m = tryR m (\<lambda>r.
     case r of Inl e \<Rightarrow> bindR (modT RedVolCriticalError) (\<lambda>_. failR e) | Inr x \<Rightarrow> retR x)"

section \<open>Creating\<close>

definition CoreCreate :: "'d redconf \<Rightarrow> u32 \<Rightarrow> bytes option \<Rightarrow> bool \<Rightarrow> ('d, u32) redM" where
  "CoreCreate cf ulPInode pszName fDir =
     not_read_only (local_two ulPInode (
       bindR (on_pino (RedInodeMount cf FTYPE_DIR False)) (\<lambda>_.
       exitR (
         bindR (on_child (RedInodeCreate cf ulPInode (if fDir then RED_S_IFDIR else RED_S_IFREG))) (\<lambda>_.
         exitR (
           tryR (bindR (on_pino (RedInodeBranch cf)) (\<lambda>_. getT (\<lambda>p c s.
                 on_pino (RedDirEntryCreate cf pszName (ci_ulInode c))))) (\<lambda>r.
           case r of
             Inr _ \<Rightarrow> getT (\<lambda>p c s. retR (ci_ulInode c))
           | Inl e \<Rightarrow>
               tryR (on_child (RedInodeFree cf)) (\<lambda>r2.
               case r2 of
                 Inr _ \<Rightarrow> failR e
               | Inl _ \<Rightarrow> bindR (modT RedVolCriticalError) (\<lambda>_. failR e))))
         (\<lambda>_. put_child cf 0)))
       (\<lambda>ok. put_pino cf (if ok then IPUT_MCTIME else 0)))))"

definition RedCoreCreate :: "'d redconf \<Rightarrow> u32 \<Rightarrow> bytes option \<Rightarrow> bool \<Rightarrow> ('d, u32) redM" where
  "RedCoreCreate cf ulPInode pszName fDir =
     core_op cf (if fDir then RED_TRANSACT_MKDIR else RED_TRANSACT_CREAT) (CoreCreate cf ulPInode pszName fDir)"

section \<open>Linking and unlinking\<close>

text \<open>Mount the inode that is linked; a directory is not permitted.\<close>

definition link_mount :: "'d redconf \<Rightarrow> u32 \<Rightarrow> ('d, unit) twoM" where
  "link_mount cf ulInode =
     bindR (on_child (modC (\<lambda>_. cinode0 ulInode))) (\<lambda>_.
     tryR (on_child (RedInodeMount cf FTYPE_FILE False)) (\<lambda>r.
     case r of Inr _ \<Rightarrow> skipR | Inl e \<Rightarrow> failR (if e = RED_EISDIR then RED_EPERM else e)))"

definition CoreLink :: "'d redconf \<Rightarrow> u32 \<Rightarrow> bytes option \<Rightarrow> u32 \<Rightarrow> ('d, unit) redM" where
  "CoreLink cf ulPInode pszName ulInode =
     not_read_only (local_two ulPInode (
       bindR (on_pino (RedInodeMount cf FTYPE_DIR False)) (\<lambda>_.
       exitR (
         bindR (link_mount cf ulInode) (\<lambda>_.
         exitR (getT (\<lambda>p c s.
           if ldb16 cf (the (pInodeBuf c)) (INODE_uNLink cf) s = 0xFFFF then failR RED_EMLINK
           else
             bindR (on_pino (RedInodeBranch cf)) (\<lambda>_.
             bindR (on_child (RedInodeBranch cf)) (\<lambda>_. getT (\<lambda>p c s.
             bindR (on_pino (RedDirEntryCreate cf pszName (ci_ulInode c))) (\<lambda>_. getT (\<lambda>p c s.
             let i = the (pInodeBuf c) in
             modT (stb16 cf i (INODE_uNLink cf) (ldb16 cf i (INODE_uNLink cf) s + 1)))))))))
         (\<lambda>ok. put_child cf (if ok then IPUT_UPDATE_CTIME else 0))))
       (\<lambda>ok. put_pino cf (if ok then IPUT_MCTIME else 0)))))"

definition RedCoreLink :: "'d redconf \<Rightarrow> u32 \<Rightarrow> bytes option \<Rightarrow> u32 \<Rightarrow> ('d, unit) redM" where
  "RedCoreLink cf ulPInode pszName ulInode = core_op cf RED_TRANSACT_LINK (CoreLink cf ulPInode pszName ulInode)"

text \<open>Run \<open>m\<close> with the reserved blocks free for use, if there are any.\<close>

definition with_reserved :: "'d redconf \<Rightarrow> bool \<Rightarrow> ('s \<times> 'd redstate, 'a) red \<Rightarrow> ('s \<times> 'd redstate, 'a) red" where
  "with_reserved cf f m =
     (if RESERVED_BLOCKS cf > 0 then
        bindR (modR (\<lambda>(x, s). (x, upd_core (\<lambda>c. c\<lparr>fUseReservedBlocks := f\<rparr>) s))) (\<lambda>_.
        finR m (\<lambda>(x, s). (x, upd_core (\<lambda>c. c\<lparr>fUseReservedBlocks := False\<rparr>) s)))
      else m)"

text \<open>Delete the entry and the link of a child that is mounted.\<close>

definition unlink_child :: "'d redconf \<Rightarrow> u32 \<Rightarrow> ('d, unit) twoM" where
  "unlink_child cf ulDeleteIdx = getT (\<lambda>p c s.
     if fDirectory c \<and> inode_size cf c s > 0 then failR RED_ENOTEMPTY
     else
       bindR (with_reserved cf True (on_pino (RedDirEntryDelete cf ulDeleteIdx))) (\<lambda>_.
       bindR (on_pino (modR (RedInodePutCoord cf))) (\<lambda>_.
       critical_assertT (on_child (RedInodeLinkDec cf)))))"

text \<open>
  When the lookup ends behind the entries of a directory whose last block is sparse, the number of
  the inode is the local variable \<^verbatim>\<open>ulInode\<close>, which is not initialized; the model takes 0 for it.
\<close>

definition CoreUnlink :: "'d redconf \<Rightarrow> u32 \<Rightarrow> bytes option \<Rightarrow> ('d, unit) redM" where
  "CoreUnlink cf ulPInode pszName =
     not_read_only (local_two ulPInode (
       bindR (on_pino (RedInodeMount cf FTYPE_DIR False)) (\<lambda>_.
       exitR (
         bindR (on_pino (RedDirEntryLookup cf pszName 0)) (\<lambda>(ret, ulDeleteIdx, ulInode).
         case ret of
           Some e \<Rightarrow> failR e
         | None \<Rightarrow>
             bindR (on_pino (RedInodeBranch cf)) (\<lambda>_.
             bindR (on_child (bindR (modC (\<lambda>_. cinode0 ulInode)) (\<lambda>_. RedInodeMount cf FTYPE_EITHER False))) (\<lambda>_.
             exitR (unlink_child cf ulDeleteIdx)
               (\<lambda>ok. put_child cf (if ok then IPUT_UPDATE_CTIME else 0))))))
       (\<lambda>ok. put_pino cf (if ok then IPUT_MCTIME else 0)))))"

definition RedCoreUnlink :: "'d redconf \<Rightarrow> u32 \<Rightarrow> bytes option \<Rightarrow> ('d, unit) redM" where
  "RedCoreUnlink cf ulPInode pszName = core_op cf RED_TRANSACT_UNLINK (CoreUnlink cf ulPInode pszName)"

section \<open>Looking up\<close>

text \<open>\<open>ino0\<close> is \<^verbatim>\<open>*pulInode\<close> before the call.\<close>

definition RedCoreLookup :: "'d redconf \<Rightarrow> u32 \<Rightarrow> bytes option \<Rightarrow> u32 \<Rightarrow> ('d, u32) redM" where
  "RedCoreLookup cf ulPInode pszName ino0 = getR (\<lambda>s.
     if \<not> fMounted (gpRedVolume s) then failR RED_EINVAL
     else local_ino ulPInode (
       bindR (RedInodeMount cf FTYPE_DIR False) (\<lambda>_.
       finR (bindR (RedDirEntryLookup cf pszName ino0) (\<lambda>(ret, _, ulInode).
             case ret of None \<Rightarrow> retR ulInode | Some e \<Rightarrow> failR e))
         (RedInodePut cf 0))))"

section \<open>Renaming\<close>

definition put_ren :: "(RENAME \<Rightarrow> CINODE) \<Rightarrow> (CINODE \<Rightarrow> RENAME \<Rightarrow> RENAME) \<Rightarrow> 'd redconf \<Rightarrow> u8 \<Rightarrow> RENAME \<times> 'd redstate \<Rightarrow> RENAME \<times> 'd redstate" where
  "put_ren sel put cf fl = (\<lambda>(n, s). case RedInodePut cf fl (sel n, s) of (c, s') \<Rightarrow> (put c n, s'))"

definition put_SrcP :: "'d redconf \<Rightarrow> u8 \<Rightarrow> RENAME \<times> 'd redstate \<Rightarrow> RENAME \<times> 'd redstate" where
  "put_SrcP = put_ren SrcPInode (\<lambda>c n. n\<lparr>SrcPInode := c\<rparr>)"

definition put_DstP :: "bool \<Rightarrow> 'd redconf \<Rightarrow> u8 \<Rightarrow> RENAME \<times> 'd redstate \<Rightarrow> RENAME \<times> 'd redstate" where
  "put_DstP same = (if same then put_SrcP else put_ren DstPInode (\<lambda>c n. n\<lparr>DstPInode := c\<rparr>))"

text \<open>Release the inode that the rename has replaced. Result: whether to update the timestamps.\<close>

definition rename_replaced :: "'d redconf \<Rightarrow> bool \<Rightarrow> ('d, bool) renM" where
  "rename_replaced cf same = getN (\<lambda>n s.
     let src = ci_ulInode (SrcInode n); dst = ci_ulInode (DstInode n) in
     if \<not> REDCONF_RENAME_ATOMIC cf then retR True
     else
       bindR (if dst \<noteq> INODE_INVALID \<and> dst \<noteq> src then
                bindR (on_SrcP (modR (RedInodePutCoord cf))) (\<lambda>_.
                bindR (on_DstP same (modR (RedInodePutCoord cf))) (\<lambda>_.
                on_Dst (critical_assertI (RedInodeLinkDec cf))))
              else skipR) (\<lambda>_. getN (\<lambda>n s.
       retR (ci_ulInode (DstInode n) \<noteq> ci_ulInode (SrcInode n)))))"

text \<open>
  The rename with both parents mounted. The inodes are put whatever happens, and the timestamps are
  updated when something was renamed; the result says whether.
\<close>

definition rename_mounted :: "'d redconf \<Rightarrow> bool \<Rightarrow> bytes option \<Rightarrow> bytes option \<Rightarrow> ('d, bool) renM" where
  "rename_mounted cf same pszSrcName pszDstName =
     tryR (bindR (RedDirEntryRename cf same pszSrcName pszDstName) (\<lambda>_. rename_replaced cf same)) (\<lambda>r.
     let upd = (case r of Inr f \<Rightarrow> f | Inl _ \<Rightarrow> False) in
     bindR (modR (\<lambda>x.
       put_DstP same cf (if upd then IPUT_MCTIME else 0)
         (put_ren SrcInode (\<lambda>c n. n\<lparr>SrcInode := c\<rparr>) cf (if upd then IPUT_UPDATE_CTIME else 0)
           (if REDCONF_RENAME_ATOMIC cf then put_ren DstInode (\<lambda>c n. n\<lparr>DstInode := c\<rparr>) cf 0 x else x)))) (\<lambda>_.
     case r of Inr f \<Rightarrow> retR f | Inl e \<Rightarrow> failR e))"

definition CoreRename :: "'d redconf \<Rightarrow> u32 \<Rightarrow> bytes option \<Rightarrow> u32 \<Rightarrow> bytes option \<Rightarrow> ('d, unit) redM" where
  "CoreRename cf ulSrcPInode pszSrcName ulDstPInode pszDstName =
     not_read_only (\<lambda>s.
       let same = (ulSrcPInode = ulDstPInode);
           n0 = \<lparr>SrcPInode = cinode0 ulSrcPInode, DstPInode = cinode0 ulDstPInode,
                 SrcInode = cinode0 0, DstInode = cinode0 0\<rparr>
       in case tryR (bindR (on_SrcP (RedInodeMount cf FTYPE_DIR True)) (\<lambda>_.
                 bindR (if same then skipR else on_DstP False (RedInodeMount cf FTYPE_DIR True)) (\<lambda>_.
                 rename_mounted cf same pszSrcName pszDstName))) (\<lambda>r.
               bindR (modR (put_SrcP cf (if r = Inr True then IPUT_MCTIME else 0))) (\<lambda>_.
               case r of Inr _ \<Rightarrow> skipR | Inl e \<Rightarrow> failR e)) (n0, s) of
            (r, (n, s')) \<Rightarrow> (r, s'))"

definition RedCoreRename :: "'d redconf \<Rightarrow> u32 \<Rightarrow> bytes option \<Rightarrow> u32 \<Rightarrow> bytes option \<Rightarrow> ('d, unit) redM" where
  "RedCoreRename cf ulSrcPInode pszSrcName ulDstPInode pszDstName =
     core_op cf RED_TRANSACT_RENAME (CoreRename cf ulSrcPInode pszSrcName ulDstPInode pszDstName)"

section \<open>Status\<close>

record REDSTAT =
  st_dev :: u8
  st_ino :: u32
  st_mode :: u16
  st_nlink :: u16
  st_size :: u64
  st_atime :: u32
  st_mtime :: u32
  st_ctime :: u32
  st_blocks :: u32

text \<open>The members that a configuration leaves out are 0 here.\<close>

definition RedCoreStat :: "'d redconf \<Rightarrow> u32 \<Rightarrow> ('d, REDSTAT) redM" where
  "RedCoreStat cf n = getR (\<lambda>s.
     if \<not> fMounted (gpRedVolume s) then failR RED_EINVAL
     else local_ino n (
       bindR (RedInodeMount cf FTYPE_EITHER False) (\<lambda>_. getI (\<lambda>c s.
       let i = the (pInodeBuf c); ts = (\<lambda>off. if REDCONF_INODE_TIMESTAMPS cf then ldb32 cf i off s else 0) in
       bindR (modR (RedInodePut cf 0)) (\<lambda>_.
       retR \<lparr>st_dev = gbRedVolNum s, st_ino = n, st_mode = ldb16 cf i (INODE_uMode cf) s,
             st_nlink = (if REDCONF_API_POSIX_LINK cf then ldb16 cf i (INODE_uNLink cf) s else 1),
             st_size = inode_size cf c s,
             st_atime = ts (INODE_ulATime cf), st_mtime = ts (INODE_ulMTime cf), st_ctime = ts (INODE_ulCTime cf),
             st_blocks = (if REDCONF_INODE_BLOCKS cf then ldb32 cf i INODE_ulBlocks s else 0)\<rparr>)))))"

definition RedCoreFileSizeGet :: "'d redconf \<Rightarrow> u32 \<Rightarrow> ('d, u64) redM" where
  "RedCoreFileSizeGet cf n = getR (\<lambda>s.
     if \<not> fMounted (gpRedVolume s) then failR RED_EINVAL
     else local_ino n (
       bindR (RedInodeMount cf FTYPE_FILE False) (\<lambda>_. getI (\<lambda>c s.
       bindR (modR (RedInodePut cf 0)) (\<lambda>_. retR (inode_size cf c s))))))"

section \<open>Files\<close>

definition RedCoreFileRead :: "'d redconf \<Rightarrow> u32 \<Rightarrow> u64 \<Rightarrow> u32 \<Rightarrow> bytes \<Rightarrow> ('d, u32 \<times> bytes) redM" where
  "RedCoreFileRead cf n ullStart ulLen buf = getR (\<lambda>s.
     if \<not> fMounted (gpRedVolume s) then failR RED_EINVAL
     else
       let fUpdateAtime = (REDCONF_ATIME cf \<and> ulLen > 0 \<and> \<not> fReadOnly (gpRedVolume s)) in
       local_ino n (
         bindR (RedInodeMount cf FTYPE_FILE fUpdateAtime) (\<lambda>_.
         exitR (RedInodeDataRead cf ullStart ulLen buf)
           (\<lambda>ok. RedInodePut cf (if ok \<and> fUpdateAtime then IPUT_UPDATE_ATIME else 0)))))"

definition CoreFileWrite :: "'d redconf \<Rightarrow> u32 \<Rightarrow> u64 \<Rightarrow> u32 \<Rightarrow> bytes \<Rightarrow> ('d, u32) redM" where
  "CoreFileWrite cf n ullStart ulLen src =
     not_read_only (local_ino n (
       bindR (RedInodeMount cf FTYPE_FILE True) (\<lambda>_.
       exitR (RedInodeDataWrite cf ullStart ulLen src) (\<lambda>ok. RedInodePut cf (if ok then IPUT_MCTIME else 0)))))"

definition RedCoreFileWrite :: "'d redconf \<Rightarrow> u32 \<Rightarrow> u64 \<Rightarrow> u32 \<Rightarrow> bytes \<Rightarrow> ('d, u32) redM" where
  "RedCoreFileWrite cf n ullStart ulLen src = core_op cf RED_TRANSACT_WRITE (CoreFileWrite cf n ullStart ulLen src)"

definition CoreFileTruncate :: "'d redconf \<Rightarrow> u32 \<Rightarrow> u64 \<Rightarrow> ('d, unit) redM" where
  "CoreFileTruncate cf n ullSize =
     not_read_only (local_ino n (
       bindR (RedInodeMount cf FTYPE_FILE True) (\<lambda>_.
       exitR (getI (\<lambda>c s. with_reserved cf (ullSize < inode_size cf c s) (RedInodeDataTruncate cf ullSize)))
         (\<lambda>ok. RedInodePut cf (if ok then IPUT_MCTIME else 0)))))"

definition RedCoreFileTruncate :: "'d redconf \<Rightarrow> u32 \<Rightarrow> u64 \<Rightarrow> ('d, unit) redM" where
  "RedCoreFileTruncate cf n ullSize = core_op cf RED_TRANSACT_TRUNCATE (CoreFileTruncate cf n ullSize)"

section \<open>Directories\<close>

text \<open>Result: the status and what \<open>RedDirEntryRead\<close> has put into the out-parameters.\<close>

definition RedCoreDirRead ::
  "'d redconf \<Rightarrow> u32 \<Rightarrow> u32 \<Rightarrow> bytes \<Rightarrow> u32 \<Rightarrow> ('d, red_err option \<times> u32 \<times> bytes \<times> u32) redM" where
  "RedCoreDirRead cf n ulPos buf ino0 = getR (\<lambda>s.
     if \<not> fMounted (gpRedVolume s) then failR RED_EINVAL
     else local_ino n (
       bindR (RedInodeMount cf FTYPE_DIR False) (\<lambda>_.
       tryR (RedDirEntryRead cf ulPos buf ino0) (\<lambda>r.
       case r of
         Inl e \<Rightarrow> bindR (modR (RedInodePut cf 0)) (\<lambda>_. failR e)
       | Inr (ret, out) \<Rightarrow> getI (\<lambda>c s.
           if \<not> REDCONF_ATIME cf then bindR (modR (RedInodePut cf 0)) (\<lambda>_. retR (ret, out))
           else
             bindR (tryR (if ret = None \<and> \<not> fReadOnly (gpRedVolume s) then RedInodeBranch cf else skipR) (\<lambda>r2.
               retR (case r2 of Inl e \<Rightarrow> Some e | Inr _ \<Rightarrow> ret))) (\<lambda>ret2. getI (\<lambda>c s.
             bindR (modR (RedInodePut cf (if ret2 = None \<and> \<not> fReadOnly (gpRedVolume s) then IPUT_UPDATE_ATIME else 0))) (\<lambda>_.
             retR (ret2, out)))))))))"

end
