(* ===== verification/Path.thy ===== *)
theory Path
  imports CoreOps
begin

text \<open>
  Paths (\<^verbatim>\<open>posix/path.c\<close>): the volume a path belongs to, and the walk through the directories to the
  parent of the last name. A pointer into a path is the rest of the string with its terminator;
  reading behind the end is an assertion and \<open>RED_EFUBAR\<close>, as everywhere in the model.
\<close>

definition deref :: "'a option \<Rightarrow> ('d, 'a) redM" where
  "deref r = (case r of None \<Rightarrow> rederrorR RED_EFUBAR | Some x \<Rightarrow> retR x)"

text \<open>The loop over the separators; the result begins with the first character that is none.\<close>

fun skip_seps :: "u8 \<Rightarrow> bytes \<Rightarrow> bytes option" where
  "skip_seps sep [] = None"
| "skip_seps sep (c # cs) = (if c = sep then skip_seps sep cs else Some (c # cs))"

definition IsRootDir :: "'d redconf \<Rightarrow> bytes option \<Rightarrow> ('d, bool) redM" where
  "IsRootDir cf pszLocalPath =
     (case pszLocalPath of
        None \<Rightarrow> bindR (modR REDERROR) (\<lambda>_. retR False)
      | Some s \<Rightarrow> bindR (deref (skip_seps (REDCONF_PATH_SEPARATOR cf) s)) (\<lambda>r.
          retR (length r < length s \<and> hd r = 0)))"

definition PathHasMoreNames :: "'d redconf \<Rightarrow> bytes option \<Rightarrow> ('d, bool) redM" where
  "PathHasMoreNames cf pszPathIdx =
     (case pszPathIdx of
        None \<Rightarrow> bindR (modR REDERROR) (\<lambda>_. retR False)
      | Some s \<Rightarrow> bindR (deref (skip_seps (REDCONF_PATH_SEPARATOR cf) s)) (\<lambda>r. retR (hd r \<noteq> 0)))"

section \<open>The volume of a path\<close>

text \<open>The path begins with the prefix, which is followed by the end or a separator.\<close>

definition prefix_matches :: "u8 \<Rightarrow> bytes \<Rightarrow> bytes option \<Rightarrow> nat \<Rightarrow> bool option" where
  "prefix_matches sep pszPath pszPrefix n =
     (case RedStrNCmp (Some pszPath) pszPrefix n of
        None \<Rightarrow> None
      | Some r \<Rightarrow>
          if r \<noteq> 0 then Some False
          else if n < length pszPath then Some (pszPath ! n = 0 \<or> pszPath ! n = sep)
          else None)"

text \<open>The loop over the volumes: the volume matched, the length of its prefix, the default volume.\<close>

fun split_volumes :: "'d redconf \<Rightarrow> bytes \<Rightarrow> nat list \<Rightarrow> u8 \<Rightarrow> u32 \<Rightarrow> u8 \<Rightarrow> ('d, u8 \<times> u32 \<times> u8) redM" where
  "split_volumes cf pszPath [] bMatchVol ulMatchLen bDefaultVolNum = retR (bMatchVol, ulMatchLen, bDefaultVolNum)"
| "split_volumes cf pszPath (v # vs) bMatchVol ulMatchLen bDefaultVolNum =
     (let pszPrefix = pszPathPrefix (gaRedVolConf cf (of_nat v)) in
      bindR (deref (RedStrLen pszPrefix)) (\<lambda>len.
      let ulPrefixLen = of_nat len in
      if ulPrefixLen = 0 then
        bindR (modR (REDASSERT (bDefaultVolNum = 0xFF))) (\<lambda>_.
        split_volumes cf pszPath vs bMatchVol ulMatchLen (of_nat v))
      else
        bindR (deref (prefix_matches (REDCONF_PATH_SEPARATOR cf) pszPath pszPrefix (unat ulPrefixLen))) (\<lambda>m.
        if m then
          bindR (modR (REDASSERT (ulPrefixLen \<noteq> ulMatchLen))) (\<lambda>_.
          if ulPrefixLen > ulMatchLen then split_volumes cf pszPath vs (of_nat v) ulPrefixLen bDefaultVolNum
          else split_volumes cf pszPath vs bMatchVol ulMatchLen bDefaultVolNum)
        else split_volumes cf pszPath vs bMatchVol ulMatchLen bDefaultVolNum)))"

text \<open>
  \<open>fLocal\<close> says whether the caller takes a local path (\<^verbatim>\<open>ppszLocalPath\<close> is not NULL). Result: the
  volume and the local path.
\<close>

definition RedPathSplit :: "'d redconf \<Rightarrow> bytes option \<Rightarrow> bool \<Rightarrow> ('d, u8 \<times> bytes) redM" where
  "RedPathSplit cf pszPath fLocal =
     (case pszPath of
        None \<Rightarrow> failR RED_EINVAL
      | Some path \<Rightarrow>
          bindR (split_volumes cf path [0..<REDCONF_VOLUME_COUNT cf] 0xFF 0 0xFF) (\<lambda>(bMatchVol, ulMatchLen, bDefaultVolNum).
          bindR (if bMatchVol \<noteq> 0xFF then retR (bMatchVol, drop (unat ulMatchLen) path)
                 else if bDefaultVolNum \<noteq> 0xFF then retR (bDefaultVolNum, path)
                 else failR RED_ENOENT) (\<lambda>(bVolNum, pszLocalPath).
          if fLocal then retR (bVolNum, pszLocalPath)
          else if pszLocalPath = [] then rederrorR RED_EFUBAR
          else if hd pszLocalPath \<noteq> 0 then
            bindR (IsRootDir cf (Some pszLocalPath)) (\<lambda>root.
            if root then retR (bVolNum, pszLocalPath) else failR RED_ENOENT)
          else retR (bVolNum, pszLocalPath))))"

section \<open>The inode of a path\<close>

text \<open>
  The loop over the names: the inode the next name is looked up in, the parent of the last name and
  the last name. Every pass but the last consumes a character, so there are at most as many passes as
  the string has characters.
\<close>

fun walk_path :: "'d redconf \<Rightarrow> nat \<Rightarrow> bytes \<Rightarrow> u32 \<Rightarrow> u32 \<Rightarrow> bytes \<Rightarrow> ('d, u32 \<times> bytes) redM" where
  "walk_path cf 0 p ulInode ulPInode pszName = rederrorR RED_EFUBAR"
| "walk_path cf (Suc n) p ulInode ulPInode pszName =
     bindR (deref (skip_seps (REDCONF_PATH_SEPARATOR cf) p)) (\<lambda>q.
     if hd q = 0 then retR (ulPInode, pszName)
     else
       bindR (deref (RedNameLen (REDCONF_PATH_SEPARATOR cf) (Some q))) (\<lambda>ulNameLen.
       bindR (PathHasMoreNames cf (Some (drop ulNameLen q))) (\<lambda>more.
       bindR (if more then RedCoreLookup cf ulInode (Some q) ulInode else retR ulInode) (\<lambda>next_inode.
       walk_path cf n (drop ulNameLen q) next_inode ulInode q))))"

definition RedPathToName :: "'d redconf \<Rightarrow> bytes option \<Rightarrow> ('d, u32 \<times> bytes) redM" where
  "RedPathToName cf pszLocalPath =
     (case pszLocalPath of
        None \<Rightarrow> rederrorR RED_EINVAL
      | Some s \<Rightarrow>
          bindR (IsRootDir cf pszLocalPath) (\<lambda>root.
          if root then failR RED_EINVAL
          else if hd s = 0 then failR RED_ENOENT
          else walk_path cf (length s) s INODE_ROOTDIR INODE_INVALID s))"

text \<open>\<open>ino0\<close> is \<^verbatim>\<open>*pulInode\<close> before the call.\<close>

definition RedPathLookup :: "'d redconf \<Rightarrow> bytes option \<Rightarrow> u32 \<Rightarrow> ('d, u32) redM" where
  "RedPathLookup cf pszLocalPath ino0 =
     (case pszLocalPath of
        None \<Rightarrow> rederrorR RED_EINVAL
      | Some s \<Rightarrow>
          if s = [] then rederrorR RED_EFUBAR
          else if hd s = 0 then failR RED_ENOENT
          else
            bindR (IsRootDir cf pszLocalPath) (\<lambda>root.
            if root then retR INODE_ROOTDIR
            else
              bindR (RedPathToName cf pszLocalPath) (\<lambda>(ulPInode, pszName).
              RedCoreLookup cf ulPInode (Some pszName) ino0)))"

end
