(* ===== verification/CoreCorrect.thy ===== *)
theory CoreCorrect
  imports Path Samples
begin

text \<open>
  The layout of the volumes that initialization computes, the operations on a volume that is
  read-only, and the walk along a path.
\<close>

section \<open>Initialization\<close>















section \<open>A volume that is read-only\<close>

lemma critical_vol:
  "fMounted (gpRedVolume (RedVolCriticalError s)) = fMounted (gpRedVolume s)" "fReadOnly (gpRedVolume (RedVolCriticalError s))"
  by (simp_all add: RedVolCriticalError_def REDERROR_def gpRedVolume_def upd_vol_def)

lemma core_op_frozen:
  "fMounted (gpRedVolume s) \<Longrightarrow> core_op cf ev op (RedVolCriticalError s) = (Inl RED_EROFS, RedVolCriticalError s)"
  by (simp add: core_op_def writable_def red_simps critical_vol)

text \<open>
  After a critical error on a mounted volume, every operation that would change the volume fails
  with \<open>RED_EROFS\<close> and does nothing: creating, linking, deleting, renaming, writing, truncating,
  committing and setting the transaction mask.
\<close>

lemma critical_error_freezes:
  assumes "fMounted (gpRedVolume s)" and "m AND RED_TRANSACT_MASK cf = m"
  shows "let s' = RedVolCriticalError s in
    RedCoreCreate cf n nm d s' = (Inl RED_EROFS, s') \<and> RedCoreLink cf n nm k s' = (Inl RED_EROFS, s')
    \<and> RedCoreUnlink cf n nm s' = (Inl RED_EROFS, s') \<and> RedCoreRename cf n nm k nm' s' = (Inl RED_EROFS, s')
    \<and> RedCoreFileWrite cf n off len buf s' = (Inl RED_EROFS, s') \<and> RedCoreFileTruncate cf n off s' = (Inl RED_EROFS, s')
    \<and> RedCoreVolTransact cf s' = (Inl RED_EROFS, s') \<and> RedCoreTransMaskSet cf m s' = (Inl RED_EROFS, s')"
  using assms by (simp add: Let_def core_op_frozen RedCoreCreate_def RedCoreLink_def RedCoreUnlink_def RedCoreRename_def
    RedCoreFileWrite_def RedCoreFileTruncate_def RedCoreVolTransact_def RedCoreTransMaskSet_def red_simps critical_vol)

lemma critical_error_freezes_witness:
  "RedCoreFileWrite sample_cf 3 0 5 [1, 2, 3, 4, 5] (RedVolCriticalError (sample_state\<lparr>gaRedVolume := (\<lambda>_. sample_vol\<lparr>fMounted := True\<rparr>)\<rparr>))
   = (Inl RED_EROFS, RedVolCriticalError (sample_state\<lparr>gaRedVolume := (\<lambda>_. sample_vol\<lparr>fMounted := True\<rparr>)\<rparr>))"
proof -
  have "fMounted (gpRedVolume (sample_state\<lparr>gaRedVolume := (\<lambda>_. sample_vol\<lparr>fMounted := True\<rparr>)\<rparr>))"
    by (simp add: gpRedVolume_def)
  from critical_error_freezes [OF this, of 0 sample_cf] show ?thesis by (simp add: Let_def)
qed

section \<open>Paths\<close>

text \<open>The names of a path, each as the rest of the path that begins with it.\<close>

fun name_starts :: "u8 \<Rightarrow> bytes \<Rightarrow> bool \<Rightarrow> bytes list" where
  "name_starts sep [] inside = []"
| "name_starts sep (c # cs) inside =
     (if c = 0 then []
      else if c = sep then name_starts sep cs False
      else if inside then name_starts sep cs True
      else (c # cs) # name_starts sep cs True)"

text \<open>Look the names up one after the other, each in the directory found before.\<close>

fun lookup_names :: "'d redconf \<Rightarrow> u32 \<Rightarrow> bytes list \<Rightarrow> ('d, u32) redM" where
  "lookup_names cf n [] = retR n"
| "lookup_names cf n (q # qs) = bindR (RedCoreLookup cf n (Some q) n) (\<lambda>m. lookup_names cf m qs)"

lemma skip_seps_names:
  "0 \<in> set p \<Longrightarrow> sep \<noteq> 0 \<Longrightarrow> \<exists>q. skip_seps sep p = Some q \<and> 0 \<in> set q \<and> hd q \<noteq> sep \<and> q \<noteq> []
     \<and> length q \<le> length p \<and> (length q = length p \<longleftrightarrow> hd p \<noteq> sep) \<and> name_starts sep q False = name_starts sep p False"
  by (induction p) (auto simp: le_Suc_eq)

lemma name_starts_skip:
  "0 \<in> set q \<Longrightarrow> sep \<noteq> 0 \<Longrightarrow> \<exists>l. namelen_scan sep q = Some l \<and> 0 \<in> set (drop l q)
     \<and> name_starts sep q True = name_starts sep (drop l q) False \<and> (0 < l \<longleftrightarrow> hd q \<noteq> 0 \<and> hd q \<noteq> sep) \<and> l \<le> length q"
  by (induction q) auto

lemma name_starts_Nil: "q \<noteq> [] \<Longrightarrow> hd q \<noteq> sep \<Longrightarrow> name_starts sep q False = [] \<longleftrightarrow> hd q = 0"
  by (cases q) auto

lemma PathHasMoreNames_names:
  assumes "0 \<in> set p" and "REDCONF_PATH_SEPARATOR cf \<noteq> 0"
  shows "PathHasMoreNames cf (Some p) s = (Inr (name_starts (REDCONF_PATH_SEPARATOR cf) p False \<noteq> []), s)"
  using skip_seps_names [OF assms] name_starts_Nil [of _ "REDCONF_PATH_SEPARATOR cf"]
  by (fastforce simp: PathHasMoreNames_def deref_def red_simps)

lemma walk_path_names:
  assumes "REDCONF_PATH_SEPARATOR cf \<noteq> 0"
  shows "0 \<in> set p \<Longrightarrow> length p \<le> fuel \<Longrightarrow>
    walk_path cf fuel p ino pino nm s =
      (let qs = name_starts (REDCONF_PATH_SEPARATOR cf) p False in
       if qs = [] then (Inr (pino, nm), s)
       else bindR (lookup_names cf ino (butlast qs)) (\<lambda>n. retR (n, last qs)) s)"
proof (induction fuel arbitrary: p ino pino nm s)
  case (Suc fuel)
  let ?sep = "REDCONF_PATH_SEPARATOR cf"
  obtain q where q: "skip_seps ?sep p = Some q" "0 \<in> set q" "hd q \<noteq> ?sep" "q \<noteq> []" "length q \<le> length p"
    "name_starts ?sep q False = name_starts ?sep p False"
    using skip_seps_names [OF Suc.prems(1) assms] by blast
  show ?case
  proof (cases "hd q = 0")
    case True
    then show ?thesis using q(1,6) name_starts_Nil [OF q(4,3)] by (simp add: deref_def red_simps)
  next
    case False
    obtain c cs where qc: "q = c # cs" using q(4) by (cases q) auto
    obtain l where l: "namelen_scan ?sep q = Some l" "0 \<in> set (drop l q)" "0 < l"
      "name_starts ?sep q True = name_starts ?sep (drop l q) False"
      using name_starts_skip [OF q(2) assms] False q(3) by blast
    let ?rest = "drop l q"
    have names: "name_starts ?sep p False = q # name_starts ?sep ?rest False"
      using False q(3) l(4) by (simp add: q(6) [symmetric] qc)
    have "length ?rest \<le> fuel" using q(5) l(3) Suc.prems(2) q(4) by (cases q) auto
    note IH = Suc.IH [OF l(2) this]
    show ?thesis
    proof (cases "name_starts ?sep ?rest False = []")
      case True
      then show ?thesis
        using q(1) False l(1) IH
        by (simp add: deref_def red_simps RedNameLen_def PathHasMoreNames_names [OF l(2) assms] names)
    next
      case more: False
      show ?thesis
        using q(1) False l(1) more IH
        by (simp add: deref_def red_simps RedNameLen_def PathHasMoreNames_names [OF l(2) assms] names Let_def
            split: prod.split sum.split)
    qed
  qed
qed simp

text \<open>
  C6. \<^verbatim>\<open>RedPathToName\<close> on a terminated path returns: it looks up the names but the last one after the
  other, beginning in the root directory, and returns the inode of the last directory and the last name;
  separators before, between and behind the names do not matter. A path of separators only
  is \<open>RED_EINVAL\<close> and the empty path \<open>RED_ENOENT\<close>.
\<close>

theorem path_to_name_walks:
  assumes "0 \<in> set p" and "REDCONF_PATH_SEPARATOR cf \<noteq> 0"
  shows "RedPathToName cf (Some p) s =
    (let qs = name_starts (REDCONF_PATH_SEPARATOR cf) p False in
     if qs = [] then (Inl (if hd p = 0 then RED_ENOENT else RED_EINVAL), s)
     else bindR (lookup_names cf INODE_ROOTDIR (butlast qs)) (\<lambda>n. retR (n, last qs)) s)"
proof -
  let ?sep = "REDCONF_PATH_SEPARATOR cf"
  obtain q where q: "skip_seps ?sep p = Some q" "hd q \<noteq> ?sep" "q \<noteq> []" "length q \<le> length p"
    "length q = length p \<longleftrightarrow> hd p \<noteq> ?sep" "name_starts ?sep q False = name_starts ?sep p False"
    using skip_seps_names [OF assms] by blast
  have root: "IsRootDir cf (Some p) s = (Inr (hd p = ?sep \<and> name_starts ?sep p False = []), s)"
    using q name_starts_Nil [OF q(3,2)] by (auto simp: IsRootDir_def deref_def red_simps)
  show ?thesis
  proof (cases "hd p = 0 \<or> name_starts ?sep p False = []")
    case True
    then have "name_starts ?sep p False = [] \<and> (hd p = 0 \<or> hd p = ?sep)"
      using assms(1) name_starts_Nil [of p ?sep] by (cases p) auto
    then show ?thesis using root assms(2) by (auto simp: RedPathToName_def red_simps)
  next
    case False
    then show ?thesis
      using root walk_path_names [OF assms(2,1) order_refl] by (simp add: RedPathToName_def red_simps)
  qed
qed

text \<open>The path \<^verbatim>\<open>//a/\<close> names \<^verbatim>\<open>a\<close> in the root directory.\<close>

lemma path_to_name_walks_witness:
  "RedPathToName sample_cf (Some [47, 47, 97, 47, 0]) sample_state = (Inr (INODE_ROOTDIR, [97, 47, 0]), sample_state)"
proof -
  have "REDCONF_PATH_SEPARATOR sample_cf = 47" by (simp add: sample_defs)
  then show ?thesis
    using path_to_name_walks [of "[47, 47, 97, 47, 0]" sample_cf sample_state] by (simp add: red_simps)
qed

end
