(* ===== verification/Posix.thy ===== *)
theory Posix
  imports Path
begin

text \<open>
  The POSIX-like interface (\<^verbatim>\<open>posix/posix.c\<close>): handles and file descriptors, tasks and their error
  numbers, and the public functions. The mutex of the file system makes a call atomic, so acquiring
  and releasing it is not part of the model; \<open>tid\<close> is the calling task (\<^verbatim>\<open>RedOsTaskId\<close>). Errors are
  returned as -1 with the error number of the task set.
\<close>

section \<open>The state\<close>

definition FD_GEN_BITS :: nat where "FD_GEN_BITS = 11"
definition FD_VOL_BITS :: nat where "FD_VOL_BITS = 8"
definition FD_IDX_BITS :: nat where "FD_IDX_BITS = 12"

definition FD_GEN_MAX :: u32 where "FD_GEN_MAX = push_bit FD_GEN_BITS 1 - 1"
definition FD_VOL_MAX :: u32 where "FD_VOL_MAX = push_bit FD_VOL_BITS 1 - 1"
definition FD_IDX_MAX :: u32 where "FD_IDX_MAX = push_bit FD_IDX_BITS 1 - 1"

definition FD_MIN :: int where "FD_MIN = 3"

definition RED_O_RDONLY :: u32 where "RED_O_RDONLY = 0x01"
definition RED_O_WRONLY :: u32 where "RED_O_WRONLY = 0x02"
definition RED_O_RDWR :: u32 where "RED_O_RDWR = 0x04"
definition RED_O_APPEND :: u32 where "RED_O_APPEND = 0x08"
definition RED_O_CREAT :: u32 where "RED_O_CREAT = 0x10"
definition RED_O_EXCL :: u32 where "RED_O_EXCL = 0x20"
definition RED_O_TRUNC :: u32 where "RED_O_TRUNC = 0x40"

definition RED_O_MASK :: u32 where
  "RED_O_MASK = RED_O_RDONLY OR RED_O_WRONLY OR RED_O_RDWR OR RED_O_APPEND OR RED_O_CREAT OR RED_O_EXCL OR RED_O_TRUNC"

definition HFLAG_DIRECTORY :: u8 where "HFLAG_DIRECTORY = 0x01"
definition HFLAG_READABLE :: u8 where "HFLAG_READABLE = 0x02"
definition HFLAG_WRITEABLE :: u8 where "HFLAG_WRITEABLE = 0x04"
definition HFLAG_APPENDING :: u8 where "HFLAG_APPENDING = 0x08"

record REDDIRENT =
  d_ino :: u32
  d_name :: bytes
  d_stat :: REDSTAT

record REDHANDLE =
  h_ulInode :: u32
  h_bVolNum :: u8
  h_bFlags :: u8
  h_ullOffset :: u64
  h_dirent :: REDDIRENT

record TASKSLOT =
  ulTaskId :: u32
  iErrno :: "red_err option"

text \<open>The file system's state and the static variables of this file.\<close>

record 'd posixstate =
  fs :: "'d redstate"
  gfPosixInited :: bool
  gaHandle :: "REDHANDLE list"
  gaTask :: "TASKSLOT list"
  gauGeneration :: "u8 \<Rightarrow> u16"
  iGlobalErrno :: "red_err option"

type_synonym ('d, 'a) posM = "('d posixstate, 'a) red"
type_synonym i32 = "32 word"
type_synonym i64 = "64 word"

definition core :: "('d, 'a) redM \<Rightarrow> ('d, 'a) posM" where
  "core m = (\<lambda>p. case m (fs p) of (r, s) \<Rightarrow> (r, p\<lparr>fs := s\<rparr>))"

definition posix_assert :: "bool \<Rightarrow> 'd posixstate \<Rightarrow> 'd posixstate" where
  "posix_assert c p = p\<lparr>fs := REDASSERT c (fs p)\<rparr>"

definition upd_handle :: "nat \<Rightarrow> (REDHANDLE \<Rightarrow> REDHANDLE) \<Rightarrow> 'd posixstate \<Rightarrow> 'd posixstate" where
  "upd_handle i f p = p\<lparr>gaHandle := (gaHandle p)[i := f (gaHandle p ! i)]\<rparr>"

definition stat0 :: REDSTAT where
  "stat0 = \<lparr>st_dev = 0, st_ino = 0, st_mode = 0, st_nlink = 0, st_size = 0, st_atime = 0, st_mtime = 0,
     st_ctime = 0, st_blocks = 0\<rparr>"

definition handle0 :: "'d redconf \<Rightarrow> REDHANDLE" where
  "handle0 cf = \<lparr>h_ulInode = 0, h_bVolNum = 0, h_bFlags = 0, h_ullOffset = 0,
     h_dirent = \<lparr>d_ino = 0, d_name = replicate (REDCONF_NAME_MAX cf + 1) 0, d_stat = stat0\<rparr>\<rparr>"

text \<open>The current volume is only set when there are several.\<close>

definition set_current :: "'d redconf \<Rightarrow> u8 \<Rightarrow> ('d, unit) posM" where
  "set_current cf bVol =
     (if REDCONF_VOLUME_COUNT cf > 1 then core (RedCoreVolSetCurrent cf bVol) else skipR)"

section \<open>Tasks\<close>

text \<open>The scan of the task slots: the slot of the task and the first free slot before it.\<close>

fun scan_tasks :: "u32 \<Rightarrow> TASKSLOT list \<Rightarrow> nat \<Rightarrow> nat option \<Rightarrow> nat option \<times> nat option" where
  "scan_tasks tid [] i free = (None, free)"
| "scan_tasks tid (t # ts) i free =
     (if ulTaskId t = tid then (Some i, free)
      else scan_tasks tid ts (i + 1) (if free = None \<and> ulTaskId t = 0 then Some i else free))"

definition TaskRegister :: "'d redconf \<Rightarrow> u32 \<Rightarrow> ('d, nat) posM" where
  "TaskRegister cf tid =
     bindR (modR (posix_assert (tid \<noteq> 0))) (\<lambda>_. getR (\<lambda>p.
     case scan_tasks tid (gaTask p) 0 None of
       (Some i, _) \<Rightarrow> retR i
     | (None, None) \<Rightarrow> failR RED_EUSERS
     | (None, Some i) \<Rightarrow>
         bindR (modR (\<lambda>p. p\<lparr>gaTask := (gaTask p)[i := (gaTask p ! i)\<lparr>ulTaskId := tid\<rparr>]\<rparr>)) (\<lambda>_. retR i)))"

text \<open>The slot whose error number is used, or the global one.\<close>

definition red_errnoptr :: "'d redconf \<Rightarrow> u32 \<Rightarrow> 'd posixstate \<Rightarrow> nat option \<times> 'd posixstate" where
  "red_errnoptr cf tid p =
     (if REDCONF_TASK_COUNT cf = 1 then (None, p)
      else if \<not> gfPosixInited p then (None, p)
      else
        let p1 = posix_assert (tid \<noteq> 0) p in
        case fst (scan_tasks tid (gaTask p1) 0 None) of
          Some i \<Rightarrow> (Some i, p1)
        | None \<Rightarrow>
            (case TaskRegister cf tid p1 of
               (Inr i, p2) \<Rightarrow>
                 (Some i, posix_assert (iErrno (gaTask p2 ! i) = None)
                    (posix_assert (ulTaskId (gaTask p2 ! i) = tid) p2))
             | (Inl _, p2) \<Rightarrow> (None, p2)))"

definition set_errno :: "'d redconf \<Rightarrow> u32 \<Rightarrow> red_err \<Rightarrow> 'd posixstate \<Rightarrow> 'd posixstate" where
  "set_errno cf tid e p =
     (case red_errnoptr cf tid p of
        (None, p') \<Rightarrow> p'\<lparr>iGlobalErrno := Some e\<rparr>
      | (Some i, p') \<Rightarrow> p'\<lparr>gaTask := (gaTask p')[i := (gaTask p' ! i)\<lparr>iErrno := Some e\<rparr>]\<rparr>)"

definition PosixReturn :: "'d redconf \<Rightarrow> u32 \<Rightarrow> red_err option \<Rightarrow> 'd posixstate \<Rightarrow> i32 \<times> 'd posixstate" where
  "PosixReturn cf tid iError p =
     (case iError of None \<Rightarrow> (0, p) | Some e \<Rightarrow> (-1, set_errno cf tid e p))"

definition PosixEnter :: "'d redconf \<Rightarrow> u32 \<Rightarrow> ('d, unit) posM" where
  "PosixEnter cf tid = getR (\<lambda>p.
     if gfPosixInited p then
       (if REDCONF_TASK_COUNT cf > 1 then bindR (TaskRegister cf tid) (\<lambda>_. skipR) else skipR)
     else failR RED_EINVAL)"

definition PosixLeave :: "'d posixstate \<Rightarrow> 'd posixstate" where
  "PosixLeave p = posix_assert (gfPosixInited p) p"

text \<open>A public function: enter, run, leave, return 0 or -1 (or, below, the value).\<close>

definition entered :: "'d redconf \<Rightarrow> u32 \<Rightarrow> ('d, 'a) posM \<Rightarrow> ('d, 'a) posM" where
  "entered cf tid m = bindR (PosixEnter cf tid) (\<lambda>_. finR m PosixLeave)"

definition status_of :: "red_err + 'a \<Rightarrow> red_err option" where
  "status_of r = (case r of Inl e \<Rightarrow> Some e | Inr _ \<Rightarrow> None)"

definition posix_call :: "'d redconf \<Rightarrow> u32 \<Rightarrow> ('d, 'a) posM \<Rightarrow> 'd posixstate \<Rightarrow> i32 \<times> 'd posixstate" where
  "posix_call cf tid m p = (case m p of (r, p') \<Rightarrow> PosixReturn cf tid (status_of r) p')"

definition posix_value :: "'d redconf \<Rightarrow> u32 \<Rightarrow> ('d, i32) posM \<Rightarrow> 'd posixstate \<Rightarrow> i32 \<times> 'd posixstate" where
  "posix_value cf tid m p =
     (case m p of (Inr v, p') \<Rightarrow> (v, p') | (Inl e, p') \<Rightarrow> PosixReturn cf tid (Some e) p')"

section \<open>File descriptors\<close>

definition fd_bits :: "u16 \<Rightarrow> u8 \<Rightarrow> u16 \<Rightarrow> u32" where
  "fd_bits uGeneration bVol uHandleIdx =
     push_bit FD_IDX_BITS (push_bit FD_VOL_BITS (ucast uGeneration) OR ucast bVol) OR ucast uHandleIdx"

definition FildesPack :: "'d redconf \<Rightarrow> u16 \<Rightarrow> u8 \<Rightarrow> 'd posixstate \<Rightarrow> i32 \<times> 'd posixstate" where
  "FildesPack cf uHandleIdx bVol p =
     (if unat uHandleIdx \<ge> REDCONF_HANDLE_COUNT cf \<or> unat bVol \<ge> REDCONF_VOLUME_COUNT cf
      then (-1, posix_assert False p)
      else
        let p1 = posix_assert (ucast (gauGeneration p bVol) \<le> FD_GEN_MAX) p;
            p2 = posix_assert (gauGeneration p bVol \<noteq> 0) p1;
            iFildes = fd_bits (gauGeneration p bVol) bVol uHandleIdx
        in if sint iFildes < FD_MIN then (-1, posix_assert False p2) else (iFildes, p2))"

text \<open>The index of the handle, the volume and the generation.\<close>

definition FildesUnpack :: "i32 \<Rightarrow> u16 \<times> u8 \<times> u16" where
  "FildesUnpack iFildes =
     (let b1 = drop_bit FD_IDX_BITS iFildes; b2 = drop_bit FD_VOL_BITS b1
      in (ucast (iFildes AND FD_IDX_MAX), ucast (b1 AND FD_VOL_MAX), ucast (b2 AND FD_GEN_MAX)))"

definition assert_fd :: "i32 \<Rightarrow> ('d, unit) posM" where
  "assert_fd iFildes = modR (posix_assert (sint iFildes \<ge> FD_MIN))"

definition FildesToHandle :: "'d redconf \<Rightarrow> i32 \<Rightarrow> FTYPE \<Rightarrow> ('d, nat) posM" where
  "FildesToHandle cf iFildes expectedType =
     (if sint iFildes < FD_MIN then failR RED_EBADF
      else bindR (assert_fd iFildes) (\<lambda>_. getR (\<lambda>p.
        case FildesUnpack iFildes of (uHandleIdx, bVol, uGeneration) \<Rightarrow>
        let i = unat uHandleIdx; h = gaHandle p ! i in
        if i \<ge> REDCONF_HANDLE_COUNT cf \<or> unat bVol \<ge> REDCONF_VOLUME_COUNT cf
           \<or> h_ulInode h = INODE_INVALID \<or> h_bVolNum h \<noteq> bVol \<or> gauGeneration p bVol \<noteq> uGeneration
        then failR RED_EBADF
        else if expectedType = FTYPE_FILE \<and> h_bFlags h AND HFLAG_DIRECTORY \<noteq> 0 then failR RED_EISDIR
        else if expectedType = FTYPE_DIR \<and> h_bFlags h AND HFLAG_DIRECTORY = 0 then failR RED_ENOTDIR
        else retR i)))"

text \<open>A directory stream is a pointer to a handle: NULL, or an index; others point elsewhere.\<close>

definition DirStreamIsValid :: "'d redconf \<Rightarrow> nat option \<Rightarrow> 'd posixstate \<Rightarrow> bool" where
  "DirStreamIsValid cf pDirStream p =
     (case pDirStream of
        None \<Rightarrow> False
      | Some i \<Rightarrow>
          if i < REDCONF_HANDLE_COUNT cf then
            (let h = gaHandle p ! i in
             \<not> (h_ulInode h = INODE_INVALID \<or> unat (h_bVolNum h) \<ge> REDCONF_VOLUME_COUNT cf
                \<or> h_bFlags h AND HFLAG_DIRECTORY = 0))
          else False)"

definition ModeTypeCheck :: "u16 \<Rightarrow> FTYPE \<Rightarrow> ('d, unit) posM" where
  "ModeTypeCheck uMode expectedType =
     (if expectedType = FTYPE_FILE \<and> RED_S_ISDIR uMode then failR RED_EISDIR
      else if expectedType = FTYPE_DIR \<and> RED_S_ISREG uMode then failR RED_ENOTDIR
      else skipR)"

end
