(* ===== verification/PosixApi.thy ===== *)
theory PosixApi
  imports Posix
begin

text \<open>
  The public functions of the POSIX-like interface (\<^verbatim>\<open>posix/posix.c\<close>), with the opening and closing of
  handles and the checks before an inode is unlinked. \<open>tid\<close> is the calling task; pointers to results
  are results here.
\<close>

section \<open>Opening and closing\<close>

text \<open>The inode of the path, created if the mode says so. Result: whether it has been created.\<close>

definition open_inode :: "'d redconf \<Rightarrow> u32 \<Rightarrow> bytes \<Rightarrow> ('d, u32 \<times> bool) posM" where
  "open_inode cf ulOpenMode pszLocalPath =
     (if ulOpenMode AND RED_O_CREAT \<noteq> 0 then
        bindR (core (RedPathToName cf (Some pszLocalPath))) (\<lambda>(ulPInode, pszName).
        tryR (core (RedCoreCreate cf ulPInode (Some pszName) False)) (\<lambda>r.
        case r of
          Inr ulInode \<Rightarrow> retR (ulInode, True)
        | Inl e \<Rightarrow>
            if e = RED_EEXIST \<and> ulOpenMode AND RED_O_EXCL = 0
            then bindR (core (RedCoreLookup cf ulPInode (Some pszName) 0)) (\<lambda>ulInode. retR (ulInode, False))
            else failR e))
      else bindR (core (RedPathLookup cf (Some pszLocalPath) 0)) (\<lambda>ulInode. retR (ulInode, False)))"

text \<open>The checks on an inode that was there before. Result: its mode.\<close>

definition open_existing :: "'d redconf \<Rightarrow> u32 \<Rightarrow> FTYPE \<Rightarrow> u32 \<Rightarrow> ('d, u16) posM" where
  "open_existing cf ulOpenMode type ulInode =
     bindR (core (RedCoreStat cf ulInode)) (\<lambda>st.
     let uMode = st_mode st in
     bindR (ModeTypeCheck uMode type) (\<lambda>_.
     if RED_S_ISDIR uMode \<and> ulOpenMode AND RED_O_RDONLY = 0 then failR RED_EISDIR
     else
       bindR (if REDCONF_API_POSIX_FTRUNCATE cf \<and> ulOpenMode AND RED_O_TRUNC \<noteq> 0
              then core (RedCoreFileTruncate cf ulInode 0) else skipR) (\<lambda>_.
       retR uMode)))"

definition open_flags :: "u32 \<Rightarrow> u16 \<Rightarrow> u8" where
  "open_flags ulOpenMode uMode =
     (let f1 = (if RED_S_ISDIR uMode then HFLAG_DIRECTORY else 0);
          f2 = (if ulOpenMode AND RED_O_RDONLY \<noteq> 0 \<or> ulOpenMode AND RED_O_RDWR \<noteq> 0 then f1 OR HFLAG_READABLE else f1);
          f3 = (if ulOpenMode AND RED_O_WRONLY \<noteq> 0 \<or> ulOpenMode AND RED_O_RDWR \<noteq> 0 then f2 OR HFLAG_WRITEABLE else f2)
      in if ulOpenMode AND RED_O_APPEND \<noteq> 0 then f3 OR HFLAG_APPENDING else f3)"

definition free_handle :: "'d redconf \<Rightarrow> 'd posixstate \<Rightarrow> nat option" where
  "free_handle cf p = List.find (\<lambda>i. h_ulInode (gaHandle p ! i) = INODE_INVALID) [0..<REDCONF_HANDLE_COUNT cf]"

definition FildesOpen :: "'d redconf \<Rightarrow> bytes option \<Rightarrow> u32 \<Rightarrow> FTYPE \<Rightarrow> ('d, i32) posM" where
  "FildesOpen cf pszPath ulOpenMode type =
     bindR (core (RedPathSplit cf pszPath True)) (\<lambda>(bVol, pszLocalPath). getR (\<lambda>p.
     if fReadOnly (gaRedVolume (fs p) bVol) \<and> ulOpenMode \<noteq> RED_O_RDONLY then failR RED_EROFS
     else
       case free_handle cf p of
         None \<Rightarrow> failR RED_EMFILE
       | Some h \<Rightarrow>
           bindR (set_current cf bVol) (\<lambda>_.
           bindR (open_inode cf ulOpenMode pszLocalPath) (\<lambda>(ulInode, fCreated).
           bindR (if fCreated then retR 0 else open_existing cf ulOpenMode type ulInode) (\<lambda>uMode.
           bindR (modR (upd_handle h (\<lambda>_. (handle0 cf)\<lparr>h_ulInode := ulInode, h_bVolNum := bVol,
             h_bFlags := open_flags ulOpenMode uMode\<rparr>))) (\<lambda>_.
           \<lambda>p. case FildesPack cf (of_nat h) bVol p of
             (iFildes, p') \<Rightarrow> if iFildes = -1 then (Inl RED_EFUBAR, posix_assert False p') else (Inr iFildes, p')))))))"

definition FildesClose :: "'d redconf \<Rightarrow> i32 \<Rightarrow> ('d, unit) posM" where
  "FildesClose cf iFildes =
     bindR (FildesToHandle cf iFildes FTYPE_EITHER) (\<lambda>h. getR (\<lambda>p.
     bindR (set_current cf (h_bVolNum (gaHandle p ! h))) (\<lambda>_.
     bindR (core RedCoreTransMaskGet) (\<lambda>ulTransMask.
     bindR (if ulTransMask AND RED_TRANSACT_CLOSE \<noteq> 0 then core (RedCoreVolTransact cf) else skipR) (\<lambda>_.
     modR (upd_handle h (\<lambda>x. x\<lparr>h_ulInode := INODE_INVALID\<rparr>)))))))"

text \<open>An open handle prevents the last link of an inode from being deleted.\<close>

definition InodeUnlinkCheck :: "'d redconf \<Rightarrow> u32 \<Rightarrow> ('d, unit) posM" where
  "InodeUnlinkCheck cf ulInode =
     (let scan = getR (\<lambda>p.
            if list_ex (\<lambda>i. h_ulInode (gaHandle p ! i) = ulInode \<and> h_bVolNum (gaHandle p ! i) = gbRedVolNum (fs p))
                 [0..<REDCONF_HANDLE_COUNT cf]
            then failR RED_EBUSY else skipR)
      in if REDCONF_API_POSIX_LINK cf
         then bindR (core (RedCoreStat cf ulInode)) (\<lambda>st. if st_nlink st = 1 then scan else skipR)
         else scan)"

definition UnlinkSub :: "'d redconf \<Rightarrow> bytes option \<Rightarrow> FTYPE \<Rightarrow> ('d, unit) posM" where
  "UnlinkSub cf pszPath type =
     bindR (core (RedPathSplit cf pszPath True)) (\<lambda>(bVol, pszLocalPath).
     bindR (set_current cf bVol) (\<lambda>_.
     bindR (core (RedPathToName cf (Some pszLocalPath))) (\<lambda>(ulPInode, pszName).
     bindR (core (RedCoreLookup cf ulPInode (Some pszName) 0)) (\<lambda>ulInode.
     bindR (if type \<noteq> FTYPE_EITHER
            then bindR (core (RedCoreStat cf ulInode)) (\<lambda>st. ModeTypeCheck (st_mode st) type)
            else skipR) (\<lambda>_.
     bindR (InodeUnlinkCheck cf ulInode) (\<lambda>_.
     core (RedCoreUnlink cf ulPInode (Some pszName))))))))"

section \<open>The driver and the volumes\<close>

definition red_init :: "'d redconf \<Rightarrow> u32 \<Rightarrow> 'd posixstate \<Rightarrow> i32 \<times> 'd posixstate" where
  "red_init cf tid = posix_call cf tid (getR (\<lambda>p.
     if gfPosixInited p then skipR
     else
       bindR (core (RedCoreInit cf)) (\<lambda>_.
       modR (\<lambda>p. p\<lparr>gaHandle := replicate (REDCONF_HANDLE_COUNT cf) (handle0 cf),
         gaTask := (if REDCONF_TASK_COUNT cf > 1
                    then replicate (REDCONF_TASK_COUNT cf) \<lparr>ulTaskId = 0, iErrno = None\<rparr> else gaTask p),
         gfPosixInited := True\<rparr>))))"

definition red_uninit :: "'d redconf \<Rightarrow> u32 \<Rightarrow> 'd posixstate \<Rightarrow> i32 \<times> 'd posixstate" where
  "red_uninit cf tid = posix_call cf tid (getR (\<lambda>p.
     if gfPosixInited p then
       bindR (PosixEnter cf tid) (\<lambda>_. getR (\<lambda>p.
       if list_ex (\<lambda>v. fMounted (gaRedVolume (fs p) (of_nat v))) [0..<REDCONF_VOLUME_COUNT cf] then failR RED_EBUSY
       else
         bindR (modR (\<lambda>p. p\<lparr>gfPosixInited := False\<rparr>)) (\<lambda>_.
         tryR (core RedCoreUninit) (\<lambda>r. case r of
           Inr _ \<Rightarrow> skipR | Inl e \<Rightarrow> bindR (modR (posix_assert False)) (\<lambda>_. failR e)))))
     else skipR))"

text \<open>The volume that a name of a volume means, made the current one after the check \<open>chk\<close>.\<close>

definition on_volume :: "'d redconf \<Rightarrow> bytes option \<Rightarrow> (u8 \<Rightarrow> ('d, unit) posM) \<Rightarrow> (u8 \<Rightarrow> ('d, 'a) posM) \<Rightarrow> ('d, 'a) posM" where
  "on_volume cf pszVolume chk m =
     bindR (core (RedPathSplit cf pszVolume False)) (\<lambda>(bVol, _).
     bindR (chk bVol) (\<lambda>_.
     bindR (set_current cf bVol) (\<lambda>_. m bVol)))"

text \<open>The generation wraps to one, so that no descriptor is below 3.\<close>

definition next_generation :: "u16 \<Rightarrow> u16" where
  "next_generation g = (if ucast (g + 1) > FD_GEN_MAX then 1 else g + 1)"

definition red_mount :: "'d redconf \<Rightarrow> u32 \<Rightarrow> bytes option \<Rightarrow> 'd posixstate \<Rightarrow> i32 \<times> 'd posixstate" where
  "red_mount cf tid pszVolume = posix_call cf tid (entered cf tid (
     on_volume cf pszVolume
       (\<lambda>v. getR (\<lambda>p. if fMounted (gaRedVolume (fs p) v) then failR RED_EBUSY else skipR))
       (\<lambda>v. bindR (core (RedCoreVolMount cf)) (\<lambda>_.
         modR (\<lambda>p. p\<lparr>gauGeneration := (gauGeneration p)(v := next_generation (gauGeneration p v))\<rparr>)))))"

definition red_umount :: "'d redconf \<Rightarrow> u32 \<Rightarrow> bytes option \<Rightarrow> 'd posixstate \<Rightarrow> i32 \<times> 'd posixstate" where
  "red_umount cf tid pszVolume = posix_call cf tid (entered cf tid (
     on_volume cf pszVolume
       (\<lambda>v. getR (\<lambda>p.
         if \<not> fMounted (gaRedVolume (fs p) v) then failR RED_EINVAL
         else if list_ex (\<lambda>i. h_ulInode (gaHandle p ! i) \<noteq> INODE_INVALID \<and> h_bVolNum (gaHandle p ! i) = v)
                   [0..<REDCONF_HANDLE_COUNT cf]
         then failR RED_EBUSY else skipR))
       (\<lambda>v. core (RedCoreVolUnmount cf))))"

definition red_format :: "'d redconf \<Rightarrow> u32 \<Rightarrow> bytes option \<Rightarrow> 'd posixstate \<Rightarrow> i32 \<times> 'd posixstate" where
  "red_format cf tid pszVolume = posix_call cf tid (entered cf tid (
     on_volume cf pszVolume (\<lambda>_. skipR) (\<lambda>_. core (RedCoreVolFormat cf))))"

definition red_transact :: "'d redconf \<Rightarrow> u32 \<Rightarrow> bytes option \<Rightarrow> 'd posixstate \<Rightarrow> i32 \<times> 'd posixstate" where
  "red_transact cf tid pszVolume = posix_call cf tid (entered cf tid (
     on_volume cf pszVolume (\<lambda>_. skipR) (\<lambda>_. core (RedCoreVolTransact cf))))"

definition red_settransmask :: "'d redconf \<Rightarrow> u32 \<Rightarrow> bytes option \<Rightarrow> u32 \<Rightarrow> 'd posixstate \<Rightarrow> i32 \<times> 'd posixstate" where
  "red_settransmask cf tid pszVolume ulEventMask = posix_call cf tid (entered cf tid (
     on_volume cf pszVolume (\<lambda>_. skipR) (\<lambda>_. core (RedCoreTransMaskSet cf ulEventMask))))"

text \<open>The functions that fill in a result return it beside -1 or 0.\<close>

definition posix_out :: "'d redconf \<Rightarrow> u32 \<Rightarrow> ('d, 'a) posM \<Rightarrow> 'd posixstate \<Rightarrow> i32 \<times> 'a option \<times> 'd posixstate" where
  "posix_out cf tid m p =
     (case m p of
        (Inr x, p') \<Rightarrow> (0, Some x, p')
      | (Inl e, p') \<Rightarrow> (case PosixReturn cf tid (Some e) p' of (r, p'') \<Rightarrow> (r, None, p'')))"

definition red_gettransmask :: "'d redconf \<Rightarrow> u32 \<Rightarrow> bytes option \<Rightarrow> 'd posixstate \<Rightarrow> i32 \<times> u32 option \<times> 'd posixstate" where
  "red_gettransmask cf tid pszVolume = posix_out cf tid (entered cf tid (
     on_volume cf pszVolume (\<lambda>_. skipR) (\<lambda>_. core RedCoreTransMaskGet)))"

definition red_statvfs :: "'d redconf \<Rightarrow> u32 \<Rightarrow> bytes option \<Rightarrow> 'd posixstate \<Rightarrow> i32 \<times> REDSTATFS option \<times> 'd posixstate" where
  "red_statvfs cf tid pszVolume = posix_out cf tid (entered cf tid (
     on_volume cf pszVolume (\<lambda>_. skipR) (\<lambda>_. core (RedCoreVolStat cf))))"

section \<open>Names\<close>

definition open_mode_ok :: "'d redconf \<Rightarrow> u32 \<Rightarrow> bool" where
  "open_mode_ok cf m \<longleftrightarrow>
     \<not> (m \<noteq> m AND RED_O_MASK
        \<or> m AND (RED_O_RDONLY OR RED_O_WRONLY OR RED_O_RDWR) = 0
        \<or> (m AND RED_O_RDONLY \<noteq> 0 \<and> m AND (RED_O_WRONLY OR RED_O_RDWR) \<noteq> 0)
        \<or> (m AND RED_O_WRONLY \<noteq> 0 \<and> m AND (RED_O_RDONLY OR RED_O_RDWR) \<noteq> 0)
        \<or> (m AND RED_O_RDWR \<noteq> 0 \<and> m AND (RED_O_RDONLY OR RED_O_WRONLY) \<noteq> 0)
        \<or> (m AND (RED_O_TRUNC OR RED_O_CREAT OR RED_O_EXCL) \<noteq> 0 \<and> m AND RED_O_RDONLY \<noteq> 0)
        \<or> (m AND RED_O_EXCL \<noteq> 0 \<and> m AND RED_O_CREAT = 0))
     \<and> (REDCONF_API_POSIX_FTRUNCATE cf \<or> m AND RED_O_TRUNC = 0)"

definition red_open :: "'d redconf \<Rightarrow> u32 \<Rightarrow> bytes option \<Rightarrow> u32 \<Rightarrow> 'd posixstate \<Rightarrow> i32 \<times> 'd posixstate" where
  "red_open cf tid pszPath ulOpenMode = posix_value cf tid (
     if \<not> open_mode_ok cf ulOpenMode then failR RED_EINVAL
     else entered cf tid (FildesOpen cf pszPath ulOpenMode FTYPE_EITHER))"

definition red_unlink :: "'d redconf \<Rightarrow> u32 \<Rightarrow> bytes option \<Rightarrow> 'd posixstate \<Rightarrow> i32 \<times> 'd posixstate" where
  "red_unlink cf tid pszPath = posix_call cf tid (entered cf tid (UnlinkSub cf pszPath FTYPE_EITHER))"

definition red_mkdir :: "'d redconf \<Rightarrow> u32 \<Rightarrow> bytes option \<Rightarrow> 'd posixstate \<Rightarrow> i32 \<times> 'd posixstate" where
  "red_mkdir cf tid pszPath = posix_call cf tid (entered cf tid (
     bindR (core (RedPathSplit cf pszPath True)) (\<lambda>(bVol, pszLocalPath).
     bindR (set_current cf bVol) (\<lambda>_.
     bindR (core (RedPathToName cf (Some pszLocalPath))) (\<lambda>(ulPInode, pszName).
     core (RedCoreCreate cf ulPInode (Some pszName) True))))))"

definition red_rmdir :: "'d redconf \<Rightarrow> u32 \<Rightarrow> bytes option \<Rightarrow> 'd posixstate \<Rightarrow> i32 \<times> 'd posixstate" where
  "red_rmdir cf tid pszPath = posix_call cf tid (entered cf tid (UnlinkSub cf pszPath FTYPE_DIR))"

text \<open>Two paths on the same volume, which becomes the current one.\<close>

definition two_paths :: "'d redconf \<Rightarrow> bytes option \<Rightarrow> bytes option \<Rightarrow> (bytes \<Rightarrow> bytes \<Rightarrow> ('d, 'a) posM) \<Rightarrow> ('d, 'a) posM" where
  "two_paths cf pszPath1 pszPath2 m =
     bindR (core (RedPathSplit cf pszPath1 True)) (\<lambda>(bVolNum1, pszLocalPath1).
     bindR (core (RedPathSplit cf pszPath2 True)) (\<lambda>(bVolNum2, pszLocalPath2).
     if bVolNum1 \<noteq> bVolNum2 then failR RED_EXDEV
     else bindR (set_current cf bVolNum1) (\<lambda>_. m pszLocalPath1 pszLocalPath2)))"

text \<open>The inode that a rename replaces must not be open.\<close>

definition rename_check :: "'d redconf \<Rightarrow> u32 \<Rightarrow> bytes \<Rightarrow> ('d, unit) posM" where
  "rename_check cf ulNewPInode pszNewName =
     (if REDCONF_RENAME_ATOMIC cf then
        tryR (core (RedCoreLookup cf ulNewPInode (Some pszNewName) 0)) (\<lambda>r. case r of
          Inr ulDestInode \<Rightarrow> InodeUnlinkCheck cf ulDestInode
        | Inl e \<Rightarrow> if e = RED_ENOENT then skipR else failR e)
      else skipR)"

definition red_rename :: "'d redconf \<Rightarrow> u32 \<Rightarrow> bytes option \<Rightarrow> bytes option \<Rightarrow> 'd posixstate \<Rightarrow> i32 \<times> 'd posixstate" where
  "red_rename cf tid pszOldPath pszNewPath = posix_call cf tid (entered cf tid (
     two_paths cf pszOldPath pszNewPath (\<lambda>pszOldLocalPath pszNewLocalPath.
     bindR (core (RedPathToName cf (Some pszOldLocalPath))) (\<lambda>(ulOldPInode, pszOldName).
     bindR (core (RedPathToName cf (Some pszNewLocalPath))) (\<lambda>(ulNewPInode, pszNewName).
     bindR (rename_check cf ulNewPInode pszNewName) (\<lambda>_.
     core (RedCoreRename cf ulOldPInode (Some pszOldName) ulNewPInode (Some pszNewName))))))))"

definition red_link :: "'d redconf \<Rightarrow> u32 \<Rightarrow> bytes option \<Rightarrow> bytes option \<Rightarrow> 'd posixstate \<Rightarrow> i32 \<times> 'd posixstate" where
  "red_link cf tid pszPath pszHardLink = posix_call cf tid (entered cf tid (
     two_paths cf pszPath pszHardLink (\<lambda>pszLocalPath pszLinkLocalPath.
     bindR (core (RedPathLookup cf (Some pszLocalPath) 0)) (\<lambda>ulInode.
     bindR (core (RedPathToName cf (Some pszLinkLocalPath))) (\<lambda>(ulLinkPInode, pszLinkName).
     core (RedCoreLink cf ulLinkPInode (Some pszLinkName) ulInode))))))"

section \<open>Files\<close>

definition red_close :: "'d redconf \<Rightarrow> u32 \<Rightarrow> i32 \<Rightarrow> 'd posixstate \<Rightarrow> i32 \<times> 'd posixstate" where
  "red_close cf tid iFildes = posix_call cf tid (entered cf tid (FildesClose cf iFildes))"

text \<open>The handle of a descriptor that is open for the operation, with its volume the current one.\<close>

definition with_handle :: "'d redconf \<Rightarrow> i32 \<Rightarrow> FTYPE \<Rightarrow> u8 \<Rightarrow> (nat \<Rightarrow> ('d, 'a) posM) \<Rightarrow> ('d, 'a) posM" where
  "with_handle cf iFildes type flag m =
     bindR (FildesToHandle cf iFildes type) (\<lambda>h. getR (\<lambda>p.
     if flag \<noteq> 0 \<and> h_bFlags (gaHandle p ! h) AND flag = 0 then failR RED_EBADF
     else bindR (set_current cf (h_bVolNum (gaHandle p ! h))) (\<lambda>_. m h)))"

text \<open>A descriptor of a directory is not writable, which takes precedence over \<open>RED_EISDIR\<close>.\<close>

definition eisdir_ebadf :: "('d, 'a) posM \<Rightarrow> ('d, 'a) posM" where
  "eisdir_ebadf m = tryR m (\<lambda>r. case r of
     Inr x \<Rightarrow> retR x | Inl e \<Rightarrow> failR (if e = RED_EISDIR then RED_EBADF else e))"

text \<open>Result: what \<^verbatim>\<open>red_read\<close> returns, and the memory of \<^verbatim>\<open>pBuffer\<close>.\<close>

definition read_handle :: "'d redconf \<Rightarrow> bytes \<Rightarrow> u32 \<Rightarrow> nat \<Rightarrow> ('d, u32 \<times> bytes) posM" where
  "read_handle cf buf ulLength h = getR (\<lambda>p.
     bindR (core (RedCoreFileRead cf (h_ulInode (gaHandle p ! h)) (h_ullOffset (gaHandle p ! h)) ulLength buf)) (\<lambda>(ulLenRead, b).
     bindR (modR (posix_assert (ulLenRead \<le> ulLength))) (\<lambda>_.
     bindR (modR (upd_handle h (\<lambda>x. x\<lparr>h_ullOffset := h_ullOffset x + ucast ulLenRead\<rparr>))) (\<lambda>_.
     retR (ulLenRead, b)))))"

definition red_read :: "'d redconf \<Rightarrow> u32 \<Rightarrow> i32 \<Rightarrow> bytes \<Rightarrow> u32 \<Rightarrow> 'd posixstate \<Rightarrow> i32 \<times> bytes option \<times> 'd posixstate" where
  "red_read cf tid iFildes buf ulLength p =
     (case (if ulLength > 0x7FFFFFFF then failR RED_EINVAL
            else entered cf tid (with_handle cf iFildes FTYPE_FILE HFLAG_READABLE (read_handle cf buf ulLength))) p of
        (Inr (ulLenRead, b), p') \<Rightarrow> (ulLenRead, Some b, p')
      | (Inl e, p') \<Rightarrow> (case PosixReturn cf tid (Some e) p' of (r, p'') \<Rightarrow> (r, None, p'')))"

definition seek_append :: "'d redconf \<Rightarrow> nat \<Rightarrow> ('d, unit) posM" where
  "seek_append cf h = getR (\<lambda>p.
     if h_bFlags (gaHandle p ! h) AND HFLAG_APPENDING \<noteq> 0 then
       bindR (core (RedCoreStat cf (h_ulInode (gaHandle p ! h)))) (\<lambda>st.
       modR (upd_handle h (\<lambda>x. x\<lparr>h_ullOffset := st_size st\<rparr>)))
     else skipR)"

definition write_handle :: "'d redconf \<Rightarrow> bytes \<Rightarrow> u32 \<Rightarrow> nat \<Rightarrow> ('d, u32) posM" where
  "write_handle cf src ulLength h =
     bindR (seek_append cf h) (\<lambda>_. getR (\<lambda>p.
     bindR (core (RedCoreFileWrite cf (h_ulInode (gaHandle p ! h)) (h_ullOffset (gaHandle p ! h)) ulLength src)) (\<lambda>ulLenWrote.
     bindR (modR (posix_assert (ulLenWrote \<le> ulLength))) (\<lambda>_.
     bindR (modR (upd_handle h (\<lambda>x. x\<lparr>h_ullOffset := h_ullOffset x + ucast ulLenWrote\<rparr>))) (\<lambda>_.
     retR ulLenWrote)))))"

text \<open>The check of the type comes first, then the flag of the handle.\<close>

definition with_writeable :: "'d redconf \<Rightarrow> i32 \<Rightarrow> (nat \<Rightarrow> ('d, 'a) posM) \<Rightarrow> ('d, 'a) posM" where
  "with_writeable cf iFildes m =
     bindR (eisdir_ebadf (FildesToHandle cf iFildes FTYPE_FILE)) (\<lambda>h. getR (\<lambda>p.
     if h_bFlags (gaHandle p ! h) AND HFLAG_WRITEABLE = 0 then failR RED_EBADF
     else bindR (set_current cf (h_bVolNum (gaHandle p ! h))) (\<lambda>_. m h)))"

definition red_write :: "'d redconf \<Rightarrow> u32 \<Rightarrow> i32 \<Rightarrow> bytes \<Rightarrow> u32 \<Rightarrow> 'd posixstate \<Rightarrow> i32 \<times> 'd posixstate" where
  "red_write cf tid iFildes src ulLength = posix_value cf tid (
     if ulLength > 0x7FFFFFFF then failR RED_EINVAL
     else entered cf tid (with_writeable cf iFildes (write_handle cf src ulLength)))"

definition red_fsync :: "'d redconf \<Rightarrow> u32 \<Rightarrow> i32 \<Rightarrow> 'd posixstate \<Rightarrow> i32 \<times> 'd posixstate" where
  "red_fsync cf tid iFildes = posix_call cf tid (entered cf tid (
     with_handle cf iFildes FTYPE_EITHER 0 (\<lambda>_.
     bindR (core RedCoreTransMaskGet) (\<lambda>ulTransMask.
     if ulTransMask AND RED_TRANSACT_FSYNC \<noteq> 0 then core (RedCoreVolTransact cf) else skipR))))"

text \<open>\<open>None\<close> stands for a value that is none of the enumeration.\<close>

datatype REDWHENCE = RED_SEEK_SET | RED_SEEK_CUR | RED_SEEK_END

definition seek_from :: "'d redconf \<Rightarrow> nat \<Rightarrow> REDWHENCE option \<Rightarrow> ('d, i64) posM" where
  "seek_from cf h whence = getR (\<lambda>p.
     case whence of
       Some RED_SEEK_SET \<Rightarrow> retR 0
     | Some RED_SEEK_CUR \<Rightarrow>
         bindR (modR (posix_assert (h_ullOffset (gaHandle p ! h) \<le> 0x7FFFFFFFFFFFFFFF))) (\<lambda>_.
         retR (h_ullOffset (gaHandle p ! h)))
     | Some RED_SEEK_END \<Rightarrow>
         bindR (core (RedCoreStat cf (h_ulInode (gaHandle p ! h)))) (\<lambda>st.
         bindR (modR (posix_assert (st_size st \<le> 0x7FFFFFFFFFFFFFFF))) (\<lambda>_. retR (st_size st)))
     | None \<Rightarrow> failR RED_EINVAL)"

definition seek_handle :: "'d redconf \<Rightarrow> i64 \<Rightarrow> REDWHENCE option \<Rightarrow> nat \<Rightarrow> ('d, i64) posM" where
  "seek_handle cf llOffset whence h =
     bindR (seek_from cf h whence) (\<lambda>llFrom.
     bindR (modR (posix_assert (sint llFrom \<ge> 0))) (\<lambda>_.
     if sint llOffset > 0 \<and> llFrom + llOffset > 0x7FFFFFFFFFFFFFFF then failR RED_EINVAL
     else
       let llNewOffset = llFrom + llOffset in getR (\<lambda>p.
       if sint llNewOffset < 0 \<or> llNewOffset > ullMaxInodeSize (gpRedVolume (fs p)) then failR RED_EINVAL
       else bindR (modR (upd_handle h (\<lambda>x. x\<lparr>h_ullOffset := llNewOffset\<rparr>))) (\<lambda>_. retR llNewOffset))))"

definition red_lseek :: "'d redconf \<Rightarrow> u32 \<Rightarrow> i32 \<Rightarrow> i64 \<Rightarrow> REDWHENCE option \<Rightarrow> 'd posixstate \<Rightarrow> i64 \<times> 'd posixstate" where
  "red_lseek cf tid iFildes llOffset whence p =
     (case entered cf tid (with_handle cf iFildes FTYPE_FILE 0 (seek_handle cf llOffset whence)) p of
        (Inr v, p') \<Rightarrow> (v, p')
      | (Inl e, p') \<Rightarrow> (case PosixReturn cf tid (Some e) p' of (r, p'') \<Rightarrow> (scast r, p'')))"

definition red_ftruncate :: "'d redconf \<Rightarrow> u32 \<Rightarrow> i32 \<Rightarrow> u64 \<Rightarrow> 'd posixstate \<Rightarrow> i32 \<times> 'd posixstate" where
  "red_ftruncate cf tid iFildes ullSize = posix_call cf tid (entered cf tid (
     with_writeable cf iFildes (\<lambda>h. getR (\<lambda>p.
     core (RedCoreFileTruncate cf (h_ulInode (gaHandle p ! h)) ullSize)))))"

definition red_fstat :: "'d redconf \<Rightarrow> u32 \<Rightarrow> i32 \<Rightarrow> 'd posixstate \<Rightarrow> i32 \<times> REDSTAT option \<times> 'd posixstate" where
  "red_fstat cf tid iFildes = posix_out cf tid (entered cf tid (
     with_handle cf iFildes FTYPE_EITHER 0 (\<lambda>h. getR (\<lambda>p.
     core (RedCoreStat cf (h_ulInode (gaHandle p ! h)))))))"

section \<open>Directory streams\<close>

definition red_opendir :: "'d redconf \<Rightarrow> u32 \<Rightarrow> bytes option \<Rightarrow> 'd posixstate \<Rightarrow> nat option \<times> 'd posixstate" where
  "red_opendir cf tid pszPath p =
     (case entered cf tid (
         bindR (FildesOpen cf pszPath RED_O_RDONLY FTYPE_DIR) (\<lambda>iFildes.
         bindR (assert_fd iFildes) (\<lambda>_.
         retR (unat (fst (FildesUnpack iFildes)))))) p of
        (Inr h, p') \<Rightarrow> (Some h, p')
      | (Inl e, p') \<Rightarrow> (None, set_errno cf tid e p'))"

text \<open>
  The entry is stored in the handle. Result: the handle whose entry is returned; \<open>None\<close>, without an
  error, at the end of the directory.
\<close>

definition readdir_handle :: "'d redconf \<Rightarrow> nat \<Rightarrow> ('d, nat option) posM" where
  "readdir_handle cf h = getR (\<lambda>p.
     let x = gaHandle p ! h; ent = h_dirent x in
     bindR (modR (posix_assert (h_ullOffset x \<le> 0xFFFFFFFF))) (\<lambda>_.
     tryR (core (RedCoreDirRead cf (h_ulInode x) (ucast (h_ullOffset x)) (d_name ent) (d_ino ent))) (\<lambda>r.
     let (ret, pos, nm, ino) = (case r of
           Inl e \<Rightarrow> (Some e, ucast (h_ullOffset x), d_name ent, d_ino ent)
         | Inr out \<Rightarrow> out)
     in bindR (modR (upd_handle h (\<lambda>y. y\<lparr>h_ullOffset := ucast pos, h_dirent := (h_dirent y)\<lparr>d_name := nm, d_ino := ino\<rparr>\<rparr>))) (\<lambda>_.
        case ret of
          None \<Rightarrow>
            bindR (core (RedCoreStat cf ino)) (\<lambda>st.
            bindR (modR (upd_handle h (\<lambda>y. y\<lparr>h_dirent := (h_dirent y)\<lparr>d_stat := st\<rparr>\<rparr>))) (\<lambda>_.
            retR (Some h)))
        | Some e \<Rightarrow> if e = RED_ENOENT then retR None else failR e))))"

definition red_readdir :: "'d redconf \<Rightarrow> u32 \<Rightarrow> nat option \<Rightarrow> 'd posixstate \<Rightarrow> nat option \<times> 'd posixstate" where
  "red_readdir cf tid pDirStream p =
     (case entered cf tid (getR (\<lambda>p.
         if \<not> DirStreamIsValid cf pDirStream p then failR RED_EBADF
         else
           let h = the pDirStream in
           bindR (set_current cf (h_bVolNum (gaHandle p ! h))) (\<lambda>_. readdir_handle cf h))) p of
        (Inr ent, p') \<Rightarrow> (ent, p')
      | (Inl e, p') \<Rightarrow> (None, set_errno cf tid e p'))"

definition red_rewinddir :: "'d redconf \<Rightarrow> u32 \<Rightarrow> nat option \<Rightarrow> 'd posixstate \<Rightarrow> 'd posixstate" where
  "red_rewinddir cf tid pDirStream p =
     snd (entered cf tid (getR (\<lambda>p.
       if DirStreamIsValid cf pDirStream p then modR (upd_handle (the pDirStream) (\<lambda>x. x\<lparr>h_ullOffset := 0\<rparr>))
       else skipR)) p)"

definition red_closedir :: "'d redconf \<Rightarrow> u32 \<Rightarrow> nat option \<Rightarrow> 'd posixstate \<Rightarrow> i32 \<times> 'd posixstate" where
  "red_closedir cf tid pDirStream = posix_call cf tid (entered cf tid (getR (\<lambda>p.
     if DirStreamIsValid cf pDirStream p then modR (upd_handle (the pDirStream) (\<lambda>x. x\<lparr>h_ulInode := INODE_INVALID\<rparr>))
     else failR RED_EBADF)))"

end
