(* ===== verification/PosixCorrect.thy ===== *)
theory PosixCorrect
  imports PosixApi Samples
begin

unbundle bit_operations_syntax

text \<open>
  File descriptors: packing and unpacking, the rejection of descriptors from an earlier mount, and the
  closing of files on a volume that a critical error has made read-only.
\<close>

section \<open>The bits of a descriptor\<close>

lemma fd_max_mask: "FD_GEN_MAX = mask 11" "FD_VOL_MAX = mask 8" "FD_IDX_MAX = mask 12"
  by (simp_all add: FD_GEN_MAX_def FD_VOL_MAX_def FD_IDX_MAX_def FD_GEN_BITS_def FD_VOL_BITS_def FD_IDX_BITS_def mask_eq_decr_exp)

lemmas fd_bits_defs = FD_GEN_BITS_def FD_VOL_BITS_def FD_IDX_BITS_def

lemma bit_small: "bit x n \<Longrightarrow> unat x < 2 ^ k \<Longrightarrow> n < k" for x :: "'a::len word"
  by (metis bit_take_bit_iff take_bit_nat_eq_self word_unat_eq_iff unsigned_take_bit_eq)

lemma bit_fd_bits:
  assumes "unat i < 4096"
  shows "bit (fd_bits g v i) n \<longleftrightarrow>
    (if n < 12 then bit i n else if n < 20 then bit v (n - 12) else n < 32 \<and> bit g (n - 20))"
  using bit_small [of i n 12] bit_imp_le_length [of v "n - 12"] assms
  by (auto simp: fd_bits_def fd_bits_defs bit_simps)

lemma unpack_idx:
  assumes "unat i < 4096"
  shows "(ucast (fd_bits g v i AND FD_IDX_MAX) :: u16) = i"
proof (rule bit_word_eqI)
  fix n
  show "bit (ucast (fd_bits g v i AND FD_IDX_MAX) :: u16) n = bit i n" if "n < LENGTH(16)"
    using that bit_small [of i n 12] assms by (auto simp: fd_max_mask bit_simps bit_fd_bits [OF assms])
qed

lemma unpack_vol:
  assumes "unat i < 4096"
  shows "(ucast (drop_bit FD_IDX_BITS (fd_bits g v i) AND FD_VOL_MAX) :: u8) = v"
  by (rule bit_word_eqI) (auto simp: fd_max_mask fd_bits_defs bit_simps bit_fd_bits [OF assms])

lemma drop_vol:
  assumes "unat i < 4096"
  shows "drop_bit FD_VOL_BITS (drop_bit FD_IDX_BITS (fd_bits g v i)) = ucast g AND mask 12"
  by (rule bit_word_eqI) (auto simp: fd_bits_defs bit_simps bit_fd_bits [OF assms])

lemma unpack_gen:
  assumes "unat i < 4096" and "unat g < 2048"
  shows "(ucast (drop_bit FD_VOL_BITS (drop_bit FD_IDX_BITS (fd_bits g v i)) AND FD_GEN_MAX) :: u16) = g"
  unfolding drop_vol [OF assms(1)]
proof (rule bit_word_eqI)
  fix n
  show "bit (ucast ((ucast g AND mask 12) AND FD_GEN_MAX :: u32) :: u16) n = bit g n" if "n < LENGTH(16)"
    using that bit_small [of g n 11] assms(2) by (auto simp: fd_max_mask bit_simps)
qed

lemma FildesUnpack_bits:
  assumes "unat i < 4096" and "unat g < 2048"
  shows "FildesUnpack (fd_bits g v i) = (i, v, g)"
  using unpack_idx [OF assms(1)] unpack_vol [OF assms(1)] unpack_gen [OF assms]
  unfolding FildesUnpack_def Let_def by (simp only:)

lemma generation_range: "x div 1048576 = y \<Longrightarrow> y \<noteq> 0 \<Longrightarrow> y < 2048 \<Longrightarrow> 1048576 \<le> x \<and> x < 2147483648"
  for x y :: nat
proof -
  assume y: "x div 1048576 = y" "y \<noteq> 0" "y < 2048"
  have "x = 1048576 * y + x mod 1048576" unfolding y(1) [symmetric] by (rule mult_div_mod_eq [symmetric])
  moreover have "x mod 1048576 < 1048576" by simp
  ultimately show ?thesis using y(2,3) by (intro conjI) linarith+
qed

text \<open>The sign bit is zero, and the generation keeps the descriptor away from the small numbers.\<close>

lemma fd_bits_ge:
  assumes "unat i < 4096" and "unat g < 2048" and "g \<noteq> 0"
  shows "FD_MIN \<le> sint (fd_bits g v i)"
proof -
  let ?fd = "fd_bits g v i"
  have d: "drop_bit 20 ?fd = ucast g AND mask 12"
    using drop_vol [OF assms(1), of g v] by (simp add: fd_bits_defs drop_bit_drop_bit)
  have "ucast g AND mask 12 = (ucast g :: u32)"
  proof (rule bit_word_eqI)
    fix n
    show "bit (ucast g AND mask 12 :: u32) n = bit (ucast g :: u32) n" if "n < LENGTH(32)"
      using bit_small [of g n 11] assms(2) by (auto simp: bit_simps)
  qed
  then have "unat (ucast g AND mask 12 :: u32) = unat g"
    using assms(2) by (simp add: unsigned_ucast_eq take_bit_nat_eq_self)
  then have "unat ?fd div 2 ^ 20 = unat g"
    using arg_cong [OF d, of unat] by (simp add: drop_bit_eq_div unat_div)
  moreover have "unat g \<noteq> 0" using assms(3) by (simp add: unat_eq_zero)
  ultimately have "1048576 \<le> unat ?fd \<and> unat ?fd < 2147483648"
    using generation_range [of "unat ?fd" "unat g"] assms(2) by simp
  then have "int 1048576 \<le> int (unat ?fd)" "int (unat ?fd) < int 2147483648"
    by (simp_all only: of_nat_le_iff of_nat_less_iff)
  then show ?thesis by (simp add: FD_MIN_def sint_uint signed_take_bit_int_eq_self)
qed

section \<open>Descriptors\<close>

lemma FildesPack_bits:
  assumes "FildesPack cf i v p = (fd, p')" and "fd \<noteq> -1"
  shows "fd = fd_bits (gauGeneration p v) v i" "unat i < REDCONF_HANDLE_COUNT cf" "unat v < REDCONF_VOLUME_COUNT cf"
  using assms by (auto simp: FildesPack_def Let_def split: if_splits)

text \<open>
  C7. A descriptor that \<^verbatim>\<open>FildesPack\<close> makes is at least 3, and unpacking it gives the index of the
  handle, the volume and the generation it was made from. Until the volume is mounted again it
  leads to its handle, as long as the handle is open on the volume; after the next mount, it is
  rejected with \<open>RED_EBADF\<close> whatever the handle holds.
\<close>

theorem descriptor_round_trip:
  assumes "FildesPack cf i v p = (fd, p')" and "fd \<noteq> -1"
    and "REDCONF_HANDLE_COUNT cf \<le> 4096" and "0 < gauGeneration p v" and "unat (gauGeneration p v) < 2048"
  shows "FD_MIN \<le> sint fd \<and> FildesUnpack fd = (i, v, gauGeneration p v)
    \<and> (\<forall>q. gauGeneration q v = gauGeneration p v \<and> h_ulInode (gaHandle q ! unat i) \<noteq> INODE_INVALID
         \<and> h_bVolNum (gaHandle q ! unat i) = v \<longrightarrow> FildesToHandle cf fd FTYPE_EITHER q = (Inr (unat i), q))
    \<and> (\<forall>q ty. gauGeneration q v = next_generation (gauGeneration p v) \<longrightarrow>
         FildesToHandle cf fd ty q = (Inl RED_EBADF, q))"
proof -
  note fd = FildesPack_bits [OF assms(1,2)]
  have i: "unat i < 4096" using fd(2) assms(3) by simp
  have g: "gauGeneration p v \<noteq> 0" using assms(4) by (simp add: word_gt_0)
  have min: "FD_MIN \<le> sint fd" unfolding fd(1) by (rule fd_bits_ge [OF i assms(5) g])
  have un: "FildesUnpack fd = (i, v, gauGeneration p v)" unfolding fd(1) by (rule FildesUnpack_bits [OF i assms(5)])
  have neq: "next_generation (gauGeneration p v) \<noteq> gauGeneration p v"
    by (auto simp: next_generation_def FD_GEN_MAX_def FD_GEN_BITS_def)
  have run: "FildesToHandle cf fd ty q =
      (if h_ulInode (gaHandle q ! unat i) = INODE_INVALID \<or> h_bVolNum (gaHandle q ! unat i) \<noteq> v
          \<or> gauGeneration q v \<noteq> gauGeneration p v then (Inl RED_EBADF, q)
       else if ty = FTYPE_FILE \<and> h_bFlags (gaHandle q ! unat i) AND HFLAG_DIRECTORY \<noteq> 0 then (Inl RED_EISDIR, q)
       else if ty = FTYPE_DIR \<and> h_bFlags (gaHandle q ! unat i) AND HFLAG_DIRECTORY = 0 then (Inl RED_ENOTDIR, q)
       else (Inr (unat i), q))" for ty q
    using min un fd(2,3)
    by (simp add: FildesToHandle_def assert_fd_def posix_assert_def REDASSERT_def Let_def red_simps)
  show ?thesis using min un neq by (simp add: run)
qed

definition sample_handles :: "REDHANDLE list" where
  "sample_handles = (replicate 10 (handle0 sample_cf))[2 := (handle0 sample_cf)\<lparr>h_ulInode := 3\<rparr>]"

definition sample_posix :: "ramdisk posixstate" where
  "sample_posix = \<lparr>fs = sample_state, gfPosixInited = True, gaHandle = sample_handles, gaTask = [],
     gauGeneration = (\<lambda>_. 1), iGlobalErrno = None\<rparr>"

text \<open>The descriptor 1048578 of handle 2, before and after the volume is mounted again.\<close>

lemma descriptor_round_trip_witness:
  "FildesUnpack 1048578 = (2, 0, 1) \<and> FildesToHandle sample_cf 1048578 FTYPE_EITHER sample_posix = (Inr 2, sample_posix)
   \<and> fst (FildesToHandle sample_cf 1048578 FTYPE_EITHER (sample_posix\<lparr>gauGeneration := (\<lambda>_. 2)\<rparr>)) = Inl RED_EBADF"
proof -
  have "FildesPack sample_cf 2 0 sample_posix = (1048578, sample_posix)"
    by (simp add: FildesPack_def sample_posix_def sample_defs posix_assert_def REDASSERT_def fd_bits_def fd_bits_defs
        FD_MIN_def FD_GEN_MAX_def)
  moreover have "REDCONF_HANDLE_COUNT sample_cf \<le> 4096" by (simp add: sample_defs)
  moreover have "gauGeneration sample_posix 0 = 1" by (simp add: sample_posix_def)
  ultimately have w: "FildesUnpack 1048578 = (2, 0, 1)"
    "gauGeneration q 0 = 1 \<and> h_ulInode (gaHandle q ! 2) \<noteq> INODE_INVALID \<and> h_bVolNum (gaHandle q ! 2) = 0 \<Longrightarrow>
      FildesToHandle sample_cf 1048578 FTYPE_EITHER q = (Inr 2, q)"
    "gauGeneration q 0 = next_generation 1 \<Longrightarrow> FildesToHandle sample_cf 1048578 ty q = (Inl RED_EBADF, q)" for q ty
    using descriptor_round_trip [of sample_cf 2 0 sample_posix 1048578 sample_posix] by simp_all
  have "next_generation 1 = 2" by (simp add: next_generation_def FD_GEN_MAX_def FD_GEN_BITS_def)
  then show ?thesis
    using w(1) by (simp add: w(2,3) sample_posix_def sample_handles_def handle0_def INODE_INVALID_def)
qed

section \<open>Closing on a volume that is read-only\<close>

lemma FildesToHandle_open:
  assumes "FildesToHandle cf fd ty p = (Inr h, p')"
  shows "h < REDCONF_HANDLE_COUNT cf" "h_ulInode (gaHandle p ! h) \<noteq> INODE_INVALID"
    "unat (h_bVolNum (gaHandle p ! h)) < REDCONF_VOLUME_COUNT cf"
  using assms
  by (auto simp: FildesToHandle_def assert_fd_def posix_assert_def Let_def red_simps split: if_splits prod.splits)

text \<open>
  C8. On a mounted volume that is read-only, for example after a critical error, and that has the
  close event in its transaction mask, \<^verbatim>\<open>red_close\<close> always fails with \<open>RED_EROFS\<close> and leaves the handle
  open, so that \<^verbatim>\<open>red_umount\<close> of the volume fails with \<open>RED_EBUSY\<close> as long as the driver runs.
\<close>

theorem close_read_only:
  assumes "FildesToHandle cf fd FTYPE_EITHER p = (Inr h, p)" and "gfPosixInited p" and "REDCONF_TASK_COUNT cf = 1"
    and "gbRedVolNum (fs p) = h_bVolNum (gaHandle p ! h)"
    and "fMounted (gpRedVolume (fs p))" and "fReadOnly (gpRedVolume (fs p))" and "trans_on (fs p) RED_TRANSACT_CLOSE"
  shows "red_close cf tid fd p = (-1, p\<lparr>iGlobalErrno := Some RED_EROFS\<rparr>)
    \<and> (\<forall>path l. RedPathSplit cf path False (fs p) = (Inr (h_bVolNum (gaHandle p ! h), l), fs p) \<longrightarrow>
         red_umount cf tid path p = (-1, p\<lparr>iGlobalErrno := Some RED_EBUSY\<rparr>))"
proof -
  note h = FildesToHandle_open [OF assms(1)]
  have enter: "PosixEnter cf tid p = (Inr (), p)" using assms(2,3) by (simp add: PosixEnter_def red_simps)
  have leave: "PosixLeave p = p" using assms(2) by (simp add: PosixLeave_def posix_assert_def REDASSERT_def)
  have cur: "set_current cf (h_bVolNum (gaHandle p ! h)) p = (Inr (), p)"
    using h(3) assms(4) by (auto simp: set_current_def core_def RedCoreVolSetCurrent_def red_simps)
  have err: "set_errno cf tid e p = p\<lparr>iGlobalErrno := Some e\<rparr>" for e
    using assms(3) by (simp add: set_errno_def red_errnoptr_def)
  have mask: "core RedCoreTransMaskGet p = (Inr (ulTransMask (gpRedVolume (fs p))), p)"
    using assms(5) by (simp add: core_def RedCoreTransMaskGet_def red_simps)
  have tr: "core (RedCoreVolTransact cf) p = (Inl RED_EROFS, p)"
    using assms(5,6) by (simp add: core_def RedCoreVolTransact_def red_simps)
  have "FildesClose cf fd p = (Inl RED_EROFS, p)"
    using assms(1,7) cur mask tr by (simp add: FildesClose_def red_simps trans_on_def)
  then have "red_close cf tid fd p = (-1, p\<lparr>iGlobalErrno := Some RED_EROFS\<rparr>)"
    using enter leave err
    by (simp add: red_close_def posix_call_def entered_def red_simps status_of_def PosixReturn_def)
  moreover have "red_umount cf tid path p = (-1, p\<lparr>iGlobalErrno := Some RED_EBUSY\<rparr>)"
    if "RedPathSplit cf path False (fs p) = (Inr (h_bVolNum (gaHandle p ! h), l), fs p)" for path l
  proof -
    have "core (RedPathSplit cf path False) p = (Inr (h_bVolNum (gaHandle p ! h), l), p)"
      using that by (simp add: core_def)
    moreover have "fMounted (gaRedVolume (fs p) (h_bVolNum (gaHandle p ! h)))"
      using assms(4,5) by (simp add: gpRedVolume_def)
    moreover have "list_ex (\<lambda>i. h_ulInode (gaHandle p ! i) \<noteq> INODE_INVALID \<and> h_bVolNum (gaHandle p ! i) = h_bVolNum (gaHandle p ! h))
        [0..<REDCONF_HANDLE_COUNT cf]"
      using h by (auto simp: list_ex_iff)
    ultimately show ?thesis
      using enter leave err
      by (simp add: red_umount_def posix_call_def entered_def on_volume_def red_simps status_of_def PosixReturn_def)
  qed
  ultimately show ?thesis by blast
qed

text \<open>The sample volume, mounted, with the close event and after a critical error.\<close>

definition sample_broken :: "ramdisk posixstate" where
  "sample_broken = sample_posix\<lparr>fs := RedVolCriticalError (sample_state
     \<lparr>gaRedVolume := (\<lambda>_. sample_vol\<lparr>fMounted := True, ulTransMask := RED_TRANSACT_CLOSE\<rparr>)\<rparr>)\<rparr>"

lemma sample_split: "RedPathSplit sample_cf (Some [86, 48, 58, 0]) False s = (Inr (0, [0]), s)"
proof -
  have "REDCONF_VOLUME_COUNT sample_cf = 1" "pszPathPrefix (gaRedVolConf sample_cf 0) = Some [86, 48, 58, 0]"
    by (simp_all add: sample_defs)
  moreover have "RedStrLen (Some [86, 48, 58, 0]) = Some 3" "prefix_matches sep [86, 48, 58, 0] (Some [86, 48, 58, 0]) 3 = Some True" for sep
    by (simp_all add: RedStrLen_def prefix_matches_def RedStrNCmp_def numeral_3_eq_3)
  ultimately show ?thesis
    by (simp add: RedPathSplit_def deref_def Let_def red_simps REDASSERT_def)
qed

lemma close_read_only_witness:
  "red_close sample_cf 1 1048578 sample_broken = (-1, sample_broken\<lparr>iGlobalErrno := Some RED_EROFS\<rparr>)
   \<and> red_umount sample_cf 1 (Some [86, 48, 58, 0]) sample_broken = (-1, sample_broken\<lparr>iGlobalErrno := Some RED_EBUSY\<rparr>)"
proof -
  have "FildesToHandle sample_cf 1048578 FTYPE_EITHER sample_broken = (Inr 2, sample_broken)"
    by (simp add: FildesToHandle_def assert_fd_def posix_assert_def REDASSERT_def FildesUnpack_def FD_MIN_def
        fd_bits_defs FD_GEN_MAX_def FD_VOL_MAX_def FD_IDX_MAX_def red_simps sample_broken_def sample_posix_def
        sample_handles_def handle0_def INODE_INVALID_def sample_defs)
  moreover have "gbRedVolNum (fs sample_broken) = h_bVolNum (gaHandle sample_broken ! 2)" "gfPosixInited sample_broken"
    "fMounted (gpRedVolume (fs sample_broken))" "fReadOnly (gpRedVolume (fs sample_broken))"
    "trans_on (fs sample_broken) RED_TRANSACT_CLOSE" "h_bVolNum (gaHandle sample_broken ! 2) = 0"
    by (simp_all add: sample_broken_def sample_posix_def sample_handles_def handle0_def sample_state_def trans_on_def
        gpRedVolume_def RedVolCriticalError_def REDERROR_def upd_vol_def RED_TRANSACT_CLOSE_def)
  moreover have "REDCONF_TASK_COUNT sample_cf = 1" by (simp add: sample_defs)
  moreover have "RedPathSplit sample_cf (Some [86, 48, 58, 0]) False s = (Inr (0, [0]), s)" for s
    by (rule sample_split)
  ultimately show ?thesis
    using close_read_only [of sample_cf 1048578 sample_broken 2 1] by auto
qed

end
