(* ===== verification/Fse.thy ===== *)
theory Fse
  imports CoreOps
begin

text \<open>
  The File System Essentials interface (\<^verbatim>\<open>fse/fse.c\<close>): files are named by a volume and an inode
  number. The mutex of the file system makes a call atomic and is not part of the model. A negative
  status is an error of the sum type; the lengths are what the functions return on success.
\<close>

record 'd fsestate =
  fse_fs :: "'d redstate"
  gfFseInited :: bool

type_synonym ('d, 'a) fseM = "('d fsestate, 'a) red"

definition coreF :: "('d, 'a) redM \<Rightarrow> ('d, 'a) fseM" where
  "coreF m = (\<lambda>p. case m (fse_fs p) of (r, s) \<Rightarrow> (r, p\<lparr>fse_fs := s\<rparr>))"

definition fse_assert :: "bool \<Rightarrow> 'd fsestate \<Rightarrow> 'd fsestate" where
  "fse_assert c p = p\<lparr>fse_fs := REDASSERT c (fse_fs p)\<rparr>"

definition FseEnter :: "'d redconf \<Rightarrow> u8 \<Rightarrow> ('d, unit) fseM" where
  "FseEnter cf bVol = getR (\<lambda>p.
     if gfFseInited p then coreF (RedCoreVolSetCurrent cf bVol) else failR RED_EINVAL)"

definition FseLeave :: "'d fsestate \<Rightarrow> 'd fsestate" where
  "FseLeave p = fse_assert (gfFseInited p) p"

definition enteredF :: "'d redconf \<Rightarrow> u8 \<Rightarrow> ('d, 'a) redM \<Rightarrow> ('d, 'a) fseM" where
  "enteredF cf bVol m = bindR (FseEnter cf bVol) (\<lambda>_. finR (coreF m) FseLeave)"

definition RedFseInit :: "'d redconf \<Rightarrow> ('d, unit) fseM" where
  "RedFseInit cf = getR (\<lambda>p.
     if gfFseInited p then skipR
     else bindR (coreF (RedCoreInit cf)) (\<lambda>_. modR (\<lambda>p. p\<lparr>gfFseInited := True\<rparr>)))"

definition RedFseUninit :: "'d redconf \<Rightarrow> ('d, unit) fseM" where
  "RedFseUninit cf = getR (\<lambda>p.
     if \<not> gfFseInited p then skipR
     else if list_ex (\<lambda>v. fMounted (gaRedVolume (fse_fs p) (of_nat v))) [0..<REDCONF_VOLUME_COUNT cf]
     then failR RED_EBUSY
     else bindR (modR (\<lambda>p. p\<lparr>gfFseInited := False\<rparr>)) (\<lambda>_. coreF RedCoreUninit))"

definition RedFseMount :: "'d redconf \<Rightarrow> u8 \<Rightarrow> ('d, unit) fseM" where
  "RedFseMount cf bVol = enteredF cf bVol (getR (\<lambda>s.
     if \<not> fMounted (gpRedVolume s) then RedCoreVolMount cf else skipR))"

definition RedFseUnmount :: "'d redconf \<Rightarrow> u8 \<Rightarrow> ('d, unit) fseM" where
  "RedFseUnmount cf bVol = enteredF cf bVol (getR (\<lambda>s.
     if fMounted (gpRedVolume s) then RedCoreVolUnmount cf else skipR))"

definition RedFseFormat :: "'d redconf \<Rightarrow> u8 \<Rightarrow> ('d, unit) fseM" where
  "RedFseFormat cf bVol = enteredF cf bVol (RedCoreVolFormat cf)"

definition RedFseRead :: "'d redconf \<Rightarrow> u8 \<Rightarrow> u32 \<Rightarrow> u64 \<Rightarrow> u32 \<Rightarrow> bytes \<Rightarrow> ('d, u32 \<times> bytes) fseM" where
  "RedFseRead cf bVol ulFileNum ullFileOffset ulLength buf =
     (if ulLength > 0x7FFFFFFF then failR RED_EINVAL
      else enteredF cf bVol (RedCoreFileRead cf ulFileNum ullFileOffset ulLength buf))"

definition RedFseWrite :: "'d redconf \<Rightarrow> u8 \<Rightarrow> u32 \<Rightarrow> u64 \<Rightarrow> u32 \<Rightarrow> bytes \<Rightarrow> ('d, u32) fseM" where
  "RedFseWrite cf bVol ulFileNum ullFileOffset ulLength src =
     (if ulLength > 0x7FFFFFFF then failR RED_EINVAL
      else enteredF cf bVol (RedCoreFileWrite cf ulFileNum ullFileOffset ulLength src))"

definition RedFseTruncate :: "'d redconf \<Rightarrow> u8 \<Rightarrow> u32 \<Rightarrow> u64 \<Rightarrow> ('d, unit) fseM" where
  "RedFseTruncate cf bVol ulFileNum ullNewFileSize =
     enteredF cf bVol (RedCoreFileTruncate cf ulFileNum ullNewFileSize)"

definition RedFseSizeGet :: "'d redconf \<Rightarrow> u8 \<Rightarrow> u32 \<Rightarrow> ('d, u64) fseM" where
  "RedFseSizeGet cf bVol ulFileNum =
     bindR (enteredF cf bVol (RedCoreFileSizeGet cf ulFileNum)) (\<lambda>ullSize.
     bindR (modR (fse_assert (ullSize < 0x7FFFFFFFFFFFFFFF))) (\<lambda>_. retR ullSize))"

definition RedFseTransMaskSet :: "'d redconf \<Rightarrow> u8 \<Rightarrow> u32 \<Rightarrow> ('d, unit) fseM" where
  "RedFseTransMaskSet cf bVol ulEventMask = enteredF cf bVol (RedCoreTransMaskSet cf ulEventMask)"

definition RedFseTransMaskGet :: "'d redconf \<Rightarrow> u8 \<Rightarrow> ('d, u32) fseM" where
  "RedFseTransMaskGet cf bVol = enteredF cf bVol RedCoreTransMaskGet"

definition RedFseTransact :: "'d redconf \<Rightarrow> u8 \<Rightarrow> ('d, unit) fseM" where
  "RedFseTransact cf bVol = enteredF cf bVol (RedCoreVolTransact cf)"

end
